(* ===== verification/Prelude.thy ===== *)
theory Prelude
  imports Complex_Main "HOL-Library.Signed_Division"
begin

text \<open>
  What every component shares: the faults a run of the program can end in and the result type
  that carries them, the C loop over the pixels of an image, C's integer remainder, and the
  reading of a floating-point division.  The collection \<open>loop_simps\<close> holds the equations
  that turn a pixel loop into a statement about each pixel.
\<close>

named_theorems loop_simps

section \<open>Faults and results\<close>

text \<open>
  \<open>Abort\<close> is a call of \<open>abort()\<close>, \<open>Exit\<close> one of \<open>exit\<close>, and \<open>Fatal\<close> one of
  \<open>hawk_fatal\<close> (which ends the stand-alone program with \<open>EXIT_FAILURE\<close>).
  The others are undefined behaviour of C that a run can reach: an index outside
  an array, an integer division by zero, a null pointer followed, a variable written
  through a pointer of another type, memory used or freed after it has been freed, and a
  number in a text that its type cannot hold.
\<close>

datatype fault =
    Abort
  | Exit int
  | Fatal string
  | Out_Of_Bounds
  | Div_By_Zero
  | Null_Pointer
  | Type_Confusion
  | Use_After_Free
  | Overflow

type_synonym 'a result = "fault + 'a"

definition bind_result :: "'a result \<Rightarrow> ('a \<Rightarrow> 'b result) \<Rightarrow> 'b result" where
  "bind_result m f = (case m of Inl e \<Rightarrow> Inl e | Inr a \<Rightarrow> f a)"

lemma bind_result_simps [simp]:
  "bind_result (Inl e) f = Inl e"
  "bind_result (Inr a) f = f a"
  by (simp_all add: bind_result_def)

lemma bind_result_Inr_iff:
  "bind_result m f = Inr b \<longleftrightarrow> (\<exists>a. m = Inr a \<and> f a = Inr b)"
  by (cases m) simp_all

lemma bind_result_InrE [elim!]:
  assumes "bind_result m f = Inr b"
  obtains a where "m = Inr a" and "f a = Inr b"
  using assms by (auto simp: bind_result_Inr_iff)

lemma bind_result_cong [fundef_cong]:
  "m = m' \<Longrightarrow> (\<And>a. m' = Inr a \<Longrightarrow> f a = f' a) \<Longrightarrow> bind_result m f = bind_result m' f'"
  by (cases m') simp_all

text \<open>A null pointer followed.\<close>

definition deref :: "'a option \<Rightarrow> 'a result" where
  "deref p = (case p of None \<Rightarrow> Inl Null_Pointer | Some a \<Rightarrow> Inr a)"

lemma deref_simps [simp]: "deref None = Inl Null_Pointer" "deref (Some a) = Inr a"
  by (simp_all add: deref_def)

text \<open>An array read with its bound: what the source does not check is a fault here.\<close>

definition array_get :: "'a list \<Rightarrow> int \<Rightarrow> 'a result" where
  "array_get xs i = (if 0 \<le> i \<and> i < int (length xs) then Inr (xs ! nat i) else Inl Out_Of_Bounds)"

lemma array_get_nat [simp]: "k < length xs \<Longrightarrow> array_get xs (int k) = Inr (xs ! k)"
  by (simp add: array_get_def)

lemma nat_int_minus_one [simp]: "nat (int n - 1) = n - 1"
  by arith

lemma array_get_Inr_iff:
  "array_get xs i = Inr x \<longleftrightarrow> 0 \<le> i \<and> i < int (length xs) \<and> x = xs ! nat i"
  by (auto simp: array_get_def)

text \<open>A loop over the items of a list that ends with the first fault.\<close>

fun fold_result :: "('x \<Rightarrow> 's \<Rightarrow> 's result) \<Rightarrow> 'x list \<Rightarrow> 's \<Rightarrow> 's result" where
  "fold_result f [] s = Inr s"
| "fold_result f (x # xs) s = bind_result (f x s) (fold_result f xs)"

lemma fold_result_append: "fold_result f (xs @ ys) s = bind_result (fold_result f xs s) (fold_result f ys)"
  by (induction xs arbitrary: s) (auto simp: bind_result_def split: sum.splits)

lemma fold_result_filter:
  assumes "\<And>x s. \<not> P x \<Longrightarrow> f x s = Inr s"
  shows "fold_result f xs s = fold_result f (filter P xs) s"
  using assms by (induction xs arbitrary: s) (auto intro: bind_result_cong)

section \<open>C arithmetic\<close>

text \<open>
  C's \<open>%\<close> and \<open>/\<close> on integers round towards zero, and trap on a zero divisor.
\<close>

definition c_rem :: "int \<Rightarrow> int \<Rightarrow> int result" where
  "c_rem a b = (if b = 0 then Inl Div_By_Zero else Inr (a smod b))"

definition c_div :: "int \<Rightarrow> int \<Rightarrow> int result" where
  "c_div a b = (if b = 0 then Inl Div_By_Zero else Inr (a sdiv b))"

lemma smod_nonneg: "0 \<le> a \<Longrightarrow> 0 < b \<Longrightarrow> a smod b = a mod (b::int)"
  by (rule linorder_cases [of a 0]) (auto simp: signed_modulo_int_def)

lemma sdiv_nonneg: "0 \<le> a \<Longrightarrow> 0 < b \<Longrightarrow> a sdiv b = a div (b::int)"
  by (rule linorder_cases [of a 0]) (auto simp: signed_divide_int_def)

lemma c_rem_pos [simp]: "0 \<le> a \<Longrightarrow> 0 < b \<Longrightarrow> c_rem a b = Inr (a mod b)"
  by (simp add: c_rem_def smod_nonneg)

lemma c_div_pos [simp]: "0 \<le> a \<Longrightarrow> 0 < b \<Longrightarrow> c_div a b = Inr (a div b)"
  by (simp add: c_div_def sdiv_nonneg)

lemma c_rem_zero [simp]: "c_rem a 0 = Inl Div_By_Zero" and c_div_zero [simp]: "c_div a 0 = Inl Div_By_Zero"
  by (simp_all add: c_rem_def c_div_def)

text \<open>
  The program's \<open>real\<close> (a C floating-point type) is HOL's \<open>real\<close>: rounding is not
  modelled.  A division by zero gives an infinity or a NaN in C and would be 0 in HOL, so it
  is not left to HOL: \<open>fp_div nf x y\<close> is \<open>nf x\<close> there, for a function \<open>nf\<close>
  about which nothing is assumed, so that nothing can be concluded from such a division.
\<close>

definition fp_div :: "(real \<Rightarrow> real) \<Rightarrow> real \<Rightarrow> real \<Rightarrow> real" where
  "fp_div nf x y = (if y = 0 then nf x else x / y)"

lemma fp_div_nonzero [simp]: "y \<noteq> 0 \<Longrightarrow> fp_div nf x y = x / y"
  by (simp add: fp_div_def)

text \<open>
  The same for the partial functions of \<open>math.h\<close>: outside their domain the value is
  one about which nothing is known.  A cast of a floating-point value to \<open>int\<close> drops the
  fraction.
\<close>

definition fp_log :: "(real \<Rightarrow> real) \<Rightarrow> real \<Rightarrow> real" where
  "fp_log nf x = (if x \<le> 0 then nf x else ln x)"

definition fp_sqrt :: "(real \<Rightarrow> real) \<Rightarrow> real \<Rightarrow> real" where
  "fp_sqrt nf x = (if x < 0 then nf x else sqrt x)"

definition fp_pow :: "(real \<Rightarrow> real) \<Rightarrow> real \<Rightarrow> real \<Rightarrow> real" where
  "fp_pow nf x y = (if 0 < x then x powr y else if x = 0 \<and> 0 < y then 0 else nf x)"

text \<open>
  The complex operations of the source that divide: \<open>sp_cdiv\<close>, and the recurring
  \<open>sp_cscale(z, r/sp_cabs(z))\<close>, which gives \<open>z\<close> the modulus \<open>r\<close>.
\<close>

definition fp_cdiv :: "(real \<Rightarrow> real) \<Rightarrow> complex \<Rightarrow> complex \<Rightarrow> complex" where
  "fp_cdiv nf z w = (if w = 0 then Complex (nf (Re z)) (nf (Im z)) else z / w)"

definition with_modulus :: "(real \<Rightarrow> real) \<Rightarrow> complex \<Rightarrow> real \<Rightarrow> complex" where
  "with_modulus nf z r = (if norm z = 0 then Complex (nf r) (nf r) else (r / norm z) *\<^sub>R z)"

lemma with_modulus_nonzero [simp]: "z \<noteq> 0 \<Longrightarrow> with_modulus nf z r = (r / norm z) *\<^sub>R z"
  by (simp add: with_modulus_def)

lemma norm_with_modulus: "z \<noteq> 0 \<Longrightarrow> 0 \<le> r \<Longrightarrow> norm (with_modulus nf z r) = r"
  by simp

lemma with_modulus_same: "z \<noteq> 0 \<Longrightarrow> norm z = r \<Longrightarrow> with_modulus nf z r = z"
  by auto

definition c_int_of_real ::"real \<Rightarrow> int" where
  "c_int_of_real r = (if 0 \<le> r then \<lfloor>r\<rfloor> else \<lceil>r\<rceil>)"

lemma c_int_of_real_of_int [simp]: "c_int_of_real (real_of_int k) = k"
  by (simp add: c_int_of_real_def)

lemma c_int_of_real_0_1 [simp]: "c_int_of_real 0 = 0" "c_int_of_real 1 = 1"
  by (simp_all add: c_int_of_real_def)

lemma fp_pow_pos [simp]: "0 < x \<Longrightarrow> fp_pow nf x y = x powr y"
  by (simp add: fp_pow_def)

lemma fp_sqrt_nonneg [simp]: "0 \<le> x \<Longrightarrow> fp_sqrt nf x = sqrt x"
  by (simp add: fp_sqrt_def)

section \<open>The loop over the pixels\<close>

text \<open>
  \<open>for(i = 0; i < n; i++) a[i] = f(i, a[i]);\<close> --- the shape of nearly every loop over an
  image.  The loop is a left fold of single updates, in the order of the source.
\<close>

definition for_pixels :: "nat \<Rightarrow> (nat \<Rightarrow> 'a \<Rightarrow> 'a) \<Rightarrow> 'a list \<Rightarrow> 'a list" where
  "for_pixels n f xs = fold (\<lambda>i ys. ys[i := f i (ys ! i)]) [0..<n] xs"

lemma for_pixels_0 [simp]: "for_pixels 0 f xs = xs"
  by (simp add: for_pixels_def)

lemma for_pixels_Suc: "for_pixels (Suc n) f xs =
    (let ys = for_pixels n f xs in ys[n := f n (ys ! n)])"
  by (simp add: for_pixels_def Let_def)

lemma length_for_pixels [simp]: "length (for_pixels n f xs) = length xs"
  by (induction n) (simp_all add: for_pixels_Suc Let_def)

lemma nth_for_pixels [loop_simps]:
  "j < length xs \<Longrightarrow> for_pixels n f xs ! j = (if j < n then f j (xs ! j) else xs ! j)"
proof (induction n)
  case 0
  then show ?case by simp
next
  case (Suc n)
  then show ?case
    by (cases "j = n") (auto simp: for_pixels_Suc Let_def nth_list_update)
qed

lemma for_pixels_id: "(\<And>i. i < n \<Longrightarrow> i < length xs \<Longrightarrow> f i (xs ! i) = xs ! i) \<Longrightarrow> for_pixels n f xs = xs"
  by (rule nth_equalityI) (auto simp: nth_for_pixels)

lemma for_pixels_cong:
  "xs = ys \<Longrightarrow> (\<And>i. i < n \<Longrightarrow> i < length ys \<Longrightarrow> f i (ys ! i) = g i (ys ! i)) \<Longrightarrow>
   for_pixels n f xs = for_pixels n g ys"
  by (rule nth_equalityI) (auto simp: nth_for_pixels)

lemma for_pixels_map: "for_pixels (length xs) (\<lambda>i. g) xs = map g xs"
  by (rule nth_equalityI) (auto simp: nth_for_pixels)

lemma for_pixels_fuse:
  "for_pixels n g (for_pixels n f xs) = for_pixels n (\<lambda>i x. g i (f i x)) xs"
  by (rule nth_equalityI) (auto simp: nth_for_pixels)

text \<open>An accumulating loop: \<open>for(i = 0; i < n; i++) acc = f(i, acc);\<close>\<close>

definition for_acc :: "nat \<Rightarrow> (nat \<Rightarrow> 'b \<Rightarrow> 'b) \<Rightarrow> 'b \<Rightarrow> 'b" where
  "for_acc n f acc = fold f [0..<n] acc"

lemma for_acc_0 [simp]: "for_acc 0 f acc = acc"
  by (simp add: for_acc_def)

lemma for_acc_Suc [simp]: "for_acc (Suc n) f acc = f n (for_acc n f acc)"
  by (simp add: for_acc_def)

lemma for_acc_sum [loop_simps]:
  "for_acc n (\<lambda>i acc. acc + g i) a = a + (\<Sum>i<n. (g i :: 'a :: comm_monoid_add))"
  by (induction n) (simp_all add: add.assoc)

lemma for_acc_invariant:
  assumes "P 0 a" and "\<And>i b. i < n \<Longrightarrow> P i b \<Longrightarrow> P (Suc i) (f i b)"
  shows "P n (for_acc n f a)"
  using assms by (induction n) auto

text \<open>A running maximum, as the source computes it.\<close>

definition running_max :: "nat \<Rightarrow> (nat \<Rightarrow> real) \<Rightarrow> real \<Rightarrow> real" where
  "running_max n g m = for_acc n (\<lambda>i m. if m < g i then g i else m) m"

lemma running_max_ge: "i < n \<Longrightarrow> g i \<le> running_max n g m"
  unfolding running_max_def
  by (induction n) (auto simp: less_Suc_eq intro: order.trans[rotated])

lemma running_max_ge_start: "m \<le> running_max n g m"
  unfolding running_max_def by (induction n) auto

lemma running_max_attained: "running_max n g m = m \<or> (\<exists>i<n. running_max n g m = g i)"
  unfolding running_max_def by (induction n) (auto simp: less_Suc_eq)

end
