(* ===== verification/Image.thy ===== *)
theory Image
  imports Prelude
begin

text \<open>
  Images as the sources of \<open>src/src\<close> see them, and the library they are computed with.
  The type \<open>Image\<close> and every function named \<open>sp_...\<close> come from libspimage,
  which is not part of the repository: the functions are the fields of the record
  \<open>spimage\<close>, an argument of every definition that calls one, and nothing is assumed of
  them but what a theorem names.  The pixel type \<open>Complex\<close> of that library, its
  accessors \<open>sp_real\<close> and \<open>sp_imag\<close> and its arithmetic (\<open>sp_cinit\<close>, \<open>sp_cadd\<close>,
  \<open>sp_csub\<close>, \<open>sp_cmul\<close>, \<open>sp_cscale\<close>, \<open>sp_cabs\<close>) are read as HOL's complex
  numbers.
\<close>

section \<open>Pixels and images\<close>

abbreviation sp_real :: "complex \<Rightarrow> real" where "sp_real \<equiv> Re"
abbreviation sp_imag :: "complex \<Rightarrow> real" where "sp_imag \<equiv> Im"
abbreviation sp_cinit :: "real \<Rightarrow> real \<Rightarrow> complex" where "sp_cinit \<equiv> Complex"
abbreviation sp_cabs :: "complex \<Rightarrow> real" where "sp_cabs \<equiv> norm"

abbreviation sp_cscale :: "complex \<Rightarrow> real \<Rightarrow> complex" where
  "sp_cscale z r \<equiv> scaleR r z"

lemma norm_Complex_0 [simp]: "norm (Complex r 0) = \<bar>r\<bar>"
  by (simp add: cmod_def)

lemma complex_zero_one: "sp_cinit 0 0 = 0" "sp_cinit 1 0 = 1"
  by (simp_all add: complex_eq_iff)

text \<open>
  \<open>pixels\<close> is \<open>image->data\<close>, \<open>mask_data\<close> is \<open>mask->data\<close>; the sizes are
  those of \<open>sp_image_x\<close>, \<open>sp_image_y\<close>, \<open>sp_image_z\<close>.  Pixel \<open>(x, y, z)\<close>
  stands at index \<open>z * nx * ny + y * nx + x\<close>.
\<close>

record image =
  pixels :: "complex list"
  mask_data :: "int list"
  size_x :: nat
  size_y :: nat
  size_z :: nat
  shifted :: bool
  image_center :: "real list"

definition sp_image_size :: "image \<Rightarrow> nat" where
  "sp_image_size a = length (pixels a)"

definition wf_image :: "image \<Rightarrow> bool" where
  "wf_image a \<longleftrightarrow> length (pixels a) = size_x a * size_y a * size_z a
     \<and> length (mask_data a) = length (pixels a)"

text \<open>A loop that writes \<open>a->image->data[i]\<close> for the first \<open>n\<close> pixels.\<close>

definition on_pixels :: "nat \<Rightarrow> (nat \<Rightarrow> complex \<Rightarrow> complex) \<Rightarrow> image \<Rightarrow> image" where
  "on_pixels n f a = a\<lparr>pixels := for_pixels n f (pixels a)\<rparr>"

lemma sp_image_size_on_pixels [simp]: "sp_image_size (on_pixels n f a) = sp_image_size a"
  by (simp add: on_pixels_def sp_image_size_def)

lemma on_pixels_simps [simp]:
  "length (pixels (on_pixels n f a)) = length (pixels a)"
  "mask_data (on_pixels n f a) = mask_data a"
  "size_x (on_pixels n f a) = size_x a"
  "size_y (on_pixels n f a) = size_y a"
  "size_z (on_pixels n f a) = size_z a"
  by (simp_all add: on_pixels_def)

lemma wf_image_on_pixels [simp]: "wf_image (on_pixels n f a) = wf_image a"
  by (simp add: wf_image_def)

lemma pixels_on_pixels [loop_simps]:
  "j < length (pixels a) \<Longrightarrow>
   pixels (on_pixels n f a) ! j = (if j < n then f j (pixels a ! j) else pixels a ! j)"
  by (simp add: on_pixels_def nth_for_pixels)

lemma on_pixels_fuse:
  "on_pixels n g (on_pixels n f a) = on_pixels n (\<lambda>i x. g i (f i x)) a"
  by (simp add: on_pixels_def for_pixels_fuse)

lemma on_pixels_cong:
  "(\<And>i. i < n \<Longrightarrow> i < length (pixels a) \<Longrightarrow> f i (pixels a ! i) = g i (pixels a ! i)) \<Longrightarrow>
   on_pixels n f a = on_pixels n g a"
  by (simp add: on_pixels_def cong: for_pixels_cong)

lemma image_eqI:
  "pixels a = pixels b \<Longrightarrow> mask_data a = mask_data b \<Longrightarrow> size_x a = size_x b \<Longrightarrow>
   size_y a = size_y b \<Longrightarrow> size_z a = size_z b \<Longrightarrow> shifted a = shifted b \<Longrightarrow>
   image_center a = image_center b \<Longrightarrow> (a :: image) = b"
  by simp

section \<open>The image library as a parameter\<close>

text \<open>
  Maps of the library (\<open>sp_smap\<close>) are read through \<open>sp_smap_get_keys\<close> and
  \<open>sp_smap_get_values\<close> only, two lists of the same length: a map is the list of the
  pairs.  How \<open>sp_smap_insert\<close> places a new pair is left to the library.
\<close>

type_synonym sp_smap = "(real \<times> real) list"

abbreviation sp_smap_get_keys :: "sp_smap \<Rightarrow> real list" where "sp_smap_get_keys m \<equiv> map fst m"
abbreviation sp_smap_get_values :: "sp_smap \<Rightarrow> real list" where "sp_smap_get_values m \<equiv> map snd m"

text \<open>
  In-place operations (\<open>sp_image_dephase\<close>, \<open>sp_image_add\<close>, ...) return the new
  value of their first argument.  \<open>sp_image_duplicate\<close> with \<open>SP_COPY_DATA|SP_COPY_MASK\<close>
  copies a value and has no counterpart in a model without aliasing.
  \<open>nonfinite\<close> stands for the result of a division by zero (see \<open>fp_div\<close>);
  \<open>sp_c3matrix_raw a n\<close> is what the memory at the address of the matrix structure itself
  (not of its data) holds when it is read as \<open>n\<close> reals, which one place of the source does.
\<close>

record spimage =
  sp_image_alloc :: "nat \<Rightarrow> nat \<Rightarrow> nat \<Rightarrow> image"
  sp_image_fft :: "image \<Rightarrow> image"
  sp_image_ifft :: "image \<Rightarrow> image"
  sp_image_rephase_zero :: "image \<Rightarrow> image"
  sp_image_dephase :: "image \<Rightarrow> image"
  sp_image_to_intensities :: "image \<Rightarrow> image"
  sp_gaussian_blur :: "image \<Rightarrow> real \<Rightarrow> image"
  sp_square_blur :: "image \<Rightarrow> real \<Rightarrow> int \<Rightarrow> image"
  sp_proj_module :: "image \<Rightarrow> image \<Rightarrow> image"
  sp_proj_module_histogram :: "image \<Rightarrow> image \<Rightarrow> image option \<Rightarrow> image"
  sp_proj_support :: "image \<Rightarrow> image \<Rightarrow> image"
  sp_image_add :: "image \<Rightarrow> image \<Rightarrow> image"
  sp_image_sub :: "image \<Rightarrow> image \<Rightarrow> image"
  sp_image_scale :: "image \<Rightarrow> real \<Rightarrow> image"
  sp_image_mul_elements :: "image \<Rightarrow> image \<Rightarrow> image"
  sp_image_image_to_image :: "image \<Rightarrow> image \<Rightarrow> image"
  sp_image_cross_correlate :: "image \<Rightarrow> image \<Rightarrow> image"
  sp_image_is_valid :: "image \<Rightarrow> bool"
  sp_image_superimpose :: "image \<Rightarrow> image \<Rightarrow> image"
  sp_image_correlation_coefficient :: "image \<Rightarrow> image \<Rightarrow> real"
  bilinear_rescale :: "image \<Rightarrow> nat \<Rightarrow> nat \<Rightarrow> nat \<Rightarrow> image"
  fourier_rescale :: "image \<Rightarrow> nat \<Rightarrow> nat \<Rightarrow> nat \<Rightarrow> image"
  sp_image_shift :: "image \<Rightarrow> image"
  sp_image_dist :: "image \<Rightarrow> nat \<Rightarrow> real"
  sp_smap_insert :: "sp_smap \<Rightarrow> real \<Rightarrow> real \<Rightarrow> sp_smap"
  sp_c3matrix_froenius_prod :: "complex list \<Rightarrow> complex list \<Rightarrow> complex"
  sp_c3matrix_sub :: "complex list \<Rightarrow> complex list \<Rightarrow> complex list"
  sp_c3matrix_add :: "complex list \<Rightarrow> complex list \<Rightarrow> complex \<Rightarrow> complex list"
  sp_c3matrix_scale :: "complex list \<Rightarrow> complex \<Rightarrow> complex list"
  sp_c3matrix_raw :: "image \<Rightarrow> nat \<Rightarrow> real list result"
  nonfinite :: "real \<Rightarrow> real"

section \<open>Documented behaviour of the library, as named hypotheses\<close>

text \<open>
  The transforms keep the size of an image; \<open>sp_image_ifft\<close> is unscaled, so that it
  undoes \<open>sp_image_fft\<close> up to the number of pixels (the code divides by it every time,
  with the comment \<open>normalize\<close>); it is linear.
\<close>

definition fft_keeps_size :: "spimage \<Rightarrow> nat \<Rightarrow> bool" where
  "fft_keeps_size sp n \<longleftrightarrow>
     (\<forall>a. length (pixels a) = n \<longrightarrow> length (pixels (sp_image_fft sp a)) = n
        \<and> length (pixels (sp_image_ifft sp a)) = n)"

definition fft_inverse :: "spimage \<Rightarrow> nat \<Rightarrow> bool" where
  "fft_inverse sp n \<longleftrightarrow>
     (\<forall>a b. length (pixels a) = n \<longrightarrow> pixels b = pixels (sp_image_fft sp a) \<longrightarrow>
        pixels (sp_image_ifft sp b) = map (\<lambda>z. sp_cscale z (real n)) (pixels a))"

definition fft_onto :: "spimage \<Rightarrow> nat \<Rightarrow> bool" where
  "fft_onto sp n \<longleftrightarrow>
     (\<forall>a b. length (pixels b) = n \<longrightarrow>
        pixels a = map (\<lambda>z. sp_cscale z (1 / real n)) (pixels (sp_image_ifft sp b)) \<longrightarrow>
        pixels (sp_image_fft sp a) = pixels b)"

text \<open>Parseval's theorem for the unscaled transform.\<close>

definition fft_parseval :: "spimage \<Rightarrow> nat \<Rightarrow> bool" where
  "fft_parseval sp n \<longleftrightarrow>
     (\<forall>a b. length (pixels a) = n \<longrightarrow> length (pixels b) = n \<longrightarrow>
        (\<Sum>i<n. (sp_cabs (pixels (sp_image_fft sp a) ! i - pixels (sp_image_fft sp b) ! i))\<^sup>2) =
        real n * (\<Sum>i<n. (sp_cabs (pixels a ! i - pixels b ! i))\<^sup>2))"

definition ifft_linear :: "spimage \<Rightarrow> nat \<Rightarrow> bool" where
  "ifft_linear sp n \<longleftrightarrow>
     (\<forall>a b c r s. length (pixels a) = n \<longrightarrow> length (pixels b) = n \<longrightarrow> length (pixels c) = n \<longrightarrow>
        (\<forall>i<n. pixels c ! i = sp_cscale (pixels a ! i) r + sp_cscale (pixels b ! i) s) \<longrightarrow>
        (\<forall>i<n. pixels (sp_image_ifft sp c) ! i =
           sp_cscale (pixels (sp_image_ifft sp a) ! i) r + sp_cscale (pixels (sp_image_ifft sp b) ! i) s))"

definition scale_pointwise :: "spimage \<Rightarrow> bool" where
  "scale_pointwise sp \<longleftrightarrow>
     (\<forall>a r. sp_image_scale sp a r = a\<lparr>pixels := map (\<lambda>z. sp_cscale z r) (pixels a)\<rparr>)"

definition add_pointwise :: "spimage \<Rightarrow> bool" where
  "add_pointwise sp \<longleftrightarrow>
     (\<forall>a b. sp_image_add sp a b = a\<lparr>pixels := map2 (+) (pixels a) (pixels b)\<rparr>)"

definition sub_pointwise :: "spimage \<Rightarrow> bool" where
  "sub_pointwise sp \<longleftrightarrow>
     (\<forall>a b. sp_image_sub sp a b = a\<lparr>pixels := map2 (-) (pixels a) (pixels b)\<rparr>)"

definition dephase_pointwise :: "spimage \<Rightarrow> bool" where
  "dephase_pointwise sp \<longleftrightarrow>
     (\<forall>a. sp_image_dephase sp a = a\<lparr>pixels := map (\<lambda>z. sp_cinit (sp_cabs z) 0) (pixels a)\<rparr>)"

definition blur_keeps_size :: "spimage \<Rightarrow> bool" where
  "blur_keeps_size sp \<longleftrightarrow> (\<forall>a r. length (pixels (sp_gaussian_blur sp a r)) = length (pixels a))"

definition rephase_zero_pointwise :: "spimage \<Rightarrow> bool" where
  "rephase_zero_pointwise sp \<longleftrightarrow>
     (\<forall>a. sp_image_rephase_zero sp a = a\<lparr>pixels := map (\<lambda>z. sp_cinit (sp_cabs z) 0) (pixels a)\<rparr>)"

definition proj_module_keeps_size :: "spimage \<Rightarrow> bool" where
  "proj_module_keeps_size sp \<longleftrightarrow>
     (\<forall>a e. length (pixels e) = length (pixels a) \<longrightarrow>
        length (pixels (sp_proj_module sp a e)) = length (pixels a))"

definition smap_insert_appends :: "spimage \<Rightarrow> bool" where
  "smap_insert_appends sp \<longleftrightarrow>
     (\<forall>m k v. (\<forall>k' \<in> set (sp_smap_get_keys m). k' < k) \<longrightarrow> sp_smap_insert sp m k v = m @ [(k, v)])"

definition proj_support_pointwise :: "spimage \<Rightarrow> bool" where
  "proj_support_pointwise sp \<longleftrightarrow>
     (\<forall>a s. length (pixels s) = length (pixels a) \<longrightarrow>
        sp_proj_support sp a s = a\<lparr>pixels :=
          map2 (\<lambda>z t. if sp_real t \<noteq> 0 then z else 0) (pixels a) (pixels s)\<rparr>)"

section \<open>A concrete library\<close>

text \<open>
  An instance of the parameter on which every hypothesis above holds: the transform of two
  pixels, which has no rounding and can be evaluated.  It is used by the examples that show the
  hypotheses of a theorem can be met, and by nothing else.
\<close>

definition transform_of_two :: "complex list \<Rightarrow> complex list" where
  "transform_of_two xs = (if length xs = 2 then [xs ! 0 + xs ! 1, xs ! 0 - xs ! 1] else xs)"

definition example_library :: spimage where
  "example_library = \<lparr>
     sp_image_alloc = (\<lambda>x y z. \<lparr>pixels = replicate (x * y * z) 0, mask_data = replicate (x * y * z) 0,
        size_x = x, size_y = y, size_z = z, shifted = False, image_center = []\<rparr>),
     sp_image_fft = (\<lambda>a. a\<lparr>pixels := transform_of_two (pixels a)\<rparr>),
     sp_image_ifft = (\<lambda>a. a\<lparr>pixels := transform_of_two (pixels a)\<rparr>),
     sp_image_rephase_zero = (\<lambda>a. a\<lparr>pixels := map (\<lambda>z. sp_cinit (sp_cabs z) 0) (pixels a)\<rparr>),
     sp_image_dephase = (\<lambda>a. a\<lparr>pixels := map (\<lambda>z. sp_cinit (sp_cabs z) 0) (pixels a)\<rparr>),
     sp_image_to_intensities = (\<lambda>a. a\<lparr>pixels := map (\<lambda>z. sp_cinit ((sp_cabs z)\<^sup>2) 0) (pixels a)\<rparr>),
     sp_gaussian_blur = (\<lambda>a r. a), sp_square_blur = (\<lambda>a r k. a),
     sp_proj_module = (\<lambda>a e. a\<lparr>pixels := map2 (\<lambda>z m. if z = 0 then m else
        sp_cscale z (sp_cabs m / sp_cabs z)) (pixels a) (pixels e)\<rparr>),
     sp_proj_module_histogram = (\<lambda>a e s. a),
     sp_proj_support = (\<lambda>a s. a\<lparr>pixels :=
        map2 (\<lambda>z t. if sp_real t \<noteq> 0 then z else 0) (pixels a) (pixels s)\<rparr>),
     sp_image_add = (\<lambda>a b. a\<lparr>pixels := map2 (+) (pixels a) (pixels b)\<rparr>),
     sp_image_sub = (\<lambda>a b. a\<lparr>pixels := map2 (-) (pixels a) (pixels b)\<rparr>),
     sp_image_scale = (\<lambda>a r. a\<lparr>pixels := map (\<lambda>z. sp_cscale z r) (pixels a)\<rparr>),
     sp_image_mul_elements = (\<lambda>a b. a\<lparr>pixels := map2 (*) (pixels a) (pixels b)\<rparr>),
     sp_image_image_to_image = (\<lambda>src dst. src), sp_image_cross_correlate = (\<lambda>a b. a), sp_image_is_valid = (\<lambda>a. True),
     sp_image_superimpose = (\<lambda>a b. b), sp_image_correlation_coefficient = (\<lambda>a b. 1),
     bilinear_rescale = (\<lambda>a x y z. a), fourier_rescale = (\<lambda>a x y z. a),
     sp_image_shift = (\<lambda>a. a), sp_image_dist = (\<lambda>a i. real i),
     sp_smap_insert = (\<lambda>m k v. m @ [(k, v)]),
     sp_c3matrix_froenius_prod = (\<lambda>a b. \<Sum>i<length a. a ! i * cnj (b ! i)),
     sp_c3matrix_sub = (\<lambda>a b. map2 (-) a b),
     sp_c3matrix_add = (\<lambda>a b s. map2 (\<lambda>x y. x + s * y) a b),
     sp_c3matrix_scale = (\<lambda>a s. map (\<lambda>x. x * s) a),
     sp_c3matrix_raw = (\<lambda>a n. Inl Out_Of_Bounds), nonfinite = (\<lambda>r. r)\<rparr>"

lemma example_library_simps [simp]:
  "sp_image_fft example_library a = a\<lparr>pixels := transform_of_two (pixels a)\<rparr>"
  "sp_image_ifft example_library a = a\<lparr>pixels := transform_of_two (pixels a)\<rparr>"
  "sp_proj_module example_library a b = a\<lparr>pixels := map2 (\<lambda>z m. if z = 0 then m else
        sp_cscale z (sp_cabs m / sp_cabs z)) (pixels a) (pixels b)\<rparr>"
  "nonfinite example_library r = r" "sp_image_is_valid example_library a"
  "sp_smap_insert example_library m k v = m @ [(k, v)]"
  "sp_gaussian_blur example_library a r = a"
  "sp_image_dephase example_library a = a\<lparr>pixels := map (\<lambda>z. sp_cinit (sp_cabs z) 0) (pixels a)\<rparr>"
  "sp_image_rephase_zero example_library a = a\<lparr>pixels := map (\<lambda>z. sp_cinit (sp_cabs z) 0) (pixels a)\<rparr>"
  by (simp_all add: example_library_def)

lemma transform_of_two_simps [simp]: "transform_of_two [x, y] = [x + y, x - y]"
  by (simp add: transform_of_two_def)

lemma two_nths: "length xs = 2 \<Longrightarrow> xs = [xs ! 0, xs ! 1]"
  by (cases xs; cases "tl xs") auto

lemma all_below_two: "(\<forall>i<2. P i) \<longleftrightarrow> P 0 \<and> P (Suc 0)"
  by (auto simp: less_Suc_eq numeral_2_eq_2)

lemma example_library_laws:
  "fft_keeps_size example_library 2" "fft_inverse example_library 2" "ifft_linear example_library 2"
  "fft_onto example_library 2" "fft_parseval example_library 2"
  "scale_pointwise example_library" "add_pointwise example_library" "sub_pointwise example_library"
  "dephase_pointwise example_library" "rephase_zero_pointwise example_library"
  "blur_keeps_size example_library"
  "smap_insert_appends example_library" "proj_support_pointwise example_library"
  "proj_module_keeps_size example_library"
proof -
  show "fft_inverse example_library 2"
  proof (unfold fft_inverse_def, intro allI impI)
    fix a b :: image
    assume a: "length (pixels a) = 2" and b: "pixels b = pixels (sp_image_fft example_library a)"
    obtain x y where "pixels a = [x, y]" using two_nths [OF a] by blast
    then show "pixels (sp_image_ifft example_library b) = map (\<lambda>z. sp_cscale z (real 2)) (pixels a)"
      using b by (simp add: example_library_def transform_of_two_def scaleR_2)
  qed
next
  have sum_two: "(\<Sum>i<2. f i) = f 0 + f (Suc 0)" for f :: "nat \<Rightarrow> real"
    by (simp add: numeral_2_eq_2)
  have parallelogram: "(cmod (x + y - (u + v)))\<^sup>2 + (cmod (x - y - (u - v)))\<^sup>2
      = 2 * (cmod (x - u))\<^sup>2 + 2 * (cmod (y - v))\<^sup>2" for x y u v
    by (simp add: cmod_power2 algebra_simps) (simp add: power2_eq_square algebra_simps)
  show "fft_parseval example_library 2"
    by (auto simp: fft_parseval_def example_library_def transform_of_two_def sum_two parallelogram)
next
  show "fft_onto example_library 2"
  proof (unfold fft_onto_def, intro allI impI)
    fix a b :: image
    assume b: "length (pixels b) = 2"
      and a: "pixels a = map (\<lambda>z. sp_cscale z (1 / real 2)) (pixels (sp_image_ifft example_library b))"
    obtain x y where "pixels b = [x, y]" using two_nths [OF b] by blast
    with a show "pixels (sp_image_fft example_library a) = pixels b"
      by (simp add: example_library_def transform_of_two_def complex_eq_iff field_simps)
  qed
qed (auto simp: fft_keeps_size_def ifft_linear_def scale_pointwise_def add_pointwise_def
  sub_pointwise_def dephase_pointwise_def rephase_zero_pointwise_def blur_keeps_size_def smap_insert_appends_def
  proj_support_pointwise_def proj_module_keeps_size_def example_library_def transform_of_two_def all_below_two algebra_simps)

end
