(* ===== verification/Options.thy ===== *)
theory Options
  imports Image
begin

text \<open>
  The options structure (\<open>include/configuration.h\<close>) and its defaults
  (\<open>src/configuration.c\<close>).  The metadata table holds \<open>void *\<close> addresses of the
  fields of the one instance \<open>global_options\<close> and the code reads and writes the fields
  through them, so the structure is modelled as a typed store: one datatype of field
  addresses for each C type of field, and a record with the contents of each of them.  The field
  \<open>opts->beta\<close> is \<open>oreal opts R_beta\<close>.
\<close>

section \<open>Enumerations of the header, with their values\<close>

abbreviation (input) HIO :: int where "HIO \<equiv> 0"
abbreviation (input) RAAR :: int where "RAAR \<equiv> 1"
abbreviation (input) DIFF_MAP :: int where "DIFF_MAP \<equiv> 2"
abbreviation (input) HPR :: int where "HPR \<equiv> 3"
abbreviation (input) CFLIP :: int where "CFLIP \<equiv> 4"
abbreviation (input) RAAR_CFLIP :: int where "RAAR_CFLIP \<equiv> 5"
abbreviation (input) ESPRESSO :: int where "ESPRESSO \<equiv> 6"
abbreviation (input) HAAR :: int where "HAAR \<equiv> 7"
abbreviation (input) SO2D :: int where "SO2D \<equiv> 8"
abbreviation (input) RAAR_PROJ :: int where "RAAR_PROJ \<equiv> 9"
abbreviation (input) HIO_PROJ :: int where "HIO_PROJ \<equiv> 10"

abbreviation (input) FIXED :: int where "FIXED \<equiv> 0"
abbreviation (input) STATIC :: int where "STATIC \<equiv> 1"
abbreviation (input) STEPPED :: int where "STEPPED \<equiv> 2"
abbreviation (input) REAL_ERROR_CAPPED :: int where "REAL_ERROR_CAPPED \<equiv> 3"
abbreviation (input) REAL_ERROR_ADAPTATIVE :: int where "REAL_ERROR_ADAPTATIVE \<equiv> 4"
abbreviation (input) CONSTANT_AREA :: int where "CONSTANT_AREA \<equiv> 5"
abbreviation (input) DECREASING_AREA :: int where "DECREASING_AREA \<equiv> 6"
abbreviation (input) COMPLEX_DECREASING_AREA :: int where "COMPLEX_DECREASING_AREA \<equiv> 7"
abbreviation (input) TEMPLATE_AREA :: int where "TEMPLATE_AREA \<equiv> 8"

abbreviation (input) GAUSSIAN_BLUR_REDUCTION :: int where "GAUSSIAN_BLUR_REDUCTION \<equiv> 0"
abbreviation (input) GEOMETRICAL_BLUR_REDUCTION :: int where "GEOMETRICAL_BLUR_REDUCTION \<equiv> 1"

abbreviation (input) PHASES_FROM_SUPPORT :: int where "PHASES_FROM_SUPPORT \<equiv> 0"
abbreviation (input) PHASES_ZERO :: int where "PHASES_ZERO \<equiv> 1"
abbreviation (input) PHASES_RANDOM :: int where "PHASES_RANDOM \<equiv> 2"

abbreviation (input) IntensitiesProjection :: int where "IntensitiesProjection \<equiv> 0"
abbreviation (input) NoProjection :: int where "NoProjection \<equiv> 1"

section \<open>The fields of the structure\<close>

datatype real_field =
    R_max_blur_radius | R_init_level | R_beta | R_noise | R_beamstop | R_new_level
  | R_min_blur | R_exp_sigma | R_dyn_beta | R_real_error_threshold | R_charge_flip_sigma
  | R_espresso_tau | R_square_mask | R_patterson_blur_radius | R_perturb_weak_reflections
  | R_real_error_tolerance | R_object_area | R_image_blur_radius | R_min_object_area
  | R_phases_max_blur_radius | R_phases_min_blur_radius | R_gamma1 | R_gamma2
  | R_autocorrelation_area | R_template_blur_radius

datatype int_field =
    I_iterations | I_iterations_to_min_blur | I_blur_radius_reduction_method | I_enforce_real
  | I_output_period | I_log_output_period | I_algorithm | I_rand_phases | I_rand_intensities
  | I_cur_iteration | I_adapt_thres | I_automatic | I_support_update_algorithm
  | I_support_closure_radius | I_output_precision
  | I_error_reduction_iterations_in_support_update | I_enforce_positivity
  | I_genetic_optimization | I_rescale_amplitudes | I_remove_central_pixel_phase | I_nthreads
  | I_break_centrosym_period | I_reconstruction_finished | I_max_iterations
  | I_patterson_level_algorithm | I_center_image | I_image_blur_period
  | I_iterations_to_min_object_area | I_is_running | I_iterations_to_min_phases_blur
  | I_filter_intensities | I_support_image_averaging | I_random_seed | I_save_remote_files
  | I_debug_level | I_enforce_centrosymmetry | I_realspace_starting_point | I_enforce_ramp
  | I_phasing_engine | I_output_projection | I_error_reduction_iterations_after_loop

datatype string_field =
    S_diffraction_filename | S_real_image_filename | S_support_mask_filename
  | S_init_support_filename | S_image_guess_filename | S_log_file | S_commandline | S_work_dir
  | S_remote_work_dir | S_solution_filename | S_intensities_std_dev_filename
  | S_autocorrelation_support_filename

datatype vector_field =
    V_object_area_at_checkpoints | V_object_area_checkpoints | V_beta_at_checkpoints
  | V_beta_checkpoints

datatype map_field =
    M_object_area_evolution | M_threshold_evolution | M_support_blur_evolution
  | M_beta_evolution | M_phases_blur_evolution | M_template_area_evolution

datatype image_field =
    P_diffraction | P_amplitudes | P_real_image | P_support_mask | P_init_support
  | P_image_guess | P_solution_image | P_intensities_std_dev | P_autocorrelation_support

text \<open>
  Pointers of the structure are options (\<open>None\<close> is \<open>NULL\<close>); an
  \<open>sp_vector\<close> is the list of its elements.  \<open>flog\<close> says whether the log file is open.
\<close>

record options =
  oreal :: "real_field \<Rightarrow> real"
  oint :: "int_field \<Rightarrow> int"
  ostring :: "string_field \<Rightarrow> string"
  ovector :: "vector_field \<Rightarrow> real list option"
  omap :: "map_field \<Rightarrow> sp_smap option"
  oimage :: "image_field \<Rightarrow> image option"
  flog :: bool

text \<open>Assignments to fields, in order.\<close>

definition assign_all :: "('k \<Rightarrow> 'v) \<Rightarrow> ('k \<times> 'v) list \<Rightarrow> ('k \<Rightarrow> 'v)" where
  "assign_all f ps = fold (\<lambda>(k, v) g. g(k := v)) ps f"

lemma assign_all_simps [simp]:
  "assign_all f [] = f"
  "assign_all f ((k, v) # ps) = assign_all (f(k := v)) ps"
  by (simp_all add: assign_all_def)

definition set_int :: "int_field \<Rightarrow> int \<Rightarrow> options \<Rightarrow> options" where
  "set_int k v opt = opt\<lparr>oint := (oint opt)(k := v)\<rparr>"

definition set_map :: "map_field \<Rightarrow> sp_smap option \<Rightarrow> options \<Rightarrow> options" where
  "set_map k v opt = opt\<lparr>omap := (omap opt)(k := v)\<rparr>"

definition set_image :: "image_field \<Rightarrow> image option \<Rightarrow> options \<Rightarrow> options" where
  "set_image k v opt = opt\<lparr>oimage := (oimage opt)(k := v)\<rparr>"

lemma set_int_simps [simp]:
  "oint (set_int k v opt) = (oint opt)(k := v)" "oreal (set_int k v opt) = oreal opt"
  "ostring (set_int k v opt) = ostring opt" "ovector (set_int k v opt) = ovector opt"
  "omap (set_int k v opt) = omap opt" "oimage (set_int k v opt) = oimage opt"
  "flog (set_int k v opt) = flog opt"
  by (simp_all add: set_int_def)

lemma set_map_simps [simp]:
  "omap (set_map k v opt) = (omap opt)(k := v)" "oint (set_map k v opt) = oint opt"
  "oreal (set_map k v opt) = oreal opt" "ovector (set_map k v opt) = ovector opt"
  "oimage (set_map k v opt) = oimage opt" "ostring (set_map k v opt) = ostring opt"
  by (simp_all add: set_map_def)

lemma set_image_simps [simp]:
  "oimage (set_image k v opt) = (oimage opt)(k := v)" "oint (set_image k v opt) = oint opt"
  "oreal (set_image k v opt) = oreal opt" "ovector (set_image k v opt) = ovector opt"
  "omap (set_image k v opt) = omap opt" "ostring (set_image k v opt) = ostring opt"
  by (simp_all add: set_image_def)

section \<open>Defaults\<close>

text \<open>
  \<open>set_defaults\<close>, in the groups of the field types.  \<open>sz\<close> is \<open>sizeof(real)\<close>
  and \<open>engine\<close> the value of \<open>SpEngineAutomatic\<close>, both fixed by the image library.
  Two maps of two points are built by \<open>sp_smap_insert\<close>; \<open>two_points\<close> is that pair of
  calls.
\<close>

definition two_points :: "spimage \<Rightarrow> real \<Rightarrow> real \<Rightarrow> real \<Rightarrow> real \<Rightarrow> sp_smap" where
  "two_points sp k1 v1 k2 v2 = sp_smap_insert sp (sp_smap_insert sp [] k1 v1) k2 v2"

definition default_reals :: "(real_field \<times> real) list" where
  "default_reals =
    [(R_max_blur_radius, 3), (R_init_level, 4 / 100), (R_beta, 9 / 10), (R_noise, 0),
     (R_beamstop, 0), (R_new_level, 20 / 100), (R_min_blur, 7 / 10), (R_exp_sigma, 0),
     (R_dyn_beta, 0), (R_real_error_threshold, -1), (R_charge_flip_sigma, 5 / 100),
     (R_espresso_tau, 5 / 100), (R_square_mask, 0), (R_patterson_blur_radius, 0),
     (R_real_error_tolerance, -1), (R_object_area, 0), (R_image_blur_radius, 0),
     (R_min_object_area, 0), (R_phases_min_blur_radius, 0), (R_phases_max_blur_radius, 0),
     (R_gamma1, -10000), (R_gamma2, -10000), (R_autocorrelation_area, 1 / 10),
     (R_template_blur_radius, 5)]"

definition default_ints :: "int \<Rightarrow> int \<Rightarrow> (int_field \<times> int) list" where
  "default_ints sz engine =
    [(I_iterations, 20), (I_output_period, 100), (I_log_output_period, 20), (I_algorithm, HIO),
     (I_rand_phases, 0), (I_rand_intensities, 0), (I_cur_iteration, 0), (I_adapt_thres, 0),
     (I_automatic, 0), (I_support_update_algorithm, DECREASING_AREA),
     (I_support_closure_radius, 0), (I_center_image, 0), (I_iterations_to_min_blur, 7000),
     (I_blur_radius_reduction_method, GAUSSIAN_BLUR_REDUCTION), (I_output_precision, sz),
     (I_error_reduction_iterations_in_support_update, 0), (I_enforce_positivity, 0),
     (I_genetic_optimization, 0), (I_rescale_amplitudes, 1), (I_remove_central_pixel_phase, 0),
     (I_nthreads, 1), (I_break_centrosym_period, 0), (I_reconstruction_finished, 0),
     (I_max_iterations, 0), (I_patterson_level_algorithm, FIXED), (I_image_blur_period, 0),
     (I_iterations_to_min_object_area, 0), (I_is_running, 0),
     (I_iterations_to_min_phases_blur, 0), (I_filter_intensities, 0),
     (I_support_image_averaging, 1), (I_random_seed, -1), (I_save_remote_files, 0),
     (I_debug_level, 0), (I_realspace_starting_point, 0), (I_enforce_ramp, 0),
     (I_phasing_engine, engine), (I_output_projection, IntensitiesProjection)]"

definition default_strings :: "(string_field \<times> string) list" where
  "default_strings =
    [(S_diffraction_filename, ''''), (S_real_image_filename, ''''),
     (S_support_mask_filename, ''''), (S_init_support_filename, ''''),
     (S_image_guess_filename, ''''), (S_intensities_std_dev_filename, ''''),
     (S_autocorrelation_support_filename, ''''), (S_work_dir, ''.''), (S_remote_work_dir, ''''),
     (S_log_file, ''uwrapc.log''), (S_solution_filename, '''')]"

definition default_maps :: "spimage \<Rightarrow> (map_field \<times> sp_smap option) list" where
  "default_maps sp =
    [(M_beta_evolution, Some (two_points sp 0 (9 / 10) 2000 (9 / 10))),
     (M_threshold_evolution, None),
     (M_object_area_evolution, Some (two_points sp 0 (1 / 1000) 2000 (1 / 1000))),
     (M_support_blur_evolution, Some (two_points sp 0 3 5000 (7 / 10))),
     (M_phases_blur_evolution, Some (two_points sp 0 0 5000 0)),
     (M_template_area_evolution, Some (two_points sp 0 1 5000 1))]"

definition set_defaults :: "spimage \<Rightarrow> int \<Rightarrow> int \<Rightarrow> options \<Rightarrow> options" where
  "set_defaults sp sz engine opt = opt\<lparr>
     oreal := assign_all (oreal opt) default_reals,
     oint := assign_all (oint opt) (default_ints sz engine),
     ostring := assign_all (ostring opt) default_strings,
     ovector := assign_all (ovector opt)
       [(V_object_area_checkpoints, None), (V_object_area_at_checkpoints, None),
        (V_beta_checkpoints, None), (V_beta_at_checkpoints, None)],
     omap := assign_all (omap opt) (default_maps sp),
     oimage := assign_all (oimage opt)
       [(P_diffraction, None), (P_real_image, None), (P_support_mask, None),
        (P_init_support, None), (P_image_guess, None)]\<rparr>"

end
