(* ===== verification/Evolution.thy ===== *)
theory Evolution
  imports Options
begin

text \<open>
  The parameters that change during a reconstruction (\<open>src/configuration.c\<close>): the
  relaxation parameter \<open>beta\<close>, the blur radii, the object and template area and the two
  \<open>gamma\<close>s of the difference map, each computed from the options and
  \<open>cur_iteration\<close>.  Three interpolations are used: a Bezier curve between the points of
  a map, a Fermi-Dirac step between checkpoints, and closed formulas.  The lemmas show that
  the Bezier parameter is the solution of the cubic it was derived from, and that
  the curve stays between the two values it joins.
\<close>

section \<open>Bezier interpolation of a map\<close>

text \<open>
  The loop \<open>for(idx = 0; idx < size; idx++) if(x < keys[idx]) break;\<close>
\<close>

fun first_greater :: "real \<Rightarrow> real list \<Rightarrow> nat" where
  "first_greater x [] = 0"
| "first_greater x (k # ks) = (if x < k then 0 else Suc (first_greater x ks))"

text \<open>
  The expression under the cube root, and the parameter \<open>t\<close>, as the source spells
  them.  The literals \<open>-0.3333333333333333\<close> and \<open>0.3333333333333333\<close> are read as
  the thirds they are the nearest doubles of.
\<close>

definition bezier_radicand :: "(real \<Rightarrow> real) \<Rightarrow> real \<Rightarrow> real \<Rightarrow> real \<Rightarrow> real" where
  "bezier_radicand nf p0x p3x x =
     8*p0x*p3x*x - 2*p3x*p0x^2 - 4*x*p0x^2 + 2*p0x^3 - 2*p0x*p3x^2 - 4*x*p3x^2 + 2*p3x^3
     + fp_pow nf ((p0x - p3x)^4 *
         (6*p0x*p3x - 16*p0x*x - 16*p3x*x + 5*p0x^2 + 5*p3x^2 + 16*x^2)) (1/2)"

definition bezier_t :: "(real \<Rightarrow> real) \<Rightarrow> real \<Rightarrow> real \<Rightarrow> real \<Rightarrow> real" where
  "bezier_t nf p0x p3x x =
     (2 - 2*(p0x - p3x) * fp_pow nf (bezier_radicand nf p0x p3x x) (-1/3)
        + 2*fp_div nf 1 (p0x - p3x) * fp_pow nf (bezier_radicand nf p0x p3x x) (1/3)) / 4"

definition bezier_y :: "real \<Rightarrow> real \<Rightarrow> real \<Rightarrow> real" where
  "bezier_y p0y p3y t = 3*p0y*t*(1 - t)^2 + p0y*(1 - t)^3 + 3*p3y*(1 - t)*t^2 + p3y*t^3"

definition bezier_map_interpolation :: "(real \<Rightarrow> real) \<Rightarrow> sp_smap \<Rightarrow> real \<Rightarrow> real result" where
  "bezier_map_interpolation nf m x =
    (let keys = sp_smap_get_keys m; vals = sp_smap_get_values m; idx = first_greater x keys in
     if idx = 0 then array_get vals 0
     else if idx = length keys then array_get vals (int (length keys) - 1)
     else let p0y = vals ! (idx - 1); p0x = keys ! (idx - 1); p3y = vals ! idx; p3x = keys ! idx
       in Inr (bezier_y p0y p3y (bezier_t nf p0x p3x x)))"

subsection \<open>The search for the interval\<close>

lemma first_greater_le: "first_greater x ks \<le> length ks"
  by (induction ks) auto

lemma first_greater_before: "i < first_greater x ks \<Longrightarrow> ks ! i \<le> x"
proof (induction ks arbitrary: i)
  case (Cons k ks)
  then show ?case by (cases i) (auto split: if_splits)
qed simp

lemma first_greater_at: "first_greater x ks < length ks \<Longrightarrow> x < ks ! first_greater x ks"
  by (induction ks) (auto split: if_splits)

lemma first_greater_all: "\<forall>k \<in> set ks. x < k \<Longrightarrow> first_greater x ks = 0"
  by (cases ks) auto

lemma first_greater_at_key: "sorted_wrt (<) ks \<Longrightarrow> j < length ks \<Longrightarrow> first_greater (ks ! j) ks = Suc j"
proof (induction ks arbitrary: j)
  case (Cons k ks)
  show ?case
  proof (cases j)
    case 0
    then show ?thesis using Cons.prems by (simp add: first_greater_all)
  next
    case (Suc i)
    then have "k < ks ! i" using Cons.prems by simp
    then have "\<not> ks ! i < k" by simp
    then show ?thesis using Cons Suc by simp
  qed
qed simp

subsection \<open>The parameter of the curve\<close>

lemma bezier_radicand_shape:
  assumes "a < b"
  shows "bezier_radicand nf a b x =
    (b - a)^3 * (2 * (1 - 2 * ((x - a) / (b - a))) + sqrt (4 * (1 - 2 * ((x - a) / (b - a)))^2 + 1))"
proof -
  define h where "h = b - a"
  define u where "u = (x - a) / h"
  define s where "s = 1 - 2 * u"
  have h: "0 < h" using assms by (simp add: h_def)
  have x: "x = a + u * h" using h by (simp add: u_def)
  have b: "b = a + h" by (simp add: h_def)
  have lin: "8*a*b*x - 2*b*a^2 - 4*x*a^2 + 2*a^3 - 2*a*b^2 - 4*x*b^2 + 2*b^3 = h^3 * (2 * s)"
    by (simp add: x b s_def algebra_simps power2_eq_square power3_eq_cube)
  have quad: "(a - b)^4 * (6*a*b - 16*a*x - 16*b*x + 5*a^2 + 5*b^2 + 16*x^2) = (h^3)^2 * (4 * s^2 + 1)"
    by (simp add: x b s_def algebra_simps power2_eq_square power3_eq_cube power4_eq_xxxx)
  have pos: "0 < (h^3)^2 * (4 * s^2 + 1)"
    using h by (intro mult_pos_pos) (auto intro: add_nonneg_pos)
  have root: "((h^3)^2 * (4 * s^2 + 1)) powr (1/2) = h^3 * sqrt (4 * s^2 + 1)"
  proof -
    have "((h^3)^2 * (4 * s^2 + 1)) powr (1/2) = sqrt ((h^3)^2 * (4 * s^2 + 1))"
      using pos by (intro powr_half_sqrt) simp
    also have "\<dots> = \<bar>h^3\<bar> * sqrt (4 * s^2 + 1)"
      by (simp only: real_sqrt_mult real_sqrt_abs)
    finally show ?thesis using h by simp
  qed
  have "bezier_radicand nf a b x = h^3 * (2 * s) + h^3 * sqrt (4 * s^2 + 1)"
    unfolding bezier_radicand_def lin quad using pos root by simp
  then show ?thesis
    by (simp add: s_def u_def h_def distrib_left)
qed

text \<open>The cube root of the radicand solves a depressed cubic.\<close>

lemma asinh_cubic:
  fixes s :: real
  assumes "F = 2 * s + sqrt (4 * s^2 + 1)" and "v = F powr (1/3)"
  shows "0 < F" and "0 < v" and "(1 / v - v)^3 + 3 * (1 / v - v) = - 4 * s"
proof -
  have less: "\<bar>2 * s\<bar> < sqrt (4 * s^2 + 1)"
    by (rule real_less_rsqrt) (simp add: power2_eq_square)
  then show F: "0 < F" using assms(1) by linarith
  show v: "0 < v" using F assms(2) by simp
  have "v^3 = v powr 3" using v by (simp add: powr_numeral)
  also have "\<dots> = F" using F by (simp add: assms(2) powr_powr)
  finally have v3: "v^3 = F" .
  have "F * (sqrt (4 * s^2 + 1) - 2 * s) = 1"
    by (simp add: assms(1) algebra_simps power2_eq_square)
  then have inv: "1 / F = sqrt (4 * s^2 + 1) - 2 * s" using F by (simp add: field_simps)
  have "(1 / v - v)^3 + 3 * (1 / v - v) = 1 / v^3 - v^3"
    using v by (simp add: field_simps power3_eq_cube)
  then show "(1 / v - v)^3 + 3 * (1 / v - v) = - 4 * s"
    using inv by (simp add: v3 assms(1))
qed

lemma bezier_t_cubic:
  assumes "a < b" and t_def: "t = bezier_t nf a b x"
  shows "2 * t^3 - 3 * t^2 + 3 * t = 2 * ((x - a) / (b - a))"
proof -
  define h where "h = b - a"
  define s where "s = 1 - 2 * ((x - a) / (b - a))"
  define F where "F = 2 * s + sqrt (4 * s^2 + 1)"
  define v where "v = F powr (1/3)"
  have h: "0 < h" using assms(1) by (simp add: h_def)
  have F: "0 < F" and v: "0 < v" and cubic: "(1 / v - v)^3 + 3 * (1 / v - v) = - 4 * s"
    using asinh_cubic [OF F_def v_def] by simp_all
  have E: "bezier_radicand nf a b x = h^3 * F"
    using bezier_radicand_shape [OF assms(1)] by (simp add: h_def s_def F_def)
  have "(h^3) powr (1/3) = h" using h by (simp add: powr_powr flip: powr_numeral)
  then have w: "(h^3 * F) powr (1/3) = h * v" and w': "(h^3 * F) powr (-1/3) = 1 / (h * v)"
    using h F by (simp_all add: powr_mult v_def powr_minus_divide)
  have ab: "a - b = - h" by (simp add: h_def)
  have "t = (2 - 2 * (- h) * (1 / (h * v)) + 2 * (1 / (- h)) * (h * v)) / 4"
    unfolding t_def bezier_t_def E ab using h F by (simp add: w [simplified] w' [simplified])
  also have "\<dots> = 1/2 + (1 / v - v) / 2"
    using h v by (simp add: field_simps)
  finally have "t = 1/2 + (1 / v - v) / 2" .
  then have q: "1 / v - v = 2 * t - 1" by simp
  define u where "u = (x - a) / (b - a)"
  have "(2 * t - 1)^3 + 3 * (2 * t - 1) = - 4 * (1 - 2 * u)"
    using cubic unfolding q by (simp add: s_def u_def)
  then have "2 * t^3 - 3 * t^2 + 3 * t = 2 * u"
    by (simp add: algebra_simps power2_eq_square power3_eq_cube)
  then show ?thesis by (simp add: u_def)
qed

lemma bezier_t_bounds:
  assumes "a < b" and "a \<le> x" and "x \<le> b" and t_def: "t = bezier_t nf a b x"
  shows "0 \<le> t" and "t \<le> 1"
proof -
  define u where "u = (x - a) / (b - a)"
  have u: "0 \<le> u" "u \<le> 1" using assms(1-3) by (simp_all add: u_def)
  have cubic: "2 * t^3 - 3 * t^2 + 3 * t = 2 * u"
    using bezier_t_cubic [OF assms(1) t_def] by (simp add: u_def)
  have low: "2 * t^3 - 3 * t^2 + 3 * t = t * (2 * (t - 3/4)^2 + 15/8)"
    and high: "2 * t^3 - 3 * t^2 + 3 * t - 2 = (t - 1) * (2 * (t - 1/4)^2 + 15/8)"
    by (simp_all add: algebra_simps power2_eq_square power3_eq_cube)
  have "0 \<le> t * (2 * (t - 3/4)^2 + 15/8)" using u cubic low by linarith
  moreover have "0 < 2 * (t - 3/4)^2 + 15/(8::real)" by (intro add_nonneg_pos) auto
  ultimately show "0 \<le> t" by (simp add: zero_le_mult_iff)
  have "(t - 1) * (2 * (t - 1/4)^2 + 15/8) \<le> 0" using u cubic high by linarith
  moreover have "0 < 2 * (t - 1/4)^2 + 15/(8::real)" by (intro add_nonneg_pos) auto
  ultimately show "t \<le> 1" by (simp add: mult_le_0_iff)
qed

subsection \<open>The curve\<close>

lemma bezier_y_blend: "bezier_y p q t = p + (q - p) * (3 * t^2 - 2 * t^3)"
  by (simp add: bezier_y_def algebra_simps power2_eq_square power3_eq_cube)

lemma smoothstep_bounds:
  assumes "0 \<le> t" and "t \<le> (1::real)"
  shows "0 \<le> 3 * t^2 - 2 * t^3" and "3 * t^2 - 2 * t^3 \<le> 1"
proof -
  have "3 * t^2 - 2 * t^3 = t^2 * (3 - 2 * t)"
    by (simp add: algebra_simps power2_eq_square power3_eq_cube)
  then show "0 \<le> 3 * t^2 - 2 * t^3" using assms by simp
  have "1 - (3 * t^2 - 2 * t^3) = (1 - t)^2 * (1 + 2 * t)"
    by (simp add: algebra_simps power2_eq_square power3_eq_cube)
  then show "3 * t^2 - 2 * t^3 \<le> 1" using assms by (smt (verit) mult_nonneg_nonneg zero_le_power2)
qed

lemma blend_between:
  fixes p q w :: real
  assumes "0 \<le> w" and "w \<le> 1"
  shows "min p q \<le> p + (q - p) * w" and "p + (q - p) * w \<le> max p q"
proof -
  have "p + (q - p) * w = (1 - w) * p + w * q" by (simp add: algebra_simps)
  then show "min p q \<le> p + (q - p) * w" and "p + (q - p) * w \<le> max p q"
    using convex_bound_le [of p "max p q" q "1 - w" w] convex_bound_le [of "- p" "- min p q" "- q" "1 - w" w]
      assms by (simp_all add: algebra_simps)
qed

lemma bezier_y_between:
  assumes "0 \<le> t" and "t \<le> 1"
  shows "min p q \<le> bezier_y p q t" and "bezier_y p q t \<le> max p q"
  unfolding bezier_y_blend
  using blend_between [OF smoothstep_bounds [OF assms], of p q] by simp_all

lemma within_hull:
  fixes y :: real
  assumes "lo \<le> p \<and> p \<le> hi" and "lo \<le> q \<and> q \<le> hi" and "min p q \<le> y" and "y \<le> max p q"
  shows "lo \<le> y \<and> y \<le> hi"
  using assms by (auto simp: min_def max_def split: if_splits)

text \<open>The curve starts at the first point of its interval.\<close>

lemma bezier_t_start: "a < b \<Longrightarrow> bezier_t nf a b a = 0"
proof -
  assume "a < b"
  define t where "t = bezier_t nf a b a"
  have "t * (2 * (t - 3/4)^2 + 15/8) = 0"
    using bezier_t_cubic [OF \<open>a < b\<close> t_def]
    by (simp add: algebra_simps power2_eq_square power3_eq_cube)
  moreover have "0 < 2 * (t - 3/4)^2 + 15/(8::real)" by (intro add_nonneg_pos) auto
  ultimately show ?thesis by (simp add: t_def)
qed

section \<open>Checkpoints\<close>

text \<open>
  The loop over the checkpoints keeps the closest one on each side of
  \<open>cur_iteration\<close>: the iteration numbers \<open>left\<close> and \<open>right\<close> (integers, so a
  checkpoint is truncated when it is stored) and their indices.  \<open>INT_MIN\<close> and
  \<open>INT_MAX\<close> mean that there is none.
\<close>

abbreviation (input) INT_MIN :: int where "INT_MIN \<equiv> - 2147483648"
abbreviation (input) INT_MAX :: int where "INT_MAX \<equiv> 2147483647"

record bounds =
  left_it :: int
  left_i :: int
  right_it :: int
  right_i :: int

definition bounds_step :: "real list \<Rightarrow> int \<Rightarrow> nat \<Rightarrow> bounds \<Rightarrow> bounds" where
  "bounds_step cps cur i b =
    (let v = cps ! i;
         b1 = (if v \<le> real_of_int cur \<and> v > real_of_int (left_it b)
               then b\<lparr>left_it := c_int_of_real v, left_i := int i\<rparr> else b)
     in if v \<ge> real_of_int cur \<and> v < real_of_int (right_it b1)
        then b1\<lparr>right_it := c_int_of_real v, right_i := int i\<rparr> else b1)"

definition find_bounds :: "real list \<Rightarrow> int \<Rightarrow> bounds" where
  "find_bounds cps cur = for_acc (length cps) (bounds_step cps cur)
     \<lparr>left_it = INT_MIN, left_i = -1, right_it = INT_MAX, right_i = -1\<rparr>"

text \<open>The Fermi-Dirac step between two checkpoints.\<close>

definition fermi_step :: "(real \<Rightarrow> real) \<Rightarrow> int \<Rightarrow> int \<Rightarrow> int \<Rightarrow> real \<Rightarrow> real \<Rightarrow> real" where
  "fermi_step nf cur l r vl vr =
    (let f = fp_div nf (2 * real_of_int (cur - l)) (real_of_int (r - l));
         n = fp_div nf 1 (exp ((f - 1) * 5) + 1);
         delta = vl - vr
     in delta * n + vr)"

definition interpolate_on_checkpoints ::
  "(real \<Rightarrow> real) \<Rightarrow> real list \<Rightarrow> real list \<Rightarrow> options \<Rightarrow> int \<Rightarrow> real result" where
  "interpolate_on_checkpoints nf vals checkpoints opt interpolation =
    (let cur = oint opt I_cur_iteration; b = find_bounds checkpoints cur in
     if length vals \<noteq> length checkpoints
     then Inl (Fatal ''Number of checkpoint elements doesn't match number of values!'')
     else if left_it b = INT_MIN \<and> right_it b = INT_MAX
     then Inl (Fatal ''Cannot find boundaries on object area!'')
     else if left_it b = INT_MIN then array_get vals (right_i b)
     else if right_it b = INT_MAX then array_get vals (left_i b)
     else if right_it b = left_it b then array_get vals (left_i b)
     else if interpolation = 1 then
       bind_result (array_get vals (left_i b)) (\<lambda>vl.
       bind_result (array_get vals (right_i b)) (\<lambda>vr.
         Inr (fermi_step nf cur (left_it b) (right_it b) vl vr)))
     else Inl (Fatal ''Cannot reach here!''))"

section \<open>The parameters of an iteration\<close>

abbreviation bezier_at :: "(real \<Rightarrow> real) \<Rightarrow> sp_smap \<Rightarrow> options \<Rightarrow> real result" where
  "bezier_at nf m opt \<equiv> bezier_map_interpolation nf m (real_of_int (oint opt I_cur_iteration))"

definition get_beta :: "(real \<Rightarrow> real) \<Rightarrow> options \<Rightarrow> real result" where
  "get_beta nf opt =
    (case omap opt M_beta_evolution of
       Some m \<Rightarrow> bezier_at nf m opt
     | None \<Rightarrow>
       (case ovector opt V_beta_checkpoints of
          Some cps \<Rightarrow>
            (case ovector opt V_beta_at_checkpoints of
               None \<Rightarrow> Inl (Fatal ''When you specify beta_checkpoints you also need to specify the corresponding beta_at_checkpoints!'')
             | Some vals \<Rightarrow> interpolate_on_checkpoints nf vals cps opt 1)
        | None \<Rightarrow>
            (let n = oint opt I_cur_iteration; beta0 = 75 / 100 in
             if oreal opt R_dyn_beta \<noteq> 0
             then Inr (beta0 + (oreal opt R_beta - beta0) *
                    (1 - exp (- ((real_of_int n / oreal opt R_dyn_beta) ^ 3))))
             else Inr (oreal opt R_beta))))"

definition gaussian_decay :: "(real \<Rightarrow> real) \<Rightarrow> real \<Rightarrow> real \<Rightarrow> int \<Rightarrow> int \<Rightarrow> real" where
  "gaussian_decay nf hi lo cur its =
    (let a = fp_div nf (3 * real_of_int cur) (real_of_int its)
           * fp_div nf (3 * real_of_int cur) (real_of_int its) * (1 / 2)
     in (hi - lo) * exp (- a) + lo)"

definition get_blur_radius :: "(real \<Rightarrow> real) \<Rightarrow> options \<Rightarrow> real result" where
  "get_blur_radius nf opt =
    (case omap opt M_support_blur_evolution of
       Some m \<Rightarrow> bezier_at nf m opt
     | None \<Rightarrow>
       (if oint opt I_blur_radius_reduction_method = GAUSSIAN_BLUR_REDUCTION then
          Inr (gaussian_decay nf (oreal opt R_max_blur_radius) (oreal opt R_min_blur)
            (oint opt I_cur_iteration) (oint opt I_iterations_to_min_blur))
        else if oint opt I_blur_radius_reduction_method = GEOMETRICAL_BLUR_REDUCTION then
          (let a = exp (fp_div nf
               (fp_log nf (fp_div nf (oreal opt R_min_blur) (oreal opt R_max_blur_radius)))
               (real_of_int (oint opt I_iterations_to_min_blur)))
           in Inr (oreal opt R_max_blur_radius * fp_pow nf a (real_of_int (oint opt I_cur_iteration))))
        else Inl Abort))"

definition get_phases_blur_radius :: "(real \<Rightarrow> real) \<Rightarrow> options \<Rightarrow> real result" where
  "get_phases_blur_radius nf opt =
    (case omap opt M_phases_blur_evolution of
       Some m \<Rightarrow> bezier_at nf m opt
     | None \<Rightarrow>
       (if oint opt I_iterations_to_min_phases_blur \<noteq> 0 then
          Inr (gaussian_decay nf (oreal opt R_phases_max_blur_radius)
            (oreal opt R_phases_min_blur_radius) (oint opt I_cur_iteration)
            (oint opt I_iterations_to_min_phases_blur))
        else Inr 0))"

definition get_template_area :: "(real \<Rightarrow> real) \<Rightarrow> options \<Rightarrow> real result" where
  "get_template_area nf opt =
    (case omap opt M_template_area_evolution of Some m \<Rightarrow> bezier_at nf m opt | None \<Rightarrow> Inr 0)"

text \<open>
  In \<open>get_object_area\<close> the quotient \<open>cur_iteration/iterations_to_min_object_area\<close> is
  one of integers.
\<close>

definition area_on_checkpoints ::
  "(real \<Rightarrow> real) \<Rightarrow> real list \<Rightarrow> real list \<Rightarrow> int \<Rightarrow> real result" where
  "area_on_checkpoints nf vals cps cur =
    (let b = find_bounds cps cur in
     if left_it b = INT_MIN \<and> right_it b = INT_MAX
     then Inl (Fatal ''Cannot find boundaries on object area!'')
     else if left_it b = INT_MIN then array_get vals (right_i b)
     else if right_it b = INT_MAX then array_get vals (left_i b)
     else if right_it b = left_it b then array_get vals (left_i b)
     else
       bind_result (array_get vals (left_i b)) (\<lambda>vl.
       bind_result (array_get vals (right_i b)) (\<lambda>vr.
         Inr (fermi_step nf cur (left_it b) (right_it b) vl vr))))"

definition get_object_area :: "(real \<Rightarrow> real) \<Rightarrow> options \<Rightarrow> real result" where
  "get_object_area nf opt =
    (let cur = oint opt I_cur_iteration; its = oint opt I_iterations_to_min_object_area in
     case omap opt M_object_area_evolution of
       Some m \<Rightarrow> bezier_at nf m opt
     | None \<Rightarrow>
       (case ovector opt V_object_area_checkpoints of
          Some cps \<Rightarrow>
            (case ovector opt V_object_area_at_checkpoints of
               None \<Rightarrow> Inl (Fatal ''When you specify object_area_checkpoints you also need to specify the corresponding object_area_at_checkpoints!'')
             | Some vals \<Rightarrow>
                 if length cps \<noteq> length vals
                 then Inl (Fatal ''Number of elements of object_area_at_checkpoints does not match object_area_checkpoints!'')
                 else area_on_checkpoints nf vals cps cur)
        | None \<Rightarrow>
            (if oint opt I_support_update_algorithm = CONSTANT_AREA then Inr (oreal opt R_object_area)
             else if oint opt I_support_update_algorithm = DECREASING_AREA then
               (if cur > its then Inr (oreal opt R_min_object_area)
                else bind_result (c_div cur its) (\<lambda>f.
                  let a = (3 * real_of_int f) * (3 * real_of_int f) * (1 / 2) in
                  Inr ((oreal opt R_object_area - oreal opt R_min_object_area) * exp (- a)
                       + oreal opt R_min_object_area)))
             else Inr (- 1))))"

definition get_gamma1 :: "(real \<Rightarrow> real) \<Rightarrow> options \<Rightarrow> real result" where
  "get_gamma1 nf opt =
    (if oreal opt R_gamma1 = - 10000 then
       bind_result (get_beta nf opt) (\<lambda>beta.
         let sigma0 = 1 / 10; sigma = (if sigma0 > 5 / 10 then 5 / 10 else sigma0) in
         Inr (fp_div nf (- (4 + (2 + beta) * sigma + beta * sigma * sigma))
                (beta * (4 - sigma + sigma * sigma))))
     else Inr (oreal opt R_gamma1))"

definition get_gamma2 :: "(real \<Rightarrow> real) \<Rightarrow> options \<Rightarrow> real result" where
  "get_gamma2 nf opt =
    (if oreal opt R_gamma2 = - 10000 then
       bind_result (get_beta nf opt) (\<lambda>beta. Inr (fp_div nf (3 - beta) (2 * beta)))
     else Inr (oreal opt R_gamma2))"

text \<open>The seed is drawn once, from \<open>getpid()\<close>, and kept.\<close>

definition get_random_seed :: "int \<Rightarrow> options \<Rightarrow> int \<times> options" where
  "get_random_seed pid opt =
    (let opt' = (if oint opt I_random_seed = -1 then set_int I_random_seed pid opt else opt)
     in (oint opt' I_random_seed, opt'))"

section \<open>Facts about the interpolations\<close>

lemma bezier_map_before:
  "m \<noteq> [] \<Longrightarrow> x < fst (hd m) \<Longrightarrow> bezier_map_interpolation nf m x = Inr (snd (hd m))"
  by (cases m) (simp_all add: bezier_map_interpolation_def array_get_def)

lemma bezier_map_after:
  assumes "m \<noteq> []" and "\<forall>k \<in> set (sp_smap_get_keys m). k \<le> x"
  shows "bezier_map_interpolation nf m x = Inr (snd (last m))"
proof -
  have "first_greater x ks = length ks" if "\<forall>k \<in> set ks. k \<le> x" for ks
    using that by (induction ks) auto
  with assms show ?thesis
    by (cases m rule: rev_cases) (auto simp: bezier_map_interpolation_def array_get_def nth_append nat_add_distrib)
qed

lemma first_greater_bracket:
  assumes "sorted_wrt (<) (sp_smap_get_keys m)" and "i = first_greater x (sp_smap_get_keys m)"
    and "i \<noteq> 0" and "i < length m"
  shows "fst (m ! (i - 1)) < fst (m ! i)" and "fst (m ! (i - 1)) \<le> x" and "x \<le> fst (m ! i)"
proof -
  show "fst (m ! (i - 1)) < fst (m ! i)"
    using sorted_wrt_nth_less [OF assms(1), of "i - 1" i] assms(3,4) by simp
  show "fst (m ! (i - 1)) \<le> x"
    using first_greater_before [of "i - 1" x "sp_smap_get_keys m"] assms(2-4) by simp
  show "x \<le> fst (m ! i)"
    using first_greater_at [of x "sp_smap_get_keys m"] assms(2,4) by (simp add: less_imp_le)
qed

lemma fermi_step_between:
  assumes "l < r"
  shows "min vl vr \<le> fermi_step nf cur l r vl vr" and "fermi_step nf cur l r vl vr \<le> max vl vr"
proof -
  define n where "n = 1 / (exp ((2 * real_of_int (cur - l) / real_of_int (r - l) - 1) * 5) + 1)"
  have n: "0 \<le> n" "n \<le> 1" by (simp_all add: n_def add_pos_pos divide_le_eq)
  have "exp ((2 * real_of_int (cur - l) / real_of_int (r - l) - 1) * 5) + 1 \<noteq> (0::real)"
    by (metis add_less_same_cancel2 exp_gt_zero less_add_one not_less_iff_gr_or_eq order_less_trans)
  then have eq: "fermi_step nf cur l r vl vr = vr + (vl - vr) * n"
    using assms by (simp add: fermi_step_def n_def Let_def)
  show "min vl vr \<le> fermi_step nf cur l r vl vr" and "fermi_step nf cur l r vl vr \<le> max vl vr"
    using blend_between [OF n, of vr vl] by (simp_all add: eq min.commute max.commute)
qed

subsection \<open>The checkpoint search\<close>

text \<open>What the search has established after \<open>n\<close> of the checkpoints.\<close>

definition bounds_inv :: "real list \<Rightarrow> int \<Rightarrow> nat \<Rightarrow> bounds \<Rightarrow> bool" where
  "bounds_inv cps cur n b \<longleftrightarrow>
     (if left_it b = INT_MIN then \<forall>j<n. real_of_int cur < cps ! j
      else 0 \<le> left_i b \<and> left_i b < int n \<and> cps ! nat (left_i b) = real_of_int (left_it b)
        \<and> left_it b \<le> cur \<and> (\<forall>j<n. cps ! j \<le> real_of_int cur \<longrightarrow> cps ! j \<le> real_of_int (left_it b))) \<and>
     (if right_it b = INT_MAX then \<forall>j<n. cps ! j < real_of_int cur
      else 0 \<le> right_i b \<and> right_i b < int n \<and> cps ! nat (right_i b) = real_of_int (right_it b)
        \<and> cur \<le> right_it b \<and> (\<forall>j<n. real_of_int cur \<le> cps ! j \<longrightarrow> real_of_int (right_it b) \<le> cps ! j)) \<and>
     INT_MIN \<le> left_it b \<and> right_it b \<le> INT_MAX"

definition int_checkpoints :: "real list \<Rightarrow> bool" where
  "int_checkpoints cps \<longleftrightarrow>
     (\<forall>v \<in> set cps. real_of_int (c_int_of_real v) = v \<and> real_of_int INT_MIN < v \<and> v < real_of_int INT_MAX)"

lemma bounds_step_inv:
  assumes "int_checkpoints cps" and "i < length cps" and "bounds_inv cps cur i b"
  shows "bounds_inv cps cur (Suc i) (bounds_step cps cur i b)"
proof -
  define k where "k = c_int_of_real (cps ! i)"
  have v: "cps ! i = real_of_int k"
    and bnd: "real_of_int INT_MIN < cps ! i" "cps ! i < real_of_int INT_MAX"
    using assms(1) nth_mem [OF assms(2)] unfolding int_checkpoints_def k_def by auto
  have k: "INT_MIN < k" "k < INT_MAX" using bnd unfolding v of_int_less_iff .
  have c: "c_int_of_real (real_of_int k) = k" by simp
  show ?thesis
    using assms(3) k unfolding bounds_inv_def bounds_step_def v c Let_def
    by (auto simp: less_Suc_eq v split: if_splits)
qed

lemma bounds_inv_parts:
  assumes "bounds_inv cps cur n b"
  shows "left_it b = INT_MIN \<Longrightarrow> right_it b = INT_MAX \<Longrightarrow> j < n \<Longrightarrow> False"
    and "left_it b \<noteq> INT_MIN \<Longrightarrow> 0 \<le> left_i b \<and> left_i b < int n \<and> left_it b \<le> cur"
    and "right_it b \<noteq> INT_MAX \<Longrightarrow> 0 \<le> right_i b \<and> right_i b < int n \<and> cur \<le> right_it b"
  using assms unfolding bounds_inv_def by (simp_all) (use less_asym in blast)

lemma find_bounds_inv:
  "int_checkpoints cps \<Longrightarrow> bounds_inv cps cur (length cps) (find_bounds cps cur)"
  unfolding find_bounds_def
  by (rule for_acc_invariant [where P = "bounds_inv cps cur"])
    (simp_all add: bounds_inv_def [of _ _ 0] bounds_step_inv)

section \<open>Properties\<close>

lemma interpolate_is_area_on_checkpoints:
  "length vals = length cps \<Longrightarrow>
   interpolate_on_checkpoints nf vals cps opt 1 = area_on_checkpoints nf vals cps (oint opt I_cur_iteration)"
  by (simp add: interpolate_on_checkpoints_def area_on_checkpoints_def Let_def)

lemma array_get_within:
  assumes "0 \<le> k \<and> k < int (length vals)"
  obtains v where "array_get vals k = Inr v" and "Min (set vals) \<le> v \<and> v \<le> Max (set vals)"
  using assms by (auto simp: array_get_def nat_less_iff)

lemma area_on_checkpoints_range:
  assumes "int_checkpoints cps" and "cps \<noteq> []" and "length vals = length cps"
  shows "\<exists>y. area_on_checkpoints nf vals cps cur = Inr y \<and> Min (set vals) \<le> y \<and> y \<le> Max (set vals)"
proof -
  define b where "b = find_bounds cps cur"
  have inv: "bounds_inv cps cur (length vals) b"
    using find_bounds_inv [OF assms(1)] by (simp add: b_def assms(3))
  note parts = bounds_inv_parts [OF inv]
  have area: "area_on_checkpoints nf vals cps cur =
    (if left_it b = INT_MIN \<and> right_it b = INT_MAX
     then Inl (Fatal ''Cannot find boundaries on object area!'')
     else if left_it b = INT_MIN then array_get vals (right_i b)
     else if right_it b = INT_MAX then array_get vals (left_i b)
     else if right_it b = left_it b then array_get vals (left_i b)
     else bind_result (array_get vals (left_i b)) (\<lambda>vl. bind_result (array_get vals (right_i b)) (\<lambda>vr.
         Inr (fermi_step nf cur (left_it b) (right_it b) vl vr))))"
    by (simp only: area_on_checkpoints_def b_def Let_def)
  consider (none) "left_it b = INT_MIN" "right_it b = INT_MAX"
    | (l) "left_it b = INT_MIN" "right_it b \<noteq> INT_MAX"
    | (r) "left_it b \<noteq> INT_MIN" "right_it b = INT_MAX \<or> right_it b = left_it b"
    | (b) "left_it b \<noteq> INT_MIN" "right_it b \<noteq> INT_MAX" "right_it b \<noteq> left_it b" by blast
  then show ?thesis
  proof cases
    case none
    then show ?thesis using parts(1) [of 0] assms(2,3) by auto
  next
    case l
    obtain v where "array_get vals (right_i b) = Inr v" "Min (set vals) \<le> v \<and> v \<le> Max (set vals)"
      using array_get_within parts(3) [OF l(2)] by blast
    then show ?thesis unfolding area using l by simp
  next
    case r
    obtain v where "array_get vals (left_i b) = Inr v" "Min (set vals) \<le> v \<and> v \<le> Max (set vals)"
      using array_get_within parts(2) [OF r(1)] by blast
    then show ?thesis unfolding area using r by auto
  next
    case b
    obtain vl vr where v: "array_get vals (left_i b) = Inr vl" "array_get vals (right_i b) = Inr vr"
      "Min (set vals) \<le> vl \<and> vl \<le> Max (set vals)" "Min (set vals) \<le> vr \<and> vr \<le> Max (set vals)"
      using array_get_within parts(2) [OF b(1)] parts(3) [OF b(2)] by metis
    have "left_it b < right_it b" using b(3) parts(2) [OF b(1)] parts(3) [OF b(2)] by linarith
    from within_hull [OF v(3,4) fermi_step_between [OF this]] show ?thesis
      unfolding area using b v by simp
  qed
qed

lemmas bezier_unfold = bezier_map_interpolation_def Let_def

text \<open>
  Property C27 (functional): between two keys of a map, \<open>bezier_map_interpolation\<close> follows
  the cubic Bezier curve: the closed formula of the source for the parameter \<open>t\<close> is the
  root in \<open>[0, 1]\<close> of the cubic \<open>t^3 - 3/2 t^2 + 3/2 t = (x - p0x) / (p3x - p0x)\<close>, the
  abscissa of the curve with its two inner control points half way, and the value is the
  ordinate at that \<open>t\<close>.
\<close>

theorem bezier_interpolation_correct:
  assumes "sorted_wrt (<) (sp_smap_get_keys m)" and "i = first_greater x (sp_smap_get_keys m)"
    and "i \<noteq> 0" and "i < length m"
  shows "\<exists>t. 0 \<le> t \<and> t \<le> 1
    \<and> 2 * t^3 - 3 * t^2 + 3 * t = 2 * ((x - fst (m ! (i - 1))) / (fst (m ! i) - fst (m ! (i - 1))))
    \<and> bezier_map_interpolation nf m x = Inr (bezier_y (snd (m ! (i - 1))) (snd (m ! i)) t)"
proof -
  note br = first_greater_bracket [OF assms]
  let ?t = "bezier_t nf (fst (m ! (i - 1))) (fst (m ! i)) x"
  have "bezier_map_interpolation nf m x = Inr (bezier_y (snd (m ! (i - 1))) (snd (m ! i)) ?t)"
    using assms(2-4) by (simp add: bezier_unfold)
  then show ?thesis
    using bezier_t_bounds [OF br refl, of nf] bezier_t_cubic [OF br(1) refl, of nf x] by blast
qed

theorem bezier_interpolation_correct_witness:
  "\<exists>t. 0 \<le> t \<and> t \<le> 1 \<and> 2 * t^3 - 3 * t^2 + 3 * t = 2 * ((1000 - 0) / (2000 - 0 :: real))
    \<and> bezier_map_interpolation (\<lambda>r. r) [(0, 3), (2000, 7)] 1000 = Inr (bezier_y 3 7 t)"
  using bezier_interpolation_correct [of "[(0, 3), (2000, 7)]" 1 1000 "\<lambda>r. r"] by simp

text \<open>
  Property C28 (bounds): for a nonempty map with increasing keys the interpolation is total
  and every value it gives lies between the least and the greatest value of the map; at a key
  of the map it gives the value stored there.
\<close>

theorem bezier_interpolation_range:
  assumes "sorted_wrt (<) (sp_smap_get_keys m)" and "m \<noteq> []"
  shows "(\<exists>y. bezier_map_interpolation nf m x = Inr y
           \<and> Min (set (sp_smap_get_values m)) \<le> y \<and> y \<le> Max (set (sp_smap_get_values m)))
    \<and> (\<forall>j < length m. bezier_map_interpolation nf m (fst (m ! j)) = Inr (snd (m ! j)))"
proof (intro conjI allI impI)
  define i where "i = first_greater x (sp_smap_get_keys m)"
  have mem: "Min (set (sp_smap_get_values m)) \<le> snd (m ! j) \<and> snd (m ! j) \<le> Max (set (sp_smap_get_values m))"
    if "j < length m" for j
    using that by (intro conjI Min_le Max_ge) auto
  have "i \<le> length m" using first_greater_le [of x "sp_smap_get_keys m"] by (simp add: i_def)
  then consider "i = 0" | "i = length m" "i \<noteq> 0" | "i \<noteq> 0" "i < length m" by linarith
  then show "\<exists>y. bezier_map_interpolation nf m x = Inr y
           \<and> Min (set (sp_smap_get_values m)) \<le> y \<and> y \<le> Max (set (sp_smap_get_values m))"
  proof cases
    case 1
    then show ?thesis using mem [of 0] assms(2)
      by (auto simp: bezier_unfold i_def [symmetric] array_get_def)
  next
    case 2
    then show ?thesis using mem [of "length m - 1"] assms(2)
      by (auto simp: bezier_unfold i_def [symmetric] array_get_def nat_diff_distrib)
  next
    case 3
    define t where "t = bezier_t nf (fst (m ! (i - 1))) (fst (m ! i)) x"
    have y: "bezier_map_interpolation nf m x = Inr (bezier_y (snd (m ! (i - 1))) (snd (m ! i)) t)"
      using 3 by (simp add: bezier_unfold i_def [symmetric] t_def)
    have t: "0 \<le> t" "t \<le> 1"
      using bezier_t_bounds [OF first_greater_bracket [OF assms(1) i_def 3] t_def] .
    have "i - 1 < length m" using 3 by simp
    note hull = within_hull [OF mem [OF this] mem [OF 3(2)] bezier_y_between [OF t]]
    show ?thesis unfolding y using hull by blast
  qed
next
  fix j assume j: "j < length m"
  have idx: "first_greater (fst (m ! j)) (sp_smap_get_keys m) = Suc j"
    using first_greater_at_key [OF assms(1), of j] j by simp
  show "bezier_map_interpolation nf m (fst (m ! j)) = Inr (snd (m ! j))"
  proof (cases "Suc j = length m")
    case True
    then show ?thesis using idx j by (simp add: bezier_unfold array_get_def flip: True)
  next
    case False
    then have "fst (m ! j) < fst (m ! Suc j)"
      using sorted_wrt_nth_less [OF assms(1), of j "Suc j"] j by simp
    then have "bezier_t nf (fst (m ! j)) (fst (m ! Suc j)) (fst (m ! j)) = 0" by (rule bezier_t_start)
    then show ?thesis using idx j False by (simp add: bezier_unfold bezier_y_def)
  qed
qed

theorem bezier_interpolation_range_witness:
  "(\<exists>y. bezier_map_interpolation (\<lambda>r. r) [(0, 3), (5000, 7/10)] 2500 = Inr y \<and> 7/10 \<le> y \<and> y \<le> 3)"
  using bezier_interpolation_range [of "[(0, 3), (5000, 7/10)]" "\<lambda>r. r" 2500] by simp

text \<open>
  With as many values as checkpoints, at least one checkpoint and
  integer checkpoints in the range of \<open>int\<close>, \<open>interpolate_on_checkpoints\<close> (called
  with \<open>interpolation = 1\<close>, as \<open>get_beta\<close> does) never fails: no index is read
  before it was set and the line \<open>Cannot reach here!\<close> is not reached.  Its result lies
  between the least and the greatest of the values.
\<close>

lemma interpolate_on_checkpoints_range:
  assumes "int_checkpoints cps" and "cps \<noteq> []" and "length vals = length cps"
  shows "\<exists>y. interpolate_on_checkpoints nf vals cps opt 1 = Inr y
           \<and> Min (set vals) \<le> y \<and> y \<le> Max (set vals)"
  using area_on_checkpoints_range [OF assms] assms(3)
  by (simp add: interpolate_is_area_on_checkpoints)

definition example_options :: options where
  "example_options = \<lparr>oreal = (\<lambda>_. 0), oint = (\<lambda>_. 0), ostring = (\<lambda>_. ''''), ovector = (\<lambda>_. None),
     omap = (\<lambda>_. None), oimage = (\<lambda>_. None), flog = False\<rparr>"

theorem interpolate_on_checkpoints_range_witness:
  "\<exists>y. interpolate_on_checkpoints (\<lambda>r. r) [9/10, 5/10] [0, 1000] (set_int I_cur_iteration 400 example_options) 1
      = Inr y \<and> 5/10 \<le> y \<and> y \<le> 9/10"
  using interpolate_on_checkpoints_range
    [of "[0, 1000]" "[9/10, 5/10]" "\<lambda>r. r" "set_int I_cur_iteration 400 example_options"]
  by (simp add: int_checkpoints_def c_int_of_real_def)

lemma two_points_append:
  "smap_insert_appends sp \<Longrightarrow> k1 < k2 \<Longrightarrow> two_points sp k1 v1 k2 v2 = [(k1, v1), (k2, v2)]"
  by (simp add: two_points_def smap_insert_appends_def)

lemma default_maps_value:
  assumes "smap_insert_appends sp" and "omap opt = omap (set_defaults sp sz engine opt0)"
  shows "omap opt M_beta_evolution = Some [(0, 9/10), (2000, 9/10)]"
    and "omap opt M_object_area_evolution = Some [(0, 1/1000), (2000, 1/1000)]"
    and "omap opt M_support_blur_evolution = Some [(0, 3), (5000, 7/10)]"
    and "omap opt M_phases_blur_evolution = Some [(0, 0), (5000, 0)]"
  using assms by (simp_all add: set_defaults_def default_maps_def two_points_append)

lemma bezier_two_points:
  assumes "k1 < k2"
  shows "\<exists>y. bezier_map_interpolation nf [(k1, v1), (k2, v2)] x = Inr y \<and> min v1 v2 \<le> y \<and> y \<le> max v1 v2"
  using bezier_t_bounds [OF assms, of x _ nf] assms
  by (auto simp: bezier_unfold array_get_def not_less intro: bezier_y_between)

text \<open>
  After \<open>set_defaults\<close>, and as long as nothing but
  \<open>cur_iteration\<close> changes, \<open>get_beta\<close> is 0.9 at every iteration, the object area
  stays at its default of 0.001, the phases are not blurred and the
  support blur radius stays in \<open>[0.7, 3]\<close>.  The library is only assumed to
  append a key that is greater than those of a map at its end.
\<close>

lemma default_schedule:
  assumes "smap_insert_appends sp" and "omap opt = omap (set_defaults sp sz engine opt0)"
  shows "get_beta nf opt = Inr (9/10) \<and> get_object_area nf opt = Inr (1/1000)
    \<and> get_phases_blur_radius nf opt = Inr 0
    \<and> (\<exists>r. get_blur_radius nf opt = Inr r \<and> 7/10 \<le> r \<and> r \<le> 3)"
  using default_maps_value [OF assms]
    bezier_two_points [of 0 2000 nf "9/10" "9/10" "real_of_int (oint opt I_cur_iteration)"]
    bezier_two_points [of 0 2000 nf "1/1000" "1/1000" "real_of_int (oint opt I_cur_iteration)"]
    bezier_two_points [of 0 5000 nf 0 0 "real_of_int (oint opt I_cur_iteration)"]
    bezier_two_points [of 0 5000 nf 3 "7/10" "real_of_int (oint opt I_cur_iteration)"]
  by (auto simp: get_beta_def get_object_area_def get_phases_blur_radius_def get_blur_radius_def Let_def)

theorem default_schedule_witness:
  "get_beta (\<lambda>r. r) (set_int I_cur_iteration 4321 (set_defaults example_library 8 0 example_options))
     = Inr (9/10)"
  using default_schedule [of example_library
      "set_int I_cur_iteration 4321 (set_defaults example_library 8 0 example_options)" 8 0
      example_options "\<lambda>r. r"] example_library_laws by simp

text \<open>
  The decreasing-area schedule without maps and checkpoints is a step,
  not a Gaussian.  The quotient of \<open>cur_iteration\<close> by
  \<open>iterations_to_min_object_area\<close> is taken of integers, so before the last iteration of
  the schedule the area keeps its initial value, at that iteration it is the end value plus
  \<open>exp(-9/2)\<close> of the difference, and afterwards it is the end value; with 0 iterations
  the division traps at iteration 0.
\<close>

lemma object_area_is_a_step:
  assumes "omap opt M_object_area_evolution = None" and "ovector opt V_object_area_checkpoints = None"
    and "oint opt I_support_update_algorithm = DECREASING_AREA" and "0 \<le> oint opt I_cur_iteration"
  defines "cur \<equiv> oint opt I_cur_iteration" and "its \<equiv> oint opt I_iterations_to_min_object_area"
    and "hi \<equiv> oreal opt R_object_area" and "lo \<equiv> oreal opt R_min_object_area"
  shows "get_object_area nf opt =
    (if its < cur then Inr lo
     else if its = 0 then Inl Div_By_Zero
     else if cur < its then Inr hi
     else Inr (lo + (hi - lo) * exp (- (9 / 2))))"
proof -
  consider "its < cur" | "its = 0" "cur = 0" | "cur < its" | "cur = its" "0 < its"
    using assms(4) unfolding cur_def by linarith
  then show ?thesis
    using assms(1-4)
    by cases (simp_all add: get_object_area_def cur_def its_def hi_def lo_def)
qed

theorem object_area_is_a_step_witness:
  "get_object_area (\<lambda>r. r)
     (example_options\<lparr>oint := (\<lambda>_. 0)(I_support_update_algorithm := DECREASING_AREA,
        I_cur_iteration := 999, I_iterations_to_min_object_area := 1000),
        oreal := (\<lambda>_. 0)(R_object_area := 1/2, R_min_object_area := 1/10)\<rparr>) = Inr (1/2)"
  by (subst object_area_is_a_step) (simp_all add: example_options_def)

end
