(* ===== verification/Saddle_Data.thy ===== *)
theory Saddle_Data
  imports Image
begin

text \<open>
  The matrices and vectors of the saddle-point search, and what it keeps between two iterations:
  the static variables of \<open>basic_so2d_iteration\<close> (\<open>src/algorithms.c\<close>) and of
  \<open>minmaxtau\<close> (\<open>src/saddle/minmaxtau.c\<close>), which the state of a reconstruction carries.

  Vectors have two elements throughout and are pairs, with the arithmetic of
  \<open>sp_vector_dot_prod\<close>, \<open>sp_vector_norm\<close>, \<open>sp_vector_scale\<close>, \<open>sp_vector_add\<close>,
  \<open>sp_vector_sub\<close>.
\<close>

section \<open>Matrices and vectors\<close>

record sp_3matrix =
  matrix_x :: nat
  matrix_y :: nat
  matrix_z :: nat
  matrix_data :: "real list"

text \<open>Element \<open>(x, y, z)\<close> stands where the pixel \<open>(x, y, z)\<close> of an image would.\<close>

definition matrix_index :: "sp_3matrix \<Rightarrow> int \<Rightarrow> int \<Rightarrow> int \<Rightarrow> int" where
  "matrix_index m x y z = z * int (matrix_y m) * int (matrix_x m) + y * int (matrix_x m) + x"

definition sp_3matrix_get :: "sp_3matrix \<Rightarrow> int \<Rightarrow> int \<Rightarrow> int \<Rightarrow> real result" where
  "sp_3matrix_get m x y z = array_get (matrix_data m) (matrix_index m x y z)"

definition sp_3matrix_set :: "sp_3matrix \<Rightarrow> int \<Rightarrow> int \<Rightarrow> int \<Rightarrow> real \<Rightarrow> sp_3matrix result" where
  "sp_3matrix_set m x y z v =
     (let i = matrix_index m x y z in
      if 0 \<le> i \<and> i < int (length (matrix_data m)) then Inr (m\<lparr>matrix_data := (matrix_data m)[nat i := v]\<rparr>)
      else Inl Out_Of_Bounds)"

type_synonym vec2 = "real \<times> real"

definition dot_prod :: "vec2 \<Rightarrow> vec2 \<Rightarrow> real" where
  "dot_prod a b = fst a * fst b + snd a * snd b"

definition vector_norm :: "vec2 \<Rightarrow> real" where
  "vector_norm a = sqrt (dot_prod a a)"

definition vector_scale :: "vec2 \<Rightarrow> real \<Rightarrow> vec2" where
  "vector_scale a r = (fst a * r, snd a * r)"

definition vector_add :: "vec2 \<Rightarrow> vec2 \<Rightarrow> vec2" where
  "vector_add a b = (fst a + fst b, snd a + snd b)"

definition vector_sub :: "vec2 \<Rightarrow> vec2 \<Rightarrow> vec2" where
  "vector_sub a b = (fst a - fst b, snd a - snd b)"

section \<open>State between two iterations\<close>

text \<open>The static variables of \<open>minmaxtau\<close>: the averages over the calls and their number.\<close>

record tau_static =
  tauav :: "vec2 option"
  Hiav :: "sp_3matrix option"
  nav :: nat

definition tau_start :: tau_static where
  "tau_start = \<lparr>tauav = None, Hiav = None, nav = 0\<rparr>"

text \<open>What \<open>minmaxL\<close> changes: its arguments, and the static variables behind \<open>minmaxtau\<close>.\<close>

record saddle =
  d_Gs :: image
  d_Gns :: image
  d_DGs :: image
  d_DGns :: image
  d_Hab :: sp_3matrix
  d_static :: tau_static

end
