(* ===== verification/Log.thy ===== *)
theory Log
  imports Evolution Saddle_Data
begin

text \<open>
  The state of a reconstruction and its log (\<open>src/log.c\<close>, \<open>include/log.h\<close>).
  The record \<open>hawk\<close> collects what one run of the program keeps: the options, the
  \<open>Log\<close> structure, the lines written to the log file, and the function-local
  \<open>static\<close> variables of \<open>log.c\<close>, \<open>algorithms.c\<close> and \<open>support.c\<close>.
\<close>

section \<open>State\<close>

abbreviation (input) RUN_AVG_LEN :: nat where "RUN_AVG_LEN \<equiv> 500"

record log =
  Ereal :: real
  Efourier :: real
  FcFo :: real
  SupSize :: real
  log_iter :: int
  it_outer :: int
  Ereal_list :: "real list"
  Ereal_run_avg :: real
  SupSize_list :: "real list"
  SupSize_run_avg :: real
  dEreal :: real
  dSupSize :: real
  dRho :: real
  threshold :: real
  cumulative_fluctuation :: "image option"
  int_cum_fluctuation :: real
  sol_correlation :: real

text \<open>One line of the log file: the two counters, the algorithm and the other columns.\<close>

record log_line =
  l_iter :: int
  l_it_outer :: int
  l_algorithm :: int
  l_columns :: "real list"

record hawk =
  opts :: options
  lg :: log
  log_lines :: "log_line list"
  previous_out :: "image option"
  sol_superimpose_counter :: int
  exp_amp_minus_sigma :: "image option"
  exp_amp_plus_sigma :: "image option"
  raar_weak_reflections :: "bool list option"
  cflip_weak_reflections :: "bool list option"
  espresso_weak_reflections :: "bool list option"
  haar_x :: "image option"
  so2d_static :: "saddle option"
  stepped_flag :: bool

definition init_log :: "log \<Rightarrow> log" where
  "init_log l = l\<lparr>dEreal := 1, Ereal := 1, dSupSize := -1, SupSize := 1, threshold := 20 / 100,
     Ereal_run_avg := 0, SupSize_run_avg := 0,
     Ereal_list := replicate RUN_AVG_LEN 0, SupSize_list := replicate RUN_AVG_LEN 0,
     cumulative_fluctuation := None, int_cum_fluctuation := 0\<rparr>"

text \<open>
  \<open>get_algorithm\<close> (\<open>src/algorithms.c\<close>) writes the option it returns: with
  \<open>automatic\<close> set, a support that has grown since the last line switches to RAAR.
\<close>

definition get_algorithm :: "options \<Rightarrow> log \<Rightarrow> int \<times> options" where
  "get_algorithm opt l =
    (let opt' = (if oint opt I_automatic \<noteq> 0 \<and> dSupSize l > 0 then set_int I_algorithm RAAR opt else opt)
     in (oint opt' I_algorithm, opt'))"

section \<open>Error measures\<close>

definition delta_rho :: "image \<Rightarrow> image \<Rightarrow> real" where
  "delta_rho a b = for_acc (sp_image_size a)
     (\<lambda>i s. s + \<bar>sp_cabs (pixels a ! i) - sp_cabs (pixels b ! i)\<bar>) 0"

text \<open>The sums of the loop over \<open>exp_amp\<close>, one accumulator each.\<close>

record log_totals =
  s_SupSize :: real
  s_Ereal :: real
  s_Ereal_den :: real
  s_Efourier :: real
  s_Efourier_den :: real
  s_FcFo :: real
  s_FcFo_den :: real

definition log_sums_step :: "image \<Rightarrow> image \<Rightarrow> image \<Rightarrow> image \<Rightarrow> nat \<Rightarrow> log_totals \<Rightarrow> log_totals" where
  "log_sums_step exp_amp real_out fourier_out support i s =
    (let r = sp_cabs (pixels real_out ! i); c = sp_cabs (pixels fourier_out ! i);
         e = sp_cabs (pixels exp_amp ! i);
         s1 = (if sp_real (pixels support ! i) \<noteq> 0
               then s\<lparr>s_SupSize := s_SupSize s + 1, s_Ereal_den := s_Ereal_den s + r * r\<rparr>
               else s\<lparr>s_Ereal := s_Ereal s + r * r\<rparr>)
     in if mask_data exp_amp ! i \<noteq> 0
        then s1\<lparr>s_Efourier := s_Efourier s1 + (c - e) * (c - e),
                s_Efourier_den := s_Efourier_den s1 + e * e,
                s_FcFo := s_FcFo s1 + c, s_FcFo_den := s_FcFo_den s1 + e\<rparr>
        else s1)"

definition log_sums :: "image \<Rightarrow> image \<Rightarrow> image \<Rightarrow> image \<Rightarrow> log_totals" where
  "log_sums exp_amp real_out fourier_out support =
     for_acc (sp_image_size exp_amp) (log_sums_step exp_amp real_out fourier_out support)
       \<lparr>s_SupSize = 0, s_Ereal = 0, s_Ereal_den = 0, s_Efourier = 0, s_Efourier_den = 0,
        s_FcFo = 0, s_FcFo_den = 0\<rparr>"

text \<open>
  The running average: the new value is stored in its slot, then the first \<open>n\<close> slots are
  averaged.
\<close>

definition run_avg :: "real list \<Rightarrow> nat \<Rightarrow> real" where
  "run_avg xs n = (let s = for_acc n (\<lambda>i s. s + xs ! i) 0 in if n \<noteq> 0 then s / real n else s)"

section \<open>One line of the log\<close>

text \<open>The middle of an inner loop: the fluctuation since the previous one.\<close>

definition fluctuation_step :: "image \<Rightarrow> image \<Rightarrow> hawk \<Rightarrow> hawk result" where
  "fluctuation_step real_in real_out st =
    (let iter = oint (opts st) I_cur_iteration; its = oint (opts st) I_iterations in
     bind_result (c_rem iter its) (\<lambda>r.
     bind_result (c_div its 2) (\<lambda>half.
       Inr (if r = half then
         (case previous_out st of
            None \<Rightarrow> st\<lparr>previous_out := Some real_out\<rparr>
          | Some p \<Rightarrow> st\<lparr>previous_out := Some real_out,
              lg := (lg st)\<lparr>int_cum_fluctuation :=
                for_acc (sp_image_size real_in)
                  (\<lambda>i s. s + \<bar>sp_cabs (pixels p ! i) - sp_cabs (pixels real_out ! i)\<bar>) 0\<rparr>\<rparr>)
        else st))))"

definition update_averages :: "real \<Rightarrow> real \<Rightarrow> int \<Rightarrow> log \<Rightarrow> log" where
  "update_averages er supsize k l =
    (let slot = nat (k smod int RUN_AVG_LEN); n = nat (min k (int RUN_AVG_LEN));
         el = (Ereal_list l)[slot := er]; sl = (SupSize_list l)[slot := supsize];
         ea = run_avg el n; sa = run_avg sl n
     in l\<lparr>Ereal_list := el, SupSize_list := sl, sol_correlation := 0,
          Ereal_run_avg := ea, SupSize_run_avg := sa,
          dEreal := - Ereal_run_avg l + ea, dSupSize := - SupSize_run_avg l + sa\<rparr>)"

definition solution_step :: "spimage \<Rightarrow> image \<Rightarrow> hawk \<Rightarrow> hawk" where
  "solution_step sp real_out st =
    (case oimage (opts st) P_solution_image of
       None \<Rightarrow> st
     | Some sol \<Rightarrow>
         let sol' = (if sol_superimpose_counter st smod 10 = 0
                     then sp_image_superimpose sp real_out sol else sol)
         in st\<lparr>opts := set_image P_solution_image (Some sol') (opts st),
               sol_superimpose_counter := sol_superimpose_counter st + 1,
               lg := (lg st)\<lparr>sol_correlation := sp_image_correlation_coefficient sp sol' real_out\<rparr>\<rparr>)"

text \<open>
  \<open>output_to_log\<close>.  \<open>speed\<close> is the number of iterations per second that
  the timer gives.  Opening the log file truncates it.  The header lines of the file are not
  kept.  The index of the slot is checked by \<open>array_get\<close>.
\<close>

definition measured :: "spimage \<Rightarrow> image \<Rightarrow> image \<Rightarrow> image \<Rightarrow> image \<Rightarrow> hawk \<Rightarrow> hawk result" where
  "measured sp exp_amp real_out fourier_out support st =
    (let iter = oint (opts st) I_cur_iteration; its = oint (opts st) I_iterations;
         s = log_sums exp_amp real_out fourier_out support;
         er = fp_div (nonfinite sp) (s_Ereal s) (s_Ereal_den s);
         ef = fp_div (nonfinite sp) (s_Efourier s) (s_Efourier_den s);
         fcfo = fp_div (nonfinite sp) (s_FcFo s) (s_FcFo_den s);
         supsize = fp_div (nonfinite sp) (s_SupSize s) (real (sp_image_size exp_amp)) * 100
     in bind_result (if its \<noteq> 0 then c_div iter its else Inr 0) (\<lambda>outer.
        bind_result (c_div iter (oint (opts st) I_log_output_period)) (\<lambda>k.
        bind_result (array_get (Ereal_list (lg st)) (k smod int RUN_AVG_LEN)) (\<lambda>_.
        Inr (st\<lparr>lg := update_averages er supsize k
               ((lg st)\<lparr>log_iter := iter, it_outer := outer, Ereal := er, Efourier := ef,
                        FcFo := fcfo, SupSize := supsize\<rparr>)\<rparr>)))))"

definition write_line :: "spimage \<Rightarrow> real \<Rightarrow> hawk \<Rightarrow> hawk result" where
  "write_line sp speed st =
    (let l = lg st; nf = nonfinite sp in
     bind_result (get_beta nf (opts st)) (\<lambda>beta.
     bind_result (get_blur_radius nf (opts st)) (\<lambda>blur.
     bind_result (get_object_area nf (opts st)) (\<lambda>area.
     bind_result (get_phases_blur_radius nf (opts st)) (\<lambda>pblur.
       let (alg, opt') = get_algorithm (opts st) l in
       Inr (st\<lparr>opts := opt', log_lines := log_lines st @
         [\<lparr>l_iter = log_iter l, l_it_outer = it_outer l, l_algorithm = alg,
           l_columns = [Ereal l, Efourier l, FcFo l, SupSize l, beta, threshold l, dEreal l,
             dSupSize l, blur, int_cum_fluctuation l, area, 0, sol_correlation l, pblur,
             dRho l, speed]\<rparr>]\<rparr>))))))"

definition open_log :: "hawk \<Rightarrow> hawk" where
  "open_log st = (if flog (opts st) then st else st\<lparr>opts := (opts st)\<lparr>flog := True\<rparr>, log_lines := []\<rparr>)"

definition check_tolerance :: "hawk \<Rightarrow> hawk" where
  "check_tolerance st =
    (if Ereal (lg st) < oreal (opts st) R_real_error_tolerance
     then st\<lparr>opts := set_int I_reconstruction_finished 1 (opts st)\<rparr> else st)"

definition output_to_log ::
  "spimage \<Rightarrow> real \<Rightarrow> image \<Rightarrow> image \<Rightarrow> image \<Rightarrow> image \<Rightarrow> image \<Rightarrow> hawk \<Rightarrow> hawk result" where
  "output_to_log sp speed exp_amp real_in real_out fourier_out support st =
    (if \<not> sp_image_is_valid sp real_in then Inl (Fatal ''Real space input image is invalid!'')
     else if \<not> sp_image_is_valid sp real_out then Inl (Fatal ''Real space output image is invalid!'')
     else
       let l0 = lg st;
           l1 = (if cumulative_fluctuation l0 = None then l0\<lparr>cumulative_fluctuation := Some real_in\<rparr> else l0);
           l2 = l1\<lparr>dRho := delta_rho real_in real_out\<rparr>
       in bind_result (fluctuation_step real_in real_out (st\<lparr>lg := l2\<rparr>)) (\<lambda>st1.
          bind_result (measured sp exp_amp real_out fourier_out support (open_log st1)) (\<lambda>st2.
          bind_result (write_line sp speed (solution_step sp real_out st2)) (\<lambda>st3.
            Inr (check_tolerance st3)))))"

section \<open>What the log records\<close>

lemma log_sums_eq:
  fixes exp_amp real_out fourier_out support :: image
  defines "r i \<equiv> (sp_cabs (pixels real_out ! i))\<^sup>2"
    and "ins i \<equiv> sp_real (pixels support ! i) \<noteq> 0"
    and "ms i \<equiv> mask_data exp_amp ! i \<noteq> 0"
    and "c i \<equiv> sp_cabs (pixels fourier_out ! i)" and "e i \<equiv> sp_cabs (pixels exp_amp ! i)"
    and "n \<equiv> sp_image_size exp_amp"
  shows "log_sums exp_amp real_out fourier_out support =
    \<lparr>s_SupSize = (\<Sum>i<n. if ins i then 1 else 0),
     s_Ereal = (\<Sum>i<n. if ins i then 0 else r i), s_Ereal_den = (\<Sum>i<n. if ins i then r i else 0),
     s_Efourier = (\<Sum>i<n. if ms i then (c i - e i)\<^sup>2 else 0),
     s_Efourier_den = (\<Sum>i<n. if ms i then (e i)\<^sup>2 else 0),
     s_FcFo = (\<Sum>i<n. if ms i then c i else 0), s_FcFo_den = (\<Sum>i<n. if ms i then e i else 0)\<rparr>"
proof -
  have "for_acc m (log_sums_step exp_amp real_out fourier_out support)
       \<lparr>s_SupSize = 0, s_Ereal = 0, s_Ereal_den = 0, s_Efourier = 0, s_Efourier_den = 0,
        s_FcFo = 0, s_FcFo_den = 0\<rparr> =
    \<lparr>s_SupSize = (\<Sum>i<m. if ins i then 1 else 0),
     s_Ereal = (\<Sum>i<m. if ins i then 0 else r i), s_Ereal_den = (\<Sum>i<m. if ins i then r i else 0),
     s_Efourier = (\<Sum>i<m. if ms i then (c i - e i)\<^sup>2 else 0),
     s_Efourier_den = (\<Sum>i<m. if ms i then (e i)\<^sup>2 else 0),
     s_FcFo = (\<Sum>i<m. if ms i then c i else 0), s_FcFo_den = (\<Sum>i<m. if ms i then e i else 0)\<rparr>" for m
    by (induction m)
      (auto simp: log_sums_step_def Let_def r_def ins_def ms_def c_def e_def power2_eq_square)
  then show ?thesis by (simp add: log_sums_def n_def)
qed

lemma run_avg_eq: "run_avg xs n = (if n = 0 then 0 else (\<Sum>i<n. xs ! i) / real n)"
  by (simp add: run_avg_def loop_simps)

text \<open>What the steps of a line keep.\<close>

lemma fluctuation_step_keeps:
  "fluctuation_step a b st = Inr st' \<Longrightarrow> opts st' = opts st \<and> log_lines st' = log_lines st
     \<and> Ereal_list (lg st') = Ereal_list (lg st) \<and> SupSize_list (lg st') = SupSize_list (lg st)
     \<and> Ereal_run_avg (lg st') = Ereal_run_avg (lg st) \<and> dRho (lg st') = dRho (lg st)"
  by (auto simp: fluctuation_step_def Let_def split: if_splits option.splits)

lemma open_log_keeps [simp]:
  "lg (open_log st) = lg st" "oint (opts (open_log st)) = oint (opts st)"
  "oreal (opts (open_log st)) = oreal (opts st)" "omap (opts (open_log st)) = omap (opts st)"
  by (simp_all add: open_log_def)

lemma solution_step_keeps [simp]:
  "oint (opts (solution_step sp a st)) = oint (opts st)"
  "oreal (opts (solution_step sp a st)) = oreal (opts st)"
  "Ereal (lg (solution_step sp a st)) = Ereal (lg st)" "SupSize (lg (solution_step sp a st)) = SupSize (lg st)"
  "Ereal_run_avg (lg (solution_step sp a st)) = Ereal_run_avg (lg st)"
  "Ereal_list (lg (solution_step sp a st)) = Ereal_list (lg st)"
  by (simp_all add: solution_step_def Let_def split: option.splits)

lemma write_line_keeps:
  "write_line sp v st = Inr st' \<Longrightarrow> lg st' = lg st \<and> oreal (opts st') = oreal (opts st)"
  by (auto simp: write_line_def Let_def get_algorithm_def split: if_splits)

lemma output_to_log_InrE:
  assumes "output_to_log sp v exp_amp real_in real_out fourier_out support st = Inr st'"
  obtains l st1 st2 st3 where
    "fluctuation_step real_in real_out (st\<lparr>lg := l\<rparr>) = Inr st1"
    "Ereal_list l = Ereal_list (lg st)" "Ereal_run_avg l = Ereal_run_avg (lg st)"
    "measured sp exp_amp real_out fourier_out support (open_log st1) = Inr st2"
    "write_line sp v (solution_step sp real_out st2) = Inr st3" "st' = check_tolerance st3"
proof -
  let ?l = "(if cumulative_fluctuation (lg st) = None then (lg st)\<lparr>cumulative_fluctuation := Some real_in\<rparr>
    else lg st)\<lparr>dRho := delta_rho real_in real_out\<rparr>"
  have l: "Ereal_list ?l = Ereal_list (lg st)" "Ereal_run_avg ?l = Ereal_run_avg (lg st)" by simp_all
  from assms show thesis
    by (auto simp: output_to_log_def Let_def split: if_splits intro!: that [OF _ l])
qed

lemma measured_Inr:
  assumes "measured sp exp_amp real_out fourier_out support st = Inr st'"
  obtains k where "c_div (oint (opts st) I_cur_iteration) (oint (opts st) I_log_output_period) = Inr k"
    and "opts st' = opts st"
    and "lg st' = update_averages (Ereal (lg st')) (SupSize (lg st')) k
       ((lg st)\<lparr>log_iter := log_iter (lg st'), it_outer := it_outer (lg st'), Ereal := Ereal (lg st'),
          Efourier := Efourier (lg st'), FcFo := FcFo (lg st'), SupSize := SupSize (lg st')\<rparr>)"
    and "Ereal (lg st') = fp_div (nonfinite sp)
       (s_Ereal (log_sums exp_amp real_out fourier_out support))
       (s_Ereal_den (log_sums exp_amp real_out fourier_out support))"
    and "SupSize (lg st') = fp_div (nonfinite sp)
       (s_SupSize (log_sums exp_amp real_out fourier_out support)) (real (sp_image_size exp_amp)) * 100"
    and "0 \<le> k smod int RUN_AVG_LEN"
  using assms by (auto simp: measured_def Let_def update_averages_def array_get_Inr_iff)

lemma write_line_oint:
  "write_line sp v st = Inr st' \<Longrightarrow> f \<noteq> I_algorithm \<Longrightarrow> oint (opts st') f = oint (opts st) f"
  by (auto simp: write_line_def Let_def get_algorithm_def split: if_splits)

lemma check_tolerance_simps [simp]:
  "lg (check_tolerance st) = lg st"
  "oint (opts (check_tolerance st)) I_reconstruction_finished =
     (if Ereal (lg st) < oreal (opts st) R_real_error_tolerance then 1
      else oint (opts st) I_reconstruction_finished)"
  by (simp_all add: check_tolerance_def)

text \<open>
  Property C26 (functional): a line of the log records the real-space error of Eq. 16 of the
  paper its header cites --- the intensity outside the support divided by the intensity inside it, where
  there is any inside --- and the size of the support as a percentage of the image, and the
  reconstruction is marked finished exactly when that error has fallen below the tolerance
  (or it was marked before).
\<close>

theorem log_records_errors:
  assumes "output_to_log sp v exp_amp real_in real_out fourier_out support st = Inr st'"
    and "sp_image_size exp_amp \<noteq> 0"
  defines "ins \<equiv> {i. i < sp_image_size exp_amp \<and> sp_real (pixels support ! i) \<noteq> 0}"
    and "outs \<equiv> {i. i < sp_image_size exp_amp \<and> sp_real (pixels support ! i) = 0}"
    and "energy \<equiv> \<lambda>A. \<Sum>i\<in>A. (sp_cabs (pixels real_out ! i))\<^sup>2"
  shows "(energy ins \<noteq> 0 \<longrightarrow> Ereal (lg st') = energy outs / energy ins)
    \<and> SupSize (lg st') = 100 * real (card ins) / real (sp_image_size exp_amp)
    \<and> oint (opts st') I_reconstruction_finished =
       (if Ereal (lg st') < oreal (opts st) R_real_error_tolerance then 1
        else oint (opts st) I_reconstruction_finished)"
proof -
  from assms(1) obtain l st1 st2 st3 where
    s1: "fluctuation_step real_in real_out (st\<lparr>lg := l\<rparr>) = Inr st1" and
    s2: "measured sp exp_amp real_out fourier_out support (open_log st1) = Inr st2" and
    s3: "write_line sp v (solution_step sp real_out st2) = Inr st3" and st': "st' = check_tolerance st3"
    by (rule output_to_log_InrE)
  let ?n = "sp_image_size exp_amp"
  have split: "(\<Sum>i<?n. if P i then g i else 0) = (\<Sum>i\<in>{i. i < ?n \<and> P i}. g i)" for P and g :: "nat \<Rightarrow> real"
    by (simp add: sum.If_cases Collect_conj_eq lessThan_def)
  have in_den: "s_Ereal_den (log_sums exp_amp real_out fourier_out support) = energy ins"
    and size: "s_SupSize (log_sums exp_amp real_out fourier_out support) = real (card ins)"
    by (simp_all add: log_sums_eq energy_def ins_def split)
  have out: "s_Ereal (log_sums exp_amp real_out fourier_out support) = energy outs"
  proof -
    have flip: "(if \<not> P then 0 else r) = (if P then r else 0)" for P and r :: real by simp
    show ?thesis
      using split [of "\<lambda>i. sp_real (pixels support ! i) = 0" "\<lambda>i. (sp_cabs (pixels real_out ! i))\<^sup>2"]
      by (simp add: log_sums_eq energy_def outs_def flip)
  qed
  have lg': "Ereal (lg st') = Ereal (lg st2)" "SupSize (lg st') = SupSize (lg st2)"
    using write_line_keeps [OF s3] by (simp_all add: st')
  from s2 obtain k where opts2: "opts st2 = opts (open_log st1)"
    and er2: "Ereal (lg st2) = fp_div (nonfinite sp)
       (s_Ereal (log_sums exp_amp real_out fourier_out support))
       (s_Ereal_den (log_sums exp_amp real_out fourier_out support))"
    and sz2: "SupSize (lg st2) = fp_div (nonfinite sp)
       (s_SupSize (log_sums exp_amp real_out fourier_out support)) (real ?n) * 100"
    by (rule measured_Inr) blast
  have fields: "oint (opts st3) I_reconstruction_finished = oint (opts st) I_reconstruction_finished"
      "oreal (opts st3) = oreal (opts st)"
    using write_line_oint [OF s3, of I_reconstruction_finished] write_line_keeps [OF s3]
      fluctuation_step_keeps [OF s1] opts2 by simp_all
  have er: "Ereal (lg st') = fp_div (nonfinite sp) (energy outs) (energy ins)"
    and sz: "SupSize (lg st') = fp_div (nonfinite sp) (real (card ins)) (real ?n) * 100"
    by (simp_all add: lg' er2 sz2 in_den size out)
  show ?thesis
    using er sz fields assms(2) st' by simp
qed

text \<open>A state on which the examples run.\<close>

definition image_of :: "complex list \<Rightarrow> image" where
  "image_of xs = \<lparr>pixels = xs, mask_data = replicate (length xs) 1, size_x = length xs, size_y = 1,
     size_z = 1, shifted = True, image_center = []\<rparr>"

definition example_log :: log where
  "example_log = \<lparr>Ereal = 1, Efourier = 0, FcFo = 0, SupSize = 1, log_iter = 0, it_outer = 0,
     Ereal_list = replicate 500 0, Ereal_run_avg = 0, SupSize_list = replicate 500 0,
     SupSize_run_avg = 0, dEreal = 1, dSupSize = -1, dRho = 0, threshold = 0,
     cumulative_fluctuation = None, int_cum_fluctuation = 0, sol_correlation = 0\<rparr>"

definition example_hawk :: "int \<Rightarrow> hawk" where
  "example_hawk iter = \<lparr>opts = set_int I_cur_iteration iter (set_int I_iterations 20
       (set_int I_log_output_period 10 example_options)),
     lg = example_log, log_lines = [], previous_out = None, sol_superimpose_counter = 0,
     exp_amp_minus_sigma = None, exp_amp_plus_sigma = None, raar_weak_reflections = None,
     cflip_weak_reflections = None, espresso_weak_reflections = None, haar_x = None, so2d_static = None, stepped_flag = False\<rparr>"

lemmas example_state_defs = example_options_def example_log_def example_hawk_def image_of_def

lemma example_line:
  assumes "iter \<in> {25, 15}"
  shows "\<exists>st'. output_to_log example_library 1 (image_of [1, 1]) (image_of [2, 1]) (image_of [2, 1])
     (image_of [1, 1]) (image_of [1, 0]) (example_hawk iter) = Inr st'"
  using assms
  by (auto simp: output_to_log_def example_state_defs example_library_def fluctuation_step_def
      measured_def write_line_def solution_step_def open_log_def get_beta_def get_blur_radius_def
      get_object_area_def get_phases_blur_radius_def Let_def array_get_def set_int_def smod_nonneg
      split: prod.splits)

theorem log_records_errors_witness:
  "\<exists>st'. output_to_log example_library 1 (image_of [1, 1]) (image_of [2, 1]) (image_of [2, 1])
     (image_of [1, 1]) (image_of [1, 0]) (example_hawk 25) = Inr st'
   \<and> Ereal (lg st') = 1/4 \<and> SupSize (lg st') = 50"
proof -
  obtain st' where st': "output_to_log example_library 1 (image_of [1, 1]) (image_of [2, 1])
      (image_of [2, 1]) (image_of [1, 1]) (image_of [1, 0]) (example_hawk 25) = Inr st'"
    using example_line by blast
  have sets: "{i. i < Suc (Suc 0) \<and> Re ([1, 0] ! i) \<noteq> 0} = {0}"
      "{i. i < Suc (Suc 0) \<and> Re ([1, 0] ! i) = 0} = {Suc 0}"
    by (auto simp: less_Suc_eq)
  show ?thesis
    using st' log_records_errors [OF st'] by (simp add: image_of_def sp_image_size_def sets)
qed

text \<open>
  The running average of the error lags one line behind.  Line number
  \<open>k\<close> stores its error in slot \<open>k mod 500\<close>, but the average is taken over the first
  \<open>k\<close> slots --- the errors of the lines before it --- until all 500 slots are filled;
  the first line has the average 0.
\<close>

lemma running_average_lags:
  assumes "output_to_log sp v exp_amp real_in real_out fourier_out support st = Inr st'"
    and "0 \<le> oint (opts st) I_cur_iteration" and "0 < oint (opts st) I_log_output_period"
    and "length (Ereal_list (lg st)) = RUN_AVG_LEN"
  defines "k \<equiv> nat (oint (opts st) I_cur_iteration div oint (opts st) I_log_output_period)"
  shows "Ereal_list (lg st') = (Ereal_list (lg st))[k mod RUN_AVG_LEN := Ereal (lg st')]
    \<and> Ereal_run_avg (lg st') =
       (if k = 0 then 0
        else if k < RUN_AVG_LEN then (\<Sum>i<k. Ereal_list (lg st) ! i) / real k
        else (\<Sum>i<RUN_AVG_LEN. Ereal_list (lg st') ! i) / real RUN_AVG_LEN)"
proof -
  from assms(1) obtain l st1 st2 st3 where
    s1: "fluctuation_step real_in real_out (st\<lparr>lg := l\<rparr>) = Inr st1" and
    l: "Ereal_list l = Ereal_list (lg st)" and
    s2: "measured sp exp_amp real_out fourier_out support (open_log st1) = Inr st2" and
    s3: "write_line sp v (solution_step sp real_out st2) = Inr st3" and st': "st' = check_tolerance st3"
    by (rule output_to_log_InrE)
  have o1: "opts st1 = opts st" and e1: "Ereal_list (lg st1) = Ereal_list (lg st)"
    using fluctuation_step_keeps [OF s1] l by simp_all
  have lg': "Ereal (lg st') = Ereal (lg st2)" "Ereal_list (lg st') = Ereal_list (lg st2)"
      "Ereal_run_avg (lg st') = Ereal_run_avg (lg st2)"
    using write_line_keeps [OF s3] by (simp_all add: st')
  have k: "int k = oint (opts st) I_cur_iteration div oint (opts st) I_log_output_period"
    using assms(2,3) by (simp add: k_def pos_imp_zdiv_nonneg_iff)
  have lg2: "\<exists>l0. Ereal_list l0 = Ereal_list (lg st) \<and>
      lg st2 = update_averages (Ereal (lg st2)) (SupSize (lg st2)) (int k) l0"
    using s2
  proof (rule measured_Inr)
    fix k'
    let ?l0 = "(lg (open_log st1))\<lparr>log_iter := log_iter (lg st2), it_outer := it_outer (lg st2),
      Ereal := Ereal (lg st2), Efourier := Efourier (lg st2), FcFo := FcFo (lg st2),
      SupSize := SupSize (lg st2)\<rparr>"
    assume "c_div (oint (opts (open_log st1)) I_cur_iteration)
        (oint (opts (open_log st1)) I_log_output_period) = Inr k'"
      and eq: "lg st2 = update_averages (Ereal (lg st2)) (SupSize (lg st2)) k' ?l0"
    then have "k' = int k" using assms(2,3) by (simp add: o1 k)
    moreover have "Ereal_list ?l0 = Ereal_list (lg st)" by (simp add: e1)
    ultimately show ?thesis using eq by blast
  qed
  then obtain l0 where l0: "Ereal_list l0 = Ereal_list (lg st)"
    and lg2: "lg st2 = update_averages (Ereal (lg st2)) (SupSize (lg st2)) (int k) l0" by blast
  have slot: "nat (int k smod int RUN_AVG_LEN) = k mod RUN_AVG_LEN"
    by (simp add: smod_nonneg nat_mod_distrib)
  have least: "nat (min (int k) 500) = min k 500" by (simp add: min_def)
  have el: "Ereal_list (lg st2) = (Ereal_list (lg st))[k mod RUN_AVG_LEN := Ereal (lg st2)]"
    and ea: "Ereal_run_avg (lg st2) = run_avg (Ereal_list (lg st2)) (min k RUN_AVG_LEN)"
    by (subst lg2, simp add: update_averages_def Let_def l0 slot [simplified] least)+
  show ?thesis
    using el ea by (auto simp: lg' run_avg_eq min_def intro!: sum.cong)
qed

theorem running_average_lags_witness:
  "\<exists>st'. output_to_log example_library 1 (image_of [1, 1]) (image_of [2, 1]) (image_of [2, 1])
     (image_of [1, 1]) (image_of [1, 0]) (example_hawk 15) = Inr st' \<and> Ereal_run_avg (lg st') = 0"
proof -
  obtain st' where st': "output_to_log example_library 1 (image_of [1, 1]) (image_of [2, 1])
      (image_of [2, 1]) (image_of [1, 1]) (image_of [1, 0]) (example_hawk 15) = Inr st'"
    using example_line by blast
  then show ?thesis
    using running_average_lags [OF st'] by (simp add: example_state_defs)
qed

end
