(* ===== verification/Algorithms.thy ===== *)
theory Algorithms
  imports Log
begin

text \<open>
  The phasing iterations of \<open>src/algorithms.c\<close>.  Each takes the measured amplitudes, the
  current image and the support and returns the new image; the state \<open>hawk\<close> is threaded
  through, because an iteration writes a line of the log when one is due and some keep
  \<open>static\<close> variables.  All images of a run have one size, which the driver establishes
  before the first iteration; where a theorem needs it, it is a hypothesis.
\<close>

section \<open>The loops the iterations share\<close>

text \<open>\<open>real_out->image->data[i] = sp_cscale(real_out->image->data[i], 1.0/size)\<close>\<close>

definition normalized :: "nat \<Rightarrow> image \<Rightarrow> image" where
  "normalized n a = on_pixels (sp_image_size a) (\<lambda>_ z. sp_cscale z (1.0 / real n)) a"

definition inside :: "image \<Rightarrow> nat \<Rightarrow> bool" where
  "inside support i \<longleftrightarrow> sp_real (pixels support ! i) \<noteq> 0"

text \<open>The constraints inside the support: a real image, and one of two kinds of positivity.\<close>

definition enforce_real :: "image \<Rightarrow> image \<Rightarrow> image" where
  "enforce_real support a =
     on_pixels (sp_image_size a) (\<lambda>i z. if inside support i then sp_cinit (sp_real z) 0 else z) a"

definition clip_negative :: "image \<Rightarrow> image \<Rightarrow> image" where
  "clip_negative support a = on_pixels (sp_image_size a)
     (\<lambda>i z. if inside support i
       then let z1 = (if sp_real z < 0 then sp_cinit 0 (sp_imag z) else z)
            in if sp_imag z1 < 0 then sp_cinit (sp_real z1) 0 else z1
       else z) a"

definition fold_negative :: "image \<Rightarrow> image \<Rightarrow> image" where
  "fold_negative support a = on_pixels (sp_image_size a)
     (\<lambda>i z. if inside support i then sp_cinit \<bar>sp_real z\<bar> \<bar>sp_imag z\<bar> else z) a"

definition constrained :: "(image \<Rightarrow> image \<Rightarrow> image) \<Rightarrow> options \<Rightarrow> image \<Rightarrow> image \<Rightarrow> image" where
  "constrained positive opt support a =
    (let a1 = (if oint opt I_enforce_real \<noteq> 0 then enforce_real support a else a)
     in if oint opt I_enforce_positivity \<noteq> 0 then positive support a1 else a1)"

text \<open>The last statement of an iteration: a line of the log every \<open>log_output_period\<close> iterations.\<close>

definition log_if_due ::
  "spimage \<Rightarrow> real \<Rightarrow> image \<Rightarrow> image \<Rightarrow> image \<Rightarrow> image \<Rightarrow> image \<Rightarrow> hawk \<Rightarrow> hawk result" where
  "log_if_due sp speed exp_amp real_in real_out fft support st =
    bind_result (c_rem (oint (opts st) I_cur_iteration) (oint (opts st) I_log_output_period)) (\<lambda>r.
      if r = oint (opts st) I_log_output_period - 1
      then output_to_log sp speed exp_amp real_in real_out fft support st
      else Inr st)"

definition finish ::
  "spimage \<Rightarrow> real \<Rightarrow> image \<Rightarrow> image \<Rightarrow> image \<Rightarrow> image \<Rightarrow> image \<Rightarrow> hawk \<Rightarrow> (image \<times> hawk) result" where
  "finish sp speed exp_amp real_in real_out fft support st =
    bind_result (log_if_due sp speed exp_amp real_in real_out fft support st) (\<lambda>st'. Inr (real_out, st'))"

section \<open>Hybrid input output\<close>

text \<open>
  The amplitudes of a measured pixel, with the phase of the calculated value; a pixel
  that is masked out keeps its calculated value, and one whose calculated value is 0 keeps
  the pattern's own, which is the measured amplitude with phase 0.
\<close>

definition hio_pattern :: "spimage \<Rightarrow> image \<Rightarrow> image \<Rightarrow> image" where
  "hio_pattern sp exp_amp fft =
     on_pixels (sp_image_size exp_amp)
       (\<lambda>i z. if mask_data exp_amp ! i = 0 then pixels fft ! i
          else if sp_cabs (pixels fft ! i) \<noteq> 0
            then sp_cscale (pixels fft ! i) (sp_real (pixels exp_amp ! i) / sp_cabs (pixels fft ! i))
          else z)
       (sp_image_rephase_zero sp exp_amp)"

definition hio_feedback :: "real \<Rightarrow> image \<Rightarrow> image \<Rightarrow> image \<Rightarrow> image" where
  "hio_feedback beta real_in support a = on_pixels (sp_image_size a)
     (\<lambda>i z. if \<not> inside support i then pixels real_in ! i - sp_cscale z beta else z) a"

definition basic_hio_iteration ::
  "spimage \<Rightarrow> real \<Rightarrow> image \<Rightarrow> image \<Rightarrow> image \<Rightarrow> hawk \<Rightarrow> (image \<times> hawk) result" where
  "basic_hio_iteration sp speed exp_amp real_in support st =
    bind_result (get_beta (nonfinite sp) (opts st)) (\<lambda>beta.
      let size = sp_image_size real_in;
          fft_out = sp_image_fft sp real_in;
          pattern = hio_pattern sp exp_amp fft_out;
          real_out = normalized size (sp_image_ifft sp pattern);
          real_out = hio_feedback beta real_in support real_out;
          real_out = constrained clip_negative (opts st) support real_out
      in finish sp speed exp_amp real_in real_out fft_out support st)"

definition basic_hio_proj_iteration ::
  "spimage \<Rightarrow> real \<Rightarrow> image \<Rightarrow> image option \<Rightarrow> image \<Rightarrow> image \<Rightarrow> hawk \<Rightarrow> (image \<times> hawk) result" where
  "basic_hio_proj_iteration sp speed exp_amp int_std_dev real_in support st =
    bind_result (get_beta (nonfinite sp) (opts st)) (\<lambda>beta.
      let size = sp_image_size real_in;
          fft_in = sp_image_fft sp real_in;
          fft_out = sp_proj_module_histogram sp fft_in exp_amp int_std_dev;
          real_out = normalized size (sp_image_ifft sp fft_out);
          real_out = hio_feedback beta real_in support real_out;
          real_out = constrained fold_negative (opts st) support real_out
      in finish sp speed exp_amp real_in real_out fft_in support st)"

text \<open>
  The blurring of the phases, in place.  A pixel of modulus 0 has no phase: the divisions give
  NaN there, and so does the product with its modulus.
\<close>

definition phase_smoothening_iteration :: "spimage \<Rightarrow> image \<Rightarrow> options \<Rightarrow> image result" where
  "phase_smoothening_iteration sp real_in opt =
    bind_result (get_phases_blur_radius (nonfinite sp) opt) (\<lambda>radius.
      let nf = nonfinite sp;
          amps = map sp_cabs (pixels real_in);
          out = on_pixels (sp_image_size real_in)
            (\<lambda>i z. sp_cinit (fp_div nf (sp_real z) (amps ! i)) (fp_div nf (sp_imag z) (amps ! i))) real_in;
          tmp = sp_gaussian_blur sp out radius
      in Inr (on_pixels (sp_image_size tmp)
        (\<lambda>i z. if amps ! i = 0 then sp_cinit (nf 0) (nf 0)
           else sp_cinit (sp_real (pixels tmp ! i) * amps ! i) (sp_imag (pixels tmp ! i) * amps ! i))
        real_in))"

section \<open>Relaxed averaged alternating reflections\<close>

text \<open>
  The documented reduction of the update: inside the support the result of the Fourier
  projection, outside \<open>(1-2*beta)\<close> of it plus \<open>beta\<close> of the input.
\<close>

definition raar_feedback :: "real \<Rightarrow> image \<Rightarrow> image \<Rightarrow> image \<Rightarrow> image" where
  "raar_feedback beta real_in support a = on_pixels (sp_image_size a)
     (\<lambda>i z. if sp_cabs (pixels support ! i) = 0
        then sp_cscale z (1.0 - 2 * beta) + sp_cscale (pixels real_in ! i) beta else z) a"

text \<open>The Fourier step of the serial variant tests the real part of the calculated value.\<close>

definition serial_raar_amplitudes :: "image \<Rightarrow> image \<Rightarrow> image" where
  "serial_raar_amplitudes exp_amp fft = on_pixels (sp_image_size exp_amp)
     (\<lambda>i z. if mask_data exp_amp ! i \<noteq> 0
        then (if sp_real z \<noteq> 0 then sp_cscale z (sp_real (pixels exp_amp ! i) / sp_cabs z)
              else pixels exp_amp ! i)
        else z) fft"

definition remove_central_phase :: "options \<Rightarrow> image \<Rightarrow> image" where
  "remove_central_phase opt a =
    (if oint opt I_remove_central_pixel_phase \<noteq> 0
     then a\<lparr>pixels := (pixels a)[0 := sp_cinit (sp_cabs (pixels a ! 0)) 0]\<rparr> else a)"

definition serial_raar_iteration ::
  "spimage \<Rightarrow> real \<Rightarrow> image \<Rightarrow> image \<Rightarrow> image \<Rightarrow> hawk \<Rightarrow> (image \<times> hawk) result" where
  "serial_raar_iteration sp speed exp_amp real_in support st =
    bind_result (get_beta (nonfinite sp) (opts st)) (\<lambda>beta.
      let size = sp_image_size real_in;
          fft_in = sp_image_fft sp real_in;
          fft_out = serial_raar_amplitudes exp_amp fft_in;
          fft_out = remove_central_phase (opts st) fft_out;
          real_out = normalized size (sp_image_ifft sp fft_out);
          real_out = raar_feedback beta real_in support real_out;
          real_out = constrained fold_negative (opts st) support real_out
      in finish sp speed exp_amp real_in real_out fft_in support st)"

text \<open>
  The amplitudes with their error bars, computed once and kept in two \<open>static\<close>
  images: the standard deviation is the square root of the variance image, if there is one.
\<close>

definition shifted_amplitudes ::
  "(real \<Rightarrow> real) \<Rightarrow> (real \<Rightarrow> real \<Rightarrow> real) \<Rightarrow> image \<Rightarrow> image option \<Rightarrow> image" where
  "shifted_amplitudes nf shift exp_amp exp_sigma =
    (case exp_sigma of
       None \<Rightarrow> exp_amp
     | Some sg \<Rightarrow> on_pixels (sp_image_size exp_amp)
         (\<lambda>i z. sp_cinit (shift (sp_real z) (fp_sqrt nf (sp_real (pixels sg ! i)))) (sp_imag z)) exp_amp)"

definition load_sigma :: "spimage \<Rightarrow> image \<Rightarrow> image option \<Rightarrow> hawk \<Rightarrow> hawk" where
  "load_sigma sp exp_amp exp_sigma st =
    (let st1 = (if exp_amp_minus_sigma st = None
           then st\<lparr>exp_amp_minus_sigma := Some (shifted_amplitudes (nonfinite sp) (-) exp_amp exp_sigma)\<rparr>
           else st)
     in if exp_amp_plus_sigma st1 = None
        then st1\<lparr>exp_amp_plus_sigma := Some (shifted_amplitudes (nonfinite sp) (+) exp_amp exp_sigma)\<rparr>
        else st1)"

text \<open>
  The weak reflections of this iteration are only marked, never used.  The threshold is
  taken from a copy of the memory at \<open>exp_amp->image\<close>, the address of the matrix
  structure and not of its data.
\<close>

definition weak_flags :: "image \<Rightarrow> real \<Rightarrow> bool list" where
  "weak_flags exp_amp t =
     map (\<lambda>i. mask_data exp_amp ! i \<noteq> 0 \<and> sp_real (pixels exp_amp ! i) \<le> t) [0..<sp_image_size exp_amp]"

definition mark_raar_weak_reflections :: "spimage \<Rightarrow> image \<Rightarrow> hawk \<Rightarrow> hawk result" where
  "mark_raar_weak_reflections sp exp_amp st =
    (let p = oreal (opts st) R_perturb_weak_reflections; n = sp_image_size exp_amp in
     if p \<noteq> 0 \<and> raar_weak_reflections st = None then
       bind_result (sp_c3matrix_raw sp exp_amp n) (\<lambda>array.
       bind_result (array_get (sort array) (c_int_of_real (real n * p))) (\<lambda>t.
         Inr (st\<lparr>raar_weak_reflections := Some (weak_flags exp_amp t)\<rparr>)))
     else Inr st)"

definition raar_band_value :: "complex \<Rightarrow> complex \<Rightarrow> complex \<Rightarrow> complex" where
  "raar_band_value lo hi z =
    (if sp_cabs z < sp_real lo then
       (if sp_real z \<noteq> 0 then sp_cscale z (sp_real lo / sp_cabs z) else lo)
     else if sp_cabs z > sp_real hi then
       (if sp_real z \<noteq> 0 then sp_cscale z (sp_real hi / sp_cabs z) else hi)
     else z)"

definition raar_amplitudes :: "image \<Rightarrow> image \<Rightarrow> image \<Rightarrow> image \<Rightarrow> image" where
  "raar_amplitudes exp_amp lo hi fft = on_pixels (sp_image_size exp_amp)
     (\<lambda>i z. if mask_data exp_amp ! i \<noteq> 0 then raar_band_value (pixels lo ! i) (pixels hi ! i) z else z) fft"

definition basic_raar_iteration ::
  "spimage \<Rightarrow> real \<Rightarrow> image \<Rightarrow> image option \<Rightarrow> image \<Rightarrow> image \<Rightarrow> hawk \<Rightarrow> (image \<times> hawk) result" where
  "basic_raar_iteration sp speed exp_amp exp_sigma real_in support st0 =
    bind_result (get_beta (nonfinite sp) (opts st0)) (\<lambda>beta.
      let size = sp_image_size real_in;
          fft_in = sp_image_fft sp real_in
      in bind_result (mark_raar_weak_reflections sp exp_amp (load_sigma sp exp_amp exp_sigma st0)) (\<lambda>st.
         bind_result (deref (exp_amp_minus_sigma st)) (\<lambda>lo.
         bind_result (deref (exp_amp_plus_sigma st)) (\<lambda>hi.
      let fft_out = raar_amplitudes exp_amp lo hi fft_in;
          fft_out = remove_central_phase (opts st) fft_out;
          real_out = normalized size (sp_image_ifft sp fft_out);
          real_out = raar_feedback beta real_in support real_out;
          real_out = constrained fold_negative (opts st) support real_out
      in finish sp speed exp_amp real_in real_out fft_in support st))))"

definition basic_raar_proj_iteration ::
  "spimage \<Rightarrow> real \<Rightarrow> image \<Rightarrow> image option \<Rightarrow> image \<Rightarrow> image \<Rightarrow> hawk \<Rightarrow> (image \<times> hawk) result" where
  "basic_raar_proj_iteration sp speed exp_amp int_std_dev real_in support st =
    bind_result (get_beta (nonfinite sp) (opts st)) (\<lambda>beta.
      let size = sp_image_size real_in;
          fft_in = sp_image_fft sp real_in;
          fft_out = sp_proj_module_histogram sp fft_in exp_amp int_std_dev;
          real_out = normalized size (sp_image_ifft sp fft_out);
          real_out = raar_feedback beta real_in support real_out;
          real_out = constrained fold_negative (opts st) support real_out
      in finish sp speed exp_amp real_in real_out fft_in support st)"

section \<open>Error reduction and hybrid projection reflection\<close>

text \<open>The division by the calculated modulus is not guarded here: a value of 0 gives NaN.\<close>

definition er_pattern :: "spimage \<Rightarrow> image \<Rightarrow> image \<Rightarrow> image" where
  "er_pattern sp exp_amp fft =
     on_pixels (sp_image_size exp_amp)
       (\<lambda>i z. if mask_data exp_amp ! i = 0 then pixels fft ! i
          else with_modulus (nonfinite sp) (pixels fft ! i) (sp_real (pixels exp_amp ! i)))
       (sp_image_rephase_zero sp exp_amp)"

definition zero_outside :: "image \<Rightarrow> image \<Rightarrow> image" where
  "zero_outside support a =
     on_pixels (sp_image_size a) (\<lambda>i z. if \<not> inside support i then sp_cinit 0 0 else z) a"

definition basic_error_reduction_iteration ::
  "spimage \<Rightarrow> real \<Rightarrow> image \<Rightarrow> image \<Rightarrow> image \<Rightarrow> hawk \<Rightarrow> (image \<times> hawk) result" where
  "basic_error_reduction_iteration sp speed exp_amp real_in support st =
    (let size = sp_image_size real_in;
         fft_out = sp_image_fft sp real_in;
         pattern = er_pattern sp exp_amp fft_out;
         real_out = normalized size (sp_image_ifft sp pattern);
         real_out = zero_outside support real_out;
         real_out = constrained fold_negative (opts st) support real_out
     in finish sp speed exp_amp real_in real_out fft_out support st)"

definition hpr_feedback :: "real \<Rightarrow> bool \<Rightarrow> image \<Rightarrow> image \<Rightarrow> image \<Rightarrow> image" where
  "hpr_feedback beta real_only real_in support a = on_pixels (sp_image_size a)
     (\<lambda>i z. let x = pixels real_in ! i in
        if \<not> inside support i \<or> sp_cabs (sp_cscale z 2 - x) < sp_cabs (sp_cscale z (1 - beta))
        then (if real_only then sp_cinit (sp_real (x - sp_cscale z beta)) 0 else x - sp_cscale z beta)
        else z) a"

definition basic_hpr_iteration ::
  "spimage \<Rightarrow> real \<Rightarrow> image \<Rightarrow> image \<Rightarrow> image \<Rightarrow> hawk \<Rightarrow> (image \<times> hawk) result" where
  "basic_hpr_iteration sp speed exp_amp real_in support st =
    bind_result (get_beta (nonfinite sp) (opts st)) (\<lambda>beta.
      let size = sp_image_size real_in;
          fft_out = sp_image_fft sp real_in;
          pattern = er_pattern sp exp_amp fft_out;
          real_out = normalized size (sp_image_ifft sp pattern);
          real_out = hpr_feedback beta (oint (opts st) I_enforce_real \<noteq> 0) real_in support real_out;
          real_out = constrained fold_negative (opts st) support real_out
      in finish sp speed exp_amp real_in real_out fft_out support st)"

section \<open>Charge flipping and ESPRESSO\<close>

text \<open>
  Both mark the weak reflections once, with a threshold taken from a sorted copy of the data.
  The copy holds \<open>n\<close> reals --- the real and imaginary parts of the first half of the pixels ---
  and is sorted with a comparison that reads two reals at each element: comparing the
  last element reads past the array, and \<open>qsort\<close> compares every element as soon as
  there are two.
\<close>

definition interleaved :: "complex list \<Rightarrow> real list" where
  "interleaved zs = concat (map (\<lambda>z. [sp_real z, sp_imag z]) zs)"

definition qsort_reals_as_complex :: "real list \<Rightarrow> real list result" where
  "qsort_reals_as_complex xs = (if length xs < 2 then Inr xs else Inl Out_Of_Bounds)"

definition mark_weak_reflections ::
  "image \<Rightarrow> real \<Rightarrow> bool list option \<Rightarrow> (real \<times> bool list option) result" where
  "mark_weak_reflections exp_amp p flags =
    (let n = sp_image_size exp_amp in
     if p \<noteq> 0 \<and> flags = None then
       bind_result (qsort_reals_as_complex (take n (interleaved (pixels exp_amp)))) (\<lambda>tmp.
       bind_result (array_get tmp (c_int_of_real (real n * p))) (\<lambda>max.
         Inr (max, Some (weak_flags exp_amp max))))
     else Inr (0, flags))"

definition flip_pattern ::
  "spimage \<Rightarrow> image \<Rightarrow> real \<Rightarrow> bool list option \<Rightarrow> image \<Rightarrow> image" where
  "flip_pattern sp exp_amp p flags fft =
     on_pixels (sp_image_size exp_amp)
       (\<lambda>i z. let c = pixels fft ! i; e = sp_real (pixels exp_amp ! i) in
          if mask_data exp_amp ! i = 0 then c
          else if p \<noteq> 0 \<and> (case flags of Some w \<Rightarrow> w ! i | None \<Rightarrow> False)
            then (if sp_cabs c = 0 then with_modulus (nonfinite sp) c e
                  else sp_cscale (sp_cinit 0 1 * c) (e / sp_cabs c))
          else with_modulus (nonfinite sp) c e)
       (sp_image_rephase_zero sp exp_amp)"

text \<open>
  The scaling of the result also finds its greatest modulus, starting from the threshold of
  the weak reflections.
\<close>

definition normalized_real :: "bool \<Rightarrow> nat \<Rightarrow> image \<Rightarrow> image" where
  "normalized_real real_only n a = on_pixels (sp_image_size a)
     (\<lambda>_ z. if real_only then sp_cinit (sp_real z / real n) 0 else sp_cscale z (1.0 / real n)) a"

definition max_modulus :: "image \<Rightarrow> real \<Rightarrow> real" where
  "max_modulus a m = running_max (sp_image_size a) (\<lambda>i. sp_cabs (pixels a ! i)) m"

definition charge_flip :: "real \<Rightarrow> image \<Rightarrow> image" where
  "charge_flip limit a =
     on_pixels (sp_image_size a) (\<lambda>_ z. if sp_cabs z < limit then sp_cscale z (-1) else z) a"

definition fold_everywhere :: "image \<Rightarrow> image" where
  "fold_everywhere a = on_pixels (sp_image_size a) (\<lambda>_ z. sp_cinit \<bar>sp_real z\<bar> \<bar>sp_imag z\<bar>) a"

definition basic_cflip_iteration ::
  "spimage \<Rightarrow> real \<Rightarrow> image \<Rightarrow> image \<Rightarrow> image \<Rightarrow> hawk \<Rightarrow> (image \<times> hawk) result" where
  "basic_cflip_iteration sp speed exp_amp real_in support st0 =
    (let size = sp_image_size real_in; opt = opts st0;
         p = oreal opt R_perturb_weak_reflections;
         fft_out = sp_image_fft sp real_in
     in bind_result (mark_weak_reflections exp_amp p (cflip_weak_reflections st0)) (\<lambda>(max0, flags).
     let st = st0\<lparr>cflip_weak_reflections := flags\<rparr>;
         pattern = flip_pattern sp exp_amp p flags fft_out;
         real_out = normalized_real (oint opt I_enforce_real \<noteq> 0) size (sp_image_ifft sp pattern);
         max = max_modulus real_out max0;
         real_out = charge_flip (oreal opt R_charge_flip_sigma * max) real_out;
         real_out = (if oint opt I_enforce_positivity \<noteq> 0 then fold_everywhere real_out else real_out)
     in finish sp speed exp_amp real_in real_out fft_out support st))"

text \<open>
  ESPRESSO writes into the support it was given: the real part marks where the image has
  changed by more than a fraction of the maximum, the imaginary part where it is positive.
  The support is therefore returned too.
\<close>

definition espresso_support :: "real \<Rightarrow> image \<Rightarrow> image \<Rightarrow> image \<Rightarrow> image" where
  "espresso_support limit real_in real_out support = on_pixels (sp_image_size real_out)
     (\<lambda>i _. sp_cinit (if sp_cabs (pixels real_out ! i - pixels real_in ! i) > limit then 1 else 0)
                     (if sp_real (pixels real_out ! i) > 0 then 1 else 0)) support"

definition espresso_update :: "real \<Rightarrow> image \<Rightarrow> image \<Rightarrow> image \<Rightarrow> image" where
  "espresso_update beta real_in support a = on_pixels (sp_image_size a)
     (\<lambda>i z. let s = pixels support ! i in
        (sp_cscale z (sp_real s * sp_imag s) + sp_cscale (pixels real_in ! i) (1.0 - sp_real s))
        - sp_cscale z beta) a"

definition basic_espresso_iteration ::
  "spimage \<Rightarrow> real \<Rightarrow> image \<Rightarrow> image \<Rightarrow> image \<Rightarrow> hawk \<Rightarrow> (image \<times> image \<times> hawk) result" where
  "basic_espresso_iteration sp speed exp_amp real_in support0 st0 =
    (let size = sp_image_size real_in; opt = opts st0;
         p = oreal opt R_perturb_weak_reflections;
         fft_out = sp_image_fft sp real_in
     in bind_result (mark_weak_reflections exp_amp p (espresso_weak_reflections st0)) (\<lambda>(max0, flags).
     let st = st0\<lparr>espresso_weak_reflections := flags\<rparr>;
         pattern = flip_pattern sp exp_amp p flags fft_out;
         real_out = normalized_real (oint opt I_enforce_real \<noteq> 0) size (sp_image_ifft sp pattern);
         max = max_modulus real_out max0;
         support = espresso_support (oreal opt R_espresso_tau * max) real_in real_out support0;
         real_out = espresso_update (oreal opt R_beta) real_in support real_out;
         real_out = constrained fold_negative opt support real_out
     in bind_result (finish sp speed exp_amp real_in real_out fft_out support st) (\<lambda>(out, st').
        Inr (out, support, st'))))"

section \<open>Haugazeau's operator and HAAR\<close>

text \<open>
  \<open>Q_operator\<close> works on the matrices of its three images and changes \<open>x\<close> or \<open>y\<close> in
  place; it returns a copy of the one it changed, or of \<open>z\<close>.  The result lists the
  operator's value and the new \<open>x\<close> and \<open>y\<close>.
\<close>

definition Q_operator :: "spimage \<Rightarrow> image \<Rightarrow> image \<Rightarrow> image \<Rightarrow> (image \<times> image \<times> image) result" where
  "Q_operator sp x y z =
    (let nf = nonfinite sp;
         x_minus_y = sp_c3matrix_sub sp (pixels x) (pixels y);
         y_minus_z = sp_c3matrix_sub sp (pixels y) (pixels z);
         z_minus_y = sp_c3matrix_scale sp y_minus_z (sp_cinit (-1) 0);
         p = sp_c3matrix_froenius_prod sp x_minus_y y_minus_z;
         mu = sp_c3matrix_froenius_prod sp x_minus_y x_minus_y;
         nu = sp_c3matrix_froenius_prod sp y_minus_z y_minus_z;
         rho = mu * nu - p * p
     in if sp_cabs rho = 0 \<and> sp_cabs p \<ge> 0 then Inr (z, x, y)
        else if sp_cabs rho > 0 \<and> sp_cabs (p * nu) \<ge> sp_cabs rho then
          let s = sp_cinit (sp_cabs (sp_cinit 1 0 + fp_cdiv nf p nu)) 0;
              x' = x\<lparr>pixels := sp_c3matrix_add sp (pixels x) z_minus_y s\<rparr>
          in Inr (x', x', y)
        else if sp_cabs rho > 0 \<and> sp_cabs (p * nu) < sp_cabs rho then
          let s = sp_cinit (sp_cabs (fp_cdiv nf (p * nu) rho)) 0;
              y' = y\<lparr>pixels := sp_c3matrix_add sp (pixels y) x_minus_y s\<rparr>;
              s' = sp_cinit (sp_cabs (fp_cdiv nf (mu * nu) rho)) 0;
              y'' = y'\<lparr>pixels := sp_c3matrix_add sp (pixels y') z_minus_y s'\<rparr>
          in Inr (y'', x, y'')
        else Inl (Fatal ''Cannot reach here!''))"

text \<open>\<open>x\<close> is the image of the first call, as \<open>Q_operator\<close> has changed it since.\<close>

definition basic_haar_iteration ::
  "spimage \<Rightarrow> real \<Rightarrow> image \<Rightarrow> image option \<Rightarrow> image \<Rightarrow> image \<Rightarrow> hawk \<Rightarrow>
   (image \<times> image \<times> hawk) result" where
  "basic_haar_iteration sp speed exp_amp exp_sigma real_in support st =
    (let x = (case haar_x st of None \<Rightarrow> real_in | Some x \<Rightarrow> x);
         st1 = st\<lparr>haar_x := Some x\<rparr>
     in bind_result (basic_raar_iteration sp speed exp_amp exp_sigma real_in support st1) (\<lambda>(z, st2).
        bind_result (Q_operator sp x real_in z) (\<lambda>(ret, x', y').
          Inr (ret, y', st2\<lparr>haar_x := Some x'\<rparr>))))"

section \<open>The difference map\<close>

text \<open>Elser's two maps: the real-space one and the Fourier one.\<close>

definition serial_difference_map_f1 :: "image \<Rightarrow> image \<Rightarrow> real \<Rightarrow> image" where
  "serial_difference_map_f1 real_in support gamma1 = on_pixels (sp_image_size real_in)
     (\<lambda>i z. if inside support i then z
        else sp_cinit (- gamma1 * sp_real z) (- gamma1 * sp_imag z)) real_in"

definition serial_difference_map_f2 :: "spimage \<Rightarrow> image \<Rightarrow> image \<Rightarrow> real \<Rightarrow> image" where
  "serial_difference_map_f2 sp exp_amp fft_in gamma2 =
    (let tmp2 = sp_proj_module sp fft_in exp_amp;
         tmp2 = on_pixels (sp_image_size tmp2)
           (\<lambda>i z. sp_cinit
             ((1 + gamma2) * sp_real z - gamma2 * sp_real (pixels fft_in ! i))
             ((1 + gamma2) * sp_imag z - gamma2 * sp_imag (pixels fft_in ! i))) tmp2;
         real_out = sp_image_ifft sp tmp2
     in sp_image_scale sp real_out (1.0 / real (sp_image_size real_out)))"

text \<open>
  The reference version, which the source keeps between \<open>#if 0\<close> and \<open>#endif\<close>: the
  new image is \<open>rho + beta * (P1 (f2 rho) - P2 (f1 rho))\<close>, with an image for each of
  the terms.  (Two calls there pass arguments \<open>f2\<close> no longer takes; they
  are left out.)
\<close>

definition difference_map_reference :: "spimage \<Rightarrow> real \<Rightarrow> real \<Rightarrow> real \<Rightarrow> image \<Rightarrow> image \<Rightarrow> image \<Rightarrow> image" where
  "difference_map_reference sp beta gamma1 gamma2 exp_amp real_in support =
    (let fft_in = sp_image_fft sp real_in;
         f2 = serial_difference_map_f2 sp exp_amp fft_in gamma2;
         f1 = serial_difference_map_f1 real_in support gamma1;
         Pi1f2 = sp_proj_support sp f2 support;
         tmp2 = sp_proj_module sp (sp_image_fft sp f1) exp_amp;
         Pi2f1 = sp_image_ifft sp tmp2;
         Pi2f1 = sp_image_scale sp Pi2f1 (1.0 / real (sp_image_size Pi2f1));
         Pi1f2 = sp_image_sub sp Pi1f2 Pi2f1;
         Pi1f2 = sp_image_scale sp Pi1f2 beta
     in sp_image_add sp real_in Pi1f2)"

text \<open>
  The optimised version uses the linearity of the inverse transform: \<open>P1 (f2 rho)\<close> inside the
  support is \<open>(1 + gamma2) * P2 rho - gamma2 * rho\<close>, so the terms are combined in one loop
  over the real-space pixels.
\<close>

definition difference_map_update ::
  "real \<Rightarrow> real \<Rightarrow> nat \<Rightarrow> image \<Rightarrow> image \<Rightarrow> image \<Rightarrow> image \<Rightarrow> image" where
  "difference_map_update beta gamma2 n support real_in Pi2rho Pi2f1 = on_pixels n
     (\<lambda>i z. let x = pixels real_in ! i; r = pixels Pi2rho ! i; f = pixels Pi2f1 ! i;
        z1 = (if inside support i
          then sp_cinit (sp_real z + beta * ((1 + gamma2) * sp_real r / real n - gamma2 * sp_real x))
                        (sp_imag z + beta * ((1 + gamma2) * sp_imag r / real n - gamma2 * sp_imag x))
          else z)
        in sp_cinit (sp_real z1 - beta * sp_real f / real n) (sp_imag z1 - beta * sp_imag f / real n))
     real_in"

definition difference_map_optimised :: "spimage \<Rightarrow> real \<Rightarrow> real \<Rightarrow> real \<Rightarrow> image \<Rightarrow> image \<Rightarrow> image \<Rightarrow> image" where
  "difference_map_optimised sp beta gamma1 gamma2 exp_amp real_in support =
    (let fft_in = sp_image_fft sp real_in;
         f1 = serial_difference_map_f1 real_in support gamma1;
         Pi2f1 = sp_image_ifft sp (sp_proj_module sp (sp_image_fft sp f1) exp_amp);
         Pi2rho = sp_image_ifft sp (sp_proj_module sp fft_in exp_amp)
     in difference_map_update beta gamma2 (sp_image_size real_in) support real_in Pi2rho Pi2f1)"

definition serial_difference_map_iteration ::
  "spimage \<Rightarrow> real \<Rightarrow> image \<Rightarrow> image \<Rightarrow> image \<Rightarrow> hawk \<Rightarrow> (image \<times> hawk) result" where
  "serial_difference_map_iteration sp speed exp_amp real_in support st =
    bind_result (get_beta (nonfinite sp) (opts st)) (\<lambda>beta.
    bind_result (get_gamma1 (nonfinite sp) (opts st)) (\<lambda>gamma1.
    bind_result (get_gamma2 (nonfinite sp) (opts st)) (\<lambda>gamma2.
      let real_out = difference_map_optimised sp beta gamma1 gamma2 exp_amp real_in support;
          real_out = constrained fold_negative (opts st) support real_out
      in finish sp speed exp_amp real_in real_out (sp_image_fft sp real_in) support st)))"

end
