(* ===== verification/Phasing.thy ===== *)
theory Phasing
  imports Algorithms
begin

text \<open>
  What the iterations of \<open>Algorithms\<close> guarantee.  The interface
  \<open>constraint_projection\<close> states what all the constraint steps have in common --- the
  result satisfies the constraint, and an image that satisfies it is left alone --- and is
  interpreted on each of the steps.  From it follow the fixed-point
  properties of the iterations; the error-reduction algorithm is shown never to increase the Fourier
  error, and the optimised difference map to be the reference one.
\<close>

section \<open>Pixels of the shared loops\<close>

lemmas step_defs = normalized_def enforce_real_def clip_negative_def fold_negative_def
  hio_feedback_def raar_feedback_def zero_outside_def hpr_feedback_def charge_flip_def
  fold_everywhere_def normalized_real_def espresso_update_def raar_amplitudes_def
  serial_raar_amplitudes_def hio_pattern_def er_pattern_def serial_difference_map_f1_def
  difference_map_update_def

lemma size_is_length: "sp_image_size a = length (pixels a)"
  by (simp add: sp_image_size_def)

lemma length_steps [simp]:
  "length (pixels (normalized n a)) = length (pixels a)"
  "length (pixels (enforce_real s a)) = length (pixels a)"
  "length (pixels (clip_negative s a)) = length (pixels a)"
  "length (pixels (fold_negative s a)) = length (pixels a)"
  "length (pixels (hio_feedback b x s a)) = length (pixels a)"
  "length (pixels (raar_feedback b x s a)) = length (pixels a)"
  "length (pixels (zero_outside s a)) = length (pixels a)"
  "length (pixels (hpr_feedback b r x s a)) = length (pixels a)"
  "length (pixels (charge_flip l a)) = length (pixels a)"
  "length (pixels (fold_everywhere a)) = length (pixels a)"
  "length (pixels (normalized_real r n a)) = length (pixels a)"
  "length (pixels (espresso_update b x s a)) = length (pixels a)"
  "length (pixels (raar_amplitudes e lo hi a)) = length (pixels a)"
  "length (pixels (serial_raar_amplitudes e a)) = length (pixels a)"
  "length (pixels (serial_difference_map_f1 a s g)) = length (pixels a)"
  by (simp_all add: step_defs)

lemma length_constrained [simp]:
  "(\<And>s a. length (pixels (positive s a)) = length (pixels a)) \<Longrightarrow>
   length (pixels (constrained positive opt support a)) = length (pixels a)"
  by (simp add: constrained_def Let_def)

lemma length_remove_central_phase [simp]:
  "length (pixels (remove_central_phase opt a)) = length (pixels a)"
  by (simp add: remove_central_phase_def)

lemma nth_normalized [loop_simps]:
  "i < length (pixels a) \<Longrightarrow> pixels (normalized n a) ! i = sp_cscale (pixels a ! i) (1 / real n)"
  by (simp add: normalized_def loop_simps size_is_length)

lemma nth_zero_outside [loop_simps]:
  "i < length (pixels a) \<Longrightarrow>
   pixels (zero_outside s a) ! i = (if inside s i then pixels a ! i else 0)"
  by (simp add: zero_outside_def loop_simps size_is_length complex_eq_iff)

lemma nth_hio_feedback [loop_simps]:
  "i < length (pixels a) \<Longrightarrow> pixels (hio_feedback b x s a) ! i =
     (if inside s i then pixels a ! i else pixels x ! i - sp_cscale (pixels a ! i) b)"
  by (simp add: hio_feedback_def loop_simps size_is_length)

lemma nth_raar_feedback [loop_simps]:
  "i < length (pixels a) \<Longrightarrow> pixels (raar_feedback b x s a) ! i =
     (if pixels s ! i = 0 then sp_cscale (pixels a ! i) (1 - 2 * b) + sp_cscale (pixels x ! i) b
      else pixels a ! i)"
  by (simp add: raar_feedback_def loop_simps size_is_length)

lemma nth_enforce_real [loop_simps]:
  "i < length (pixels a) \<Longrightarrow> pixels (enforce_real s a) ! i =
     (if inside s i then sp_cinit (sp_real (pixels a ! i)) 0 else pixels a ! i)"
  by (simp add: enforce_real_def loop_simps size_is_length)

lemma nth_fold_negative [loop_simps]:
  "i < length (pixels a) \<Longrightarrow> pixels (fold_negative s a) ! i =
     (if inside s i then sp_cinit \<bar>sp_real (pixels a ! i)\<bar> \<bar>sp_imag (pixels a ! i)\<bar> else pixels a ! i)"
  by (simp add: fold_negative_def loop_simps size_is_length)

lemma nth_clip_negative [loop_simps]:
  "i < length (pixels a) \<Longrightarrow> pixels (clip_negative s a) ! i =
     (if inside s i then sp_cinit (max 0 (sp_real (pixels a ! i))) (max 0 (sp_imag (pixels a ! i)))
      else pixels a ! i)"
  by (auto simp: clip_negative_def loop_simps size_is_length Let_def complex_eq_iff max_def)

lemma pixels_eqI:
  "length (pixels a) = n \<Longrightarrow> length (pixels b) = n \<Longrightarrow>
   (\<And>i. i < n \<Longrightarrow> pixels a ! i = pixels b ! i) \<Longrightarrow> pixels a = pixels b"
  by (simp add: nth_equalityI)

text \<open>A step that rewrites pixels only leaves an image alone when it leaves each pixel alone.\<close>

lemma on_pixels_id:
  "(\<And>i. i < n \<Longrightarrow> i < length (pixels a) \<Longrightarrow> f i (pixels a ! i) = pixels a ! i) \<Longrightarrow> on_pixels n f a = a"
  by (simp add: on_pixels_def for_pixels_id)

lemma constrained_off:
  "oint opt I_enforce_real = 0 \<Longrightarrow> oint opt I_enforce_positivity = 0 \<Longrightarrow>
   constrained positive opt support a = a"
  by (simp add: constrained_def)

section \<open>The interface of a constraint step\<close>

text \<open>
  A step \<open>project\<close> with the constraint \<open>satisfies\<close> it imposes, for the data \<open>c\<close> of
  the constraint (a support, measured amplitudes) as long as they are
  \<open>admissible\<close>.
\<close>

locale constraint_projection =
  fixes admissible :: "'c \<Rightarrow> bool"
    and project :: "'c \<Rightarrow> 'a \<Rightarrow> 'a"
    and satisfies :: "'c \<Rightarrow> 'a \<Rightarrow> bool"
  assumes projects: "admissible c \<Longrightarrow> satisfies c (project c a)"
    and leaves_alone: "admissible c \<Longrightarrow> satisfies c a \<Longrightarrow> project c a = a"
begin

lemma idempotent: "admissible c \<Longrightarrow> project c (project c a) = project c a"
  by (simp add: projects leaves_alone)

lemma fixed_iff: "admissible c \<Longrightarrow> project c a = a \<longleftrightarrow> satisfies c a"
  using projects [of c a] by (auto simp: leaves_alone)

end

text \<open>
  Two constraints, of which the second step keeps the first constraint: the steps in
  sequence impose both.
\<close>

locale stacked_projections =
  first: constraint_projection admissible1 project1 satisfies1 +
  second: constraint_projection admissible2 project2 satisfies2
  for admissible1 :: "'c \<Rightarrow> bool" and project1 :: "'c \<Rightarrow> 'a \<Rightarrow> 'a" and satisfies1
    and admissible2 :: "'d \<Rightarrow> bool" and project2 :: "'d \<Rightarrow> 'a \<Rightarrow> 'a" and satisfies2 +
  assumes second_keeps_first:
    "admissible1 c \<Longrightarrow> admissible2 d \<Longrightarrow> satisfies1 c a \<Longrightarrow> satisfies1 c (project2 d a)"

sublocale stacked_projections \<subseteq> both: constraint_projection
  "\<lambda>(c, d). admissible1 c \<and> admissible2 d"
  "\<lambda>(c, d) a. project2 d (project1 c a)"
  "\<lambda>(c, d) a. satisfies1 c a \<and> satisfies2 d a"
  by unfold_locales
    (auto intro: second_keeps_first first.projects second.projects
      simp: first.leaves_alone second.leaves_alone)

subsection \<open>The constraints of the code\<close>

definition zero_off_support :: "image \<Rightarrow> image \<Rightarrow> bool" where
  "zero_off_support s a \<longleftrightarrow> (\<forall>i<length (pixels a). \<not> inside s i \<longrightarrow> pixels a ! i = 0)"

definition real_on_support :: "image \<Rightarrow> image \<Rightarrow> bool" where
  "real_on_support s a \<longleftrightarrow> (\<forall>i<length (pixels a). inside s i \<longrightarrow> sp_imag (pixels a ! i) = 0)"

definition positive_on_support :: "image \<Rightarrow> image \<Rightarrow> bool" where
  "positive_on_support s a \<longleftrightarrow>
     (\<forall>i<length (pixels a). inside s i \<longrightarrow> 0 \<le> sp_real (pixels a ! i) \<and> 0 \<le> sp_imag (pixels a ! i))"

interpretation support_step: constraint_projection "\<lambda>_. True" zero_outside zero_off_support
  by unfold_locales
    (auto simp: zero_off_support_def loop_simps zero_outside_def complex_eq_iff size_is_length intro!: on_pixels_id)

interpretation real_positive_clip: stacked_projections
  "\<lambda>_. True" enforce_real real_on_support "\<lambda>_. True" clip_negative positive_on_support
  by unfold_locales
    (auto simp: real_on_support_def positive_on_support_def loop_simps enforce_real_def
      clip_negative_def complex_eq_iff Let_def size_is_length intro!: on_pixels_id)

interpretation real_positive_fold: stacked_projections
  "\<lambda>_. True" enforce_real real_on_support "\<lambda>_. True" fold_negative positive_on_support
  by unfold_locales
    (auto simp: real_on_support_def positive_on_support_def loop_simps enforce_real_def
      fold_negative_def complex_eq_iff size_is_length intro!: on_pixels_id)

text \<open>
  The Fourier constraints: the measured modulus of the pixels that are not masked out, exactly
  or within the error bars.
\<close>

definition has_amplitudes :: "image \<Rightarrow> complex list \<Rightarrow> bool" where
  "has_amplitudes exp_amp zs \<longleftrightarrow> length zs = length (pixels exp_amp) \<and>
     (\<forall>i<length zs. mask_data exp_amp ! i \<noteq> 0 \<longrightarrow> sp_cabs (zs ! i) = sp_real (pixels exp_amp ! i))"

definition amplitudes_ok :: "image \<Rightarrow> bool" where
  "amplitudes_ok exp_amp \<longleftrightarrow>
     (\<forall>i<length (pixels exp_amp). sp_imag (pixels exp_amp ! i) = 0 \<and> 0 \<le> sp_real (pixels exp_amp ! i))"

definition within_band :: "image \<times> image \<times> image \<Rightarrow> image \<Rightarrow> bool" where
  "within_band = (\<lambda>(exp_amp, lo, hi) a. \<forall>i<length (pixels a). i < sp_image_size exp_amp \<longrightarrow>
     mask_data exp_amp ! i \<noteq> 0 \<longrightarrow>
     sp_real (pixels lo ! i) \<le> sp_cabs (pixels a ! i) \<and> sp_cabs (pixels a ! i) \<le> sp_real (pixels hi ! i))"

definition band_ok :: "image \<times> image \<times> image \<Rightarrow> bool" where
  "band_ok = (\<lambda>(exp_amp, lo, hi). \<forall>i<sp_image_size exp_amp.
     sp_imag (pixels lo ! i) = 0 \<and> sp_imag (pixels hi ! i) = 0 \<and>
     0 \<le> sp_real (pixels lo ! i) \<and> sp_real (pixels lo ! i) \<le> sp_real (pixels hi ! i))"

lemma nth_hio_pattern [loop_simps]:
  assumes "rephase_zero_pointwise sp" and "i < length (pixels exp_amp)"
  shows "pixels (hio_pattern sp exp_amp fft) ! i =
    (if mask_data exp_amp ! i = 0 then pixels fft ! i
     else if pixels fft ! i \<noteq> 0
       then sp_cscale (pixels fft ! i) (sp_real (pixels exp_amp ! i) / sp_cabs (pixels fft ! i))
     else sp_cinit (sp_cabs (pixels exp_amp ! i)) 0)"
  using assms by (simp add: hio_pattern_def loop_simps size_is_length rephase_zero_pointwise_def)

lemma length_hio_pattern [simp]:
  "rephase_zero_pointwise sp \<Longrightarrow> length (pixels (hio_pattern sp exp_amp fft)) = length (pixels exp_amp)"
  by (simp add: hio_pattern_def rephase_zero_pointwise_def)

lemma norm_real: "Im z = 0 \<Longrightarrow> 0 \<le> Re z \<Longrightarrow> norm z = Re z"
  by (simp add: cmod_eq_Re)



lemma norm_rescaled: "z \<noteq> 0 \<Longrightarrow> 0 \<le> r \<Longrightarrow> norm ((r / norm z) *\<^sub>R z) = (r::real)"
  for z :: complex by simp

interpretation modulus_step: constraint_projection
  "\<lambda>(sp, exp_amp). rephase_zero_pointwise sp \<and> amplitudes_ok exp_amp"
  "\<lambda>(sp, exp_amp) zs. pixels (hio_pattern sp exp_amp (exp_amp\<lparr>pixels := zs\<rparr>))"
  "\<lambda>(sp, exp_amp). has_amplitudes exp_amp"
proof (unfold_locales, goal_cases)
  case (1 c a)
  then show ?case
    by (auto simp: has_amplitudes_def amplitudes_ok_def loop_simps norm_real split: prod.splits)
next
  case (2 c a)
  obtain sp exp_amp where c: "c = (sp, exp_amp)" by (cases c)
  show ?case unfolding c prod.case
  proof (rule nth_equalityI)
    show "length (pixels (hio_pattern sp exp_amp (exp_amp\<lparr>pixels := a\<rparr>))) = length a"
      using 2 by (simp add: c has_amplitudes_def)
  next
    fix i assume "i < length (pixels (hio_pattern sp exp_amp (exp_amp\<lparr>pixels := a\<rparr>)))"
    then show "pixels (hio_pattern sp exp_amp (exp_amp\<lparr>pixels := a\<rparr>)) ! i = a ! i"
      using 2 by (auto simp: c has_amplitudes_def amplitudes_ok_def loop_simps norm_real complex_eq_iff)
  qed
qed

lemma norm_raar_band_value:
  "sp_imag lo = 0 \<Longrightarrow> sp_imag hi = 0 \<Longrightarrow> 0 \<le> sp_real lo \<Longrightarrow> sp_real lo \<le> sp_real hi \<Longrightarrow>
   sp_real lo \<le> sp_cabs (raar_band_value lo hi z) \<and> sp_cabs (raar_band_value lo hi z) \<le> sp_real hi"
  by (auto simp: raar_band_value_def norm_real)

lemma raar_band_value_inside:
  "sp_real lo \<le> sp_cabs z \<Longrightarrow> sp_cabs z \<le> sp_real hi \<Longrightarrow> raar_band_value lo hi z = z"
  by (simp add: raar_band_value_def)

interpretation band_step: constraint_projection
  band_ok "\<lambda>(exp_amp, lo, hi). raar_amplitudes exp_amp lo hi" within_band
  by unfold_locales
    (auto simp: band_ok_def within_band_def raar_amplitudes_def loop_simps norm_raar_band_value
      raar_band_value_inside intro!: on_pixels_id)

section \<open>The shape of an iteration\<close>

lemma finish_Inr_iff:
  "finish sp v e x out f s st = Inr (o', st') \<longleftrightarrow> o' = out \<and> log_if_due sp v e x out f s st = Inr st'"
  by (auto simp: finish_def bind_result_Inr_iff)

lemma hio_InrE:
  assumes "basic_hio_iteration sp v exp_amp x support st = Inr (out, st')"
  obtains beta where "get_beta (nonfinite sp) (opts st) = Inr beta"
    and "out = constrained clip_negative (opts st) support (hio_feedback beta x support
           (normalized (sp_image_size x) (sp_image_ifft sp (hio_pattern sp exp_amp (sp_image_fft sp x)))))"
    and "log_if_due sp v exp_amp x out (sp_image_fft sp x) support st = Inr st'"
  using assms by (auto simp: basic_hio_iteration_def Let_def finish_Inr_iff)

lemma error_reduction_InrE:
  assumes "basic_error_reduction_iteration sp v exp_amp x support st = Inr (out, st')"
  obtains "out = constrained fold_negative (opts st) support (zero_outside support
           (normalized (sp_image_size x) (sp_image_ifft sp (er_pattern sp exp_amp (sp_image_fft sp x)))))"
    and "log_if_due sp v exp_amp x out (sp_image_fft sp x) support st = Inr st'"
  using assms by (auto simp: basic_error_reduction_iteration_def Let_def finish_Inr_iff)

lemma load_sigma_simps [simp]:
  "opts (load_sigma sp e sg st) = opts st" "lg (load_sigma sp e sg st) = lg st"
  "exp_amp_minus_sigma st = Some lo \<Longrightarrow> exp_amp_minus_sigma (load_sigma sp e sg st) = Some lo"
  "exp_amp_plus_sigma st = Some hi \<Longrightarrow> exp_amp_plus_sigma (load_sigma sp e sg st) = Some hi"
  "exp_amp_minus_sigma st = None \<Longrightarrow> exp_amp_minus_sigma (load_sigma sp e sg st) =
     Some (shifted_amplitudes (nonfinite sp) (-) e sg)"
  "exp_amp_plus_sigma st = None \<Longrightarrow> exp_amp_plus_sigma (load_sigma sp e sg st) =
     Some (shifted_amplitudes (nonfinite sp) (+) e sg)"
  by (auto simp: load_sigma_def Let_def)

lemma mark_raar_keeps:
  "mark_raar_weak_reflections sp e st = Inr st' \<Longrightarrow> opts st' = opts st \<and>
     exp_amp_minus_sigma st' = exp_amp_minus_sigma st \<and> exp_amp_plus_sigma st' = exp_amp_plus_sigma st"
  by (auto simp: mark_raar_weak_reflections_def Let_def split: if_splits)

lemma raar_InrE:
  assumes "basic_raar_iteration sp v exp_amp exp_sigma x support st = Inr (out, st')"
  obtains beta lo hi st1 where "get_beta (nonfinite sp) (opts st) = Inr beta"
    and "exp_amp_minus_sigma (load_sigma sp exp_amp exp_sigma st) = Some lo"
    and "exp_amp_plus_sigma (load_sigma sp exp_amp exp_sigma st) = Some hi"
    and "out = constrained fold_negative (opts st) support (raar_feedback beta x support
           (normalized (sp_image_size x) (sp_image_ifft sp
             (remove_central_phase (opts st) (raar_amplitudes exp_amp lo hi (sp_image_fft sp x))))))"
    and "opts st1 = opts st"
    and "log_if_due sp v exp_amp x out (sp_image_fft sp x) support st1 = Inr st'"
  using assms
  by (auto simp: basic_raar_iteration_def Let_def finish_Inr_iff deref_def
      split: option.splits dest!: mark_raar_keeps)

section \<open>Solutions are fixed points\<close>

text \<open>
  A solution is an image that is zero outside the support and whose transform has the
  measured amplitudes.
\<close>

definition solution :: "spimage \<Rightarrow> image \<Rightarrow> image \<Rightarrow> image \<Rightarrow> bool" where
  "solution sp exp_amp support x \<longleftrightarrow>
     zero_off_support support x \<and> has_amplitudes exp_amp (pixels (sp_image_fft sp x))"

lemma normalized_inverse:
  assumes "fft_inverse sp (length (pixels x))" and "pixels b = pixels (sp_image_fft sp x)"
  shows "pixels (normalized (length (pixels x)) (sp_image_ifft sp b)) = pixels x"
proof -
  have "pixels (sp_image_ifft sp b) = map (\<lambda>z. sp_cscale z (real (length (pixels x)))) (pixels x)"
    using assms unfolding fft_inverse_def by blast
  then show ?thesis
    by (cases "pixels x = []") (auto intro!: nth_equalityI simp: loop_simps)
qed

lemma hio_pattern_of_solution:
  assumes "rephase_zero_pointwise sp" and "amplitudes_ok exp_amp"
    and "has_amplitudes exp_amp (pixels fft)"
  shows "pixels (hio_pattern sp exp_amp fft) = pixels fft"
proof -
  have "hio_pattern sp exp_amp (exp_amp\<lparr>pixels := pixels fft\<rparr>) = hio_pattern sp exp_amp fft"
    by (simp add: hio_pattern_def cong: if_cong)
  then show ?thesis
    using modulus_step.leaves_alone [of "(sp, exp_amp)" "pixels fft"] assms by simp
qed

text \<open>
  Property C13 (functional): a solution is a fixed point of the hybrid input-output iteration, for
  every value of \<open>beta\<close>: with the reality and positivity constraints off, one
  iteration returns the pixels it was given.
\<close>

theorem hio_fixes_solutions:
  assumes "basic_hio_iteration sp v exp_amp x support st = Inr (out, st')"
    and "solution sp exp_amp support x" and "amplitudes_ok exp_amp"
    and "fft_inverse sp (length (pixels x))" and "rephase_zero_pointwise sp"
    and "oint (opts st) I_enforce_real = 0" and "oint (opts st) I_enforce_positivity = 0"
  shows "pixels out = pixels x"
proof -
  from assms(1) obtain beta where out: "out = constrained clip_negative (opts st) support
      (hio_feedback beta x support (normalized (sp_image_size x)
        (sp_image_ifft sp (hio_pattern sp exp_amp (sp_image_fft sp x)))))"
    by (rule hio_InrE)
  let ?g = "normalized (sp_image_size x) (sp_image_ifft sp (hio_pattern sp exp_amp (sp_image_fft sp x)))"
  have g: "pixels ?g = pixels x"
    using assms(2-5) hio_pattern_of_solution normalized_inverse
    by (simp add: solution_def size_is_length)
  have "pixels (hio_feedback beta x support ?g) = pixels x"
    using assms(2) by (intro nth_equalityI) (auto simp: g loop_simps solution_def zero_off_support_def)
  then show ?thesis by (simp add: out constrained_off assms(6,7))
qed

text \<open>A solution of the two-pixel transform.\<close>

lemma example_hio_runs:
  "\<exists>out st'. basic_hio_iteration example_library 1 (image_of [3, 3]) (image_of [3, 0]) (image_of [1, 0])
     (example_hawk 5) = Inr (out, st')"
  by (simp add: basic_hio_iteration_def finish_Inr_iff Let_def log_if_due_def example_state_defs
      get_beta_def)

lemma example_solution: "solution example_library (image_of [3, 3]) (image_of [1, 0]) (image_of [3, 0])"
  by (auto simp: solution_def zero_off_support_def has_amplitudes_def image_of_def inside_def
      example_library_def transform_of_two_def less_Suc_eq)

theorem hio_fixes_solutions_witness:
  "\<exists>out st'. basic_hio_iteration example_library 1 (image_of [3, 3]) (image_of [3, 0]) (image_of [1, 0])
     (example_hawk 5) = Inr (out, st') \<and> pixels out = [3, 0]"
proof -
  obtain out st' where run: "basic_hio_iteration example_library 1 (image_of [3, 3]) (image_of [3, 0])
      (image_of [1, 0]) (example_hawk 5) = Inr (out, st')"
    using example_hio_runs by blast
  have "amplitudes_ok (image_of [3, 3])" by (simp add: amplitudes_ok_def image_of_def less_Suc_eq)
  then have "pixels out = [3, 0]"
    using hio_fixes_solutions [OF run example_solution] example_library_laws
    by (simp add: example_state_defs numeral_2_eq_2)
  with run show ?thesis by blast
qed

text \<open>
  Property C12 (functional): a solution within the error bars is a fixed point of the RAAR
  iteration, for every value of \<open>beta\<close>.  The error bars are those kept from the first
  call; the options that change pixels besides (reality, positivity, central phase)
  are off.
\<close>

theorem raar_fixes_solutions:
  assumes "basic_raar_iteration sp v exp_amp exp_sigma x support st = Inr (out, st')"
    and "exp_amp_minus_sigma st = Some lo" and "exp_amp_plus_sigma st = Some hi"
    and "zero_off_support support x" and "within_band (exp_amp, lo, hi) (sp_image_fft sp x)"
    and "band_ok (exp_amp, lo, hi)" and "fft_inverse sp (length (pixels x))"
    and "oint (opts st) I_enforce_real = 0" and "oint (opts st) I_enforce_positivity = 0"
    and "oint (opts st) I_remove_central_pixel_phase = 0"
  shows "pixels out = pixels x"
proof -
  from assms(1) obtain beta where out: "out = constrained fold_negative (opts st) support
      (raar_feedback beta x support (normalized (sp_image_size x) (sp_image_ifft sp
         (remove_central_phase (opts st) (raar_amplitudes exp_amp lo hi (sp_image_fft sp x))))))"
    by (rule raar_InrE) (use assms(2,3) in auto)
  let ?g = "normalized (sp_image_size x) (sp_image_ifft sp (sp_image_fft sp x))"
  have band: "raar_amplitudes exp_amp lo hi (sp_image_fft sp x) = sp_image_fft sp x"
    using band_step.leaves_alone [of "(exp_amp, lo, hi)"] assms(5,6) by simp
  have g: "pixels ?g = pixels x"
    using normalized_inverse [OF assms(7) refl] by (simp add: size_is_length)
  have "pixels (raar_feedback beta x support ?g) = pixels x"
    using assms(4)
    by (intro nth_equalityI) (auto simp: g loop_simps zero_off_support_def inside_def)
  then show ?thesis
    by (simp add: out constrained_off assms(8,9) band remove_central_phase_def assms(10))
qed

theorem raar_fixes_solutions_witness:
  "\<exists>out st'. basic_raar_iteration example_library 1 (image_of [3, 3]) None (image_of [3, 0]) (image_of [1, 0])
     ((example_hawk 5)\<lparr>exp_amp_minus_sigma := Some (image_of [2, 2]),
        exp_amp_plus_sigma := Some (image_of [4, 4])\<rparr>) = Inr (out, st') \<and> pixels out = [3, 0]"
proof -
  let ?st = "(example_hawk 5)\<lparr>exp_amp_minus_sigma := Some (image_of [2, 2]),
    exp_amp_plus_sigma := Some (image_of [4, 4])\<rparr>"
  obtain out st' where run: "basic_raar_iteration example_library 1 (image_of [3, 3]) None (image_of [3, 0])
      (image_of [1, 0]) ?st = Inr (out, st')"
    by (auto simp: basic_raar_iteration_def finish_Inr_iff Let_def log_if_due_def example_state_defs
      get_beta_def mark_raar_weak_reflections_def)
  have "within_band (image_of [3, 3], image_of [2, 2], image_of [4, 4])
      (sp_image_fft example_library (image_of [3, 0]))"
    and "band_ok (image_of [3, 3], image_of [2, 2], image_of [4, 4])"
    by (auto simp: within_band_def band_ok_def image_of_def example_library_def transform_of_two_def
      less_Suc_eq size_is_length)
  then have "pixels out = [3, 0]"
    using raar_fixes_solutions [OF run] example_solution example_library_laws
    by (simp add: example_state_defs numeral_2_eq_2 solution_def)
  with run show ?thesis by blast
qed

section \<open>The documented RAAR update\<close>

lemma raar_formula:
  fixes m x :: complex
  shows "(if s = 0 then (1 - 2 * b) *\<^sub>R m + b *\<^sub>R x else m) =
    b *\<^sub>R ((2 * (if s \<noteq> 0 then 2 * m - x else 0) - (2 * m - x) + x) / 2) + (1 - b) *\<^sub>R m"
  by (cases "s = 0"; simp add: complex_eq_iff; simp add: field_simps)

text \<open>
  Property C3 (equivalence): the loop of the RAAR iterations computes the update the comment above
  it derives it from.  With \<open>Pm\<close> the image after the Fourier step, \<open>Ps\<close> the
  projection on the support, \<open>Rs = 2*Ps - I\<close> and \<open>Rm = 2*Pm - I\<close>, every pixel of the
  result is \<open>1/2 * beta * (Rs Rm + I) + (1 - beta) * Pm\<close>, when the reality and positivity
  constraints, which change pixels afterwards, are off.
\<close>

theorem raar_update_documented:
  assumes "basic_raar_iteration sp v exp_amp exp_sigma x support st = Inr (out, st')"
    and "oint (opts st) I_enforce_real = 0" and "oint (opts st) I_enforce_positivity = 0"
  shows "\<exists>beta lo hi. get_beta (nonfinite sp) (opts st) = Inr beta \<and>
    exp_amp_minus_sigma (load_sigma sp exp_amp exp_sigma st) = Some lo \<and>
    exp_amp_plus_sigma (load_sigma sp exp_amp exp_sigma st) = Some hi \<and>
    (\<forall>i<length (pixels out).
      (let Pm = pixels (normalized (sp_image_size x) (sp_image_ifft sp (remove_central_phase (opts st)
                  (raar_amplitudes exp_amp lo hi (sp_image_fft sp x))))) ! i;
           Ps = (\<lambda>z. if pixels support ! i \<noteq> 0 then z else 0);
           Rs = (\<lambda>z. 2 * Ps z - z); Rm = 2 * Pm - pixels x ! i
       in pixels out ! i = beta *\<^sub>R ((Rs Rm + pixels x ! i) / 2) + (1 - beta) *\<^sub>R Pm))"
proof -
  from assms(1) obtain beta lo hi where beta: "get_beta (nonfinite sp) (opts st) = Inr beta"
      "exp_amp_minus_sigma (load_sigma sp exp_amp exp_sigma st) = Some lo"
      "exp_amp_plus_sigma (load_sigma sp exp_amp exp_sigma st) = Some hi"
    and out: "out = constrained fold_negative (opts st) support
      (raar_feedback beta x support (normalized (sp_image_size x) (sp_image_ifft sp
         (remove_central_phase (opts st) (raar_amplitudes exp_amp lo hi (sp_image_fft sp x))))))"
    by (rule raar_InrE)
  let ?g = "normalized (sp_image_size x) (sp_image_ifft sp
         (remove_central_phase (opts st) (raar_amplitudes exp_amp lo hi (sp_image_fft sp x))))"
  have o: "out = raar_feedback beta x support ?g"
    using out by (simp add: constrained_off assms(2,3))
  have "pixels out ! i = beta *\<^sub>R ((2 * (if pixels support ! i \<noteq> 0 then 2 * pixels ?g ! i - pixels x ! i else 0)
      - (2 * pixels ?g ! i - pixels x ! i) + pixels x ! i) / 2) + (1 - beta) *\<^sub>R (pixels ?g ! i)"
    if "i < length (pixels out)" for i
  proof -
    have "pixels out ! i = (if pixels support ! i = 0
        then (1 - 2 * beta) *\<^sub>R pixels ?g ! i + beta *\<^sub>R pixels x ! i else pixels ?g ! i)"
      using that by (simp add: o nth_raar_feedback)
    then show ?thesis unfolding raar_formula .
  qed
  with beta show ?thesis by (auto simp: Let_def)
qed

lemma example_raar_runs:
  "\<exists>out st'. basic_raar_iteration example_library 1 (image_of [3, 3]) None (image_of [3, 1]) (image_of [1, 0])
     (example_hawk 5) = Inr (out, st')"
  by (auto simp: basic_raar_iteration_def finish_Inr_iff Let_def log_if_due_def example_state_defs
    get_beta_def mark_raar_weak_reflections_def)

theorem raar_update_documented_witness:
  "\<exists>out st'. basic_raar_iteration example_library 1 (image_of [3, 3]) None (image_of [3, 1])
      (image_of [1, 0]) (example_hawk 5) = Inr (out, st') \<and>
    (0 < length (pixels out) \<longrightarrow> pixels out ! 0 = 3)"
proof -
  obtain out st' where run: "basic_raar_iteration example_library 1 (image_of [3, 3]) None (image_of [3, 1])
      (image_of [1, 0]) (example_hawk 5) = Inr (out, st')"
    using example_raar_runs by blast
  show ?thesis
    using run raar_update_documented [OF run]
    by (auto simp: example_state_defs Let_def get_beta_def shifted_amplitudes_def
      remove_central_phase_def nth_normalized raar_amplitudes_def size_is_length
      raar_band_value_def load_sigma_def on_pixels_def for_pixels_Suc scaleR_conv_of_real)
qed

section \<open>Error reduction\<close>

lemma length_er_pattern [simp]:
  "rephase_zero_pointwise sp \<Longrightarrow> length (pixels (er_pattern sp e f)) = length (pixels e)"
  by (simp add: er_pattern_def rephase_zero_pointwise_def)

lemma nth_er_pattern [loop_simps]:
  "rephase_zero_pointwise sp \<Longrightarrow> i < length (pixels e) \<Longrightarrow> pixels (er_pattern sp e f) ! i =
     (if mask_data e ! i = 0 then pixels f ! i
      else with_modulus (nonfinite sp) (pixels f ! i) (sp_real (pixels e ! i)))"
  by (simp add: er_pattern_def loop_simps size_is_length rephase_zero_pointwise_def)

lemma transform_of_normalized:
  assumes "fft_onto sp n" and "length (pixels b) = n"
  shows "pixels (sp_image_fft sp (normalized n (sp_image_ifft sp b))) = pixels b"
proof -
  have "pixels (normalized n (sp_image_ifft sp b)) =
      map (\<lambda>z. sp_cscale z (1 / real n)) (pixels (sp_image_ifft sp b))"
    by (intro nth_equalityI) (simp_all add: loop_simps)
  with assms show ?thesis unfolding fft_onto_def by blast
qed

text \<open>Moving to a value of modulus \<open>r\<close> along the same phase is the shortest way there.\<close>

lemma distance_to_modulus:
  fixes z :: complex
  assumes "z \<noteq> 0"
  shows "norm (z - with_modulus nf z r) = \<bar>norm z - r\<bar>"
proof -
  have "z - with_modulus nf z r = (1 - r / norm z) *\<^sub>R z"
    using assms by (simp add: scaleR_diff_left)
  then have "norm (z - with_modulus nf z r) = \<bar>1 - r / norm z\<bar> * norm z" by simp
  also have "\<dots> = \<bar>norm z - r\<bar>"
    using assms by (simp add: abs_mult_pos' field_simps abs_mult flip: abs_mult_pos)
  finally show ?thesis .
qed

lemma modulus_difference: "(norm z - norm w)\<^sup>2 \<le> (norm (z - w))\<^sup>2" for z w :: complex
  using norm_triangle_ineq3 [of z w] by (metis abs_le_square_iff abs_norm_cancel)

text \<open>
  Property C1 (invariant): with the reality and positivity constraints off, error reduction never
  increases the Fourier error.  (With positivity the code folds the negative pixels of the image,
  which can increase it.)  The sum of squares
  the log computes from the transform of the new image is at most the one of the image the iteration was
  given, for an image that is zero outside the support and whose transform is nonzero
  at the measured pixels (there the code divides by it); the transform is only assumed to
  be invertible and to satisfy Parseval's theorem.
\<close>

theorem error_reduction_decreases:
  assumes "basic_error_reduction_iteration sp v exp_amp x support st = Inr (out, st')"
    and "zero_off_support support x" and "length (pixels exp_amp) = n" and "length (pixels x) = n"
    and "\<forall>i<n. mask_data exp_amp ! i \<noteq> 0 \<longrightarrow> pixels (sp_image_fft sp x) ! i \<noteq> 0"
    and "amplitudes_ok exp_amp" and "rephase_zero_pointwise sp"
    and "fft_keeps_size sp n" and "fft_onto sp n" and "fft_parseval sp n"
    and "oint (opts st) I_enforce_real = 0" and "oint (opts st) I_enforce_positivity = 0"
  shows "s_Efourier (log_sums exp_amp a (sp_image_fft sp out) support)
       \<le> s_Efourier (log_sums exp_amp b (sp_image_fft sp x) support)"
proof -
  let ?F = "\<lambda>a i. pixels (sp_image_fft sp a) ! i" and ?m = "\<lambda>i. mask_data exp_amp ! i \<noteq> 0"
  let ?e = "\<lambda>i. sp_cabs (pixels exp_amp ! i)"
  define p where "p = er_pattern sp exp_amp (sp_image_fft sp x)"
  define g where "g = normalized n (sp_image_ifft sp p)"
  have len_p: "length (pixels p) = n" using assms(3,7) by (simp add: p_def)
  have len_g: "length (pixels g) = n" using assms(8) len_p by (simp add: g_def fft_keeps_size_def)
  have out: "out = zero_outside support g"
    using assms(1)
  proof (rule error_reduction_InrE)
    assume "out = constrained fold_negative (opts st) support (zero_outside support
      (normalized (sp_image_size x) (sp_image_ifft sp (er_pattern sp exp_amp (sp_image_fft sp x)))))"
    then show ?thesis by (simp add: constrained_off assms(11,12) g_def p_def size_is_length assms(4))
  qed
  have Fg: "?F g i = pixels p ! i" for i
    using transform_of_normalized [OF assms(9) len_p] by (simp add: g_def)
  have p: "pixels p ! i = (if ?m i then with_modulus (nonfinite sp) (?F x i) (?e i) else ?F x i)" if "i < n" for i
    using that assms(3,6,7) by (simp add: p_def loop_simps amplitudes_ok_def norm_real)
  have norm_p: "?m i \<Longrightarrow> sp_cabs (pixels p ! i) = ?e i" if "i < n" for i
    using p [OF that] assms(5) that by simp
  have "(\<Sum>i<n. if ?m i then (sp_cabs (?F out i) - ?e i)\<^sup>2 else 0)
      \<le> (\<Sum>i<n. (sp_cabs (?F out i - ?F g i))\<^sup>2)"
    by (intro sum_mono) (auto simp: Fg modulus_difference simp flip: norm_p)
  also have "\<dots> = real n * (\<Sum>i<n. (sp_cabs (pixels out ! i - pixels g ! i))\<^sup>2)"
    using assms(10) len_g by (simp add: fft_parseval_def out)
  also have "\<dots> \<le> real n * (\<Sum>i<n. (sp_cabs (pixels x ! i - pixels g ! i))\<^sup>2)"
    using assms(2,4) len_g
    by (intro mult_left_mono sum_mono) (auto simp: out loop_simps zero_off_support_def)
  also have "\<dots> = (\<Sum>i<n. (sp_cabs (?F x i - ?F g i))\<^sup>2)"
    using assms(4,10) len_g by (simp add: fft_parseval_def)
  also have "\<dots> = (\<Sum>i<n. if ?m i then (sp_cabs (?F x i) - ?e i)\<^sup>2 else 0)"
    using assms(5) by (intro sum.cong) (auto simp: Fg p distance_to_modulus simp del: with_modulus_nonzero)
  finally show ?thesis
    by (simp add: log_sums_eq size_is_length assms(3))
qed

theorem error_reduction_decreases_witness:
  "\<exists>out st'. basic_error_reduction_iteration example_library 1 (image_of [3, 1]) (image_of [3, 0])
      (image_of [1, 0]) (example_hawk 5) = Inr (out, st') \<and>
    s_Efourier (log_sums (image_of [3, 1]) out (sp_image_fft example_library out) (image_of [1, 0])) \<le> 4"
proof -
  obtain out st' where run: "basic_error_reduction_iteration example_library 1 (image_of [3, 1])
      (image_of [3, 0]) (image_of [1, 0]) (example_hawk 5) = Inr (out, st')"
    by (auto simp: basic_error_reduction_iteration_def finish_Inr_iff Let_def log_if_due_def
      example_state_defs)
  have "zero_off_support (image_of [1, 0]) (image_of [3, 0])" "amplitudes_ok (image_of [3, 1])"
    by (auto simp: zero_off_support_def amplitudes_ok_def image_of_def inside_def less_Suc_eq)
  then have "s_Efourier (log_sums (image_of [3, 1]) out (sp_image_fft example_library out) (image_of [1, 0]))
    \<le> s_Efourier (log_sums (image_of [3, 1]) out (sp_image_fft example_library (image_of [3, 0])) (image_of [1, 0]))"
    using error_reduction_decreases [OF run, of 2] example_library_laws
    by (simp add: example_state_defs numeral_2_eq_2 less_Suc_eq)
  moreover have "s_Efourier (log_sums (image_of [3, 1]) out
      (sp_image_fft example_library (image_of [3, 0])) (image_of [1, 0])) = 4"
    by (simp add: log_sums_eq image_of_def size_is_length numeral_2_eq_2)
  ultimately show ?thesis using run by auto
qed

section \<open>The difference map\<close>

lemma ifft_linearD:
  assumes "ifft_linear sp n"
    and "length (pixels a) = n" and "length (pixels b) = n" and "length (pixels c) = n"
    and "\<And>i. i < n \<Longrightarrow> pixels c ! i = sp_cscale (pixels a ! i) r + sp_cscale (pixels b ! i) s"
    and "j < n"
  shows "pixels (sp_image_ifft sp c) ! j =
    sp_cscale (pixels (sp_image_ifft sp a) ! j) r + sp_cscale (pixels (sp_image_ifft sp b) ! j) s"
  using assms unfolding ifft_linear_def by blast

text \<open>The Fourier map of the two, in terms of inverse transforms.\<close>

lemma difference_map_f2:
  fixes sp exp_amp F gamma2
  defines "M \<equiv> sp_proj_module sp F exp_amp" and "f2 \<equiv> serial_difference_map_f2 sp exp_amp F gamma2"
  assumes "length (pixels F) = n" and "length (pixels exp_amp) = n"
    and "fft_keeps_size sp n" and "ifft_linear sp n" and "proj_module_keeps_size sp" and "scale_pointwise sp"
  shows "length (pixels f2) = n"
    and "i < n \<Longrightarrow> pixels f2 ! i = sp_cscale (pixels (sp_image_ifft sp M) ! i) ((1 + gamma2) / real n)
       - sp_cscale (pixels (sp_image_ifft sp F) ! i) (gamma2 / real n)"
proof -
  define t where "t = on_pixels (sp_image_size M)
    (\<lambda>i z. sp_cinit ((1 + gamma2) * sp_real z - gamma2 * sp_real (pixels F ! i))
                    ((1 + gamma2) * sp_imag z - gamma2 * sp_imag (pixels F ! i))) M"
  have len: "length (pixels M) = n" "length (pixels t) = n" "length (pixels (sp_image_ifft sp t)) = n"
    using assms by (simp_all add: t_def fft_keeps_size_def proj_module_keeps_size_def)
  have f2: "f2 = (sp_image_ifft sp t)\<lparr>pixels := map (\<lambda>z. sp_cscale z (1 / real n)) (pixels (sp_image_ifft sp t))\<rparr>"
    using assms(8) len
    by (simp add: f2_def serial_difference_map_f2_def Let_def t_def M_def scale_pointwise_def size_is_length)
  then show "length (pixels f2) = n" using len by simp
  have t: "pixels t ! i = sp_cscale (pixels M ! i) (1 + gamma2) + sp_cscale (pixels F ! i) (- gamma2)" if "i < n" for i
    using that len by (simp add: t_def loop_simps size_is_length complex_eq_iff)
  show "pixels f2 ! i = sp_cscale (pixels (sp_image_ifft sp M) ! i) ((1 + gamma2) / real n)
       - sp_cscale (pixels (sp_image_ifft sp F) ! i) (gamma2 / real n)" if "i < n"
    using ifft_linearD [OF assms(6) len(1) assms(3) len(2) t that] that len
    by (simp add: f2 scaleR_diff_right)
qed

text \<open>
  Property C2 (equivalence): the optimised difference map computes the image of the reference
  implementation that the source keeps beside it, for any relaxation parameters.  The
  transform is assumed linear and invertible, the other library calls pointwise as they are
  documented.
\<close>

theorem difference_map_optimised_correct:
  assumes "length (pixels x) = n" and "length (pixels support) = n" and "length (pixels exp_amp) = n"
    and "fft_keeps_size sp n" and "fft_inverse sp n" and "ifft_linear sp n"
    and "proj_module_keeps_size sp" and "proj_support_pointwise sp"
    and "scale_pointwise sp" and "add_pointwise sp" and "sub_pointwise sp"
  shows "pixels (difference_map_optimised sp beta gamma1 gamma2 exp_amp x support)
       = pixels (difference_map_reference sp beta gamma1 gamma2 exp_amp x support)"
    (is "pixels ?optimised = pixels ?reference")
proof -
  define F where "F = sp_image_fft sp x"
  define f1 where "f1 = serial_difference_map_f1 x support gamma1"
  define P where "P = sp_image_ifft sp (sp_proj_module sp (sp_image_fft sp f1) exp_amp)"
  have len: "length (pixels F) = n" "length (pixels P) = n"
    using assms(1,3,4,7) by (simp_all add: F_def f1_def P_def fft_keeps_size_def proj_module_keeps_size_def)
  note f2 = difference_map_f2 [OF len(1) assms(3,4,6,7,9), where ?gamma2.0 = gamma2]
  have undone: "pixels (sp_image_ifft sp F) ! i = sp_cscale (pixels x ! i) (real n)" if "i < n" for i
    using assms(1,5) that unfolding fft_inverse_def F_def by (metis nth_map)
  note unfolded = Let_def size_is_length scale_pointwise_def add_pointwise_def sub_pointwise_def
    proj_support_pointwise_def
  have sizes: "length (pixels ?optimised) = n" "length (pixels ?reference) = n"
    using len f2(1) assms(1,2,8-11)
    by (simp_all add: difference_map_optimised_def difference_map_update_def difference_map_reference_def
      unfolded flip: F_def f1_def P_def)
  have "pixels ?reference ! i = pixels x ! i + sp_cscale
      ((if inside support i then pixels (serial_difference_map_f2 sp exp_amp F gamma2) ! i else 0)
       - sp_cscale (pixels P ! i) (1 / real n)) beta" if "i < n" for i
    using that len f2(1) assms(1,2,8-11)
    by (simp add: difference_map_reference_def unfolded inside_def flip: F_def f1_def P_def)
  moreover have "pixels ?optimised ! i = pixels x ! i + sp_cscale
      ((if inside support i then sp_cscale (pixels (sp_image_ifft sp (sp_proj_module sp F exp_amp)) ! i)
          ((1 + gamma2) / real n) - sp_cscale (pixels x ! i) gamma2 else 0)
       - sp_cscale (pixels P ! i) (1 / real n)) beta" if "i < n" for i
    using that len assms(1)
    by (auto simp: difference_map_optimised_def difference_map_update_def unfolded loop_simps
        complex_eq_iff algebra_simps add_divide_distrib simp flip: F_def f1_def P_def)
  ultimately have "pixels ?optimised ! i = pixels ?reference ! i" if "i < n" for i
    using that f2(2) [OF that] undone [OF that] by simp
  with sizes show ?thesis by (intro nth_equalityI) simp_all
qed

theorem difference_map_optimised_correct_witness:
  "pixels (difference_map_optimised example_library (1/2) (1/3) (1/5) (image_of [3, 1]) (image_of [2, 1]) (image_of [1, 0]))
     = pixels (difference_map_reference example_library (1/2) (1/3) (1/5) (image_of [3, 1]) (image_of [2, 1]) (image_of [1, 0]))"
  using difference_map_optimised_correct [of "image_of [2, 1]" 2 "image_of [1, 0]" "image_of [3, 1]"]
    example_library_laws by (simp add: image_of_def numeral_2_eq_2)

section \<open>What the options change\<close>

lemma constrained_satisfies:
  assumes "oint opt I_enforce_real \<noteq> 0" and "oint opt I_enforce_positivity \<noteq> 0"
    and "positive = clip_negative \<or> positive = fold_negative"
  shows "real_on_support s (constrained positive opt s a) \<and> positive_on_support s (constrained positive opt s a)"
  using assms real_positive_clip.both.projects [of "(s, s)" a] real_positive_fold.both.projects [of "(s, s)" a]
  by (auto simp: constrained_def)

text \<open>
  Property C14 (invariant): with \<open>enforce_real\<close> and \<open>enforce_positivity\<close> set, the image that
  each of eight iterations returns is real and not negative inside the support: the two
  hybrid input-output iterations, the two RAAR iterations, error reduction, HPR, the
  serial difference map, and ESPRESSO, there on the support it leaves.  HAAR, SO2D, charge flipping
  and the serial RAAR iteration do not impose both constraints and are not among them.
\<close>

theorem iterations_enforce_constraints:
  assumes "basic_hio_iteration sp v exp_amp x support st = Inr (out, st') \<or>
      basic_hio_proj_iteration sp v exp_amp sg x support st = Inr (out, st') \<or>
      basic_raar_iteration sp v exp_amp sg x support st = Inr (out, st') \<or>
      basic_raar_proj_iteration sp v exp_amp sg x support st = Inr (out, st') \<or>
      basic_error_reduction_iteration sp v exp_amp x support st = Inr (out, st') \<or>
      basic_hpr_iteration sp v exp_amp x support st = Inr (out, st') \<or>
      serial_difference_map_iteration sp v exp_amp x support st = Inr (out, st') \<or>
      basic_espresso_iteration sp v exp_amp x support0 st = Inr (out, support, st')"
    and "oint (opts st) I_enforce_real \<noteq> 0" and "oint (opts st) I_enforce_positivity \<noteq> 0"
  shows "real_on_support support out \<and> positive_on_support support out"
proof -
  have "(\<exists>a. out = constrained clip_negative (opts st) support a) \<or>
      (\<exists>a. out = constrained fold_negative (opts st) support a)"
    using assms(1)
    by (elim disjE)
      (auto simp: basic_hio_iteration_def basic_hio_proj_iteration_def basic_raar_proj_iteration_def
        basic_error_reduction_iteration_def basic_hpr_iteration_def serial_difference_map_iteration_def
        basic_espresso_iteration_def Let_def finish_Inr_iff split: prod.splits elim: raar_InrE)
  then show ?thesis using constrained_satisfies [OF assms(2,3)] by blast
qed

theorem iterations_enforce_constraints_witness:
  "\<exists>out st'. basic_error_reduction_iteration example_library 1 (image_of [3, 1]) (image_of [3, -1])
      (image_of [1, 1]) ((example_hawk 5)\<lparr>opts := set_int I_enforce_real 1 (set_int I_enforce_positivity 1
        (opts (example_hawk 5)))\<rparr>) = Inr (out, st') \<and> positive_on_support (image_of [1, 1]) out"
proof -
  let ?st = "(example_hawk 5)\<lparr>opts := set_int I_enforce_real 1 (set_int I_enforce_positivity 1
        (opts (example_hawk 5)))\<rparr>"
  obtain out st' where run: "basic_error_reduction_iteration example_library 1 (image_of [3, 1])
      (image_of [3, -1]) (image_of [1, 1]) ?st = Inr (out, st')"
    by (auto simp: basic_error_reduction_iteration_def finish_Inr_iff Let_def log_if_due_def
      example_state_defs)
  then show ?thesis
    using iterations_enforce_constraints [of example_library 1 "image_of [3, 1]" "image_of [3, -1]"
        "image_of [1, 1]" ?st out st'] by auto
qed

lemma fold_everywhere_charge_flip: "fold_everywhere (charge_flip limit a) = fold_everywhere a"
  by (simp add: fold_everywhere_def charge_flip_def on_pixels_fuse cong: if_cong)
    (rule on_pixels_cong, auto)

text \<open>
  With \<open>enforce_positivity\<close> set, charge flipping flips nothing: the
  absolute values taken afterwards undo every change of sign, so that the result does not
  depend on \<open>charge_flip_sigma\<close>.
\<close>

lemma positivity_undoes_charge_flipping:
  assumes "basic_cflip_iteration sp v exp_amp x support st = Inr (out, st')"
    and "basic_cflip_iteration sp v exp_amp x support (st\<lparr>opts := (opts st)\<lparr>oreal :=
           (oreal (opts st))(R_charge_flip_sigma := sigma)\<rparr>\<rparr>) = Inr (out', st'')"
    and "oint (opts st) I_enforce_positivity \<noteq> 0"
  shows "out' = out"
  using assms
  by (auto simp: basic_cflip_iteration_def Let_def finish_Inr_iff fold_everywhere_charge_flip
      split: prod.splits)

lemma example_cflip_runs:
  "\<exists>out st'. basic_cflip_iteration example_library 1 (image_of [3, 1]) (image_of [3, 0]) (image_of [1, 1])
     ((example_hawk 5)\<lparr>opts := (set_int I_enforce_positivity 1 (opts (example_hawk 5)))
        \<lparr>oreal := (\<lambda>_. 0)(R_charge_flip_sigma := sigma)\<rparr>\<rparr>) = Inr (out, st')"
  by (auto simp: basic_cflip_iteration_def finish_Inr_iff Let_def log_if_due_def
      example_state_defs mark_weak_reflections_def)

theorem positivity_undoes_charge_flipping_witness:
  "\<exists>out st' st''. basic_cflip_iteration example_library 1 (image_of [3, 1]) (image_of [3, 0]) (image_of [1, 1])
     ((example_hawk 5)\<lparr>opts := (set_int I_enforce_positivity 1 (opts (example_hawk 5)))
        \<lparr>oreal := (\<lambda>_. 0)(R_charge_flip_sigma := 0)\<rparr>\<rparr>) = Inr (out, st') \<and>
   basic_cflip_iteration example_library 1 (image_of [3, 1]) (image_of [3, 0]) (image_of [1, 1])
     ((example_hawk 5)\<lparr>opts := (set_int I_enforce_positivity 1 (opts (example_hawk 5)))
        \<lparr>oreal := (\<lambda>_. 0)(R_charge_flip_sigma := 1)\<rparr>\<rparr>) = Inr (out, st'')"
proof -
  obtain out st' where run: "basic_cflip_iteration example_library 1 (image_of [3, 1]) (image_of [3, 0])
      (image_of [1, 1]) ((example_hawk 5)\<lparr>opts := (set_int I_enforce_positivity 1 (opts (example_hawk 5)))
        \<lparr>oreal := (\<lambda>_. 0)(R_charge_flip_sigma := 0)\<rparr>\<rparr>) = Inr (out, st')"
    using example_cflip_runs by blast
  obtain out' st'' where run': "basic_cflip_iteration example_library 1 (image_of [3, 1]) (image_of [3, 0])
      (image_of [1, 1]) ((example_hawk 5)\<lparr>opts := (set_int I_enforce_positivity 1 (opts (example_hawk 5)))
        \<lparr>oreal := (\<lambda>_. 0)(R_charge_flip_sigma := 1)\<rparr>\<rparr>) = Inr (out', st'')"
    using example_cflip_runs by blast
  have "out' = out"
    by (rule positivity_undoes_charge_flipping [OF run, of 1 out' st'']) (use run' in simp_all)
  with run run' show ?thesis by blast
qed

lemma espresso_support_same:
  "length (pixels s) = length (pixels s') \<Longrightarrow> sp_image_size a = length (pixels s) \<Longrightarrow>
   pixels (espresso_support l x a s) = pixels (espresso_support l x a s')"
  by (intro nth_equalityI) (simp_all add: espresso_support_def loop_simps)

lemma constrained_same_support:
  "pixels s = pixels s' \<Longrightarrow> constrained fold_negative opt s a = constrained fold_negative opt s' a"
  by (simp add: constrained_def enforce_real_def fold_negative_def inside_def Let_def)

lemma espresso_update_same_support:
  "pixels s = pixels s' \<Longrightarrow> espresso_update b x s a = espresso_update b x s' a"
  by (simp add: espresso_update_def)

text \<open>
  ESPRESSO does not use the support it is given.  Whatever the support,
  the image it returns and the support it leaves are the same: it overwrites every
  pixel of the support before it reads one.
\<close>

lemma espresso_ignores_support:
  assumes "basic_espresso_iteration sp v exp_amp x support1 st = Inr (out1, new1, st1)"
    and "basic_espresso_iteration sp v exp_amp x support2 st = Inr (out2, new2, st2)"
    and "length (pixels support1) = n" and "length (pixels support2) = n"
    and "length (pixels exp_amp) = n" and "fft_keeps_size sp n" and "rephase_zero_pointwise sp"
  shows "out1 = out2 \<and> pixels new1 = pixels new2"
proof -
  have size: "sp_image_size (normalized_real r m (sp_image_ifft sp (flip_pattern sp exp_amp p flags f))) = n"
    for r m p flags f
    using assms(5-7) by (simp add: size_is_length fft_keeps_size_def flip_pattern_def rephase_zero_pointwise_def)
  have new: "pixels (espresso_support l x (normalized_real r m (sp_image_ifft sp (flip_pattern sp exp_amp p flags f))) support1)
      = pixels (espresso_support l x (normalized_real r m (sp_image_ifft sp (flip_pattern sp exp_amp p flags f))) support2)"
    for l r m p flags f
    by (rule espresso_support_same) (simp_all add: assms(3,4) size)
  show ?thesis
    using assms(1,2) constrained_same_support [OF new] espresso_update_same_support [OF new] new
    by (auto simp: basic_espresso_iteration_def Let_def finish_Inr_iff split: prod.splits)
qed

theorem espresso_ignores_support_witness:
  "\<exists>out new1 new2 st1 st2.
     basic_espresso_iteration example_library 1 (image_of [3, 1]) (image_of [3, 0]) (image_of [1, 0])
       (example_hawk 5) = Inr (out, new1, st1) \<and>
     basic_espresso_iteration example_library 1 (image_of [3, 1]) (image_of [3, 0]) (image_of [0, 1])
       (example_hawk 5) = Inr (out, new2, st2)"
proof -
  have runs: "\<exists>out new st'. basic_espresso_iteration example_library 1 (image_of [3, 1]) (image_of [3, 0])
      (image_of s) (example_hawk 5) = Inr (out, new, st')" for s
    by (auto simp: basic_espresso_iteration_def finish_def Let_def log_if_due_def
        example_state_defs mark_weak_reflections_def)
  from runs [of "[1, 0]"] runs [of "[0, 1]"] show ?thesis
    using espresso_ignores_support [of example_library 1 "image_of [3, 1]" "image_of [3, 0]" "image_of [1, 0]"
        "example_hawk 5" _ _ _ "image_of [0, 1]" _ _ _ 2] example_library_laws
    by (fastforce simp: image_of_def numeral_2_eq_2)
qed

section \<open>The two RAAR variants\<close>

text \<open>
  Without error bars, and where no measured pixel of the transform has
  real part 0, the RAAR iteration of the program returns the image of the serial variant:
  with both bounds at the measured amplitude, every value is moved to it.
\<close>

lemma raar_without_error_bars:
  assumes "basic_raar_iteration sp v exp_amp None x support st = Inr (out, st')"
    and "serial_raar_iteration sp v exp_amp x support st = Inr (out', st'')"
    and "exp_amp_minus_sigma st = None" and "exp_amp_plus_sigma st = None"
    and "\<forall>i<length (pixels (sp_image_fft sp x)). mask_data exp_amp ! i \<noteq> 0 \<longrightarrow>
           sp_real (pixels (sp_image_fft sp x) ! i) \<noteq> 0"
  shows "out = out'"
proof -
  have "raar_band_value e e z = sp_cscale z (sp_real e / sp_cabs z)" if "sp_real z \<noteq> 0" for e z
    using that by (auto simp: raar_band_value_def not_less)
  then have "raar_amplitudes exp_amp exp_amp exp_amp (sp_image_fft sp x) =
      serial_raar_amplitudes exp_amp (sp_image_fft sp x)"
    using assms(5) unfolding raar_amplitudes_def serial_raar_amplitudes_def
    by (intro on_pixels_cong) simp
  with assms(1-4) show ?thesis
    by (elim raar_InrE)
      (auto simp: shifted_amplitudes_def serial_raar_iteration_def Let_def finish_Inr_iff)
qed

theorem raar_without_error_bars_witness:
  "\<exists>out st' st''. basic_raar_iteration example_library 1 (image_of [3, 3]) None (image_of [3, 1])
     (image_of [1, 0]) (example_hawk 5) = Inr (out, st') \<and>
   serial_raar_iteration example_library 1 (image_of [3, 3]) (image_of [3, 1]) (image_of [1, 0])
     (example_hawk 5) = Inr (out, st'')"
proof -
  obtain out st' where run: "basic_raar_iteration example_library 1 (image_of [3, 3]) None (image_of [3, 1])
      (image_of [1, 0]) (example_hawk 5) = Inr (out, st')"
    using example_raar_runs by blast
  obtain out' st'' where run': "serial_raar_iteration example_library 1 (image_of [3, 3]) (image_of [3, 1])
      (image_of [1, 0]) (example_hawk 5) = Inr (out', st'')"
    by (auto simp: serial_raar_iteration_def finish_Inr_iff Let_def log_if_due_def example_state_defs
      get_beta_def)
  have "out = out'"
    using raar_without_error_bars [OF run run'] by (simp add: example_state_defs less_Suc_eq)
  with run run' show ?thesis by blast
qed

text \<open>
  Where the transform of the image is purely imaginary and below the error
  bar, the RAAR iterations drop its phase: they test the real part where they mean the
  modulus, and put the measured amplitude itself in place of it.  HIO keeps the phase there: its
  value is a nonnegative multiple of the calculated one.
\<close>

lemma raar_drops_imaginary_phases:
  assumes "i < length (pixels fft)" and "length (pixels fft) = length (pixels exp_amp)"
    and "mask_data exp_amp ! i \<noteq> 0" and "sp_real (pixels fft ! i) = 0" and "pixels fft ! i \<noteq> 0"
    and "sp_cabs (pixels fft ! i) < sp_real (pixels lo ! i)" and "rephase_zero_pointwise sp"
  shows "pixels (raar_amplitudes exp_amp lo hi fft) ! i = pixels lo ! i
    \<and> pixels (serial_raar_amplitudes exp_amp fft) ! i = pixels exp_amp ! i
    \<and> pixels (hio_pattern sp exp_amp fft) ! i =
      sp_cscale (pixels fft ! i) (sp_real (pixels exp_amp ! i) / sp_cabs (pixels fft ! i))"
  using assms
  by (simp_all add: raar_amplitudes_def serial_raar_amplitudes_def raar_band_value_def loop_simps
      size_is_length)

theorem raar_drops_imaginary_phases_witness:
  "pixels (raar_amplitudes (image_of [2, 2]) (image_of [2, 2]) (image_of [2, 2]) (image_of [\<i>, 1])) ! 0 = 2"
  using raar_drops_imaginary_phases
    [of 0 "image_of [\<i>, 1]" "image_of [2, 2]" "image_of [2, 2]" example_library "image_of [2, 2]"]
    example_library_laws by (simp add: image_of_def)

end
