(* ===== verification/Saddle.thy ===== *)
theory Saddle
  imports Algorithms
begin

text \<open>
  The saddle-point search behind the algorithm SO2D (\<open>src/saddle/minmaxtau.c\<close>,
  \<open>src/saddle/minmaxL.c\<close> and \<open>basic_so2d_iteration\<close> of \<open>src/algorithms.c\<close>).  The
  pattern is split into the transform \<open>Gs\<close> of the density inside the support and the
  transform \<open>Gns\<close> of the density outside; an iteration moves both along two directions, by
  the step lengths \<open>tau\<close> for which a functional has a minimum along the first and a maximum
  along the second.

  A failed \<open>assert\<close> is \<open>Abort\<close>.  A matrix of complex numbers (\<open>sp_c3matrix\<close>) is an
  image of which only the pixels and the sizes are used.  Vectors have two elements
  throughout and are pairs, with the arithmetic of \<open>sp_vector_dot_prod\<close>,
  \<open>sp_vector_norm\<close>, \<open>sp_vector_scale\<close>, \<open>sp_vector_add\<close>, \<open>sp_vector_sub\<close>.
\<close>

text \<open>
  What else the search takes from libspimage.  \<open>sp_3matrix_memcpy\<close> and \<open>sp_3matrix_sum\<close>
  (\<open>sp_3matrix_add\<close>) give the new value of their first argument; \<open>sp_vector_alloc\<close> the
  elements of a fresh vector; \<open>duplicate_detector\<close> and \<open>duplicate_data\<close> are
  \<open>sp_image_duplicate\<close> with \<open>SP_COPY_DETECTOR\<close> and with \<open>SP_COPY_DATA\<close> alone.
\<close>

record saddle_lib =
  sp_3matrix_alloc :: "nat \<Rightarrow> nat \<Rightarrow> nat \<Rightarrow> sp_3matrix"
  sp_3matrix_memcpy :: "sp_3matrix \<Rightarrow> sp_3matrix \<Rightarrow> sp_3matrix"
  sp_3matrix_scale :: "sp_3matrix \<Rightarrow> real \<Rightarrow> sp_3matrix"
  sp_3matrix_sum :: "sp_3matrix \<Rightarrow> sp_3matrix \<Rightarrow> sp_3matrix"
  sp_3matrix_mul :: "sp_3matrix \<Rightarrow> sp_3matrix \<Rightarrow> sp_3matrix"
  sp_3matrix_invert :: "sp_3matrix \<Rightarrow> sp_3matrix"
  sp_3matrix_transpose :: "sp_3matrix \<Rightarrow> sp_3matrix"
  sp_3matrix_vector_prod :: "sp_3matrix \<Rightarrow> vec2 \<Rightarrow> vec2"
  sp_vector_outer_prod :: "vec2 \<Rightarrow> vec2 \<Rightarrow> sp_3matrix"
  sp_vector_alloc :: "nat \<Rightarrow> real list"
  sp_c3matrix_alloc :: "nat \<Rightarrow> nat \<Rightarrow> nat \<Rightarrow> image"
  sp_c3matrix_fft :: "image \<Rightarrow> image"
  sp_c3matrix_ifft :: "image \<Rightarrow> image"
  duplicate_detector :: "image \<Rightarrow> image"
  duplicate_data :: "image \<Rightarrow> image"
  real_max :: real
  real_epsilon :: real

abbreviation fresh_vector :: "saddle_lib \<Rightarrow> vec2" where
  "fresh_vector lib \<equiv> (sp_vector_alloc lib 2 ! 0, sp_vector_alloc lib 2 ! 1)"

definition negated :: "saddle_lib \<Rightarrow> sp_3matrix \<Rightarrow> sp_3matrix" where
  "negated lib m = sp_3matrix_scale lib (sp_3matrix_memcpy lib (sp_3matrix_alloc lib 2 2 1) m) (-1)"

section \<open>The gradient along the directions\<close>

text \<open>The pattern for the step lengths \<open>aa\<close> and \<open>bb\<close>; a null scale of \<open>sp_c3matrix_add\<close> is the factor 1.\<close>

definition pattern_at :: "spimage \<Rightarrow> image \<Rightarrow> image \<Rightarrow> image \<Rightarrow> image \<Rightarrow> real \<Rightarrow> real \<Rightarrow> complex list" where
  "pattern_at sp Gs Gns DGs DGns aa bb =
     (let Gab = sp_c3matrix_add sp (pixels Gs) (pixels Gns) 1;
          Gab = sp_c3matrix_add sp Gab (pixels DGs) (sp_cinit aa 0)
      in sp_c3matrix_add sp Gab (pixels DGns) (sp_cinit bb 0))"

definition measured_value :: "image \<Rightarrow> nat \<Rightarrow> complex \<Rightarrow> complex" where
  "measured_value F0 i z =
     (if mask_data F0 ! i \<noteq> 0 then sp_cscale z (sp_real (pixels F0 ! i) / sp_cabs z) else z)"

definition measured_pattern :: "image \<Rightarrow> complex list \<Rightarrow> complex list result" where
  "measured_pattern F0 Gab =
     (if list_ex (\<lambda>z. sp_cabs z = 0) Gab then Inl Abort
      else Inr (for_pixels (length Gab) (measured_value F0) Gab))"

definition gradL ::
  "spimage \<Rightarrow> image \<Rightarrow> image \<Rightarrow> image \<Rightarrow> image \<Rightarrow> image \<Rightarrow> real \<Rightarrow> real \<Rightarrow> vec2 result" where
  "gradL sp Gs Gns DGs DGns F0 aa bb =
     (let Gab = pattern_at sp Gs Gns DGs DGns aa bb in
      bind_result (measured_pattern F0 Gab) (\<lambda>Gm.
        let dab1 = - sp_real (sp_c3matrix_froenius_prod sp (pixels DGns) Gm);
            Gm = sp_c3matrix_sub sp Gm Gab;
            dab0 = - sp_real (sp_c3matrix_froenius_prod sp (pixels DGs) Gm)
        in Inr (dab0, dab1)))"

text \<open>The gradient the search uses: the moduli of complex sums.\<close>

definition gradLtau_step ::
  "image \<Rightarrow> image \<Rightarrow> image \<Rightarrow> image \<Rightarrow> image \<Rightarrow> vec2 option \<Rightarrow> nat \<Rightarrow> complex \<times> complex \<Rightarrow> (complex \<times> complex) result" where
  "gradLtau_step Gs Gns DGs DGns F0 tau i dtau =
     (let Gab = (case tau of
            None \<Rightarrow> pixels Gs ! i + pixels Gns ! i
          | Some t \<Rightarrow> (pixels Gs ! i + pixels Gns ! i)
              + (sp_cscale (pixels DGs ! i) (fst t) + sp_cscale (pixels DGns ! i) (snd t)))
      in if sp_cabs Gab = 0 then Inl Abort
         else let Gm = measured_value F0 i Gab in
           Inr (fst dtau - pixels DGs ! i * cnj (Gm - Gab), snd dtau - pixels DGns ! i * cnj Gm))"

definition gradLtau ::
  "image \<Rightarrow> image \<Rightarrow> image \<Rightarrow> image \<Rightarrow> image \<Rightarrow> vec2 option \<Rightarrow> vec2 result" where
  "gradLtau Gs Gns DGs DGns F0 tau =
     bind_result (fold_result (gradLtau_step Gs Gns DGs DGns F0 tau) [0..<sp_image_size DGs] (sp_cinit 0 0, sp_cinit 0 0))
       (\<lambda>d. Inr (sp_cabs (fst d), sp_cabs (snd d)))"

section \<open>The search along a line\<close>

text \<open>The bracket: a point before the root and one behind it, each with the value there.\<close>

definition rebracketxy :: "saddle_lib \<Rightarrow> vec2 \<times> vec2 \<Rightarrow> real \<Rightarrow> real \<Rightarrow> bool \<Rightarrow> vec2 \<times> vec2" where
  "rebracketxy lib b x y init =
     (if init then ((x, y), (real_max lib, - real_max lib))
      else (let (xmin, xmax) = b;
                xmax = (if y < 0 \<and> x < fst xmax then (x, y) else xmax);
                xmin = (if y > 0 \<and> x > fst xmin then (x, y) else xmin)
            in (xmin, xmax)))"

text \<open>\<open>x1\<close> and \<open>y1\<close> are moved into the bracket first.\<close>

definition bisect2 ::
  "(real \<Rightarrow> real) \<Rightarrow> real \<Rightarrow> real \<Rightarrow> real \<Rightarrow> real \<Rightarrow> real \<Rightarrow> vec2 \<Rightarrow> vec2 \<Rightarrow> vec2 result" where
  "bisect2 nf x0 x1 y0 y1 dy xmax xmin =
     (let (x1, y1) = (if x1 > fst xmax then xmax else (x1, y1));
          (x1, y1) = (if x1 < fst xmin then xmin else (x1, y1));
          Dx = x1 - x0; Dy = y1 - y0
      in if Dx = 0 then Inl Abort
         else let d2y = (Dy - Dx * dy) / (Dx * Dx) in
           if d2y = 0 then Inl Abort
           else let xn = x0 + (- dy - fp_sqrt nf (dy * dy - 4 * y0 * d2y)) / d2y / 2;
                    dyn = dy + d2y * (xn - x0)
                in if xn > fst xmax \<or> xn < fst xmin
                   then let dyn = Dy / Dx in Inr (x0 - x1 * dyn, dyn)
                   else Inr (xn, dyn))"

record line_state =
  l_x :: real
  l_y :: real
  l_xold :: real
  l_yold :: real
  l_dy :: real
  l_bracket :: "vec2 \<times> vec2"

text \<open>
  One pass of the loop of \<open>linminab\<close> over the function \<open>slope\<close>; \<open>Inl x\<close> is the
  early return.  A slope estimate that is far off is replaced by the value of the function.
\<close>

definition linmin_overshot ::
  "(real \<Rightarrow> real) \<Rightarrow> saddle_lib \<Rightarrow> real \<Rightarrow> (real \<Rightarrow> real result) \<Rightarrow> line_state \<Rightarrow> (real + line_state) result" where
  "linmin_overshot nf lib TolY slope s =
     bind_result (bisect2 nf (l_xold s) (l_x s) (l_yold s) (l_y s) (l_dy s) (snd (l_bracket s)) (fst (l_bracket s))) (\<lambda>(x, dy).
     bind_result (slope x) (\<lambda>y.
       if \<bar>y\<bar> < TolY then Inr (Inl x)
       else Inr (Inr (s\<lparr>l_x := x, l_y := y, l_dy := dy, l_bracket := rebracketxy lib (l_bracket s) x y False,
              l_xold := x, l_yold := y\<rparr>))))"

definition linmin_goes_on ::
  "(real \<Rightarrow> real) \<Rightarrow> saddle_lib \<Rightarrow> (real \<Rightarrow> real result) \<Rightarrow> line_state \<Rightarrow> (real + line_state) result" where
  "linmin_goes_on nf lib slope s =
     (let Dx = l_x s - l_xold s; Dy = l_y s - l_yold s in
      if Dx = 0 then Inl Abort
      else let dyn = Dy / Dx;
               errslp = \<bar>fp_div nf (dyn - l_dy s) (l_dy s + 1 * real_epsilon lib)\<bar>;
               errslp = errslp * errslp
           in if errslp > 1 / 4 then bind_result (slope (l_x s)) (\<lambda>dy. Inr (Inr (s\<lparr>l_dy := dy\<rparr>)))
              else if errslp > 1 / 10 then Inr (Inr (s\<lparr>l_dy := dyn\<rparr>))
              else let d2y = (Dy - Dx * l_dy s) / (Dx * Dx) in Inr (Inr (s\<lparr>l_dy := l_dy s + d2y * Dx\<rparr>)))"

definition linmin_step ::
  "(real \<Rightarrow> real) \<Rightarrow> saddle_lib \<Rightarrow> real \<Rightarrow> (real \<Rightarrow> real result) \<Rightarrow> line_state \<Rightarrow> (real + line_state) result" where
  "linmin_step nf lib TolY slope s =
     (let dy = - \<bar>l_dy s\<bar> in
      if dy = 0 then Inl Abort
      else let Dx = - l_y s / dy in
        if Dx = 0 then Inl Abort
        else let x = l_x s + Dx in
          bind_result (slope x) (\<lambda>y.
            if \<bar>y\<bar> < TolY then Inr (Inl x)
            else let s = s\<lparr>l_x := x, l_y := y, l_dy := dy, l_bracket := rebracketxy lib (l_bracket s) x y False\<rparr> in
              if y * l_yold s < 0 then linmin_overshot nf lib TolY slope s
              else linmin_goes_on nf lib slope s))"

fun linmin_loop ::
  "nat \<Rightarrow> (real \<Rightarrow> real) \<Rightarrow> saddle_lib \<Rightarrow> real \<Rightarrow> (real \<Rightarrow> real result) \<Rightarrow> line_state \<Rightarrow> real result" where
  "linmin_loop 0 nf lib TolY slope s = Inr (l_x s)"
| "linmin_loop (Suc n) nf lib TolY slope s =
     bind_result (linmin_step nf lib TolY slope s) (\<lambda>r.
       case r of Inl x \<Rightarrow> Inr x | Inr s' \<Rightarrow> linmin_loop n nf lib TolY slope s')"

definition line_slope ::
  "spimage \<Rightarrow> saddle_lib \<Rightarrow> image \<Rightarrow> image \<Rightarrow> image \<Rightarrow> image \<Rightarrow> image \<Rightarrow> vec2 \<Rightarrow> vec2 \<Rightarrow> sp_3matrix \<Rightarrow> real \<Rightarrow> real result" where
  "line_slope sp lib Gs Gns DGs DGns F0 ab dab Habi x =
     bind_result (gradL sp Gs Gns DGs DGns F0 (fst ab + fst dab * x) (snd ab + snd dab * x)) (\<lambda>g.
       Inr (dot_prod dab (sp_3matrix_vector_prod lib (negated lib Habi) g)))"

definition linminab ::
  "spimage \<Rightarrow> saddle_lib \<Rightarrow> image \<Rightarrow> image \<Rightarrow> image \<Rightarrow> image \<Rightarrow> image \<Rightarrow> vec2 \<Rightarrow> vec2 \<Rightarrow> sp_3matrix \<Rightarrow> real \<Rightarrow> real result" where
  "linminab sp lib Gs Gns DGs DGns F0 ab dab Habi TolY =
     (let TolY = (if TolY < 0 then 1 / 10 else TolY);
          slope = line_slope sp lib Gs Gns DGs DGns F0 ab dab Habi
      in bind_result (slope 0) (\<lambda>y.
           linmin_loop 10 (nonfinite sp) lib TolY slope
             \<lparr>l_x = 0, l_y = y, l_xold = 0, l_yold = y, l_dy = - y,
              l_bracket = rebracketxy lib (fresh_vector lib, fresh_vector lib) 0 y True\<rparr>))"

section \<open>The matrix of second derivatives\<close>

definition conjugate :: "complex list \<Rightarrow> complex list" where
  "conjugate a = map cnj a"

definition mul_elements :: "complex list \<Rightarrow> complex list \<Rightarrow> complex list" where
  "mul_elements a b = map2 (*) a b"

text \<open>
  \<open>Fratio\<close> keeps the imaginary part of the amplitudes; the phases of the pattern are squared
  and weighted with it.
\<close>

definition amplitude_ratio :: "image \<Rightarrow> complex list \<Rightarrow> complex list" where
  "amplitude_ratio F0 Gab = for_pixels (length Gab)
     (\<lambda>i z. if mask_data F0 ! i \<noteq> 0 then sp_cinit (sp_real z / sp_cabs (Gab ! i)) (sp_imag z) else sp_cinit 1 0) (pixels F0)"

definition squared_phases :: "complex list \<Rightarrow> complex list \<Rightarrow> complex list" where
  "squared_phases Fratio Gab = for_pixels (length Gab)
     (\<lambda>i z. (sp_cscale z (1 / sp_cabs z) * sp_cscale z (1 / sp_cabs z)) * Fratio ! i) Gab"

definition hesLtau ::
  "spimage \<Rightarrow> saddle_lib \<Rightarrow> image \<Rightarrow> image \<Rightarrow> image \<Rightarrow> image \<Rightarrow> image \<Rightarrow> vec2 option \<Rightarrow> sp_3matrix \<Rightarrow> sp_3matrix
   \<Rightarrow> (sp_3matrix \<times> sp_3matrix) result" where
  "hesLtau sp lib Gs Gns DGs DGns F0 tau Hab Habi =
     (let prod = sp_c3matrix_froenius_prod sp;
          Gab = (case tau of None \<Rightarrow> sp_c3matrix_add sp (pixels Gs) (pixels Gns) 1
                 | Some t \<Rightarrow> pattern_at sp Gs Gns DGs DGns (fst t) (snd t))
      in if list_ex (\<lambda>z. sp_cabs z = 0) Gab then Inl Abort
         else if length (pixels F0) < length Gab then Inl Out_Of_Bounds
         else
           let Fratio = amplitude_ratio F0 Gab;
               ph2 = squared_phases Fratio Gab;
               h00 = sp_real (prod (pixels DGs) (mul_elements Fratio (pixels DGs))) / (-2);
               h00 = h00 + sp_real (prod (pixels DGs) (mul_elements ph2 (conjugate (pixels DGs)))) / 2;
               h00 = h00 + sp_real (prod (pixels DGs) (pixels DGs));
               ph2 = mul_elements (conjugate ph2) (pixels DGns);
               Fratio = mul_elements Fratio (pixels DGns);
               h11 = - sp_real (prod Fratio (pixels DGns)) / 2 + sp_real (prod ph2 (conjugate (pixels DGns))) / 2;
               h01 = - sp_real (prod Fratio (pixels DGs)) / 2 + sp_real (prod ph2 (conjugate (pixels DGs))) / 2
           in bind_result (sp_3matrix_set Hab 0 0 0 h00) (\<lambda>Hab.
              bind_result (sp_3matrix_set Hab 1 1 0 h11) (\<lambda>Hab.
              bind_result (sp_3matrix_set Hab 0 1 0 h01) (\<lambda>Hab.
              bind_result (sp_3matrix_set Hab 1 0 0 h01) (\<lambda>Hab.
                Inr (Hab, sp_3matrix_invert lib (sp_3matrix_memcpy lib Habi Hab)))))))"

section \<open>Signs of the second derivatives\<close>

definition right_directions :: "saddle_lib \<Rightarrow> nat \<Rightarrow> real list" where
  "right_directions lib ND =
     fold (\<lambda>i d. d[2 * i := 1, 2 * i + 1 := -1]) [0..<ND div 2] (sp_vector_alloc lib ND)"

definition sign_diagonal :: "real list \<Rightarrow> nat \<Rightarrow> sp_3matrix \<Rightarrow> sp_3matrix result" where
  "sign_diagonal rightdir i H =
     bind_result (sp_3matrix_get H (int i) (int i) 0) (\<lambda>h.
     sp_3matrix_set H (int i) (int i) 0 (\<bar>h\<bar> * rightdir ! i))"

text \<open>The flags of the elements that have the right sign, and the smallest of their moduli.\<close>

definition right_elements :: "sp_3matrix \<Rightarrow> real list \<Rightarrow> nat \<Rightarrow> bool list \<times> real \<Rightarrow> (bool list \<times> real) result" where
  "right_elements H rightdir i acc =
     bind_result (sp_3matrix_get H (int i) (int i) 0) (\<lambda>h.
       if h * rightdir ! i > 0
       then Inr ((fst acc)[i := True], if \<bar>h\<bar> < snd acc \<or> snd acc = 0 then \<bar>h\<bar> else snd acc)
       else Inr ((fst acc)[i := False], snd acc))"

definition reduction ::
  "(real \<Rightarrow> real) \<Rightarrow> sp_3matrix \<Rightarrow> bool list \<Rightarrow> real \<Rightarrow> nat \<Rightarrow> sp_3matrix \<Rightarrow> sp_3matrix result" where
  "reduction nf H isright Hmin i redM =
     (if isright ! i then sp_3matrix_set redM (int i) (int i) 0 1
      else bind_result (sp_3matrix_get H (int i) (int i) 0) (\<lambda>h.
           sp_3matrix_set redM (int i) (int i) 0 (fp_div nf (fp_sqrt nf Hmin) (fp_sqrt nf \<bar>h\<bar>))))"

text \<open>For four directions two further elements are set to zero when they are too large.\<close>

definition drop_mixed :: "int \<Rightarrow> int \<Rightarrow> sp_3matrix \<Rightarrow> sp_3matrix result" where
  "drop_mixed i j H =
     bind_result (sp_3matrix_get H i j 0) (\<lambda>a.
     bind_result (sp_3matrix_get H i i 0) (\<lambda>b.
     bind_result (sp_3matrix_get H j j 0) (\<lambda>c.
       if a * a > b * c
       then bind_result (sp_3matrix_set H i j 0 0) (\<lambda>H. sp_3matrix_set H j i 0 0)
       else Inr H)))"

definition goright :: "(real \<Rightarrow> real) \<Rightarrow> saddle_lib \<Rightarrow> sp_3matrix \<Rightarrow> sp_3matrix result" where
  "goright nf lib H =
     (let ND = matrix_y H; rightdir = right_directions lib ND in
      bind_result (fold_result (sign_diagonal rightdir) [0..<ND] H) (\<lambda>H.
      bind_result (fold_result (right_elements H rightdir) [0..<ND] (replicate ND False, 0)) (\<lambda>(isright, Hmin).
      bind_result (fold_result (reduction nf H isright Hmin) [0..<ND] (sp_3matrix_alloc lib ND ND 0)) (\<lambda>redM.
        let H = sp_3matrix_memcpy lib H (sp_3matrix_mul lib (sp_3matrix_mul lib redM H) redM) in
        if ND = 4 then bind_result (drop_mixed 2 4 H) (drop_mixed 1 3) else Inr H))))"

section \<open>A linear fit of the history\<close>

definition column :: "sp_3matrix \<Rightarrow> nat \<Rightarrow> vec2 result" where
  "column m i =
     bind_result (sp_3matrix_get m 0 (int i) 0) (\<lambda>a.
     bind_result (sp_3matrix_get m 1 (int i) 0) (\<lambda>b. Inr (a, b)))"

definition set_column :: "nat \<Rightarrow> vec2 \<Rightarrow> sp_3matrix \<Rightarrow> sp_3matrix result" where
  "set_column i v m =
     bind_result (sp_3matrix_set m 0 (int i) 0 (fst v)) (\<lambda>m. sp_3matrix_set m 1 (int i) 0 (snd v))"

definition copy_columns :: "sp_3matrix \<Rightarrow> nat \<Rightarrow> sp_3matrix \<Rightarrow> sp_3matrix result" where
  "copy_columns src n = fold_result (\<lambda>i m. bind_result (column src i) (\<lambda>v. set_column i v m)) [0..<n]"

definition sum_columns :: "sp_3matrix \<Rightarrow> nat \<Rightarrow> vec2 \<Rightarrow> vec2 result" where
  "sum_columns m n = fold_result (\<lambda>i s. bind_result (column m i) (\<lambda>v. Inr (vector_add s v))) [0..<n]"

definition vector_div :: "(real \<Rightarrow> real) \<Rightarrow> vec2 \<Rightarrow> nat \<Rightarrow> vec2" where
  "vector_div nf v n = (fp_div nf (fst v) (real n), fp_div nf (snd v) (real n))"

definition centred_columns :: "sp_3matrix \<Rightarrow> vec2 \<Rightarrow> nat \<Rightarrow> sp_3matrix \<Rightarrow> sp_3matrix result" where
  "centred_columns src mean n =
     fold_result (\<lambda>i m. bind_result (column src i) (\<lambda>v. set_column i (vector_sub v mean) m)) [0..<n]"

text \<open>The column of the smallest gradient; a smallest value of zero counts as none.\<close>

definition smaller_column :: "sp_3matrix \<Rightarrow> nat \<Rightarrow> real \<times> nat \<Rightarrow> (real \<times> nat) result" where
  "smaller_column m i best =
     bind_result (column m i) (\<lambda>v.
       let r = sqrt (fst v * fst v + snd v * snd v) in
       Inr (if r < fst best \<or> fst best = 0 then (r, i) else best))"

definition smallest_column :: "sp_3matrix \<Rightarrow> nat \<Rightarrow> nat result" where
  "smallest_column m n = bind_result (fold_result (smaller_column m) [0..<n] (0, 0)) (\<lambda>best. Inr (snd best))"

text \<open>
  \<open>Hfit\<close> gives new values of \<open>tau\<close>, \<open>dtau\<close>, \<open>Dtau\<close> and \<open>Hi\<close>.  The number of columns
  its loops go over is \<open>sp_3matrix_x\<close> of the matrices, the number of their rows.
\<close>

definition Hfit ::
  "(real \<Rightarrow> real) \<Rightarrow> saddle_lib \<Rightarrow> sp_3matrix \<Rightarrow> sp_3matrix \<Rightarrow> nat \<Rightarrow> sp_3matrix \<Rightarrow> (vec2 \<times> vec2 \<times> vec2 \<times> sp_3matrix) result" where
  "Hfit nf lib taui0 dtaui0 iter Hi =
     (let fresh = sp_3matrix_alloc lib 2 iter 1 in
      bind_result (copy_columns dtaui0 iter fresh) (\<lambda>dtaui.
      bind_result (copy_columns taui0 iter fresh) (\<lambda>taui.
      let n = matrix_x dtaui in
      bind_result (sum_columns dtaui n (fresh_vector lib)) (\<lambda>dsum.
      bind_result (sum_columns taui n (fresh_vector lib)) (\<lambda>tsum.
      bind_result (centred_columns taui (vector_div nf tsum n) n fresh) (\<lambda>x.
      bind_result (centred_columns dtaui (vector_div nf dsum n) n fresh) (\<lambda>y.
      let x_trans = sp_3matrix_transpose lib (sp_3matrix_memcpy lib fresh x);
          y_trans = sp_3matrix_transpose lib (sp_3matrix_memcpy lib fresh y);
          H = sp_3matrix_mul lib (sp_3matrix_invert lib (sp_3matrix_mul lib x x_trans)) (sp_3matrix_mul lib x y_trans);
          Hi = sp_3matrix_invert lib (sp_3matrix_memcpy lib Hi H);
          moved = sp_3matrix_mul lib Hi dtaui
      in
      bind_result (fold_result (\<lambda>i s. bind_result (column moved i) (\<lambda>u. bind_result (column taui i) (\<lambda>v.
             Inr (vector_add s (vector_scale (vector_sub u v) (-1)))))) [0..<n] (fresh_vector lib)) (\<lambda>rsum.
      let taur = vector_div nf rsum n in
      bind_result (smallest_column dtaui n) (\<lambda>jj.
      bind_result (column taui jj) (\<lambda>tau.
      bind_result (column dtaui jj) (\<lambda>dtau.
        Inr (tau, dtau, vector_sub tau taur, Hi))))))))))))"

section \<open>The directions\<close>

definition write_element :: "nat \<Rightarrow> complex \<Rightarrow> image \<Rightarrow> image result" where
  "write_element i z m =
     (if i < length (pixels m) then Inr (m\<lparr>pixels := (pixels m)[i := z]\<rparr>) else Inl Out_Of_Bounds)"

definition gradLrho_step :: "image \<Rightarrow> image \<Rightarrow> image \<Rightarrow> nat \<Rightarrow> image \<Rightarrow> image result" where
  "gradLrho_step Gs Gns F0 i Gm =
     (let z = pixels Gs ! i + pixels Gns ! i in
      if sp_cabs z = 0 then Inl Abort else write_element i (measured_value F0 i z) Gm)"

text \<open>
  \<open>gradLrho\<close>: the new directions.  The matrix of the density inside the support is
  allocated with a depth of 0.
\<close>

definition gradLrho ::
  "spimage \<Rightarrow> saddle_lib \<Rightarrow> image \<Rightarrow> image \<Rightarrow> image \<Rightarrow> image \<Rightarrow> real option \<Rightarrow> image \<Rightarrow> image \<Rightarrow> (image \<times> image) result" where
  "gradLrho sp lib Gs Gns S F0 w DGs DGns =
     (let norm = 1 / real (sp_image_size Gs) in
      bind_result (fold_result (gradLrho_step Gs Gns F0) [0..<sp_image_size Gs]
          (sp_c3matrix_alloc lib (size_x Gs) (size_y Gs) 1)) (\<lambda>Gm.
      let inverse = sp_c3matrix_ifft lib Gm in
      bind_result (fold_result (\<lambda>i m. if sp_real (pixels S ! i) \<noteq> 0 then write_element i (pixels inverse ! i) m else Inr m)
          [0..<sp_image_size Gs] (sp_c3matrix_alloc lib (size_x Gm) (size_y Gm) 0)) (\<lambda>inner.
      let Gms = sp_c3matrix_fft lib inner;
          Gms = sp_c3matrix_scale sp (pixels Gms) (sp_cinit norm 0);
          DGs' = sp_c3matrix_sub sp Gms (pixels Gs);
          DGns' = sp_c3matrix_sub sp Gms (pixels Gm);
          DGns' = (case w of None \<Rightarrow> DGns'
                   | Some w \<Rightarrow> sp_c3matrix_add sp DGns' (sp_c3matrix_scale sp (pixels Gns) (sp_cinit (1 - w) 0)) 1)
      in Inr (DGs\<lparr>pixels := DGs'\<rparr>, DGns\<lparr>pixels := DGns'\<rparr>))))"

section \<open>The search for the step lengths\<close>

text \<open>The variables of the loop.\<close>

record tau_search =
  s_tau :: vec2
  s_dtau :: vec2
  s_dtaul :: real
  s_taumin :: vec2
  s_dtaulmin :: real
  s_taui :: sp_3matrix
  s_dtaui :: sp_3matrix
  s_H :: sp_3matrix
  s_Hi :: sp_3matrix
  s_Dtau :: vec2
  s_maxstep :: real

text \<open>A pass of the loop goes on, ends it, or ends it with the counter at its limit.\<close>

datatype 's pass = Go_On 's | Good_Enough 's | Stuck 's

text \<open>What does not change during a search.\<close>

record problem =
  p_Gs :: image
  p_Gns :: image
  p_DGs :: image
  p_DGns :: image
  p_F0 :: image

definition problem_gradient :: "problem \<Rightarrow> vec2 \<Rightarrow> vec2 result" where
  "problem_gradient p tau = gradLtau (p_Gs p) (p_Gns p) (p_DGs p) (p_DGns p) (p_F0 p) (Some tau)"

definition problem_hessian ::
  "spimage \<Rightarrow> saddle_lib \<Rightarrow> problem \<Rightarrow> vec2 option \<Rightarrow> sp_3matrix \<Rightarrow> sp_3matrix \<Rightarrow> (sp_3matrix \<times> sp_3matrix) result" where
  "problem_hessian sp lib p tau = hesLtau sp lib (p_Gs p) (p_Gns p) (p_DGs p) (p_DGns p) (p_F0 p) tau"

definition problem_line :: "spimage \<Rightarrow> saddle_lib \<Rightarrow> problem \<Rightarrow> vec2 \<Rightarrow> vec2 \<Rightarrow> sp_3matrix \<Rightarrow> real result" where
  "problem_line sp lib p tau Dtau Hi =
     linminab sp lib (p_Gs p) (p_Gns p) (p_DGs p) (p_DGns p) (p_F0 p) tau Dtau Hi (-1)"

text \<open>The Newton step, with the diagonal forced to descend along one direction and ascend along the other.\<close>

definition newton_step :: "saddle_lib \<Rightarrow> sp_3matrix \<Rightarrow> vec2 \<Rightarrow> vec2" where
  "newton_step lib Hi dtau = sp_3matrix_vector_prod lib (negated lib Hi) dtau"

definition force_signs :: "sp_3matrix \<Rightarrow> sp_3matrix result" where
  "force_signs Hi =
     bind_result (sp_3matrix_get Hi 0 0 0) (\<lambda>a.
     bind_result (sp_3matrix_set Hi 0 0 0 \<bar>a\<bar>) (\<lambda>Hi.
     bind_result (sp_3matrix_get Hi 1 1 0) (\<lambda>b.
     sp_3matrix_set Hi 1 1 0 (- \<bar>b\<bar>))))"

definition newton_pass :: "saddle_lib \<Rightarrow> tau_search \<Rightarrow> tau_search result" where
  "newton_pass lib s =
     bind_result (force_signs (s_Hi s)) (\<lambda>Hi. Inr (s\<lparr>s_Hi := Hi, s_Dtau := newton_step lib Hi (s_dtau s)\<rparr>))"

text \<open>Every twentieth pass fits the history, from the tenth on.\<close>

definition fit_pass :: "(real \<Rightarrow> real) \<Rightarrow> saddle_lib \<Rightarrow> nat \<Rightarrow> tau_search \<Rightarrow> tau_search result" where
  "fit_pass nf lib ii s =
     (if (ii + 11) mod 20 = 0
      then bind_result (Hfit nf lib (s_taui s) (s_dtaui s) (ii + 1) (s_Hi s)) (\<lambda>(tau, dtau, Dtau, Hi).
             Inr (s\<lparr>s_tau := tau, s_dtau := dtau, s_Dtau := Dtau, s_Hi := Hi\<rparr>))
      else Inr s)"

text \<open>
  Every twentieth pass takes the smallest gradient of the history, from the twentieth on; the
  step lengths it belongs to are not restored.
\<close>

definition line_pass :: "spimage \<Rightarrow> saddle_lib \<Rightarrow> problem \<Rightarrow> nat \<Rightarrow> tau_search \<Rightarrow> tau_search result" where
  "line_pass sp lib p ii s =
     (if (ii + 1) mod 20 = 0
      then bind_result (smallest_column (s_dtaui s) ii) (\<lambda>jj.
           bind_result (column (s_dtaui s) jj) (\<lambda>dtau.
           bind_result (problem_hessian sp lib p (Some (s_tau s)) (s_H s) (s_Hi s)) (\<lambda>(H, Hi).
           let Dtau = newton_step lib Hi dtau in
           bind_result (problem_line sp lib p (s_tau s) Dtau Hi) (\<lambda>x.
             Inr (s\<lparr>s_dtau := dtau, s_H := H, s_Hi := Hi, s_Dtau := vector_scale Dtau x, s_maxstep := 1\<rparr>)))))
      else Inr s)"

text \<open>The step, shortened to \<open>maxstep\<close> (a step of length 0 is divided by its length), and the gradient behind it.\<close>

definition limited_step :: "(real \<Rightarrow> real) \<Rightarrow> real \<Rightarrow> vec2 \<Rightarrow> vec2" where
  "limited_step nf maxstep Dtau =
     (if vector_norm Dtau = 0 then (nf (fst Dtau), nf (snd Dtau))
      else vector_scale Dtau (min (vector_norm Dtau) maxstep / vector_norm Dtau))"

definition tau_plus_step :: "(real \<Rightarrow> real) \<Rightarrow> tau_search \<Rightarrow> vec2" where
  "tau_plus_step nf s = vector_add (limited_step nf (s_maxstep s) (s_Dtau s)) (s_tau s)"

text \<open>
  The record of the new gradient passes the gradient where the depth belongs, and 0 as the
  value.
\<close>

definition record_gradient :: "nat \<Rightarrow> vec2 \<Rightarrow> sp_3matrix \<Rightarrow> sp_3matrix result" where
  "record_gradient ii dtau dtaui =
     bind_result (sp_3matrix_set dtaui 0 (int ii + 1) (c_int_of_real (fst dtau)) 0) (\<lambda>dtaui.
     sp_3matrix_set dtaui 1 (int ii + 1) (c_int_of_real (snd dtau)) 0)"

definition accept_step :: "nat \<Rightarrow> vec2 \<Rightarrow> vec2 \<Rightarrow> tau_search \<Rightarrow> tau_search result" where
  "accept_step ii tau' dtau s =
     bind_result (record_gradient ii dtau (s_dtaui s)) (\<lambda>dtaui.
       let dtaul = vector_norm dtau;
           taumin = (if dtaul < s_dtaulmin s then s_tau s else s_taumin s);
           dtaulmin = (if dtaul < s_dtaulmin s then dtaul else s_dtaulmin s)
       in bind_result (set_column (ii + 1) tau' (s_taui s)) (\<lambda>taui.
            Inr (s\<lparr>s_dtau := dtau, s_dtaul := dtaul, s_taumin := taumin, s_dtaulmin := dtaulmin,
              s_tau := tau', s_taui := taui, s_dtaui := dtaui\<rparr>)))"

section \<open>Updates of the second derivatives\<close>

text \<open>How bad the quadratic model is decides on the update.\<close>

definition quadratic_error :: "vec2 \<Rightarrow> vec2 \<Rightarrow> real result" where
  "quadratic_error Hi_y s =
     (let d = dot_prod s s + dot_prod Hi_y Hi_y; e = vector_sub Hi_y s in
      if d = 0 then Inl Abort else Inr (sqrt (dot_prod e e / d)))"

definition real_hessian_update :: "spimage \<Rightarrow> saddle_lib \<Rightarrow> problem \<Rightarrow> tau_search \<Rightarrow> tau_search result" where
  "real_hessian_update sp lib p s =
     bind_result (problem_hessian sp lib p (Some (s_tau s)) (s_H s) (s_Hi s)) (\<lambda>(H, Hi).
       let Dtau = newton_step lib Hi (s_dtau s) in
       bind_result (problem_line sp lib p (s_tau s) Dtau Hi) (\<lambda>x.
         Inr (s\<lparr>s_maxstep := max (s_maxstep s / 4) (1 / 10), s_H := H, s_Hi := sp_3matrix_scale lib Hi x, s_Dtau := Dtau\<rparr>)))"

definition sr1_update :: "saddle_lib \<Rightarrow> vec2 \<Rightarrow> vec2 \<Rightarrow> vec2 \<Rightarrow> tau_search \<Rightarrow> tau_search result" where
  "sr1_update lib Hi_y y step s =
     (let d = vector_scale (vector_sub Hi_y step) (-1);
          q = sqrt (dot_prod y y * dot_prod d d)
      in if q = 0 then Inl Abort
         else let s = s\<lparr>s_maxstep := min (s_maxstep s * 2) 1\<rparr> in
           if \<bar>dot_prod y d\<bar> / q > 1 / 100
           then if dot_prod d y = 0 then Inl Abort
             else Inr (s\<lparr>s_Hi := sp_3matrix_sum lib (s_Hi s)
               (sp_3matrix_scale lib (sp_vector_outer_prod lib d d) (1 / dot_prod d y))\<rparr>)
           else Inr s)"

definition update_model :: "spimage \<Rightarrow> saddle_lib \<Rightarrow> problem \<Rightarrow> vec2 \<Rightarrow> vec2 \<Rightarrow> tau_search \<Rightarrow> tau_search result" where
  "update_model sp lib p y step s =
     (let Hi_y = sp_3matrix_vector_prod lib (s_Hi s) y in
      bind_result (quadratic_error Hi_y step) (\<lambda>erquad.
        if erquad > 1 then real_hessian_update sp lib p s
        else if erquad > 1 / 100 then sr1_update lib Hi_y y step s
        else Inr (s\<lparr>s_maxstep := min (s_maxstep s * 3) 1\<rparr>)))"

definition search_pass :: "spimage \<Rightarrow> saddle_lib \<Rightarrow> problem \<Rightarrow> real \<Rightarrow> real \<Rightarrow> nat \<Rightarrow> tau_search \<Rightarrow> tau_search pass result" where
  "search_pass sp lib p dtaul0 TolY ii s0 =
     (let nf = nonfinite sp in
      bind_result (newton_pass lib s0) (\<lambda>s.
      bind_result (fit_pass nf lib ii s) (\<lambda>s.
      bind_result (line_pass sp lib p ii s) (\<lambda>s.
      let tau' = tau_plus_step nf s;
          step = limited_step nf (s_maxstep s) (s_Dtau s)
      in bind_result (problem_gradient p tau') (\<lambda>dtau.
           if fst dtau - fst (s_dtau s0) = 0 \<and> snd dtau - snd (s_dtau s0) = 0 then Inr (Stuck (s\<lparr>s_dtau := dtau\<rparr>))
           else bind_result (accept_step ii tau' dtau s) (\<lambda>s.
             if fp_div nf (s_dtaul s) dtaul0 < TolY then Inr (Good_Enough s)
             else bind_result (update_model sp lib p (vector_sub dtau (s_dtau s0)) step s) (\<lambda>s. Inr (Go_On s))))))))"

text \<open>\<open>n\<close> passes are left; the result is the counter behind the loop and the variables.\<close>

fun search_loop ::
  "nat \<Rightarrow> spimage \<Rightarrow> saddle_lib \<Rightarrow> problem \<Rightarrow> real \<Rightarrow> real \<Rightarrow> nat \<Rightarrow> tau_search \<Rightarrow> (nat \<times> tau_search) result" where
  "search_loop 0 sp lib p dtaul0 TolY ii s = Inr (ii, s)"
| "search_loop (Suc n) sp lib p dtaul0 TolY ii s =
     bind_result (search_pass sp lib p dtaul0 TolY ii s) (\<lambda>r. case r of
         Go_On s' \<Rightarrow> search_loop n sp lib p dtaul0 TolY (ii + 1) s'
       | Good_Enough s' \<Rightarrow> Inr (ii, s')
       | Stuck s' \<Rightarrow> Inr (ii + Suc n, s'))"

text \<open>The averages over the calls: the number of calls they count stops at five.\<close>

definition average_tau :: "saddle_lib \<Rightarrow> vec2 \<Rightarrow> sp_3matrix \<Rightarrow> tau_static \<Rightarrow> tau_static result" where
  "average_tau lib tau Hi st =
     (if nav st = 0
      then Inr (st\<lparr>tauav := Some tau, Hiav := Some (sp_3matrix_memcpy lib (sp_3matrix_alloc lib 2 2 1) Hi), nav := 1\<rparr>)
      else
        bind_result (deref (tauav st)) (\<lambda>t.
        bind_result (deref (Hiav st)) (\<lambda>H.
          let n = real (nav st); t = vector_scale (vector_add (vector_scale t n) tau) (1 / (n + 1));
              H = sp_3matrix_scale lib (sp_3matrix_sum lib (sp_3matrix_scale lib H n) Hi) (1 / (n + 1))
          in Inr (st\<lparr>tauav := Some t, Hiav := Some H, nav := min (nav st + 1) 5\<rparr>))))"

definition final_tau :: "(real \<Rightarrow> real) \<Rightarrow> real \<Rightarrow> nat \<Rightarrow> nat \<Rightarrow> tau_search \<Rightarrow> vec2" where
  "final_tau nf dtaul0 maxiter ii s =
     (if ii = maxiter
      then if fp_div nf (s_dtaulmin s) dtaul0 > 1 / 2 then (1, 3 / 4) else s_taumin s
      else s_tau s)"

definition start_search ::
  "spimage \<Rightarrow> saddle_lib \<Rightarrow> problem \<Rightarrow> nat \<Rightarrow> sp_3matrix \<Rightarrow> tau_static \<Rightarrow> tau_search result" where
  "start_search sp lib p maxiter Hi st =
     (let tau = (case tauav st of None \<Rightarrow> (1, 3 / 4) | Some t \<Rightarrow> t);
          fresh = sp_3matrix_alloc lib 2 (maxiter + 1) 1; H = sp_3matrix_alloc lib 2 2 1
      in
      bind_result (problem_gradient p tau) (\<lambda>dtau.
      bind_result (set_column 0 tau fresh) (\<lambda>taui.
      bind_result (set_column 0 dtau fresh) (\<lambda>dtaui.
      bind_result (if nav st < 4
            then bind_result (problem_hessian sp lib p None H Hi) (\<lambda>(H, Hi).
                 bind_result (goright (nonfinite sp) lib Hi) (\<lambda>Hi. Inr (H, Hi)))
            else bind_result (deref (Hiav st)) (\<lambda>a. Inr (H, sp_3matrix_memcpy lib Hi a))) (\<lambda>(H, Hi).
        Inr \<lparr>s_tau = tau, s_dtau = dtau, s_dtaul = vector_norm dtau, s_taumin = tau, s_dtaulmin = vector_norm dtau,
             s_taui = taui, s_dtaui = dtaui, s_H = H, s_Hi = Hi, s_Dtau = fresh_vector lib, s_maxstep = 3 / 10\<rparr>)))))"

definition minmaxtau ::
  "spimage \<Rightarrow> saddle_lib \<Rightarrow> problem \<Rightarrow> real \<Rightarrow> nat \<Rightarrow> sp_3matrix \<Rightarrow> tau_static \<Rightarrow> (nat \<times> vec2 \<times> sp_3matrix \<times> tau_static) result" where
  "minmaxtau sp lib p TolY maxiter Hi st =
     (let norm2 = (\<lambda>a. sp_real (sp_c3matrix_froenius_prod sp (pixels a) (pixels a)));
          dtaul0 = vector_norm (norm2 (p_DGs p), norm2 (p_DGns p))
      in
      bind_result (start_search sp lib p maxiter Hi st) (\<lambda>s.
      bind_result (search_loop maxiter sp lib p dtaul0 TolY 0 s) (\<lambda>(ii, s).
      let tau = final_tau (nonfinite sp) dtaul0 maxiter ii s in
      bind_result (average_tau lib tau (s_Hi s) st) (\<lambda>st. Inr (ii, tau, s_Hi s, st)))))"

section \<open>Iterations of the saddle-point search\<close>

definition error_reduction_pass ::
  "spimage \<Rightarrow> saddle_lib \<Rightarrow> image \<Rightarrow> image \<Rightarrow> saddle \<Rightarrow> saddle result" where
  "error_reduction_pass sp lib F0 S d =
     bind_result (gradLrho sp lib (d_Gs d) (duplicate_detector lib (d_Gns d)) S F0 None (d_DGs d) (d_DGns d)) (\<lambda>(DGs, DGns).
       Inr (d\<lparr>d_Gs := sp_image_add sp (d_Gs d) DGs, d_DGs := DGs, d_DGns := DGns\<rparr>))"

definition saddle_pass :: "spimage \<Rightarrow> saddle_lib \<Rightarrow> image \<Rightarrow> image \<Rightarrow> saddle \<Rightarrow> saddle result" where
  "saddle_pass sp lib F0 S d =
     bind_result (gradLrho sp lib (d_Gs d) (d_Gns d) S F0 None (d_DGs d) (d_DGns d)) (\<lambda>(DGs, DGns).
     bind_result (minmaxtau sp lib \<lparr>p_Gs = d_Gs d, p_Gns = d_Gns d, p_DGs = DGs, p_DGns = DGns, p_F0 = F0\<rparr>
         (1 / 100000) 50 (d_Hab d) (d_static d)) (\<lambda>(ii, tau, Hab, st).
       let DGs = sp_image_scale sp DGs (fst tau); DGns = sp_image_scale sp DGns (snd tau)
       in Inr \<lparr>d_Gs = sp_image_add sp (d_Gs d) DGs, d_Gns = sp_image_add sp (d_Gns d) DGns, d_DGs = DGs, d_DGns = DGns,
               d_Hab = Hab, d_static = st\<rparr>))"

definition minmaxL ::
  "spimage \<Rightarrow> saddle_lib \<Rightarrow> image \<Rightarrow> image \<Rightarrow> nat \<Rightarrow> int \<Rightarrow> saddle \<Rightarrow> saddle result" where
  "minmaxL sp lib F0 S niter method d =
     (if method \<noteq> 1 \<and> method \<noteq> -3 then Inr d
      else fold_result (\<lambda>_. if method = -3 then error_reduction_pass sp lib F0 S else saddle_pass sp lib F0 S) [0..<niter] d)"

text \<open>The state of the first iteration: the density it is given, inside and outside the support.\<close>

definition inner_density :: "image \<Rightarrow> image \<Rightarrow> image \<Rightarrow> image result" where
  "inner_density support real_in g = fold_result
     (\<lambda>i g. write_element i (if sp_real (pixels support ! i) \<noteq> 0 then pixels real_in ! i else sp_cinit 0 0) g)
     [0..<sp_image_size real_in] g"

definition outer_density :: "image \<Rightarrow> image \<Rightarrow> image \<Rightarrow> image result" where
  "outer_density support real_in g = fold_result
     (\<lambda>i g. write_element i (if sp_real (pixels support ! i) \<noteq> 0 then sp_cinit 0 0 else pixels real_in ! i) g)
     [0..<sp_image_size real_in] g"

definition first_saddle :: "spimage \<Rightarrow> saddle_lib \<Rightarrow> image \<Rightarrow> image \<Rightarrow> tau_static \<Rightarrow> saddle result" where
  "first_saddle sp lib real_in support st =
     (let blank = duplicate_detector lib real_in in
      bind_result (inner_density support real_in blank) (\<lambda>gs.
      bind_result (outer_density support real_in blank) (\<lambda>gns.
        Inr \<lparr>d_Gs = sp_image_fft sp gs, d_Gns = sp_image_fft sp gns, d_DGs = blank, d_DGns = blank,
             d_Hab = sp_3matrix_alloc lib 2 2 2, d_static = st\<rparr>)))"

text \<open>
  The iteration.  The image it is given is used at the first call only, and for the log.
\<close>

definition basic_so2d_iteration ::
  "spimage \<Rightarrow> saddle_lib \<Rightarrow> real \<Rightarrow> image \<Rightarrow> image \<Rightarrow> image \<Rightarrow> hawk \<Rightarrow> (image \<times> hawk) result" where
  "basic_so2d_iteration sp lib speed exp_amp real_in support st =
     bind_result (case so2d_static st of None \<Rightarrow> first_saddle sp lib real_in support tau_start | Some d \<Rightarrow> Inr d) (\<lambda>d.
       let fft_in = sp_image_add sp (duplicate_data lib (d_Gs d)) (d_Gns d) in
       bind_result (minmaxL sp lib exp_amp support 1 1 d) (\<lambda>d.
         let Gs = sp_image_add sp (d_Gs d) (d_Gns d);
             real_out = sp_image_ifft sp Gs;
             real_out = sp_image_scale sp real_out (1 / real (sp_image_size real_out));
             d = d\<lparr>d_Gs := sp_image_sub sp Gs (d_Gns d)\<rparr>
         in finish sp speed exp_amp real_in real_out fft_in support (st\<lparr>so2d_static := Some d\<rparr>)))"

end
