(* ===== verification/Support.thy ===== *)
theory Support
  imports Log "HOL-Library.Multiset"
begin

text \<open>
  The determination of the support (\<open>src/support.c\<close>): the level of the threshold, chosen by
  one of the support update algorithms from the sorted moduli of the blurred image, the
  images that the threshold gives, the first support from the autocorrelation, and the filter of the
  measured intensities.  Writing the intermediate images to files is left out.  The
  interface \<open>descending_order\<close> states what the code relies on after a \<open>qsort\<close>, and
  from it follows how many pixels a support of a given area has.
\<close>

section \<open>Sorting pixels\<close>

text \<open>
  \<open>qsort\<close> with the two comparison functions: descending by the real part, and descending
  by the modulus.  (\<open>qsort\<close> may order pixels that compare equal in any way; the model keeps their
  order.  Only the moduli are read after a sort by moduli.)
\<close>

definition descend_real_compare :: "complex \<Rightarrow> complex \<Rightarrow> int" where
  "descend_real_compare a b =
    (if sp_real a < sp_real b then 1 else if sp_real a = sp_real b then 0 else -1)"

definition descend_complex_compare :: "complex \<Rightarrow> complex \<Rightarrow> int" where
  "descend_complex_compare a b =
    (if sp_cabs a < sp_cabs b then 1 else if sp_cabs a = sp_cabs b then 0 else -1)"

fun insert_by :: "('a \<Rightarrow> 'a \<Rightarrow> int) \<Rightarrow> 'a \<Rightarrow> 'a list \<Rightarrow> 'a list" where
  "insert_by cmp x [] = [x]"
| "insert_by cmp x (y # ys) = (if cmp x y \<le> 0 then x # y # ys else y # insert_by cmp x ys)"

definition qsort :: "('a \<Rightarrow> 'a \<Rightarrow> int) \<Rightarrow> 'a list \<Rightarrow> 'a list" where
  "qsort cmp xs = foldr (insert_by cmp) xs []"

text \<open>\<open>data[(int)(size * fraction)]\<close> of the sorted pixels, with its bound.\<close>

definition sorted_at :: "(complex \<Rightarrow> complex \<Rightarrow> int) \<Rightarrow> image \<Rightarrow> real \<Rightarrow> complex result" where
  "sorted_at cmp a fraction =
     array_get (qsort cmp (pixels a)) (c_int_of_real (real (sp_image_size a) * fraction))"

text \<open>The level that leaves that fraction of the pixels, relative to the greatest modulus.\<close>

definition area_level ::
  "(real \<Rightarrow> real) \<Rightarrow> (complex \<Rightarrow> complex \<Rightarrow> int) \<Rightarrow> image \<Rightarrow> real \<Rightarrow> real result" where
  "area_level nf cmp a fraction =
    bind_result (sorted_at cmp a fraction) (\<lambda>z.
    bind_result (array_get (qsort cmp (pixels a)) 0) (\<lambda>z0.
      Inr (fp_div nf (sp_cabs z) (sp_cabs z0))))"

section \<open>Images from a threshold\<close>

definition max_cabs :: "image \<Rightarrow> real" where
  "max_cabs a = running_max (sp_image_size a) (\<lambda>i. sp_cabs (pixels a ! i)) 0"

definition threshold_image :: "real \<Rightarrow> image \<Rightarrow> image" where
  "threshold_image limit a = on_pixels (sp_image_size a)
     (\<lambda>_ z. if sp_cabs z < limit then sp_cinit 0 0 else sp_cinit 1 0) a"

text \<open>The fixed mask is added, and every pixel that is not zero becomes one.\<close>

definition with_support_mask :: "spimage \<Rightarrow> options \<Rightarrow> image \<Rightarrow> image" where
  "with_support_mask sp opt a =
    (let a1 = (case oimage opt P_support_mask of None \<Rightarrow> a | Some m \<Rightarrow> sp_image_add sp a m)
     in on_pixels (sp_image_size a1) (\<lambda>_ z. if sp_cabs z \<noteq> 0 then sp_cinit 1 0 else z) a1)"

text \<open>The blurred moduli that both the level and the threshold are taken from.\<close>

definition blurred_for_support :: "spimage \<Rightarrow> image \<Rightarrow> real \<Rightarrow> int \<Rightarrow> image" where
  "blurred_for_support sp input radius algorithm =
    (let t = (if algorithm \<noteq> COMPLEX_DECREASING_AREA then sp_image_dephase sp input else input)
     in sp_gaussian_blur sp t radius)"

definition get_updated_support :: "spimage \<Rightarrow> image \<Rightarrow> real \<Rightarrow> real \<Rightarrow> options \<Rightarrow> image" where
  "get_updated_support sp input level radius opt =
    (let res = blurred_for_support sp input radius (oint opt I_support_update_algorithm);
         res = sp_image_dephase sp res;
         max_int = max_cabs res;
         res = threshold_image (max_int * level) res
     in with_support_mask sp opt res)"

text \<open>
  A support of the template's shape, grown or shrunk to the template area; the mask of the
  image marks it too.  (The object area is the fraction the code takes.)
\<close>

definition get_support_from_initial_support :: "spimage \<Rightarrow> options \<Rightarrow> image result" where
  "get_support_from_initial_support sp opt =
    bind_result (deref (oimage opt P_init_support)) (\<lambda>init.
      let n = sp_image_size init;
          initial = on_pixels n
            (\<lambda>_ z. if sp_real z \<noteq> 0 \<or> sp_imag z \<noteq> 0 then sp_cinit 1 0 else z) init;
          blured = sp_gaussian_blur sp initial (oreal opt R_template_blur_radius);
          initial = sp_image_image_to_image sp blured initial
      in bind_result (get_object_area (nonfinite sp) opt) (\<lambda>area.
         bind_result (area_level (nonfinite sp) descend_real_compare blured area) (\<lambda>level.
           let inside_mask = for_pixels n
                 (\<lambda>i _. if sp_real (pixels initial ! i) > level then 1 else 0) (mask_data initial);
               initial = on_pixels n
                 (\<lambda>_ z. if sp_real z > level then sp_cinit 1 0 else sp_cinit 0 0) initial
           in Inr (with_support_mask sp opt (initial\<lparr>mask_data := inside_mask\<rparr>)))))"

text \<open>
  A support by level and by local contrast: a pixel three standard deviations above the average of
  its neighbourhood belongs to it as well.
\<close>

definition get_filtered_support :: "spimage \<Rightarrow> image \<Rightarrow> real \<Rightarrow> real \<Rightarrow> options \<Rightarrow> image" where
  "get_filtered_support sp input level radius opt =
    (let res = sp_gaussian_blur sp input radius;
         running_average = sp_square_blur sp res radius (if size_z res = 1 then 2 else 3);
         absolute_error = on_pixels (sp_image_size input)
           (\<lambda>i _. sp_cinit ((sp_cabs (pixels res ! i) - sp_cabs (pixels running_average ! i)) *
              (sp_cabs (pixels res ! i) - sp_cabs (pixels running_average ! i))) 0) input;
         variance = sp_square_blur sp absolute_error radius (if size_z absolute_error = 1 then 2 else 3);
         res = sp_image_dephase sp res;
         max_int = max_cabs res;
         res = on_pixels (sp_image_size res)
           (\<lambda>i z. if sp_cabs z > max_int * level then sp_cinit 1 0
              else if sp_cabs z > sp_cabs (pixels running_average ! i) + 3 * sqrt (sp_cabs (pixels variance ! i))
              then sp_cinit 1 0 else sp_cinit 0 0) res
     in with_support_mask sp opt res)"

section \<open>The level of the threshold\<close>

text \<open>
  \<open>get_support_level\<close>, one definition for the algorithm that adapts the size of the support to
  the real-space error and one for the dispatch.  \<open>previous_size\<close> is passed by reference: a
  negative value stands for a level, whose size is looked up first.  The result lists the level, the
  new \<open>previous_size\<close> and the state, in which \<open>stepped_flag\<close> is the \<open>static\<close>
  variable of the stepped algorithm.
\<close>

fun first_below :: "real \<Rightarrow> complex list \<Rightarrow> nat" where
  "first_below limit [] = 0"
| "first_below limit (z # zs) = (if sp_cabs z < limit then 0 else Suc (first_below limit zs))"

definition adaptive_level ::
  "spimage \<Rightarrow> image \<Rightarrow> real \<Rightarrow> real \<Rightarrow> hawk \<Rightarrow> (real \<times> real \<times> hawk) result" where
  "adaptive_level sp input previous_size radius st =
    (let t0 = oreal (opts st) R_real_error_threshold;
         (alg, opt') = get_algorithm (opts st) (lg st);
         st' = (if t0 < 0 then st\<lparr>opts := opt'\<rparr> else st)
     in bind_result (if t0 < 0 then
            (if alg = HIO then Inr (55 / 100) else if alg = RAAR then Inr (20 / 100) else Inl Abort)
          else Inr t0) (\<lambda>threshold.
        let reduction = 1 - (threshold - Ereal (lg st)) / 10;
            res = sp_image_dephase sp (sp_gaussian_blur sp input radius);
            max_int = max_cabs res;
            sorted_pixels = qsort descend_complex_compare (pixels res);
            size0 = (if previous_size < 0 then real (first_below (- previous_size) sorted_pixels)
                     else previous_size);
            new_size = c_int_of_real (size0 * reduction)
        in bind_result (array_get sorted_pixels new_size) (\<lambda>z.
             Inr (fp_div (nonfinite sp) (sp_cabs z) max_int, real_of_int new_size, st'))))"

definition get_support_level ::
  "spimage \<Rightarrow> image \<Rightarrow> real \<Rightarrow> real \<Rightarrow> hawk \<Rightarrow> (real \<times> real \<times> hawk) result" where
  "get_support_level sp input previous_size radius st =
    (let opt = opts st; alg = oint opt I_support_update_algorithm; level = oreal opt R_new_level in
     if alg = FIXED then Inr (level, previous_size, st)
     else if alg = STEPPED then
       (let st' = (if oint opt I_cur_iteration > 40 \<and> Ereal (lg st) > 3 / 10
                   then st\<lparr>stepped_flag := True\<rparr> else st)
        in Inr (if stepped_flag st' then level * (75 / 100) else level, previous_size, st'))
     else if alg = REAL_ERROR_CAPPED then
       Inr (if Ereal (lg st) < oreal opt R_real_error_threshold then level else -1, previous_size, st)
     else if alg = REAL_ERROR_ADAPTATIVE then adaptive_level sp input previous_size radius st
     else if alg = CONSTANT_AREA then
       bind_result (area_level (nonfinite sp) descend_complex_compare
           (sp_gaussian_blur sp (sp_image_dephase sp input) radius) (oreal opt R_object_area)) (\<lambda>l.
         Inr (l, previous_size, st))
     else if alg = DECREASING_AREA \<or> alg = COMPLEX_DECREASING_AREA then
       bind_result (get_object_area (nonfinite sp) opt) (\<lambda>area.
       bind_result (area_level (nonfinite sp) descend_complex_compare
           (blurred_for_support sp input radius alg) area) (\<lambda>l.
         Inr (l, previous_size, st)))
     else Inl (Fatal ''Unkown algorithm!''))"

section \<open>The first support\<close>

definition get_patterson_level :: "spimage \<Rightarrow> image \<Rightarrow> real \<Rightarrow> options \<Rightarrow> real result" where
  "get_patterson_level sp input radius opt =
    (if oint opt I_patterson_level_algorithm = FIXED then Inr (oreal opt R_init_level)
     else if oint opt I_patterson_level_algorithm = CONSTANT_AREA then
       (let res = (if radius \<noteq> 0 then sp_gaussian_blur sp input radius else input);
            res = sp_image_dephase sp res
        in area_level (nonfinite sp) descend_complex_compare res (oreal opt R_object_area))
     else Inl (Fatal ''Unkown algorithm!''))"

definition centre_coordinate :: "nat \<Rightarrow> real" where
  "centre_coordinate n = real_of_int ((int n - 1) sdiv 2)"

definition centred :: "image \<Rightarrow> image" where
  "centred a = a\<lparr>image_center := [centre_coordinate (size_x a), centre_coordinate (size_y a),
     centre_coordinate (size_z a)]\<rparr>"

text \<open>The oversampling mask: nothing further than a quarter of the width from the centre.\<close>

definition square_masked :: "spimage \<Rightarrow> options \<Rightarrow> image \<Rightarrow> image" where
  "square_masked sp opt a =
    (if oreal opt R_square_mask \<noteq> 0
     then on_pixels (sp_image_size a)
       (\<lambda>i z. if sp_image_dist sp a i > real_of_int (int (size_x a) sdiv 4) then sp_cinit 0 0 else z) a
     else a)"

definition binarized :: "image \<Rightarrow> image" where
  "binarized a = on_pixels (sp_image_size a)
     (\<lambda>_ z. if sp_cabs z > 1 / 1000000 then sp_cinit 1 0 else sp_cinit 0 0) a"

definition get_support_from_patterson :: "spimage \<Rightarrow> image \<Rightarrow> options \<Rightarrow> image result" where
  "get_support_from_patterson sp input opt =
    (let patterson = sp_image_dephase sp (sp_image_fft sp (sp_image_to_intensities sp input));
         blur = oreal opt R_patterson_blur_radius
     in bind_result (get_patterson_level sp patterson blur opt) (\<lambda>level.
        let patterson = (if blur \<noteq> 0 then sp_gaussian_blur sp patterson blur else patterson);
            patterson = threshold_image (max_cabs patterson * level) patterson;
            patterson = centred patterson
        in Inr (binarized (square_masked sp opt patterson))))"

section \<open>The filter of the intensities\<close>

text \<open>
  The autocorrelation of the pattern is multiplied by the blurred autocorrelation of the support.
  The amplitudes change in place; a zero among the new ones aborts the
  program (\<open>isnormal\<close> is false for 0).
\<close>

definition filtered_amplitude :: "spimage \<Rightarrow> nat \<Rightarrow> complex \<Rightarrow> real" where
  "filtered_amplitude sp n z = sqrt (sp_cabs z / real n)"

definition filtered_intensities ::
  "spimage \<Rightarrow> image \<Rightarrow> image \<Rightarrow> image \<Rightarrow> image \<Rightarrow> image" where
  "filtered_intensities sp amplitudes real_space_guess support diffraction =
    (let n = sp_image_size amplitudes;
         pattern_guess = sp_image_fft sp real_space_guess;
         intensities = sp_image_to_intensities sp diffraction;
         intensities = on_pixels n
           (\<lambda>i z. if mask_data amplitudes ! i = 0
              then sp_cinit ((sp_cabs (pixels pattern_guess ! i))\<^sup>2) (sp_imag z) else z) intensities;
         support_ac = sp_image_cross_correlate sp support support;
         support_ac = on_pixels n
           (\<lambda>_ z. if sp_real z < 1 then sp_cinit 0 0 else sp_cinit 1 0) support_ac;
         support_ac = sp_gaussian_blur sp support_ac 3;
         ac = sp_image_mul_elements sp (sp_image_fft sp intensities) support_ac
     in sp_image_ifft sp ac)"

definition filter_intensities_with_support ::
  "spimage \<Rightarrow> image \<Rightarrow> image \<Rightarrow> image \<Rightarrow> options \<Rightarrow> image result" where
  "filter_intensities_with_support sp amplitudes real_space_guess support opt =
    bind_result (deref (oimage opt P_diffraction)) (\<lambda>diffraction.
      let n = sp_image_size amplitudes;
          filtered = filtered_intensities sp amplitudes real_space_guess support diffraction
      in if \<exists>i<n. filtered_amplitude sp n (pixels filtered ! i) = 0 then Inl Abort
         else Inr (on_pixels n
           (\<lambda>i z. sp_cinit (filtered_amplitude sp n (pixels filtered ! i)) (sp_imag z)) amplitudes))"

section \<open>What the code relies on after a sort\<close>

lemma mset_insert_by [simp]: "mset (insert_by cmp x ys) = add_mset x (mset ys)"
  by (induction ys) auto

lemma mset_qsort [simp]: "mset (qsort cmp xs) = mset xs"
  by (induction xs) (simp_all add: qsort_def)

lemma length_qsort [simp]: "length (qsort cmp xs) = length xs"
  by (metis mset_qsort size_mset)

lemma set_qsort [simp]: "set (qsort cmp xs) = set xs"
  by (metis mset_qsort set_mset_mset)

lemma count_pixels: "card {i. i < length xs \<and> P (xs ! i)} = length (filter P (qsort cmp xs))"
  by (metis length_filter_conv_card mset_filter mset_qsort size_mset)

text \<open>A comparison function that orders by a key, greatest first.\<close>

locale descending_order =
  fixes cmp :: "'a \<Rightarrow> 'a \<Rightarrow> int" and key :: "'a \<Rightarrow> real"
  assumes compares: "cmp x y \<le> 0 \<longleftrightarrow> key y \<le> key x"
begin

abbreviation descending :: "'a list \<Rightarrow> bool" where
  "descending \<equiv> sorted_wrt (\<lambda>x y. key y \<le> key x)"

lemma descending_insert_by: "descending ys \<Longrightarrow> descending (insert_by cmp x ys)"
proof (induction ys)
  case (Cons y ys)
  have "set (insert_by cmp x ys) = insert x (set ys)" for x ys
    by (induction ys) auto
  with Cons show ?case by (auto simp: compares intro: order_trans)
qed simp

lemma descending_qsort: "descending (qsort cmp xs)"
  by (induction xs) (simp_all add: qsort_def descending_insert_by)

lemma greatest_first: "x \<in> set xs \<Longrightarrow> key x \<le> key (qsort cmp xs ! 0)"
  using descending_qsort [of xs]
  by (cases "qsort cmp xs") (auto simp flip: set_qsort [of cmp xs])

lemma at_least:
  assumes "k < length xs"
  shows "Suc k \<le> card {i. i < length xs \<and> key (qsort cmp xs ! k) \<le> key (xs ! i)}"
proof -
  let ?ys = "qsort cmp xs" and ?P = "\<lambda>x. key (qsort cmp xs ! k) \<le> key x"
  have "?P (?ys ! i)" if "i \<le> k" for i
    using sorted_wrt_nth_less [OF descending_qsort, of i k xs] that assms by (cases "i = k") simp_all
  then have "filter ?P (take (Suc k) ?ys) = take (Suc k) ?ys"
    using assms by (auto simp: filter_id_conv in_set_conv_nth)
  then have "Suc k \<le> length (filter ?P (take (Suc k) ?ys @ drop (Suc k) ?ys))"
    using assms by (simp del: append_take_drop_id)
  then show ?thesis using count_pixels [of xs ?P cmp] by simp
qed

lemma at_most:
  assumes "k < length xs"
  shows "card {i. i < length xs \<and> key (qsort cmp xs ! k) < key (xs ! i)} \<le> k"
proof -
  let ?ys = "qsort cmp xs" and ?P = "\<lambda>x. key (qsort cmp xs ! k) < key x"
  have "\<not> ?P (?ys ! i)" if "k \<le> i" "i < length xs" for i
    using sorted_wrt_nth_less [OF descending_qsort, of k i xs] that by (cases "i = k") simp_all
  then have "filter ?P (drop k ?ys) = []"
    using assms by (auto simp: filter_empty_conv in_set_conv_nth)
  then have "length (filter ?P (take k ?ys @ drop k ?ys)) \<le> k"
    by (simp only: filter_append) (simp add: length_filter_le [THEN order_trans])
  then show ?thesis using count_pixels [of xs ?P cmp] by simp
qed

end

interpretation by_modulus: descending_order descend_complex_compare sp_cabs
  by unfold_locales (auto simp: descend_complex_compare_def)

interpretation by_real_part: descending_order descend_real_compare sp_real
  by unfold_locales (auto simp: descend_real_compare_def)

section \<open>The area of a support\<close>

lemma max_cabs_greatest: "i < length (pixels a) \<Longrightarrow> sp_cabs (pixels a ! i) \<le> max_cabs a"
  using running_max_ge [of i "length (pixels a)" "\<lambda>i. sp_cabs (pixels a ! i)" 0]
  by (simp add: max_cabs_def sp_image_size_def)

lemma max_cabs_nonneg: "0 \<le> max_cabs a"
  by (simp add: max_cabs_def running_max_ge_start)

lemma max_cabs_is_first:
  assumes "pixels a \<noteq> []"
  shows "max_cabs a = sp_cabs (qsort descend_complex_compare (pixels a) ! 0)"
proof -
  have first: "qsort descend_complex_compare (pixels a) ! 0 \<in> set (pixels a)"
    using assms by (metis length_greater_0_conv length_qsort nth_mem set_qsort)
  then obtain j where "j < length (pixels a)" "pixels a ! j = qsort descend_complex_compare (pixels a) ! 0"
    by (auto simp: in_set_conv_nth)
  then have "sp_cabs (qsort descend_complex_compare (pixels a) ! 0) \<le> max_cabs a"
    using max_cabs_greatest [of j a] by simp
  moreover have "max_cabs a \<le> sp_cabs (qsort descend_complex_compare (pixels a) ! 0)"
    unfolding max_cabs_def
    using running_max_attained [of "sp_image_size a" "\<lambda>i. sp_cabs (pixels a ! i)" 0]
      by_modulus.greatest_first [of _ "pixels a"]
    by (auto simp: sp_image_size_def)
  ultimately show ?thesis by simp
qed

text \<open>Taking moduli changes none of them.\<close>

lemma dephased:
  assumes "dephase_pointwise sp"
  shows "length (pixels (sp_image_dephase sp a)) = length (pixels a)"
    and "i < length (pixels a) \<Longrightarrow> sp_cabs (pixels (sp_image_dephase sp a) ! i) = sp_cabs (pixels a ! i)"
    and "max_cabs (sp_image_dephase sp a) = max_cabs a"
proof -
  show len: "length (pixels (sp_image_dephase sp a)) = length (pixels a)"
    and nth: "i < length (pixels a) \<Longrightarrow> sp_cabs (pixels (sp_image_dephase sp a) ! i) = sp_cabs (pixels a ! i)" for i
    using assms by (simp_all add: dephase_pointwise_def cmod_def)
  show "max_cabs (sp_image_dephase sp a) = max_cabs a"
    unfolding max_cabs_def running_max_def for_acc_def
    by (rule fold_cong) (auto simp: sp_image_size_def len nth)
qed

lemma binary_threshold:
  "i < length (pixels a) \<Longrightarrow> pixels (threshold_image l a) ! i = (if sp_cabs (pixels a ! i) < l then 0 else 1)"
  by (simp add: threshold_image_def loop_simps sp_image_size_def complex_eq_iff)

lemma length_threshold [simp]: "length (pixels (threshold_image l a)) = length (pixels a)"
  by (simp add: threshold_image_def)

lemma updated_support_without_mask:
  assumes "oimage opt P_support_mask = None"
  shows "length (pixels (get_updated_support sp input level radius opt)) =
      length (pixels (sp_image_dephase sp (blurred_for_support sp input radius (oint opt I_support_update_algorithm))))"
    and "i < length (pixels (get_updated_support sp input level radius opt)) \<Longrightarrow>
      pixels (get_updated_support sp input level radius opt) ! i =
       (let res = sp_image_dephase sp (blurred_for_support sp input radius (oint opt I_support_update_algorithm))
        in if sp_cabs (pixels res ! i) < max_cabs res * level then 0 else 1)"
  using assms
  by (simp_all add: get_updated_support_def with_support_mask_def Let_def loop_simps binary_threshold
      sp_image_size_def complex_eq_iff)

lemma sorted_at_Inr:
  assumes "sorted_at cmp a f = Inr z"
  obtains "0 \<le> c_int_of_real (real (length (pixels a)) * f)"
    and "nat (c_int_of_real (real (length (pixels a)) * f)) < length (pixels a)"
    and "z = qsort cmp (pixels a) ! nat (c_int_of_real (real (length (pixels a)) * f))"
  using assms by (auto simp: sorted_at_def array_get_Inr_iff sp_image_size_def)

text \<open>The threshold an area level stands for is one of the moduli.\<close>

lemma area_level_threshold:
  assumes "area_level nf descend_complex_compare a f = Inr level"
    and "\<exists>z \<in> set (pixels a). z \<noteq> 0"
  defines "k \<equiv> nat (c_int_of_real (real (length (pixels a)) * f))"
  shows "k < length (pixels a)"
    and "max_cabs a * level = sp_cabs (qsort descend_complex_compare (pixels a) ! k)"
proof -
  let ?s = "qsort descend_complex_compare (pixels a)"
  from assms(1) obtain z where z: "sorted_at descend_complex_compare a f = Inr z"
    and level: "level = fp_div nf (sp_cabs z) (sp_cabs (?s ! 0))"
    by (auto simp: area_level_def array_get_Inr_iff)
  from z have k: "k < length (pixels a)" "z = ?s ! k"
    by (auto simp: k_def elim: sorted_at_Inr)
  then show "k < length (pixels a)" by simp
  obtain y where "y \<in> set (pixels a)" "y \<noteq> 0" using assms(2) by blast
  then have "0 < sp_cabs (?s ! 0)"
    using by_modulus.greatest_first [of y "pixels a"] by (metis order_less_le_trans zero_less_norm_iff)
  then show "max_cabs a * level = sp_cabs (?s ! k)"
    using max_cabs_is_first [of a] \<open>y \<in> set (pixels a)\<close> k level
    by (cases "pixels a = []") (auto simp: field_simps)
qed

text \<open>
  Property C29 (functional): without a support mask, the support of the area algorithms has the
  area it is asked for.  (The pixels of a mask are added to the support and are not counted.)  With
  \<open>k\<close> the truncated product of the number of pixels and the area, the support is the set of
  the pixels at least as great as some value \<open>t\<close>; it has at least \<open>k + 1\<close> pixels, at most
  \<open>k\<close> are greater than \<open>t\<close>, and when the moduli of the blurred image are pairwise
  different it has exactly \<open>k + 1\<close>.
\<close>

theorem support_has_the_area:
  assumes "get_support_level sp input previous radius st = Inr (level, previous', st')"
    and "oint (opts st) I_support_update_algorithm = alg"
    and "alg = CONSTANT_AREA \<and> area = oreal (opts st) R_object_area \<or>
      alg \<in> {DECREASING_AREA, COMPLEX_DECREASING_AREA} \<and> get_object_area (nonfinite sp) (opts st) = Inr area"
    and "dephase_pointwise sp" and "oimage (opts st) P_support_mask = None"
    and "\<exists>z \<in> set (pixels (blurred_for_support sp input radius alg)). z \<noteq> 0"
  defines "blurred \<equiv> blurred_for_support sp input radius alg"
    and "support \<equiv> get_updated_support sp input level radius (opts st)"
  defines "n \<equiv> length (pixels blurred)" and "m \<equiv> \<lambda>i. sp_cabs (pixels blurred ! i)"
  defines "k \<equiv> nat (c_int_of_real (real n * area))"
  shows "length (pixels support) = n \<and>
    (\<exists>t. (\<forall>i<n. pixels support ! i = (if t \<le> m i then 1 else 0))
      \<and> Suc k \<le> card {i. i < n \<and> t \<le> m i} \<and> card {i. i < n \<and> t < m i} \<le> k
      \<and> (inj_on m {..<n} \<longrightarrow> card {i. i < n \<and> t \<le> m i} = Suc k))"
proof -
  have level: "area_level (nonfinite sp) descend_complex_compare blurred area = Inr level"
    using assms(1-3)
    by (auto simp: get_support_level_def Let_def blurred_def blurred_for_support_def)
  note t = area_level_threshold [OF level assms(6) [folded blurred_def], folded n_def, folded k_def]
  let ?t = "sp_cabs (qsort descend_complex_compare (pixels blurred) ! k)"
  note same = dephased(1,3) [OF assms(4), of blurred] dephased(2) [OF assms(4), of _ blurred]
  have len: "length (pixels support) = n"
    using updated_support_without_mask(1) [OF assms(5), of sp input level radius] same assms(2)
    by (simp add: support_def blurred_def n_def)
  have pix: "pixels support ! i = (if ?t \<le> m i then 1 else 0)" if "i < n" for i
    using updated_support_without_mask(2) [OF assms(5), of i sp input level radius] same assms(2) t len that
    by (simp add: support_def m_def n_def blurred_def Let_def not_le [symmetric])
  have lower: "Suc k \<le> card {i. i < n \<and> ?t \<le> m i}" and upper: "card {i. i < n \<and> ?t < m i} \<le> k"
    using by_modulus.at_least [of k "pixels blurred"] by_modulus.at_most [of k "pixels blurred"] t
    by (simp_all add: n_def m_def)
  have exact: "card {i. i < n \<and> ?t \<le> m i} = Suc k" if inj: "inj_on m {..<n}"
  proof -
    have split: "{i. i < n \<and> ?t \<le> m i} = {i. i < n \<and> ?t < m i} \<union> {i. i < n \<and> m i = ?t}" by auto
    have "card {i. i < n \<and> m i = ?t} \<le> card {?t}"
      using inj by (intro card_inj_on_le [of m]) (auto simp: inj_on_def)
    then have "card {i. i < n \<and> ?t \<le> m i} \<le> k + 1"
      unfolding split using card_Un_le [of "{i. i < n \<and> ?t < m i}" "{i. i < n \<and> m i = ?t}"] upper by simp
    with lower show ?thesis by simp
  qed
  show ?thesis using len pix lower upper exact by blast
qed

text \<open>A state with the constant-area algorithm.\<close>

definition area_hawk :: "real \<Rightarrow> hawk" where
  "area_hawk area = (example_hawk 5)\<lparr>opts := (set_int I_support_update_algorithm CONSTANT_AREA
     (opts (example_hawk 5)))\<lparr>oreal := (\<lambda>_. 0)(R_object_area := area)\<rparr>\<rparr>"

theorem support_has_the_area_witness:
  "\<exists>level st'. get_support_level example_library (image_of [1, 3]) 0 1 (area_hawk 0) = Inr (level, 0, st') \<and>
     length (pixels (get_updated_support example_library (image_of [1, 3]) level 1 (opts (area_hawk 0)))) = 2"
proof -
  obtain level st' where run:
    "get_support_level example_library (image_of [1, 3]) 0 1 (area_hawk 0) = Inr (level, 0, st')"
    by (simp add: get_support_level_def area_hawk_def example_hawk_def image_of_def area_level_def
        sorted_at_def qsort_def descend_complex_compare_def array_get_def set_int_def Let_def)
  then show ?thesis
    using support_has_the_area [OF run, of CONSTANT_AREA 0] example_library_laws
    by (auto simp: area_hawk_def example_hawk_def example_options_def set_int_def image_of_def
        blurred_for_support_def Complex_eq_0)
qed

text \<open>
  An area of 1, the whole image, is not usable: the index it gives is one past the
  last pixel, for an image of any size.
\<close>

lemma full_area_is_out_of_bounds:
  assumes "oint (opts st) I_support_update_algorithm = CONSTANT_AREA" and "oreal (opts st) R_object_area = 1"
  shows "get_support_level sp input previous radius st = Inl Out_Of_Bounds"
proof -
  have "c_int_of_real (real n * 1) = int n" for n :: nat
    using c_int_of_real_of_int [of "int n"] by simp
  then show ?thesis
    using assms
    by (simp add: get_support_level_def area_level_def sorted_at_def array_get_def sp_image_size_def)
qed

theorem full_area_is_out_of_bounds_witness:
  "get_support_level example_library (image_of [1, 3]) 0 1 (area_hawk 1) = Inl Out_Of_Bounds"
  by (rule full_area_is_out_of_bounds) (simp_all add: area_hawk_def set_int_def)

text \<open>Images of zeros and ones.\<close>

definition binary_image :: "image \<Rightarrow> bool" where
  "binary_image a \<longleftrightarrow> (\<forall>z \<in> set (pixels a). z = 0 \<or> z = 1)"

lemma binary_on_pixels:
  assumes "\<And>i z. f i z = 0 \<or> f i z = 1"
  shows "binary_image (on_pixels (sp_image_size a) f a)"
proof -
  have "pixels (on_pixels (sp_image_size a) f a) ! i = f i (pixels a ! i)" if "i < length (pixels a)" for i
    using that by (simp add: loop_simps sp_image_size_def)
  with assms show ?thesis unfolding binary_image_def by (metis in_set_conv_nth on_pixels_simps(1))
qed

lemma binary_with_support_mask: "binary_image (with_support_mask sp opt a)"
  unfolding with_support_mask_def Let_def by (rule binary_on_pixels) (auto simp: complex_zero_one)

text \<open>
  Property C30 (invariant): every support is binary: whatever the level, the mask and the library do,
  each pixel of the images these four functions return is 0 or 1.
\<close>

theorem supports_are_binary:
  "binary_image (get_updated_support sp input level radius opt) \<and>
   binary_image (get_filtered_support sp input level radius opt) \<and>
   (\<forall>s. get_support_from_initial_support sp opt = Inr s \<longrightarrow> binary_image s) \<and>
   (\<forall>s. get_support_from_patterson sp input opt = Inr s \<longrightarrow> binary_image s)"
proof (intro conjI allI impI)
  fix s assume "get_support_from_patterson sp input opt = Inr s"
  then obtain a where s: "s = binarized a"
    by (auto simp: get_support_from_patterson_def Let_def)
  show "binary_image s"
    unfolding s binarized_def by (rule binary_on_pixels) (simp add: complex_zero_one)
qed (auto simp: get_updated_support_def get_filtered_support_def get_support_from_initial_support_def
      Let_def binary_with_support_mask)

theorem supports_are_binary_witness:
  "\<exists>s. get_support_from_patterson example_library (image_of [1, 3]) (opts (area_hawk 0)) = Inr s \<and> binary_image s"
proof -
  obtain s where run:
    "get_support_from_patterson example_library (image_of [1, 3]) (opts (area_hawk 0)) = Inr s"
    by (simp add: get_support_from_patterson_def get_patterson_level_def area_hawk_def set_int_def
        example_state_defs Let_def)
  then show ?thesis using supports_are_binary [of example_library "image_of [1, 3]" 0 0] by blast
qed

lemma centred_simps [simp]:
  "pixels (centred a) = pixels a" "size_x (centred a) = size_x a"
  "size_x (threshold_image l a) = size_x a"
  by (simp_all add: centred_def threshold_image_def)

lemma nth_binarized:
  "i < length (pixels a) \<Longrightarrow> pixels (binarized a) ! i = (if sp_cabs (pixels a ! i) > 1 / 1000000 then 1 else 0)"
  by (simp add: binarized_def loop_simps sp_image_size_def complex_zero_one)

lemma nth_square_masked:
  "i < length (pixels a) \<Longrightarrow> pixels (square_masked sp opt a) ! i =
     (if oreal opt R_square_mask \<noteq> 0 \<and> real_of_int (int (size_x a) sdiv 4) < sp_image_dist sp a i
      then 0 else pixels a ! i)"
  by (simp add: square_masked_def loop_simps sp_image_size_def complex_zero_one)

lemma length_patterson_steps [simp]:
  "length (pixels (binarized a)) = length (pixels a)"
  "length (pixels (square_masked sp opt a)) = length (pixels a)"
  by (simp_all add: binarized_def square_masked_def)

text \<open>
  The first support is the set of the pixels of the blurred autocorrelation that
  reach the level, without those the square mask removes: the ones further than a quarter of
  the width from the centre, which the function has set before it measures the distances.
\<close>

lemma patterson_support_pixels:
  assumes "get_support_from_patterson sp input opt = Inr s"
  defines "autocorrelation \<equiv> sp_image_dephase sp (sp_image_fft sp (sp_image_to_intensities sp input))"
    and "blur \<equiv> oreal opt R_patterson_blur_radius"
  defines "p \<equiv> (if blur \<noteq> 0 then sp_gaussian_blur sp autocorrelation blur else autocorrelation)"
  shows "\<exists>level. get_patterson_level sp autocorrelation blur opt = Inr level \<and>
    (\<forall>i<length (pixels s). pixels s ! i =
      (if max_cabs p * level \<le> sp_cabs (pixels p ! i) \<and>
          (oreal opt R_square_mask \<noteq> 0 \<longrightarrow>
            sp_image_dist sp (centred (threshold_image (max_cabs p * level) p)) i
              \<le> real_of_int (int (size_x p) sdiv 4))
       then 1 else 0))"
proof -
  from assms(1) obtain level where "get_patterson_level sp autocorrelation blur opt = Inr level"
    and "s = binarized (square_masked sp opt (centred (threshold_image (max_cabs p * level) p)))"
    by (auto simp: get_support_from_patterson_def Let_def p_def blur_def autocorrelation_def)
  moreover have "pixels (binarized (square_masked sp opt (centred (threshold_image l a)))) ! i =
      (if l \<le> sp_cabs (pixels a ! i) \<and> (oreal opt R_square_mask \<noteq> 0 \<longrightarrow>
          sp_image_dist sp (centred (threshold_image l a)) i \<le> real_of_int (int (size_x a) sdiv 4))
       then 1 else 0)"
    if "i < length (pixels (binarized (square_masked sp opt (centred (threshold_image l a)))))" for i l a
    using that by (simp add: nth_binarized nth_square_masked binary_threshold)
  ultimately show ?thesis by auto
qed

theorem patterson_support_pixels_witness:
  "\<exists>s. get_support_from_patterson example_library (image_of [1, 3]) (opts (area_hawk 0)) = Inr s \<and>
     (0 < length (pixels s) \<longrightarrow> pixels s ! 0 = 1)"
proof -
  obtain s where run:
    "get_support_from_patterson example_library (image_of [1, 3]) (opts (area_hawk 0)) = Inr s"
    by (simp add: get_support_from_patterson_def get_patterson_level_def area_hawk_def set_int_def
        example_state_defs Let_def)
  have "get_patterson_level example_library a b (opts (area_hawk 0)) = Inr 0" for a b
    by (simp add: get_patterson_level_def area_hawk_def set_int_def example_state_defs)
  then show ?thesis
    using patterson_support_pixels [OF run] run
    by (auto simp: area_hawk_def set_int_def example_state_defs)
qed

section \<open>The stepped level\<close>

text \<open>
  The levels of a sequence of calls of the stepped algorithm, each at an iteration and with the
  real-space error of that time; the state is passed on from one to the next.
\<close>

fun stepped_levels ::
  "spimage \<Rightarrow> image \<Rightarrow> real \<Rightarrow> real \<Rightarrow> (int \<times> real) list \<Rightarrow> hawk \<Rightarrow> real list result" where
  "stepped_levels sp input previous radius [] st = Inr []"
| "stepped_levels sp input previous radius ((iter, er) # calls) st =
    bind_result (get_support_level sp input previous radius
        (st\<lparr>opts := set_int I_cur_iteration iter (opts st), lg := (lg st)\<lparr>Ereal := er\<rparr>\<rparr>)) (\<lambda>(level, previous', st').
    bind_result (stepped_levels sp input previous' radius calls st') (\<lambda>levels. Inr (level # levels)))"

definition triggers_step :: "int \<times> real \<Rightarrow> bool" where
  "triggers_step = (\<lambda>(iter, er). iter > 40 \<and> er > 3 / 10)"

fun stepped_from :: "bool \<Rightarrow> real \<Rightarrow> (int \<times> real) list \<Rightarrow> real list" where
  "stepped_from flag level [] = []"
| "stepped_from flag level (call # calls) =
    (let flag' = flag \<or> triggers_step call
     in (if flag' then level * (75 / 100) else level) # stepped_from flag' level calls)"

lemma stepped_levels_eq:
  "oint (opts st) I_support_update_algorithm = STEPPED \<Longrightarrow>
   stepped_levels sp input previous radius calls st =
     Inr (stepped_from (stepped_flag st) (oreal (opts st) R_new_level) calls)"
proof (induction calls arbitrary: st previous)
  case (Cons call calls)
  obtain iter er where call: "call = (iter, er)" by (cases call)
  show ?case
    using Cons
    by (cases "40 < iter \<and> 3 / 10 < er"; cases "stepped_flag st")
      (auto simp: call get_support_level_def triggers_step_def Let_def)
qed simp

lemma stepped_from_nth:
  "j < length calls \<Longrightarrow> stepped_from flag level calls ! j =
    (if flag \<or> (\<exists>i\<le>j. triggers_step (calls ! i)) then level * (75 / 100) else level)"
proof (induction calls arbitrary: j flag)
  case (Cons call calls)
  show ?case
  proof (cases j)
    case (Suc k)
    have "(\<exists>i\<le>Suc k. triggers_step ((call # calls) ! i)) \<longleftrightarrow>
        triggers_step call \<or> (\<exists>i\<le>k. triggers_step (calls ! i))"
      by (metis Suc_le_mono le0 not0_implies_Suc nth_Cons_0 nth_Cons_Suc)
    then show ?thesis using Cons Suc by (simp add: Let_def)
  qed (simp add: Let_def)
qed simp

lemma length_stepped_from [simp]: "length (stepped_from flag level calls) = length calls"
  by (induction calls arbitrary: flag) (simp_all add: Let_def)

text \<open>
  The stepped algorithm steps once and for all.  Over any sequence of calls,
  the level is \<open>new_level\<close> until the first call after iteration 40 with a real-space error above
  0.3, and three quarters of it from that call on, also when the error falls again.
\<close>

lemma stepped_level_latches:
  assumes "oint (opts st) I_support_update_algorithm = STEPPED" and "\<not> stepped_flag st"
  shows "stepped_levels sp input previous radius calls st = Inr (map (\<lambda>j.
     if \<exists>i\<le>j. triggers_step (calls ! i) then oreal (opts st) R_new_level * (75 / 100)
     else oreal (opts st) R_new_level) [0..<length calls])"
  using assms by (auto simp: stepped_levels_eq stepped_from_nth intro!: nth_equalityI)

theorem stepped_level_latches_witness:
  "stepped_levels example_library (image_of [1]) 0 1 [(10, 1), (50, 1/2), (60, 0)]
     ((example_hawk 5)\<lparr>opts := (set_int I_support_update_algorithm STEPPED (opts (example_hawk 5)))
        \<lparr>oreal := (\<lambda>_. 0)(R_new_level := 1/5)\<rparr>\<rparr>) = Inr [1/5, 3/20, 3/20]"
proof -
  let ?calls = "[(10, 1), (50, 1/2), (60, 0)] :: (int \<times> real) list"
  have "\<not> (\<exists>i\<le>0. triggers_step (?calls ! i))" "triggers_step (?calls ! Suc 0)"
    by (simp_all add: triggers_step_def)
  then have triggers: "(\<exists>i\<le>0. triggers_step (?calls ! i)) = False"
    "(\<exists>i\<le>Suc 0. triggers_step (?calls ! i)) = True" "(\<exists>i\<le>Suc (Suc 0). triggers_step (?calls ! i)) = True"
    by (blast intro: le_SucI)+
  show ?thesis
    by (subst stepped_level_latches)
      (simp_all add: set_int_def example_hawk_def upt_conv_Cons triggers [simplified] triggers
        numeral_2_eq_2)
qed

section \<open>Filtered intensities\<close>

lemma filtered_amplitude_nonneg: "0 \<le> filtered_amplitude sp n z"
  by (simp add: filtered_amplitude_def)

text \<open>
  Filtering replaces the real part of every amplitude by the square root of
  the filtered intensity per pixel and leaves the mask and the imaginary parts alone; all
  amplitudes it returns are positive, because a zero aborts the program.
\<close>

lemma filtered_amplitudes_positive:
  assumes "filter_intensities_with_support sp amplitudes guess support opt = Inr a"
  shows "length (pixels a) = length (pixels amplitudes) \<and> mask_data a = mask_data amplitudes \<and>
    (\<forall>i<length (pixels a). 0 < sp_real (pixels a ! i) \<and> sp_imag (pixels a ! i) = sp_imag (pixels amplitudes ! i))"
proof -
  let ?n = "sp_image_size amplitudes"
  let ?f = "filtered_intensities sp amplitudes guess support"
  from assms obtain d where "(if \<exists>i<?n. filtered_amplitude sp ?n (pixels (?f d) ! i) = 0 then Inl Abort
      else Inr (on_pixels ?n (\<lambda>i z. sp_cinit (filtered_amplitude sp ?n (pixels (?f d) ! i)) (sp_imag z)) amplitudes))
      = Inr a"
    unfolding filter_intensities_with_support_def Let_def bind_result_Inr_iff by blast
  then have none: "\<not> (\<exists>i<?n. filtered_amplitude sp ?n (pixels (?f d) ! i) = 0)" and
      a: "a = on_pixels ?n (\<lambda>i z. sp_cinit (filtered_amplitude sp ?n (pixels (?f d) ! i)) (sp_imag z)) amplitudes"
    by (simp_all split: if_splits)
  have "0 < filtered_amplitude sp ?n (pixels (?f d) ! i)" if "i < ?n" for i
    using none that by (metis filtered_amplitude_nonneg order.strict_iff_order)
  then show ?thesis by (simp add: a loop_simps sp_image_size_def)
qed

theorem filtered_amplitudes_positive_witness:
  "\<exists>a. filter_intensities_with_support example_library (image_of [1, 1]) (image_of [1, 1]) (image_of [2, 2])
     (example_options\<lparr>oimage := (\<lambda>_. None)(P_diffraction := Some (image_of [3, 1]))\<rparr>) = Inr a \<and>
     (\<forall>i<length (pixels a). 0 < sp_real (pixels a ! i))"
proof -
  let ?opt = "example_options\<lparr>oimage := (\<lambda>_. None)(P_diffraction := Some (image_of [3, 1]))\<rparr>"
  obtain a where "filter_intensities_with_support example_library (image_of [1, 1]) (image_of [1, 1])
      (image_of [2, 2]) ?opt = Inr a"
    by (auto simp: filter_intensities_with_support_def filtered_intensities_def Let_def
        filtered_amplitude_def image_of_def example_library_def sp_image_size_def on_pixels_def
        for_pixels_Suc transform_of_two_def less_Suc_eq complex_eq_iff conj_disj_distribR ex_disj_distrib)
  with filtered_amplitudes_positive show ?thesis by blast
qed

text \<open>
  The option \<open>autocorrelation_area\<close> has no effect: the constant-area level
  of the first support is taken at \<open>object_area\<close>.  With that one at its default of 0 the level of
  an autocorrelation that is not zero everywhere is 1, its maximum.
\<close>

lemma autocorrelation_area_unused:
  assumes "oint opt I_patterson_level_algorithm = CONSTANT_AREA"
  shows "get_patterson_level sp a radius (opt\<lparr>oreal := (oreal opt)(R_autocorrelation_area := area)\<rparr>)
      = get_patterson_level sp a radius opt \<and>
    (oreal opt R_object_area = 0 \<and> radius = 0 \<and> dephase_pointwise sp \<and> (\<exists>z \<in> set (pixels a). z \<noteq> 0) \<longrightarrow>
      get_patterson_level sp a radius opt = Inr 1)"
proof (intro conjI impI)
  assume *: "oreal opt R_object_area = 0 \<and> radius = 0 \<and> dephase_pointwise sp \<and> (\<exists>z \<in> set (pixels a). z \<noteq> 0)"
  let ?d = "sp_image_dephase sp a"
  let ?s = "qsort descend_complex_compare (pixels ?d)"
  obtain i where i: "i < length (pixels a)" "pixels a ! i \<noteq> 0" using * by (auto simp: in_set_conv_nth)
  have len: "length (pixels ?d) = length (pixels a)" using * by (simp add: dephased)
  have "0 < sp_cabs (pixels ?d ! i)" using i * dephased(2) [of sp i a] by simp
  moreover have "pixels ?d ! i \<in> set (pixels ?d)" "pixels ?d \<noteq> []"
    using i len by (auto simp: in_set_conv_nth)
  ultimately have "sp_cabs (?s ! 0) \<noteq> 0" "?s \<noteq> []"
    using by_modulus.greatest_first [of "pixels ?d ! i" "pixels ?d"] length_qsort [of descend_complex_compare "pixels ?d"]
    by (auto simp del: length_qsort)
  then show "get_patterson_level sp a radius opt = Inr 1"
    using assms * \<open>pixels ?d \<noteq> []\<close>
    by (simp add: get_patterson_level_def area_level_def sorted_at_def array_get_def Let_def)
qed (use assms in \<open>simp add: get_patterson_level_def\<close>)

theorem autocorrelation_area_unused_witness:
  "get_patterson_level example_library (image_of [1, 3]) 0
     (set_int I_patterson_level_algorithm CONSTANT_AREA example_options) = Inr 1"
  using autocorrelation_area_unused [of "set_int I_patterson_level_algorithm CONSTANT_AREA example_options"
      example_library "image_of [1, 3]" 0 0] example_library_laws
  by (auto simp: example_options_def set_int_def image_of_def)

end
