(* ===== verification/Setup.thy ===== *)
theory Setup
  imports Support
begin

text \<open>
  What happens between reading the options and the first iteration (\<open>src/uwrapc.c\<close>): the
  amplitudes and their noise, images brought to one size, the first support and the first guess,
  and the scaling of the guess; also the projection applied to every image that is written
  (\<open>src/output_projection.c\<close>).  Files that are only written are left out.
\<close>

section \<open>Further functions of the image library\<close>

text \<open>
  The functions of libspimage that only the set-up calls; a file name stands for the image
  that \<open>sp_image_read\<close> finds under it.  \<open>drand48\<close> is the sequence of the random
  numbers; \<open>sp_image_rephase_random\<close> is \<open>sp_image_rephase\<close> with \<open>SP_RANDOM_PHASE\<close>.
\<close>

record spsetup =
  sp_image_read :: "string \<Rightarrow> image"
  sp_image_noise_estimate :: "image \<Rightarrow> image \<Rightarrow> image"
  sp_image_rephase_random :: "image \<Rightarrow> image"
  sp_image_to_amplitudes :: "image \<Rightarrow> image"
  sp_image_high_pass :: "image \<Rightarrow> real \<Rightarrow> int \<Rightarrow> image"
  sp_add_noise :: "image \<Rightarrow> real \<Rightarrow> image"
  drand48 :: "nat \<Rightarrow> real"

section \<open>The noise of the intensities\<close>

definition real_part_to_one :: "image \<Rightarrow> image" where
  "real_part_to_one a = on_pixels (sp_image_size a)
     (\<lambda>_ z. if sp_real z \<noteq> 0 then sp_cinit 1 (sp_imag z) else z) a"

definition get_intensities_noise :: "spimage \<Rightarrow> spsetup \<Rightarrow> options \<Rightarrow> options result" where
  "get_intensities_noise sp su opt =
    (if ostring opt S_intensities_std_dev_filename \<noteq> [] then
       Inr (set_image P_intensities_std_dev
         (Some (sp_image_read su (ostring opt S_intensities_std_dev_filename))) opt)
     else if ostring opt S_autocorrelation_support_filename \<noteq> [] then
       (let a = sp_image_read su (ostring opt S_autocorrelation_support_filename);
            a = (if shifted a then a else sp_image_shift sp a);
            a = real_part_to_one a;
            opt' = set_image P_autocorrelation_support (Some a) opt
        in bind_result (deref (oimage opt P_amplitudes)) (\<lambda>amp.
             Inr (set_image P_intensities_std_dev (Some (sp_image_noise_estimate su amp a)) opt')))
     else bind_result (deref (oimage opt P_amplitudes)) (\<lambda>amp.
       Inr (set_image P_intensities_std_dev (Some
         (if oreal opt R_exp_sigma \<noteq> 0
          then on_pixels (sp_image_size amp)
            (\<lambda>_ z. sp_cinit (sp_real z * oreal opt R_exp_sigma) (sp_imag z)) amp
          else amp)) opt)))"

section \<open>Scaling a guess to the measured power\<close>

definition power_sum :: "nat \<Rightarrow> image \<Rightarrow> real" where
  "power_sum n a = for_acc n (\<lambda>i s. s +
     (sp_real (pixels a ! i) * sp_real (pixels a ! i) + sp_imag (pixels a ! i) * sp_imag (pixels a ! i))) 0"

text \<open>The result is the new value of \<open>to_scale\<close>; images of different sizes give a warning.\<close>

definition enforce_parsevals_theorem :: "spimage \<Rightarrow> image \<Rightarrow> image \<Rightarrow> image" where
  "enforce_parsevals_theorem sp master to_scale =
    (if sp_image_size master \<noteq> sp_image_size to_scale then to_scale
     else
       let n = sp_image_size master;
           sum_m = power_sum n master;
           sum_s = power_sum n (sp_image_fft sp to_scale);
           f = fp_sqrt (nonfinite sp) (fp_div (nonfinite sp) sum_m sum_s)
       in on_pixels n (\<lambda>_ z. sp_cinit (sp_real z * f) (sp_imag z * f)) to_scale)"

section \<open>The attempt to break the symmetry\<close>

text \<open>Three nested loops, over all coordinates, that halve the pixel at each.\<close>

definition pixel_index :: "image \<Rightarrow> nat \<Rightarrow> nat \<Rightarrow> nat \<Rightarrow> nat" where
  "pixel_index a x y z = z * size_y a * size_x a + y * size_x a + x"

definition halve_at :: "nat \<Rightarrow> image \<Rightarrow> image" where
  "halve_at i a = a\<lparr>pixels := (pixels a)[i := sp_cinit (sp_real (pixels a ! i) * (1 / 2))
     (sp_imag (pixels a ! i) * (1 / 2))]\<rparr>"

definition centrosym_break_attempt :: "image \<Rightarrow> image" where
  "centrosym_break_attempt a =
    for_acc (size_x a) (\<lambda>x. for_acc (size_y a) (\<lambda>y. for_acc (size_z a) (\<lambda>z.
      halve_at (pixel_index a x y z)))) a"

section \<open>One size for all images\<close>

definition same_sizes :: "image \<Rightarrow> image \<Rightarrow> bool" where
  "same_sizes a b \<longleftrightarrow> size_x a = size_x b \<and> size_y a = size_y b \<and> size_z a = size_z b"

text \<open>A rescaled support has rounding errors, which a threshold removes.\<close>

definition rescaled_support :: "spimage \<Rightarrow> real \<Rightarrow> image \<Rightarrow> image \<Rightarrow> image" where
  "rescaled_support sp limit exp_amp a =
    (if same_sizes a exp_amp then a
     else let tmp = bilinear_rescale sp a (size_x exp_amp) (size_y exp_amp) (size_z exp_amp)
          in on_pixels (sp_image_size tmp)
               (\<lambda>_ z. if sp_real z < limit then sp_cinit 0 0 else sp_cinit 1 0) tmp)"

definition rescaled_guess :: "spimage \<Rightarrow> image \<Rightarrow> image \<Rightarrow> image" where
  "rescaled_guess sp exp_amp a =
    (if same_sizes a exp_amp then a else fourier_rescale sp a (size_x exp_amp) (size_y exp_amp) (size_z exp_amp))"

definition harmonize_sizes :: "spimage \<Rightarrow> options \<Rightarrow> options result" where
  "harmonize_sizes sp opt =
    (let resized = (\<lambda>exp_amp. opt\<lparr>oimage := (oimage opt)
           (P_support_mask := map_option (rescaled_support sp (1 / 1000000) exp_amp) (oimage opt P_support_mask),
            P_init_support := map_option (rescaled_support sp (1 / 10) exp_amp) (oimage opt P_init_support),
            P_image_guess := map_option (rescaled_guess sp exp_amp) (oimage opt P_image_guess))\<rparr>)
     in case oimage opt P_amplitudes of
          Some exp_amp \<Rightarrow> Inr (resized exp_amp)
        | None \<Rightarrow> if oimage opt P_support_mask = None \<and> oimage opt P_init_support = None
                     \<and> oimage opt P_image_guess = None then Inr opt else Inl Null_Pointer)"

section \<open>First guesses\<close>

text \<open>
  The inverse transform of the measured amplitudes, with random phases or with phase zero,
  shifted and normalized.  Both write the pixels of \<open>real_in\<close>.
\<close>

definition guess_from_pattern :: "spimage \<Rightarrow> image \<Rightarrow> image \<Rightarrow> image" where
  "guess_from_pattern sp real_in rephased =
    (let r = (sp_image_ifft sp rephased)\<lparr>shifted := True\<rparr>;
         tmp = sp_image_shift sp r
     in on_pixels (sp_image_size real_in)
          (\<lambda>i _. sp_cscale (pixels tmp ! i) (1.0 / real (sp_image_size r))) real_in)"

definition set_rand_phases :: "spimage \<Rightarrow> spsetup \<Rightarrow> image \<Rightarrow> image \<Rightarrow> image" where
  "set_rand_phases sp su real_in diff = guess_from_pattern sp real_in (sp_image_rephase_random su diff)"

definition set_zero_phases :: "spimage \<Rightarrow> image \<Rightarrow> image \<Rightarrow> image" where
  "set_zero_phases sp real_in diff = guess_from_pattern sp real_in (sp_image_rephase_zero sp diff)"

text \<open>
  Random values inside the support; \<open>k\<close> counts the random numbers drawn.  (C leaves open which
  of the two calls of \<open>p_drand48\<close> comes first.)
\<close>

definition set_rand_ints :: "spimage \<Rightarrow> spsetup \<Rightarrow> image \<Rightarrow> image \<Rightarrow> image" where
  "set_rand_ints sp su real_in img =
    (let n = sp_image_size img;
         total = for_acc n (\<lambda>i s. s + sp_real (pixels img ! i)) 0;
         size_in = for_acc n (\<lambda>i c. if sp_real (pixels real_in ! i) \<noteq> 0 then c + 1 else c) (0 :: nat);
         draw = (\<lambda>i (xs, k). if sp_real (xs ! i) \<noteq> 0
           then (xs[i := sp_cscale (sp_cinit (drand48 su k * total) (drand48 su (Suc k) * total))
                   (fp_div (nonfinite sp) 1.0 (real size_in * sqrt (real n)))], k + 2)
           else (xs, k))
     in real_in\<lparr>pixels := fst (for_acc (sp_image_size real_in) draw (pixels real_in, 0))\<rparr>)"

section \<open>The images of a reconstruction\<close>

text \<open>
  The first half of \<open>init_reconstruction\<close>: the amplitudes from the diffraction pattern, or from
  the transform of a known real image.  The threads of the transform (\<open>sp_init_fft\<close>) and the
  flag \<open>scaled\<close> are not part of the model.
\<close>

definition pattern_of_real_image :: "spimage \<Rightarrow> image \<Rightarrow> image" where
  "pattern_of_real_image sp real_image =
    (let d = sp_image_fft sp real_image;
         d = d\<lparr>mask_data := for_pixels (sp_image_size d) (\<lambda>_ _. 1) (mask_data d)\<rparr>
     in sp_image_dephase sp d)"

definition init_amplitudes :: "spimage \<Rightarrow> spsetup \<Rightarrow> options \<Rightarrow> options result" where
  "init_amplitudes sp su opt =
    (let opt1 = (case oimage opt P_real_image of None \<Rightarrow> opt
           | Some r \<Rightarrow> set_image P_diffraction (Some (pattern_of_real_image sp r)) opt)
     in case oimage opt1 P_diffraction of
          None \<Rightarrow> Inl (Fatal ''Error: either real_image_file or intensities_file have to be specified!'')
        | Some d \<Rightarrow>
            let amp = (if \<not> shifted d then sp_image_shift sp d else d);
                amp = sp_image_to_amplitudes su amp;
                amp = sp_image_high_pass su amp (oreal opt R_beamstop) (if size_z amp = 1 then 2 else 3);
                amp = sp_add_noise su amp (oreal opt R_noise)
            in Inr (set_image P_amplitudes (Some amp)
                 (set_image P_diffraction (Some (sp_image_dephase sp d)) opt1)))"

text \<open>The first support, from the autocorrelation or from a file, and the known solution.\<close>

definition init_support_image :: "spimage \<Rightarrow> spsetup \<Rightarrow> options \<Rightarrow> options result" where
  "init_support_image sp su opt =
    (if ostring opt S_init_support_filename = [] then
       bind_result (deref (oimage opt P_amplitudes)) (\<lambda>amp.
       bind_result (get_support_from_patterson sp amp opt) (\<lambda>s.
         Inr (set_image P_init_support (Some s) opt)))
     else Inr (set_image P_init_support
       (Some (sp_image_read su (ostring opt S_init_support_filename))) opt))"

definition init_solution :: "spsetup \<Rightarrow> options \<Rightarrow> options" where
  "init_solution su opt = set_image P_solution_image
     (if ostring opt S_solution_filename = [] then None
      else Some (sp_image_read su (ostring opt S_solution_filename))) opt"

text \<open>The fixed mask is added to the first support, and what is not zero becomes one.\<close>

definition fixed_mask_added :: "spimage \<Rightarrow> options \<Rightarrow> options result" where
  "fixed_mask_added sp opt =
    bind_result (deref (oimage opt P_init_support)) (\<lambda>s.
      let s = (case oimage opt P_support_mask of None \<Rightarrow> s | Some m \<Rightarrow> sp_image_add sp s m);
          s = on_pixels (sp_image_size s) (\<lambda>_ z. if sp_real z \<noteq> 0 then sp_cinit 1 0 else z) s
      in Inr (set_image P_init_support (Some s) opt))"

definition init_guess :: "spimage \<Rightarrow> spsetup \<Rightarrow> options \<Rightarrow> options result" where
  "init_guess sp su opt =
    (if ostring opt S_image_guess_filename \<noteq> [] then
       Inr (set_image P_image_guess (Some (sp_image_read su (ostring opt S_image_guess_filename))) opt)
     else bind_result (deref (oimage opt P_init_support)) (\<lambda>s.
          bind_result (deref (oimage opt P_amplitudes)) (\<lambda>amp.
          let start = oint opt I_realspace_starting_point in
          bind_result
            (if start = 0 then Inr (set_rand_phases sp su s amp)
             else if start = 1 then Inr (set_rand_ints sp su s amp)
             else if start = 2 then Inr (set_zero_phases sp s amp)
             else if start = 3 then Inr s
             else Inl (Fatal ''Error: unexpected option value'')) (\<lambda>g.
          Inr (set_image P_image_guess (Some g) opt)))))"

definition scaled_guess :: "spimage \<Rightarrow> options \<Rightarrow> options result" where
  "scaled_guess sp opt =
    (if oint opt I_rescale_amplitudes \<noteq> 0 then
       bind_result (deref (oimage opt P_amplitudes)) (\<lambda>amp.
       bind_result (deref (oimage opt P_image_guess)) (\<lambda>g.
         Inr (set_image P_image_guess (Some (enforce_parsevals_theorem sp amp g)) opt)))
     else Inr opt)"

text \<open>
  Everything \<open>init_reconstruction\<close> does before it starts a reconstruction.  A guess is
  resized before it is read, so a guess read from a file keeps its own size.
\<close>

definition prepare_images :: "spimage \<Rightarrow> spsetup \<Rightarrow> options \<Rightarrow> options result" where
  "prepare_images sp su opt =
    bind_result (init_amplitudes sp su opt) (\<lambda>opt.
    bind_result (init_support_image sp su opt) (\<lambda>opt.
    bind_result (get_intensities_noise sp su (init_solution su opt)) (\<lambda>opt.
    bind_result (harmonize_sizes sp opt) (\<lambda>opt.
    bind_result (fixed_mask_added sp opt) (\<lambda>opt.
    bind_result (init_guess sp su opt) (\<lambda>opt.
      scaled_guess sp opt))))))"

section \<open>The projection of the written images\<close>

definition apply_output_projection :: "spimage \<Rightarrow> image \<Rightarrow> int \<Rightarrow> image \<Rightarrow> image" where
  "apply_output_projection sp input type amp =
    (if type = IntensitiesProjection then
       let tmp = sp_proj_module sp (sp_image_fft sp input) amp;
           tmp2 = sp_image_ifft sp tmp;
           tmp2 = sp_image_scale sp tmp2 (1.0 / real (sp_image_size tmp2))
       in on_pixels (sp_image_size input) (\<lambda>i _. pixels tmp2 ! i) input
     else input)"

section \<open>Properties of the set-up\<close>

text \<open>Documented behaviour of the library: the transform of a scaled image is the scaled transform.\<close>

definition fft_homogeneous :: "spimage \<Rightarrow> nat \<Rightarrow> bool" where
  "fft_homogeneous sp n \<longleftrightarrow>
     (\<forall>a b r. length (pixels a) = n \<longrightarrow> pixels b = map (\<lambda>z. sp_cscale z r) (pixels a) \<longrightarrow>
        pixels (sp_image_fft sp b) = map (\<lambda>z. sp_cscale z r) (pixels (sp_image_fft sp a)))"

lemma example_homogeneous: "fft_homogeneous example_library 2"
proof (unfold fft_homogeneous_def, intro allI impI)
  fix a b :: image and r :: real
  assume a: "length (pixels a) = 2" and b: "pixels b = map (\<lambda>z. sp_cscale z r) (pixels a)"
  obtain x y where "pixels a = [x, y]" using two_nths [OF a] by blast
  then show "pixels (sp_image_fft example_library b) = map (\<lambda>z. sp_cscale z r) (pixels (sp_image_fft example_library a))"
    using b by (simp add: transform_of_two_def scaleR_add_right scaleR_diff_right)
qed

lemma power_sum_eq: "power_sum n a = (\<Sum>i<n. (sp_cabs (pixels a ! i))\<^sup>2)"
  by (simp add: power_sum_def for_acc_sum cmod_power2 flip: power2_eq_square)

lemma power_sum_nonneg: "0 \<le> power_sum n a"
  by (simp add: power_sum_eq sum_nonneg)

lemma power_sum_scaled:
  "n \<le> length (pixels a) \<Longrightarrow> pixels b = map (\<lambda>z. sp_cscale z r) (pixels a) \<Longrightarrow>
   power_sum n b = r\<^sup>2 * power_sum n a"
  by (simp add: power_sum_eq sum_distrib_left power_mult_distrib)

lemma scaled_parts: "sp_cinit (sp_real z * f) (sp_imag z * f) = sp_cscale z f"
  by (simp add: complex_eq_iff)

text \<open>
  Scaling the guess gives its Fourier transform the total intensity of the
  measured pattern, whatever power it had before (but zero).
\<close>

lemma guess_has_measured_power:
  assumes "sp_image_size master = n" and "sp_image_size to_scale = n"
    and "fft_keeps_size sp n" and "fft_homogeneous sp n"
    and "power_sum n (sp_image_fft sp to_scale) \<noteq> 0"
  shows "power_sum n (sp_image_fft sp (enforce_parsevals_theorem sp master to_scale)) = power_sum n master"
proof -
  let ?s = "power_sum n (sp_image_fft sp to_scale)" and ?m = "power_sum n master"
  let ?f = "sqrt (?m / ?s)" and ?a = "enforce_parsevals_theorem sp master to_scale"
  have pos: "0 < ?s" and m: "0 \<le> ?m"
    using assms(5) power_sum_nonneg [of n] by (simp_all add: less_le)
  have len: "length (pixels to_scale) = n" using assms(2) by (simp add: sp_image_size_def)
  have "pixels ?a = map (\<lambda>z. sp_cscale z ?f) (pixels to_scale)"
    using assms(1,2) pos m for_pixels_map [of "pixels to_scale" "\<lambda>z. sp_cscale z ?f"]
    by (simp add: enforce_parsevals_theorem_def on_pixels_def scaled_parts len)
  then have "pixels (sp_image_fft sp ?a) = map (\<lambda>z. sp_cscale z ?f) (pixels (sp_image_fft sp to_scale))"
    using assms(4) len by (simp add: fft_homogeneous_def)
  then have "power_sum n (sp_image_fft sp ?a) = ?f\<^sup>2 * ?s"
    using assms(3) len by (intro power_sum_scaled) (simp_all add: fft_keeps_size_def)
  then show ?thesis using pos m by simp
qed

theorem guess_has_measured_power_witness:
  "power_sum 2 (sp_image_fft example_library
     (enforce_parsevals_theorem example_library (image_of [3, 4]) (image_of [1, 0]))) = 25"
proof -
  have "power_sum 2 (image_of [3, 4]) = 25" "power_sum 2 (sp_image_fft example_library (image_of [1, 0])) = 2"
    by (simp_all add: power_sum_def image_of_def numeral_2_eq_2)
  then show ?thesis
    using guess_has_measured_power [of "image_of [3, 4]" 2 "image_of [1, 0]" example_library]
      example_library_laws(1) example_homogeneous by (simp add: sp_image_size_def image_of_def)
qed

text \<open>The three loops visit every pixel once.\<close>

lemma for_acc_fold: "for_acc n (\<lambda>i. fold g (L i)) = fold g (concat (map L [0..<n]))"
  by (rule ext, induction n) simp_all

lemma for_acc_fold1: "for_acc n (\<lambda>i. g (h i)) = fold g (map h [0..<n])"
  by (rule ext, induction n) simp_all

definition visited :: "image \<Rightarrow> nat list" where
  "visited a = concat (map (\<lambda>x. concat (map (\<lambda>y. map (pixel_index a x y) [0..<size_z a])
     [0..<size_y a])) [0..<size_x a])"

lemma length_visited: "length (visited a) = size_x a * size_y a * size_z a"
  by (simp add: visited_def length_concat comp_def sum_list_triv)

lemma pixel_index_visited:
  "x < size_x a \<Longrightarrow> y < size_y a \<Longrightarrow> z < size_z a \<Longrightarrow> pixel_index a x y z \<in> set (visited a)"
  by (simp add: visited_def) (rule bexI [of _ x], rule bexI [of _ y], auto)

lemma set_visited: "set (visited a) = {..<size_x a * size_y a * size_z a}"
proof (intro equalityI subsetI)
  fix i assume "i \<in> set (visited a)"
  then obtain x y z where i: "i = pixel_index a x y z" and lt: "x < size_x a" "y < size_y a" "z < size_z a"
    by (auto simp: visited_def)
  have "y * size_x a + x < size_y a * size_x a"
    using lt mult_le_mono1 [of "Suc y" "size_y a" "size_x a"] by simp
  moreover have "z * (size_y a * size_x a) + size_y a * size_x a \<le> size_z a * (size_y a * size_x a)"
    using lt mult_le_mono1 [of "Suc z" "size_z a" "size_y a * size_x a"] by simp
  ultimately show "i \<in> {..<size_x a * size_y a * size_z a}"
    by (simp add: i pixel_index_def mult_ac)
next
  fix i assume i: "i \<in> {..<size_x a * size_y a * size_z a}"
  let ?w = "size_x a" and ?p = "size_x a * size_y a"
  have pos: "0 < ?w" "0 < ?p" using i by (auto simp: intro!: gr0I)
  have "i div ?p < size_z a" using i pos by (simp add: less_mult_imp_div_less mult.commute)
  moreover have "i mod ?p div ?w < size_y a"
    using pos(2) by (simp add: less_mult_imp_div_less mult.commute [of "size_y a"])
  moreover have "i mod ?w < ?w" using pos by simp
  moreover have "i = pixel_index a (i mod ?w) (i mod ?p div ?w) (i div ?p)"
  proof -
    have "i mod ?p mod ?w = i mod ?w" by (simp add: mod_mult_right_eq mod_mod_cancel)
    then have "i mod ?p = i mod ?p div ?w * ?w + i mod ?w" by (metis div_mult_mod_eq)
    moreover have "i = i div ?p * ?p + i mod ?p" by (simp only: div_mult_mod_eq)
    ultimately show ?thesis by (simp add: pixel_index_def mult_ac)
  qed
  ultimately show "i \<in> set (visited a)"
    by (metis pixel_index_visited)
qed

lemma distinct_visited: "distinct (visited a)"
  by (rule card_distinct) (simp add: set_visited length_visited)

lemma fold_halve_at:
  "distinct js \<Longrightarrow> set js \<subseteq> {..<length (pixels a)} \<Longrightarrow>
   pixels (fold halve_at js a) = map (\<lambda>i. if i \<in> set js then pixels a ! i / 2 else pixels a ! i) [0..<length (pixels a)]"
proof (induction js arbitrary: a)
  case Nil
  then show ?case by (simp add: map_nth)
next
  case (Cons i js)
  have "sp_cinit (sp_real z * (1 / 2)) (sp_imag z * (1 / 2)) = z / 2" for z
    by (simp add: complex_eq_iff)
  then show ?case
    using Cons.prems Cons.IH [of "halve_at i a"] by (auto simp: halve_at_def nth_list_update intro!: map_cong)
qed

lemma centrosym_break_attempt_fold: "centrosym_break_attempt a = fold halve_at (visited a) a"
  by (simp add: centrosym_break_attempt_def visited_def for_acc_fold1 [where g = halve_at] for_acc_fold)

text \<open>
  The attempt to break the centrosymmetry of an image does not break it.  Its
  three loops halve every pixel exactly once, so equal pixels stay equal and an image symmetric
  under any exchange of pixels stays symmetric.
\<close>

lemma centrosym_break_keeps_symmetry:
  assumes "length (pixels a) = size_x a * size_y a * size_z a"
  shows "pixels (centrosym_break_attempt a) = map (\<lambda>z. z / 2) (pixels a) \<and>
    (\<forall>\<sigma>. (\<forall>i<length (pixels a). \<sigma> i < length (pixels a) \<and> pixels a ! \<sigma> i = pixels a ! i) \<longrightarrow>
      (\<forall>i<length (pixels a). pixels (centrosym_break_attempt a) ! \<sigma> i = pixels (centrosym_break_attempt a) ! i))"
proof -
  have "pixels (centrosym_break_attempt a) = map (\<lambda>z. z / 2) (pixels a)"
    unfolding centrosym_break_attempt_fold using assms
    by (subst fold_halve_at) (auto simp: distinct_visited set_visited intro!: nth_equalityI)
  then show ?thesis by auto
qed

theorem centrosym_break_keeps_symmetry_witness:
  "pixels (centrosym_break_attempt (image_of [4, 6])) = [2, 3]"
  using centrosym_break_keeps_symmetry [of "image_of [4, 6]"] by (simp add: image_of_def)

text \<open>Documented behaviour: the rescaling functions return an image of the requested size.\<close>

definition rescale_gives_size :: "spimage \<Rightarrow> bool" where
  "rescale_gives_size sp \<longleftrightarrow>
     (\<forall>a x y z. size_x (bilinear_rescale sp a x y z) = x \<and> size_y (bilinear_rescale sp a x y z) = y
        \<and> size_z (bilinear_rescale sp a x y z) = z
        \<and> size_x (fourier_rescale sp a x y z) = x \<and> size_y (fourier_rescale sp a x y z) = y
        \<and> size_z (fourier_rescale sp a x y z) = z)"

lemma rescaled_same_sizes:
  "rescale_gives_size sp \<Longrightarrow> same_sizes (rescaled_support sp limit e a) e"
  "rescale_gives_size sp \<Longrightarrow> same_sizes (rescaled_guess sp e a) e"
  by (simp_all add: rescaled_support_def rescaled_guess_def same_sizes_def rescale_gives_size_def Let_def)

lemma rescaled_support_binary:
  "\<not> same_sizes a e \<Longrightarrow> binary_image (rescaled_support sp limit e a)"
  unfolding rescaled_support_def Let_def by (simp) (rule binary_on_pixels, simp add: complex_zero_one)

text \<open>
  After \<open>harmonize_sizes\<close> the fixed mask, the first support and the guess
  have the size of the amplitudes, no other field has changed, and the supports that had to
  be resized are binary again.
\<close>

lemma harmonized_sizes:
  assumes "harmonize_sizes sp opt = Inr opt'" and "rescale_gives_size sp"
    and "oimage opt P_amplitudes = Some amp"
  shows "(\<forall>f a. f \<in> {P_support_mask, P_init_support, P_image_guess} \<longrightarrow> oimage opt' f = Some a \<longrightarrow> same_sizes a amp) \<and>
    (\<forall>f a b. f \<in> {P_support_mask, P_init_support} \<longrightarrow> oimage opt f = Some a \<longrightarrow> oimage opt' f = Some b \<longrightarrow>
      (if same_sizes a amp then b = a else binary_image b)) \<and>
    (\<forall>f. f \<notin> {P_support_mask, P_init_support, P_image_guess} \<longrightarrow> oimage opt' f = oimage opt f)"
proof -
  have opt': "oimage opt' = (oimage opt)
      (P_support_mask := map_option (rescaled_support sp (1 / 1000000) amp) (oimage opt P_support_mask),
       P_init_support := map_option (rescaled_support sp (1 / 10) amp) (oimage opt P_init_support),
       P_image_guess := map_option (rescaled_guess sp amp) (oimage opt P_image_guess))"
    using assms(1,3) by (auto simp: harmonize_sizes_def Let_def)
  have same: "same_sizes a amp \<Longrightarrow> rescaled_support sp limit amp a = a" for a limit
    by (simp add: rescaled_support_def)
  show ?thesis
    unfolding opt' using rescaled_same_sizes [OF assms(2)] rescaled_support_binary same
    by (simp add: conj_disj_distribR) blast
qed

definition resizing_library :: spimage where
  "resizing_library = example_library\<lparr>bilinear_rescale := \<lambda>a x y z. a\<lparr>pixels := replicate (x * y * z) (1 / 2),
     size_x := x, size_y := y, size_z := z\<rparr>,
     fourier_rescale := \<lambda>a x y z. a\<lparr>size_x := x, size_y := y, size_z := z\<rparr>\<rparr>"

theorem harmonized_sizes_witness:
  "\<exists>opt' a. harmonize_sizes resizing_library
     (set_image P_amplitudes (Some (image_of [1, 2])) (set_image P_init_support (Some (image_of [1])) example_options))
     = Inr opt' \<and> oimage opt' P_init_support = Some a \<and> size_x a = 2 \<and> binary_image a"
proof -
  let ?amp = "image_of [1, 2]"
  let ?opt = "set_image P_amplitudes (Some ?amp) (set_image P_init_support (Some (image_of [1])) example_options)"
  obtain opt' where run: "harmonize_sizes resizing_library ?opt = Inr opt'"
    by (auto simp: harmonize_sizes_def)
  moreover have law: "rescale_gives_size resizing_library"
    by (simp add: rescale_gives_size_def resizing_library_def)
  moreover obtain a where a: "oimage opt' P_init_support = Some a"
    using run by (auto simp: harmonize_sizes_def Let_def)
  have "same_sizes a ?amp" "\<not> same_sizes (image_of [1]) ?amp \<longrightarrow> binary_image a"
    using harmonized_sizes [OF run law, of ?amp] a by simp_all
  then show ?thesis
    using run a by (auto simp: same_sizes_def image_of_def)
qed

lemma prepare_keeps_strings:
  "init_amplitudes sp su opt = Inr opt' \<Longrightarrow> ostring opt' = ostring opt"
  "init_support_image sp su opt = Inr opt' \<Longrightarrow> ostring opt' = ostring opt"
  "get_intensities_noise sp su opt = Inr opt' \<Longrightarrow> ostring opt' = ostring opt"
  "harmonize_sizes sp opt = Inr opt' \<Longrightarrow> ostring opt' = ostring opt"
  "fixed_mask_added sp opt = Inr opt' \<Longrightarrow> ostring opt' = ostring opt"
proof -
  show "init_amplitudes sp su opt = Inr opt' \<Longrightarrow> ostring opt' = ostring opt"
    by (auto simp: init_amplitudes_def Let_def split: option.splits)
  show "init_support_image sp su opt = Inr opt' \<Longrightarrow> ostring opt' = ostring opt"
    by (auto simp: init_support_image_def split: if_splits)
  show "get_intensities_noise sp su opt = Inr opt' \<Longrightarrow> ostring opt' = ostring opt"
    by (auto simp: get_intensities_noise_def Let_def split: if_splits)
  show "harmonize_sizes sp opt = Inr opt' \<Longrightarrow> ostring opt' = ostring opt"
    by (auto simp: harmonize_sizes_def Let_def split: option.splits if_splits)
  show "fixed_mask_added sp opt = Inr opt' \<Longrightarrow> ostring opt' = ostring opt"
    by (auto simp: fixed_mask_added_def Let_def)
qed

text \<open>
  A guess read from a file is never brought to the size of the amplitudes: it is read
  after the sizes have been harmonized, so the prepared guess has the size of the file's image.
\<close>

lemma guess_from_file_keeps_size:
  assumes "prepare_images sp su opt = Inr opt'" and "ostring opt S_image_guess_filename \<noteq> []"
  shows "\<exists>g. oimage opt' P_image_guess = Some g \<and>
    same_sizes g (sp_image_read su (ostring opt S_image_guess_filename)) \<and>
    length (pixels g) = length (pixels (sp_image_read su (ostring opt S_image_guess_filename)))"
proof -
  let ?file = "sp_image_read su (ostring opt S_image_guess_filename)"
  from assms(1) obtain o1 o2 o3 o4 o5 o6 where
      steps: "init_amplitudes sp su opt = Inr o1" "init_support_image sp su o1 = Inr o2"
        "get_intensities_noise sp su (init_solution su o2) = Inr o3" "harmonize_sizes sp o3 = Inr o4"
        "fixed_mask_added sp o4 = Inr o5" and
      last: "init_guess sp su o5 = Inr o6" "scaled_guess sp o6 = Inr opt'"
    unfolding prepare_images_def by (elim bind_result_InrE)
  have "ostring o5 = ostring opt"
    by (simp add: prepare_keeps_strings(1) [OF steps(1)] prepare_keeps_strings(2) [OF steps(2)]
        prepare_keeps_strings(3) [OF steps(3)] prepare_keeps_strings(4) [OF steps(4)] prepare_keeps_strings(5) [OF steps(5)]
        init_solution_def)
  then have "oimage o6 P_image_guess = Some ?file"
    using last(1) assms(2) by (simp add: init_guess_def) (metis fun_upd_same set_image_simps(1))
  then show ?thesis
    using last(2) by (auto simp: scaled_guess_def enforce_parsevals_theorem_def same_sizes_def Let_def split: if_splits)
qed

definition example_setup :: spsetup where
  "example_setup = \<lparr>sp_image_read = (\<lambda>name. if name = ''guess'' then image_of [1] else image_of [1, 1]),
     sp_image_noise_estimate = (\<lambda>a s. a), sp_image_rephase_random = (\<lambda>a. a), sp_image_to_amplitudes = (\<lambda>a. a),
     sp_image_high_pass = (\<lambda>a r d. a), sp_add_noise = (\<lambda>a r. a), drand48 = (\<lambda>k. 1 / 2)\<rparr>"

definition options_with_guess :: options where
  "options_with_guess = set_image P_diffraction (Some (image_of [1, 1])) (example_options\<lparr>ostring :=
     (\<lambda>f. if f = S_image_guess_filename then ''guess'' else ''file'')\<rparr>)"

theorem guess_from_file_keeps_size_witness:
  "\<exists>opt' g a. prepare_images example_library example_setup options_with_guess = Inr opt' \<and>
     oimage opt' P_image_guess = Some g \<and> length (pixels g) = 1 \<and>
     oimage opt' P_amplitudes = Some a \<and> length (pixels a) = 2"
proof -
  obtain opt' where run: "prepare_images example_library example_setup options_with_guess = Inr opt'"
      and a: "oimage opt' P_amplitudes = Some (image_of [1, 1])"
    by (simp add: prepare_images_def init_amplitudes_def init_support_image_def init_solution_def
        get_intensities_noise_def harmonize_sizes_def fixed_mask_added_def init_guess_def scaled_guess_def
        options_with_guess_def example_setup_def example_options_def image_of_def rescaled_support_def
        same_sizes_def Let_def)
  show ?thesis
    using guess_from_file_keeps_size [OF run] run a
    by (auto simp: options_with_guess_def example_setup_def image_of_def)
qed

text \<open>
  Documented behaviour of \<open>sp_proj_module\<close>: the measured pixels get the modulus of the
  amplitudes.
\<close>

definition proj_module_fits :: "spimage \<Rightarrow> nat \<Rightarrow> bool" where
  "proj_module_fits sp n \<longleftrightarrow>
     (\<forall>a e. length (pixels a) = n \<longrightarrow> length (pixels e) = n \<longrightarrow> length (pixels (sp_proj_module sp a e)) = n \<and>
        (\<forall>i<n. mask_data e ! i \<noteq> 0 \<longrightarrow> sp_cabs (pixels (sp_proj_module sp a e) ! i) = sp_cabs (pixels e ! i)))"

text \<open>
  A written image agrees with the measurement: with the projection of the
  intensities selected, its transform has the measured amplitude at every measured pixel; without, the
  image is written as it is.  Mask and sizes are those of the image in both cases.
\<close>

lemma written_image_fits_amplitudes:
  assumes "length (pixels a) = n" and "length (pixels amp) = n"
    and "fft_keeps_size sp n" and "fft_onto sp n" and "scale_pointwise sp" and "proj_module_fits sp n"
  shows "(type = IntensitiesProjection \<longrightarrow> (\<forall>i<n. mask_data amp ! i \<noteq> 0 \<longrightarrow>
      sp_cabs (pixels (sp_image_fft sp (apply_output_projection sp a type amp)) ! i) = sp_cabs (pixels amp ! i))) \<and>
    (type \<noteq> IntensitiesProjection \<longrightarrow> apply_output_projection sp a type amp = a) \<and>
    mask_data (apply_output_projection sp a type amp) = mask_data a \<and>
    same_sizes (apply_output_projection sp a type amp) a"
proof -
  let ?p = "sp_proj_module sp (sp_image_fft sp a) amp"
  let ?out = "apply_output_projection sp a type amp"
  have len: "length (pixels ?p) = n" "length (pixels (sp_image_ifft sp ?p)) = n"
    and fits: "mask_data amp ! i \<noteq> 0 \<Longrightarrow> i < n \<Longrightarrow> sp_cabs (pixels ?p ! i) = sp_cabs (pixels amp ! i)" for i
    using assms by (simp_all add: fft_keeps_size_def proj_module_fits_def)
  have "pixels ?out = map (\<lambda>z. sp_cscale z (1 / real n)) (pixels (sp_image_ifft sp ?p))" if "type = IntensitiesProjection"
    using that assms(1,5) len
    by (intro nth_equalityI) (simp_all add: apply_output_projection_def scale_pointwise_def sp_image_size_def
        Let_def pixels_on_pixels)
  then have "pixels (sp_image_fft sp ?out) = pixels ?p" if "type = IntensitiesProjection"
    using that assms(4) len by (simp add: fft_onto_def)
  then show ?thesis
    using fits by (auto simp: apply_output_projection_def same_sizes_def Let_def)
qed

theorem written_image_fits_amplitudes_witness:
  "sp_cabs (pixels (sp_image_fft example_library
     (apply_output_projection example_library (image_of [2, 1]) 0 (image_of [6, 5]))) ! 1) = 5"
proof -
  have "proj_module_fits example_library 2"
    unfolding proj_module_fits_def by (auto simp: norm_scaleR)
  then show ?thesis
    using written_image_fits_amplitudes [of "image_of [2, 1]" 2 "image_of [6, 5]" example_library 0]
      example_library_laws by (simp add: image_of_def all_below_two)
qed

end
