(* ===== verification/Loops.thy ===== *)
theory Loops
  imports Prelude
begin

text \<open>
  The interface between the drivers and their main loops: a loop with a bound on its rounds, whose
  body keeps an invariant and makes progress.  From it follow, once for all drivers, that
  enough rounds end the loop and that its result satisfies the invariant.
\<close>

locale bounded_loop =
  fixes continues :: "'s \<Rightarrow> bool" and body :: "'s \<Rightarrow> 's result"
    and loop :: "nat \<Rightarrow> 's \<Rightarrow> 's option result" and inv :: "'s \<Rightarrow> bool" and rounds :: "'s \<Rightarrow> nat"
  assumes loop_unfold: "loop n s =
      (if continues s then (case n of 0 \<Rightarrow> Inr None | Suc m \<Rightarrow> bind_result (body s) (loop m)) else Inr (Some s))"
    and body_keeps: "inv s \<Longrightarrow> continues s \<Longrightarrow> body s = Inr s' \<Longrightarrow> inv s'"
    and body_progress: "inv s \<Longrightarrow> continues s \<Longrightarrow> body s = Inr s' \<Longrightarrow> rounds s' < rounds s"
begin

lemma loop_ends: "inv s \<Longrightarrow> rounds s < n \<Longrightarrow> loop n s \<noteq> Inr None"
proof (induction n arbitrary: s)
  case 0
  then show ?case by simp
next
  case (Suc n)
  show ?case
  proof (cases "body s")
    case (Inr s')
    then show ?thesis
      using Suc body_keeps [of s s'] body_progress [of s s'] by (subst loop_unfold) auto
  qed (subst loop_unfold, simp)
qed

lemma loop_result: "loop n s = Inr (Some s') \<Longrightarrow> inv s \<Longrightarrow> inv s' \<and> \<not> continues s'"
proof (induction n arbitrary: s)
  case 0
  then show ?case by (subst (asm) loop_unfold) (auto split: if_splits)
next
  case (Suc n)
  show ?case
  proof (cases "continues s")
    case True
    then obtain t where "body s = Inr t" "loop n t = Inr (Some s')"
      using Suc.prems(1) by (subst (asm) loop_unfold) auto
    then show ?thesis using Suc True body_keeps by blast
  next
    case False
    then have "s' = s" using Suc.prems(1) by (subst (asm) loop_unfold) simp
    then show ?thesis using Suc.prems(2) False by simp
  qed
qed

lemma loop_mono: "loop n s = Inr (Some s') \<Longrightarrow> n \<le> m \<Longrightarrow> loop m s = Inr (Some s')"
proof (induction n arbitrary: s m)
  case 0
  then show ?case by (subst loop_unfold, subst (asm) loop_unfold) (auto split: if_splits)
next
  case (Suc n)
  from Suc.prems(2) obtain k where m: "m = Suc k" and "n \<le> k" by (cases m) auto
  then show ?case
    using Suc.prems(1) Suc.IH
    by (subst loop_unfold, subst (asm) loop_unfold) (auto simp: bind_result_Inr_iff split: if_splits)
qed

end

end
