(* ===== verification/Fast_Path.thy ===== *)
theory Fast_Path
  imports Setup Loops
begin

text \<open>
  The driver that lets the phaser of libspimage do the iterations
  (\<open>complete_reconstruction_clean\<close> in \<open>src/uwrapc.c\<close>): the choice of the algorithm, the
  constraints and the steps of the support, and the loop that asks for as many iterations as are
  left to the next image or line of the log.  The phaser is a parameter; of it only
  that it counts its iterations is relied on (\<open>phaser_counts\<close>).
\<close>

section \<open>What the driver asks of the phaser\<close>

datatype constraint = Positive_Real_Object | Real_Object | Positive_Complex_Object | Centrosymmetric_Object

datatype phasing_algorithm =
    Hio "sp_smap option" "constraint set"
  | Raar "sp_smap option" "constraint set"
  | Diff_Map "sp_smap option" real real "constraint set"

datatype support_step =
    Support_Threshold "sp_smap option" "sp_smap option"
  | Support_Area "sp_smap option" "sp_smap option"
  | Support_Template "image option" real "sp_smap option"
  | Support_Static
  | Support_Close int
  | Support_Centre_Image

datatype first_support = Support_From_Patterson real | Support_Given

text \<open>
  \<open>sp_phaser_start\<close> stands for the calls that allocate a phaser and set its algorithm, its steps of the
  support with their period, its engine, amplitudes, model and first support.
\<close>

record 'ph phaser_library =
  sp_phaser_start :: "phasing_algorithm \<Rightarrow> support_step list \<times> int \<Rightarrow> int \<Rightarrow> image \<Rightarrow> image option \<Rightarrow>
     image \<times> first_support \<Rightarrow> 'ph"
  sp_phaser_iterate :: "'ph \<Rightarrow> int \<Rightarrow> 'ph"
  sp_phaser_iteration :: "'ph \<Rightarrow> int"
  sp_phaser_amplitudes :: "'ph \<Rightarrow> image"
  sp_phaser_model :: "'ph \<Rightarrow> image"
  sp_phaser_old_model :: "'ph \<Rightarrow> image"
  sp_phaser_model_with_support :: "'ph \<Rightarrow> image"
  sp_phaser_fmodel :: "'ph \<Rightarrow> image"
  sp_phaser_fmodel_with_mask :: "'ph \<Rightarrow> image"
  sp_phaser_support :: "'ph \<Rightarrow> image"

definition phasing_constraints :: "options \<Rightarrow> constraint set" where
  "phasing_constraints opt =
    (if oint opt I_enforce_real \<noteq> 0 \<and> oint opt I_enforce_positivity \<noteq> 0 then {Positive_Real_Object}
     else if oint opt I_enforce_real \<noteq> 0 then {Real_Object}
     else if oint opt I_enforce_positivity \<noteq> 0 then {Positive_Complex_Object} else {})
    \<union> (if oint opt I_enforce_centrosymmetry \<noteq> 0 then {Centrosymmetric_Object} else {})"

definition clean_algorithm :: "(real \<Rightarrow> real) \<Rightarrow> int \<Rightarrow> options \<Rightarrow> phasing_algorithm option result" where
  "clean_algorithm nf alg opt =
    (let beta = omap opt M_beta_evolution; c = phasing_constraints opt in
     if alg = HIO then Inr (Some (Hio beta c))
     else if alg = RAAR then Inr (Some (Raar beta c))
     else if alg = DIFF_MAP then
       bind_result (get_gamma1 nf opt) (\<lambda>g1. bind_result (get_gamma2 nf opt) (\<lambda>g2.
         Inr (Some (Diff_Map beta g1 g2 c))))
     else Inr None)"

definition clean_support_steps :: "options \<Rightarrow> support_step list option" where
  "clean_support_steps opt =
    (let alg = oint opt I_support_update_algorithm;
         blur = omap opt M_support_blur_evolution;
         first =
           (if alg = FIXED then Some (Support_Threshold blur (omap opt M_threshold_evolution))
            else if alg = DECREASING_AREA then Some (Support_Area blur (omap opt M_object_area_evolution))
            else if alg = TEMPLATE_AREA then
              Some (Support_Template (oimage opt P_init_support) (oreal opt R_template_blur_radius)
                (omap opt M_template_area_evolution))
            else if alg = STATIC then Some Support_Static
            else None);
         closing = (if oint opt I_support_closure_radius > 0
           then [Support_Close (oint opt I_support_closure_radius)] else []);
         centring = (if oint opt I_center_image \<noteq> 0 then [Support_Centre_Image] else [])
     in map_option (\<lambda>s. s # closing @ centring) first)"

definition clean_first_support :: "options \<Rightarrow> first_support" where
  "clean_first_support opt =
    (if oimage opt P_init_support = None then Support_From_Patterson (oreal opt R_init_level)
     else Support_Given)"

section \<open>The loop\<close>

text \<open>
  The state of the loop: the phaser, the state of the program, and the images written so far with
  the iteration in their names (image, support and pattern).
\<close>

record 'ph clean_run =
  phaser :: 'ph
  c_st :: hawk
  written :: "(int \<times> image \<times> image \<times> image) list"

definition output_from_phaser :: "spimage \<Rightarrow> 'ph phaser_library \<Rightarrow> real \<Rightarrow> 'ph \<Rightarrow> hawk \<Rightarrow> hawk result" where
  "output_from_phaser sp pl speed ph st =
     output_to_log sp speed (sp_phaser_amplitudes pl ph) (sp_phaser_old_model pl ph) (sp_phaser_model pl ph)
       (sp_phaser_fmodel pl ph) (sp_phaser_support pl ph) st"

definition write_from_phaser :: "spimage \<Rightarrow> 'ph phaser_library \<Rightarrow> int \<Rightarrow> 'ph \<Rightarrow> int \<times> image \<times> image \<times> image" where
  "write_from_phaser sp pl projection ph =
    (sp_phaser_iteration pl ph - 1,
     apply_output_projection sp (sp_phaser_model_with_support pl ph) projection (sp_phaser_amplitudes pl ph),
     sp_phaser_support pl ph, sp_phaser_fmodel_with_mask pl ph)"

definition clean_step :: "spimage \<Rightarrow> 'ph phaser_library \<Rightarrow> real \<Rightarrow> 'ph clean_run \<Rightarrow> 'ph clean_run result" where
  "clean_step sp pl speed run =
    (let st = c_st run; it = sp_phaser_iteration pl (phaser run);
         output_period = oint (opts st) I_output_period;
         log_output_period = oint (opts st) I_log_output_period
     in bind_result (c_rem it output_period) (\<lambda>r1.
        bind_result (c_rem it log_output_period) (\<lambda>r2.
        let to_output = output_period - r1;
            to_log = log_output_period - r2;
            to_iterate = min to_output to_log;
            ph = sp_phaser_iterate pl (phaser run) to_iterate;
            st = st\<lparr>opts := set_int I_cur_iteration (sp_phaser_iteration pl ph) (opts st)\<rparr>
        in bind_result (if to_iterate = to_log then output_from_phaser sp pl speed ph st else Inr st) (\<lambda>st.
           Inr \<lparr>phaser = ph, c_st = st, written = written run @
             (if to_iterate = to_output
              then [write_from_phaser sp pl (oint (opts st) I_output_projection) ph] else [])\<rparr>))))"

definition clean_continues :: "'ph clean_run \<Rightarrow> bool" where
  "clean_continues run \<longleftrightarrow>
    (let opt = opts (c_st run) in
     oint opt I_max_iterations = 0 \<or> oint opt I_cur_iteration < oint opt I_max_iterations)"

text \<open>
  The loop with a bound on its rounds; \<open>None\<close> is a run that has not ended within the bound.
  Without a maximum of iterations the loop does not end.
\<close>

fun clean_loop :: "nat \<Rightarrow> spimage \<Rightarrow> 'ph phaser_library \<Rightarrow> real \<Rightarrow> 'ph clean_run \<Rightarrow> 'ph clean_run option result" where
  "clean_loop fuel sp pl speed run =
    (if clean_continues run then
       (case fuel of 0 \<Rightarrow> Inr None
        | Suc n \<Rightarrow> bind_result (clean_step sp pl speed run) (clean_loop n sp pl speed))
     else Inr (Some run))"

declare clean_loop.simps [simp del]

definition clean_start :: "spimage \<Rightarrow> 'ph phaser_library \<Rightarrow> image \<Rightarrow> image \<Rightarrow> hawk \<Rightarrow> 'ph clean_run result" where
  "clean_start sp pl amp initial_support st0 =
    (let st = st0\<lparr>lg := init_log (lg st0),
                  opts := set_int I_cur_iteration 0 ((opts st0)\<lparr>flog := False\<rparr>)\<rparr>;
         (alg, opt) = get_algorithm (opts st) (lg st)
     in bind_result (clean_algorithm (nonfinite sp) alg opt) (\<lambda>a.
        case (a, clean_support_steps opt) of
          (Some a, Some steps) \<Rightarrow>
            Inr \<lparr>phaser = sp_phaser_start pl a (steps, oint opt I_iterations) (oint opt I_phasing_engine) amp
                   (oimage opt P_image_guess) (initial_support, clean_first_support opt),
                 c_st = st\<lparr>opts := opt\<rparr>, written = []\<rparr>
        | _ \<Rightarrow> Inl (Fatal ''Algorithm is NULL! Blame the programmer!'')))"

definition complete_reconstruction_clean ::
  "nat \<Rightarrow> spimage \<Rightarrow> 'ph phaser_library \<Rightarrow> real \<Rightarrow> image \<Rightarrow> image \<Rightarrow> hawk \<Rightarrow> 'ph clean_run option result" where
  "complete_reconstruction_clean fuel sp pl speed amp initial_support st =
    bind_result (clean_start sp pl amp initial_support st) (clean_loop fuel sp pl speed)"

section \<open>The schedule of the loop\<close>

text \<open>Documented behaviour: a phaser counts the iterations it has done.\<close>

definition phaser_counts :: "'ph phaser_library \<Rightarrow> bool" where
  "phaser_counts pl \<longleftrightarrow>
     (\<forall>a s e amp g f. sp_phaser_iteration pl (sp_phaser_start pl a s e amp g f) = 0) \<and>
     (\<forall>ph k. 0 \<le> k \<longrightarrow> sp_phaser_iteration pl (sp_phaser_iterate pl ph k) = sp_phaser_iteration pl ph + k)"

lemma output_to_log_writes:
  assumes "output_to_log sp v amp a b c s st = Inr st'"
  shows "flog (opts st')"
    and "map l_iter (log_lines st') = (if flog (opts st) then map l_iter (log_lines st) else []) @ [oint (opts st) I_cur_iteration]"
    and "k \<noteq> I_algorithm \<Longrightarrow> k \<noteq> I_reconstruction_finished \<Longrightarrow> oint (opts st') k = oint (opts st) k"
proof -
  from assms obtain l st1 st2 st3 where
    s1: "fluctuation_step a b (st\<lparr>lg := l\<rparr>) = Inr st1" and
    s2: "measured sp amp b c s (open_log st1) = Inr st2" and
    s3: "write_line sp v (solution_step sp b st2) = Inr st3" and st': "st' = check_tolerance st3"
    by (rule output_to_log_InrE)
  have o1: "opts st1 = opts st" "log_lines st1 = log_lines st"
    using fluctuation_step_keeps [OF s1] by simp_all
  have o2: "opts st2 = opts (open_log st1)" "log_lines st2 = log_lines (open_log st1)"
      "log_iter (lg st2) = oint (opts st1) I_cur_iteration"
    using s2 by (auto simp: measured_def Let_def update_averages_def)
  have sol: "flog (opts (solution_step sp b st2)) = flog (opts st2)"
      "log_lines (solution_step sp b st2) = log_lines st2" "log_iter (lg (solution_step sp b st2)) = log_iter (lg st2)"
    by (simp_all add: solution_step_def set_image_def Let_def split: option.splits)
  have o3: "flog (opts st3) = flog (opts st2)" "map l_iter (log_lines st3) = map l_iter (log_lines st2) @ [log_iter (lg st2)]"
    using s3 sol by (auto simp: write_line_def get_algorithm_def Let_def split: if_splits)
  show "flog (opts st')" using o3 o2 by (simp add: st' check_tolerance_def open_log_def)
  show "map l_iter (log_lines st') = (if flog (opts st) then map l_iter (log_lines st) else []) @ [oint (opts st) I_cur_iteration]"
    using o3 o2 o1 by (simp add: st' check_tolerance_def open_log_def)
  show "oint (opts st') k = oint (opts st) k" if "k \<noteq> I_algorithm" "k \<noteq> I_reconstruction_finished"
    using write_line_oint [OF s3 that(1)] that(2) o2 o1 by (simp add: st' check_tolerance_def)
qed

text \<open>The next multiple of a period.\<close>

lemma next_multiple:
  assumes "(0::int) < P"
  shows "0 < P - it mod P" and "P dvd it + d \<and> 0 < d \<longrightarrow> P - it mod P \<le> d" and "P dvd it + (P - it mod P)"
proof -
  show "0 < P - it mod P" using assms by simp
  have eq: "it + (P - it mod P) = P * (it div P) + P" by (simp add: minus_mod_eq_mult_div [symmetric])
  show "P dvd it + (P - it mod P)" unfolding eq by simp
  show "P dvd it + d \<and> 0 < d \<longrightarrow> P - it mod P \<le> d"
  proof (intro impI, elim conjE)
    assume "P dvd it + d" "0 < d"
    moreover have "it + d = it div P * P + (it mod P + d)" by simp
    ultimately have "P dvd it mod P + d" by (metis dvd_add_right_iff dvd_triv_right)
    moreover have "0 < it mod P + d" using \<open>0 < d\<close> assms by (simp add: add_nonneg_pos)
    ultimately show "P - it mod P \<le> d" by (auto dest: zdvd_imp_le)
  qed
qed

lemma filter_next:
  assumes "0 \<le> it" and "it < n" and "\<And>k. it < k \<Longrightarrow> k < n \<Longrightarrow> \<not> Q k"
  shows "filter Q [1..n] = filter Q [1..it] @ (if Q n then [n] else [])"
proof -
  have "[1..n] = [1..it] @ [it + 1..n - 1] @ [n]"
    using assms(1,2) upto_split2 [of 1 it n] upto_rec2 [of "it + 1" n] by (cases "it = 0") simp_all
  moreover have "filter Q [it + 1..n - 1] = []"
    using assms(3) by (simp add: filter_empty_conv)
  ultimately show ?thesis by simp
qed

definition scheduled :: "int \<Rightarrow> int \<Rightarrow> int \<Rightarrow> bool" where
  "scheduled P L k \<longleftrightarrow> P dvd k \<or> L dvd k"

definition clean_inv :: "'ph phaser_library \<Rightarrow> int \<Rightarrow> int \<Rightarrow> int \<Rightarrow> 'ph clean_run \<Rightarrow> bool" where
  "clean_inv pl P L M run \<longleftrightarrow>
    (let it = sp_phaser_iteration pl (phaser run); opt = opts (c_st run) in
     phaser_counts pl \<and> 0 < P \<and> 0 < L \<and> 0 < M \<and>
     oint opt I_output_period = P \<and> oint opt I_log_output_period = L \<and> oint opt I_max_iterations = M \<and>
     oint opt I_cur_iteration = it \<and> 0 \<le> it \<and> scheduled P L it \<and>
     (\<forall>k. 0 < k \<and> k < it \<and> scheduled P L k \<longrightarrow> k < M) \<and>
     (if flog opt then map l_iter (log_lines (c_st run)) else []) = filter (\<lambda>k. L dvd k) [1..it] \<and>
     map fst (written run) = map (\<lambda>k. k - 1) (filter (\<lambda>k. P dvd k) [1..it]))"

lemma clean_step_Inr:
  assumes inv: "clean_inv pl P L M run" and step: "clean_step sp pl speed run = Inr run'"
  defines "it \<equiv> sp_phaser_iteration pl (phaser run)" and "it' \<equiv> sp_phaser_iteration pl (phaser run')"
  shows "it < it'" and "scheduled P L it'" and "\<And>k. it < k \<Longrightarrow> k < it' \<Longrightarrow> \<not> scheduled P L k"
    and "map fst (written run') = map fst (written run) @ (if P dvd it' then [it' - 1] else [])"
    and "(if flog (opts (c_st run')) then map l_iter (log_lines (c_st run')) else []) =
      (if flog (opts (c_st run)) then map l_iter (log_lines (c_st run)) else []) @ (if L dvd it' then [it'] else [])"
    and "oint (opts (c_st run')) I_cur_iteration = it'"
    and "k \<notin> {I_cur_iteration, I_algorithm, I_reconstruction_finished} \<Longrightarrow>
      oint (opts (c_st run')) k = oint (opts (c_st run)) k"
proof -
  let ?d = "min (P - it mod P) (L - it mod L)"
  let ?ph = "sp_phaser_iterate pl (phaser run) ?d"
  let ?st = "(c_st run)\<lparr>opts := set_int I_cur_iteration (sp_phaser_iteration pl ?ph) (opts (c_st run))\<rparr>"
  have P: "0 < P" and L: "0 < L" and it: "0 \<le> it" and counts: "phaser_counts pl"
    and periods: "oint (opts (c_st run)) I_output_period = P" "oint (opts (c_st run)) I_log_output_period = L"
    using inv by (simp_all add: clean_inv_def Let_def it_def)
  have d: "0 < ?d" using next_multiple(1) [OF P, of it] next_multiple(1) [OF L, of it] by simp
  then have count: "sp_phaser_iteration pl ?ph = it + ?d"
    using counts by (simp add: phaser_counts_def it_def)
  have divides: "Q dvd it + ?d \<longleftrightarrow> ?d = Q - it mod Q" if "0 < Q" "?d \<le> Q - it mod Q" for Q
  proof
    assume "Q dvd it + ?d"
    then show "?d = Q - it mod Q" using next_multiple(2) [OF that(1), of it ?d] d that(2) by linarith
  next
    assume "?d = Q - it mod Q"
    then show "Q dvd it + ?d" using next_multiple(3) [OF that(1), of it] by (rule ssubst)
  qed
  have dP: "P dvd it + ?d \<longleftrightarrow> ?d = P - it mod P" and dL: "L dvd it + ?d \<longleftrightarrow> ?d = L - it mod L"
    by (rule divides [OF P], simp, rule divides [OF L], simp)
  from step obtain st' where
      run': "run' = \<lparr>phaser = ?ph, c_st = st', written = written run @
        (if P dvd it + ?d then [write_from_phaser sp pl (oint (opts st') I_output_projection) ?ph] else [])\<rparr>"
      and st': "(if L dvd it + ?d then output_from_phaser sp pl speed ?ph ?st else Inr ?st) = Inr st'"
    unfolding clean_step_def Let_def periods dP dL
    using P L it by (auto simp: it_def [symmetric])
  have it': "it' = it + ?d" using run' count by (simp add: it'_def)
  show "it < it'" using it' d by simp
  show "scheduled P L it'" using it' dP dL by (auto simp: scheduled_def min_def)
  show "\<not> scheduled P L k" if "it < k" "k < it'" for k
    using that it' next_multiple(2) [OF P, of it "k - it"] next_multiple(2) [OF L, of it "k - it"]
    by (auto simp: scheduled_def)
  show "map fst (written run') = map fst (written run) @ (if P dvd it' then [it' - 1] else [])"
    unfolding run' it' using count by (simp add: write_from_phaser_def)
  have c: "c_st run' = st'" using run' by simp
  show "(if flog (opts (c_st run')) then map l_iter (log_lines (c_st run')) else []) =
      (if flog (opts (c_st run)) then map l_iter (log_lines (c_st run)) else []) @ (if L dvd it' then [it'] else [])"
    "oint (opts (c_st run')) I_cur_iteration = it'"
    "k \<notin> {I_cur_iteration, I_algorithm, I_reconstruction_finished} \<Longrightarrow>
      oint (opts (c_st run')) k = oint (opts (c_st run)) k"
    using st' output_to_log_writes [of sp speed _ _ _ _ _ ?st st']
    unfolding c it' by (auto simp: output_from_phaser_def count split: if_splits)
qed

lemma clean_inv_step:
  assumes inv: "clean_inv pl P L M run" and go: "clean_continues run"
    and step: "clean_step sp pl speed run = Inr run'"
  shows "clean_inv pl P L M run'"
proof -
  let ?it = "sp_phaser_iteration pl (phaser run)" and ?it' = "sp_phaser_iteration pl (phaser run')"
  note eff = clean_step_Inr [OF inv step]
  have it: "0 \<le> ?it" "?it < M" using inv go by (auto simp: clean_inv_def clean_continues_def Let_def)
  have new: "filter Q [1..?it'] = filter Q [1..?it] @ (if Q ?it' then [?it'] else [])"
    if "\<And>k. Q k \<Longrightarrow> scheduled P L k" for Q
    by (rule filter_next) (use it eff(1,3) that in auto)
  have newP: "filter (\<lambda>k. P dvd k) [1..?it'] = filter (\<lambda>k. P dvd k) [1..?it] @ (if P dvd ?it' then [?it'] else [])"
    and newL: "filter (\<lambda>k. L dvd k) [1..?it'] = filter (\<lambda>k. L dvd k) [1..?it] @ (if L dvd ?it' then [?it'] else [])"
    by (rule new, simp add: scheduled_def)+
  have below: "k < M" if "0 < k" "k < ?it'" "scheduled P L k" for k
  proof -
    have "k \<le> ?it" using eff(3) that by (meson not_le)
    then show ?thesis using it by linarith
  qed
  have keep: "oint (opts (c_st run')) k = oint (opts (c_st run)) k"
    if "k \<in> {I_output_period, I_log_output_period, I_max_iterations}" for k
    using that by (intro eff(7)) auto
  show ?thesis
    using inv it(1) eff(1,2,4,5,6) below keep newP newL unfolding clean_inv_def Let_def
    by (auto simp del: upto.simps)
qed

lemma clean_rounds_step:
  assumes inv: "clean_inv pl P L M run" and go: "clean_continues run" and step: "clean_step sp pl speed run = Inr run'"
  shows "nat (M - sp_phaser_iteration pl (phaser run')) < nat (M - sp_phaser_iteration pl (phaser run))"
  using inv go clean_step_Inr(1) [OF inv step] by (auto simp: clean_inv_def clean_continues_def Let_def)

interpretation clean: bounded_loop clean_continues "clean_step sp pl speed" "\<lambda>n. clean_loop n sp pl speed"
    "clean_inv pl P L M" "\<lambda>run. nat (M - sp_phaser_iteration pl (phaser run))" for sp pl speed P L M
  by unfold_locales (rule clean_loop.simps, rule clean_inv_step, assumption+, rule clean_rounds_step, assumption+)

lemma clean_inv_start:
  assumes "clean_start sp pl amp s st = Inr run" and "phaser_counts pl"
    and "0 < oint (opts st) I_output_period" and "0 < oint (opts st) I_log_output_period"
    and "0 < oint (opts st) I_max_iterations"
  shows "clean_inv pl (oint (opts st) I_output_period) (oint (opts st) I_log_output_period)
      (oint (opts st) I_max_iterations) run"
  using assms
  by (auto simp: clean_start_def clean_inv_def scheduled_def phaser_counts_def get_algorithm_def init_log_def
      set_int_def Let_def split: option.splits)

lemma clean_inv_final:
  assumes "clean_inv pl P L M run" and "\<not> clean_continues run"
  shows "let N = sp_phaser_iteration pl (phaser run); lines = log_lines (c_st run) in
    M \<le> N \<and> (P dvd N \<or> L dvd N) \<and> (\<forall>k. M \<le> k \<and> (P dvd k \<or> L dvd k) \<longrightarrow> N \<le> k) \<and>
    (if flog (opts (c_st run)) then map l_iter lines else []) = filter (\<lambda>k. L dvd k) [1..N] \<and>
    map fst (written run) = map (\<lambda>k. k - 1) (filter (\<lambda>k. P dvd k) [1..N])"
proof -
  let ?N = "sp_phaser_iteration pl (phaser run)"
  note inv = assms(1) [unfolded clean_inv_def Let_def]
  have "M \<le> ?N" and sched: "scheduled P L ?N"
    using inv assms(2) by (simp_all add: clean_continues_def Let_def)
  moreover have "?N \<le> k" if k: "M \<le> k" "scheduled P L k" for k
  proof (rule ccontr)
    assume "\<not> ?N \<le> k"
    moreover have "0 < M" using inv by (elim conjE)
    ultimately have "0 < k \<and> k < ?N \<and> scheduled P L k" using k by simp
    moreover have "\<forall>k. 0 < k \<and> k < ?N \<and> scheduled P L k \<longrightarrow> k < M" using inv by (elim conjE)
    ultimately have "k < M" by blast
    then show False using k by simp
  qed
  ultimately show ?thesis using inv unfolding scheduled_def Let_def by blast
qed

text \<open>
  Property C33 (termination): the schedule of the fast path.  With a maximum of \<open>M\<close> iterations the loop
  ends, and it does so at the first multiple of one of the two periods that reaches \<open>M\<close>, not at \<open>M\<close>
  itself.  It logs exactly at the multiples of \<open>log_output_period\<close> up to there and writes images
  exactly at those of \<open>output_period\<close>, in order, under the number before the multiple; a real-space error
  below the tolerance does not stop it.
\<close>

theorem fast_path_schedule:
  fixes st :: hawk
  assumes "phaser_counts pl"
  defines "P \<equiv> oint (opts st) I_output_period" and "L \<equiv> oint (opts st) I_log_output_period"
    and "M \<equiv> oint (opts st) I_max_iterations"
  assumes "0 < P" and "0 < L" and "0 < M" and "nat M < fuel"
  shows "complete_reconstruction_clean fuel sp pl speed amp s st \<noteq> Inr None \<and>
    (\<forall>run. complete_reconstruction_clean fuel sp pl speed amp s st = Inr (Some run) \<longrightarrow>
      (let N = sp_phaser_iteration pl (phaser run); lines = log_lines (c_st run) in
       M \<le> N \<and> (P dvd N \<or> L dvd N) \<and> (\<forall>k. M \<le> k \<and> (P dvd k \<or> L dvd k) \<longrightarrow> N \<le> k) \<and>
       (if flog (opts (c_st run)) then map l_iter lines else []) = filter (\<lambda>k. L dvd k) [1..N] \<and>
       map fst (written run) = map (\<lambda>k. k - 1) (filter (\<lambda>k. P dvd k) [1..N])))"
proof (cases "clean_start sp pl amp s st")
  case (Inl f)
  then show ?thesis by (simp add: complete_reconstruction_clean_def)
next
  case (Inr run0)
  then have inv0: "clean_inv pl P L M run0"
    unfolding P_def L_def M_def using assms by (intro clean_inv_start) simp_all
  have run: "complete_reconstruction_clean fuel sp pl speed amp s st = clean_loop fuel sp pl speed run0"
    using Inr by (simp add: complete_reconstruction_clean_def)
  have "nat (M - sp_phaser_iteration pl (phaser run0)) < fuel"
    using inv0 assms(8) unfolding clean_inv_def Let_def by linarith
  then have ends: "clean_loop fuel sp pl speed run0 \<noteq> Inr None"
    by (rule clean.loop_ends [OF inv0])
  have "clean_inv pl P L M run' \<and> \<not> clean_continues run'" if "clean_loop fuel sp pl speed run0 = Inr (Some run')" for run'
    using that inv0 by (rule clean.loop_result)
  then show ?thesis
    unfolding run using ends clean_inv_final [of pl P L M] by blast
qed

text \<open>A phaser that only counts, on which the loop can be run.\<close>

definition counting_phaser :: "int phaser_library" where
  "counting_phaser = \<lparr>sp_phaser_start = (\<lambda>a s e amp g f. 0), sp_phaser_iterate = (\<lambda>ph k. ph + k),
     sp_phaser_iteration = (\<lambda>ph. ph), sp_phaser_amplitudes = (\<lambda>ph. image_of [1, 1]),
     sp_phaser_model = (\<lambda>ph. image_of [2, 1]), sp_phaser_old_model = (\<lambda>ph. image_of [2, 1]),
     sp_phaser_model_with_support = (\<lambda>ph. image_of [2, 0]), sp_phaser_fmodel = (\<lambda>ph. image_of [1, 1]),
     sp_phaser_fmodel_with_mask = (\<lambda>ph. image_of [1, 1]), sp_phaser_support = (\<lambda>ph. image_of [1, 0])\<rparr>"

definition scheduled_hawk :: "int \<Rightarrow> int \<Rightarrow> int \<Rightarrow> hawk" where
  "scheduled_hawk P L M = (example_hawk 0)\<lparr>opts := set_int I_output_period P (set_int I_log_output_period L
     (set_int I_max_iterations M (opts (example_hawk 0))))\<rparr>"

lemma scheduled_line:
  fixes st :: hawk
  assumes "opts st = set_int I_cur_iteration 3 (opts (scheduled_hawk 4 3 2))" and "lg st = init_log example_log"
    and "previous_out st = None" and "sol_superimpose_counter st = 0"
  shows "\<exists>st'. output_from_phaser example_library counting_phaser 1 3 st = Inr st'"
  using assms
  by (auto simp: output_from_phaser_def counting_phaser_def output_to_log_def scheduled_hawk_def init_log_def
      example_state_defs example_library_def fluctuation_step_def measured_def write_line_def solution_step_def
      open_log_def get_beta_def get_blur_radius_def get_object_area_def get_phases_blur_radius_def Let_def
      array_get_def set_int_def smod_nonneg sdiv_nonneg c_rem_def c_div_def split: prod.splits)

lemma scheduled_run:
  "\<exists>run. complete_reconstruction_clean 5 example_library counting_phaser 1 (image_of [1, 1]) (image_of [1, 0])
     (scheduled_hawk 4 3 2) = Inr (Some run) \<and> flog (opts (c_st run)) \<and> phaser run = 3"
proof -
  let ?st = "(scheduled_hawk 4 3 2)\<lparr>lg := init_log example_log\<rparr>"
  let ?st1 = "?st\<lparr>opts := set_int I_cur_iteration 3 (opts ?st)\<rparr>"
  let ?run = "\<lparr>phaser = 0, c_st = ?st, written = []\<rparr>"
  have start: "clean_start example_library counting_phaser (image_of [1, 1]) (image_of [1, 0]) (scheduled_hawk 4 3 2) = Inr ?run"
    by (simp add: clean_start_def clean_algorithm_def clean_support_steps_def get_algorithm_def init_log_def
        scheduled_hawk_def counting_phaser_def Let_def example_state_defs set_int_def fun_eq_iff)
  obtain st' where line: "output_from_phaser example_library counting_phaser 1 3 ?st1 = Inr st'"
    using scheduled_line [of ?st1] by (auto simp: scheduled_hawk_def example_hawk_def)
  note eff = output_to_log_writes [OF line [unfolded output_from_phaser_def]]
  have step: "clean_step example_library counting_phaser 1 ?run = Inr \<lparr>phaser = 3, c_st = st', written = []\<rparr>"
    using line by (simp add: clean_step_def scheduled_hawk_def example_hawk_def counting_phaser_def Let_def)
  have "clean_loop 5 example_library counting_phaser 1 ?run = Inr (Some \<lparr>phaser = 3, c_st = st', written = []\<rparr>)"
    using eff(3) [of I_max_iterations] eff(3) [of I_cur_iteration]
    by (subst clean_loop.simps, simp add: step clean_continues_def, subst clean_loop.simps)
      (simp add: clean_continues_def scheduled_hawk_def example_hawk_def)
  then show ?thesis using start eff(1) by (simp add: complete_reconstruction_clean_def)
qed

theorem fast_path_schedule_witness:
  "\<exists>run. complete_reconstruction_clean 5 example_library counting_phaser 1 (image_of [1, 1]) (image_of [1, 0])
     (scheduled_hawk 4 3 2) = Inr (Some run) \<and> phaser run = 3 \<and> map l_iter (log_lines (c_st run)) = [3] \<and> written run = []"
proof -
  obtain run where run: "complete_reconstruction_clean 5 example_library counting_phaser 1 (image_of [1, 1])
      (image_of [1, 0]) (scheduled_hawk 4 3 2) = Inr (Some run)" and "flog (opts (c_st run))" "phaser run = 3"
    using scheduled_run by blast
  moreover have "phaser_counts counting_phaser" by (simp add: phaser_counts_def counting_phaser_def)
  moreover have "[1..3] = [1, 2, 3::int]" by (simp add: upto_rec1)
  ultimately show ?thesis
    using fast_path_schedule [of counting_phaser "scheduled_hawk 4 3 2" 5 example_library 1 "image_of [1, 1]" "image_of [1, 0]"]
    by (simp add: scheduled_hawk_def counting_phaser_def Let_def)
qed

end
