(* ===== verification/Reconstruction.thy ===== *)
theory Reconstruction
  imports Fast_Path Phasing
begin

text \<open>
  The reconstruction itself (\<open>complete_reconstruction\<close>, \<open>init_reconstruction\<close> and
  \<open>uwrapc_start\<close> in \<open>src/uwrapc.c\<close>): the choice between the fast path and the program's own
  loop, and that loop, one definition for each of its steps.  Images are freed and assigned
  again in the loop; the pointer whose life matters, \<open>real_in\<close>, is an option, \<open>None\<close> while it
  points to freed memory.  Left out are the previous support, which is only freed, and pictures of what
  is written as data anyway.
\<close>

section \<open>One phasing iteration\<close>

text \<open>
  The dispatch over the algorithms.  \<open>so2d\<close> is the saddle-point iteration of another part of the
  program.  ESPRESSO changes the support it is given.  The result is \<open>None\<close> for an algorithm that
  is not one of these.  (HAAR changes \<open>real_in\<close>, which is not used again.)
\<close>

type_synonym saddle_iteration = "image \<Rightarrow> image \<Rightarrow> image \<Rightarrow> hawk \<Rightarrow> (image \<times> hawk) result"

definition keep_support :: "image \<Rightarrow> (image \<times> hawk) result \<Rightarrow> (image \<times> image \<times> hawk) option result" where
  "keep_support support r = bind_result r (\<lambda>(out, st). Inr (Some (out, support, st)))"

definition phase_once ::
  "spimage \<Rightarrow> saddle_iteration \<Rightarrow> real \<Rightarrow> image option \<Rightarrow> image option \<Rightarrow> image \<Rightarrow> image \<Rightarrow> image \<Rightarrow> hawk \<Rightarrow>
   (image \<times> image \<times> hawk) option result" where
  "phase_once sp so2d speed raar_sigma haar_sigma amp real_in support st0 =
    (let (alg, opt) = get_algorithm (opts st0) (lg st0);
         st = st0\<lparr>opts := opt\<rparr>;
         std_dev = oimage opt P_intensities_std_dev
     in if alg = HIO then keep_support support (basic_hio_iteration sp speed amp real_in support st)
        else if alg = RAAR then
          keep_support support (basic_raar_iteration sp speed amp raar_sigma real_in support st)
        else if alg = HPR then keep_support support (basic_hpr_iteration sp speed amp real_in support st)
        else if alg = CFLIP then keep_support support (basic_cflip_iteration sp speed amp real_in support st)
        else if alg = ESPRESSO then
          bind_result (basic_espresso_iteration sp speed amp real_in support st) (\<lambda>r. Inr (Some r))
        else if alg = HAAR then
          bind_result (basic_haar_iteration sp speed amp haar_sigma real_in support st) (\<lambda>(out, _, st).
            Inr (Some (out, support, st)))
        else if alg = SO2D then keep_support support (so2d amp real_in support st)
        else if alg = RAAR_PROJ then
          keep_support support (basic_raar_proj_iteration sp speed amp std_dev real_in support st)
        else if alg = HIO_PROJ then
          keep_support support (basic_hio_proj_iteration sp speed amp std_dev real_in support st)
        else if alg = DIFF_MAP then
          keep_support support (serial_difference_map_iteration sp speed amp real_in support st)
        else Inr None)"

section \<open>The state of the loop\<close>

record run =
  r_st :: hawk
  r_amp :: image
  real_in :: "image option"
  real_space :: image
  support :: image
  real_space_sum :: image
  real_space_sum_n :: int
  radius :: real
  support_size :: real
  stop :: int
  broke :: bool
  files :: "(int \<times> image \<times> image \<times> image) list"

abbreviation r_int :: "run \<Rightarrow> int_field \<Rightarrow> int" where
  "r_int run k \<equiv> oint (opts (r_st run)) k"

abbreviation r_real :: "run \<Rightarrow> real_field \<Rightarrow> real" where
  "r_real run k \<equiv> oreal (opts (r_st run)) k"

definition cleared :: "image \<Rightarrow> image" where
  "cleared a = on_pixels (sp_image_size a) (\<lambda>_ _. sp_cinit 0 0) a"

text \<open>Freeing an image that is freed already, or reading it, is undefined.\<close>

definition live :: "image option \<Rightarrow> image result" where
  "live p = (case p of None \<Rightarrow> Inl Use_After_Free | Some a \<Rightarrow> Inr a)"

lemma live_simps [simp]: "live None = Inl Use_After_Free" "live (Some a) = Inr a"
  by (simp_all add: live_def)

text \<open>\<open>period && cur_iteration%period == period-1\<close>\<close>

definition due :: "int \<Rightarrow> int \<Rightarrow> bool result" where
  "due period cur =
    (if period = 0 then Inr False else bind_result (c_rem cur period) (\<lambda>r. Inr (r = period - 1)))"

section \<open>The steps of a round\<close>

text \<open>
  At the beginning of a round the images another thread has put in place of the current ones are
  taken over.  What it has put there by iteration \<open>n\<close> is \<open>hook n\<close>, \<open>None\<close> for nothing.
\<close>

type_synonym replacements = "int \<Rightarrow> image option \<times> image option"

definition synchronize_image_data :: "replacements \<Rightarrow> run \<Rightarrow> run" where
  "synchronize_image_data hook run =
    (let (new_image, new_support) = hook (r_int run I_cur_iteration);
         run = (case new_image of None \<Rightarrow> run | Some a \<Rightarrow> run\<lparr>real_space := a\<rparr>)
     in case new_support of None \<Rightarrow> run | Some s \<Rightarrow> run\<lparr>support := s\<rparr>)"

text \<open>The images of the last iterations before an update of the support are summed.\<close>

definition accumulate :: "spimage \<Rightarrow> run \<Rightarrow> run result" where
  "accumulate sp run =
    bind_result (c_rem (r_int run I_cur_iteration) (r_int run I_iterations)) (\<lambda>r.
      Inr (if r_int run I_iterations - r \<le> r_int run I_support_image_averaging
        then run\<lparr>real_space_sum := sp_image_add sp (real_space_sum run) (real_space run),
                 real_space_sum_n := real_space_sum_n run + 1\<rparr>
        else run))"

definition blur_image :: "spimage \<Rightarrow> run \<Rightarrow> run result" where
  "blur_image sp run =
    bind_result (due (r_int run I_image_blur_period) (r_int run I_cur_iteration)) (\<lambda>b.
      if b then bind_result (live (real_in run)) (\<lambda>_.
        let a = sp_gaussian_blur sp (real_space run) (r_real run R_image_blur_radius)
        in Inr (run\<lparr>real_in := Some a, real_space := a\<rparr>))
      else Inr run)"

text \<open>
  The update of the support.  It starts by freeing \<open>real_in\<close>, and so does every one of the error
  reductions with the image it was given.
\<close>

fun error_reductions :: "nat \<Rightarrow> spimage \<Rightarrow> real \<Rightarrow> image \<Rightarrow> image \<Rightarrow> image \<Rightarrow> hawk \<Rightarrow> (image \<times> hawk) result" where
  "error_reductions 0 sp speed amp a s st = Inr (a, st)"
| "error_reductions (Suc k) sp speed amp a s st =
    bind_result (basic_error_reduction_iteration sp speed amp a s st) (\<lambda>(a', st').
      error_reductions k sp speed amp a' s st')"

definition average_images :: "spimage \<Rightarrow> real \<Rightarrow> run \<Rightarrow> run result" where
  "average_images sp speed run =
    bind_result (live (real_in run)) (\<lambda>_.
      let avg = sp_image_scale sp (real_space_sum run) (fp_div (nonfinite sp) 1.0 (real_of_int (real_space_sum_n run)));
          k = nat (r_int run I_error_reduction_iterations_in_support_update)
      in bind_result (error_reductions k sp speed (r_amp run) avg (support run) (r_st run)) (\<lambda>(a, st).
           Inr (run\<lparr>real_in := None, real_space_sum := a, r_st := st\<rparr>)))"

definition smooth_phases :: "spimage \<Rightarrow> run \<Rightarrow> run result" where
  "smooth_phases sp run =
    bind_result (get_phases_blur_radius (nonfinite sp) (opts (r_st run))) (\<lambda>r.
      if r \<noteq> 0 then bind_result (phase_smoothening_iteration sp (real_space run) (opts (r_st run))) (\<lambda>a.
        Inr (run\<lparr>real_space := a\<rparr>))
      else Inr run)"

definition next_support :: "spimage \<Rightarrow> run \<Rightarrow> run result" where
  "next_support sp run =
    (if r_int run I_support_update_algorithm = TEMPLATE_AREA then
       bind_result (get_support_from_initial_support sp (opts (r_st run))) (\<lambda>s. Inr (run\<lparr>support := s\<rparr>))
     else
       bind_result (get_support_level sp (real_space_sum run) (support_size run) (radius run) (r_st run))
         (\<lambda>(level, size, st).
         let st = st\<lparr>lg := (lg st)\<lparr>threshold := level\<rparr>\<rparr>
         in if level > 0 then
              Inr (run\<lparr>support_size := size, r_st := st,
                 support := get_updated_support sp (real_space_sum run) level (radius run) (opts st)\<rparr>)
            else if r_int run I_support_update_algorithm = REAL_ERROR_CAPPED then Inl (Exit 0)
            else Inl Abort))"

text \<open>The amplitudes that are filtered are those of the options as well.\<close>

definition filter_amplitudes :: "spimage \<Rightarrow> run \<Rightarrow> run result" where
  "filter_amplitudes sp run =
    (if r_int run I_filter_intensities \<noteq> 0 then
       bind_result (filter_intensities_with_support sp (r_amp run) (real_space_sum run) (support run)
           (opts (r_st run))) (\<lambda>a.
         Inr (run\<lparr>r_amp := a, r_st := (r_st run)\<lparr>opts := set_image P_amplitudes (Some a) (opts (r_st run))\<rparr>\<rparr>))
     else Inr run)"

definition next_radius :: "spimage \<Rightarrow> run \<Rightarrow> run result" where
  "next_radius sp run =
    (if r_int run I_cur_iteration \<le> r_int run I_iterations_to_min_blur then
       bind_result (get_blur_radius (nonfinite sp) (opts (r_st run))) (\<lambda>r. Inr (run\<lparr>radius := r\<rparr>))
     else Inr run)"

definition stop_check :: "run \<Rightarrow> run" where
  "stop_check run =
    (let run = run\<lparr>real_space_sum_n := 0, real_space_sum := cleared (real_space_sum run)\<rparr>;
         n = (if r_int run I_automatic \<noteq> 0 \<and> r_int run I_algorithm = RAAR \<and> Ereal (lg (r_st run)) < 2 / 10
              then stop run + 1 else stop run)
     in run\<lparr>stop := n, broke := n > 10\<rparr>)"

definition update_support :: "spimage \<Rightarrow> real \<Rightarrow> run \<Rightarrow> run result" where
  "update_support sp speed run =
    bind_result (due (r_int run I_iterations) (r_int run I_cur_iteration)) (\<lambda>b.
      if b then
        bind_result (average_images sp speed run) (\<lambda>run.
        bind_result (smooth_phases sp run) (\<lambda>run.
        bind_result (next_support sp run) (\<lambda>run.
        bind_result (filter_amplitudes sp run) (\<lambda>run.
        bind_result (next_radius sp run) (\<lambda>run.
          Inr (stop_check run))))))
      else Inr run)"

text \<open>The images written every \<open>output_period\<close> iterations.\<close>

definition pattern_inside :: "spimage \<Rightarrow> image \<Rightarrow> image \<Rightarrow> image" where
  "pattern_inside sp s a =
    (let tmp = on_pixels (sp_image_size a) (\<lambda>i z. if sp_real (pixels s ! i) \<noteq> 0 then z else sp_cinit 0 0) a;
         tmp2 = sp_image_fft sp tmp
     in tmp2\<lparr>mask_data := for_pixels (sp_image_size tmp2) (\<lambda>_ _. 1) (mask_data tmp2)\<rparr>)"

definition write_images :: "spimage \<Rightarrow> run \<Rightarrow> run result" where
  "write_images sp run =
    bind_result (c_rem (r_int run I_cur_iteration) (r_int run I_output_period)) (\<lambda>r.
      if r = r_int run I_output_period - 1 then
        bind_result (live (real_in run)) (\<lambda>_.
          Inr (run\<lparr>files := files run @ [(r_int run I_cur_iteration,
            apply_output_projection sp (real_space run) (r_int run I_output_projection) (r_amp run),
            support run, pattern_inside sp (support run) (real_space run))]\<rparr>))
      else Inr run)"

definition break_centrosymmetry :: "run \<Rightarrow> run result" where
  "break_centrosymmetry run =
    bind_result (due (r_int run I_break_centrosym_period) (r_int run I_cur_iteration)) (\<lambda>b.
      Inr (if b then run\<lparr>real_space := centrosym_break_attempt (real_space run)\<rparr> else run))"

text \<open>
  The iteration at the end of a round.  An algorithm that is none of the list leaves the image
  where it is.
\<close>

definition iterate_image :: "spimage \<Rightarrow> saddle_iteration \<Rightarrow> real \<Rightarrow> image option \<Rightarrow> run \<Rightarrow> run result" where
  "iterate_image sp so2d speed exp_sigma run =
    bind_result (live (real_in run)) (\<lambda>_.
    bind_result (phase_once sp so2d speed exp_sigma exp_sigma (r_amp run) (real_space run) (support run) (r_st run))
      (\<lambda>r. let run = run\<lparr>real_in := Some (real_space run)\<rparr> in
         Inr (case r of None \<Rightarrow> run
            | Some (out, s, st) \<Rightarrow> run\<lparr>real_space := out, support := s, r_st := st\<rparr>)))"

definition next_iteration :: "run \<Rightarrow> run" where
  "next_iteration run = run\<lparr>r_st := (r_st run)\<lparr>opts := set_int I_cur_iteration
     (r_int run I_cur_iteration + 1) (opts (r_st run))\<rparr>\<rparr>"

definition reconstruction_round ::
  "spimage \<Rightarrow> saddle_iteration \<Rightarrow> replacements \<Rightarrow> real \<Rightarrow> image option \<Rightarrow> run \<Rightarrow> run result" where
  "reconstruction_round sp so2d hook speed exp_sigma run =
    bind_result (accumulate sp (synchronize_image_data hook run)) (\<lambda>run.
    bind_result (blur_image sp run) (\<lambda>run.
    bind_result (update_support sp speed run) (\<lambda>run.
      if broke run then Inr run
      else
        bind_result (write_images sp run) (\<lambda>run.
        bind_result (break_centrosymmetry run) (\<lambda>run.
        bind_result (iterate_image sp so2d speed exp_sigma run) (\<lambda>run.
          Inr (next_iteration run)))))))"

section \<open>The whole reconstruction\<close>

definition round_follows :: "run \<Rightarrow> bool" where
  "round_follows run \<longleftrightarrow> \<not> broke run \<and> r_int run I_reconstruction_finished = 0 \<and>
     (r_int run I_max_iterations = 0 \<or> r_int run I_cur_iteration < r_int run I_max_iterations)"

fun reconstruction_loop ::
  "nat \<Rightarrow> spimage \<Rightarrow> saddle_iteration \<Rightarrow> replacements \<Rightarrow> real \<Rightarrow> image option \<Rightarrow> run \<Rightarrow> run option result" where
  "reconstruction_loop fuel sp so2d hook speed exp_sigma run =
    (if round_follows run then
       (case fuel of 0 \<Rightarrow> Inr None
        | Suc n \<Rightarrow> bind_result (reconstruction_round sp so2d hook speed exp_sigma run)
            (reconstruction_loop n sp so2d hook speed exp_sigma))
     else Inr (Some run))"

declare reconstruction_loop.simps [simp del]

text \<open>
  The state before the first round: the log, the support and its size, the guess with its
  phases set to zero, and a first iteration, which is made at iteration number 0 like that of the
  first round.  The level of the initial threshold is kept negated as the size of the support.
\<close>

definition initial_support_size :: "(real \<Rightarrow> real) \<Rightarrow> image \<Rightarrow> real" where
  "initial_support_size nf s =
     fp_div nf (for_acc (sp_image_size s) (\<lambda>i c. if sp_real (pixels s ! i) \<noteq> 0 then c + 1 else c) 0)
       (real (sp_image_size s)) * 100"

definition start_options :: "options \<Rightarrow> options" where
  "start_options opt =
    (let opt = set_int I_reconstruction_finished 0 (set_int I_cur_iteration 0 (opt\<lparr>flog := False\<rparr>))
     in if oint opt I_automatic \<noteq> 0 then set_int I_algorithm HIO opt else opt)"

definition start_log :: "(real \<Rightarrow> real) \<Rightarrow> real \<Rightarrow> image \<Rightarrow> log \<Rightarrow> log" where
  "start_log nf level s l = (init_log l)\<lparr>threshold := level, SupSize := initial_support_size nf s\<rparr>"

definition start_run ::
  "spimage \<Rightarrow> saddle_iteration \<Rightarrow> real \<Rightarrow> image \<Rightarrow> image \<Rightarrow> hawk \<Rightarrow> run result" where
  "start_run sp so2d speed amp initial_support st0 =
    (let level = oreal (opts st0) R_new_level;
         st = st0\<lparr>opts := start_options (opts st0), lg := start_log (nonfinite sp) level initial_support (lg st0)\<rparr>
     in bind_result (deref (oimage (opts st) P_image_guess)) (\<lambda>guess.
        let first = sp_image_rephase_zero sp guess in
        bind_result (phase_once sp so2d speed (oimage (opts st) P_intensities_std_dev) None amp first initial_support st)
          (\<lambda>r. case r of
             None \<Rightarrow> Inl (Fatal ''Error: Undefined algorithm!'')
           | Some (out, s, st) \<Rightarrow>
               Inr \<lparr>r_st = st\<lparr>opts := set_int I_is_running 1 (opts st)\<rparr>, r_amp = amp, real_in = Some first,
                  real_space = out, support = s, real_space_sum = cleared
                    (sp_image_alloc sp (size_x initial_support) (size_y initial_support) (size_z initial_support)),
                  real_space_sum_n = 0,
                  radius = oreal (opts st) R_max_blur_radius, support_size = - level, stop = 0, broke = False,
                  files = []\<rparr>)))"

definition takes_fast_path :: "int \<Rightarrow> options \<Rightarrow> bool" where
  "takes_fast_path alg opt \<longleftrightarrow>
     (alg = HIO \<or> alg = RAAR \<or> alg = DIFF_MAP) \<and>
     oint opt I_support_update_algorithm \<in> {FIXED, DECREASING_AREA, TEMPLATE_AREA, STATIC} \<and>
     oint opt I_support_image_averaging = 1"

text \<open>The last images, and the end of \<open>real_in\<close>.\<close>

definition final_images :: "spimage \<Rightarrow> run \<Rightarrow> run result" where
  "final_images sp run =
    (let pattern = sp_image_fft sp (real_space run);
         pattern = pattern\<lparr>mask_data := for_pixels (sp_image_size pattern) (\<lambda>_ _. 1) (mask_data pattern)\<rparr>
     in bind_result (live (real_in run)) (\<lambda>_.
          Inr (run\<lparr>real_in := None, r_st := (r_st run)\<lparr>opts := (opts (r_st run))\<lparr>flog := False\<rparr>\<rparr>,
            files := files run @ [(-1,
              apply_output_projection sp (real_space run) (r_int run I_output_projection) (r_amp run),
              support run, pattern)]\<rparr>)))"

definition slow_reconstruction ::
  "nat \<Rightarrow> spimage \<Rightarrow> saddle_iteration \<Rightarrow> replacements \<Rightarrow> real \<Rightarrow> image \<Rightarrow> image \<Rightarrow> image option \<Rightarrow> hawk \<Rightarrow>
   run option result" where
  "slow_reconstruction fuel sp so2d hook speed amp initial_support exp_sigma st =
    bind_result (start_run sp so2d speed amp initial_support st) (\<lambda>run.
    bind_result (reconstruction_loop fuel sp so2d hook speed exp_sigma run) (\<lambda>r.
      case r of None \<Rightarrow> Inr None | Some run \<Rightarrow> bind_result (final_images sp run) (\<lambda>run. Inr (Some run))))"

text \<open>
  The choice.  \<open>get_algorithm\<close> reads a \<open>log\<close> that has not been initialized yet: \<open>st\<close> holds
  whatever is in its memory.
\<close>

definition complete_reconstruction ::
  "nat \<Rightarrow> spimage \<Rightarrow> 'ph phaser_library \<Rightarrow> saddle_iteration \<Rightarrow> replacements \<Rightarrow> real \<Rightarrow> image \<Rightarrow> image \<Rightarrow>
   image option \<Rightarrow> hawk \<Rightarrow> ('ph clean_run + run) option result" where
  "complete_reconstruction fuel sp pl so2d hook speed amp initial_support exp_sigma st0 =
    (let (alg, opt) = get_algorithm (opts st0) (lg st0); st = st0\<lparr>opts := opt\<rparr>
     in if takes_fast_path alg opt then
          bind_result (complete_reconstruction_clean fuel sp pl speed amp initial_support st) (\<lambda>r.
            Inr (map_option Inl r))
        else bind_result (slow_reconstruction fuel sp so2d hook speed amp initial_support exp_sigma st) (\<lambda>r.
            Inr (map_option Inr r)))"

text \<open>
  \<open>init_reconstruction\<close>: one reconstruction, or a thousand with \<open>automatic\<close>; none with
  \<open>genetic_optimization\<close>, whose call is commented out.  The state is carried from one to the next.
\<close>

fun state_of :: "'ph clean_run + run \<Rightarrow> hawk" where
  "state_of (Inl run) = c_st run"
| "state_of (Inr run) = r_st run"

definition reconstruct_with :: "(hawk \<Rightarrow> ('ph clean_run + run) option result) \<Rightarrow> hawk \<Rightarrow> hawk option result" where
  "reconstruct_with reconstruct st =
    (if oint (opts st) I_genetic_optimization \<noteq> 0 then Inr (Some st)
     else bind_result (reconstruct st) (\<lambda>r. Inr (map_option state_of r)))"

fun repeat_reconstruction :: "nat \<Rightarrow> (hawk \<Rightarrow> ('ph clean_run + run) option result) \<Rightarrow> hawk \<Rightarrow> hawk option result" where
  "repeat_reconstruction 0 reconstruct st = Inr (Some st)"
| "repeat_reconstruction (Suc k) reconstruct st =
    bind_result (reconstruct_with reconstruct st) (\<lambda>r.
      case r of None \<Rightarrow> Inr None | Some st' \<Rightarrow> repeat_reconstruction k reconstruct st')"

definition reconstruct_current ::
  "nat \<Rightarrow> spimage \<Rightarrow> 'ph phaser_library \<Rightarrow> saddle_iteration \<Rightarrow> replacements \<Rightarrow> real \<Rightarrow> hawk \<Rightarrow>
   ('ph clean_run + run) option result" where
  "reconstruct_current fuel sp pl so2d hook speed st =
    bind_result (deref (oimage (opts st) P_amplitudes)) (\<lambda>amp.
    bind_result (deref (oimage (opts st) P_init_support)) (\<lambda>s.
      complete_reconstruction fuel sp pl so2d hook speed amp s (oimage (opts st) P_intensities_std_dev) st))"

definition init_reconstruction ::
  "nat \<Rightarrow> spimage \<Rightarrow> spsetup \<Rightarrow> 'ph phaser_library \<Rightarrow> saddle_iteration \<Rightarrow> replacements \<Rightarrow> real \<Rightarrow> hawk \<Rightarrow>
   hawk option result" where
  "init_reconstruction fuel sp su pl so2d hook speed st =
    bind_result (prepare_images sp su (opts st)) (\<lambda>opt.
      repeat_reconstruction (if oint opt I_automatic \<noteq> 0 then 1000 else 1)
        (reconstruct_current fuel sp pl so2d hook speed) (st\<lparr>opts := opt\<rparr>))"

section \<open>The contract of a phasing iteration\<close>

text \<open>
  What the loop relies on in every algorithm: an iteration ends with a line of the log when one is
  due, and has changed neither the options nor the log before.
\<close>

definition ends_iteration :: "spimage \<Rightarrow> real \<Rightarrow> image \<Rightarrow> image \<Rightarrow> hawk \<Rightarrow> hawk \<Rightarrow> bool" where
  "ends_iteration sp speed amp a st st' \<longleftrightarrow>
    (\<exists>st1 b fft s1 st2. opts st1 = opts st \<and> log_lines st1 = log_lines st \<and>
      log_if_due sp speed amp a b fft s1 st1 = Inr st2 \<and> opts st' = opts st2 \<and> log_lines st' = log_lines st2)"

locale phasing_iteration =
  fixes sp :: spimage and speed :: real
    and iteration :: "image \<Rightarrow> image \<Rightarrow> image \<Rightarrow> hawk \<Rightarrow> (image \<times> hawk) result"
  assumes ends_with_log: "iteration amp a s st = Inr (out, st') \<Longrightarrow> ends_iteration sp speed amp a st st'"
begin

lemma keeps_counters:
  assumes "iteration amp a s st = Inr (out, st')" and "k \<noteq> I_algorithm" and "k \<noteq> I_reconstruction_finished"
  shows "oint (opts st') k = oint (opts st) k"
  using ends_with_log [OF assms(1)] assms(2,3) output_to_log_writes(3)
  by (auto simp: ends_iteration_def log_if_due_def split: if_splits)

lemma logs_when_due:
  assumes "iteration amp a s st = Inr (out, st')"
    and "0 \<le> oint (opts st) I_cur_iteration" and "0 < oint (opts st) I_log_output_period"
  shows "(if flog (opts st') then map l_iter (log_lines st') else []) =
    (if flog (opts st) then map l_iter (log_lines st) else []) @
    (if oint (opts st) I_cur_iteration mod oint (opts st) I_log_output_period = oint (opts st) I_log_output_period - 1
     then [oint (opts st) I_cur_iteration] else [])"
proof -
  obtain st1 b fft s1 st2 where same: "opts st1 = opts st" "log_lines st1 = log_lines st"
    and log: "log_if_due sp speed amp a b fft s1 st1 = Inr st2"
    and out: "opts st' = opts st2" "log_lines st' = log_lines st2"
    using ends_with_log [OF assms(1)] by (auto simp: ends_iteration_def)
  show ?thesis
    using log output_to_log_writes(1,2) [of sp speed amp a b fft s1 st1 st2] assms(2,3)
    unfolding out same [symmetric] by (auto simp: log_if_due_def split: if_splits)
qed

end

lemma finish_log:
  "finish sp speed amp a b fft s st1 = Inr (out, st') \<Longrightarrow> opts st1 = opts st \<Longrightarrow> log_lines st1 = log_lines st \<Longrightarrow>
   ends_iteration sp speed amp a st st'"
  by (auto simp: finish_def ends_iteration_def) blast

lemma raar_state:
  "mark_raar_weak_reflections sp amp st = Inr st' \<Longrightarrow> opts st' = opts st \<and> log_lines st' = log_lines st"
  "opts (load_sigma sp amp sg st) = opts st" "log_lines (load_sigma sp amp sg st) = log_lines st"
  by (auto simp: mark_raar_weak_reflections_def load_sigma_def Let_def split: if_splits)

interpretation hio_iteration: phasing_iteration sp speed "basic_hio_iteration sp speed" for sp speed
  by unfold_locales (auto simp: basic_hio_iteration_def Let_def intro: finish_log)

interpretation hio_proj_iteration: phasing_iteration sp speed
    "\<lambda>amp. basic_hio_proj_iteration sp speed amp sg" for sp speed sg
  by unfold_locales (auto simp: basic_hio_proj_iteration_def Let_def intro: finish_log)

interpretation serial_raar: phasing_iteration sp speed "serial_raar_iteration sp speed" for sp speed
  by unfold_locales (auto simp: serial_raar_iteration_def Let_def intro: finish_log)

interpretation raar_iteration: phasing_iteration sp speed "\<lambda>amp. basic_raar_iteration sp speed amp sg" for sp speed sg
  by unfold_locales (auto simp: basic_raar_iteration_def Let_def raar_state dest!: raar_state(1) intro: finish_log)

interpretation raar_proj_iteration: phasing_iteration sp speed
    "\<lambda>amp. basic_raar_proj_iteration sp speed amp sg" for sp speed sg
  by unfold_locales (auto simp: basic_raar_proj_iteration_def Let_def intro: finish_log)

interpretation er_iteration: phasing_iteration sp speed "basic_error_reduction_iteration sp speed" for sp speed
  by unfold_locales (auto simp: basic_error_reduction_iteration_def Let_def intro: finish_log)

interpretation hpr_iteration: phasing_iteration sp speed "basic_hpr_iteration sp speed" for sp speed
  by unfold_locales (auto simp: basic_hpr_iteration_def Let_def intro: finish_log)

interpretation cflip_iteration: phasing_iteration sp speed "basic_cflip_iteration sp speed" for sp speed
  by unfold_locales (auto simp: basic_cflip_iteration_def Let_def split: prod.splits intro: finish_log)

interpretation difference_map: phasing_iteration sp speed "serial_difference_map_iteration sp speed" for sp speed
  by unfold_locales (auto simp: serial_difference_map_iteration_def Let_def intro: finish_log)

text \<open>The two algorithms that change one of their other arguments too.\<close>

definition espresso_image :: "spimage \<Rightarrow> real \<Rightarrow> image \<Rightarrow> image \<Rightarrow> image \<Rightarrow> hawk \<Rightarrow> (image \<times> hawk) result" where
  "espresso_image sp speed amp a s st =
     bind_result (basic_espresso_iteration sp speed amp a s st) (\<lambda>(out, _, st'). Inr (out, st'))"

definition haar_image ::
  "spimage \<Rightarrow> real \<Rightarrow> image option \<Rightarrow> image \<Rightarrow> image \<Rightarrow> image \<Rightarrow> hawk \<Rightarrow> (image \<times> hawk) result" where
  "haar_image sp speed sg amp a s st =
     bind_result (basic_haar_iteration sp speed amp sg a s st) (\<lambda>(out, _, st'). Inr (out, st'))"

interpretation haar_iteration: phasing_iteration sp speed "haar_image sp speed sg" for sp speed sg
proof
  fix amp a s st out st'
  assume "haar_image sp speed sg amp a s st = Inr (out, st')"
  then obtain z st2 x' where "basic_raar_iteration sp speed amp sg a s
      (st\<lparr>haar_x := Some (case haar_x st of None \<Rightarrow> a | Some x \<Rightarrow> x)\<rparr>) = Inr (z, st2)"
    and "st' = st2\<lparr>haar_x := x'\<rparr>"
    by (auto simp: haar_image_def basic_haar_iteration_def Let_def split: prod.splits)
  then show "ends_iteration sp speed amp a st st'"
    by (auto dest!: raar_iteration.ends_with_log simp: ends_iteration_def)
qed

interpretation espresso_iteration: phasing_iteration sp speed "espresso_image sp speed" for sp speed
  by unfold_locales
    (auto simp: espresso_image_def basic_espresso_iteration_def Let_def split: prod.splits intro: finish_log)

section \<open>The rounds of the program's own loop\<close>

lemma get_algorithm_keeps:
  "k \<noteq> I_algorithm \<Longrightarrow> oint (snd (get_algorithm opt l)) k = oint opt k"
  "flog (snd (get_algorithm opt l)) = flog opt"
  by (auto simp: get_algorithm_def set_int_def Let_def)

text \<open>Every branch of the dispatch is one of the iterations above, on a state whose algorithm is set.\<close>

lemma phase_once_cases:
  assumes "phase_once sp so2d speed rs hs amp a s st = Inr (Some (out, s', st'))"
    and "phasing_iteration sp speed so2d"
  obtains iteration where "phasing_iteration sp speed iteration"
    and "iteration amp a s (st\<lparr>opts := snd (get_algorithm (opts st) (lg st))\<rparr>) = Inr (out, st')"
proof -
  obtain alg opt where ga: "get_algorithm (opts st) (lg st) = (alg, opt)" by fastforce
  let ?st = "st\<lparr>opts := opt\<rparr>" and ?sd = "oimage opt P_intensities_std_dev"
  have from_keep: "r = Inr (out, st')" if "keep_support s r = Inr (Some (out, s', st'))" for r
    using that by (auto simp: keep_support_def)
  note branch = that [unfolded ga snd_conv]
  from assms(1) consider "basic_hio_iteration sp speed amp a s ?st = Inr (out, st')"
    | "basic_raar_iteration sp speed amp rs a s ?st = Inr (out, st')"
    | "basic_hpr_iteration sp speed amp a s ?st = Inr (out, st')"
    | "basic_cflip_iteration sp speed amp a s ?st = Inr (out, st')"
    | "basic_espresso_iteration sp speed amp a s ?st = Inr (out, s', st')"
    | "haar_image sp speed hs amp a s ?st = Inr (out, st')"
    | "so2d amp a s ?st = Inr (out, st')"
    | "basic_raar_proj_iteration sp speed amp ?sd a s ?st = Inr (out, st')"
    | "basic_hio_proj_iteration sp speed amp ?sd a s ?st = Inr (out, st')"
    | "serial_difference_map_iteration sp speed amp a s ?st = Inr (out, st')"
    by (auto simp: phase_once_def ga Let_def haar_image_def split: if_splits prod.splits dest!: from_keep)
  then show thesis
  proof cases
    case 5
    then have "espresso_image sp speed amp a s ?st = Inr (out, st')" by (simp add: espresso_image_def)
    then show thesis by (rule branch [OF espresso_iteration.phasing_iteration_axioms])
  qed (erule branch [OF hio_iteration.phasing_iteration_axioms],
      erule branch [OF raar_iteration.phasing_iteration_axioms],
      erule branch [OF hpr_iteration.phasing_iteration_axioms],
      erule branch [OF cflip_iteration.phasing_iteration_axioms],
      erule branch [OF haar_iteration.phasing_iteration_axioms],
      erule branch [OF assms(2)],
      erule branch [OF raar_proj_iteration.phasing_iteration_axioms],
      erule branch [OF hio_proj_iteration.phasing_iteration_axioms],
      erule branch [OF difference_map.phasing_iteration_axioms])
qed

text \<open>The algorithms of the dispatch; a run that starts with one keeps to them.\<close>

definition phasing_algorithm :: "options \<Rightarrow> bool" where
  "phasing_algorithm opt \<longleftrightarrow> oint opt I_algorithm \<in>
     {HIO, RAAR, DIFF_MAP, HPR, CFLIP, ESPRESSO, HAAR, SO2D, RAAR_PROJ, HIO_PROJ}"

lemma phasing_algorithm_set_int [simp]:
  "k \<noteq> I_algorithm \<Longrightarrow> phasing_algorithm (set_int k v opt) = phasing_algorithm opt"
  by (simp add: phasing_algorithm_def)

lemma get_algorithm_phasing:
  "phasing_algorithm opt \<Longrightarrow> phasing_algorithm (snd (get_algorithm opt l))"
  "oint (snd (get_algorithm opt l)) I_algorithm = fst (get_algorithm opt l)"
  by (auto simp: get_algorithm_def phasing_algorithm_def Let_def)

lemma phase_once_defined:
  assumes "phase_once sp so2d speed rs hs amp a s st = Inr r" and "phasing_algorithm (opts st)"
  shows "r \<noteq> None"
proof -
  obtain alg opt where ga: "get_algorithm (opts st) (lg st) = (alg, opt)" by fastforce
  then have "alg \<in> {HIO, RAAR, DIFF_MAP, HPR, CFLIP, ESPRESSO, HAAR, SO2D, RAAR_PROJ, HIO_PROJ}"
    using get_algorithm_phasing [of "opts st" "lg st"] assms(2) by (simp add: phasing_algorithm_def)
  then show ?thesis
    using assms(1) by (auto simp: phase_once_def ga keep_support_def Let_def split: if_splits)
qed

lemma output_to_log_algorithm:
  assumes "output_to_log sp v amp a b c s st = Inr st'" and "phasing_algorithm (opts st)"
  shows "phasing_algorithm (opts st')"
proof -
  from assms(1) obtain l st1 st2 st3 where
    s1: "fluctuation_step a b (st\<lparr>lg := l\<rparr>) = Inr st1" and
    s2: "measured sp amp b c s (open_log st1) = Inr st2" and
    s3: "write_line sp v (solution_step sp b st2) = Inr st3" and st': "st' = check_tolerance st3"
    by (rule output_to_log_InrE)
  have "oint (opts (solution_step sp b st2)) = oint (opts st)"
    using fluctuation_step_keeps [OF s1] s2 by (auto simp: measured_def Let_def)
  then show ?thesis
    using s3 assms(2) by (auto simp: write_line_def get_algorithm_def phasing_algorithm_def st' check_tolerance_def
        Let_def split: if_splits)
qed

lemma phase_once_Some:
  assumes "phase_once sp so2d speed rs hs amp a s st = Inr (Some r)"
  shows "phasing_algorithm (snd (get_algorithm (opts st) (lg st)))"
proof -
  obtain alg opt where ga: "get_algorithm (opts st) (lg st) = (alg, opt)" by fastforce
  then show ?thesis
    using assms get_algorithm_phasing(2) [of "opts st" "lg st"]
    by (auto simp: phase_once_def ga phasing_algorithm_def Let_def split: if_splits)
qed

lemma phase_once_algorithm:
  assumes "phase_once sp so2d speed rs hs amp a s st = Inr (Some (out, s', st'))" and "phasing_iteration sp speed so2d"
  shows "phasing_algorithm (opts st')"
proof -
  from assms obtain iteration where it: "phasing_iteration sp speed iteration"
    and run: "iteration amp a s (st\<lparr>opts := snd (get_algorithm (opts st) (lg st))\<rparr>) = Inr (out, st')"
    by (rule phase_once_cases)
  show ?thesis
    using phasing_iteration.ends_with_log [OF it run] phase_once_Some [OF assms(1)]
      output_to_log_algorithm
    by (auto simp: ends_iteration_def log_if_due_def split: if_splits)
qed

text \<open>What the steps of a round do to the fields the schedule depends on.\<close>

lemma synchronize_keeps [simp]:
  "r_st (synchronize_image_data hook run) = r_st run" "real_in (synchronize_image_data hook run) = real_in run"
  "files (synchronize_image_data hook run) = files run" "broke (synchronize_image_data hook run) = broke run"
  by (simp_all add: synchronize_image_data_def Let_def split: prod.splits option.splits)

lemma accumulate_keeps:
  "accumulate sp run = Inr run' \<Longrightarrow> r_st run' = r_st run \<and> real_in run' = real_in run \<and> files run' = files run \<and> broke run' = broke run"
  by (auto simp: accumulate_def split: if_splits)

lemma blur_image_keeps:
  "blur_image sp run = Inr run' \<Longrightarrow> r_st run' = r_st run \<and> files run' = files run \<and> broke run' = broke run"
  by (auto simp: blur_image_def Let_def split: if_splits)

lemma update_support_not_due:
  "due (r_int run I_iterations) (r_int run I_cur_iteration) = Inr False \<Longrightarrow> update_support sp speed run = Inr run"
  by (simp add: update_support_def)

lemma update_support_frees:
  assumes "update_support sp speed run = Inr run'"
    and "due (r_int run I_iterations) (r_int run I_cur_iteration) = Inr True"
  shows "real_in run' = None"
proof -
  from assms obtain r1 r2 r3 r4 r5 where
    "average_images sp speed run = Inr r1" "smooth_phases sp r1 = Inr r2" "next_support sp r2 = Inr r3"
    "filter_amplitudes sp r3 = Inr r4" "next_radius sp r4 = Inr r5" "run' = stop_check r5"
    by (auto simp: update_support_def)
  moreover from this have "real_in r1 = None" by (auto simp: average_images_def Let_def)
  moreover have "smooth_phases sp r1 = Inr r2 \<Longrightarrow> real_in r2 = real_in r1"
    by (auto simp: smooth_phases_def split: if_splits)
  moreover have "next_support sp r2 = Inr r3 \<Longrightarrow> real_in r3 = real_in r2"
    by (auto simp: next_support_def Let_def split: if_splits)
  moreover have "filter_amplitudes sp r3 = Inr r4 \<Longrightarrow> real_in r4 = real_in r3"
    by (auto simp: filter_amplitudes_def split: if_splits)
  moreover have "next_radius sp r4 = Inr r5 \<Longrightarrow> real_in r5 = real_in r4"
    by (auto simp: next_radius_def split: if_splits)
  ultimately show ?thesis by (simp add: stop_check_def Let_def)
qed

lemma write_images_Inr:
  assumes "write_images sp run = Inr run'" and "0 \<le> r_int run I_cur_iteration" and "0 < r_int run I_output_period"
  shows "r_st run' = r_st run \<and> real_in run' = real_in run \<and> broke run' = broke run \<and>
    map fst (files run') = map fst (files run) @
      (if r_int run I_cur_iteration mod r_int run I_output_period = r_int run I_output_period - 1
       then [r_int run I_cur_iteration] else [])"
  using assms by (auto simp: write_images_def split: if_splits)

lemma write_images_real_in: "write_images sp run = Inr run' \<Longrightarrow> real_in run' = real_in run"
  by (auto simp: write_images_def split: if_splits)

lemma break_centrosymmetry_keeps:
  "break_centrosymmetry run = Inr run' \<Longrightarrow>
   r_st run' = r_st run \<and> real_in run' = real_in run \<and> files run' = files run \<and> broke run' = broke run"
  by (auto simp: break_centrosymmetry_def split: if_splits)

lemma iterate_image_freed [simp]: "real_in run = None \<Longrightarrow> iterate_image sp so2d speed sg run = Inl Use_After_Free"
  by (simp add: iterate_image_def)

definition logged :: "hawk \<Rightarrow> int list" where
  "logged st = (if flog (opts st) then map l_iter (log_lines st) else [])"

lemma phase_once_logs:
  assumes "phase_once sp so2d speed rs hs amp a s st = Inr (Some (out, s', st'))" and "phasing_iteration sp speed so2d"
  shows "k \<noteq> I_algorithm \<Longrightarrow> k \<noteq> I_reconstruction_finished \<Longrightarrow> oint (opts st') k = oint (opts st) k"
    and "0 \<le> oint (opts st) I_cur_iteration \<Longrightarrow> 0 < oint (opts st) I_log_output_period \<Longrightarrow>
      logged st' = logged st @
        (if oint (opts st) I_cur_iteration mod oint (opts st) I_log_output_period = oint (opts st) I_log_output_period - 1
         then [oint (opts st) I_cur_iteration] else [])"
proof -
  from assms obtain iteration where it: "phasing_iteration sp speed iteration"
    and run: "iteration amp a s (st\<lparr>opts := snd (get_algorithm (opts st) (lg st))\<rparr>) = Inr (out, st')"
    by (rule phase_once_cases)
  show "k \<noteq> I_algorithm \<Longrightarrow> k \<noteq> I_reconstruction_finished \<Longrightarrow> oint (opts st') k = oint (opts st) k"
    using phasing_iteration.keeps_counters [OF it run] get_algorithm_keeps(1) by simp
  show "logged st' = logged st @
        (if oint (opts st) I_cur_iteration mod oint (opts st) I_log_output_period = oint (opts st) I_log_output_period - 1
         then [oint (opts st) I_cur_iteration] else [])"
    if "0 \<le> oint (opts st) I_cur_iteration" "0 < oint (opts st) I_log_output_period"
    using phasing_iteration.logs_when_due [OF it run] that by (simp add: logged_def get_algorithm_keeps)
qed

text \<open>
  A round that succeeds either leaves the loop with \<open>real_in\<close> freed, or has not updated the support.
\<close>

lemma round_Inr:
  assumes round: "reconstruction_round sp so2d hook speed sg run = Inr run'"
    and so2d: "phasing_iteration sp speed so2d" and run: "\<not> broke run" "phasing_algorithm (opts (r_st run))"
    and pos: "0 \<le> r_int run I_cur_iteration" "0 < r_int run I_iterations"
      "0 < r_int run I_output_period" "0 < r_int run I_log_output_period"
  defines "n \<equiv> r_int run I_cur_iteration"
  shows "broke run' \<and> real_in run' = None \<or>
    \<not> broke run' \<and> n mod r_int run I_iterations \<noteq> r_int run I_iterations - 1 \<and> r_int run' I_cur_iteration = n + 1 \<and>
    phasing_algorithm (opts (r_st run')) \<and>
    (\<forall>k. k \<notin> {I_algorithm, I_reconstruction_finished, I_cur_iteration} \<longrightarrow> r_int run' k = r_int run k) \<and>
    map fst (files run') = map fst (files run) @
      (if n mod r_int run I_output_period = r_int run I_output_period - 1 then [n] else []) \<and>
    logged (r_st run') = logged (r_st run) @
      (if n mod r_int run I_log_output_period = r_int run I_log_output_period - 1 then [n] else [])"
proof -
  from round obtain r1 r2 r3 where r1: "accumulate sp (synchronize_image_data hook run) = Inr r1"
    and r2: "blur_image sp r1 = Inr r2" and r3: "update_support sp speed r2 = Inr r3"
    and rest: "(if broke r3 then Inr r3 else bind_result (write_images sp r3) (\<lambda>run.
        bind_result (break_centrosymmetry run) (\<lambda>run.
        bind_result (iterate_image sp so2d speed sg run) (\<lambda>run. Inr (next_iteration run))))) = Inr run'"
    unfolding reconstruction_round_def by (elim bind_result_InrE)
  have same: "r_st r2 = r_st run" "files r2 = files run" "\<not> broke r2"
    using accumulate_keeps [OF r1] blur_image_keeps [OF r2] run by simp_all
  show ?thesis
  proof (cases "n mod r_int run I_iterations = r_int run I_iterations - 1")
    case True
    then have "real_in r3 = None"
      using update_support_frees [OF r3] pos by (simp add: same due_def n_def)
    then have "broke r3"
      using rest by (auto dest!: write_images_real_in break_centrosymmetry_keeps split: if_splits)
    then show ?thesis using rest \<open>real_in r3 = None\<close> by simp
  next
    case False
    then have "r3 = r2"
      using r3 update_support_not_due [of r2] pos by (simp add: same due_def n_def)
    then obtain r4 r5 r6 where r4: "write_images sp r2 = Inr r4" and r5: "break_centrosymmetry r4 = Inr r5"
      and r6: "iterate_image sp so2d speed sg r5 = Inr r6" and run': "run' = next_iteration r6"
      using rest same by auto
    have st5: "r_st r5 = r_st run" "broke r5 = broke run" and f5: "map fst (files r5) = map fst (files run) @
        (if n mod r_int run I_output_period = r_int run I_output_period - 1 then [n] else [])"
      using write_images_Inr [OF r4] break_centrosymmetry_keeps [OF r5] same pos run by (simp_all add: n_def)
    from r6 obtain r where once: "phase_once sp so2d speed sg sg (r_amp r5) (real_space r5) (support r5) (r_st run) = Inr r"
      and r6': "r6 = (case r of None \<Rightarrow> r5\<lparr>real_in := Some (real_space r5)\<rparr>
        | Some (out, s, st) \<Rightarrow> r5\<lparr>real_in := Some (real_space r5), real_space := out, support := s, r_st := st\<rparr>)"
      by (auto simp: iterate_image_def st5 Let_def)
    obtain out s st where r: "r = Some (out, s, st)"
      using phase_once_defined [OF once run(2)] by (cases r) auto
    note logs = phase_once_logs [OF once [unfolded r] so2d]
    have run': "run' = next_iteration (r5\<lparr>real_in := Some (real_space r5), real_space := out, support := s, r_st := st\<rparr>)"
      by (simp add: run' r6' r)
    have "\<not> broke run'" "r_int run' I_cur_iteration = n + 1" "phasing_algorithm (opts (r_st run'))"
      using st5 run(1) logs(1) phase_once_algorithm [OF once [unfolded r] so2d]
      by (simp_all add: run' next_iteration_def n_def)
    moreover have "r_int run' k = r_int run k" if "k \<notin> {I_algorithm, I_reconstruction_finished, I_cur_iteration}" for k
      using that logs(1) by (simp add: run' next_iteration_def)
    moreover have "logged (r_st run') = logged st" "map fst (files run') = map fst (files r5)"
      by (simp_all add: run' next_iteration_def logged_def set_int_def)
    ultimately show ?thesis
      using False logs(2) f5 pos by (simp add: n_def)
  qed
qed

definition slow_inv :: "spimage \<Rightarrow> saddle_iteration \<Rightarrow> real \<Rightarrow> int \<Rightarrow> int \<Rightarrow> int \<Rightarrow> int \<Rightarrow> run \<Rightarrow> bool" where
  "slow_inv sp so2d speed I P L M run \<longleftrightarrow>
    phasing_iteration sp speed so2d \<and> 0 < I \<and> 0 < P \<and> 0 < L \<and>
    (if broke run then real_in run = None
     else r_int run I_max_iterations = M \<and> (M = 0 \<or> r_int run I_cur_iteration \<le> M) \<and> r_int run I_iterations = I \<and> r_int run I_output_period = P \<and> r_int run I_log_output_period = L \<and>
       phasing_algorithm (opts (r_st run)) \<and> 0 \<le> r_int run I_cur_iteration \<and> r_int run I_cur_iteration < I \<and>
       logged (r_st run) = (if L = 1 then [0] else []) @ filter (\<lambda>k. k mod L = L - 1) [0..r_int run I_cur_iteration - 1] \<and>
       map fst (files run) = filter (\<lambda>k. k mod P = P - 1) [0..r_int run I_cur_iteration - 1])"

definition slow_rounds :: "int \<Rightarrow> run \<Rightarrow> nat" where
  "slow_rounds I run = (if broke run then 0 else nat (I - r_int run I_cur_iteration))"

lemma slow_inv_step:
  assumes inv: "slow_inv sp so2d speed I P L M run" and go: "round_follows run"
    and round: "reconstruction_round sp so2d hook speed sg run = Inr run'"
  shows "slow_inv sp so2d speed I P L M run'" and "slow_rounds I run' < slow_rounds I run"
proof -
  let ?n = "r_int run I_cur_iteration"
  have run: "\<not> broke run" and less: "r_int run I_max_iterations = 0 \<or> ?n < r_int run I_max_iterations"
    using go by (simp_all add: round_follows_def)
  have ints: "r_int run I_iterations = I" "r_int run I_output_period = P" "r_int run I_log_output_period = L"
    and n: "0 \<le> ?n" "?n < I" and pos: "0 < I" "0 < P" "0 < L"
    and so2d: "phasing_iteration sp speed so2d" and alg: "phasing_algorithm (opts (r_st run))"
    using inv run by (simp_all add: slow_inv_def)
  note step = round_Inr [OF round so2d run alg, unfolded ints, OF n(1) pos]
  have grow: "filter Q [0..?n] = filter Q [0..?n - 1] @ (if Q ?n then [?n] else [])" for Q
    using n(1) by (simp add: upto_rec2)
  have "slow_inv sp so2d speed I P L M run' \<and> slow_rounds I run' < slow_rounds I run"
  proof (cases "broke run'")
    case True
    then show ?thesis using step pos so2d run n by (simp add: slow_inv_def slow_rounds_def)
  next
    case False
    then have adv: "?n mod I \<noteq> I - 1" "r_int run' I_cur_iteration = ?n + 1" using step by simp_all
    then have "?n + 1 < I" using n by (auto simp: mod_pos_pos_trivial)
    moreover have "M = 0 \<or> ?n + 1 \<le> M" using less inv run by (simp add: slow_inv_def) linarith
    ultimately show ?thesis
      using False step pos so2d run n inv adv
      by (simp add: slow_inv_def slow_rounds_def ints grow del: upto.simps)
  qed
  then show "slow_inv sp so2d speed I P L M run'" "slow_rounds I run' < slow_rounds I run" by simp_all
qed

interpretation slow: bounded_loop round_follows "reconstruction_round sp so2d hook speed sg"
    "\<lambda>n. reconstruction_loop n sp so2d hook speed sg" "slow_inv sp so2d speed I P L M" "slow_rounds I"
  for sp so2d hook speed sg I P L M
  by unfold_locales (rule reconstruction_loop.simps, rule slow_inv_step, assumption+, rule slow_inv_step, assumption+)

lemma slow_inv_start:
  assumes "start_run sp so2d speed amp s st = Inr run" and "phasing_iteration sp speed so2d"
    and "0 < oint (opts st) I_iterations" and "0 < oint (opts st) I_output_period"
    and "0 < oint (opts st) I_log_output_period" and "0 \<le> oint (opts st) I_max_iterations"
  shows "slow_inv sp so2d speed (oint (opts st) I_iterations) (oint (opts st) I_output_period)
      (oint (opts st) I_log_output_period) (oint (opts st) I_max_iterations) run"
proof -
  let ?st = "st\<lparr>opts := start_options (opts st), lg := start_log (nonfinite sp) (oreal (opts st) R_new_level) s (lg st)\<rparr>"
  from assms(1) obtain first out s' st' where
      once: "phase_once sp so2d speed (oimage (opts ?st) P_intensities_std_dev) None amp first s ?st = Inr (Some (out, s', st'))"
      and run: "\<not> broke run" "r_st run = st'\<lparr>opts := set_int I_is_running 1 (opts st')\<rparr>" "files run = []"
    unfolding start_run_def Let_def by (auto split: option.splits)
  have st: "oint (opts ?st) k = oint (opts st) k" if "k \<notin> {I_cur_iteration, I_algorithm, I_reconstruction_finished}" for k
    using that by (simp add: start_options_def Let_def)
  have st0: "oint (opts ?st) I_cur_iteration = 0" "logged ?st = []"
    by (simp_all add: start_options_def Let_def logged_def set_int_def)
  note keep = phase_once_logs(1) [OF once assms(2)] and lines = phase_once_logs(2) [OF once assms(2)]
  have "logged st' = (if oint (opts st) I_log_output_period = 1 then [0] else [])"
    using lines st st0 assms(5) by (auto split: if_splits)
  moreover have "logged (r_st run) = logged st'"
    by (simp add: run logged_def set_int_def)
  ultimately show ?thesis
    using assms(2-6) run st st0 keep phase_once_algorithm [OF once assms(2)]
    by (simp add: slow_inv_def)
qed

text \<open>A state on which the loop can be run: HIO with images of two pixels.\<close>

definition own_loop_hawk :: "int \<Rightarrow> int \<Rightarrow> int \<Rightarrow> hawk" where
  "own_loop_hawk I P M = (example_hawk 0)\<lparr>opts := (set_int I_iterations I (set_int I_output_period P
     (set_int I_max_iterations M (set_image P_image_guess (Some (image_of [1, 1])) (opts (example_hawk 0))))))
       \<lparr>oreal := (\<lambda>_. 0)(R_new_level := 1 / 5)\<rparr>\<rparr>"

definition no_so2d :: saddle_iteration where
  "no_so2d amp a s st = Inl Abort"

lemma no_so2d_iteration: "phasing_iteration sp speed no_so2d"
  by unfold_locales (simp add: no_so2d_def)

definition started_run :: run where
  "started_run = \<lparr>r_st = own_loop_hawk 2 10 1, r_amp = image_of [1, 1], real_in = Some (image_of [1, 1]),
     real_space = image_of [1, 1], support = image_of [1, 0], real_space_sum = image_of [0, 0], real_space_sum_n = 0,
     radius = 0, support_size = 0, stop = 0, broke = False, files = []\<rparr>"

text \<open>
  Property C31 (safety): the program's own loop never survives an update of the support.  The update frees
  \<open>real_in\<close>, and so does the rest of the round, so a run that comes back has done
  fewer than \<open>iterations\<close> iterations: it was ended by \<open>max_iterations\<close> or by the tolerance of the
  log before.  Up to there it has logged and written at the numbers one below the multiples of the two
  periods (iteration 0 is logged twice when the period is 1).  Enough rounds end every run.
\<close>

theorem own_loop_ends_before_support_update:
  fixes st :: hawk
  assumes "phasing_iteration sp speed so2d"
  defines "I \<equiv> oint (opts st) I_iterations" and "P \<equiv> oint (opts st) I_output_period"
    and "L \<equiv> oint (opts st) I_log_output_period" and "M \<equiv> oint (opts st) I_max_iterations"
  assumes "0 < I" and "0 < P" and "0 < L" and "0 \<le> M" and "nat I < fuel"
  shows "slow_reconstruction fuel sp so2d hook speed amp s sg st \<noteq> Inr None \<and>
    (\<forall>run. slow_reconstruction fuel sp so2d hook speed amp s sg st = Inr (Some run) \<longrightarrow>
      (let N = r_int run I_cur_iteration;
           lines = (if L = 1 then [0] else []) @ filter (\<lambda>k. k mod L = L - 1) [0..N - 1]
       in N < I \<and> (r_int run I_reconstruction_finished \<noteq> 0 \<or> 0 < M \<and> N = M) \<and>
          (lines \<noteq> [] \<longrightarrow> map l_iter (log_lines (r_st run)) = lines) \<and>
          map fst (files run) = filter (\<lambda>k. k mod P = P - 1) [0..N - 1] @ [-1]))"
proof (cases "start_run sp so2d speed amp s st")
  case (Inl f)
  then show ?thesis by (simp add: slow_reconstruction_def)
next
  case (Inr run0)
  then have inv: "slow_inv sp so2d speed I P L M run0"
    using assms unfolding I_def P_def L_def M_def by (intro slow_inv_start) simp_all
  have "slow_rounds I run0 < fuel"
    using inv assms(10) by (auto simp: slow_rounds_def slow_inv_def)
  then have ends: "reconstruction_loop fuel sp so2d hook speed sg run0 \<noteq> Inr None"
    by (rule slow.loop_ends [OF inv])
  have final: "\<not> broke r \<and> slow_inv sp so2d speed I P L M r \<and> \<not> round_follows r"
    if "reconstruction_loop fuel sp so2d hook speed sg run0 = Inr (Some r)" "final_images sp r = Inr r'" for r r'
    using slow.loop_result [OF that(1) inv] that(2)
    by (auto simp: slow_inv_def final_images_def Let_def split: if_splits)
  have "let N = r_int run I_cur_iteration;
           lines = (if L = 1 then [0] else []) @ filter (\<lambda>k. k mod L = L - 1) [0..N - 1]
       in N < I \<and> (r_int run I_reconstruction_finished \<noteq> 0 \<or> 0 < M \<and> N = M) \<and>
          (lines \<noteq> [] \<longrightarrow> map l_iter (log_lines (r_st run)) = lines) \<and>
          map fst (files run) = filter (\<lambda>k. k mod P = P - 1) [0..N - 1] @ [-1]"
    if run: "slow_reconstruction fuel sp so2d hook speed amp s sg st = Inr (Some run)" for run
  proof -
    obtain r where r: "reconstruction_loop fuel sp so2d hook speed sg run0 = Inr (Some r)" "final_images sp r = Inr run"
      using run Inr by (auto simp: slow_reconstruction_def split: option.splits)
    have run': "r_int run = r_int r" "log_lines (r_st run) = log_lines (r_st r)" "map fst (files run) = map fst (files r) @ [-1]"
      using r(2) by (auto simp: final_images_def Let_def)
    show ?thesis
      unfolding run' using final [OF r] assms(9)
      by (auto simp: slow_inv_def round_follows_def logged_def Let_def simp del: upto.simps split: if_splits)
  qed
  then show ?thesis using ends Inr by (auto simp: slow_reconstruction_def bind_result_def split: sum.splits option.splits)
qed

lemma hio_on_example:
  fixes st :: hawk
  assumes "oint (opts st) I_algorithm = HIO" and "oint (opts st) I_automatic = 0"
    and "oint (opts st) I_cur_iteration = 0" and "oint (opts st) I_log_output_period = 10"
    and "omap (opts st) M_beta_evolution = None" and "ovector (opts st) V_beta_checkpoints = None"
    and "length (pixels amp) = 2"
  shows "\<exists>out. phase_once example_library no_so2d 1 rs hs amp a s st = Inr (Some (out, s, st))"
  using assms
  by (simp add: phase_once_def get_algorithm_def keep_support_def basic_hio_iteration_def get_beta_def
      finish_def log_if_due_def Let_def)

lemma own_loop_runs:
  "\<exists>run. slow_reconstruction 3 example_library no_so2d (\<lambda>_. (None, None)) 1 (image_of [1, 1]) (image_of [1, 0]) None
     (own_loop_hawk 2 10 1) = Inr (Some run) \<and> r_int run I_reconstruction_finished = 0"
proof -
  let ?st = "own_loop_hawk 2 10 1"
  let ?st1 = "?st\<lparr>opts := start_options (opts ?st),
    lg := start_log (nonfinite example_library) (oreal (opts ?st) R_new_level) (image_of [1, 0]) (lg ?st)\<rparr>"
  have ints: "oint (opts ?st1) = (\<lambda>_. 0)(I_iterations := 2, I_output_period := 10, I_log_output_period := 10, I_max_iterations := 1)"
      "omap (opts ?st1) = (\<lambda>_. None)" "ovector (opts ?st1) = (\<lambda>_. None)"
      "oimage (opts ?st1) = (\<lambda>_. None)(P_image_guess := Some (image_of [1, 1]))"
    by (simp_all add: start_options_def own_loop_hawk_def example_hawk_def example_options_def Let_def fun_eq_iff)
  have len: "length (pixels (image_of [1, 1])) = 2" and sizes: "size_x (image_of [1, 0]) = 2"
      "size_y (image_of [1, 0]) = 1" "size_z (image_of [1, 0]) = 1"
    by (simp_all add: image_of_def)
  obtain out where once: "phase_once example_library no_so2d 1 None None (image_of [1, 1])
      (sp_image_rephase_zero example_library (image_of [1, 1])) (image_of [1, 0]) ?st1 = Inr (Some (out, image_of [1, 0], ?st1))"
    using hio_on_example [of ?st1 "image_of [1, 1]" None None _ "image_of [1, 0]"] ints len by auto
  let ?st2 = "?st1\<lparr>opts := set_int I_is_running 1 (opts ?st1)\<rparr>"
  let ?run = "\<lparr>r_st = ?st2, r_amp = image_of [1, 1], real_in = Some (sp_image_rephase_zero example_library (image_of [1, 1])),
     real_space = out, support = image_of [1, 0], real_space_sum = cleared (sp_image_alloc example_library 2 1 1),
     real_space_sum_n = 0, radius = oreal (opts ?st1) R_max_blur_radius, support_size = - oreal (opts ?st) R_new_level,
     stop = 0, broke = False, files = []\<rparr>"
  have start: "start_run example_library no_so2d 1 (image_of [1, 1]) (image_of [1, 0]) ?st = Inr ?run"
    using once ints by (simp add: start_run_def Let_def sizes)
  obtain out2 where once2: "phase_once example_library no_so2d 1 None None (image_of [1, 1]) out (image_of [1, 0]) ?st2
      = Inr (Some (out2, image_of [1, 0], ?st2))"
    using hio_on_example [of ?st2 "image_of [1, 1]" None None out "image_of [1, 0]"] ints len by auto
  have round: "reconstruction_round example_library no_so2d (\<lambda>_. (None, None)) 1 None ?run =
      Inr (next_iteration (?run\<lparr>real_in := Some out, real_space := out2\<rparr>))"
    using once2 ints
    by (simp add: reconstruction_round_def synchronize_image_data_def accumulate_def blur_image_def update_support_def
        due_def write_images_def break_centrosymmetry_def iterate_image_def Let_def)
  let ?last = "next_iteration (?run\<lparr>real_in := Some out, real_space := out2\<rparr>)"
  have "round_follows ?run" "\<not> round_follows ?last"
    using ints by (simp_all add: round_follows_def next_iteration_def)
  then have "reconstruction_loop 3 example_library no_so2d (\<lambda>_. (None, None)) 1 None ?run = Inr (Some ?last)"
    using round by (simp add: reconstruction_loop.simps [of 3] reconstruction_loop.simps [of 2])
  then show ?thesis
    using start ints by (simp add: slow_reconstruction_def final_images_def next_iteration_def Let_def)
qed

theorem own_loop_ends_before_support_update_witness:
  "\<exists>run. slow_reconstruction 3 example_library no_so2d (\<lambda>_. (None, None)) 1 (image_of [1, 1]) (image_of [1, 0]) None
     (own_loop_hawk 2 10 1) = Inr (Some run) \<and> r_int run I_cur_iteration = 1 \<and> map fst (files run) = [-1]"
proof -
  obtain run where "slow_reconstruction 3 example_library no_so2d (\<lambda>_. (None, None)) 1 (image_of [1, 1])
      (image_of [1, 0]) None (own_loop_hawk 2 10 1) = Inr (Some run)" "r_int run I_reconstruction_finished = 0"
    using own_loop_runs by blast
  then show ?thesis
    using own_loop_ends_before_support_update [of example_library 1 no_so2d "own_loop_hawk 2 10 1" 3 "\<lambda>_. (None, None)"
        "image_of [1, 1]" "image_of [1, 0]" None] no_so2d_iteration
    by (simp add: own_loop_hawk_def example_hawk_def Let_def)
qed

text \<open>
  Property C32 (error): what goes wrong there.  When a round has updated the support, the
  iteration that follows frees \<open>real_in\<close> a second time; and if the update has asked the loop to stop, the
  end of the function does.
\<close>

theorem support_update_frees_twice:
  assumes "accumulate sp (synchronize_image_data hook run) = Inr r1" and "blur_image sp r1 = Inr r2"
    and "update_support sp speed r2 = Inr r3"
    and "due (r_int run I_iterations) (r_int run I_cur_iteration) = Inr True" and "r_int r3 I_output_period \<noteq> 0"
  shows "if broke r3
    then reconstruction_round sp so2d hook speed sg run = Inr r3 \<and> final_images sp r3 = Inl Use_After_Free
    else reconstruction_round sp so2d hook speed sg run = Inl Use_After_Free"
proof -
  have "r_st r2 = r_st run" using accumulate_keeps [OF assms(1)] blur_image_keeps [OF assms(2)] by simp
  then have freed: "real_in r3 = None" using update_support_frees [OF assms(3)] assms(4) by simp
  have "bind_result (write_images sp r3) (\<lambda>run. bind_result (break_centrosymmetry run) (\<lambda>run.
      bind_result (iterate_image sp so2d speed sg run) f)) = Inl Use_After_Free" for f :: "run \<Rightarrow> run result"
    using assms(5) freed
    by (auto simp: write_images_def break_centrosymmetry_def due_def c_rem_def)
  then show ?thesis
    using assms(1-3) freed by (simp add: reconstruction_round_def final_images_def Let_def)
qed

theorem support_update_frees_twice_witness:
  "reconstruction_round example_library no_so2d (\<lambda>_. (None, None)) 1 None
     (started_run\<lparr>r_st := own_loop_hawk 1 10 1\<rparr>) = Inl Use_After_Free"
proof -
  let ?run = "started_run\<lparr>r_st := own_loop_hawk 1 10 1\<rparr>"
  have acc: "accumulate example_library (synchronize_image_data (\<lambda>_. (None, None)) ?run) = Inr ?run"
    by (simp add: accumulate_def synchronize_image_data_def started_run_def own_loop_hawk_def example_hawk_def
        example_options_def)
  have blur: "blur_image example_library ?run = Inr ?run"
    by (simp add: blur_image_def due_def started_run_def own_loop_hawk_def example_hawk_def example_options_def)
  have update: "\<exists>r3. update_support example_library 1 ?run = Inr r3 \<and> \<not> broke r3 \<and> r_int r3 I_output_period = 10"
    by (simp add: update_support_def due_def average_images_def smooth_phases_def next_support_def filter_amplitudes_def
        next_radius_def stop_check_def get_support_level_def get_phases_blur_radius_def get_blur_radius_def
        started_run_def own_loop_hawk_def example_hawk_def example_options_def Let_def)
  then obtain r3 where r3: "update_support example_library 1 ?run = Inr r3" "\<not> broke r3" "r_int r3 I_output_period = 10"
    by blast
  have "due (r_int ?run I_iterations) (r_int ?run I_cur_iteration) = Inr True"
    by (simp add: due_def own_loop_hawk_def example_hawk_def example_options_def)
  then show ?thesis
    using support_update_frees_twice [OF acc blur r3(1)] r3 by simp
qed

text \<open>
  The fast path is only taken for what it can build: after the test of
  \<open>complete_reconstruction\<close> its start never ends with the message that an algorithm is
  missing.  What is left to fail is the schedule of the parameters of the difference map.
\<close>

lemma fast_path_finds_its_algorithm:
  assumes "get_algorithm (opts st) (lg st) = (alg, opt)" and "takes_fast_path alg opt"
  shows "(\<exists>run. clean_start sp pl amp s (st\<lparr>opts := opt\<rparr>) = Inr run) \<or>
    alg = DIFF_MAP \<and> (\<exists>f. clean_start sp pl amp s (st\<lparr>opts := opt\<rparr>) = Inl f \<and>
      (get_gamma1 (nonfinite sp) (set_int I_cur_iteration 0 (opt\<lparr>flog := False\<rparr>)) = Inl f \<or>
       get_gamma2 (nonfinite sp) (set_int I_cur_iteration 0 (opt\<lparr>flog := False\<rparr>)) = Inl f))"
proof -
  let ?opt = "set_int I_cur_iteration 0 (opt\<lparr>flog := False\<rparr>)"
  have alg: "oint opt I_algorithm = alg" using get_algorithm_phasing(2) [of "opts st" "lg st"] assms(1) by simp
  have ga: "get_algorithm ?opt (init_log (lg st)) = (alg, ?opt)"
    using alg by (simp add: get_algorithm_def init_log_def)
  obtain steps where steps: "clean_support_steps ?opt = Some steps"
    using assms(2) by (auto simp: takes_fast_path_def clean_support_steps_def Let_def)
  note start = clean_start_def ga steps clean_algorithm_def Let_def
  show ?thesis
  proof (cases "alg = DIFF_MAP")
    case True
    then show ?thesis
      by (cases "get_gamma1 (nonfinite sp) ?opt"; cases "get_gamma2 (nonfinite sp) ?opt") (simp_all add: start)
  next
    case False
    then have "alg = HIO \<or> alg = RAAR" using assms(2) by (auto simp: takes_fast_path_def)
    then show ?thesis by (auto simp: start)
  qed
qed

theorem fast_path_finds_its_algorithm_witness:
  "\<exists>run. clean_start example_library counting_phaser (image_of [1]) (image_of [1])
     ((scheduled_hawk 4 3 2)\<lparr>opts := set_int I_support_image_averaging 1 (opts (scheduled_hawk 4 3 2))\<rparr>) = Inr run"
proof -
  let ?st = "(scheduled_hawk 4 3 2)\<lparr>opts := set_int I_support_image_averaging 1 (opts (scheduled_hawk 4 3 2))\<rparr>"
  have "get_algorithm (opts ?st) (lg ?st) = (HIO, opts ?st)" "takes_fast_path HIO (opts ?st)"
    by (simp_all add: get_algorithm_def takes_fast_path_def scheduled_hawk_def example_hawk_def example_options_def example_log_def)
  from fast_path_finds_its_algorithm [OF this, of example_library counting_phaser "image_of [1]" "image_of [1]"]
  show ?thesis by simp
qed

text \<open>
  The algorithm \<open>real_error_capped\<close> ends the program.  Once the real-space error has
  reached the threshold the next update of the support exits with status 0, before the final images are
  written; with the default threshold of -1 that is the first update.
\<close>

lemma capped_error_exits:
  assumes "r_int run I_support_update_algorithm = REAL_ERROR_CAPPED" and "0 < r_real run R_new_level"
  shows "(next_support sp run = Inl (Exit 0) \<longleftrightarrow> r_real run R_real_error_threshold \<le> Ereal (lg (r_st run))) \<and>
    (Ereal (lg (r_st run)) < r_real run R_real_error_threshold \<longrightarrow>
      (\<exists>run'. next_support sp run = Inr run' \<and> support run' =
        get_updated_support sp (real_space_sum run) (r_real run R_new_level) (radius run) (opts (r_st run)))) \<and>
    (r_real run R_real_error_threshold = -1 \<and> 0 \<le> Ereal (lg (r_st run)) \<longrightarrow> next_support sp run = Inl (Exit 0))"
  using assms by (auto simp: next_support_def get_support_level_def Let_def)

theorem capped_error_exits_witness:
  "next_support example_library (started_run\<lparr>r_st := (own_loop_hawk 1 10 1)\<lparr>opts :=
     set_int I_support_update_algorithm REAL_ERROR_CAPPED (opts (own_loop_hawk 1 10 1))\<rparr>\<rparr>) = Inl (Exit 0)"
  by (rule capped_error_exits [THEN conjunct1, THEN iffD2])
    (simp_all add: own_loop_hawk_def example_hawk_def example_log_def)

end
