(* ===== verification/Saddle_Search.thy ===== *)
theory Saddle_Search
  imports Saddle Reconstruction
begin

text \<open>
  What the saddle-point search computes: the directions are followed along the gradient of the
  misfit, the steps are limited, the brackets of the line search hold, and how far a search
  can come.
\<close>

section \<open>Derivatives along a line\<close>

lemma cmod_square_line_derivative:
  fixes z d :: complex
  shows "((\<lambda>t. (cmod (z + t *\<^sub>R d))\<^sup>2) has_real_derivative 2 * Re (d * cnj (z + a *\<^sub>R d))) (at a)"
proof -
  have "(cmod (z + t *\<^sub>R d))\<^sup>2 = (Re z + t * Re d) * (Re z + t * Re d) + (Im z + t * Im d) * (Im z + t * Im d)" for t
    unfolding cmod_power2 by (simp add: power2_eq_square)
  moreover have "((\<lambda>t. (Re z + t * Re d) * (Re z + t * Re d) + (Im z + t * Im d) * (Im z + t * Im d))
      has_real_derivative 2 * Re (d * cnj (z + a *\<^sub>R d))) (at a)"
    by (rule derivative_eq_intros refl)+ (simp add: algebra_simps)
  ultimately show ?thesis by simp
qed

lemma half_cmod_square_derivative:
  fixes z d :: complex
  shows "((\<lambda>t. (cmod (z + t *\<^sub>R d))\<^sup>2 / 2) has_real_derivative Re (d * cnj (z + a *\<^sub>R d))) (at a)"
proof -
  have "2 * r / 2 = r" for r :: real by simp
  then show ?thesis using DERIV_cdivide [OF cmod_square_line_derivative [of z d a], of 2] by (simp only:)
qed

lemma root_derivative:
  assumes "(g has_real_derivative 2 * r) (at a)" and "g a = c\<^sup>2" and "0 < c"
  shows "((\<lambda>t. sqrt (g t)) has_real_derivative r / c) (at a)"
proof -
  have pos: "0 < g a" using assms(2,3) by simp
  have "sqrt (g a) = c" using assms(2,3) by simp
  then have "inverse (sqrt (g a)) / 2 * (2 * r) = r / c" by (simp add: field_simps)
  then show ?thesis using DERIV_chain2 [OF DERIV_real_sqrt [OF pos] assms(1)] by (simp only:)
qed

lemma cmod_line_derivative:
  fixes z d :: complex
  assumes "z + a *\<^sub>R d \<noteq> 0"
  shows "((\<lambda>t. cmod (z + t *\<^sub>R d)) has_real_derivative Re (d * cnj (z + a *\<^sub>R d)) / cmod (z + a *\<^sub>R d)) (at a)"
proof -
  have "0 < cmod (z + a *\<^sub>R d)" using assms by simp
  from root_derivative [OF cmod_square_line_derivative refl this]
  show ?thesis by (simp only: real_sqrt_abs abs_norm_cancel)
qed

lemma half_square_derivative:
  assumes "(f has_real_derivative f') (at a)"
  shows "((\<lambda>t. (f t - F)\<^sup>2 / 2) has_real_derivative (f a - F) * f') (at a)"
  using assms by (auto intro!: derivative_eq_intros)

lemma misfit_slope:
  fixes w d :: complex
  assumes "w \<noteq> 0"
  shows "(cmod w - F) * (Re (d * cnj w) / cmod w) = - Re (d * cnj ((F / cmod w) *\<^sub>R w - w))"
proof -
  have "(F / cmod w) *\<^sub>R w - w = (F / cmod w - 1) *\<^sub>R w" by (simp only: scaleR_left_diff_distrib scaleR_one)
  then have "Re (d * cnj ((F / cmod w) *\<^sub>R w - w)) = (F / cmod w - 1) * Re (d * cnj w)"
    by (simp only: complex_cnj_scaleR mult_scaleR_right scaleR_complex.simps)
  moreover have "(cmod w - F) / cmod w = - (F / cmod w - 1)" using assms by (simp add: diff_divide_distrib)
  ultimately show ?thesis by (metis mult.commute mult_minus_left times_divide_eq_left times_divide_eq_right)
qed

lemma misfit_line_derivative:
  fixes z d :: complex
  assumes "z + a *\<^sub>R d \<noteq> 0"
  shows "((\<lambda>t. (cmod (z + t *\<^sub>R d) - F)\<^sup>2 / 2) has_real_derivative
    - Re (d * cnj ((F / cmod (z + a *\<^sub>R d)) *\<^sub>R (z + a *\<^sub>R d) - (z + a *\<^sub>R d)))) (at a)"
  using half_square_derivative [OF cmod_line_derivative [OF assms], of F] unfolding misfit_slope [OF assms] .
section \<open>The gradient\<close>

text \<open>The squared distance of the moduli from the measured amplitudes, and the squared pattern.\<close>

definition misfit :: "image \<Rightarrow> complex list \<Rightarrow> real" where
  "misfit F0 G = (\<Sum>i<length G. if mask_data F0 ! i \<noteq> 0 then (sp_cabs (G ! i) - sp_real (pixels F0 ! i))\<^sup>2 / 2 else 0)"

definition strength :: "complex list \<Rightarrow> real" where
  "strength G = (\<Sum>i<length G. (sp_cabs (G ! i))\<^sup>2 / 2)"

text \<open>The elementwise arithmetic of the library, as documented.\<close>

definition matrix_arithmetic :: "spimage \<Rightarrow> bool" where
  "matrix_arithmetic sp \<longleftrightarrow>
     (\<forall>a b s. sp_c3matrix_add sp a b s = map2 (\<lambda>x y. x + s * y) a b)
     \<and> (\<forall>a b. sp_c3matrix_sub sp a b = map2 (-) a b)
     \<and> (\<forall>a b. sp_c3matrix_froenius_prod sp a b = (\<Sum>i<length a. a ! i * cnj (b ! i)))"

lemma pattern_at_nth:
  assumes "matrix_arithmetic sp" and "length (pixels Gs) = n" "length (pixels Gns) = n" "length (pixels DGs) = n"
    "length (pixels DGns) = n"
  shows "length (pattern_at sp Gs Gns DGs DGns a b) = n"
    and "i < n \<Longrightarrow> pattern_at sp Gs Gns DGs DGns a b ! i
      = pixels Gs ! i + pixels Gns ! i + sp_cscale (pixels DGs ! i) a + sp_cscale (pixels DGns ! i) b"
  using assms by (simp_all add: pattern_at_def matrix_arithmetic_def complex_eq_iff)

lemma gradL_Inr:
  assumes "matrix_arithmetic sp" and "length (pixels Gs) = n" "length (pixels Gns) = n" "length (pixels DGs) = n"
    "length (pixels DGns) = n" and "gradL sp Gs Gns DGs DGns F0 a b = Inr g"
  defines "G \<equiv> pattern_at sp Gs Gns DGs DGns a b"
  shows "\<forall>i<n. G ! i \<noteq> 0"
    and "fst g = - (\<Sum>i<n. sp_real (pixels DGs ! i * cnj (measured_value F0 i (G ! i) - G ! i)))"
    and "snd g = - (\<Sum>i<n. sp_real (pixels DGns ! i * cnj (measured_value F0 i (G ! i))))"
proof -
  have len: "length G = n" using pattern_at_nth(1) [OF assms(1-5)] by (simp add: G_def)
  have nz: "\<not> list_ex (\<lambda>z. z = 0) G"
    using assms(6) by (auto simp: gradL_def Let_def measured_pattern_def G_def split: if_splits)
  then show "\<forall>i<n. G ! i \<noteq> 0" using len by (auto simp: list_ex_length)
  have Gm: "measured_pattern F0 G = Inr (for_pixels n (measured_value F0) G)" using nz len by (simp add: measured_pattern_def)
  have g: "g = (- sp_real (\<Sum>i<n. pixels DGs ! i * cnj (map2 (-) (for_pixels n (measured_value F0) G) G ! i)),
      - sp_real (\<Sum>i<n. pixels DGns ! i * cnj (for_pixels n (measured_value F0) G ! i)))"
    using assms(1,4-6) unfolding gradL_def Let_def G_def [symmetric] Gm by (simp add: matrix_arithmetic_def)
  have "(\<Sum>i<n. sp_real (pixels DGs ! i * cnj (map2 (-) (for_pixels n (measured_value F0) G) G ! i)))
      = (\<Sum>i<n. sp_real (pixels DGs ! i * cnj (measured_value F0 i (G ! i) - G ! i)))"
    "(\<Sum>i<n. sp_real (pixels DGns ! i * cnj (for_pixels n (measured_value F0) G ! i)))
      = (\<Sum>i<n. sp_real (pixels DGns ! i * cnj (measured_value F0 i (G ! i))))"
    using len by (intro sum.cong; simp add: nth_for_pixels)+
  then show "fst g = - (\<Sum>i<n. sp_real (pixels DGs ! i * cnj (measured_value F0 i (G ! i) - G ! i)))"
    "snd g = - (\<Sum>i<n. sp_real (pixels DGns ! i * cnj (measured_value F0 i (G ! i))))"
    unfolding g by (simp_all only: fst_conv snd_conv Re_sum)
qed

text \<open>
  Property C21 (equivalence): the two numbers \<open>gradL\<close> computes are derivatives: the first one of
  the misfit of the pattern along the direction inside the support, the second one of the misfit
  less half the squared pattern along the direction outside.
\<close>

theorem gradL_is_gradient:
  assumes "matrix_arithmetic sp" and "length (pixels Gs) = n" "length (pixels Gns) = n" "length (pixels DGs) = n"
    "length (pixels DGns) = n" and "gradL sp Gs Gns DGs DGns F0 a b = Inr g"
  shows "((\<lambda>t. misfit F0 (pattern_at sp Gs Gns DGs DGns t b)) has_real_derivative fst g) (at a)
    \<and> ((\<lambda>t. misfit F0 (pattern_at sp Gs Gns DGs DGns a t) - strength (pattern_at sp Gs Gns DGs DGns a t))
        has_real_derivative snd g) (at b)"
proof -
  let ?z = "\<lambda>i. pixels Gs ! i + pixels Gns ! i" and ?d = "\<lambda>i. pixels DGs ! i" and ?e = "\<lambda>i. pixels DGns ! i"
  let ?G = "pattern_at sp Gs Gns DGs DGns a b"
  note G = pattern_at_nth [OF assms(1-5)] and g = gradL_Inr [OF assms]
  have first: "((\<lambda>t. if mask_data F0 ! i \<noteq> 0 then (sp_cabs (?z i + t *\<^sub>R ?d i + b *\<^sub>R ?e i) - sp_real (pixels F0 ! i))\<^sup>2 / 2 else 0)
      has_real_derivative - sp_real (?d i * cnj (measured_value F0 i (?G ! i) - ?G ! i))) (at a)" if "i < n" for i
  proof (cases "mask_data F0 ! i \<noteq> 0")
    case True
    have "?z i + b *\<^sub>R ?e i + a *\<^sub>R ?d i \<noteq> 0" using g(1) G(2) that by (auto simp: algebra_simps)
    from misfit_line_derivative [OF this, of "sp_real (pixels F0 ! i)"] show ?thesis
      using True G(2) that by (simp add: measured_value_def add.assoc add.commute [of "b *\<^sub>R ?e i"])
  qed (simp add: measured_value_def)
  have second: "((\<lambda>t. (if mask_data F0 ! i \<noteq> 0 then (sp_cabs (?z i + a *\<^sub>R ?d i + t *\<^sub>R ?e i) - sp_real (pixels F0 ! i))\<^sup>2 / 2 else 0)
        - (sp_cabs (?z i + a *\<^sub>R ?d i + t *\<^sub>R ?e i))\<^sup>2 / 2)
      has_real_derivative - sp_real (?e i * cnj (measured_value F0 i (?G ! i)))) (at b)" if "i < n" for i
  proof -
    have nz: "?z i + a *\<^sub>R ?d i + b *\<^sub>R ?e i \<noteq> 0" using g(1) G(2) that by auto
    note half = half_cmod_square_derivative [of "?z i + a *\<^sub>R ?d i" "?e i" b]
    show ?thesis
    proof (cases "mask_data F0 ! i \<noteq> 0")
      case True
      have add: "- sp_real (e * cnj (m - w)) - sp_real (e * cnj w) = - sp_real (e * cnj m)" for e m w
        by (simp add: algebra_simps)
      have scaled: "measured_value F0 i w = sp_cscale w (sp_real (pixels F0 ! i) / sp_cabs w)" for w
        using True by (simp add: measured_value_def)
      show ?thesis
        using DERIV_diff [OF misfit_line_derivative [OF nz, of "sp_real (pixels F0 ! i)"] half] True
        unfolding add scaled G(2) [OF that] by (simp only: if_True not_False_eq_True)
    next
      case False
      then show ?thesis using DERIV_minus [OF half] unfolding G(2) [OF that] by (simp add: measured_value_def)
    qed
  qed
  have misfits: "misfit F0 (pattern_at sp Gs Gns DGs DGns t u) = (\<Sum>i<n. if mask_data F0 ! i \<noteq> 0
      then (sp_cabs (?z i + t *\<^sub>R ?d i + u *\<^sub>R ?e i) - sp_real (pixels F0 ! i))\<^sup>2 / 2 else 0)" for t u
    unfolding misfit_def G(1) by (intro sum.cong) (simp_all add: G(2))
  have strengths: "strength (pattern_at sp Gs Gns DGs DGns t u)
      = (\<Sum>i<n. (sp_cabs (?z i + t *\<^sub>R ?d i + u *\<^sub>R ?e i))\<^sup>2 / 2)" for t u
    unfolding strength_def G(1) by (intro sum.cong) (simp_all add: G(2))
  have "((\<lambda>t. misfit F0 (pattern_at sp Gs Gns DGs DGns t b)) has_real_derivative fst g) (at a)"
    unfolding misfits g(2) sum_negf [symmetric] by (rule DERIV_sum, rule first) simp
  moreover have "((\<lambda>t. misfit F0 (pattern_at sp Gs Gns DGs DGns a t) - strength (pattern_at sp Gs Gns DGs DGns a t))
        has_real_derivative snd g) (at b)"
    unfolding misfits strengths sum_subtractf [symmetric] g(3) sum_negf [symmetric] by (rule DERIV_sum, rule second) simp
  ultimately show ?thesis by simp
qed

definition one_pixel :: "complex \<Rightarrow> image" where
  "one_pixel z = \<lparr>pixels = [z], mask_data = [1], size_x = 1, size_y = 1, size_z = 1, shifted = False, image_center = []\<rparr>"

lemma example_matrix_arithmetic: "matrix_arithmetic example_library"
  by (simp add: matrix_arithmetic_def example_library_def)

lemma gradL_is_gradient_witness:
  "((\<lambda>t. misfit (one_pixel 1) (pattern_at example_library (one_pixel 3) (one_pixel 4) (one_pixel 1) (one_pixel 2) t 0))
      has_real_derivative 6) (at 0)"
proof -
  have "gradL example_library (one_pixel 3) (one_pixel 4) (one_pixel 1) (one_pixel 2) (one_pixel 1) 0 0 = Inr (6, - 2)"
    by (simp add: gradL_def pattern_at_def measured_pattern_def measured_value_def example_library_def one_pixel_def
        for_pixels_Suc Let_def complex_zero_one)
  from gradL_is_gradient [OF example_matrix_arithmetic _ _ _ _ this, of 1]
  show ?thesis by (simp add: one_pixel_def)
qed

section \<open>The history of a search\<close>

definition history_shape :: "nat \<Rightarrow> sp_3matrix \<Rightarrow> bool" where
  "history_shape N m \<longleftrightarrow> matrix_x m = 2 \<and> matrix_y m = N \<and> length (matrix_data m) = 2 * N"

lemma history_column:
  assumes "history_shape N m" and "i < N"
  shows "column m i = Inr (matrix_data m ! (2 * i), matrix_data m ! (2 * i + 1))"
  using assms by (simp add: column_def sp_3matrix_get_def array_get_def matrix_index_def history_shape_def
      nat_add_distrib nat_mult_distrib mult.commute)

lemma recorded_gradient:
  assumes "history_shape N m" and "i + 1 < N" and "0 \<le> fst d" and "0 \<le> snd d" and "record_gradient i d m = Inr m'"
  shows "fst d < 1 \<and> snd d < 1 \<and> m' = m\<lparr>matrix_data := (matrix_data m)[2 * (i + 1) := 0, 2 * (i + 1) + 1 := 0]\<rparr>"
proof -
  have shape: "matrix_x m = 2" "matrix_y m = N" "length (matrix_data m) = 2 * N" using assms(1) by (simp_all add: history_shape_def)
  have deep: "int (2 * N) \<le> matrix_index k x (int i + 1) (c_int_of_real r)"
    if "1 \<le> r" "0 \<le> x" "matrix_x k = 2" "matrix_y k = N" for r x k
  proof -
    have "1 \<le> c_int_of_real r" using that(1) by (simp add: c_int_of_real_def le_floor_iff)
    then have "int N * 2 * 1 \<le> int N * 2 * c_int_of_real r" by (intro mult_left_mono) simp_all
    then show ?thesis using that by (simp add: matrix_index_def mult.commute mult.left_commute)
  qed
  have flat: "c_int_of_real r = 0" if "0 \<le> r" "r < 1" for r
    using that by (simp add: c_int_of_real_def floor_eq_iff)
  obtain k where k: "sp_3matrix_set m 0 (int i + 1) (c_int_of_real (fst d)) 0 = Inr k"
    "sp_3matrix_set k 1 (int i + 1) (c_int_of_real (snd d)) 0 = Inr m'"
    using assms(5) by (auto simp: record_gradient_def)
  have fst1: "fst d < 1"
    using k(1) deep [of "fst d" 0 m] shape by (fastforce simp: sp_3matrix_set_def Let_def not_less split: if_splits)
  then have k': "k = m\<lparr>matrix_data := (matrix_data m)[2 * (i + 1) := 0]\<rparr>"
    using k(1) assms(2,3) shape flat
    by (auto simp: sp_3matrix_set_def matrix_index_def nat_add_distrib nat_mult_distrib mult.commute split: if_splits)
  have snd1: "snd d < 1"
    using k(2) deep [of "snd d" 1 k] shape k' by (fastforce simp: sp_3matrix_set_def Let_def not_less split: if_splits)
  then show ?thesis
    using k(2) k' fst1 assms(2,4) shape flat
    by (auto simp: sp_3matrix_set_def matrix_index_def nat_add_distrib nat_mult_distrib mult.commute eval_nat_numeral split: if_splits)
qed

text \<open>Every column behind the first up to \<open>i\<close> is zero.\<close>

definition zero_history :: "nat \<Rightarrow> nat \<Rightarrow> sp_3matrix \<Rightarrow> bool" where
  "zero_history N i m \<longleftrightarrow> history_shape N m \<and> (\<forall>j. 1 \<le> j \<and> j \<le> i \<longrightarrow> column m j = Inr (0, 0))"

lemma zero_history_records:
  assumes "zero_history N i m" and "i + 1 < N" and "0 \<le> fst d" and "0 \<le> snd d" and "record_gradient i d m = Inr m'"
  shows "zero_history N (i + 1) m'"
proof -
  have shape: "history_shape N m" and zeros: "\<And>j. 1 \<le> j \<Longrightarrow> j \<le> i \<Longrightarrow> column m j = Inr (0, 0)"
    using assms(1) by (simp_all add: zero_history_def)
  have m': "m' = m\<lparr>matrix_data := (matrix_data m)[2 * (i + 1) := 0, 2 * (i + 1) + 1 := 0]\<rparr>"
    using recorded_gradient [OF shape assms(2-5)] by simp
  have shape': "history_shape N m'" using shape by (simp add: m' history_shape_def)
  have "column m' j = Inr (0, 0)" if "1 \<le> j" "j \<le> i + 1" for j
  proof (cases "j = i + 1")
    case True
    then show ?thesis using history_column [OF shape', of j] shape assms(2) by (simp add: m' history_shape_def)
  next
    case False
    have parts: "matrix_data m' ! (2 * j) = matrix_data m ! (2 * j)" "matrix_data m' ! (2 * j + 1) = matrix_data m ! (2 * j + 1)"
      using that False shape assms(2) by (simp_all add: m' history_shape_def)
    have "j < N" "j \<le> i" using that False assms(2) by simp_all
    then show ?thesis
      using zeros [OF that(1)] history_column [OF shape] history_column [OF shape'] parts by simp
  qed
  then show ?thesis using shape' by (simp add: zero_history_def)
qed

lemma last_zero_column:
  assumes "zero_history N i m" and "i < N" and "2 \<le> n" and "n \<le> i + 1"
  shows "smallest_column m n = Inr (n - 1)"
proof -
  have shape: "history_shape N m" and zeros: "\<And>j. 1 \<le> j \<Longrightarrow> j \<le> i \<Longrightarrow> column m j = Inr (0, 0)"
    using assms(1) by (simp_all add: zero_history_def)
  have "fold_result (smaller_column m) [0..<k + 2] (0, 0) = Inr (0, k + 1)" if "k + 2 \<le> i + 1" for k
    using that
  proof (induction k)
    case 0
    have "column m 0 = Inr (matrix_data m ! 0, matrix_data m ! 1)" using history_column [OF shape, of 0] assms(2) by simp
    moreover have "column m (Suc 0) = Inr (0, 0)" using zeros [of "Suc 0"] 0 by simp
    moreover have "[0..<0 + 2] = [0, Suc 0]" by (simp add: upt_rec)
    ultimately show ?case
      by (auto simp: smaller_column_def Let_def not_less le_less sum_squares_gt_zero_iff)
  next
    case (Suc k)
    have "column m (k + 2) = Inr (0, 0)" using zeros [of "k + 2"] Suc.prems by simp
    then have "smaller_column m (k + 2) (0, k + 1) = Inr (0, k + 2)" by (simp add: smaller_column_def)
    moreover have "[0..<Suc k + 2] = [0..<k + 2] @ [k + 2]" by simp
    ultimately show ?case using Suc by (simp only: fold_result_append) simp
  qed
  moreover have "n = (n - 2) + 2" "n - 2 + 1 = n - 1" using assms(3) by simp_all
  ultimately have "fold_result (smaller_column m) [0..<n] (0, 0) = Inr (0, n - 1)" using assms(4) by metis
  then show ?thesis by (simp add: smallest_column_def)
qed

section \<open>How far a search comes\<close>

text \<open>The variables behind \<open>k\<close> passes that all go on.\<close>

fun goes_on :: "nat \<Rightarrow> spimage \<Rightarrow> saddle_lib \<Rightarrow> problem \<Rightarrow> real \<Rightarrow> real \<Rightarrow> nat \<Rightarrow> tau_search \<Rightarrow> tau_search option" where
  "goes_on 0 sp lib p dtaul0 TolY ii s = Some s"
| "goes_on (Suc k) sp lib p dtaul0 TolY ii s =
     (case search_pass sp lib p dtaul0 TolY ii s of
        Inr (Go_On s') \<Rightarrow> goes_on k sp lib p dtaul0 TolY (ii + 1) s'
      | _ \<Rightarrow> None)"

lemma search_loop_ends:
  assumes "search_loop n sp lib p dtaul0 TolY ii s = Inr (jj, s')"
  shows "(\<exists>k<n. \<exists>s1. goes_on k sp lib p dtaul0 TolY ii s = Some s1
      \<and> (search_pass sp lib p dtaul0 TolY (ii + k) s1 = Inr (Good_Enough s') \<and> jj = ii + k
        \<or> search_pass sp lib p dtaul0 TolY (ii + k) s1 = Inr (Stuck s') \<and> jj = ii + n))
    \<or> goes_on n sp lib p dtaul0 TolY ii s = Some s' \<and> jj = ii + n"
  using assms
proof (induction n arbitrary: ii s)
  case 0
  then show ?case by simp
next
  case (Suc n)
  obtain r where r: "search_pass sp lib p dtaul0 TolY ii s = Inr r" using Suc.prems by auto
  show ?case
  proof (cases r)
    case (Go_On s1)
    then have "search_loop n sp lib p dtaul0 TolY (ii + 1) s1 = Inr (jj, s')" using Suc.prems r by simp
    from Suc.IH [OF this] show ?thesis
    proof (elim disjE exE conjE)
      fix k s2
      assume k: "k < n" "goes_on k sp lib p dtaul0 TolY (ii + 1) s1 = Some s2"
        and e: "search_pass sp lib p dtaul0 TolY (ii + 1 + k) s2 = Inr (Good_Enough s')" "jj = ii + 1 + k"
      then show ?thesis using r Go_On by (intro disjI1 exI [of _ "Suc k"]) simp
    next
      fix k s2
      assume k: "k < n" "goes_on k sp lib p dtaul0 TolY (ii + 1) s1 = Some s2"
        and e: "search_pass sp lib p dtaul0 TolY (ii + 1 + k) s2 = Inr (Stuck s')" "jj = ii + 1 + n"
      then show ?thesis using r Go_On by (intro disjI1 exI [of _ "Suc k"]) simp
    next
      assume "goes_on n sp lib p dtaul0 TolY (ii + 1) s1 = Some s'" "jj = ii + 1 + n"
      then show ?thesis using r Go_On by (intro disjI2) simp
    qed
  next
    case (Good_Enough s1)
    then show ?thesis using Suc.prems r by (intro disjI1 exI [of _ 0]) simp
  next
    case (Stuck s1)
    then show ?thesis using Suc.prems r by (intro disjI1 exI [of _ 0]) simp
  qed
qed

lemma goes_on_prefix:
  assumes "goes_on k sp lib p dtaul0 TolY ii s = Some s2" and "j \<le> k"
  shows "\<exists>s1. goes_on j sp lib p dtaul0 TolY ii s = Some s1 \<and> goes_on (k - j) sp lib p dtaul0 TolY (ii + j) s1 = Some s2"
  using assms
proof (induction j arbitrary: k ii s)
  case 0
  then show ?case by simp
next
  case (Suc j)
  then obtain k' where k: "k = Suc k'" by (cases k) auto
  then obtain s' where s': "search_pass sp lib p dtaul0 TolY ii s = Inr (Go_On s')"
    "goes_on k' sp lib p dtaul0 TolY (ii + 1) s' = Some s2"
    using Suc.prems(1) by (auto split: sum.splits pass.splits)
  then show ?case using Suc.IH [OF s'(2)] Suc.prems(2) k by simp
qed

lemma gradient_not_negative:
  assumes "problem_gradient p t = Inr d"
  shows "0 \<le> fst d" and "0 \<le> snd d"
  using assms by (auto simp: problem_gradient_def gradLtau_def)

text \<open>Only \<open>accept_step\<close> writes the history.\<close>

lemma passes_keep_history:
  "newton_pass lib s = Inr s' \<Longrightarrow> s_dtaui s' = s_dtaui s"
  "fit_pass nf lib ii s = Inr s' \<Longrightarrow> s_dtaui s' = s_dtaui s"
  "line_pass sp lib p ii s = Inr s' \<Longrightarrow> s_dtaui s' = s_dtaui s"
  "update_model sp lib p y step s = Inr s' \<Longrightarrow> s_dtaui s' = s_dtaui s"
  by (auto simp: newton_pass_def fit_pass_def line_pass_def update_model_def real_hessian_update_def sr1_update_def Let_def
      split: if_splits prod.splits)

lemma pass_goes_on:
  assumes "search_pass sp lib p dtaul0 TolY ii s = Inr (Go_On s')"
  obtains s1 s2 s3 d s4 where "newton_pass lib s = Inr s1" "fit_pass (nonfinite sp) lib ii s1 = Inr s2"
    "line_pass sp lib p ii s2 = Inr s3" "problem_gradient p (tau_plus_step (nonfinite sp) s3) = Inr d"
    "accept_step ii (tau_plus_step (nonfinite sp) s3) d s3 = Inr s4"
    "update_model sp lib p (vector_sub d (s_dtau s)) (limited_step (nonfinite sp) (s_maxstep s3) (s_Dtau s3)) s4 = Inr s'"
proof -
  obtain s1 s2 s3 d where s: "newton_pass lib s = Inr s1" "fit_pass (nonfinite sp) lib ii s1 = Inr s2"
    "line_pass sp lib p ii s2 = Inr s3" "problem_gradient p (tau_plus_step (nonfinite sp) s3) = Inr d"
    using assms by (auto simp: search_pass_def Let_def)
  moreover obtain s4 where "accept_step ii (tau_plus_step (nonfinite sp) s3) d s3 = Inr s4"
    "update_model sp lib p (vector_sub d (s_dtau s)) (limited_step (nonfinite sp) (s_maxstep s3) (s_Dtau s3)) s4 = Inr s'"
    using assms s by (auto simp: search_pass_def Let_def split: if_splits)
  ultimately show thesis by (rule that)
qed

lemma pass_keeps_zero_history:
  assumes "search_pass sp lib p dtaul0 TolY ii s = Inr (Go_On s')" and "zero_history N ii (s_dtaui s)" and "ii + 1 < N"
  shows "zero_history N (ii + 1) (s_dtaui s')"
proof -
  obtain s1 s2 s3 dtau s4 where s1: "newton_pass lib s = Inr s1" and s2: "fit_pass (nonfinite sp) lib ii s1 = Inr s2"
    and s3: "line_pass sp lib p ii s2 = Inr s3" and dtau: "problem_gradient p (tau_plus_step (nonfinite sp) s3) = Inr dtau"
    and s4: "accept_step ii (tau_plus_step (nonfinite sp) s3) dtau s3 = Inr s4"
    and s5: "update_model sp lib p (vector_sub dtau (s_dtau s))
      (limited_step (nonfinite sp) (s_maxstep s3) (s_Dtau s3)) s4 = Inr s'"
    using pass_goes_on [OF assms(1)] .
  have "record_gradient ii dtau (s_dtaui s) = Inr (s_dtaui s4)"
    using s4 passes_keep_history(1) [OF s1] passes_keep_history(2) [OF s2] passes_keep_history(3) [OF s3]
    by (auto simp: accept_step_def Let_def)
  then show ?thesis
    using zero_history_records [OF assms(2,3) gradient_not_negative [OF dtau]] passes_keep_history(4) [OF s5] by simp
qed

lemma goes_on_keeps_zero_history:
  assumes "goes_on k sp lib p dtaul0 TolY ii s = Some s'" and "zero_history N ii (s_dtaui s)" and "ii + k < N"
  shows "zero_history N (ii + k) (s_dtaui s')"
  using assms
proof (induction k arbitrary: ii s)
  case 0
  then show ?case by simp
next
  case (Suc k)
  then obtain s1 where s1: "search_pass sp lib p dtaul0 TolY ii s = Inr (Go_On s1)"
    "goes_on k sp lib p dtaul0 TolY (ii + 1) s1 = Some s'"
    by (auto split: sum.splits pass.splits)
  have "zero_history N (ii + 1) (s_dtaui s1)" using pass_keeps_zero_history [OF s1(1) Suc.prems(2)] Suc.prems(3) by simp
  then show ?case using Suc.IH [OF s1(2)] Suc.prems(3) by simp
qed

lemma bind_fails: "\<exists>e. m = Inl e \<Longrightarrow> \<exists>e. bind_result m f = Inl e"
  by auto

text \<open>A line search in the direction zero ends in a failed assertion.\<close>

lemma no_line_search_in_place: "\<exists>e. linminab sp lib Gs Gns DGs DGns F0 ab (0, 0) Habi TolY = Inl e"
proof -
  have slope: "(\<exists>e. line_slope sp lib Gs Gns DGs DGns F0 ab (0, 0) Habi 0 = Inl e)
      \<or> line_slope sp lib Gs Gns DGs DGns F0 ab (0, 0) Habi 0 = Inr 0"
    by (cases "gradL sp Gs Gns DGs DGns F0 (fst ab) (snd ab)") (simp_all add: line_slope_def dot_prod_def)
  then show ?thesis
    by (auto simp: linminab_def Let_def eval_nat_numeral linmin_step_def)
qed

lemma twentieth_pass_fails:
  assumes "zero_history N 19 (s_dtaui s)" and "19 < N" and "\<And>A. sp_3matrix_vector_prod lib A (0, 0) = (0, 0)"
  shows "\<exists>e. search_pass sp lib p dtaul0 TolY 19 s = Inl e"
proof -
  have fails: "\<exists>e. line_pass sp lib p 19 s2 = Inl e" if "s_dtaui s2 = s_dtaui s" for s2
  proof -
    have "smallest_column (s_dtaui s2) 19 = Inr 18" "column (s_dtaui s2) 18 = Inr (0, 0)"
      using last_zero_column [OF assms(1,2), of 19] assms(1) that by (simp_all add: zero_history_def)
    then show ?thesis
      using assms(3) no_line_search_in_place [of sp lib "p_Gs p" "p_Gns p" "p_DGs p" "p_DGns p" "p_F0 p" "s_tau s2"]
      by (cases "problem_hessian sp lib p (Some (s_tau s2)) (s_H s2) (s_Hi s2)")
        (auto simp: line_pass_def newton_step_def problem_line_def Let_def intro!: bind_fails)
  qed
  show ?thesis
  proof (cases "newton_pass lib s")
    case (Inl e)
    then show ?thesis by (simp add: search_pass_def Let_def)
  next
    case (Inr s1)
    obtain e where "line_pass sp lib p 19 s1 = Inl e" using fails [OF passes_keep_history(1) [OF Inr]] by blast
    moreover have "fit_pass (nonfinite sp) lib 19 s1 = Inr s1" by (simp add: fit_pass_def)
    ultimately show ?thesis by (simp add: search_pass_def Let_def Inr)
  qed
qed

text \<open>
  Property C23 (safety): a search that returns has ended in one of its first nineteen passes: it
  found the step lengths or stood still there.  Every later gradient is recorded as zero, the
  twentieth pass starts from the smallest one recorded, and its line search fails an assertion.
\<close>

theorem search_ends_early:
  assumes "start_search sp lib p maxiter Hi st = Inr s" and "search_loop maxiter sp lib p dtaul0 TolY 0 s = Inr (ii, s')"
    and "20 \<le> maxiter" and "history_shape (maxiter + 1) (sp_3matrix_alloc lib 2 (maxiter + 1) 1)"
    and "\<And>A. sp_3matrix_vector_prod lib A (0, 0) = (0, 0)"
  shows "\<exists>k<19. \<exists>s1. goes_on k sp lib p dtaul0 TolY 0 s = Some s1
    \<and> (search_pass sp lib p dtaul0 TolY k s1 = Inr (Good_Enough s') \<and> ii = k
      \<or> search_pass sp lib p dtaul0 TolY k s1 = Inr (Stuck s') \<and> ii = maxiter)"
proof -
  let ?N = "maxiter + 1"
  have start: "zero_history ?N 0 (s_dtaui s)"
    using assms(1,4) by (auto simp: start_search_def Let_def zero_history_def history_shape_def set_column_def sp_3matrix_set_def
        split: if_splits)
  have no: "\<not> 20 \<le> k" if goes: "goes_on k sp lib p dtaul0 TolY 0 s = Some s2" for k s2
  proof
    assume "20 \<le> k"
    then obtain s1 where s1: "goes_on 19 sp lib p dtaul0 TolY 0 s = Some s1"
      "goes_on (k - 19) sp lib p dtaul0 TolY (0 + 19) s1 = Some s2"
      using goes_on_prefix [OF goes, of 19] by auto
    obtain e where "search_pass sp lib p dtaul0 TolY 19 s1 = Inl e"
      using twentieth_pass_fails [of ?N s1 lib sp p dtaul0 TolY] goes_on_keeps_zero_history [OF s1(1) start] assms(3,5) by auto
    moreover obtain j where "k - 19 = Suc j" using \<open>20 \<le> k\<close> by (cases "k - 19") auto
    ultimately show False using s1(2) by simp
  qed
  have ended: "k \<noteq> 19" if "goes_on k sp lib p dtaul0 TolY 0 s = Some s2" "search_pass sp lib p dtaul0 TolY k s2 = Inr r" for k s2 r
    using twentieth_pass_fails [of ?N s2 lib sp p dtaul0 TolY] goes_on_keeps_zero_history [OF that(1) start] that(2) assms(3,5) by auto
  have "k < 19" if "goes_on k sp lib p dtaul0 TolY 0 s = Some s2" "search_pass sp lib p dtaul0 TolY k s2 = Inr r" for k s2 r
    using no [OF that(1)] ended [OF that] by simp
  then show ?thesis using search_loop_ends [OF assms(2)] no assms(3) by fastforce
qed

text \<open>A concrete library of matrices, for the examples.\<close>

definition example_saddle_lib :: saddle_lib where
  "example_saddle_lib = \<lparr>
     sp_3matrix_alloc = (\<lambda>x y z. \<lparr>matrix_x = x, matrix_y = y, matrix_z = z, matrix_data = replicate (x * y * z) 0\<rparr>),
     sp_3matrix_memcpy = (\<lambda>dst src. dst\<lparr>matrix_data := matrix_data src\<rparr>),
     sp_3matrix_scale = (\<lambda>m r. m\<lparr>matrix_data := map (\<lambda>v. v * r) (matrix_data m)\<rparr>),
     sp_3matrix_sum = (\<lambda>a b. a\<lparr>matrix_data := map2 (+) (matrix_data a) (matrix_data b)\<rparr>),
     sp_3matrix_mul = (\<lambda>a b. a), sp_3matrix_invert = (\<lambda>a. a), sp_3matrix_transpose = (\<lambda>a. a),
     sp_3matrix_vector_prod = (\<lambda>m v. (matrix_data m ! 0 * fst v + matrix_data m ! 1 * snd v,
        matrix_data m ! 2 * fst v + matrix_data m ! 3 * snd v)),
     sp_vector_outer_prod = (\<lambda>a b. \<lparr>matrix_x = 2, matrix_y = 2, matrix_z = 1,
        matrix_data = [fst a * fst b, fst a * snd b, snd a * fst b, snd a * snd b]\<rparr>),
     sp_vector_alloc = (\<lambda>n. replicate n 0),
     sp_c3matrix_alloc = (\<lambda>x y z. \<lparr>pixels = replicate (x * y * z) 0, mask_data = replicate (x * y * z) 0,
        size_x = x, size_y = y, size_z = z, shifted = False, image_center = []\<rparr>),
     sp_c3matrix_fft = (\<lambda>a. a\<lparr>pixels := transform_of_two (pixels a)\<rparr>),
     sp_c3matrix_ifft = (\<lambda>a. a\<lparr>pixels := transform_of_two (pixels a)\<rparr>),
     duplicate_detector = (\<lambda>a. a\<lparr>pixels := map (\<lambda>_. 0) (pixels a)\<rparr>), duplicate_data = (\<lambda>a. a),
     real_max = 1000000, real_epsilon = 1 / 1000000\<rparr>"

definition example_problem :: problem where
  "example_problem = \<lparr>p_Gs = one_pixel 3, p_Gns = one_pixel 4, p_DGs = one_pixel 1, p_DGns = one_pixel 2, p_F0 = one_pixel 1\<rparr>"

definition flat_matrix :: sp_3matrix where
  "flat_matrix = \<lparr>matrix_x = 2, matrix_y = 2, matrix_z = 1, matrix_data = [0, 0, 0, 0]\<rparr>"

definition example_static :: tau_static where
  "example_static = \<lparr>tauav = Some (0, 0), Hiav = Some flat_matrix, nav = 5\<rparr>"

lemma example_gradient: "problem_gradient example_problem (0, 0) = Inr (6, 2)"
  by (simp add: problem_gradient_def gradLtau_def gradLtau_step_def measured_value_def example_problem_def one_pixel_def
      sp_image_size_def complex_zero_one scaleR_conv_of_real)

lemma search_ends_early_witness:
  "\<exists>s s'. start_search example_library example_saddle_lib example_problem 20 flat_matrix example_static = Inr s
    \<and> (\<exists>k<19. \<exists>s1. goes_on k example_library example_saddle_lib example_problem 1 1 0 s = Some s1
      \<and> (search_pass example_library example_saddle_lib example_problem 1 1 k s1 = Inr (Good_Enough s') \<and> 20 = k
        \<or> search_pass example_library example_saddle_lib example_problem 1 1 k s1 = Inr (Stuck s') \<and> (20::nat) = 20))"
proof -
  obtain s where s: "start_search example_library example_saddle_lib example_problem 20 flat_matrix example_static = Inr s"
    "s_Hi s = flat_matrix" "s_tau s = (0, 0)" "s_dtau s = (6, 2)"
    by (auto simp: start_search_def example_static_def example_gradient set_column_def sp_3matrix_set_def matrix_index_def
        example_saddle_lib_def flat_matrix_def Let_def)
  have "newton_pass example_saddle_lib s = Inr (s\<lparr>s_Hi := flat_matrix, s_Dtau := (0, 0)\<rparr>)"
    using s by (simp add: newton_pass_def force_signs_def newton_step_def negated_def sp_3matrix_get_def sp_3matrix_set_def
        matrix_index_def array_get_def example_saddle_lib_def flat_matrix_def)
  then have "\<exists>s'. search_pass example_library example_saddle_lib example_problem 1 1 0 s = Inr (Stuck s')"
    using s(3,4) example_gradient
    by (simp add: search_pass_def fit_pass_def line_pass_def tau_plus_step_def limited_step_def vector_norm_def dot_prod_def
        vector_add_def Let_def)
  then obtain s' where "search_loop 20 example_library example_saddle_lib example_problem 1 1 0 s = Inr (20, s')"
    by (auto simp: eval_nat_numeral)
  from search_ends_early [OF s(1) this] s(1) show ?thesis
    by (auto simp: history_shape_def example_saddle_lib_def)
qed

section \<open>The first iteration\<close>

lemma set_in_empty: "matrix_data m = [] \<Longrightarrow> sp_3matrix_set m x y z v = Inl Out_Of_Bounds"
  by (simp add: sp_3matrix_set_def Let_def)

lemma reduction_fails:
  assumes "matrix_data redM = []" and "0 < n"
  shows "fold_result (reduction nf H isright Hmin) [0..<n] redM \<noteq> Inr r"
proof -
  have "[0..<n] = 0 # [1..<n]" using assms(2) by (simp add: upt_rec)
  moreover have "reduction nf H isright Hmin 0 redM \<noteq> Inr r" for r
    using assms(1) by (auto simp: reduction_def set_in_empty)
  ultimately show ?thesis by auto
qed

lemma goright_fails:
  assumes "\<And>n. matrix_data (sp_3matrix_alloc lib n n 0) = []" and "0 < matrix_y H"
  shows "goright nf lib H \<noteq> Inr r"
proof
  assume "goright nf lib H = Inr r"
  then obtain redM isright Hmin H' where
    "fold_result (reduction nf H' isright Hmin) [0..<matrix_y H] (sp_3matrix_alloc lib (matrix_y H) (matrix_y H) 0) = Inr redM"
    by (auto simp: goright_def Let_def)
  then show False using reduction_fails [OF assms(1,2)] by simp
qed

lemma first_search_fails:
  assumes "\<And>n. matrix_data (sp_3matrix_alloc lib n n 0) = []"
    and "\<And>a b. matrix_y (sp_3matrix_invert lib (sp_3matrix_memcpy lib a b)) = matrix_y a"
    and "0 < matrix_y Hi" and "nav st < 4"
  shows "start_search sp lib p maxiter Hi st \<noteq> Inr s"
proof
  assume "start_search sp lib p maxiter Hi st = Inr s"
  then obtain H Hi' r where "problem_hessian sp lib p None (sp_3matrix_alloc lib 2 2 1) Hi = Inr (H, Hi')"
    and r: "goright (nonfinite sp) lib Hi' = Inr r"
    using assms(4) by (auto simp: start_search_def Let_def)
  then have "matrix_y Hi' = matrix_y Hi" using assms(2) by (auto simp: problem_hessian_def hesLtau_def Let_def split: if_splits)
  then show False using goright_fails [OF assms(1)] assms(3) r by simp
qed

text \<open>
  The first SO2D iteration fails whatever it is given, when a matrix of depth
  zero has no elements: the correction of the signs of the second derivatives writes into such
  a matrix.
\<close>

lemma so2d_cannot_start:
  assumes "\<And>n. matrix_data (sp_3matrix_alloc lib n n 0) = []"
    and "\<And>a b. matrix_y (sp_3matrix_invert lib (sp_3matrix_memcpy lib a b)) = matrix_y a"
    and "matrix_y (sp_3matrix_alloc lib 2 2 2) = 2" and "so2d_static st = None"
  shows "\<exists>e. basic_so2d_iteration sp lib speed amp a s st = Inl e"
proof -
  have "basic_so2d_iteration sp lib speed amp a s st \<noteq> Inr r" for r
  proof
    assume "basic_so2d_iteration sp lib speed amp a s st = Inr r"
    then obtain d d' where d: "first_saddle sp lib a s tau_start = Inr d"
      and "minmaxL sp lib amp s 1 1 d = Inr d'"
      using assms(4) by (auto simp: basic_so2d_iteration_def Let_def)
    then obtain p s0 where "start_search sp lib p 50 (d_Hab d) (d_static d) = Inr s0"
      by (auto simp: minmaxL_def saddle_pass_def minmaxtau_def Let_def)
    moreover have "0 < matrix_y (d_Hab d)" "nav (d_static d) < 4"
      using d assms(3) by (auto simp: first_saddle_def Let_def tau_start_def)
    ultimately show False using first_search_fails [OF assms(1,2)] by simp
  qed
  then show ?thesis by (cases "basic_so2d_iteration sp lib speed amp a s st") auto
qed

lemma so2d_cannot_start_witness:
  "\<exists>e. basic_so2d_iteration example_library example_saddle_lib 1 (one_pixel 1) (one_pixel 1) (one_pixel 1) (example_hawk 5) = Inl e"
  by (rule so2d_cannot_start) (simp_all add: example_saddle_lib_def example_hawk_def)

text \<open>An iteration that does return ends like the others, with the line of the log.\<close>

interpretation so2d_iteration: phasing_iteration sp speed "basic_so2d_iteration sp lib speed" for sp speed lib
  by unfold_locales (auto simp: basic_so2d_iteration_def Let_def intro: finish_log)

section \<open>Steps\<close>

lemma norm_scaled: "vector_norm (vector_scale v r) = vector_norm v * \<bar>r\<bar>"
proof -
  have "dot_prod (vector_scale v r) (vector_scale v r) = dot_prod v v * r\<^sup>2"
    by (simp add: dot_prod_def vector_scale_def power2_eq_square algebra_simps)
  then show ?thesis by (simp add: vector_norm_def real_sqrt_mult)
qed

lemma norm_zero_iff: "vector_norm v = 0 \<longleftrightarrow> v = (0, 0)"
  by (cases v) (simp add: vector_norm_def dot_prod_def sum_squares_eq_zero_iff)

lemma norm_nonneg: "0 \<le> vector_norm v"
  by (simp add: vector_norm_def dot_prod_def)

lemma update_keeps_limits:
  assumes "update_model sp lib p y step s = Inr s'" and "1 / 10 \<le> s_maxstep s" and "s_maxstep s \<le> 1"
  shows "1 / 10 \<le> s_maxstep s'" and "s_maxstep s' \<le> 1"
  using assms by (auto simp: update_model_def real_hessian_update_def sr1_update_def Let_def split: if_splits prod.splits)

lemma passes_keep_limits:
  "newton_pass lib s = Inr s' \<Longrightarrow> s_maxstep s' = s_maxstep s"
  "fit_pass nf lib ii s = Inr s' \<Longrightarrow> s_maxstep s' = s_maxstep s"
  "line_pass sp lib p ii s = Inr s' \<Longrightarrow> s_maxstep s' = s_maxstep s \<or> s_maxstep s' = 1"
  "accept_step ii t d s = Inr s' \<Longrightarrow> s_maxstep s' = s_maxstep s"
  by (auto simp: newton_pass_def fit_pass_def line_pass_def accept_step_def Let_def split: if_splits prod.splits)

text \<open>A step of a limited length, and what the passes before it leave of the search.\<close>

lemma limited_step_length:
  assumes "0 \<le> L" and "D \<noteq> (0, 0)"
  shows "vector_norm (limited_step nf L D) = min (vector_norm D) L"
proof -
  have "0 < vector_norm D" using assms(2) norm_nonneg [of D] norm_zero_iff [of D] by linarith
  then show ?thesis using assms(1) by (simp add: limited_step_def norm_scaled abs_of_nonneg)
qed

lemma passes_before_step:
  "newton_pass lib s = Inr s' \<Longrightarrow> s_tau s' = s_tau s"
  "fit_pass nf lib ii s = Inr s' \<Longrightarrow> (ii + 11) mod 20 \<noteq> 0 \<Longrightarrow> s_tau s' = s_tau s"
  "line_pass sp lib p ii s = Inr s' \<Longrightarrow> s_tau s' = s_tau s
    \<and> s_maxstep s' = (if (ii + 1) mod 20 = 0 then 1 else s_maxstep s)"
  by (auto simp: newton_pass_def fit_pass_def line_pass_def Let_def split: if_splits prod.splits)

lemma passes_after_step:
  "accept_step ii t d s = Inr s' \<Longrightarrow> s_tau s' = t"
  "update_model sp lib p y step s = Inr s' \<Longrightarrow> s_tau s' = s_tau s"
  by (auto simp: accept_step_def update_model_def real_hessian_update_def sr1_update_def Let_def split: if_splits prod.splits)

lemma search_pass_cases:
  assumes "search_pass sp lib p dtaul0 TolY ii s = Inr r"
  obtains s1 s2 s3 d where "newton_pass lib s = Inr s1" "fit_pass (nonfinite sp) lib ii s1 = Inr s2"
    "line_pass sp lib p ii s2 = Inr s3"
    "r = Stuck (s3\<lparr>s_dtau := d\<rparr>)
      \<or> (\<exists>s4. accept_step ii (tau_plus_step (nonfinite sp) s3) d s3 = Inr s4 \<and> r = Good_Enough s4)
      \<or> (\<exists>s4 s5. accept_step ii (tau_plus_step (nonfinite sp) s3) d s3 = Inr s4
          \<and> update_model sp lib p (vector_sub d (s_dtau s)) (limited_step (nonfinite sp) (s_maxstep s3) (s_Dtau s3)) s4 = Inr s5
          \<and> r = Go_On s5)"
proof -
  obtain s1 s2 s3 d where s: "newton_pass lib s = Inr s1" "fit_pass (nonfinite sp) lib ii s1 = Inr s2"
    "line_pass sp lib p ii s2 = Inr s3" "problem_gradient p (tau_plus_step (nonfinite sp) s3) = Inr d"
    using assms by (auto simp: search_pass_def Let_def)
  then show thesis
    using assms by (intro that [OF s(1-3)]) (auto simp: search_pass_def Let_def split: if_splits)
qed

text \<open>
  Property C22 (bounds): let \<open>s3\<close> be the search after the three parts of a pass that choose its step
  \<open>s_Dtau s3\<close> (the Newton step, every twentieth pass a fit to the history, every twentieth a
  search along a line).  The pass moves the step lengths from those of \<open>s3\<close> by a vector that is as long
  as the chosen step or as the limit, whichever is smaller, or does not move them and ends the
  search; the limit is the one the pass was given, or 1 in a pass with a line search, and a pass
  that goes on leaves a limit between a tenth and one.
\<close>

theorem steps_are_limited:
  assumes "search_pass sp lib p dtaul0 TolY ii s = Inr r" and "1 / 10 \<le> s_maxstep s" and "s_maxstep s \<le> 1"
  shows "\<exists>s1 s2 s3. newton_pass lib s = Inr s1 \<and> fit_pass (nonfinite sp) lib ii s1 = Inr s2
    \<and> line_pass sp lib p ii s2 = Inr s3
    \<and> s_maxstep s3 = (if (ii + 1) mod 20 = 0 then 1 else s_maxstep s)
    \<and> ((ii + 11) mod 20 \<noteq> 0 \<longrightarrow> s_tau s3 = s_tau s)
    \<and> (case r of
         Stuck s' \<Rightarrow> s_tau s' = s_tau s3
       | Good_Enough s' \<Rightarrow> s_Dtau s3 \<noteq> (0, 0) \<longrightarrow>
           vector_norm (vector_sub (s_tau s') (s_tau s3)) = min (vector_norm (s_Dtau s3)) (s_maxstep s3)
       | Go_On s' \<Rightarrow> 1 / 10 \<le> s_maxstep s' \<and> s_maxstep s' \<le> 1 \<and> (s_Dtau s3 \<noteq> (0, 0) \<longrightarrow>
           vector_norm (vector_sub (s_tau s') (s_tau s3)) = min (vector_norm (s_Dtau s3)) (s_maxstep s3)))"
proof -
  obtain s1 s2 s3 d where passes: "newton_pass lib s = Inr s1" "fit_pass (nonfinite sp) lib ii s1 = Inr s2"
    "line_pass sp lib p ii s2 = Inr s3"
    and r: "r = Stuck (s3\<lparr>s_dtau := d\<rparr>)
      \<or> (\<exists>s4. accept_step ii (tau_plus_step (nonfinite sp) s3) d s3 = Inr s4 \<and> r = Good_Enough s4)
      \<or> (\<exists>s4 s5. accept_step ii (tau_plus_step (nonfinite sp) s3) d s3 = Inr s4
          \<and> update_model sp lib p (vector_sub d (s_dtau s)) (limited_step (nonfinite sp) (s_maxstep s3) (s_Dtau s3)) s4 = Inr s5
          \<and> r = Go_On s5)"
    using search_pass_cases [OF assms(1)] .
  have max: "s_maxstep s3 = (if (ii + 1) mod 20 = 0 then 1 else s_maxstep s)"
    using passes_keep_limits(1) [OF passes(1)] passes_keep_limits(2) [OF passes(2)] passes_before_step(3) [OF passes(3)] by simp
  have tau: "(ii + 11) mod 20 \<noteq> 0 \<longrightarrow> s_tau s3 = s_tau s"
    using passes_before_step(1) [OF passes(1)] passes_before_step(2) [OF passes(2)] passes_before_step(3) [OF passes(3)] by simp
  have "vector_sub (tau_plus_step (nonfinite sp) s3) (s_tau s3) = limited_step (nonfinite sp) (s_maxstep s3) (s_Dtau s3)"
    by (simp add: tau_plus_step_def vector_add_def vector_sub_def)
  then have moved: "s_Dtau s3 \<noteq> (0, 0) \<longrightarrow> vector_norm (vector_sub (tau_plus_step (nonfinite sp) s3) (s_tau s3))
      = min (vector_norm (s_Dtau s3)) (s_maxstep s3)"
    using limited_step_length [of "s_maxstep s3" "s_Dtau s3" "nonfinite sp"] max assms(2) by simp
  from r have "case r of
         Stuck s' \<Rightarrow> s_tau s' = s_tau s3
       | Good_Enough s' \<Rightarrow> s_Dtau s3 \<noteq> (0, 0) \<longrightarrow>
           vector_norm (vector_sub (s_tau s') (s_tau s3)) = min (vector_norm (s_Dtau s3)) (s_maxstep s3)
       | Go_On s' \<Rightarrow> 1 / 10 \<le> s_maxstep s' \<and> s_maxstep s' \<le> 1 \<and> (s_Dtau s3 \<noteq> (0, 0) \<longrightarrow>
           vector_norm (vector_sub (s_tau s') (s_tau s3)) = min (vector_norm (s_Dtau s3)) (s_maxstep s3))"
  proof (elim disjE exE conjE)
    fix s4 s5
    assume accept: "accept_step ii (tau_plus_step (nonfinite sp) s3) d s3 = Inr s4"
      and last: "update_model sp lib p (vector_sub d (s_dtau s))
        (limited_step (nonfinite sp) (s_maxstep s3) (s_Dtau s3)) s4 = Inr s5" and "r = Go_On s5"
    moreover have "1 / 10 \<le> s_maxstep s4" "s_maxstep s4 \<le> 1"
      using passes_keep_limits(4) [OF accept] max assms(2,3) by auto
    note update_keeps_limits [OF last this]
    ultimately show ?thesis
      using moved passes_after_step(1) [OF accept] passes_after_step(2) [OF last] by simp
  qed (use moved passes_after_step(1) in auto)
  then show ?thesis using passes max tau by blast
qed

definition rising_problem :: problem where
  "rising_problem = \<lparr>p_Gs = one_pixel (- 1 / 2), p_Gns = one_pixel 0, p_DGs = one_pixel 0, p_DGns = one_pixel 1,
     p_F0 = (one_pixel 1)\<lparr>mask_data := [0]\<rparr>\<rparr>"

definition rising_search :: tau_search where
  "rising_search = \<lparr>s_tau = (0, 0), s_dtau = (0, 1 / 2), s_dtaul = 1 / 2, s_taumin = (0, 0), s_dtaulmin = 1 / 2,
     s_taui = sp_3matrix_alloc example_saddle_lib 2 2 1, s_dtaui = sp_3matrix_alloc example_saddle_lib 2 2 1,
     s_H = flat_matrix, s_Hi = flat_matrix\<lparr>matrix_data := [0, 0, 0, 1]\<rparr>, s_Dtau = (0, 1 / 2), s_maxstep = 3 / 10\<rparr>"

lemma rising_gradient: "problem_gradient rising_problem (0, 3 / 10) = Inr (0, 1 / 5)"
  by (simp add: problem_gradient_def gradLtau_def gradLtau_step_def measured_value_def rising_problem_def one_pixel_def
      sp_image_size_def complex_zero_one scaleR_conv_of_real complex_eq_iff cmod_def)

lemma steps_are_limited_witness:
  "\<exists>s'. search_pass example_library example_saddle_lib rising_problem 1 (1 / 10) 0 rising_search = Inr (Go_On s')
    \<and> 1 / 10 \<le> s_maxstep s' \<and> s_maxstep s' \<le> 1
    \<and> vector_norm (vector_sub (s_tau s') (s_tau rising_search)) = 3 / 10"
proof -
  have half: "vector_norm (0, 1 / 2) = 1 / 2" and fifth: "vector_norm (0, 1 / 5) = 1 / 5"
    by (simp_all add: vector_norm_def dot_prod_def real_sqrt_divide)
  have newton: "newton_pass example_saddle_lib rising_search
      = Inr (rising_search\<lparr>s_Hi := flat_matrix\<lparr>matrix_data := [0, 0, 0, - 1]\<rparr>, s_Dtau := (0, 1 / 2)\<rparr>)"
    by (simp add: newton_pass_def force_signs_def newton_step_def negated_def sp_3matrix_get_def sp_3matrix_set_def
        matrix_index_def array_get_def example_saddle_lib_def flat_matrix_def rising_search_def)
  have step: "tau_plus_step nf (rising_search\<lparr>s_Hi := H, s_Dtau := (0, 1 / 2)\<rparr>) = (0, 3 / 10)"
    "limited_step nf (3 / 10) (0, 1 / 2) = (0, 3 / 10)" for nf H
    by (simp_all add: tau_plus_step_def limited_step_def half vector_scale_def vector_add_def rising_search_def)
  have fields: "s_maxstep rising_search = 3 / 10" "s_dtau rising_search = (0, 1 / 2)"
    "s_dtaui rising_search = \<lparr>matrix_x = 2, matrix_y = 2, matrix_z = 1, matrix_data = [0, 0, 0, 0]\<rparr>"
    "s_taui rising_search = \<lparr>matrix_x = 2, matrix_y = 2, matrix_z = 1, matrix_data = [0, 0, 0, 0]\<rparr>"
    by (simp_all add: rising_search_def example_saddle_lib_def eval_nat_numeral)
  have model: "sp_3matrix_vector_prod example_saddle_lib (flat_matrix\<lparr>matrix_data := [0, 0, 0, - 1]\<rparr>)
      (vector_sub (0, 1 / 5) (0, 1 / 2)) = (0, 3 / 10)" "quadratic_error (0, 3 / 10) (0, 3 / 10) = Inr 0"
    "c_int_of_real (1 / 5) = 0"
    by (simp_all add: example_saddle_lib_def flat_matrix_def vector_sub_def quadratic_error_def dot_prod_def c_int_of_real_def
        floor_eq_iff)
  have "\<exists>s'. search_pass example_library example_saddle_lib rising_problem 1 (1 / 10) 0 rising_search = Inr (Go_On s')"
    by (simp add: newton step rising_gradient fifth fields model search_pass_def fit_pass_def line_pass_def accept_step_def record_gradient_def set_column_def
        sp_3matrix_set_def matrix_index_def update_model_def Let_def)
  then obtain s' where s': "search_pass example_library example_saddle_lib rising_problem 1 (1 / 10) 0 rising_search = Inr (Go_On s')"
    by blast
  have "1 / 10 \<le> s_maxstep rising_search" "s_maxstep rising_search \<le> 1" by (simp_all add: fields)
  from steps_are_limited [OF s' this] show ?thesis
    using s' by (auto simp: newton fit_pass_def line_pass_def half fields)
qed

section \<open>Brackets\<close>

lemma parabola_root:
  fixes c w dy y0 r :: real
  assumes "c \<noteq> 0" and "w\<^sup>2 = dy * dy - 4 * y0 * c" and "r = (- dy - w) / c / 2"
  shows "y0 + dy * r + c * r\<^sup>2 = 0"
proof -
  have t: "2 * c * r = - dy - w" using assms(1,3) by (simp add: field_simps)
  have "4 * c * (y0 + dy * r + c * r\<^sup>2) = 4 * c * y0 + (2 * c * r) * (2 * c * r + 2 * dy)"
    by (simp add: power2_eq_square algebra_simps)
  also have "\<dots> = 0" unfolding t using assms(2) by (simp add: power2_eq_square algebra_simps)
  finally show ?thesis using assms(1) by simp
qed

text \<open>
  The quadratic step of \<open>bisect2\<close> is a root of the parabola that has the
  first value and slope and goes through the second point, when that root is real and lies in
  the bracket; the slope it returns is the mean of the first slope and the slope of the parabola
  at the root.
\<close>

lemma bisect_finds_root:
  fixes x0 x1 y0 y1 dy :: real
  defines "c \<equiv> ((y1 - y0) - (x1 - x0) * dy) / ((x1 - x0) * (x1 - x0))"
  defines "parabola \<equiv> \<lambda>x. y0 + dy * (x - x0) + c * (x - x0)\<^sup>2"
  assumes "bisect2 nf x0 x1 y0 y1 dy xmax xmin = Inr (xn, dyn)" and "fst xmin \<le> x1" and "x1 \<le> fst xmax"
    and "4 * y0 * c \<le> dy * dy"
    and "fst xmin \<le> x0 + (- dy - sqrt (dy * dy - 4 * y0 * c)) / c / 2"
    and "x0 + (- dy - sqrt (dy * dy - 4 * y0 * c)) / c / 2 \<le> fst xmax"
  shows "parabola x0 = y0 \<and> parabola x1 = y1 \<and> parabola xn = 0
    \<and> fst xmin \<le> xn \<and> xn \<le> fst xmax \<and> dyn = (dy + (dy + 2 * c * (xn - x0))) / 2"
proof -
  have Dx: "x1 - x0 \<noteq> 0" using assms(3-5) by (auto simp: bisect2_def Let_def split: if_splits)
  have c: "c \<noteq> 0" using assms(3-5) by (auto simp: bisect2_def Let_def c_def split: if_splits)
  let ?r = "(- dy - sqrt (dy * dy - 4 * y0 * c)) / c / 2"
  have xn: "xn = x0 + ?r" and dyn: "dyn = dy + c * ?r"
    using assms(3-8) Dx c unfolding bisect2_def Let_def c_def [symmetric] by (auto simp: c_def [symmetric] not_less split: if_splits)
  have "(sqrt (dy * dy - 4 * y0 * c))\<^sup>2 = dy * dy - 4 * y0 * c" using assms(6) by simp
  from parabola_root [OF c this refl] have "parabola xn = 0" by (simp add: parabola_def xn)
  moreover have "c * (x1 - x0)\<^sup>2 = (y1 - y0) - (x1 - x0) * dy" using Dx by (simp add: c_def power2_eq_square)
  then have "parabola x1 = y1" by (simp add: parabola_def algebra_simps)
  ultimately show ?thesis using assms(7,8) by (simp add: parabola_def xn dyn)
qed

lemma bisect_finds_root_witness:
  "\<exists>xn dyn. bisect2 (\<lambda>r. r) 0 3 (2::real) (-1) (-2) (3, -1) (0, 2) = Inr (xn, dyn)
    \<and> 2 + (-2) * (xn - 0) + 1 / 3 * (xn - 0)\<^sup>2 = 0"
proof -
  have "2 / 3 \<le> sqrt (4 / 3 :: real)" by (rule real_le_rsqrt) (simp add: power2_eq_square)
  moreover have "sqrt (4 / 3 :: real) \<le> 2" by (rule real_le_lsqrt) (simp_all add: power2_eq_square)
  ultimately have bounds: "2 / 3 \<le> sqrt (4 / 3 :: real)" "sqrt (4 / 3 :: real) \<le> 2" .
  define r :: real where "r = 0 + (- (-2) - sqrt ((-2) * (-2) - 4 * 2 * (1 / 3))) / (1 / 3) / 2"
  have r: "0 \<le> r" "r \<le> 3" using bounds by (simp_all add: r_def)
  have result: "bisect2 (\<lambda>r. r) 0 3 2 (-1) (-2) (3, -1) (0, 2) = Inr (r, - 2 + 1 / 3 * (r - 0))"
    using r by (simp add: bisect2_def r_def)
  have "2 + (-2) * (r - 0) + 1 / 3 * (r - 0)\<^sup>2 = 0"
    using bisect_finds_root [of "\<lambda>r. r" 0 3 2 "-1" "-2" "(3, -1)" "(0, 2)" r] result r by (simp add: r_def)
  then show ?thesis using result by blast
qed

end
