(* ===== verification/Metadata.thy ===== *)
theory Metadata
  imports Options
begin

text \<open>
  The table \<open>variable_metadata\<close> of \<open>src/metadata.c\<close>: for each option its name, its type, the
  group it belongs to, what may be done with it, the values of a multiple choice, the field of the
  options structure it is kept in and the configurations it makes sense in.  The reader
  and the writer of configuration files (theory \<open>Options_IO\<close>) are driven by it.  The texts
  shown to the user (\<open>display_name\<close>, \<open>documentation\<close>, \<open>list_documentation\<close>), the
  properties of single list items and the pointer reserved for future use are left out.
\<close>

section \<open>Types of the header\<close>

datatype variable_type =
    Type_Real | Type_Int | Type_String | Type_MultipleChoice | Type_Bool | Type_Group | Type_Image
  | Type_Slice | Type_Vector_Real | Type_Vector_Int | Type_Existing_Filename | Type_Filename
  | Type_Directory_Name | Type_Map_Real

text \<open>The identifiers, numbered as in the enumeration of the header.\<close>

abbreviation (input) Id_Diffraction_Filename :: int where "Id_Diffraction_Filename \<equiv> 0"
abbreviation (input) Id_Real_Image_Filename :: int where "Id_Real_Image_Filename \<equiv> 1"
abbreviation (input) Id_Max_Blur_Radius :: int where "Id_Max_Blur_Radius \<equiv> 2"
abbreviation (input) Id_Init_Level :: int where "Id_Init_Level \<equiv> 3"
abbreviation (input) Id_Beta :: int where "Id_Beta \<equiv> 4"
abbreviation (input) Id_Iterations :: int where "Id_Iterations \<equiv> 5"
abbreviation (input) Id_Support_Mask_Filename :: int where "Id_Support_Mask_Filename \<equiv> 6"
abbreviation (input) Id_Init_Support_Filename :: int where "Id_Init_Support_Filename \<equiv> 7"
abbreviation (input) Id_Image_Guess_Filename :: int where "Id_Image_Guess_Filename \<equiv> 8"
abbreviation (input) Id_Noise :: int where "Id_Noise \<equiv> 9"
abbreviation (input) Id_Beamstop :: int where "Id_Beamstop \<equiv> 10"
abbreviation (input) Id_New_Level :: int where "Id_New_Level \<equiv> 11"
abbreviation (input) Id_Iterations_To_Min_Blur :: int where "Id_Iterations_To_Min_Blur \<equiv> 12"
abbreviation (input) Id_Blur_Radius_Reduction_Method :: int where "Id_Blur_Radius_Reduction_Method \<equiv> 13"
abbreviation (input) Id_Min_Blur :: int where "Id_Min_Blur \<equiv> 14"
abbreviation (input) Id_Enforce_Real :: int where "Id_Enforce_Real \<equiv> 15"
abbreviation (input) Id_Log_File :: int where "Id_Log_File \<equiv> 16"
abbreviation (input) Id_Commandline :: int where "Id_Commandline \<equiv> 17"
abbreviation (input) Id_Output_Period :: int where "Id_Output_Period \<equiv> 18"
abbreviation (input) Id_Log_Output_Period :: int where "Id_Log_Output_Period \<equiv> 19"
abbreviation (input) Id_Algorithm :: int where "Id_Algorithm \<equiv> 20"
abbreviation (input) Id_Exp_Sigma :: int where "Id_Exp_Sigma \<equiv> 21"
abbreviation (input) Id_Dyn_Beta :: int where "Id_Dyn_Beta \<equiv> 22"
abbreviation (input) Id_Rand_Phases :: int where "Id_Rand_Phases \<equiv> 23"
abbreviation (input) Id_Rand_Intensities :: int where "Id_Rand_Intensities \<equiv> 24"
abbreviation (input) Id_Cur_Iteration :: int where "Id_Cur_Iteration \<equiv> 25"
abbreviation (input) Id_Adapt_Thres :: int where "Id_Adapt_Thres \<equiv> 26"
abbreviation (input) Id_Automatic :: int where "Id_Automatic \<equiv> 27"
abbreviation (input) Id_Work_Dir :: int where "Id_Work_Dir \<equiv> 28"
abbreviation (input) Id_Real_Error_Threshold :: int where "Id_Real_Error_Threshold \<equiv> 29"
abbreviation (input) Id_Support_Update_Algorithm :: int where "Id_Support_Update_Algorithm \<equiv> 30"
abbreviation (input) Id_Output_Precision :: int where "Id_Output_Precision \<equiv> 31"
abbreviation (input) Id_Error_Reduction_Iterations_In_Support_Update :: int where "Id_Error_Reduction_Iterations_In_Support_Update \<equiv> 32"
abbreviation (input) Id_Enforce_Positivity :: int where "Id_Enforce_Positivity \<equiv> 33"
abbreviation (input) Id_Genetic_Optimization :: int where "Id_Genetic_Optimization \<equiv> 34"
abbreviation (input) Id_Charge_Flip_Sigma :: int where "Id_Charge_Flip_Sigma \<equiv> 35"
abbreviation (input) Id_Espresso_Tau :: int where "Id_Espresso_Tau \<equiv> 36"
abbreviation (input) Id_Rescale_Amplitudes :: int where "Id_Rescale_Amplitudes \<equiv> 37"
abbreviation (input) Id_Square_Mask :: int where "Id_Square_Mask \<equiv> 38"
abbreviation (input) Id_Patterson_Blur_Radius :: int where "Id_Patterson_Blur_Radius \<equiv> 39"
abbreviation (input) Id_Remove_Central_Pixel_Phase :: int where "Id_Remove_Central_Pixel_Phase \<equiv> 40"
abbreviation (input) Id_Perturb_Weak_Reflections :: int where "Id_Perturb_Weak_Reflections \<equiv> 41"
abbreviation (input) Id_Nthreads :: int where "Id_Nthreads \<equiv> 42"
abbreviation (input) Id_Break_Centrosym_Period :: int where "Id_Break_Centrosym_Period \<equiv> 43"
abbreviation (input) Id_Reconstruction_Finished :: int where "Id_Reconstruction_Finished \<equiv> 44"
abbreviation (input) Id_Real_Error_Tolerance :: int where "Id_Real_Error_Tolerance \<equiv> 45"
abbreviation (input) Id_Root :: int where "Id_Root \<equiv> 46"
abbreviation (input) Id_Remove_Central_Pixel_phase :: int where "Id_Remove_Central_Pixel_phase \<equiv> 47"
abbreviation (input) Id_Max_Iterations :: int where "Id_Max_Iterations \<equiv> 48"
abbreviation (input) Id_Patterson_Level_Algorithm :: int where "Id_Patterson_Level_Algorithm \<equiv> 49"
abbreviation (input) Id_Object_Area :: int where "Id_Object_Area \<equiv> 50"
abbreviation (input) Id_Template_Area :: int where "Id_Template_Area \<equiv> 51"
abbreviation (input) Id_Image_Blur_Period :: int where "Id_Image_Blur_Period \<equiv> 52"
abbreviation (input) Id_Template_Blur_Radius :: int where "Id_Template_Blur_Radius \<equiv> 53"
abbreviation (input) Id_Image_Blur_Radius :: int where "Id_Image_Blur_Radius \<equiv> 54"
abbreviation (input) Id_Iterations_To_Min_Object_Area :: int where "Id_Iterations_To_Min_Object_Area \<equiv> 55"
abbreviation (input) Id_Min_Object_Area :: int where "Id_Min_Object_Area \<equiv> 56"
abbreviation (input) Id_Current_Real_Space_Image :: int where "Id_Current_Real_Space_Image \<equiv> 57"
abbreviation (input) Id_Center_Image :: int where "Id_Center_Image \<equiv> 58"
abbreviation (input) Id_Current_Support :: int where "Id_Current_Support \<equiv> 59"
abbreviation (input) Id_Solution_File :: int where "Id_Solution_File \<equiv> 60"
abbreviation (input) Id_Phases_Min_Blur_Radius :: int where "Id_Phases_Min_Blur_Radius \<equiv> 61"
abbreviation (input) Id_Phases_Max_Blur_Radius :: int where "Id_Phases_Max_Blur_Radius \<equiv> 62"
abbreviation (input) Id_Iterations_To_Min_Phases_Blur :: int where "Id_Iterations_To_Min_Phases_Blur \<equiv> 63"
abbreviation (input) Id_Object_Area_Checkpoints :: int where "Id_Object_Area_Checkpoints \<equiv> 64"
abbreviation (input) Id_Object_Area_at_Checkpoints :: int where "Id_Object_Area_at_Checkpoints \<equiv> 65"
abbreviation (input) Id_Autocorrelation_Support_File :: int where "Id_Autocorrelation_Support_File \<equiv> 66"
abbreviation (input) Id_Filter_Intensities :: int where "Id_Filter_Intensities \<equiv> 67"
abbreviation (input) Id_Beta_Checkpoints :: int where "Id_Beta_Checkpoints \<equiv> 68"
abbreviation (input) Id_Beta_at_Checkpoints :: int where "Id_Beta_at_Checkpoints \<equiv> 69"
abbreviation (input) Id_Gamma1 :: int where "Id_Gamma1 \<equiv> 70"
abbreviation (input) Id_Gamma2 :: int where "Id_Gamma2 \<equiv> 71"
abbreviation (input) Id_Support_Image_Averaging :: int where "Id_Support_Image_Averaging \<equiv> 72"
abbreviation (input) Id_Random_Seed :: int where "Id_Random_Seed \<equiv> 73"
abbreviation (input) Id_Input_Files :: int where "Id_Input_Files \<equiv> 74"
abbreviation (input) Id_Input_Files_Amplitudes :: int where "Id_Input_Files_Amplitudes \<equiv> 75"
abbreviation (input) Id_Initialization :: int where "Id_Initialization \<equiv> 76"
abbreviation (input) Id_Input :: int where "Id_Input \<equiv> 77"
abbreviation (input) Id_Logging :: int where "Id_Logging \<equiv> 78"
abbreviation (input) Id_Phasing :: int where "Id_Phasing \<equiv> 79"
abbreviation (input) Id_Support :: int where "Id_Support \<equiv> 80"
abbreviation (input) Id_Autocorrelation_Area :: int where "Id_Autocorrelation_Area \<equiv> 81"
abbreviation (input) Id_Remote_Work_Dir :: int where "Id_Remote_Work_Dir \<equiv> 82"
abbreviation (input) Id_Save_Remote_Files :: int where "Id_Save_Remote_Files \<equiv> 83"
abbreviation (input) Id_Debug_Level :: int where "Id_Debug_Level \<equiv> 84"
abbreviation (input) Id_Initial_Support_Group :: int where "Id_Initial_Support_Group \<equiv> 85"
abbreviation (input) Id_Enforce_Centrosymmetry :: int where "Id_Enforce_Centrosymmetry \<equiv> 86"
abbreviation (input) Id_Support_Closure_Radius :: int where "Id_Support_Closure_Radius \<equiv> 87"
abbreviation (input) Id_Starting_Guess :: int where "Id_Starting_Guess \<equiv> 88"
abbreviation (input) Id_Enforce_Ramp :: int where "Id_Enforce_Ramp \<equiv> 89"
abbreviation (input) Id_Phasing_Engine :: int where "Id_Phasing_Engine \<equiv> 90"
abbreviation (input) Id_Output_Projection :: int where "Id_Output_Projection \<equiv> 91"
abbreviation (input) Id_Error_Reduction_Iterations_After_Loop :: int where "Id_Error_Reduction_Iterations_After_Loop \<equiv> 92"

text \<open>
  The properties are bits of an integer that the code joins with \<open>|\<close> and tests with \<open>&\<close>:
  the list of the bits that are set, in the order of the source, tested with \<open>\<in> set\<close>.
\<close>

datatype variable_property =
    isSettableBeforeRun | isSettableDuringRun | isGettableBeforeRun | isGettableDuringRun
  | isMandatory | deprecated | advanced | withSpecialValue | experimental

text \<open>
  \<open>variable_address\<close> is a \<open>void *\<close> to a field of \<open>global_options\<close>; the constructor says which
  type the field is declared with.
\<close>

datatype address =
    A_Real real_field
  | A_Int int_field
  | A_String string_field
  | A_Vector vector_field
  | A_Map map_field
  | A_Current_Real_Space_Image
  | A_Current_Support
  | A_Null

text \<open>
  \<open>parent\<close> is the index of the group in the table, \<open>None\<close> for the root;
  \<open>list_valid\<close> pairs the two arrays \<open>list_valid_values\<close> and \<open>list_valid_names\<close> up to the
  null pointer that ends the names.
\<close>

record metadata =
  variable_name :: string
  variable_type :: variable_type
  variable_id :: int
  parent :: "nat option"
  variable_properties :: "variable_property list"
  list_valid :: "(int \<times> string) list"
  variable_address :: address
  dependencies :: "(options \<Rightarrow> bool) option"

definition entry ::
  "string \<Rightarrow> variable_type \<Rightarrow> int \<Rightarrow> nat option \<Rightarrow> variable_property list
   \<Rightarrow> (int \<times> string) list \<Rightarrow> address \<Rightarrow> (options \<Rightarrow> bool) option \<Rightarrow> metadata" where
  "entry n t i p ps vs a d =
     \<lparr>variable_name = n, variable_type = t, variable_id = i, parent = p, variable_properties = ps,
      list_valid = vs, variable_address = a, dependencies = d\<rparr>"

section \<open>Dependencies between options\<close>

definition depends_on_diff_map :: "options \<Rightarrow> bool" where
  "depends_on_diff_map opt \<longleftrightarrow>
     oint opt I_algorithm = DIFF_MAP"

definition depends_on_initial_support_from_autocorrelation :: "options \<Rightarrow> bool" where
  "depends_on_initial_support_from_autocorrelation opt \<longleftrightarrow>
     ostring opt S_init_support_filename = ''''"

definition depends_on_amplitudes_file :: "options \<Rightarrow> bool" where
  "depends_on_amplitudes_file opt \<longleftrightarrow>
     ostring opt S_diffraction_filename \<noteq> ''''"

definition depends_on_no_amplitudes_file :: "options \<Rightarrow> bool" where
  "depends_on_no_amplitudes_file opt \<longleftrightarrow>
     ostring opt S_diffraction_filename = ''''"

definition depends_on_no_realspace_image_file :: "options \<Rightarrow> bool" where
  "depends_on_no_realspace_image_file opt \<longleftrightarrow>
     ostring opt S_image_guess_filename = ''''"

definition depends_on_patterson_algorithm_fixed :: "options \<Rightarrow> bool" where
  "depends_on_patterson_algorithm_fixed opt \<longleftrightarrow>
     depends_on_initial_support_from_autocorrelation opt
     \<and> oint opt I_patterson_level_algorithm = FIXED"

definition depends_on_patterson_algorithm_constant_area :: "options \<Rightarrow> bool" where
  "depends_on_patterson_algorithm_constant_area opt \<longleftrightarrow>
     depends_on_initial_support_from_autocorrelation opt
     \<and> oint opt I_patterson_level_algorithm = CONSTANT_AREA"

definition depends_on_phasing_algorithm_is_cflip :: "options \<Rightarrow> bool" where
  "depends_on_phasing_algorithm_is_cflip opt \<longleftrightarrow>
     oint opt I_algorithm = CFLIP"

definition depends_on_phasing_algorithm_is_espresso :: "options \<Rightarrow> bool" where
  "depends_on_phasing_algorithm_is_espresso opt \<longleftrightarrow>
     oint opt I_algorithm = ESPRESSO"

definition depends_on_phasing_algorithm_is_raar :: "options \<Rightarrow> bool" where
  "depends_on_phasing_algorithm_is_raar opt \<longleftrightarrow>
     oint opt I_algorithm = RAAR"

definition depends_on_phasing_algorithm_with_positivity :: "options \<Rightarrow> bool" where
  "depends_on_phasing_algorithm_with_positivity opt \<longleftrightarrow>
     oint opt I_algorithm \<in> {RAAR, HIO, HPR, CFLIP, DIFF_MAP}"

definition depends_on_phasing_algorithm_with_enforce_real :: "options \<Rightarrow> bool" where
  "depends_on_phasing_algorithm_with_enforce_real opt \<longleftrightarrow>
     oint opt I_algorithm \<in> {RAAR, HIO, HPR, CFLIP, DIFF_MAP}"

definition depends_on_phasing_algorithm_with_beta :: "options \<Rightarrow> bool" where
  "depends_on_phasing_algorithm_with_beta opt \<longleftrightarrow>
     oint opt I_algorithm \<in> {RAAR, HIO, HPR, RAAR_PROJ, HIO_PROJ, DIFF_MAP, ESPRESSO}"

definition depends_on_phasing_algorithm_with_perturb_reflections :: "options \<Rightarrow> bool" where
  "depends_on_phasing_algorithm_with_perturb_reflections opt \<longleftrightarrow>
     oint opt I_algorithm \<in> {RAAR, CFLIP}"

definition depends_on_support_algorithm_with_threshold :: "options \<Rightarrow> bool" where
  "depends_on_support_algorithm_with_threshold opt \<longleftrightarrow>
     oint opt I_support_update_algorithm \<in> {FIXED, STEPPED}"

definition depends_on_support_algorithm_with_area :: "options \<Rightarrow> bool" where
  "depends_on_support_algorithm_with_area opt \<longleftrightarrow>
     oint opt I_support_update_algorithm
     \<in> {CONSTANT_AREA, DECREASING_AREA, COMPLEX_DECREASING_AREA}"

definition depends_on_support_algorithm_with_template :: "options \<Rightarrow> bool" where
  "depends_on_support_algorithm_with_template opt \<longleftrightarrow>
     oint opt I_support_update_algorithm = TEMPLATE_AREA"

definition depends_on_support_algorithm_with_changing_area :: "options \<Rightarrow> bool" where
  "depends_on_support_algorithm_with_changing_area opt \<longleftrightarrow>
     oint opt I_support_update_algorithm \<in> {DECREASING_AREA, COMPLEX_DECREASING_AREA}"

definition depends_on_support_algorithm_with_real_error_threshold :: "options \<Rightarrow> bool" where
  "depends_on_support_algorithm_with_real_error_threshold opt \<longleftrightarrow>
     oint opt I_support_update_algorithm \<in> {REAL_ERROR_ADAPTATIVE, REAL_ERROR_CAPPED}"

definition depends_on_support_algorithm_with_blur :: "options \<Rightarrow> bool" where
  "depends_on_support_algorithm_with_blur opt \<longleftrightarrow>
     oint opt I_support_update_algorithm \<noteq> TEMPLATE_AREA"

section \<open>The table\<close>

definition metadata_1 :: "metadata list" where
  "metadata_1 =
    [entry ''ROOT'' Type_Group Id_Root None [isGettableBeforeRun, isGettableDuringRun] [] (A_String
       S_diffraction_filename) None,
     entry ''input_data'' Type_Group Id_Input (Some 0) [isSettableBeforeRun, isSettableDuringRun,
       isGettableBeforeRun, isGettableDuringRun] [] A_Null None,
     entry ''amplitudes_file'' Type_Existing_Filename Id_Diffraction_Filename (Some 0)
       [isSettableBeforeRun, isGettableBeforeRun, isGettableDuringRun, deprecated] [] (A_String
       S_diffraction_filename) None,
     entry ''initial_support'' Type_Group Id_Initial_Support_Group (Some 0) [isSettableBeforeRun,
       isSettableDuringRun, isGettableBeforeRun, isGettableDuringRun] [] A_Null None,
     entry ''patterson_threshold'' Type_Real Id_Init_Level (Some 0) [isSettableBeforeRun,
       isGettableBeforeRun, isGettableDuringRun, deprecated] [] (A_Real R_init_level) (Some
       depends_on_patterson_algorithm_fixed),
     entry ''beta'' Type_Real Id_Beta (Some 0) [isSettableBeforeRun, isSettableDuringRun,
       isGettableBeforeRun, isGettableDuringRun, deprecated] [] (A_Real R_beta) None,
     entry ''innerloop_iterations'' Type_Int Id_Iterations (Some 0) [isSettableBeforeRun,
       isGettableBeforeRun, isGettableBeforeRun, isGettableDuringRun, deprecated] [] (A_Int I_iterations)
       None,
     entry ''fixed_support_mask'' Type_Existing_Filename Id_Support_Mask_Filename (Some 0)
       [isSettableBeforeRun, isGettableBeforeRun, isGettableDuringRun, deprecated] [] (A_String
       S_support_mask_filename) None,
     entry ''initial_support_image'' Type_Existing_Filename Id_Init_Support_Filename (Some 0)
       [isSettableBeforeRun, isGettableBeforeRun, isGettableDuringRun, deprecated] [] (A_String
       S_init_support_filename) None,
     entry ''image_guess'' Type_Existing_Filename Id_Image_Guess_Filename (Some 0)
       [isSettableBeforeRun, isGettableBeforeRun, isGettableDuringRun, deprecated] [] (A_String
       S_image_guess_filename) None]"

definition metadata_2 :: "metadata list" where
  "metadata_2 =
    [entry ''added_noise'' Type_Real Id_Noise (Some 0) [isSettableBeforeRun, isGettableBeforeRun,
       isGettableDuringRun, deprecated] [] (A_Real R_noise) None,
     entry ''beamstop_radius'' Type_Real Id_Beamstop (Some 0) [isSettableBeforeRun,
       isGettableBeforeRun, isGettableDuringRun, deprecated] [] (A_Real R_beamstop) None,
     entry ''support_intensity_threshold'' Type_Real Id_New_Level (Some 0) [isSettableBeforeRun,
       isSettableDuringRun, isGettableBeforeRun, isGettableDuringRun, deprecated] [] (A_Real R_new_level)
       None,
     entry ''iterations_to_min_blur'' Type_Int Id_Iterations_To_Min_Blur (Some 0) [isSettableBeforeRun,
       isSettableDuringRun, isGettableBeforeRun, isGettableDuringRun, deprecated] [] (A_Int
       I_iterations_to_min_blur) None,
     entry ''blur_radius_reduction_method'' Type_MultipleChoice Id_Blur_Radius_Reduction_Method (Some
       0) [isSettableBeforeRun, isSettableDuringRun, isGettableBeforeRun, isGettableDuringRun, deprecated]
       [(GAUSSIAN_BLUR_REDUCTION, ''gaussian''), (GEOMETRICAL_BLUR_REDUCTION, ''geometrical'')] (A_Int
       I_blur_radius_reduction_method) None,
     entry ''minimum_blur_radius'' Type_Real Id_Min_Blur (Some 0) [isSettableBeforeRun,
       isSettableDuringRun, isGettableBeforeRun, isGettableDuringRun, deprecated] [] (A_Real R_min_blur)
       None,
     entry ''logging'' Type_Group Id_Logging (Some 0) [isSettableBeforeRun, isSettableDuringRun,
       isGettableBeforeRun, isGettableDuringRun] [] A_Null None,
     entry ''commandline'' Type_String Id_Commandline (Some 0) [isGettableBeforeRun,
       isGettableDuringRun] [] (A_String S_commandline) None,
     entry ''output_period'' Type_Int Id_Output_Period (Some 0) [isSettableBeforeRun,
       isSettableDuringRun, isGettableBeforeRun, isGettableDuringRun, deprecated] [] (A_Int
       I_output_period) None,
     entry ''log_output_period'' Type_Int Id_Log_Output_Period (Some 0) [isSettableBeforeRun,
       isSettableDuringRun, isGettableBeforeRun, isGettableDuringRun, deprecated] [] (A_Int
       I_log_output_period) None]"

definition metadata_3 :: "metadata list" where
  "metadata_3 =
    [entry ''phasing_method'' Type_Group Id_Phasing (Some 0) [isSettableBeforeRun, isSettableDuringRun,
       isGettableBeforeRun, isGettableDuringRun] [] A_Null None,
     entry ''RAAR_sigma'' Type_Real Id_Exp_Sigma (Some 0) [isSettableBeforeRun, isSettableDuringRun,
       isGettableBeforeRun, isGettableDuringRun, deprecated] [] (A_Real R_exp_sigma) None,
     entry ''dynamic_beta'' Type_Real Id_Dyn_Beta (Some 0) [isSettableBeforeRun, isSettableDuringRun,
       isGettableBeforeRun, isGettableDuringRun, deprecated] [] (A_Real R_dyn_beta) None,
     entry ''random_initial_phases'' Type_Bool Id_Rand_Phases (Some 0) [isSettableBeforeRun,
       isGettableBeforeRun, isGettableDuringRun, deprecated] [] (A_Int I_rand_phases) None,
     entry ''random_initial_intensities'' Type_Bool Id_Rand_Intensities (Some 0) [isSettableBeforeRun,
       isGettableBeforeRun, isGettableDuringRun, deprecated] [] (A_Int I_rand_intensities) None,
     entry ''cur_iteration'' Type_Int Id_Cur_Iteration (Some 0) [isGettableBeforeRun,
       isGettableDuringRun] [] (A_Int I_cur_iteration) None,
     entry ''adapt_thres'' Type_Bool Id_Adapt_Thres (Some 0) [isSettableBeforeRun, isSettableDuringRun,
       isGettableBeforeRun, isGettableDuringRun, deprecated] [] (A_Int I_adapt_thres) None,
     entry ''automatic'' Type_Bool Id_Automatic (Some 0) [isSettableBeforeRun, isSettableDuringRun,
       isGettableBeforeRun, isGettableDuringRun, deprecated] [] (A_Real R_dyn_beta) None,
     entry ''work_directory'' Type_Directory_Name Id_Work_Dir (Some 16) [isSettableBeforeRun,
       isGettableBeforeRun, isGettableDuringRun] [] (A_String S_work_dir) None,
     entry ''support_real_error_threshold'' Type_Real Id_Real_Error_Threshold (Some 0)
       [isSettableBeforeRun, isSettableDuringRun, isGettableBeforeRun, isGettableDuringRun, deprecated] []
       (A_Real R_real_error_threshold) None,
     entry ''support_update_method'' Type_Group Id_Support (Some 0) [isSettableBeforeRun,
       isSettableDuringRun, isGettableBeforeRun, isGettableDuringRun] [] A_Null None]"

definition metadata_4 :: "metadata list" where
  "metadata_4 =
    [entry ''output_precision'' Type_Int Id_Output_Precision (Some 0) [isSettableBeforeRun,
       isSettableDuringRun, isGettableBeforeRun, isGettableDuringRun, deprecated] [] (A_Int
       I_output_precision) None,
     entry ''error_reduction_iterations_after_loop'' Type_Int Id_Error_Reduction_Iterations_After_Loop
       (Some 0) [isSettableBeforeRun, isSettableDuringRun, isGettableBeforeRun, isGettableDuringRun,
       deprecated] [] (A_Int I_error_reduction_iterations_after_loop) None,
     entry ''enforce_positivity'' Type_Real Id_Enforce_Positivity (Some 0) [isSettableBeforeRun,
       isSettableDuringRun, isGettableBeforeRun, isGettableDuringRun, deprecated] [] (A_Int
       I_enforce_positivity) None,
     entry ''enforce_real'' Type_Int Id_Enforce_Real (Some 0) [isSettableBeforeRun,
       isSettableDuringRun, isGettableBeforeRun, isGettableDuringRun, deprecated] [] (A_Int I_enforce_real)
       None,
     entry ''genetic_optimization'' Type_Bool Id_Genetic_Optimization (Some 0) [isSettableBeforeRun,
       isSettableDuringRun, isGettableBeforeRun, isGettableDuringRun, deprecated] [] (A_Int
       I_genetic_optimization) None,
     entry ''charge_flip_sigma'' Type_Real Id_Charge_Flip_Sigma (Some 0) [isSettableBeforeRun,
       isSettableDuringRun, isGettableBeforeRun, isGettableDuringRun, deprecated] [] (A_Real
       R_charge_flip_sigma) None,
     entry ''rescale_amplitudes'' Type_Bool Id_Rescale_Amplitudes (Some 0) [isSettableBeforeRun,
       isSettableDuringRun, isGettableBeforeRun, isGettableDuringRun, deprecated] [] (A_Int
       I_rescale_amplitudes) None,
     entry ''square_mask'' Type_Real Id_Square_Mask (Some 0) [isSettableBeforeRun, isSettableDuringRun,
       isGettableBeforeRun, isGettableDuringRun, deprecated] [] (A_Real R_square_mask) None,
     entry ''patterson_blur_radius'' Type_Real Id_Patterson_Blur_Radius (Some 0) [isSettableBeforeRun,
       isSettableDuringRun, isGettableBeforeRun, isGettableDuringRun, deprecated] [] (A_Real
       R_patterson_blur_radius) None,
     entry ''remove_central_pixel_phase'' Type_Bool Id_Remove_Central_Pixel_phase (Some 0)
       [isSettableBeforeRun, isSettableDuringRun, isGettableBeforeRun, isGettableDuringRun, deprecated] []
       (A_Int I_remove_central_pixel_phase) None,
     entry ''perturb_weak_reflections'' Type_Real Id_Perturb_Weak_Reflections (Some 0)
       [isSettableBeforeRun, isSettableDuringRun, isGettableBeforeRun, isGettableDuringRun, deprecated] []
       (A_Real R_perturb_weak_reflections) None,
     entry ''nthreads'' Type_Int Id_Nthreads (Some 0) [isSettableBeforeRun, isGettableBeforeRun,
       isGettableDuringRun, advanced] [] (A_Int I_nthreads) None]"

definition metadata_5 :: "metadata list" where
  "metadata_5 =
    [entry ''break_centrosym_period'' Type_Int Id_Break_Centrosym_Period (Some 0) [isSettableBeforeRun,
       isSettableDuringRun, isGettableBeforeRun, isGettableDuringRun, deprecated] [] (A_Int
       I_break_centrosym_period) None,
     entry ''reconstruction_finished'' Type_Bool Id_Reconstruction_Finished (Some 0)
       [isGettableBeforeRun, isGettableDuringRun] [] (A_Int I_reconstruction_finished) None,
     entry ''real_error_tolerance'' Type_Real Id_Real_Error_Tolerance (Some 0) [isSettableBeforeRun,
       isSettableDuringRun, isGettableBeforeRun, isGettableDuringRun, deprecated] [] (A_Real
       R_real_error_tolerance) None,
     entry ''max_iterations'' Type_Int Id_Max_Iterations (Some 0) [isSettableBeforeRun,
       isSettableDuringRun, isGettableBeforeRun, isGettableDuringRun, withSpecialValue, advanced] [(0,
       ''Infinity'')] (A_Int I_max_iterations) None,
     entry ''patterson_level_algorithm'' Type_MultipleChoice Id_Patterson_Level_Algorithm (Some 0)
       [isSettableBeforeRun, isSettableDuringRun, isGettableBeforeRun, isGettableDuringRun, deprecated]
       [(FIXED, ''fixed''), (STEPPED, ''stepped''), (REAL_ERROR_CAPPED, ''real_error_capped''),
       (REAL_ERROR_ADAPTATIVE, ''real_error_adaptative''), (CONSTANT_AREA, ''constant_area''),
       (DECREASING_AREA, ''decreasing_area'')] (A_Int I_patterson_level_algorithm) None,
     entry ''object_area'' Type_Real Id_Object_Area (Some 0) [isSettableBeforeRun, isSettableDuringRun,
       isGettableBeforeRun, isGettableDuringRun, deprecated] [] (A_Real R_object_area) None,
     entry ''image_blur_period'' Type_Int Id_Image_Blur_Period (Some 0) [isSettableBeforeRun,
       isSettableDuringRun, isGettableBeforeRun, isGettableDuringRun, deprecated] [] (A_Int
       I_image_blur_period) None,
     entry ''image_blur_radius'' Type_Real Id_Image_Blur_Radius (Some 0) [isSettableBeforeRun,
       isSettableDuringRun, isGettableBeforeRun, isGettableDuringRun, deprecated] [] (A_Real
       R_image_blur_radius) None,
     entry ''iterations_to_min_object_area'' Type_Int Id_Iterations_To_Min_Object_Area (Some 0)
       [isSettableBeforeRun, isSettableDuringRun, isGettableBeforeRun, isGettableDuringRun, deprecated] []
       (A_Int I_iterations_to_min_object_area) None,
     entry ''min_object_area'' Type_Real Id_Min_Object_Area (Some 0) [isSettableBeforeRun,
       isSettableDuringRun, isGettableBeforeRun, isGettableDuringRun, deprecated] [] (A_Real
       R_min_object_area) None,
     entry ''current_real_space_image'' Type_Image Id_Current_Real_Space_Image (Some 0)
       [isSettableDuringRun, isGettableDuringRun] [] A_Current_Real_Space_Image None,
     entry ''current_support'' Type_Image Id_Current_Support (Some 0) [isSettableDuringRun,
       isGettableDuringRun] [] A_Current_Support None]"

definition metadata_6 :: "metadata list" where
  "metadata_6 =
    [entry ''solution_file'' Type_Existing_Filename Id_Solution_File (Some 1) [isSettableBeforeRun,
       isGettableBeforeRun, isSettableDuringRun, isGettableDuringRun, experimental] [] (A_String
       S_solution_filename) None,
     entry ''phases_min_blur_radius'' Type_Real Id_Phases_Min_Blur_Radius (Some 0)
       [isSettableBeforeRun, isSettableDuringRun, isGettableBeforeRun, isGettableDuringRun, deprecated] []
       (A_Real R_phases_min_blur_radius) None,
     entry ''phases_max_blur_radius'' Type_Real Id_Phases_Max_Blur_Radius (Some 0)
       [isSettableBeforeRun, isGettableBeforeRun, isGettableDuringRun, deprecated] [] (A_Real
       R_phases_max_blur_radius) None,
     entry ''iterations_to_min_phases_blur'' Type_Int Id_Iterations_To_Min_Phases_Blur (Some 0)
       [isSettableBeforeRun, isSettableDuringRun, isGettableBeforeRun, isGettableDuringRun, deprecated] []
       (A_Int I_iterations_to_min_phases_blur) None,
     entry ''intensities_std_dev_file'' Type_Existing_Filename Id_Solution_File (Some 0)
       [isSettableBeforeRun, isGettableBeforeRun, deprecated] [] (A_String S_intensities_std_dev_filename)
       None,
     entry ''autocorrelation_support_file'' Type_Existing_Filename Id_Autocorrelation_Support_File
       (Some 0) [isSettableBeforeRun, isGettableBeforeRun, deprecated] [] (A_String
       S_autocorrelation_support_filename) None,
     entry ''filter_intensities'' Type_Bool Id_Filter_Intensities (Some 0) [isSettableBeforeRun,
       isSettableDuringRun, isGettableBeforeRun, isGettableDuringRun, deprecated] [] (A_Int
       I_filter_intensities) None,
     entry ''object_area_checkpoints'' Type_Vector_Int Id_Object_Area_Checkpoints (Some 0)
       [isSettableBeforeRun, isSettableDuringRun, isGettableBeforeRun, isGettableDuringRun, deprecated] []
       (A_Vector V_object_area_checkpoints) None,
     entry ''object_area_at_checkpoints'' Type_Vector_Real Id_Object_Area_at_Checkpoints (Some 0)
       [isSettableBeforeRun, isSettableDuringRun, isGettableBeforeRun, isGettableDuringRun, deprecated] []
       (A_Vector V_object_area_at_checkpoints) None,
     entry ''beta_checkpoints'' Type_Vector_Int Id_Beta_Checkpoints (Some 0) [isSettableBeforeRun,
       isSettableDuringRun, isGettableBeforeRun, isGettableDuringRun, deprecated] [] (A_Vector
       V_beta_checkpoints) None,
     entry ''beta_at_checkpoints'' Type_Vector_Real Id_Beta_at_Checkpoints (Some 0)
       [isSettableBeforeRun, isSettableDuringRun, isGettableBeforeRun, isGettableDuringRun, deprecated] []
       (A_Vector V_beta_at_checkpoints) None]"

definition metadata_7 :: "metadata list" where
  "metadata_7 =
    [entry ''gamma1'' Type_Real Id_Gamma1 (Some 0) [isSettableBeforeRun, isSettableDuringRun,
       isGettableBeforeRun, isGettableDuringRun, deprecated] [] (A_Real R_gamma1) (Some depends_on_diff_map),
     entry ''gamma2'' Type_Real Id_Gamma2 (Some 0) [isSettableBeforeRun, isSettableDuringRun,
       isGettableBeforeRun, isGettableDuringRun, deprecated] [] (A_Real R_gamma2) None,
     entry ''support_image_averaging'' Type_Int Id_Support_Image_Averaging (Some 0)
       [isSettableBeforeRun, isSettableDuringRun, isGettableBeforeRun, isGettableDuringRun, deprecated] []
       (A_Int I_support_image_averaging) None,
     entry ''random_seed'' Type_Int Id_Random_Seed (Some 0) [isSettableBeforeRun, isSettableDuringRun,
       isGettableBeforeRun, isGettableDuringRun, withSpecialValue, advanced] [(-1, ''auto'')] (A_Int
       I_random_seed) None,
     entry ''added_noise'' Type_Real Id_Noise (Some 1) [isSettableBeforeRun, isGettableBeforeRun,
       isGettableDuringRun, experimental, withSpecialValue] [(0, ''off'')] (A_Real R_noise) None,
     entry ''beamstop_radius'' Type_Real Id_Beamstop (Some 1) [isSettableBeforeRun,
       isGettableBeforeRun, isGettableDuringRun, experimental, withSpecialValue] [(0, ''off'')] (A_Real
       R_beamstop) None,
     entry ''maximum_blur_radius'' Type_Real Id_Max_Blur_Radius (Some 30) [isSettableBeforeRun,
       isGettableBeforeRun, isGettableDuringRun, advanced, deprecated] [] (A_Real R_max_blur_radius) None,
     entry ''fixed_support_mask'' Type_Existing_Filename Id_Support_Mask_Filename (Some 30)
       [isSettableBeforeRun, isGettableBeforeRun, isGettableDuringRun, advanced] [] (A_String
       S_support_mask_filename) None,
     entry ''initial_support_image'' Type_Existing_Filename Id_Init_Support_Filename (Some 3)
       [isSettableBeforeRun, isGettableBeforeRun, isGettableDuringRun] [] (A_String
       S_init_support_filename) None,
     entry ''support_intensity_threshold'' Type_Real Id_New_Level (Some 30) [isSettableBeforeRun,
       isSettableDuringRun, isGettableBeforeRun, isGettableDuringRun] [] (A_Real R_new_level) (Some
       depends_on_support_algorithm_with_threshold)]"

definition metadata_8 :: "metadata list" where
  "metadata_8 =
    [entry ''adapt_thres'' Type_Bool Id_Adapt_Thres (Some 20) [isSettableBeforeRun,
       isSettableDuringRun, isGettableBeforeRun, isGettableDuringRun, experimental] [] (A_Int
       I_adapt_thres) None,
     entry ''blur'' Type_Map_Real Id_Beta (Some 30) [isSettableBeforeRun, isSettableDuringRun,
       isGettableBeforeRun, isGettableDuringRun] [] (A_Map M_support_blur_evolution) (Some
       depends_on_support_algorithm_with_blur),
     entry ''blur_radius_reduction_method'' Type_MultipleChoice Id_Blur_Radius_Reduction_Method (Some
       30) [isSettableBeforeRun, isSettableDuringRun, isGettableBeforeRun, isGettableDuringRun, advanced,
       deprecated] [(GAUSSIAN_BLUR_REDUCTION, ''gaussian''), (GEOMETRICAL_BLUR_REDUCTION, ''geometrical'')]
       (A_Int I_blur_radius_reduction_method) None,
     entry ''minimum_blur_radius'' Type_Real Id_Min_Blur (Some 30) [isSettableBeforeRun,
       isSettableDuringRun, isGettableBeforeRun, isGettableDuringRun, advanced, deprecated] [] (A_Real
       R_min_blur) None,
     entry ''RAAR_sigma'' Type_Real Id_Exp_Sigma (Some 20) [isSettableBeforeRun, isSettableDuringRun,
       isGettableBeforeRun, isGettableDuringRun, experimental] [] (A_Real R_exp_sigma) (Some
       depends_on_phasing_algorithm_is_raar),
     entry ''dynamic_beta'' Type_Real Id_Dyn_Beta (Some 20) [isSettableBeforeRun, isSettableDuringRun,
       isGettableBeforeRun, isGettableDuringRun, advanced, withSpecialValue, deprecated] [(0, ''off'')]
       (A_Real R_dyn_beta) None,
     entry ''initial_image'' Type_Group Id_Initialization (Some 0) [isSettableBeforeRun,
       isSettableDuringRun, isGettableBeforeRun, isGettableDuringRun] [] (A_Real R_dyn_beta) None,
     entry ''image_guess'' Type_Existing_Filename Id_Image_Guess_Filename (Some 82)
       [isSettableBeforeRun, isGettableBeforeRun, isGettableDuringRun] [] (A_String S_image_guess_filename)
       None,
     entry ''initial_phases'' Type_MultipleChoice Id_Rand_Phases (Some 82) [isSettableBeforeRun,
       isGettableBeforeRun, isGettableDuringRun, deprecated] [(PHASES_FROM_SUPPORT, ''support''),
       (PHASES_ZERO, ''zero''), (PHASES_RANDOM, ''random'')] (A_Int I_rand_phases) (Some
       depends_on_no_realspace_image_file),
     entry ''random_initial_intensities'' Type_Bool Id_Rand_Intensities (Some 82) [isSettableBeforeRun,
       isGettableBeforeRun, isGettableDuringRun, deprecated] [] (A_Int I_rand_intensities) (Some
       depends_on_no_realspace_image_file)]"

definition metadata_9 :: "metadata list" where
  "metadata_9 =
    [entry ''support_real_error_threshold'' Type_Real Id_Real_Error_Threshold (Some 30)
       [isSettableBeforeRun, isSettableDuringRun, isGettableBeforeRun, isGettableDuringRun,
       withSpecialValue, experimental] [(-1, ''auto'')] (A_Real R_real_error_threshold) (Some
       depends_on_support_algorithm_with_real_error_threshold),
     entry ''error_reduction_iterations_in_support_update'' Type_Int
       Id_Error_Reduction_Iterations_In_Support_Update (Some 30) [isSettableBeforeRun,
       isSettableDuringRun, isGettableBeforeRun, isGettableDuringRun, advanced] [] (A_Int
       I_error_reduction_iterations_in_support_update) None,
     entry ''enforce_positivity'' Type_Bool Id_Enforce_Positivity (Some 20) [isSettableBeforeRun,
       isSettableDuringRun, isGettableBeforeRun, isGettableDuringRun] [] (A_Int I_enforce_positivity) (Some
       depends_on_phasing_algorithm_with_positivity),
     entry ''enforce_real'' Type_Bool Id_Enforce_Real (Some 20) [isSettableBeforeRun,
       isSettableDuringRun, isGettableBeforeRun, isGettableDuringRun] [] (A_Int I_enforce_real) (Some
       depends_on_phasing_algorithm_with_enforce_real),
     entry ''charge_flip_sigma'' Type_Real Id_Charge_Flip_Sigma (Some 20) [isSettableBeforeRun,
       isSettableDuringRun, isGettableBeforeRun, isGettableDuringRun, experimental] [] (A_Real
       R_charge_flip_sigma) (Some depends_on_phasing_algorithm_is_cflip),
     entry ''espresso_tau'' Type_Real Id_Espresso_Tau (Some 20) [isSettableBeforeRun,
       isSettableDuringRun, isGettableBeforeRun, isGettableDuringRun, experimental] [] (A_Real
       R_espresso_tau) (Some depends_on_phasing_algorithm_is_espresso),
     entry ''real_image_file'' Type_Existing_Filename Id_Real_Image_Filename (Some 0)
       [isSettableBeforeRun, isGettableBeforeRun, isGettableDuringRun, deprecated] [] (A_String
       S_real_image_filename) None,
     entry ''rescale_initial_image'' Type_Bool Id_Rescale_Amplitudes (Some 82) [isSettableBeforeRun,
       isSettableDuringRun, isGettableBeforeRun, isGettableDuringRun, experimental] [] (A_Int
       I_rescale_amplitudes) None,
     entry ''remove_central_pixel_phase'' Type_Bool Id_Remove_Central_Pixel_phase (Some 20)
       [isSettableBeforeRun, isSettableDuringRun, isGettableBeforeRun, isGettableDuringRun, experimental]
       [] (A_Int I_remove_central_pixel_phase) None,
     entry ''perturb_weak_reflections'' Type_Real Id_Perturb_Weak_Reflections (Some 20)
       [isSettableBeforeRun, isSettableDuringRun, isGettableBeforeRun, isGettableDuringRun,
       withSpecialValue] [(0, ''No'')] (A_Real R_perturb_weak_reflections) (Some
       depends_on_phasing_algorithm_with_perturb_reflections)]"

definition metadata_10 :: "metadata list" where
  "metadata_10 =
    [entry ''autocorrelation_algorithm'' Type_MultipleChoice Id_Patterson_Level_Algorithm (Some 3)
       [isSettableBeforeRun, isSettableDuringRun, isGettableBeforeRun, isGettableDuringRun] [(FIXED,
       ''threshold''), (CONSTANT_AREA, ''area'')] (A_Int I_patterson_level_algorithm) (Some
       depends_on_initial_support_from_autocorrelation),
     entry ''object_area'' Type_Map_Real Id_Object_Area (Some 30) [isSettableBeforeRun,
       isSettableDuringRun, isGettableBeforeRun, isGettableDuringRun] [] (A_Map M_object_area_evolution)
       (Some depends_on_support_algorithm_with_area),
     entry ''square_mask'' Type_Real Id_Square_Mask (Some 30) [isSettableBeforeRun,
       isSettableDuringRun, isGettableBeforeRun, isGettableDuringRun, advanced, withSpecialValue] [(0,
       ''off'')] (A_Real R_square_mask) None,
     entry ''autocorrelation_blur_radius'' Type_Real Id_Patterson_Blur_Radius (Some 3)
       [isSettableBeforeRun, isSettableDuringRun, isGettableBeforeRun, isGettableDuringRun, advanced,
       withSpecialValue] [(0, ''off'')] (A_Real R_patterson_blur_radius) (Some
       depends_on_patterson_algorithm_constant_area),
     entry ''real_error_tolerance'' Type_Real Id_Real_Error_Tolerance (Some 20) [isSettableBeforeRun,
       isSettableDuringRun, isGettableBeforeRun, isGettableDuringRun, experimental, withSpecialValue] [(-1,
       ''off'')] (A_Real R_real_error_tolerance) None,
     entry ''image_blur_period'' Type_Int Id_Image_Blur_Period (Some 20) [isSettableBeforeRun,
       isSettableDuringRun, isGettableBeforeRun, isGettableDuringRun, advanced, withSpecialValue] [(0,
       ''off'')] (A_Int I_image_blur_period) None,
     entry ''image_blur_radius'' Type_Real Id_Image_Blur_Radius (Some 20) [isSettableBeforeRun,
       isSettableDuringRun, isGettableBeforeRun, isGettableDuringRun, advanced] [] (A_Real
       R_image_blur_radius) None,
     entry ''iterations_to_min_object_area'' Type_Int Id_Iterations_To_Min_Object_Area (Some 30)
       [isSettableBeforeRun, isSettableDuringRun, isGettableBeforeRun, isGettableDuringRun, deprecated] []
       (A_Int I_iterations_to_min_object_area) (Some depends_on_support_algorithm_with_changing_area),
     entry ''min_object_area'' Type_Real Id_Min_Object_Area (Some 30) [isSettableBeforeRun,
       isSettableDuringRun, isGettableBeforeRun, isGettableDuringRun, deprecated] [] (A_Real
       R_min_object_area) (Some depends_on_support_algorithm_with_changing_area),
     entry ''logfile'' Type_Filename Id_Log_File (Some 0) [isSettableBeforeRun, isGettableBeforeRun,
       isGettableDuringRun, deprecated] [] (A_String S_log_file) None]"

definition metadata_11 :: "metadata list" where
  "metadata_11 =
    [entry ''logfile'' Type_Filename Id_Log_File (Some 16) [isSettableBeforeRun, isGettableBeforeRun,
       isGettableDuringRun] [] (A_String S_log_file) None,
     entry ''output_period'' Type_Int Id_Output_Period (Some 16) [isSettableBeforeRun,
       isSettableDuringRun, isGettableBeforeRun, isGettableDuringRun] [] (A_Int I_output_period) None,
     entry ''log_output_period'' Type_Int Id_Log_Output_Period (Some 16) [isSettableBeforeRun,
       isSettableDuringRun, isGettableBeforeRun, isGettableDuringRun] [] (A_Int I_log_output_period) None,
     entry ''output_precision'' Type_MultipleChoice Id_Output_Precision (Some 16) [isSettableBeforeRun,
       isSettableDuringRun, isGettableBeforeRun, isGettableDuringRun, experimental] [(4, ''32''), (8,
       ''64'')] (A_Int I_output_precision) None,
     entry ''phases_min_blur_radius'' Type_Real Id_Phases_Min_Blur_Radius (Some 20)
       [isSettableBeforeRun, isSettableDuringRun, isGettableBeforeRun, isGettableDuringRun, advanced,
       deprecated] [] (A_Real R_phases_min_blur_radius) None,
     entry ''phases_max_blur_radius'' Type_Real Id_Phases_Max_Blur_Radius (Some 20)
       [isSettableBeforeRun, isGettableBeforeRun, isGettableDuringRun, advanced, deprecated] [] (A_Real
       R_phases_max_blur_radius) None,
     entry ''phases_blur'' Type_Map_Real Id_Iterations_To_Min_Phases_Blur (Some 20)
       [isSettableBeforeRun, isSettableDuringRun, isGettableBeforeRun, isGettableDuringRun, experimental]
       [] (A_Map M_phases_blur_evolution) None,
     entry ''intensities_std_dev_file'' Type_Existing_Filename Id_Solution_File (Some 1)
       [isSettableBeforeRun, isGettableBeforeRun, experimental] [] (A_String
       S_intensities_std_dev_filename) (Some depends_on_amplitudes_file),
     entry ''autocorrelation_support_file'' Type_Existing_Filename Id_Autocorrelation_Support_File
       (Some 1) [isSettableBeforeRun, isGettableBeforeRun, experimental] [] (A_String
       S_autocorrelation_support_filename) None,
     entry ''filter_intensities'' Type_Bool Id_Filter_Intensities (Some 30) [isSettableBeforeRun,
       isSettableDuringRun, isGettableBeforeRun, isGettableDuringRun, advanced] [] (A_Int
       I_filter_intensities) None]"

definition metadata_12 :: "metadata list" where
  "metadata_12 =
    [entry ''gamma1'' Type_Real Id_Gamma1 (Some 20) [isSettableBeforeRun, isSettableDuringRun,
       isGettableBeforeRun, isGettableDuringRun, withSpecialValue] [(-10000, ''auto'')] (A_Real R_gamma1)
       (Some depends_on_diff_map),
     entry ''gamma2'' Type_Real Id_Gamma2 (Some 20) [isSettableBeforeRun, isSettableDuringRun,
       isGettableBeforeRun, isGettableDuringRun, withSpecialValue] [(-10000, ''auto'')] (A_Real R_gamma2)
       (Some depends_on_diff_map),
     entry ''support_image_averaging'' Type_Int Id_Support_Image_Averaging (Some 30)
       [isSettableBeforeRun, isSettableDuringRun, isGettableBeforeRun, isGettableDuringRun,
       withSpecialValue, experimental] [(1, ''off'')] (A_Int I_support_image_averaging) None,
     entry ''intensities_file'' Type_Existing_Filename Id_Diffraction_Filename (Some 1)
       [isSettableBeforeRun, isGettableBeforeRun, isGettableDuringRun] [] (A_String S_diffraction_filename)
       (Some depends_on_no_realspace_image_file),
     entry ''autocorrelation_threshold'' Type_Real Id_Init_Level (Some 3) [isSettableBeforeRun,
       isGettableBeforeRun, isGettableDuringRun] [] (A_Real R_init_level) (Some
       depends_on_patterson_algorithm_fixed),
     entry ''real_image_file'' Type_Existing_Filename Id_Real_Image_Filename (Some 1)
       [isSettableBeforeRun, isGettableBeforeRun, isGettableDuringRun, experimental] [] (A_String
       S_real_image_filename) (Some depends_on_no_amplitudes_file),
     entry ''algorithm'' Type_MultipleChoice Id_Algorithm (Some 20) [isSettableBeforeRun,
       isSettableDuringRun, isGettableBeforeRun, isGettableDuringRun] [(HIO, ''hio''), (RAAR, ''raar''),
       (DIFF_MAP, ''diff_map''), (HPR, ''hpr''), (CFLIP, ''cflip''), (RAAR_CFLIP, ''raar_cflip''),
       (ESPRESSO, ''espresso''), (HAAR, ''haar''), (SO2D, ''so2d''), (RAAR_PROJ, ''raar_proj''), (HIO_PROJ,
       ''hio_proj'')] (A_Int I_algorithm) None,
     entry ''algorithm'' Type_MultipleChoice Id_Algorithm (Some 0) [isSettableBeforeRun,
       isSettableDuringRun, isGettableBeforeRun, isGettableDuringRun, deprecated] [(HIO, ''hio''), (RAAR,
       ''raar''), (HPR, ''hpr''), (CFLIP, ''cflip''), (RAAR_CFLIP, ''raar_cflip''), (ESPRESSO,
       ''espresso''), (HAAR, ''haar''), (SO2D, ''so2d''), (RAAR_PROJ, ''raar_proj''), (HIO_PROJ,
       ''hio_proj''), (DIFF_MAP, ''diff_map'')] (A_Int I_algorithm) None,
     entry ''support_update_algorithm'' Type_MultipleChoice Id_Support_Update_Algorithm (Some 30)
       [isSettableBeforeRun, isSettableDuringRun, isGettableBeforeRun, isGettableDuringRun] [(FIXED,
       ''threshold''), (STATIC, ''static''), (STEPPED, ''stepped''), (REAL_ERROR_CAPPED,
       ''real_error_capped''), (REAL_ERROR_ADAPTATIVE, ''real_error_adaptative''), (CONSTANT_AREA,
       ''constant_area''), (DECREASING_AREA, ''area''), (COMPLEX_DECREASING_AREA,
       ''complex_decreasing_area''), (TEMPLATE_AREA, ''template_area'')] (A_Int I_support_update_algorithm)
       None]"

definition metadata_13 :: "metadata list" where
  "metadata_13 =
    [entry ''support_update_algorithm'' Type_MultipleChoice Id_Support_Update_Algorithm (Some 0)
       [isSettableBeforeRun, isSettableDuringRun, isGettableBeforeRun, isGettableDuringRun, deprecated]
       [(FIXED, ''fixed''), (STEPPED, ''stepped''), (REAL_ERROR_CAPPED, ''real_error_capped''),
       (REAL_ERROR_ADAPTATIVE, ''real_error_adaptative''), (CONSTANT_AREA, ''constant_area''),
       (DECREASING_AREA, ''decreasing_area''), (COMPLEX_DECREASING_AREA, ''complex_decreasing_area'')]
       (A_Int I_support_update_algorithm) None,
     entry ''autocorrelation_area'' Type_Real Id_Autocorrelation_Area (Some 3) [isSettableBeforeRun,
       isSettableDuringRun, isGettableBeforeRun, isGettableDuringRun] [] (A_Real R_autocorrelation_area)
       (Some depends_on_patterson_algorithm_constant_area),
     entry ''beta'' Type_Map_Real Id_Beta (Some 20) [isSettableBeforeRun, isSettableDuringRun,
       isGettableBeforeRun, isGettableDuringRun] [] (A_Map M_beta_evolution) (Some
       depends_on_phasing_algorithm_with_beta),
     entry ''innerloop_iterations'' Type_Int Id_Iterations (Some 30) [isSettableBeforeRun,
       isGettableBeforeRun, isGettableBeforeRun, isGettableDuringRun, advanced] [] (A_Int I_iterations) None,
     entry ''remote_work_directory'' Type_String Id_Remote_Work_Dir (Some 16) [isSettableBeforeRun,
       isGettableBeforeRun, isGettableDuringRun, advanced] [] (A_String S_remote_work_dir) None,
     entry ''save_remote_files'' Type_Bool Id_Save_Remote_Files (Some 16) [isSettableBeforeRun,
       isGettableBeforeRun, isGettableDuringRun, advanced] [] (A_Int I_save_remote_files) None,
     entry ''template_blur_radius'' Type_Real Id_Template_Blur_Radius (Some 30) [isSettableBeforeRun,
       isSettableDuringRun, isGettableBeforeRun, isGettableDuringRun] [] (A_Real R_template_blur_radius)
       (Some depends_on_support_algorithm_with_template),
     entry ''template_area'' Type_Map_Real Id_Template_Area (Some 30) [isSettableBeforeRun,
       isSettableDuringRun, isGettableBeforeRun, isGettableDuringRun] [] (A_Map M_template_area_evolution)
       (Some depends_on_support_algorithm_with_template),
     entry ''debug_level'' Type_Int Id_Debug_Level (Some 0) [isSettableBeforeRun, isGettableBeforeRun,
       isGettableDuringRun, advanced] [] (A_Int I_debug_level) None,
     entry ''max_blur_radius'' Type_Real Id_Max_Blur_Radius (Some 0) [isSettableBeforeRun,
       isGettableBeforeRun, isGettableDuringRun, deprecated] [] (A_Real R_max_blur_radius) None]"

definition metadata_14 :: "int \<Rightarrow> int \<Rightarrow> int \<Rightarrow> metadata list" where
  "metadata_14 engine_automatic engine_cpu engine_cuda =
    [entry ''enforce_centrosymmetry'' Type_Bool Id_Enforce_Centrosymmetry (Some 20)
       [isSettableBeforeRun, isSettableDuringRun, isGettableBeforeRun, isGettableDuringRun, experimental]
       [] (A_Int I_enforce_centrosymmetry) (Some depends_on_phasing_algorithm_with_positivity),
     entry ''support_closure_radius'' Type_Int Id_Support_Closure_Radius (Some 30)
       [isSettableBeforeRun, isSettableDuringRun, isGettableBeforeRun, isGettableDuringRun, experimental]
       [(1, ''off'')] (A_Int I_support_closure_radius) None,
     entry ''realspace_starting_point'' Type_MultipleChoice Id_Starting_Guess (Some 82)
       [isSettableBeforeRun, isGettableBeforeRun, isGettableDuringRun] [(0, ''random phases''), (1,
       ''random density''), (2, ''zero phases''), (3, ''starting support'')] (A_Int
       I_realspace_starting_point) (Some depends_on_no_realspace_image_file),
     entry ''enforce_ramp'' Type_Bool Id_Enforce_Ramp (Some 20) [isSettableBeforeRun,
       isSettableDuringRun, isGettableBeforeRun, isGettableDuringRun, advanced] [] (A_Int I_enforce_ramp)
       (Some depends_on_phasing_algorithm_with_enforce_real),
     entry ''center_image'' Type_Bool Id_Center_Image (Some 30) [isSettableBeforeRun,
       isSettableDuringRun, isGettableBeforeRun, isGettableDuringRun] [] (A_Int I_center_image) (Some
       depends_on_support_algorithm_with_area),
     entry ''phasing_engine'' Type_MultipleChoice Id_Phasing_Engine (Some 0) [isSettableBeforeRun,
       isGettableBeforeRun, isGettableDuringRun, advanced] [(engine_automatic, ''automatic''), (engine_cpu,
       ''cpu''), (engine_cuda, ''cuda'')] (A_Int I_phasing_engine) None,
     entry ''output_projection'' Type_MultipleChoice Id_Output_Projection (Some 20)
       [isSettableBeforeRun, isSettableDuringRun, isGettableBeforeRun, isGettableDuringRun, advanced]
       [(IntensitiesProjection, ''project_intensities''), (NoProjection, ''no_projection'')] (A_Int
       I_output_projection) None]"

definition variable_metadata :: "int \<Rightarrow> int \<Rightarrow> int \<Rightarrow> metadata list" where
  "variable_metadata engine_automatic engine_cpu engine_cuda =
    metadata_1 @
    metadata_2 @
    metadata_3 @
    metadata_4 @
    metadata_5 @
    metadata_6 @
    metadata_7 @
    metadata_8 @
    metadata_9 @
    metadata_10 @
    metadata_11 @
    metadata_12 @
    metadata_13 @
    metadata_14 engine_automatic engine_cpu engine_cuda"

text \<open>
  The name of a value of a multiple choice.  The C function lowers the case of a copy of the
  name, in a buffer of 1024 characters, and then compares the name itself.
\<close>

fun list_value :: "(int \<times> string) list \<Rightarrow> string \<Rightarrow> int" where
  "list_value [] name = -1"
| "list_value ((v, n) # vs) name = (if n = name then v else list_value vs name)"

definition get_list_value_from_list_name :: "metadata \<Rightarrow> string \<Rightarrow> int result" where
  "get_list_value_from_list_name md name =
     (if 1024 \<le> length name then Inl Out_Of_Bounds else Inr (list_value (list_valid md) name))"

end
