(* ===== verification/Config_Tree.thy ===== *)
theory Config_Tree
  imports Prelude
begin

text \<open>
  The configuration library kept in the repository (\<open>src/libconfig/libconfig.c\<close>): the tree of
  settings, the lookup of a path in it, and the operations that read, add, set and remove
  settings.  Writing a tree and reading it back are in the theories \<open>Config_Text\<close> to
  \<open>Config_Safety\<close>.  The hooks and the release of memory are not modelled.

  A \<open>config_setting_t *\<close> stays valid while settings are added (only the array of pointers of
  its parent is reallocated), so it is a path of indices from the root, a \<open>handle\<close>; the tree is
  passed explicitly.  An empty list and a null list pointer behave alike in every
  operation and are both the empty list.
\<close>

section \<open>The tree of settings\<close>

datatype config_type =
    CONFIG_TYPE_NONE | CONFIG_TYPE_GROUP | CONFIG_TYPE_INT | CONFIG_TYPE_FLOAT
  | CONFIG_TYPE_STRING | CONFIG_TYPE_BOOL | CONFIG_TYPE_ARRAY | CONFIG_TYPE_LIST

text \<open>
  The union \<open>value\<close> of a setting with the tag \<open>type\<close>; a string is \<open>None\<close> for the null pointer.
\<close>

datatype setting = Setting (setting_name: "string option") (setting_value: content)
  and content =
    C_None
  | C_Int int
  | C_Float real
  | C_String "string option"
  | C_Bool int
  | C_Group "setting list"
  | C_Array "setting list"
  | C_List "setting list"

type_synonym handle = "nat list"

fun config_setting_type :: "content \<Rightarrow> config_type" where
  "config_setting_type C_None = CONFIG_TYPE_NONE"
| "config_setting_type (C_Int i) = CONFIG_TYPE_INT"
| "config_setting_type (C_Float x) = CONFIG_TYPE_FLOAT"
| "config_setting_type (C_String s) = CONFIG_TYPE_STRING"
| "config_setting_type (C_Bool b) = CONFIG_TYPE_BOOL"
| "config_setting_type (C_Group ss) = CONFIG_TYPE_GROUP"
| "config_setting_type (C_Array ss) = CONFIG_TYPE_ARRAY"
| "config_setting_type (C_List ss) = CONFIG_TYPE_LIST"

text \<open>The zeroed setting of a type, as \<open>calloc\<close> makes it.\<close>

fun zeroed :: "config_type \<Rightarrow> content" where
  "zeroed CONFIG_TYPE_NONE = C_None"
| "zeroed CONFIG_TYPE_INT = C_Int 0"
| "zeroed CONFIG_TYPE_FLOAT = C_Float 0"
| "zeroed CONFIG_TYPE_STRING = C_String None"
| "zeroed CONFIG_TYPE_BOOL = C_Bool 0"
| "zeroed CONFIG_TYPE_GROUP = C_Group []"
| "zeroed CONFIG_TYPE_ARRAY = C_Array []"
| "zeroed CONFIG_TYPE_LIST = C_List []"

fun elements :: "content \<Rightarrow> setting list" where
  "elements (C_Group ss) = ss"
| "elements (C_Array ss) = ss"
| "elements (C_List ss) = ss"
| "elements _ = []"

fun with_elements :: "content \<Rightarrow> setting list \<Rightarrow> content" where
  "with_elements (C_Group _) ss = C_Group ss"
| "with_elements (C_Array _) ss = C_Array ss"
| "with_elements (C_List _) ss = C_List ss"
| "with_elements c _ = c"

definition is_collection :: "content \<Rightarrow> bool" where
  "is_collection c \<longleftrightarrow> config_setting_type c \<in> {CONFIG_TYPE_GROUP, CONFIG_TYPE_ARRAY, CONFIG_TYPE_LIST}"

text \<open>What a handle points to, and an assignment through it.\<close>

fun node :: "content \<Rightarrow> handle \<Rightarrow> content option" where
  "node c [] = Some c"
| "node c (i # h) = (if i < length (elements c) then node (setting_value (elements c ! i)) h else None)"

fun update :: "handle \<Rightarrow> (content \<Rightarrow> content) \<Rightarrow> content \<Rightarrow> content" where
  "update [] f c = f c"
| "update (i # h) f c =
     (if i < length (elements c) then
        with_elements c ((elements c)[i :=
          Setting (setting_name (elements c ! i)) (update h f (setting_value (elements c ! i)))])
      else c)"

section \<open>Lookup\<close>

definition path_token :: "char \<Rightarrow> bool" where
  "path_token c \<longleftrightarrow> c \<in> set '':./''"

text \<open>Names are compared up to the end of the string or the first separator; \<open>char\<close> is signed.\<close>

definition char_value :: "char \<Rightarrow> int" where
  "char_value c = signed_take_bit 7 (of_char c)"

fun config_name_compare :: "string \<Rightarrow> string \<Rightarrow> int" where
  "config_name_compare [] q = (if q = [] \<or> path_token (hd q) then 0 else -1)"
| "config_name_compare (a # p) [] = (if path_token a then 0 else 1)"
| "config_name_compare (a # p) (b # q) =
     (if path_token a \<and> path_token b then 0
      else if path_token a then -1
      else if path_token b then 1
      else if char_value a < char_value b then -1
      else if char_value a > char_value b then 1
      else config_name_compare p q)"

fun config_list_search :: "setting list \<Rightarrow> string \<Rightarrow> nat option" where
  "config_list_search [] name = None"
| "config_list_search (s # ss) name =
     (case setting_name s of
        None \<Rightarrow> map_option Suc (config_list_search ss name)
      | Some n \<Rightarrow>
          if config_name_compare name n = 0 then Some 0
          else map_option Suc (config_list_search ss name))"

definition config_setting_get_member :: "content \<Rightarrow> string \<Rightarrow> nat option" where
  "config_setting_get_member c name = (case c of C_Group ss \<Rightarrow> config_list_search ss name | _ \<Rightarrow> None)"

definition config_setting_get_elem :: "content \<Rightarrow> nat \<Rightarrow> content option" where
  "config_setting_get_elem c i =
     (if is_collection c \<and> i < length (elements c) then Some (setting_value (elements c ! i)) else None)"

definition config_setting_length :: "content \<Rightarrow> nat" where
  "config_setting_length c = (if is_collection c then length (elements c) else 0)"

function config_lookup :: "content \<Rightarrow> string \<Rightarrow> handle option" where
  "config_lookup c path =
     (let p = dropWhile path_token path in
      if p = [] then Some []
      else case config_setting_get_member c p of
             None \<Rightarrow> None
           | Some i \<Rightarrow> map_option ((#) i)
               (config_lookup (setting_value (elements c ! i)) (dropWhile (Not \<circ> path_token) p)))"
  by pat_completeness auto
termination
proof (relation "measure (\<lambda>(c, path). length path)")
  fix c path p i
  assume p: "p = dropWhile path_token path" and "p \<noteq> []"
  then have "\<not> path_token (hd p)" using hd_dropWhile by blast
  with \<open>p \<noteq> []\<close> have "length (dropWhile (Not \<circ> path_token) p) < length p"
    by (cases p) (simp_all add: length_dropWhile_le le_imp_less_Suc)
  also have "length p \<le> length path" by (simp add: p length_dropWhile_le)
  finally show "((setting_value (elements c ! i), dropWhile (Not \<circ> path_token) p), c, path)
      \<in> measure (\<lambda>(c, path). length path)" by simp
qed simp

declare config_lookup.simps [simp del]

section \<open>Reading settings\<close>

definition config_setting_get_int :: "content \<Rightarrow> int" where
  "config_setting_get_int c = (case c of C_Int i \<Rightarrow> i | _ \<Rightarrow> 0)"

definition config_setting_get_float :: "content \<Rightarrow> real" where
  "config_setting_get_float c = (case c of C_Float x \<Rightarrow> x | _ \<Rightarrow> 0)"

definition config_setting_get_bool :: "content \<Rightarrow> int" where
  "config_setting_get_bool c = (case c of C_Bool b \<Rightarrow> b | _ \<Rightarrow> 0)"

definition config_setting_get_string :: "content \<Rightarrow> string option" where
  "config_setting_get_string c = (case c of C_String s \<Rightarrow> s | _ \<Rightarrow> None)"

text \<open>The setting a path leads to, and the reads by path with their defaults.\<close>

definition lookup_setting :: "content \<Rightarrow> string \<Rightarrow> content option" where
  "lookup_setting t path = Option.bind (config_lookup t path) (node t)"

definition config_lookup_string :: "content \<Rightarrow> string \<Rightarrow> string option" where
  "config_lookup_string t path = Option.bind (lookup_setting t path) config_setting_get_string"

definition config_lookup_int :: "content \<Rightarrow> string \<Rightarrow> int" where
  "config_lookup_int t path =
     (case lookup_setting t path of None \<Rightarrow> 0 | Some c \<Rightarrow> config_setting_get_int c)"

definition config_lookup_float :: "content \<Rightarrow> string \<Rightarrow> real" where
  "config_lookup_float t path =
     (case lookup_setting t path of None \<Rightarrow> 0 | Some c \<Rightarrow> config_setting_get_float c)"

definition config_lookup_bool :: "content \<Rightarrow> string \<Rightarrow> int" where
  "config_lookup_bool t path =
     (case lookup_setting t path of None \<Rightarrow> 0 | Some c \<Rightarrow> config_setting_get_bool c)"

definition config_setting_get_int_elem :: "content \<Rightarrow> nat \<Rightarrow> int" where
  "config_setting_get_int_elem c i =
     (case config_setting_get_elem c i of None \<Rightarrow> 0 | Some e \<Rightarrow> config_setting_get_int e)"

definition config_setting_get_float_elem :: "content \<Rightarrow> nat \<Rightarrow> real" where
  "config_setting_get_float_elem c i =
     (case config_setting_get_elem c i of None \<Rightarrow> 0 | Some e \<Rightarrow> config_setting_get_float e)"

section \<open>Adding, setting and removing\<close>

text \<open>
  The setters on the setting itself: \<open>None\<close> for \<open>CONFIG_FALSE\<close>, when it has another type.
\<close>

definition config_setting_set_int :: "content \<Rightarrow> int \<Rightarrow> content option" where
  "config_setting_set_int c v =
     (if config_setting_type c \<in> {CONFIG_TYPE_NONE, CONFIG_TYPE_INT} then Some (C_Int v) else None)"

definition config_setting_set_float :: "content \<Rightarrow> real \<Rightarrow> content option" where
  "config_setting_set_float c v =
     (if config_setting_type c \<in> {CONFIG_TYPE_NONE, CONFIG_TYPE_FLOAT} then Some (C_Float v) else None)"

definition config_setting_set_bool :: "content \<Rightarrow> int \<Rightarrow> content option" where
  "config_setting_set_bool c v =
     (if config_setting_type c \<in> {CONFIG_TYPE_NONE, CONFIG_TYPE_BOOL} then Some (C_Bool v) else None)"

definition config_setting_set_string :: "content \<Rightarrow> string option \<Rightarrow> content option" where
  "config_setting_set_string c v =
     (if config_setting_type c \<in> {CONFIG_TYPE_NONE, CONFIG_TYPE_STRING} then Some (C_String v) else None)"

text \<open>The first element of an array fixes the type of its elements; a list takes any.\<close>

definition config_vector_checktype :: "content \<Rightarrow> config_type \<Rightarrow> bool" where
  "config_vector_checktype c ty \<longleftrightarrow>
     elements c = [] \<or> config_setting_type c = CONFIG_TYPE_LIST
     \<or> config_setting_type (setting_value (hd (elements c))) = ty"

text \<open>A new setting at the end of a collection: the new tree and the handle of the setting.\<close>

definition config_setting_create ::
  "content \<Rightarrow> handle \<Rightarrow> string option \<Rightarrow> config_type \<Rightarrow> (content \<times> handle) option" where
  "config_setting_create t h name ty =
     Option.bind (node t h) (\<lambda>c.
       if is_collection c then
         Some (update h (\<lambda>c. with_elements c (elements c @ [Setting name (zeroed ty)])) t,
               h @ [length (elements c)])
       else None)"

definition config_setting_add ::
  "content \<Rightarrow> handle \<Rightarrow> string option \<Rightarrow> config_type \<Rightarrow> (content \<times> handle) option" where
  "config_setting_add t h name ty =
     Option.bind (node t h) (\<lambda>c.
       let name = (if config_setting_type c \<in> {CONFIG_TYPE_ARRAY, CONFIG_TYPE_LIST} then None else name) in
       if (\<exists>n \<in> set_option name. config_setting_get_member c n \<noteq> None) then None
       else config_setting_create t h name ty)"

text \<open>A setter called on the setting at a handle.\<close>

definition set_through :: "content \<Rightarrow> handle \<Rightarrow> (content \<Rightarrow> content option) \<Rightarrow> content option" where
  "set_through t h f =
     Option.bind (node t h) (\<lambda>c. map_option (\<lambda>c'. update h (\<lambda>_. c') t) (f c))"

text \<open>
  \<open>config_setting_set_float_elem\<close> and \<open>config_setting_set_int_elem\<close>: a negative index
  appends.
\<close>

definition set_elem ::
  "content \<Rightarrow> handle \<Rightarrow> int \<Rightarrow> config_type \<Rightarrow> (content \<Rightarrow> content option) \<Rightarrow> (content \<times> handle) option" where
  "set_elem t h i ty f =
     Option.bind (node t h) (\<lambda>c.
       if config_setting_type c \<notin> {CONFIG_TYPE_ARRAY, CONFIG_TYPE_LIST} then None
       else Option.bind
         (if i < 0 then
            if config_vector_checktype c ty then config_setting_create t h None ty else None
          else if nat i < length (elements c) then Some (t, h @ [nat i]) else None)
         (\<lambda>(t', e). map_option (\<lambda>t''. (t'', e)) (set_through t' e f)))"

definition config_setting_set_float_elem :: "content \<Rightarrow> handle \<Rightarrow> int \<Rightarrow> real \<Rightarrow> (content \<times> handle) option" where
  "config_setting_set_float_elem t h i v =
     set_elem t h i CONFIG_TYPE_FLOAT (\<lambda>c. config_setting_set_float c v)"

definition config_setting_set_int_elem :: "content \<Rightarrow> handle \<Rightarrow> int \<Rightarrow> int \<Rightarrow> (content \<times> handle) option" where
  "config_setting_set_int_elem t h i v =
     set_elem t h i CONFIG_TYPE_INT (\<lambda>c. config_setting_set_int c v)"

definition config_setting_remove :: "content \<Rightarrow> handle \<Rightarrow> string \<Rightarrow> content option" where
  "config_setting_remove t h name =
     Option.bind (node t h) (\<lambda>c.
       if config_setting_type c \<noteq> CONFIG_TYPE_GROUP then None
       else map_option
         (\<lambda>i. update h (\<lambda>c. C_Group (take i (elements c) @ drop (Suc i) (elements c))) t)
         (config_list_search (elements c) name))"

section \<open>The tree as a map from paths to values\<close>

text \<open>
  The contract: a tree stands for a map from paths (lists of keys, a key being a name up to its
  first separator) to values, a group being the value \<open>C_Group []\<close> whatever it holds.
\<close>

definition key :: "string \<Rightarrow> string" where
  "key name = takeWhile (Not \<circ> path_token) name"

definition plain :: "string \<Rightarrow> bool" where
  "plain name \<longleftrightarrow> name \<noteq> [] \<and> list_all (Not \<circ> path_token) name"

function path_keys :: "string \<Rightarrow> string list" where
  "path_keys path =
     (let p = dropWhile path_token path in
      if p = [] then [] else key p # path_keys (dropWhile (Not \<circ> path_token) p))"
  by pat_completeness auto
termination
proof (relation "measure length")
  fix path p
  assume p: "p = dropWhile path_token path" and "p \<noteq> []"
  then have "\<not> path_token (hd p)" using hd_dropWhile by blast
  with \<open>p \<noteq> []\<close> have "length (dropWhile (Not \<circ> path_token) p) < length p"
    by (cases p) (simp_all add: length_dropWhile_le le_imp_less_Suc)
  also have "length p \<le> length path" by (simp add: p length_dropWhile_le)
  finally show "(dropWhile (Not \<circ> path_token) p, path) \<in> measure length" by simp
qed simp

declare path_keys.simps [simp del]

definition shape :: "content \<Rightarrow> content" where
  "shape c = (case c of C_Group ss \<Rightarrow> C_Group [] | _ \<Rightarrow> c)"

fun find_key :: "setting list \<Rightarrow> string \<Rightarrow> nat option" where
  "find_key [] k = None"
| "find_key (s # ss) k =
     (if map_option key (setting_name s) = Some k then Some 0 else map_option Suc (find_key ss k))"

definition member_at :: "content \<Rightarrow> string \<Rightarrow> nat option" where
  "member_at c k = (case c of C_Group ss \<Rightarrow> find_key ss k | _ \<Rightarrow> None)"

fun locate :: "content \<Rightarrow> string list \<Rightarrow> handle option" where
  "locate c [] = Some []"
| "locate c (k # ks) =
     (case member_at c k of
        None \<Rightarrow> None
      | Some i \<Rightarrow> map_option ((#) i) (locate (setting_value (elements c ! i)) ks))"

fun view :: "content \<Rightarrow> string list \<Rightarrow> content option" where
  "view c [] = Some (shape c)"
| "view c (k # ks) =
     (case member_at c k of
        None \<Rightarrow> None
      | Some i \<Rightarrow> view (setting_value (elements c ! i)) ks)"

section \<open>Names and searches\<close>

lemma path_token_iff [simp]: "path_token c \<longleftrightarrow> c = CHR '':'' \<or> c = CHR ''.'' \<or> c = CHR ''/''"
  by (auto simp: path_token_def)

lemma char_value_inj: "char_value a = char_value b \<longleftrightarrow> a = b"
proof
  assume "char_value a = char_value b"
  then have "take_bit 8 (of_char a :: int) = take_bit 8 (of_char b)"
    by (simp add: char_value_def signed_take_bit_eq_iff_take_bit_eq)
  then have "char_of (take_bit 8 (of_char a :: int)) = char_of (take_bit 8 (of_char b :: int))" by simp
  then show "a = b" by (simp add: char_of_take_bit_eq)
qed simp

lemma config_name_compare_zero: "config_name_compare p q = 0 \<longleftrightarrow> key p = key q"
proof (induction p q rule: config_name_compare.induct)
  case (1 q)
  then show ?case by (cases q) (auto simp: key_def)
next
  case (3 a p b q)
  then show ?case
    using char_value_inj [of a b] by (auto simp: key_def simp del: path_token_iff)
qed (auto simp: key_def)

lemma config_list_search_key: "config_list_search ss name = find_key ss (key name)"
  by (induction ss) (auto simp: config_name_compare_zero split: option.splits)

lemma config_setting_get_member_key: "config_setting_get_member c name = member_at c (key name)"
  by (simp add: config_setting_get_member_def member_at_def config_list_search_key split: content.splits)

lemma find_key_SomeD:
  "find_key ss k = Some i \<Longrightarrow> i < length ss \<and> map_option key (setting_name (ss ! i)) = Some k"
  by (induction ss arbitrary: i) (auto split: if_splits)

lemma find_key_names: "map setting_name ss = map setting_name ss' \<Longrightarrow> find_key ss = find_key ss'"
proof (intro ext, induction ss arbitrary: ss')
  case (Cons s ss)
  then show ?case by (cases ss') auto
qed simp

lemma find_key_append:
  "find_key (ss @ [s]) k =
     (case find_key ss k of
        Some i \<Rightarrow> Some i
      | None \<Rightarrow> if map_option key (setting_name s) = Some k then Some (length ss) else None)"
  by (induction ss) (auto split: option.splits)

lemma key_plain: "plain name \<Longrightarrow> key name = name"
  unfolding plain_def key_def by (simp add: list_all_iff)

lemma path_keys_Nil [simp]: "path_keys [] = []"
  by (subst path_keys.simps) simp

lemma plain_dropWhile:
  assumes "plain name"
  shows "dropWhile path_token (name @ rest) = name @ rest"
    and "dropWhile (Not \<circ> path_token) (name @ rest) = dropWhile (Not \<circ> path_token) rest"
    and "dropWhile path_token name = name" and "dropWhile (Not \<circ> path_token) name = []"
  using assms by (cases name; auto simp: plain_def list_all_iff dropWhile_append2)+

lemma path_keys_plain: "plain name \<Longrightarrow> path_keys name = [name]"
  by (subst path_keys.simps) (auto simp: Let_def key_plain plain_dropWhile plain_def)

lemma path_keys_dot:
  assumes "plain name"
  shows "path_keys (name @ CHR ''.'' # path) = name # path_keys path"
proof -
  have "key (name @ CHR ''.'' # path) = name"
    using assms by (auto simp: key_def plain_def list_all_iff takeWhile_tail)
  moreover have "path_keys (CHR ''.'' # path) = path_keys path"
    by (subst (1 2) path_keys.simps) simp
  ultimately show ?thesis
    using assms by (subst path_keys.simps) (simp add: Let_def plain_dropWhile)
qed

lemma config_lookup_locates: "config_lookup t path = locate t (path_keys path)"
proof (induction t path rule: config_lookup.induct)
  case (1 c path)
  define p where "p = dropWhile path_token path"
  have look: "config_lookup c path =
      (if p = [] then Some []
       else case member_at c (key p) of
              None \<Rightarrow> None
            | Some i \<Rightarrow> map_option ((#) i)
                (config_lookup (setting_value (elements c ! i)) (dropWhile (Not \<circ> path_token) p)))"
    by (simp only: config_lookup.simps [of c path] Let_def p_def config_setting_get_member_key)
  have keys: "path_keys path =
      (if p = [] then [] else key p # path_keys (dropWhile (Not \<circ> path_token) p))"
    by (simp only: path_keys.simps [of path] Let_def p_def)
  show ?case
    using 1 [OF p_def] by (simp add: look keys config_setting_get_member_key split: option.splits)
qed

section \<open>Changes of the tree as changes of the map\<close>

lemma elements_with [simp]: "is_collection c \<Longrightarrow> elements (with_elements c ss) = ss"
  by (cases c) (simp_all add: is_collection_def)

lemma member_at_group: "member_at c k = Some i \<Longrightarrow> i < length (elements c) \<and> (\<exists>ss. c = C_Group ss)"
  by (cases c) (auto simp: member_at_def dest: find_key_SomeD)

lemma member_at_inj: "member_at c k = Some i \<Longrightarrow> member_at c k' = Some i \<Longrightarrow> k = k'"
  by (cases c) (auto simp: member_at_def dest!: find_key_SomeD)

lemma member_at_update [simp]: "member_at (update (i # h) f c) k = member_at c k"
proof (cases c)
  case (C_Group ss)
  then show ?thesis
    by (auto simp: member_at_def map_update intro!: fun_cong [OF find_key_names] nth_equalityI
        simp: nth_list_update)
qed (simp_all add: member_at_def)

lemma child_update:
  assumes "member_at c k = Some i" and "member_at c k' = Some j"
  shows "setting_value (elements (update (i # h) f c) ! j) =
    (if k = k' then update h f (setting_value (elements c ! i)) else setting_value (elements c ! j))"
  using assms member_at_group [OF assms(1)] member_at_inj [OF assms(1), of k']
  by (auto simp: nth_list_update)

lemma node_locate: "locate c ks = Some h \<Longrightarrow> \<exists>d. node c h = Some d \<and> view c (ks @ ks') = view d ks'"
  by (induction ks arbitrary: c h) (auto split: option.splits dest!: member_at_group)

lemma view_locate: "view c ks = None \<longleftrightarrow> locate c ks = None"
  by (induction ks arbitrary: c) (auto split: option.splits)

lemma shape_update: "member_at c k = Some j \<Longrightarrow> shape (update (i # h) f c) = shape c"
  by (cases c) (auto simp: shape_def member_at_def)

lemma view_update:
  assumes "locate c ks = Some h" and "node c h = Some d"
  shows "view (update h f c) ks' =
    (if take (length ks) ks' = ks then view (f d) (drop (length ks) ks') else view c ks')"
  using assms
proof (induction ks arbitrary: c h ks')
  case (Cons k ks)
  from Cons.prems(1) obtain i h' where i: "member_at c k = Some i" and h: "h = i # h'"
    and rest: "locate (setting_value (elements c ! i)) ks = Some h'"
    by (auto split: option.splits)
  have d: "node (setting_value (elements c ! i)) h' = Some d"
    using Cons.prems(2) member_at_group [OF i] by (simp add: h)
  show ?case
  proof (cases ks')
    case Nil
    then show ?thesis using i by (simp add: h shape_update del: update.simps)
  next
    case (Cons k' rest')
    then show ?thesis
      using Cons.IH [OF rest d] i child_update [OF i, of k' _ h' f]
      by (auto simp: h simp del: update.simps split: option.splits)
  qed
qed simp

lemma view_below: "locate c ks = Some h \<Longrightarrow> node c h = Some d \<Longrightarrow> take (length ks) ks' = ks \<Longrightarrow>
    view c ks' = view d (drop (length ks) ks')"
  using node_locate [of c ks h "drop (length ks) ks'"] append_take_drop_id [of "length ks" ks'] by auto

text \<open>A setting appended to a group extends the map, an assignment to a value changes it there.\<close>

lemma shape_zeroed [simp]: "shape (zeroed ty) = zeroed ty"
  by (cases ty) (simp_all add: shape_def)

lemma shape_group [simp]: "shape (C_Group ss) = C_Group []"
  by (simp add: shape_def)

lemma view_zeroed [simp]: "view (zeroed ty) ks = (if ks = [] then Some (zeroed ty) else None)"
  by (cases ty; cases ks) (simp_all add: shape_def member_at_def)

lemma view_append:
  assumes "key name = name" and "find_key ss name = None"
  shows "view (C_Group (ss @ [Setting (Some name) (zeroed ty)])) =
    (view (C_Group ss))([name] \<mapsto> zeroed ty)"
proof
  fix ks
  show "view (C_Group (ss @ [Setting (Some name) (zeroed ty)])) ks =
      ((view (C_Group ss))([name] \<mapsto> zeroed ty)) ks"
    using assms
    by (cases ks) (auto simp: member_at_def find_key_append nth_append
        dest: find_key_SomeD split: option.splits)
qed

lemma take_drop_eq: "take (length ks) ks' = ks \<Longrightarrow> drop (length ks) ks' = r \<longleftrightarrow> ks' = ks @ r"
  by (metis append_eq_conv_conj append_take_drop_id)

lemma view_update_at:
  assumes "locate t ks = Some h" and "node t h = Some d"
    and "view (f d) = (view d)(r \<mapsto> v)"
  shows "view (update h f t) = (view t)(ks @ r \<mapsto> v)"
proof
  fix ks'
  show "view (update h f t) ks' = ((view t)(ks @ r \<mapsto> v)) ks'"
    using view_update [OF assms(1,2), of f ks'] view_below [OF assms(1,2), of ks'] assms(3)
      take_drop_eq [of ks ks' r] by (auto simp: fun_upd_apply)
qed

definition is_group :: "content \<Rightarrow> bool" where
  "is_group c \<longleftrightarrow> config_setting_type c = CONFIG_TYPE_GROUP"

lemma view_value: "\<not> is_group c \<Longrightarrow> view c = [[] \<mapsto> c]"
proof
  fix ks
  assume "\<not> is_group c"
  then show "view c ks = [[] \<mapsto> c] ks"
    by (cases c; cases ks) (simp_all add: is_group_def shape_def member_at_def)
qed

lemma view_update_value:
  assumes "locate t ks = Some h" and "node t h = Some d" and "\<not> is_group d" and "\<not> is_group (f d)"
  shows "view (update h f t) = (view t)(ks \<mapsto> f d)"
  using view_update_at [OF assms(1,2), of f "[]" "f d"] assms(3,4) by (simp add: view_value)

lemma lookup_setting_view:
  "lookup_setting t path = Some c \<Longrightarrow> view t (path_keys path) = Some (shape c)"
  "lookup_setting t path = None \<longleftrightarrow> view t (path_keys path) = None"
  using node_locate [of t "path_keys path" _ "[]"]
  by (cases "locate t (path_keys path)";
      auto simp: lookup_setting_def config_lookup_locates view_locate)+

text \<open>Assignments through handles.\<close>

lemma node_append: "node c (h @ h') = Option.bind (node c h) (\<lambda>d. node d h')"
  by (induction h arbitrary: c) auto

lemma node_collection: "i < length (elements c) \<Longrightarrow> is_collection c"
  by (cases c) (simp_all add: is_collection_def)

lemma node_update [simp]: "node c h = Some d \<Longrightarrow> node (update h f c) h = Some (f d)"
  by (induction h arbitrary: c) (auto simp: node_collection split: if_splits)

lemma with_elements_again [simp]: "with_elements (with_elements c ss) ss' = with_elements c ss'"
  by (cases c) simp_all

lemma with_same_elements [simp]: "with_elements c (elements c) = c"
  by (cases c) simp_all

lemma update_update [simp]: "update h f (update h g c) = update h (\<lambda>d. f (g d)) c"
  by (induction h arbitrary: c) (auto simp: node_collection)

lemma update_const: "node c h = Some d \<Longrightarrow> update h f c = update h (\<lambda>_. f d) c"
  by (induction h arbitrary: c) (auto split: if_splits)

lemma update_same [simp]: "node c h = Some d \<Longrightarrow> update h (\<lambda>_. d) c = c"
proof (induction h arbitrary: c)
  case (Cons i h)
  then have "Setting (setting_name (elements c ! i)) (setting_value (elements c ! i)) = elements c ! i"
    by (simp add: setting.expand)
  with Cons show ?case by (simp split: if_splits)
qed simp

lemma update_append: "update (h @ h') f c = update h (update h' f) c"
  by (induction h arbitrary: c) auto

lemma locate_update:
  assumes "locate c ks = Some h" and "node c h = Some d"
  shows "locate (update h f c) (ks @ r) = map_option ((@) h) (locate (f d) r)"
  using assms
proof (induction ks arbitrary: c h)
  case (Cons k ks)
  from Cons.prems(1) obtain i h' where i: "member_at c k = Some i" and h: "h = i # h'"
    and rest: "locate (setting_value (elements c ! i)) ks = Some h'"
    by (auto split: option.splits)
  have "node (setting_value (elements c ! i)) h' = Some d"
    using Cons.prems(2) member_at_group [OF i] by (simp add: h)
  then show ?case
    using Cons.IH [OF rest] i child_update [OF i i, of h' f]
    by (simp add: h option.map_comp comp_def del: update.simps)
next
  case Nil
  then show ?case by (cases "locate (f d) r") simp_all
qed

text \<open>
  A value appended to an array or a list, and the new setting of a group with its handle.
\<close>

lemma append_to_node:
  assumes "node t h = Some c"
  shows "update h (\<lambda>c. with_elements c (elements c @ [e])) t = update h (\<lambda>_. with_elements c (elements c @ [e])) t"
  by (rule update_const [OF assms])

lemma set_elem_appends:
  assumes "node t h = Some (C_Array ss)" and "config_vector_checktype (C_Array ss) ty"
    and "f (zeroed ty) = Some v"
  shows "set_elem t h (-1) ty f = Some (update h (\<lambda>_. C_Array (ss @ [Setting None v])) t, h @ [length ss])"
  using assms(1) append_to_node [OF assms(1)] assms(2,3)
  by (simp add: set_elem_def config_setting_create_def is_collection_def set_through_def node_append
      update_append)

lemma add_to_list:
  assumes "node t h = Some (C_List ss)"
  shows "config_setting_add t h name ty =
    Some (update h (\<lambda>_. C_List (ss @ [Setting None (zeroed ty)])) t, h @ [length ss])"
  using assms append_to_node [OF assms]
  by (simp add: config_setting_add_def config_setting_create_def is_collection_def)

lemma add_to_group:
  assumes "locate t ks = Some h" and "node t h = Some (C_Group ss)"
    and "plain name" and "view t (ks @ [name]) = None"
  shows "\<exists>t'. config_setting_add t h (Some name) ty = Some (t', h @ [length ss])
    \<and> locate t' (ks @ [name]) = Some (h @ [length ss]) \<and> node t' (h @ [length ss]) = Some (zeroed ty)
    \<and> view t' = (view t)(ks @ [name] \<mapsto> zeroed ty)"
proof -
  define f where "f = (\<lambda>c. with_elements c (elements c @ [Setting (Some name) (zeroed ty)]))"
  have none: "find_key ss name = None"
    using assms(4) node_locate [OF assms(1), of "[name]"] assms(2)
    by (auto simp: member_at_def split: option.splits dest: find_key_SomeD)
  have f: "f (C_Group ss) = C_Group (ss @ [Setting (Some name) (zeroed ty)])" by (simp add: f_def)
  have "view (update h f t) = (view t)(ks @ [name] \<mapsto> zeroed ty)"
    using view_append [OF key_plain [OF assms(3)] none, of ty]
    by (intro view_update_at [OF assms(1,2)]) (simp only: f)
  moreover have "config_setting_add t h (Some name) ty = Some (update h f t, h @ [length ss])"
    using assms(2) none key_plain [OF assms(3)]
    by (simp add: config_setting_add_def config_setting_create_def is_collection_def f_def
        config_setting_get_member_key member_at_def)
  moreover have "locate (update h f t) (ks @ [name]) = Some (h @ [length ss])"
    using locate_update [OF assms(1,2), of f "[name]"] none key_plain [OF assms(3)]
    by (simp add: f member_at_def find_key_append)
  moreover have "node (update h f t) (h @ [length ss]) = Some (zeroed ty)"
    using assms(2) by (simp add: node_append f)
  ultimately show ?thesis by blast
qed

text \<open>
  Property C17 (refinement): adding a setting with a plain new name to the group a path leads to
  returns its handle and extends the map of the tree by the new path, with the zeroed
  value of the type, and by nothing else.
\<close>

theorem config_add_extends_map:
  assumes "config_lookup t path = Some h" and "node t h = Some (C_Group ss)"
    and "plain name" and "config_setting_get_member (C_Group ss) name = None"
  shows "\<exists>t'. config_setting_add t h (Some name) ty = Some (t', h @ [length ss])
    \<and> view t' = (view t)(path_keys path @ [name] \<mapsto> zeroed ty)"
proof -
  have at: "locate t (path_keys path) = Some h" using assms(1) by (simp add: config_lookup_locates)
  have "view t (path_keys path @ [name]) = None"
    using node_locate [OF at, of "[name]"] assms(2-4)
    by (auto simp: config_setting_get_member_key key_plain)
  then show ?thesis using add_to_group [OF at assms(2,3)] by blast
qed

lemma config_add_extends_map_witness:
  "\<exists>t'. config_setting_add (C_Group []) [] (Some ''logging'') CONFIG_TYPE_GROUP = Some (t', [0])
     \<and> view t' = (view (C_Group []))([''logging''] \<mapsto> C_Group [])"
  using config_add_extends_map [of "C_Group []" "''''" "[]" "[]" "''logging''" CONFIG_TYPE_GROUP]
  by (simp add: config_lookup_locates plain_def config_setting_get_member_key member_at_def)

text \<open>Removing a setting from a group.\<close>

lemma find_key_append_list:
  "find_key (as @ bs) k =
     (case find_key as k of Some i \<Rightarrow> Some i | None \<Rightarrow> map_option (\<lambda>i. i + length as) (find_key bs k))"
  by (induction as) (auto split: option.splits simp: option.map_comp comp_def option.map_ident)

fun setting_keys :: "setting list \<Rightarrow> string list" where
  "setting_keys [] = []"
| "setting_keys (s # ss) =
     (case setting_name s of None \<Rightarrow> setting_keys ss | Some n \<Rightarrow> key n # setting_keys ss)"

lemma setting_keys_append: "setting_keys (as @ bs) = setting_keys as @ setting_keys bs"
  by (induction as) (auto split: option.splits)

lemma find_key_keys: "find_key ss k = None \<longleftrightarrow> k \<notin> set (setting_keys ss)"
  by (induction ss) (auto split: option.splits)

definition distinct_names :: "setting list \<Rightarrow> bool" where
  "distinct_names ss \<longleftrightarrow> distinct (setting_keys ss)"

lemma distinct_names_split:
  assumes "distinct_names (as @ s # bs)" and "map_option key (setting_name s) = Some k"
  shows "find_key as k = None" and "find_key bs k = None"
  using assms by (auto simp: distinct_names_def find_key_keys setting_keys_append)

lemma view_removed:
  assumes "distinct_names (as @ s # bs)" and "map_option key (setting_name s) = Some k"
  shows "view (C_Group (as @ bs)) ks = (if take 1 ks = [k] then None else view (C_Group (as @ s # bs)) ks)"
proof (cases ks)
  case (Cons k' r)
  then show ?thesis
    using distinct_names_split [OF assms] assms(2)
    by (cases "find_key as k'"; cases "find_key bs k'")
       (auto simp: member_at_def find_key_append_list nth_append dest: find_key_SomeD)
qed simp

lemma take_Suc_length_eq:
  "take (Suc (length ks)) ks' = ks @ [k]
     \<longleftrightarrow> take (length ks) ks' = ks \<and> take 1 (drop (length ks) ks') = [k]"
proof (induction ks arbitrary: ks')
  case (Cons x ks)
  then show ?case by (cases ks') auto
qed simp

text \<open>
  Property C18 (refinement): removing a setting from the group a path leads to, whose names
  are distinct, takes the path of the setting and every path below it out of the map of the
  tree, and nothing else.
\<close>

theorem config_remove_restricts_map:
  assumes "config_lookup t path = Some h" and "node t h = Some (C_Group ss)"
    and "distinct_names ss" and "config_setting_get_member (C_Group ss) name = Some i"
  defines "gone \<equiv> path_keys path @ [key name]"
  shows "\<exists>t'. config_setting_remove t h name = Some t'
    \<and> view t' = (\<lambda>ks. if take (length gone) ks = gone then None else view t ks)"
proof -
  have find: "find_key ss (key name) = Some i"
    using assms(4) by (simp add: config_setting_get_member_key member_at_def)
  then have i: "i < length ss" and name: "map_option key (setting_name (ss ! i)) = Some (key name)"
    using find_key_SomeD by blast+
  define as bs where "as = take i ss" and "bs = drop (Suc i) ss"
  have ss: "ss = as @ ss ! i # bs" using i by (simp add: as_def bs_def id_take_nth_drop)
  have at: "locate t (path_keys path) = Some h" using assms(1) by (simp add: config_lookup_locates)
  define f where "f = (\<lambda>c. C_Group (take i (elements c) @ drop (Suc i) (elements c)))"
  have "view (update h f t) ks = (if take (length gone) ks = gone then None else view t ks)" for ks
  proof -
    have "f (C_Group ss) = C_Group (as @ bs)" by (simp add: f_def as_def bs_def)
    then have "view (f (C_Group ss)) r = (if take 1 r = [key name] then None else view (C_Group ss) r)" for r
      using view_removed [of as "ss ! i" bs "key name" r] assms(3) name by (simp add: ss [symmetric])
    then show ?thesis
      using view_update [OF at assms(2), of f ks] view_below [OF at assms(2), of ks]
        take_Suc_length_eq [of "path_keys path" ks "key name"]
      by (simp add: gone_def)
  qed
  then show ?thesis
    using assms(2) find
    by (auto simp: config_setting_remove_def config_list_search_key f_def)
qed

lemma config_remove_restricts_map_witness:
  "\<exists>t'. config_setting_remove (C_Group [Setting (Some ''beta'') (C_Float 1), Setting (Some ''algorithm'') (C_Int 0)])
       [] ''beta'' = Some t'
     \<and> view t' = (\<lambda>ks. if take 1 ks = [''beta''] then None
         else view (C_Group [Setting (Some ''beta'') (C_Float 1), Setting (Some ''algorithm'') (C_Int 0)]) ks)"
  using config_remove_restricts_map
    [of "C_Group [Setting (Some ''beta'') (C_Float 1), Setting (Some ''algorithm'') (C_Int 0)]" "''''" "[]"
      "[Setting (Some ''beta'') (C_Float 1), Setting (Some ''algorithm'') (C_Int 0)]" "''beta''" 0]
  by (simp add: config_lookup_locates distinct_names_def config_setting_get_member_key member_at_def key_def)

end
