(* ===== verification/Options_IO.thy ===== *)
theory Options_IO
  imports Metadata Config_Tree Loops
begin

text \<open>
  Reading and writing configuration files (\<open>src/configuration.c\<close>): both walk the metadata
  table, find or create a setting of the tree for each option, and copy the field at the
  option's address.  The step between a file and its tree is that of the theories
  \<open>Config_Text\<close> and \<open>Config_Parser\<close>; here reading takes it as a parameter and writing ends
  with the tree.  The messages of \<open>hawk_fatal\<close> are kept without the values printed into them.
\<close>

section \<open>Fields through their addresses\<close>

text \<open>
  A field written through an address of another type is a fault; so is a string that does
  not fit the field's \<open>OPTION_STRING_SIZE\<close> characters.
\<close>

definition option_string_size :: nat where
  "option_string_size = 10026"

definition wrap32 :: "int \<Rightarrow> int" where
  "wrap32 i = signed_take_bit 31 i"

definition bad_address :: "address \<Rightarrow> fault" where
  "bad_address a = (if a = A_Null then Null_Pointer else Type_Confusion)"

definition store_real :: "address \<Rightarrow> real \<Rightarrow> options \<Rightarrow> options result" where
  "store_real a v opt =
     (case a of A_Real k \<Rightarrow> Inr (opt\<lparr>oreal := (oreal opt)(k := v)\<rparr>) | _ \<Rightarrow> Inl (bad_address a))"

definition store_int :: "address \<Rightarrow> int \<Rightarrow> options \<Rightarrow> options result" where
  "store_int a v opt =
     (case a of A_Int k \<Rightarrow> Inr (opt\<lparr>oint := (oint opt)(k := wrap32 v)\<rparr>) | _ \<Rightarrow> Inl (bad_address a))"

definition store_string :: "address \<Rightarrow> string \<Rightarrow> options \<Rightarrow> options result" where
  "store_string a v opt =
     (case a of
        A_String k \<Rightarrow>
          if option_string_size \<le> length v then Inl Out_Of_Bounds
          else Inr (opt\<lparr>ostring := (ostring opt)(k := v)\<rparr>)
      | _ \<Rightarrow> Inl (bad_address a))"

definition store_vector :: "address \<Rightarrow> real list \<Rightarrow> options \<Rightarrow> options result" where
  "store_vector a v opt =
     (case a of A_Vector k \<Rightarrow> Inr (opt\<lparr>ovector := (ovector opt)(k := Some v)\<rparr>) | _ \<Rightarrow> Inl (bad_address a))"

definition store_map :: "address \<Rightarrow> sp_smap \<Rightarrow> options \<Rightarrow> options result" where
  "store_map a v opt =
     (case a of A_Map k \<Rightarrow> Inr (opt\<lparr>omap := (omap opt)(k := Some v)\<rparr>) | _ \<Rightarrow> Inl (bad_address a))"

definition load_real :: "address \<Rightarrow> options \<Rightarrow> real result" where
  "load_real a opt = (case a of A_Real k \<Rightarrow> Inr (oreal opt k) | _ \<Rightarrow> Inl (bad_address a))"

definition load_int :: "address \<Rightarrow> options \<Rightarrow> int result" where
  "load_int a opt = (case a of A_Int k \<Rightarrow> Inr (oint opt k) | _ \<Rightarrow> Inl (bad_address a))"

definition load_string :: "address \<Rightarrow> options \<Rightarrow> string result" where
  "load_string a opt = (case a of A_String k \<Rightarrow> Inr (ostring opt k) | _ \<Rightarrow> Inl (bad_address a))"

definition load_vector :: "address \<Rightarrow> options \<Rightarrow> real list option result" where
  "load_vector a opt = (case a of A_Vector k \<Rightarrow> Inr (ovector opt k) | _ \<Rightarrow> Inl (bad_address a))"

definition load_map :: "address \<Rightarrow> options \<Rightarrow> sp_smap option result" where
  "load_map a opt = (case a of A_Map k \<Rightarrow> Inr (omap opt k) | _ \<Rightarrow> Inl (bad_address a))"

section \<open>Paths and types of settings\<close>

text \<open>
  \<open>get_path\<close> puts the names of the groups in front of the name of the option, in buffers of
  \<open>OPTION_STRING_SIZE\<close> characters: each round makes the text longer, so a chain of
  parents without end would overflow the buffer.
\<close>

function path_from :: "metadata list \<Rightarrow> nat option \<Rightarrow> string \<Rightarrow> string result" where
  "path_from tab p buf =
     (if option_string_size \<le> length buf then Inl Out_Of_Bounds
      else bind_result (deref p) (\<lambda>i. bind_result (array_get tab (int i)) (\<lambda>m.
        if variable_id m = Id_Root then Inr buf
        else path_from tab (parent m) (variable_name m @ CHR ''.'' # buf))))"
  by pat_completeness auto
termination by (relation "measure (\<lambda>(tab, p, buf). option_string_size - length buf)") auto

declare path_from.simps [simp del]

definition get_path :: "metadata list \<Rightarrow> metadata \<Rightarrow> string result" where
  "get_path tab m = path_from tab (parent m) (variable_name m)"

fun get_config_type :: "variable_type \<Rightarrow> config_type result" where
  "get_config_type Type_Real = Inr CONFIG_TYPE_FLOAT"
| "get_config_type Type_Int = Inr CONFIG_TYPE_INT"
| "get_config_type Type_Filename = Inr CONFIG_TYPE_STRING"
| "get_config_type Type_Existing_Filename = Inr CONFIG_TYPE_STRING"
| "get_config_type Type_Directory_Name = Inr CONFIG_TYPE_STRING"
| "get_config_type Type_String = Inr CONFIG_TYPE_STRING"
| "get_config_type Type_MultipleChoice = Inr CONFIG_TYPE_STRING"
| "get_config_type Type_Bool = Inr CONFIG_TYPE_BOOL"
| "get_config_type Type_Group = Inr CONFIG_TYPE_GROUP"
| "get_config_type Type_Vector_Real = Inr CONFIG_TYPE_ARRAY"
| "get_config_type Type_Vector_Int = Inr CONFIG_TYPE_ARRAY"
| "get_config_type Type_Map_Real = Inr CONFIG_TYPE_LIST"
| "get_config_type _ = Inl (Fatal ''Unkown variable type'')"

definition is_string_type :: "variable_type \<Rightarrow> bool" where
  "is_string_type ty \<longleftrightarrow> ty \<in> {Type_String, Type_Filename, Type_Existing_Filename, Type_Directory_Name}"

section \<open>Reading\<close>

text \<open>A real may be written as an integer, and so may a truth value.\<close>

definition read_real :: "content \<Rightarrow> string \<Rightarrow> content \<Rightarrow> metadata \<Rightarrow> options \<Rightarrow> options result" where
  "read_real t path c m opt =
     store_real (variable_address m)
       (if config_setting_type c = CONFIG_TYPE_FLOAT then config_lookup_float t path
        else real_of_int (config_lookup_int t path)) opt"

definition read_bool :: "content \<Rightarrow> string \<Rightarrow> content \<Rightarrow> metadata \<Rightarrow> options \<Rightarrow> options result" where
  "read_bool t path c m opt =
     store_int (variable_address m)
       (if config_setting_type c = CONFIG_TYPE_BOOL then config_lookup_bool t path
        else config_lookup_int t path) opt"

definition read_string :: "content \<Rightarrow> string \<Rightarrow> metadata \<Rightarrow> options \<Rightarrow> options result" where
  "read_string t path m opt =
     bind_result (deref (config_lookup_string t path)) (\<lambda>s. store_string (variable_address m) s opt)"

text \<open>An empty array leaves the vector as it is; the first element decides how all are read.\<close>

definition read_vector :: "content \<Rightarrow> metadata \<Rightarrow> options \<Rightarrow> options result" where
  "read_vector c m opt =
     (if config_setting_type c = CONFIG_TYPE_ARRAY then
        (case config_setting_get_elem c 0 of
           None \<Rightarrow> Inr opt
         | Some e \<Rightarrow>
             if config_setting_type e = CONFIG_TYPE_FLOAT then
               store_vector (variable_address m)
                 (map (config_setting_get_float_elem c) [0..<config_setting_length c]) opt
             else if config_setting_type e = CONFIG_TYPE_INT then
               store_vector (variable_address m)
                 (map (\<lambda>j. real_of_int (config_setting_get_int_elem c j)) [0..<config_setting_length c]) opt
             else Inr opt)
      else Inr opt)"

text \<open>
  The names of a multiple choice are compared with the text of the file in lower case
  (\<open>tolower\<close> in the C locale).
\<close>

definition to_lower :: "char \<Rightarrow> char" where
  "to_lower c = (if 65 \<le> (of_char c :: nat) \<and> (of_char c :: nat) \<le> 90 then char_of (of_char c + 32 :: nat) else c)"

fun choice_value :: "(int \<times> string) list \<Rightarrow> string \<Rightarrow> int option" where
  "choice_value [] s = None"
| "choice_value ((v, n) # vs) s = (if n = s then Some v else choice_value vs s)"

definition read_choice :: "content \<Rightarrow> string \<Rightarrow> metadata \<Rightarrow> options \<Rightarrow> options result" where
  "read_choice t path m opt =
     bind_result (deref (config_lookup_string t path)) (\<lambda>s.
       if option_string_size \<le> length s then Inl Out_Of_Bounds
       else case choice_value (list_valid m) (map to_lower s) of
              None \<Rightarrow> Inl (Fatal ''Error invalid list value'')
            | Some v \<Rightarrow> store_int (variable_address m) v opt)"

text \<open>A map is a list of two arrays, its keys and its values; empty keys leave the field as it is.\<close>

definition read_map :: "spimage \<Rightarrow> content \<Rightarrow> metadata \<Rightarrow> options \<Rightarrow> options result" where
  "read_map sp c m opt =
     bind_result (deref (config_setting_get_elem c 0)) (\<lambda>ks.
       let values = config_setting_get_elem c 1 in
       if config_setting_length ks = 0 then Inr opt
       else bind_result (deref (config_setting_get_elem ks 0)) (\<lambda>e.
         if config_setting_type e = CONFIG_TYPE_FLOAT then
           bind_result (deref values) (\<lambda>vs.
             store_map (variable_address m)
               (fold (\<lambda>j smap. sp_smap_insert sp smap
                   (config_setting_get_float_elem ks j) (config_setting_get_float_elem vs j))
                 [0..<config_setting_length ks] []) opt)
         else Inl (Fatal ''Map datatype not supported!'')))"

definition read_value :: "spimage \<Rightarrow> content \<Rightarrow> string \<Rightarrow> content \<Rightarrow> metadata \<Rightarrow> options \<Rightarrow> options result" where
  "read_value sp t path c m opt =
     (let ty = variable_type m in
      if is_string_type ty then read_string t path m opt
      else if ty = Type_Int then store_int (variable_address m) (config_lookup_int t path) opt
      else if ty = Type_Real then read_real t path c m opt
      else if ty = Type_Vector_Real \<or> ty = Type_Vector_Int then read_vector c m opt
      else if ty = Type_Bool then read_bool t path c m opt
      else if ty = Type_MultipleChoice then read_choice t path m opt
      else if ty = Type_Map_Real then read_map sp c m opt
      else Inl (Fatal ''Variable type not yet supported!''))"

definition readable :: "metadata \<Rightarrow> bool" where
  "readable m \<longleftrightarrow> variable_type m \<noteq> Type_Group \<and> isSettableBeforeRun \<in> set (variable_properties m)"

definition read_option :: "spimage \<Rightarrow> metadata list \<Rightarrow> content \<Rightarrow> metadata \<Rightarrow> options \<Rightarrow> options result" where
  "read_option sp tab t m opt =
     (if readable m then
        bind_result (get_path tab m) (\<lambda>path.
          case lookup_setting t path of
            None \<Rightarrow> Inr opt
          | Some c \<Rightarrow> read_value sp t path c m opt)
      else Inr opt)"

text \<open>\<open>parse\<close> is the library's reading of a file, \<open>None\<close> for an error in it.\<close>

definition read_options_file ::
  "spimage \<Rightarrow> metadata list \<Rightarrow> (string \<Rightarrow> content option) \<Rightarrow> string \<Rightarrow> options \<Rightarrow> options result" where
  "read_options_file sp tab parse filename opt =
     (case parse filename of
        None \<Rightarrow> Inl (Fatal ''Error parsing'')
      | Some t \<Rightarrow> fold_result (read_option sp tab t) tab opt)"

section \<open>Writing\<close>

text \<open>
  The groups are created in passes over the table until none is missing; a result of
  \<open>config_setting_add\<close> that is not looked at is dropped.  The loop ends when the count
  \<open>n_groups\<close> reaches 0.  Running out of passes is \<open>Inr None\<close>.
\<close>

definition is_group_entry :: "metadata \<Rightarrow> bool" where
  "is_group_entry m \<longleftrightarrow> variable_type m = Type_Group \<and> variable_id m \<noteq> Id_Root"

definition add_dropped :: "handle \<Rightarrow> string \<Rightarrow> config_type \<Rightarrow> content \<Rightarrow> content" where
  "add_dropped h name ty t = (case config_setting_add t h (Some name) ty of None \<Rightarrow> t | Some (t', _) \<Rightarrow> t')"

definition parent_entry :: "metadata list \<Rightarrow> metadata \<Rightarrow> metadata result" where
  "parent_entry tab m = bind_result (deref (parent m)) (\<lambda>i. array_get tab (int i))"

definition create_group :: "metadata list \<Rightarrow> metadata \<Rightarrow> content \<times> int \<Rightarrow> (content \<times> int) result" where
  "create_group tab m = (\<lambda>(t, n).
     if is_group_entry m \<and> config_lookup t (variable_name m) = None then
       bind_result (parent_entry tab m) (\<lambda>pm.
       bind_result (get_config_type (variable_type m)) (\<lambda>ty.
         let (t, n) =
           (case config_lookup t (variable_name pm) of
              None \<Rightarrow> (t, n)
            | Some s \<Rightarrow> (add_dropped s (variable_name m) ty t, n - 1)) in
         Inr (if variable_id pm = Id_Root then (add_dropped [] (variable_name m) ty t, n - 1) else (t, n))))
     else Inr (t, n))"

definition groups_missing :: "content \<times> int \<Rightarrow> bool" where
  "groups_missing s \<longleftrightarrow> snd s \<noteq> 0"

fun create_groups :: "nat \<Rightarrow> metadata list \<Rightarrow> content \<times> int \<Rightarrow> (content \<times> int) option result" where
  "create_groups n tab s =
     (if groups_missing s then
        (case n of
           0 \<Rightarrow> Inr None
         | Suc m \<Rightarrow> bind_result (fold_result (create_group tab) tab s) (create_groups m tab))
      else Inr (Some s))"

declare create_groups.simps [simp del]

text \<open>The setters whose result is dropped, and the elements appended to an array.\<close>

definition set_dropped :: "handle \<Rightarrow> (content \<Rightarrow> content option) \<Rightarrow> content \<Rightarrow> content" where
  "set_dropped h f t = (case set_through t h f of None \<Rightarrow> t | Some t' \<Rightarrow> t')"

definition append_floats :: "handle \<Rightarrow> real list \<Rightarrow> content \<Rightarrow> content" where
  "append_floats h = fold (\<lambda>x t. case config_setting_set_float_elem t h (-1) x of None \<Rightarrow> t | Some (t', _) \<Rightarrow> t')"

definition append_ints :: "handle \<Rightarrow> int list \<Rightarrow> content \<Rightarrow> content" where
  "append_ints h = fold (\<lambda>x t. case config_setting_set_int_elem t h (-1) x of None \<Rightarrow> t | Some (t', _) \<Rightarrow> t')"

fun choice_name :: "(int \<times> string) list \<Rightarrow> int \<Rightarrow> string option" where
  "choice_name [] i = None"
| "choice_name ((v, n) # vs) i = (if i = v then Some n else choice_name vs i)"

text \<open>
  The two arrays of a map are added to the list \<open>s\<close>, where they lose their names \<open>keys\<close> and
  \<open>values\<close>.  Asking the library for the keys of a null map is a fault.
\<close>

definition write_map :: "handle \<Rightarrow> sp_smap option \<Rightarrow> content \<Rightarrow> content result" where
  "write_map s smap t =
     bind_result (deref (config_setting_add t s (Some ''keys'') CONFIG_TYPE_ARRAY)) (\<lambda>(t, ks).
     bind_result (deref smap) (\<lambda>smap.
       let t = append_floats ks (sp_smap_get_keys smap) t in
     bind_result (deref (config_setting_add t s (Some ''values'') CONFIG_TYPE_ARRAY)) (\<lambda>(t, vs).
       Inr (append_floats vs (sp_smap_get_values smap) t))))"

definition write_value :: "metadata \<Rightarrow> options \<Rightarrow> handle \<Rightarrow> content \<Rightarrow> content result" where
  "write_value m opt s t =
     (let ty = variable_type m; a = variable_address m in
      if is_string_type ty then
        bind_result (load_string a opt) (\<lambda>v. Inr (set_dropped s (\<lambda>c. config_setting_set_string c (Some v)) t))
      else if ty = Type_Int then
        bind_result (load_int a opt) (\<lambda>v. Inr (set_dropped s (\<lambda>c. config_setting_set_int c v) t))
      else if ty = Type_Vector_Real then
        bind_result (load_vector a opt) (\<lambda>v. Inr (case v of None \<Rightarrow> t | Some xs \<Rightarrow> append_floats s xs t))
      else if ty = Type_Vector_Int then
        bind_result (load_vector a opt) (\<lambda>v.
          Inr (case v of None \<Rightarrow> t | Some xs \<Rightarrow> append_ints s (map c_int_of_real xs) t))
      else if ty = Type_Bool then
        bind_result (load_int a opt) (\<lambda>v. Inr (set_dropped s (\<lambda>c. config_setting_set_bool c v) t))
      else if ty = Type_Real then
        bind_result (load_real a opt) (\<lambda>v. Inr (set_dropped s (\<lambda>c. config_setting_set_float c v) t))
      else if ty = Type_MultipleChoice then
        bind_result (load_int a opt) (\<lambda>v.
          case choice_name (list_valid m) v of
            None \<Rightarrow> Inl (Fatal ''Error invalid list value'')
          | Some n \<Rightarrow> Inr (set_dropped s (\<lambda>c. config_setting_set_string c (Some n)) t))
      else if ty = Type_Map_Real then
        bind_result (load_map a opt) (\<lambda>v. write_map s v t)
      else Inl (Fatal ''Variable type not yet supported!''))"

definition written :: "metadata \<Rightarrow> bool" where
  "written m \<longleftrightarrow> readable m \<and> deprecated \<notin> set (variable_properties m)"

definition write_option :: "metadata list \<Rightarrow> options \<Rightarrow> metadata \<Rightarrow> content \<Rightarrow> content result" where
  "write_option tab opt m t =
     (if written m then
        bind_result (parent_entry tab m) (\<lambda>pm.
          case (if variable_id pm = Id_Root then Some [] else config_lookup t (variable_name pm)) of
            None \<Rightarrow> Inl (Fatal ''Could not find parent of'')
          | Some h \<Rightarrow>
              bind_result (get_config_type (variable_type m)) (\<lambda>ty.
                case config_setting_add t h (Some (variable_name m)) ty of
                  None \<Rightarrow> Inl (Fatal ''Could not add config setting'')
                | Some (t', s) \<Rightarrow> write_value m opt s t'))
      else Inr t)"

definition write_options_file :: "nat \<Rightarrow> metadata list \<Rightarrow> options \<Rightarrow> content option result" where
  "write_options_file passes tab opt =
     bind_result (create_groups passes tab (C_Group [], int (length (filter is_group_entry tab)))) (\<lambda>r.
       case r of
         None \<Rightarrow> Inr None
       | Some (t, n) \<Rightarrow> bind_result (fold_result (write_option tab opt) tab t) (\<lambda>t'. Inr (Some t')))"

section \<open>What is written for an option\<close>

text \<open>The setting that stands for the value of an option, or the fault of reading the field.\<close>

definition float_elements :: "real list \<Rightarrow> setting list" where
  "float_elements = map (\<lambda>x. Setting None (C_Float x))"

definition int_elements :: "int list \<Rightarrow> setting list" where
  "int_elements = map (\<lambda>x. Setting None (C_Int x))"

definition map_content :: "sp_smap \<Rightarrow> content" where
  "map_content smap = C_List
     [Setting None (C_Array (float_elements (sp_smap_get_keys smap))),
      Setting None (C_Array (float_elements (sp_smap_get_values smap)))]"

definition saved_value :: "metadata \<Rightarrow> options \<Rightarrow> content result" where
  "saved_value m opt =
     (let ty = variable_type m; a = variable_address m in
      if is_string_type ty then bind_result (load_string a opt) (\<lambda>v. Inr (C_String (Some v)))
      else if ty = Type_Int then bind_result (load_int a opt) (\<lambda>v. Inr (C_Int v))
      else if ty = Type_Vector_Real then
        bind_result (load_vector a opt) (\<lambda>v. Inr (C_Array (case v of None \<Rightarrow> [] | Some xs \<Rightarrow> float_elements xs)))
      else if ty = Type_Vector_Int then
        bind_result (load_vector a opt) (\<lambda>v.
          Inr (C_Array (case v of None \<Rightarrow> [] | Some xs \<Rightarrow> int_elements (map c_int_of_real xs))))
      else if ty = Type_Bool then bind_result (load_int a opt) (\<lambda>v. Inr (C_Bool v))
      else if ty = Type_Real then bind_result (load_real a opt) (\<lambda>v. Inr (C_Float v))
      else if ty = Type_MultipleChoice then
        bind_result (load_int a opt) (\<lambda>v.
          case choice_name (list_valid m) v of
            None \<Rightarrow> Inl (Fatal ''Error invalid list value'')
          | Some n \<Rightarrow> Inr (C_String (Some n)))
      else if ty = Type_Map_Real then
        bind_result (load_map a opt) (\<lambda>v. bind_result (deref v) (\<lambda>smap. Inr (map_content smap)))
      else Inl (Fatal ''Variable type not yet supported!''))"

lemma set_dropped_value:
  "node t s = Some c \<Longrightarrow> f c = Some v \<Longrightarrow> set_dropped s f t = update s (\<lambda>_. v) t"
  by (simp add: set_dropped_def set_through_def)

lemma append_elements:
  assumes fits: "\<And>x. f x (zeroed ty) = Some (g x)" "\<And>x. config_setting_type (g x) = ty"
  shows "node t h = Some (C_Array (map (\<lambda>x. Setting None (g x)) xs)) \<Longrightarrow>
    fold (\<lambda>x t. case set_elem t h (-1) ty (f x) of None \<Rightarrow> t | Some (t', _) \<Rightarrow> t') ys t
      = update h (\<lambda>_. C_Array (map (\<lambda>x. Setting None (g x)) (xs @ ys))) t"
proof (induction ys arbitrary: xs t)
  case (Cons y ys)
  have "config_vector_checktype (C_Array (map (\<lambda>x. Setting None (g x)) xs)) ty"
    by (cases xs) (simp_all add: config_vector_checktype_def fits)
  then have "set_elem t h (-1) ty (f y)
      = Some (update h (\<lambda>_. C_Array (map (\<lambda>x. Setting None (g x)) (xs @ [y]))) t, h @ [length xs])"
    using set_elem_appends [OF Cons.prems] by (simp add: fits)
  then show ?case
    using Cons.prems by (simp add: Cons.IH [of _ "xs @ [y]"])
qed simp

lemma append_floats_value:
  "node t h = Some (C_Array []) \<Longrightarrow> append_floats h ys t = update h (\<lambda>_. C_Array (float_elements ys)) t"
  using append_elements [of "\<lambda>x c. config_setting_set_float c x" CONFIG_TYPE_FLOAT C_Float t h "[]" ys]
  by (simp add: append_floats_def config_setting_set_float_elem_def config_setting_set_float_def float_elements_def)

lemma append_ints_value:
  "node t h = Some (C_Array []) \<Longrightarrow> append_ints h ys t = update h (\<lambda>_. C_Array (int_elements ys)) t"
  using append_elements [of "\<lambda>x c. config_setting_set_int c x" CONFIG_TYPE_INT C_Int t h "[]" ys]
  by (simp add: append_ints_def config_setting_set_int_elem_def config_setting_set_int_def int_elements_def)

lemma write_map_value:
  assumes "node t s = Some (C_List [])"
  shows "write_map s smap t = bind_result (deref smap) (\<lambda>smap. Inr (update s (\<lambda>_. map_content smap) t))"
proof (cases smap)
  case (Some m)
  define K V where "K = float_elements (sp_smap_get_keys m)" and "V = float_elements (sp_smap_get_values m)"
  define t1 where "t1 = update s (\<lambda>_. C_List [Setting None (C_Array [])]) t"
  define t2 where "t2 = update s (\<lambda>_. C_List [Setting None (C_Array K)]) t"
  define t3 where "t3 = update s (\<lambda>_. C_List [Setting None (C_Array K), Setting None (C_Array [])]) t"
  have add1: "config_setting_add t s (Some ''keys'') CONFIG_TYPE_ARRAY = Some (t1, s @ [0])"
    using add_to_list [OF assms, of "Some ''keys''" CONFIG_TYPE_ARRAY] by (simp add: t1_def)
  have "node t1 (s @ [0]) = Some (C_Array [])"
    using assms by (simp add: t1_def node_append)
  then have keys: "append_floats (s @ [0]) (sp_smap_get_keys m) t1 = t2"
    by (simp add: append_floats_value K_def [symmetric] t1_def t2_def update_append)
  have add2: "config_setting_add t2 s (Some ''values'') CONFIG_TYPE_ARRAY = Some (t3, s @ [1])"
    using assms add_to_list [of t2 s "[Setting None (C_Array K)]" "Some ''values''" CONFIG_TYPE_ARRAY]
    by (simp add: t2_def t3_def)
  have "node t3 (s @ [1]) = Some (C_Array [])"
    using assms by (simp add: t3_def node_append)
  then have "append_floats (s @ [1]) (sp_smap_get_values m) t3 = update s (\<lambda>_. map_content m) t"
    by (simp add: append_floats_value V_def [symmetric] t3_def update_append map_content_def K_def)
  then show ?thesis
    using Some add1 keys add2 by (simp add: write_map_def)
qed (use add_to_list [OF assms] in \<open>simp add: write_map_def\<close>)

lemma write_value_saves:
  assumes "get_config_type (variable_type m) = Inr ty" and "node t s = Some (zeroed ty)"
  shows "write_value m opt s t = bind_result (saved_value m opt) (\<lambda>v. Inr (update s (\<lambda>_. v) t))"
proof -
  note writers = set_dropped_value config_setting_set_string_def config_setting_set_int_def
    config_setting_set_bool_def config_setting_set_float_def append_floats_value append_ints_value write_map_value
  show ?thesis
    using assms
    by (cases "variable_type m")
       (auto simp: write_value_def saved_value_def is_string_type_def writers bind_result_def Let_def
        split: sum.splits option.splits)
qed

section \<open>The interface: a store of values by path\<close>

text \<open>
  What the writer needs of the tree: a new value put under a new path extends the map the
  store stands for, and what makes an item ready for being put lasts while the map grows.
  \<open>pending\<close> counts what is still to be put, \<open>step\<close> by \<open>step\<close>.  From this follows, once
  for the groups and once for the options, what a pass over a list of items does.
\<close>

locale path_map =
  fixes view :: "'t \<Rightarrow> 'k \<Rightarrow> 'v option" and put :: "'e \<Rightarrow> 't \<Rightarrow> 't result" and path :: "'e \<Rightarrow> 'k"
    and val :: "'e \<Rightarrow> 'v" and ready :: "'t \<Rightarrow> 'e \<Rightarrow> bool" and pending :: "'t \<Rightarrow> int" and step :: int
  assumes put_new: "ready t e \<Longrightarrow> view t (path e) = None \<Longrightarrow>
      \<exists>t'. put e t = Inr t' \<and> view t' = (view t)(path e \<mapsto> val e) \<and> pending t' = pending t - step"
    and ready_stays: "ready t e \<Longrightarrow> ready t e' \<Longrightarrow> view t (path e') = None \<Longrightarrow>
      view t' = (view t)(path e' \<mapsto> val e') \<Longrightarrow> ready t' e"
begin

lemma put_all:
  "distinct (map path es) \<Longrightarrow> (\<forall>e \<in> set es. ready t e \<and> view t (path e) = None) \<Longrightarrow>
   \<exists>t'. fold_result put es t = Inr t' \<and> view t' = view t ++ map_of (map (\<lambda>e. (path e, val e)) es)
     \<and> pending t' = pending t - step * int (length es)"
proof (induction es arbitrary: t)
  case (Cons e es)
  from Cons.prems(2) put_new [of t e] obtain t1 where put: "put e t = Inr t1"
    and view1: "view t1 = (view t)(path e \<mapsto> val e)" and pending1: "pending t1 = pending t - step" by auto
  have fresh: "path e \<notin> path ` set es" using Cons.prems(1) by auto
  moreover have "\<forall>e' \<in> set es. ready t1 e' \<and> view t1 (path e') = None"
  proof
    fix e' assume e': "e' \<in> set es"
    then have "path e' \<noteq> path e" using fresh by (metis imageI)
    moreover have "ready t1 e'"
      using ready_stays [of t e' e t1] Cons.prems(2) e' view1 by simp
    ultimately show "ready t1 e' \<and> view t1 (path e') = None"
      using Cons.prems(2) e' by (simp add: view1)
  qed
  ultimately obtain t' where "fold_result put es t1 = Inr t'"
    and "view t' = view t1 ++ map_of (map (\<lambda>e. (path e, val e)) es)"
    and "pending t' = pending t1 - step * int (length es)"
    using Cons.IH [of t1] Cons.prems(1) by auto
  moreover have "path e \<notin> dom (map_of (map (\<lambda>e. (path e, val e)) es))"
    using fresh by (simp add: dom_map_of_conv_image_fst image_image)
  ultimately show ?case
    by (auto simp: put view1 pending1 map_add_def fun_eq_iff algebra_simps split: option.splits)
qed simp

end

section \<open>Tables the writer can handle\<close>

text \<open>
  The paths of the tree an option is kept under, and the conditions on a table: every
  parent is the root or a group of the root, names are plain and short, the paths of the
  groups and of the written options are distinct, a readable option that is not written
  has none of these paths, and the address, type and choices of a written option fit.
\<close>

definition under_root :: "metadata list \<Rightarrow> metadata \<Rightarrow> bool" where
  "under_root tab m \<longleftrightarrow> (case parent_entry tab m of Inl _ \<Rightarrow> False | Inr pm \<Rightarrow> variable_id pm = Id_Root)"

definition option_path :: "metadata list \<Rightarrow> metadata \<Rightarrow> string list" where
  "option_path tab m =
     (case parent_entry tab m of
        Inl _ \<Rightarrow> []
      | Inr pm \<Rightarrow> if variable_id pm = Id_Root then [variable_name m] else [variable_name pm, variable_name m])"

definition in_tree :: "metadata \<Rightarrow> bool" where
  "in_tree m \<longleftrightarrow> is_group_entry m \<or> written m"

definition entry_placed :: "metadata list \<Rightarrow> metadata \<Rightarrow> bool" where
  "entry_placed tab m \<longleftrightarrow>
     plain (variable_name m) \<and> length (variable_name m) < 5000
     \<and> (case parent_entry tab m of
          Inl _ \<Rightarrow> False
        | Inr pm \<Rightarrow> variable_id pm = Id_Root
            \<or> is_group_entry pm \<and> under_root tab pm \<and> plain (variable_name pm) \<and> length (variable_name pm) < 5000)"

fun address_fits :: "variable_type \<Rightarrow> address \<Rightarrow> bool" where
  "address_fits ty (A_Real _) = (ty = Type_Real)"
| "address_fits ty (A_Int _) = (ty \<in> {Type_Int, Type_Bool, Type_MultipleChoice})"
| "address_fits ty (A_String _) = is_string_type ty"
| "address_fits ty (A_Vector _) = (ty \<in> {Type_Vector_Real, Type_Vector_Int})"
| "address_fits ty (A_Map _) = (ty = Type_Map_Real)"
| "address_fits ty _ = False"

definition choices_fit :: "metadata \<Rightarrow> bool" where
  "choices_fit m \<longleftrightarrow>
     distinct (map snd (list_valid m))
     \<and> list_all (\<lambda>(v, n). map to_lower n = n \<and> length n < option_string_size) (list_valid m)"

definition is_vector_type :: "variable_type \<Rightarrow> bool" where
  "is_vector_type ty \<longleftrightarrow> ty \<in> {Type_Vector_Real, Type_Vector_Int}"

definition places_fit :: "metadata list \<Rightarrow> metadata list \<Rightarrow> bool" where
  "places_fit tab es \<longleftrightarrow>
     list_all (\<lambda>m. variable_id m = Id_Root \<or> entry_placed tab m) es
     \<and> list_all (\<lambda>m. is_group_entry m \<longrightarrow> under_root tab m) es
     \<and> list_all (\<lambda>r. variable_id r = Id_Root \<longrightarrow> variable_type r = Type_Group \<and> variable_name r = ''ROOT'') es"

definition values_fit :: "metadata list \<Rightarrow> bool" where
  "values_fit es \<longleftrightarrow>
     list_all (\<lambda>m. written m \<longrightarrow>
       address_fits (variable_type m) (variable_address m) \<and> \<not> is_vector_type (variable_type m)
       \<and> (variable_type m = Type_MultipleChoice \<longrightarrow> choices_fit m)) es"

definition paths_fit :: "string list list \<Rightarrow> string list list \<Rightarrow> bool" where
  "paths_fit inside outside \<longleftrightarrow>
     distinct inside \<and> [''ROOT''] \<notin> set inside \<and> list_all (\<lambda>p. p \<notin> set inside) outside"

definition table_fits :: "metadata list \<Rightarrow> bool" where
  "table_fits tab \<longleftrightarrow>
     places_fit tab tab \<and> values_fit tab
     \<and> paths_fit (map (option_path tab) (filter in_tree tab))
         (map (option_path tab) (filter (\<lambda>m. readable m \<and> \<not> written m) tab))"

section \<open>Writing is putting paths\<close>

lemma path_keys_one: "plain n \<Longrightarrow> path_keys n = [n]"
  and path_keys_two: "plain n \<Longrightarrow> plain n' \<Longrightarrow> path_keys (n @ CHR ''.'' # n') = [n, n']"
  by (simp_all add: path_keys_plain path_keys_dot)

lemma group_at:
  assumes "view t ks = Some (C_Group [])"
  obtains h ss where "locate t ks = Some h" and "node t h = Some (C_Group ss)"
proof -
  from assms obtain h where h: "locate t ks = Some h" using view_locate [of t ks] by fastforce
  then obtain d where d: "node t h = Some d" and "Some (C_Group []) = Some (shape d)"
    using node_locate [OF h, of "[]"] assms by auto
  then obtain ss where "d = C_Group ss" by (cases d) (auto simp: shape_def)
  with h d that show thesis by blast
qed

lemma saved_value_kinds:
  assumes "saved_value m opt = Inr v"
  obtains ty where "get_config_type (variable_type m) = Inr ty" and "\<not> is_group (zeroed ty)" and "\<not> is_group v"
  using assms
  by (cases "variable_type m")
     (auto simp: saved_value_def is_string_type_def is_group_def map_content_def split: option.splits)

definition writer_ready :: "metadata list \<Rightarrow> options \<Rightarrow> content \<Rightarrow> metadata \<Rightarrow> bool" where
  "writer_ready tab opt t m \<longleftrightarrow>
     written m \<and> entry_placed tab m \<and> (\<exists>v. saved_value m opt = Inr v)
     \<and> view t (butlast (option_path tab m)) = Some (C_Group [])"

lemma entry_placed_cases:
  assumes "entry_placed tab m"
  obtains (root) pm where "parent_entry tab m = Inr pm" "variable_id pm = Id_Root"
      "option_path tab m = [variable_name m]" "plain (variable_name m)" "length (variable_name m) < 5000"
  | (group) pm where "parent_entry tab m = Inr pm" "variable_id pm \<noteq> Id_Root" "under_root tab pm"
      "option_path tab m = [variable_name pm, variable_name m]" "plain (variable_name pm)"
      "plain (variable_name m)" "length (variable_name m) < 5000" "length (variable_name pm) < 5000"
  using assms by (fastforce simp: entry_placed_def option_path_def split: sum.splits)

lemma locate_nonempty_view: "view t (k # ks) = Some c \<Longrightarrow> view t [] = Some (C_Group [])"
  by (cases t) (auto simp: member_at_def shape_def split: option.splits)

lemma write_option_saves:
  assumes "written m" and placed: "entry_placed tab m" and "view t (butlast (option_path tab m)) = Some (C_Group [])"
    and "view t (option_path tab m) = None" and ty: "get_config_type (variable_type m) = Inr ty"
  shows "\<exists>t1 s. write_option tab opt m t = bind_result (saved_value m opt) (\<lambda>v. Inr (update s (\<lambda>_. v) t1))
    \<and> locate t1 (option_path tab m) = Some s \<and> node t1 s = Some (zeroed ty)
    \<and> view t1 = (view t)(option_path tab m \<mapsto> zeroed ty)"
proof -
  define ks n where "ks = butlast (option_path tab m)" and "n = variable_name m"
  from group_at [OF assms(3)] obtain h ss where h: "locate t ks = Some h" "node t h = Some (C_Group ss)"
    unfolding ks_def .
  from placed have plain: "plain n" and path: "option_path tab m = ks @ [n]"
    and parent: "\<exists>pm. parent_entry tab m = Inr pm
      \<and> (if variable_id pm = Id_Root then Some [] else config_lookup t (variable_name pm)) = Some h"
    using h(1) by (cases rule: entry_placed_cases; auto simp: ks_def n_def config_lookup_locates path_keys_one)+
  from add_to_group [OF h plain] assms(4) obtain t1 s where
    add: "config_setting_add t h (Some n) ty = Some (t1, s)" and loc: "locate t1 (ks @ [n]) = Some s"
    and nod: "node t1 s = Some (zeroed ty)" and view1: "view t1 = (view t)(ks @ [n] \<mapsto> zeroed ty)"
    unfolding path by blast
  have "write_option tab opt m t = bind_result (saved_value m opt) (\<lambda>v. Inr (update s (\<lambda>_. v) t1))"
    using parent \<open>written m\<close> add write_value_saves [OF ty nod, of opt]
    by (auto simp: write_option_def n_def ty)
  with loc nod view1 show ?thesis unfolding path by blast
qed

lemma write_option_puts:
  assumes "writer_ready tab opt t m" and "view t (option_path tab m) = None"
  shows "\<exists>t'. write_option tab opt m t = Inr t'
    \<and> view t' = (view t)(option_path tab m \<mapsto> projr (saved_value m opt))"
proof -
  from assms(1) obtain v where v: "saved_value m opt = Inr v" by (auto simp: writer_ready_def)
  from saved_value_kinds [OF v] obtain ty where ty: "get_config_type (variable_type m) = Inr ty"
    and kinds: "\<not> is_group (zeroed ty)" "\<not> is_group v" .
  obtain t1 s where result: "write_option tab opt m t = Inr (update s (\<lambda>_. v) t1)"
    and at: "locate t1 (option_path tab m) = Some s" "node t1 s = Some (zeroed ty)"
    and view1: "view t1 = (view t)(option_path tab m \<mapsto> zeroed ty)"
    using write_option_saves [OF _ _ _ assms(2) ty, of opt] assms(1) by (auto simp: writer_ready_def v)
  have "view (update s (\<lambda>_. v) t1) = (view t)(option_path tab m \<mapsto> v)"
    using view_update_value [OF at kinds(1), of "\<lambda>_. v"] kinds(2) by (simp add: view1)
  then show ?thesis using result by (simp add: v)
qed

interpretation writer: path_map view "write_option tab opt" "option_path tab"
    "\<lambda>m. projr (saved_value m opt)" "writer_ready tab opt" "\<lambda>_. 0" 0 for tab opt
proof unfold_locales
  fix t m m' t'
  assume "writer_ready tab opt t m" and "view t (option_path tab m') = None"
    and "view t' = (view t)(option_path tab m' \<mapsto> projr (saved_value m' opt))"
  then show "writer_ready tab opt t' m" by (auto simp: writer_ready_def)
qed (use write_option_puts in auto)

text \<open>The same for the groups, each pass of the table counting those it creates.\<close>

definition group_ready :: "metadata list \<Rightarrow> content \<times> int \<Rightarrow> metadata \<Rightarrow> bool" where
  "group_ready tab s m \<longleftrightarrow>
     is_group_entry m \<and> entry_placed tab m \<and> under_root tab m \<and> variable_name m \<noteq> ''ROOT''
     \<and> (\<forall>pm. parent_entry tab m = Inr pm \<longrightarrow> variable_name pm = ''ROOT'')
     \<and> view (fst s) [] = Some (C_Group []) \<and> view (fst s) [''ROOT''] = None"

lemma plain_ROOT: "plain ''ROOT''"
  by (simp add: plain_def)

lemma lookup_plain_None: "plain n \<Longrightarrow> config_lookup t n = None \<longleftrightarrow> view t [n] = None"
  using view_locate [of t "[n]"] by (simp only: config_lookup_locates path_keys_one)

lemma create_group_puts:
  assumes "group_ready tab s m" and "view (fst s) (option_path tab m) = None"
  shows "\<exists>s'. create_group tab m s = Inr s'
    \<and> view (fst s') = (view (fst s))(option_path tab m \<mapsto> C_Group []) \<and> snd s' = snd s - 1"
proof -
  obtain t n where s: "s = (t, n)" by (cases s)
  from assms(1) obtain pm where parent: "parent_entry tab m = Inr pm" "variable_id pm = Id_Root"
      "variable_name pm = ''ROOT''" and group: "is_group_entry m" "variable_type m = Type_Group"
    by (auto simp: group_ready_def under_root_def is_group_entry_def split: sum.splits)
  have plain: "plain (variable_name m)" using assms(1) by (simp add: group_ready_def entry_placed_def)
  have path: "option_path tab m = [variable_name m]" using parent by (simp add: option_path_def)
  have new: "config_lookup t (variable_name m) = None" and root: "config_lookup t ''ROOT'' = None"
    using assms plain_ROOT by (simp_all only: lookup_plain_None plain path s group_ready_def fst_conv)
  from group_at [of t "[]"] assms(1) obtain h ss where h: "locate t [] = Some h" "node t h = Some (C_Group ss)"
    by (auto simp: group_ready_def s)
  then have "h = []" by simp
  from add_to_group [OF h plain, of CONFIG_TYPE_GROUP] assms(2) obtain t' where
    "config_setting_add t h (Some (variable_name m)) CONFIG_TYPE_GROUP = Some (t', h @ [length ss])"
    and "view t' = (view t)(option_path tab m \<mapsto> C_Group [])"
    by (auto simp: path s)
  then show ?thesis
    using group new root parent by (auto simp: s create_group_def add_dropped_def \<open>h = []\<close>)
qed

interpretation groups: path_map "\<lambda>s. view (fst s)" "create_group tab" "option_path tab"
    "\<lambda>_. C_Group []" "group_ready tab" snd 1 for tab
proof unfold_locales
  fix s s' :: "content \<times> int" and m m'
  assume "group_ready tab s m" and "group_ready tab s m'"
    and "view (fst s') = (view (fst s))(option_path tab m' \<mapsto> C_Group [])"
  then show "group_ready tab s' m"
    by (auto simp: group_ready_def option_path_def under_root_def split: sum.splits)
qed (use create_group_puts in auto)

lemma create_group_skips: "\<not> is_group_entry m \<Longrightarrow> create_group tab m s = Inr s"
  by (cases s) (simp add: create_group_def)

lemma write_option_skips: "\<not> written m \<Longrightarrow> write_option tab opt m t = Inr t"
  by (simp add: write_option_def)

text \<open>The map of the tree that is written.\<close>

definition written_map :: "metadata list \<Rightarrow> options \<Rightarrow> string list \<Rightarrow> content option" where
  "written_map tab opt =
     [[] \<mapsto> C_Group []]
     ++ map_of (map (\<lambda>m. (option_path tab m, C_Group [])) (filter is_group_entry tab))
     ++ map_of (map (\<lambda>m. (option_path tab m, projr (saved_value m opt))) (filter written tab))"

lemma parent_in_table: "parent_entry tab m = Inr pm \<Longrightarrow> pm \<in> set tab"
  by (auto simp: parent_entry_def array_get_def deref_def split: option.splits if_splits)

lemma group_not_written: "is_group_entry m \<Longrightarrow> \<not> written m"
  by (auto simp: is_group_entry_def written_def readable_def)

lemma table_fitsD:
  assumes "table_fits tab" and "m \<in> set tab"
  shows "variable_id m \<noteq> Id_Root \<Longrightarrow> entry_placed tab m"
    and "is_group_entry m \<Longrightarrow> entry_placed tab m \<and> under_root tab m"
    and "in_tree m \<Longrightarrow> [''ROOT''] \<noteq> option_path tab m"
    and "variable_id m = Id_Root \<Longrightarrow> variable_name m = ''ROOT'' \<and> variable_type m = Type_Group"
    and "readable m \<Longrightarrow> \<not> written m \<Longrightarrow> m' \<in> set tab \<Longrightarrow> in_tree m' \<Longrightarrow> option_path tab m \<noteq> option_path tab m'"
    and "readable m \<Longrightarrow> entry_placed tab m"
  using assms
  by (auto simp: table_fits_def places_fit_def paths_fit_def list_all_iff is_group_entry_def readable_def)

lemma table_paths_distinct:
  assumes "table_fits tab"
  shows "distinct (map (option_path tab) (filter is_group_entry tab))"
    and "distinct (map (option_path tab) (filter written tab))"
    and "m \<in> set tab \<Longrightarrow> m' \<in> set tab \<Longrightarrow> written m \<Longrightarrow> is_group_entry m' \<Longrightarrow>
      option_path tab m \<noteq> option_path tab m'"
proof -
  have dist: "distinct (map (option_path tab) (filter in_tree tab))"
    using assms by (simp add: table_fits_def paths_fit_def)
  have sub: "distinct (map (option_path tab) (filter P tab))" if "\<And>m. P m \<Longrightarrow> in_tree m" for P
  proof -
    have "filter P tab = filter P (filter in_tree tab)" using that by (auto intro: filter_cong)
    then show ?thesis using dist by (simp only: distinct_map_filter)
  qed
  show "distinct (map (option_path tab) (filter is_group_entry tab))"
    and "distinct (map (option_path tab) (filter written tab))"
    by (auto intro!: sub simp: in_tree_def)
  show "option_path tab m \<noteq> option_path tab m'"
    if "m \<in> set tab" "m' \<in> set tab" "written m" "is_group_entry m'"
    using that dist group_not_written [of m'] by (force simp: distinct_map in_tree_def dest: inj_onD)
qed

lemma groups_created:
  assumes fits: "table_fits tab" and "0 < passes"
  shows "\<exists>t. create_groups passes tab (C_Group [], int (length (filter is_group_entry tab))) = Inr (Some (t, 0))
    \<and> view t = [[] \<mapsto> C_Group []] ++ map_of (map (\<lambda>m. (option_path tab m, C_Group [])) (filter is_group_entry tab))"
proof -
  define es start where "es = filter is_group_entry tab" and "start = (C_Group [], int (length es))"
  have start: "view (fst start) = [[] \<mapsto> C_Group []]"
    using view_zeroed [of CONFIG_TYPE_GROUP] by (auto simp: start_def fun_eq_iff)
  have "group_ready tab start m \<and> view (fst start) (option_path tab m) = None" if m: "m \<in> set es" for m
  proof -
    have m: "m \<in> set tab" "is_group_entry m" using m by (auto simp: es_def)
    note placed = table_fitsD [OF fits m(1)]
    from placed(2) m(2) obtain pm where pm: "parent_entry tab m = Inr pm" "variable_id pm = Id_Root"
      by (auto simp: under_root_def split: sum.splits)
    have path: "option_path tab m = [variable_name m]" using pm by (simp add: option_path_def)
    moreover have "variable_name pm = ''ROOT''"
      using table_fitsD(4) [OF fits parent_in_table [OF pm(1)]] pm(2) by simp
    ultimately show ?thesis
      using placed(2,3) m(2) pm by (simp add: group_ready_def start in_tree_def)
  qed
  then obtain s where s: "fold_result (create_group tab) es start = Inr s"
    and view: "view (fst s) = view (fst start) ++ map_of (map (\<lambda>m. (option_path tab m, C_Group [])) es)"
    and "snd s = snd start - 1 * int (length es)"
    using groups.put_all [of tab es start] table_paths_distinct(1) [OF fits] by (auto simp: es_def)
  then have "snd s = 0" by (simp add: start_def)
  have pass: "fold_result (create_group tab) tab start = Inr s"
    using s fold_result_filter [of is_group_entry "create_group tab" tab start, OF create_group_skips]
    by (simp add: es_def)
  obtain k where k: "passes = Suc k" using assms(2) by (cases passes) auto
  have "create_groups passes tab start = Inr (Some s)"
  proof (cases "es = []")
    case True
    then show ?thesis using s by (auto simp: create_groups.simps groups_missing_def start_def)
  next
    case False
    then have "groups_missing start" by (simp add: groups_missing_def start_def)
    then have "create_groups passes tab start = create_groups k tab s"
      by (simp add: create_groups.simps [of "Suc k"] k pass)
    then show ?thesis using \<open>snd s = 0\<close> by (simp add: create_groups.simps groups_missing_def)
  qed
  then show ?thesis
    using \<open>snd s = 0\<close> view start by (intro exI [of _ "fst s"]) (simp add: start_def es_def prod_eq_iff)
qed

lemma written_map_values:
  assumes fits: "table_fits tab" and m: "m \<in> set tab"
  shows "written m \<Longrightarrow> written_map tab opt (option_path tab m) = Some (projr (saved_value m opt))"
    and "readable m \<Longrightarrow> \<not> written m \<Longrightarrow> written_map tab opt (option_path tab m) = None"
proof -
  assume "written m"
  then have "map_of (map (\<lambda>m. (option_path tab m, projr (saved_value m opt))) (filter written tab)) (option_path tab m)
      = Some (projr (saved_value m opt))"
    using table_paths_distinct(2) [OF fits] m
    by (intro map_of_is_SomeI) (auto simp: comp_def)
  then show "written_map tab opt (option_path tab m) = Some (projr (saved_value m opt))"
    by (simp add: written_map_def map_add_def)
next
  assume r: "readable m" "\<not> written m"
  have "option_path tab m \<noteq> []"
    using table_fitsD(6) [OF fits m r(1)] by (cases rule: entry_placed_cases) auto
  moreover have "\<forall>m' \<in> set tab. is_group_entry m' \<or> written m' \<longrightarrow> option_path tab m \<noteq> option_path tab m'"
    using table_fitsD(5) [OF fits m r] by (auto simp: in_tree_def)
  ultimately show "written_map tab opt (option_path tab m) = None"
    by (auto simp: written_map_def map_add_None map_of_eq_None_iff)
qed

lemma group_views:
  assumes fits: "table_fits tab"
    and view: "view t = [[] \<mapsto> C_Group []] ++ map_of (map (\<lambda>m. (option_path tab m, C_Group [])) (filter is_group_entry tab))"
    and m: "m \<in> set tab" "written m"
  shows "view t (butlast (option_path tab m)) = Some (C_Group [])" and "view t (option_path tab m) = None"
    and "m' \<in> set tab \<Longrightarrow> written m' \<Longrightarrow> butlast (option_path tab m) \<noteq> option_path tab m'"
proof -
  have in_group: "view t (option_path tab g) = Some (C_Group [])" if "g \<in> set tab" "is_group_entry g" for g
  proof -
    have "map_of (map (\<lambda>m. (option_path tab m, C_Group [])) (filter is_group_entry tab)) (option_path tab g)
        = Some (C_Group [])"
      using that table_paths_distinct(1) [OF fits] by (intro map_of_is_SomeI) (auto simp: comp_def)
    then show ?thesis by (simp add: view map_add_def)
  qed
  have placed: "entry_placed tab m'" if "m' \<in> set tab" "written m'" for m'
    using table_fitsD(6) [OF fits that(1)] that(2) by (simp add: written_def)
  have nonempty: "option_path tab m' \<noteq> []" if "m' \<in> set tab" "written m'" for m'
    using placed [OF that] by (cases rule: entry_placed_cases) auto
  have root: "view t [] = Some (C_Group [])"
    using table_fitsD(2) [OF fits] by (auto simp: view map_add_def map_of_eq_None_iff option_path_def under_root_def
        split: option.splits sum.splits dest!: map_of_SomeD)
  have parent: "butlast (option_path tab m) = [] \<or>
      (\<exists>pm \<in> set tab. is_group_entry pm \<and> butlast (option_path tab m) = option_path tab pm)"
    using placed [OF m]
  proof (cases rule: entry_placed_cases)
    case (group pm)
    then have "pm \<in> set tab" and "is_group_entry pm"
      using placed [OF m] parent_in_table [OF group(1)] by (auto simp: entry_placed_def)
    moreover have "option_path tab pm = [variable_name pm]"
      using group(3) by (auto simp: under_root_def option_path_def split: sum.splits)
    ultimately show ?thesis using group(4) by auto
  qed simp
  then show "view t (butlast (option_path tab m)) = Some (C_Group [])" using in_group root by auto
  have "\<forall>m' \<in> set tab. is_group_entry m' \<longrightarrow> option_path tab m \<noteq> option_path tab m'"
    using table_paths_distinct(3) [OF fits m(1) _ m(2)] by blast
  then show "view t (option_path tab m) = None"
    using nonempty [OF m] by (auto simp: view map_add_None map_of_eq_None_iff)
  show "butlast (option_path tab m) \<noteq> option_path tab m'" if "m' \<in> set tab" "written m'"
    using parent nonempty [OF that] table_paths_distinct(3) [OF fits that(1) _ that(2)] by metis
qed

lemma write_options_split:
  assumes fits: "table_fits tab" and tab: "tab = es @ rest" and "0 < passes"
    and saved: "\<And>m. m \<in> set es \<Longrightarrow> written m \<Longrightarrow> \<exists>v. saved_value m opt = Inr v"
  shows "\<exists>t0 t. view t0 = [[] \<mapsto> C_Group []]
        ++ map_of (map (\<lambda>m. (option_path tab m, C_Group [])) (filter is_group_entry tab))
    \<and> view t = view t0 ++ map_of (map (\<lambda>m. (option_path tab m, projr (saved_value m opt))) (filter written es))
    \<and> write_options_file passes tab opt = bind_result (fold_result (write_option tab opt) rest t) (\<lambda>t'. Inr (Some t'))"
proof -
  from groups_created [OF fits assms(3)] obtain t where
    t: "create_groups passes tab (C_Group [], int (length (filter is_group_entry tab))) = Inr (Some (t, 0))"
    and view: "view t = [[] \<mapsto> C_Group []] ++ map_of (map (\<lambda>m. (option_path tab m, C_Group [])) (filter is_group_entry tab))"
    by blast
  have "writer_ready tab opt t m \<and> view t (option_path tab m) = None" if "m \<in> set (filter written es)" for m
  proof -
    from that have m: "m \<in> set tab" "written m" "m \<in> set es" by (auto simp: tab)
    then show ?thesis
      using group_views [OF fits view m(1,2)] table_fitsD(6) [OF fits m(1)] saved [OF m(3,2)]
      by (simp add: writer_ready_def written_def)
  qed
  moreover have "distinct (map (option_path tab) (filter written es))"
    using table_paths_distinct(2) [OF fits] tab by simp
  ultimately obtain t' where t': "fold_result (write_option tab opt) (filter written es) t = Inr t'"
    and "view t' = view t ++ map_of (map (\<lambda>m. (option_path tab m, projr (saved_value m opt))) (filter written es))"
    using writer.put_all [of tab "filter written es" opt t] by auto
  moreover have "fold_result (write_option tab opt) tab t = fold_result (write_option tab opt) rest t'"
    using t' fold_result_filter [of written "write_option tab opt" es t, OF write_option_skips]
    by (simp add: tab fold_result_append)
  ultimately show ?thesis
    using t view by (intro exI [of _ t] exI [of _ t']) (simp add: write_options_file_def)
qed

lemma write_options_map:
  assumes fits: "table_fits tab" and saved: "\<And>m. m \<in> set tab \<Longrightarrow> written m \<Longrightarrow> \<exists>v. saved_value m opt = Inr v"
    and "0 < passes"
  shows "\<exists>t. write_options_file passes tab opt = Inr (Some t) \<and> view t = written_map tab opt"
  using write_options_split [OF fits _ assms(3), of tab "[]" opt] saved by (auto simp: written_map_def)

text \<open>The first option that cannot be saved decides the fault.\<close>

lemma write_options_fault:
  assumes fits: "table_fits tab" and tab: "tab = es @ m # rest" and "0 < passes"
    and saved: "\<And>m. m \<in> set es \<Longrightarrow> written m \<Longrightarrow> \<exists>v. saved_value m opt = Inr v"
    and "written m" and fault: "saved_value m opt = Inl e" and ty: "get_config_type (variable_type m) = Inr ty"
  shows "write_options_file passes tab opt = Inl e"
proof -
  from write_options_split [OF fits tab assms(3) saved] obtain t0 t where
    view0: "view t0 = [[] \<mapsto> C_Group []] ++ map_of (map (\<lambda>m. (option_path tab m, C_Group [])) (filter is_group_entry tab))"
    and view: "view t = view t0 ++ map_of (map (\<lambda>m. (option_path tab m, projr (saved_value m opt))) (filter written es))"
    and result: "write_options_file passes tab opt
      = bind_result (fold_result (write_option tab opt) (m # rest) t) (\<lambda>t'. Inr (Some t'))"
    by blast
  have m: "m \<in> set tab" by (simp add: tab)
  note views = group_views [OF fits view0 m \<open>written m\<close>]
  have "option_path tab m \<notin> option_path tab ` set (filter written es)"
    using table_paths_distinct(2) [OF fits] \<open>written m\<close> by (auto simp: tab)
  moreover have "butlast (option_path tab m) \<notin> option_path tab ` set (filter written es)"
    using views(3) by (force simp: tab)
  ultimately have "view t (option_path tab m) = None" and "view t (butlast (option_path tab m)) = Some (C_Group [])"
    using views(1,2) by (auto simp: view map_add_def map_of_eq_None_iff image_image split: option.splits dest!: map_of_SomeD)
  then have "write_option tab opt m t = Inl e"
    using write_option_saves [OF \<open>written m\<close> _ _ _ ty, of tab t opt] table_fitsD(6) [OF fits m] \<open>written m\<close>
    by (auto simp: fault written_def)
  then show ?thesis by (simp add: result)
qed

section \<open>Reading what was written\<close>

lemma parent_entryD:
  "parent_entry tab m = Inr pm \<Longrightarrow> \<exists>i. parent m = Some i \<and> array_get tab (int i) = Inr pm"
  by (cases "parent m") (auto simp: parent_entry_def)

lemma get_path_keys:
  assumes "entry_placed tab m"
  shows "\<exists>p. get_path tab m = Inr p \<and> path_keys p = option_path tab m"
  using assms
proof (cases rule: entry_placed_cases)
  case (root pm)
  then obtain i where "parent m = Some i" "array_get tab (int i) = Inr pm" using parent_entryD by blast
  then have "get_path tab m = Inr (variable_name m)"
    using root by (simp add: get_path_def path_from.simps [of tab "Some i"] option_string_size_def)
  then show ?thesis using root by (simp add: path_keys_one)
next
  case (group pm)
  from group(1) obtain i where i: "parent m = Some i" "array_get tab (int i) = Inr pm" using parent_entryD by blast
  from group(3) obtain rm j where rm: "parent pm = Some j" "array_get tab (int j) = Inr rm" "variable_id rm = Id_Root"
    using parent_entryD by (fastforce simp: under_root_def split: sum.splits)
  have "get_path tab m = Inr (variable_name pm @ CHR ''.'' # variable_name m)"
    using group i rm
    by (simp add: get_path_def path_from.simps [of tab "Some i"] path_from.simps [of tab "Some j"] option_string_size_def)
  then show ?thesis using group by (simp add: path_keys_two)
qed

text \<open>
  What reading back does to the options: the fields at the given addresses are those that
  were written, but for empty maps, which the reader leaves as they are.
\<close>

definition overlay :: "address set \<Rightarrow> options \<Rightarrow> options \<Rightarrow> options" where
  "overlay A saved opt = opt\<lparr>
     oreal := \<lambda>k. if A_Real k \<in> A then oreal saved k else oreal opt k,
     oint := \<lambda>k. if A_Int k \<in> A then oint saved k else oint opt k,
     ostring := \<lambda>k. if A_String k \<in> A then ostring saved k else ostring opt k,
     omap := \<lambda>k. if A_Map k \<in> A \<and> omap saved k \<noteq> Some [] then omap saved k else omap opt k\<rparr>"

lemma overlay_Un: "overlay A saved (overlay B saved opt) = overlay (A \<union> B) saved opt"
  by (auto simp: overlay_def fun_eq_iff)

lemma overlay_empty [simp]: "overlay {} saved opt = opt"
  by (simp add: overlay_def)

text \<open>
  The fields of the written options that survive the way to the file and back: strings and
  numbers that fit, choices of the list, maps with increasing keys.
\<close>

definition storable :: "metadata \<Rightarrow> options \<Rightarrow> bool" where
  "storable m opt \<longleftrightarrow>
     (case variable_address m of
        A_Int k \<Rightarrow> wrap32 (oint opt k) = oint opt k
          \<and> (variable_type m = Type_MultipleChoice \<longrightarrow> choice_name (list_valid m) (oint opt k) \<noteq> None)
      | A_String k \<Rightarrow> length (ostring opt k) < option_string_size
      | A_Map k \<Rightarrow> (case omap opt k of None \<Rightarrow> False | Some smap \<Rightarrow> sorted_wrt (<) (sp_smap_get_keys smap))
      | _ \<Rightarrow> True)"

lemma choice_name_member: "choice_name vs i = Some n \<Longrightarrow> (i, n) \<in> set vs"
  by (induction vs i rule: choice_name.induct) (auto split: if_splits)

lemma choice_value_member: "distinct (map snd vs) \<Longrightarrow> (i, n) \<in> set vs \<Longrightarrow> choice_value vs n = Some i"
  by (induction vs n rule: choice_value.induct) (auto simp: rev_image_eqI)

lemma inserts_in_order:
  assumes "smap_insert_appends sp" and "sorted_wrt (<) (sp_smap_get_keys (smap @ rest))"
  shows "fold (\<lambda>(k, v) smap. sp_smap_insert sp smap k v) rest smap = smap @ rest"
  using assms(2)
proof (induction rest arbitrary: smap)
  case (Cons kv rest)
  obtain k v where kv: "kv = (k, v)" by (cases kv)
  have "sp_smap_insert sp smap k v = smap @ [(k, v)]"
    using assms(1) Cons.prems by (auto simp: smap_insert_appends_def kv sorted_wrt_append)
  then show ?case using Cons.IH [of "smap @ [(k, v)]"] Cons.prems by (simp add: kv)
qed simp

lemma read_floats [simp]:
  "config_setting_get_elem (C_Array (float_elements xs)) i = (if i < length xs then Some (C_Float (xs ! i)) else None)"
  "config_setting_get_float_elem (C_Array (float_elements xs)) i = (if i < length xs then xs ! i else 0)"
  "config_setting_length (C_Array (float_elements xs)) = length xs"
  by (simp_all add: config_setting_get_elem_def config_setting_get_float_elem_def config_setting_length_def
      is_collection_def float_elements_def config_setting_get_float_def)

lemma read_map_value:
  assumes "smap_insert_appends sp" and "sorted_wrt (<) (sp_smap_get_keys smap)" and "variable_address m = A_Map k"
  shows "read_map sp (map_content smap) m opt =
    Inr (if smap = [] then opt else opt\<lparr>omap := (omap opt)(k := Some smap)\<rparr>)"
proof -
  define K V where "K = sp_smap_get_keys smap" and "V = sp_smap_get_values smap"
  have "fold (\<lambda>j s. sp_smap_insert sp s (K ! j) (V ! j)) [0..<length smap] []
      = fold (\<lambda>(k, v) s. sp_smap_insert sp s k v) (map (\<lambda>j. smap ! j) [0..<length smap]) []"
    by (auto simp: fold_map comp_def K_def V_def split_beta intro!: fold_cong)
  also have "\<dots> = smap" using inserts_in_order [OF assms(1), of "[]" smap] assms(2) by (simp add: map_nth)
  finally have "fold (\<lambda>j s. sp_smap_insert sp s (config_setting_get_float_elem (C_Array (float_elements K)) j)
      (config_setting_get_float_elem (C_Array (float_elements V)) j)) [0..<length smap] [] = smap"
    by (subst fold_cong) (auto simp: K_def V_def)
  moreover have "config_setting_get_elem (map_content smap) 0 = Some (C_Array (float_elements K))"
    and "config_setting_get_elem (map_content smap) 1 = Some (C_Array (float_elements V))"
    by (simp_all add: config_setting_get_elem_def is_collection_def map_content_def K_def V_def)
  ultimately show ?thesis
    using assms(3) by (simp add: read_map_def store_map_def K_def [symmetric] V_def [symmetric] Let_def)
       (simp add: K_def)
qed

lemma lookup_saved:
  assumes "view t (path_keys path) = Some v" and "\<not> is_group v"
  shows "lookup_setting t path = Some v"
proof -
  obtain c where c: "lookup_setting t path = Some c"
    using assms(1) lookup_setting_view(2) [of t path] by fastforce
  then have "shape c = v" using lookup_setting_view(1) [OF c] assms(1) by simp
  then show ?thesis using assms(2) c by (cases c) (auto simp: shape_def is_group_def)
qed

definition entry_fits :: "metadata \<Rightarrow> bool" where
  "entry_fits m \<longleftrightarrow>
     address_fits (variable_type m) (variable_address m) \<and> \<not> is_vector_type (variable_type m)
     \<and> (variable_type m = Type_MultipleChoice \<longrightarrow> choices_fit m)"

lemma storable_saved: "entry_fits m \<Longrightarrow> storable m opt \<Longrightarrow> \<exists>v. saved_value m opt = Inr v"
  by (cases "variable_address m"; cases "variable_type m")
     (auto simp: entry_fits_def storable_def saved_value_def is_string_type_def is_vector_type_def load_string_def
       load_int_def load_real_def load_map_def split: option.splits)

lemma read_choice_value:
  assumes "choices_fit m" and "choice_name (list_valid m) i = Some n"
    and "config_lookup_string t path = Some n"
  shows "read_choice t path m opt = store_int (variable_address m) i opt"
proof -
  have "map to_lower n = n" and "length n < option_string_size" and "choice_value (list_valid m) n = Some i"
    using assms(1) choice_name_member [OF assms(2)] choice_value_member [of "list_valid m" i n]
    by (auto simp: choices_fit_def list_all_iff)
  then show ?thesis using assms(3) by (simp add: read_choice_def)
qed

lemma read_value_restores:
  assumes "entry_fits m" and "storable m saved" and "saved_value m saved = Inr v"
    and look: "lookup_setting t path = Some v" and "smap_insert_appends sp"
  shows "read_value sp t path v m opt = Inr (overlay {variable_address m} saved opt)"
proof (cases "variable_address m")
  case (A_Map k)
  then obtain smap where smap: "omap saved k = Some smap" "sorted_wrt (<) (sp_smap_get_keys smap)"
    and ty: "variable_type m = Type_Map_Real" and v: "v = map_content smap"
    using assms(1-3) by (auto simp: entry_fits_def storable_def saved_value_def is_string_type_def load_map_def
        split: option.splits)
  then show ?thesis
    using read_map_value [OF assms(5) smap(2) A_Map, of opt] A_Map
    by (auto simp: read_value_def is_string_type_def overlay_def fun_eq_iff)
next
  case (A_Int k)
  then show ?thesis
    using assms(1-3) look
    by (cases "variable_type m = Type_MultipleChoice")
       (auto simp: entry_fits_def storable_def saved_value_def is_string_type_def load_int_def read_value_def
         read_choice_value config_lookup_string_def config_setting_get_string_def read_bool_def
         config_lookup_bool_def config_lookup_int_def config_setting_get_bool_def config_setting_get_int_def
         store_int_def overlay_def fun_eq_iff split: option.splits)
qed (use assms(1-3) look in \<open>auto simp: entry_fits_def storable_def saved_value_def is_string_type_def
      is_vector_type_def load_string_def load_real_def read_value_def read_string_def config_lookup_string_def
      config_setting_get_string_def store_string_def read_real_def config_lookup_float_def
      config_setting_get_float_def store_real_def overlay_def fun_eq_iff\<close>)

lemma read_option_restores:
  assumes fits: "table_fits tab" and m: "m \<in> set tab" and view: "view t = written_map tab saved"
    and stored: "\<And>m. m \<in> set tab \<Longrightarrow> written m \<Longrightarrow> storable m saved" and "smap_insert_appends sp"
  shows "read_option sp tab t m opt = Inr (overlay (if written m then {variable_address m} else {}) saved opt)"
proof (cases "readable m")
  case True
  obtain p where p: "get_path tab m = Inr p" "path_keys p = option_path tab m"
    using get_path_keys [OF table_fitsD(6) [OF fits m True]] by auto
  show ?thesis
  proof (cases "written m")
    case w: True
    have "entry_fits m"
      using fits m w by (auto simp: table_fits_def values_fit_def list_all_iff entry_fits_def)
    moreover from storable_saved [OF this stored [OF m w]] obtain v where v: "saved_value m saved = Inr v" by auto
    moreover have "lookup_setting t p = Some v"
      using written_map_values(1) [OF fits m w, of saved] saved_value_kinds [OF v]
      by (intro lookup_saved) (auto simp: view p v)
    ultimately show ?thesis
      using read_value_restores [of m saved v t p sp opt] stored [OF m w] assms(5) True p(1) w
      by (simp add: read_option_def)
  next
    case False
    then have "lookup_setting t p = None"
      using written_map_values(2) [OF fits m True False, of saved] lookup_setting_view(2) [of t p]
      by (simp add: view p)
    then show ?thesis using True False p(1) by (simp add: read_option_def)
  qed
qed (auto simp: read_option_def written_def)

lemma read_all_restores:
  assumes "table_fits tab" and "view t = written_map tab saved"
    and "\<And>m. m \<in> set tab \<Longrightarrow> written m \<Longrightarrow> storable m saved" and "smap_insert_appends sp"
  shows "fold_result (read_option sp tab t) tab opt
    = Inr (overlay (variable_address ` set (filter written tab)) saved opt)"
proof -
  have "fold_result (read_option sp tab t) es opt
      = Inr (overlay (variable_address ` set (filter written es)) saved opt)" if "set es \<subseteq> set tab" for es opt
    using that
  proof (induction es arbitrary: opt)
    case (Cons m es)
    then show ?case
      using read_option_restores [OF assms(1) _ assms(2,3,4), of m opt] by (simp add: overlay_Un)
  qed simp
  then show ?thesis by simp
qed

end
