(* ===== verification/Options_Table.thy ===== *)
theory Options_Table
  imports Options_IO
begin

text \<open>
  The reader and the writer of configuration files on the table of the program: the layout
  of the files, the types of the addresses, and the way of the options to a file and back.
\<close>

lemmas table_chunks = metadata_1_def metadata_2_def metadata_3_def metadata_4_def metadata_5_def
  metadata_6_def metadata_7_def metadata_8_def metadata_9_def metadata_10_def metadata_11_def
  metadata_12_def metadata_13_def metadata_14_def

lemmas table_flags = readable_def written_def in_tree_def is_group_entry_def is_string_type_def is_vector_type_def

lemma entry_simps [simp]:
  "variable_name (entry n t i p ps vs a d) = n" "variable_type (entry n t i p ps vs a d) = t"
  "variable_id (entry n t i p ps vs a d) = i" "parent (entry n t i p ps vs a d) = p"
  "variable_properties (entry n t i p ps vs a d) = ps" "list_valid (entry n t i p ps vs a d) = vs"
  "variable_address (entry n t i p ps vs a d) = a"
  by (simp_all add: entry_def)

section \<open>The groups of the table\<close>

lemma table_length: "length (variable_metadata a b c) = 142"
  by (simp add: variable_metadata_def table_chunks)

lemma table_groups:
  "array_get (variable_metadata a b c) 0 = Inr (metadata_1 ! 0)"
  "array_get (variable_metadata a b c) 1 = Inr (metadata_1 ! 1)"
  "array_get (variable_metadata a b c) 3 = Inr (metadata_1 ! 3)"
  "array_get (variable_metadata a b c) 16 = Inr (metadata_2 ! 6)"
  "array_get (variable_metadata a b c) 20 = Inr (metadata_3 ! 0)"
  "array_get (variable_metadata a b c) 30 = Inr (metadata_3 ! 10)"
  "array_get (variable_metadata a b c) 82 = Inr (metadata_8 ! 6)"
  by (simp_all add: array_get_def table_length) (simp_all add: variable_metadata_def table_chunks)

lemma group_entries:
  "variable_name (metadata_1 ! 0) = ''ROOT''" "variable_id (metadata_1 ! 0) = Id_Root"
  "variable_name (metadata_1 ! Suc 0) = ''input_data''" "variable_id (metadata_1 ! Suc 0) = Id_Input"
  "variable_name (metadata_1 ! 3) = ''initial_support''" "variable_id (metadata_1 ! 3) = Id_Initial_Support_Group"
  "variable_name (metadata_2 ! 6) = ''logging''" "variable_id (metadata_2 ! 6) = Id_Logging"
  "variable_name (metadata_3 ! 0) = ''phasing_method''" "variable_id (metadata_3 ! 0) = Id_Phasing"
  "variable_name (metadata_3 ! 10) = ''support_update_method''" "variable_id (metadata_3 ! 10) = Id_Support"
  "variable_name (metadata_8 ! 6) = ''initial_image''" "variable_id (metadata_8 ! 6) = Id_Initialization"
  "variable_type (metadata_1 ! Suc 0) = Type_Group" "parent (metadata_1 ! Suc 0) = Some 0"
  "variable_type (metadata_1 ! 3) = Type_Group" "parent (metadata_1 ! 3) = Some 0"
  "variable_type (metadata_2 ! 6) = Type_Group" "parent (metadata_2 ! 6) = Some 0"
  "variable_type (metadata_3 ! 0) = Type_Group" "parent (metadata_3 ! 0) = Some 0"
  "variable_type (metadata_3 ! 10) = Type_Group" "parent (metadata_3 ! 10) = Some 0"
  "variable_type (metadata_8 ! 6) = Type_Group" "parent (metadata_8 ! 6) = Some 0"
  by (simp_all add: table_chunks)

lemmas parent_facts = parent_entry_def table_groups group_entries

section \<open>The layout of the files\<close>

text \<open>
  The paths of a file that is written, and the paths that are read as well: names of older
  versions, most of them options of the root that have moved into a group.
\<close>

definition file_layout :: "string list list" where
  "file_layout =
    [[''input_data''], [''initial_support''], [''logging''], [''phasing_method''],
     [''logging'', ''work_directory''], [''support_update_method''], [''nthreads''],
     [''max_iterations''], [''input_data'', ''solution_file''], [''random_seed''],
     [''input_data'', ''added_noise''], [''input_data'', ''beamstop_radius''],
     [''support_update_method'', ''fixed_support_mask''],
     [''initial_support'', ''initial_support_image''],
     [''support_update_method'', ''support_intensity_threshold''],
     [''phasing_method'', ''adapt_thres''], [''support_update_method'', ''blur''],
     [''phasing_method'', ''RAAR_sigma''], [''initial_image''],
     [''initial_image'', ''image_guess''],
     [''support_update_method'', ''support_real_error_threshold''],
     [''support_update_method'', ''error_reduction_iterations_in_support_update''],
     [''phasing_method'', ''enforce_positivity''], [''phasing_method'', ''enforce_real''],
     [''phasing_method'', ''charge_flip_sigma''], [''phasing_method'', ''espresso_tau''],
     [''initial_image'', ''rescale_initial_image''],
     [''phasing_method'', ''remove_central_pixel_phase''],
     [''phasing_method'', ''perturb_weak_reflections''],
     [''initial_support'', ''autocorrelation_algorithm''],
     [''support_update_method'', ''object_area''], [''support_update_method'', ''square_mask''],
     [''initial_support'', ''autocorrelation_blur_radius''],
     [''phasing_method'', ''real_error_tolerance''], [''phasing_method'', ''image_blur_period''],
     [''phasing_method'', ''image_blur_radius''], [''logging'', ''logfile''],
     [''logging'', ''output_period''], [''logging'', ''log_output_period''],
     [''logging'', ''output_precision''], [''phasing_method'', ''phases_blur''],
     [''input_data'', ''intensities_std_dev_file''],
     [''input_data'', ''autocorrelation_support_file''],
     [''support_update_method'', ''filter_intensities''], [''phasing_method'', ''gamma1''],
     [''phasing_method'', ''gamma2''], [''support_update_method'', ''support_image_averaging''],
     [''input_data'', ''intensities_file''], [''initial_support'', ''autocorrelation_threshold''],
     [''input_data'', ''real_image_file''], [''phasing_method'', ''algorithm''],
     [''support_update_method'', ''support_update_algorithm''],
     [''initial_support'', ''autocorrelation_area''], [''phasing_method'', ''beta''],
     [''support_update_method'', ''innerloop_iterations''],
     [''logging'', ''remote_work_directory''], [''logging'', ''save_remote_files''],
     [''support_update_method'', ''template_blur_radius''],
     [''support_update_method'', ''template_area''], [''debug_level''],
     [''phasing_method'', ''enforce_centrosymmetry''],
     [''support_update_method'', ''support_closure_radius''],
     [''initial_image'', ''realspace_starting_point''], [''phasing_method'', ''enforce_ramp''],
     [''support_update_method'', ''center_image''], [''phasing_engine''],
     [''phasing_method'', ''output_projection'']]"

definition old_layout :: "string list list" where
  "old_layout =
    [[''amplitudes_file''], [''patterson_threshold''], [''beta''], [''innerloop_iterations''],
     [''fixed_support_mask''], [''initial_support_image''], [''image_guess''], [''added_noise''],
     [''beamstop_radius''], [''support_intensity_threshold''], [''iterations_to_min_blur''],
     [''blur_radius_reduction_method''], [''minimum_blur_radius''], [''output_period''],
     [''log_output_period''], [''RAAR_sigma''], [''dynamic_beta''], [''random_initial_phases''],
     [''random_initial_intensities''], [''adapt_thres''], [''automatic''],
     [''support_real_error_threshold''], [''output_precision''],
     [''error_reduction_iterations_after_loop''], [''enforce_positivity''], [''enforce_real''],
     [''genetic_optimization''], [''charge_flip_sigma''], [''rescale_amplitudes''],
     [''square_mask''], [''patterson_blur_radius''], [''remove_central_pixel_phase''],
     [''perturb_weak_reflections''], [''break_centrosym_period''], [''real_error_tolerance''],
     [''patterson_level_algorithm''], [''object_area''], [''image_blur_period''],
     [''image_blur_radius''], [''iterations_to_min_object_area''], [''min_object_area''],
     [''phases_min_blur_radius''], [''phases_max_blur_radius''],
     [''iterations_to_min_phases_blur''], [''intensities_std_dev_file''],
     [''autocorrelation_support_file''], [''filter_intensities''], [''object_area_checkpoints''],
     [''object_area_at_checkpoints''], [''beta_checkpoints''], [''beta_at_checkpoints''],
     [''gamma1''], [''gamma2''], [''support_image_averaging''],
     [''support_update_method'', ''maximum_blur_radius''],
     [''support_update_method'', ''blur_radius_reduction_method''],
     [''support_update_method'', ''minimum_blur_radius''], [''phasing_method'', ''dynamic_beta''],
     [''initial_image'', ''initial_phases''], [''initial_image'', ''random_initial_intensities''],
     [''real_image_file''], [''support_update_method'', ''iterations_to_min_object_area''],
     [''support_update_method'', ''min_object_area''], [''logfile''],
     [''phasing_method'', ''phases_min_blur_radius''],
     [''phasing_method'', ''phases_max_blur_radius''], [''algorithm''],
     [''support_update_algorithm''], [''max_blur_radius'']]"

text \<open>
  The equations below open the table as the list walked over, and keep it folded as the
  table in which the parents are found.
\<close>

lemma walked:
  assumes "P (metadata_1 @ metadata_2 @ metadata_3 @ metadata_4 @ metadata_5 @ metadata_6 @ metadata_7 @ metadata_8
    @ metadata_9 @ metadata_10 @ metadata_11 @ metadata_12 @ metadata_13 @ metadata_14 a b c)"
  shows "P (variable_metadata a b c)"
  using assms by (simp add: variable_metadata_def)

lemma file_paths: "map (option_path (variable_metadata a b c)) (filter in_tree (variable_metadata a b c)) = file_layout"
  by (rule walked [where P = "\<lambda>es. map (option_path (variable_metadata a b c)) (filter in_tree es) = file_layout"])
     (simp add: table_chunks table_flags option_path_def parent_facts, simp only: file_layout_def)

lemma old_paths:
  "map (option_path (variable_metadata a b c)) (filter (\<lambda>m. readable m \<and> \<not> written m) (variable_metadata a b c))
     = old_layout"
  by (rule walked [where P = "\<lambda>es. map (option_path (variable_metadata a b c))
        (filter (\<lambda>m. readable m \<and> \<not> written m) es) = old_layout"])
     (simp add: table_chunks table_flags option_path_def parent_facts, simp only: old_layout_def)

lemma file_layout_distinct: "distinct file_layout" "[''ROOT''] \<notin> set file_layout"
  by (simp_all add: file_layout_def)

lemma layout_lengths:
  "filter (\<lambda>p. length p = 1) file_layout =
     [[''input_data''], [''initial_support''], [''logging''], [''phasing_method''],
      [''support_update_method''], [''nthreads''], [''max_iterations''], [''random_seed''],
      [''initial_image''], [''debug_level''], [''phasing_engine'']]"
  "filter (\<lambda>p. length p \<noteq> 1) old_layout =
     [[''support_update_method'', ''maximum_blur_radius''],
      [''support_update_method'', ''blur_radius_reduction_method''],
      [''support_update_method'', ''minimum_blur_radius''], [''phasing_method'', ''dynamic_beta''],
      [''initial_image'', ''initial_phases''], [''initial_image'', ''random_initial_intensities''],
      [''support_update_method'', ''iterations_to_min_object_area''],
      [''support_update_method'', ''min_object_area''],
      [''phasing_method'', ''phases_min_blur_radius''],
      [''phasing_method'', ''phases_max_blur_radius'']]"
  by (simp_all add: file_layout_def old_layout_def)

lemma old_layout_apart: "list_all (\<lambda>p. p \<notin> set file_layout) old_layout"
proof -
  have "list_all (\<lambda>p. p \<notin> set (filter (\<lambda>p. length p = 1) file_layout)) old_layout"
    by (simp only: layout_lengths) (simp add: old_layout_def)
  moreover have "list_all (\<lambda>p. p \<notin> set file_layout) (filter (\<lambda>p. length p \<noteq> 1) old_layout)"
    by (simp only: layout_lengths) (simp add: file_layout_def)
  ultimately show ?thesis by (auto simp: list_all_iff)
qed

lemma layouts_fit: "paths_fit file_layout old_layout"
  by (simp add: paths_fit_def file_layout_distinct old_layout_apart)

lemma table_places: "places_fit (variable_metadata a b c) (variable_metadata a b c)"
  by (rule walked [where P = "places_fit (variable_metadata a b c)"])
     (simp add: table_chunks places_fit_def is_group_entry_def under_root_def entry_placed_def parent_facts plain_def)

lemma table_values: "values_fit (variable_metadata a b c)"
  unfolding values_fit_def variable_metadata_def table_chunks
  by (simp add: table_flags choices_fit_def option_string_size_def to_lower_def)

lemma hawk_table_fits: "table_fits (variable_metadata a b c)"
  by (simp add: table_fits_def table_places table_values file_paths old_paths layouts_fit)

section \<open>The types of the addresses\<close>

lemma mistyped_entries:
  "map fst (filter (\<lambda>(i, m). readable m \<and> \<not> address_fits (variable_type m) (variable_address m))
     (enumerate 0 (variable_metadata a b c))) = [27, 33]"
  by (simp add: variable_metadata_def table_chunks table_flags)

lemma mistyped_index:
  assumes "i < 142"
  shows "readable (variable_metadata a b c ! i)
      \<and> \<not> address_fits (variable_type (variable_metadata a b c ! i)) (variable_address (variable_metadata a b c ! i))
    \<longleftrightarrow> i \<in> {27, 33}"
proof -
  have "i \<in> set (map fst (filter (\<lambda>(i, m). readable m \<and> \<not> address_fits (variable_type m) (variable_address m))
      (enumerate 0 (variable_metadata a b c))))
    \<longleftrightarrow> readable (variable_metadata a b c ! i)
      \<and> \<not> address_fits (variable_type (variable_metadata a b c ! i)) (variable_address (variable_metadata a b c ! i))"
    using assms by (force simp: in_set_enumerate_eq table_length image_iff)
  then show ?thesis by (simp only: mistyped_entries) auto
qed

lemma mistyped_entry:
  "variable_metadata a b c ! 27 = entry ''automatic'' Type_Bool Id_Automatic (Some 0)
     [isSettableBeforeRun, isSettableDuringRun, isGettableBeforeRun, isGettableDuringRun, deprecated] [] (A_Real R_dyn_beta) None"
  "variable_metadata a b c ! 33 = entry ''enforce_positivity'' Type_Real Id_Enforce_Positivity (Some 0)
     [isSettableBeforeRun, isSettableDuringRun, isGettableBeforeRun, isGettableDuringRun, deprecated] [] (A_Int I_enforce_positivity) None"
  by (simp_all add: variable_metadata_def table_chunks)

lemma typed_read:
  assumes "address_fits (variable_type m) (variable_address m)"
  shows "read_value sp t path c m opt \<noteq> Inl Type_Confusion"
proof (cases "variable_address m")
  case (A_Vector k)
  then show ?thesis
    using assms
    by (auto simp: read_value_def is_string_type_def read_vector_def store_vector_def split: option.splits if_splits)
next
  case (A_Map k)
  then show ?thesis
    using assms
    by (auto simp: read_value_def is_string_type_def read_map_def store_map_def Let_def deref_def bind_result_def
        split: option.splits)
qed (use assms in \<open>auto simp: read_value_def is_string_type_def read_string_def store_string_def read_real_def
      store_real_def read_bool_def store_int_def read_choice_def deref_def bind_result_def
      split: option.splits if_splits\<close>)

text \<open>
  Property C15 (type): walking over the table, the reader writes through an address of the
  wrong type at exactly two entries, and there whenever the file has the option: the
  deprecated \<open>automatic\<close>, a truth value whose address is the real \<open>dyn_beta\<close>, and the
  deprecated \<open>enforce_positivity\<close> of the root, a real whose address is an integer.
\<close>

theorem only_two_options_are_mistyped:
  fixes engine_automatic engine_cpu engine_cuda :: int
  defines "tab \<equiv> variable_metadata engine_automatic engine_cpu engine_cuda"
  assumes "i < length tab"
  shows "read_option sp tab t (tab ! i) opt = Inl Type_Confusion
    \<longleftrightarrow> i = 27 \<and> lookup_setting t ''automatic'' \<noteq> None \<or> i = 33 \<and> lookup_setting t ''enforce_positivity'' \<noteq> None"
proof (cases "i \<in> {27, 33}")
  case True
  have root: "get_path tab m = Inr (variable_name m)"
    if "parent m = Some 0" "length (variable_name m) < option_string_size" for m
    using that by (simp add: get_path_def path_from.simps [of _ "Some 0"] tab_def parent_facts)
  have "get_path tab (tab ! 27) = Inr ''automatic''" and "get_path tab (tab ! 33) = Inr ''enforce_positivity''"
    by (subst root; simp add: tab_def mistyped_entry option_string_size_def)+
  then show ?thesis
    using True by (auto simp: read_option_def tab_def mistyped_entry readable_def read_value_def is_string_type_def
        read_bool_def store_int_def read_real_def store_real_def bad_address_def split: option.splits)
next
  case False
  have i: "i < 142" using assms(2) by (simp add: tab_def table_length)
  have "read_option sp tab t (tab ! i) opt \<noteq> Inl Type_Confusion"
  proof (cases "readable (tab ! i)")
    case True
    then obtain p where "get_path tab (tab ! i) = Inr p"
      using get_path_keys table_fitsD(6) [OF hawk_table_fits nth_mem] assms(2) unfolding tab_def by blast
    moreover have "address_fits (variable_type (tab ! i)) (variable_address (tab ! i))"
      using mistyped_index [OF i] False True unfolding tab_def by blast
    ultimately show ?thesis using typed_read by (simp add: read_option_def split: option.splits)
  qed (simp add: read_option_def)
  then show ?thesis using False by simp
qed

text \<open>Options with every field set, for the examples.\<close>

definition example_saved :: options where
  "example_saved =
     \<lparr>oreal = (\<lambda>_. 1 / 2), oint = (\<lambda>_. 0)(I_output_precision := 8), ostring = (\<lambda>_. ''file.h5''),
      ovector = (\<lambda>_. None), omap = (\<lambda>_. Some [(0, 1), (1, 2)]), oimage = (\<lambda>_. None), flog = False\<rparr>"

lemma only_two_options_are_mistyped_witness:
  "read_option example_library (variable_metadata 0 1 2) (C_Group [Setting (Some ''automatic'') (C_Bool 1)])
     (variable_metadata 0 1 2 ! 27) example_saved = Inl Type_Confusion"
proof -
  have "lookup_setting (C_Group [Setting (Some ''automatic'') (C_Bool 1)]) ''automatic'' \<noteq> None"
    using path_keys_plain [of "''automatic''"]
    by (simp add: lookup_setting_view plain_def member_at_def key_def)
  then show ?thesis
    using only_two_options_are_mistyped [where i = 27 and engine_automatic = 0 and engine_cpu = 1 and engine_cuda = 2]
    by (simp add: table_length)
qed

section \<open>The way to a file and back\<close>

lemma written_storable:
  assumes "list_all (\<lambda>m. written m \<longrightarrow> storable m saved) (variable_metadata a b c)"
  shows "m \<in> set (variable_metadata a b c) \<Longrightarrow> written m \<Longrightarrow> storable m saved"
  using assms by (simp add: list_all_iff)

text \<open>
  Property C5 (refinement): the writer ends after one pass over the groups, and the tree it
  hands to the library stands for exactly the map from the layout of the file to the groups
  and the values of the options.
\<close>

theorem options_written_as_map:
  fixes engine_automatic engine_cpu engine_cuda :: int
  defines "tab \<equiv> variable_metadata engine_automatic engine_cpu engine_cuda"
  assumes "0 < passes" and "list_all (\<lambda>m. written m \<longrightarrow> storable m opt) tab"
  shows "\<exists>t. write_options_file passes tab opt = Inr (Some t) \<and> view t = written_map tab opt
    \<and> dom (view t) = insert [] (set file_layout)"
proof -
  have "\<exists>v. saved_value m opt = Inr v" if "m \<in> set tab" "written m" for m
  proof (rule storable_saved)
    show "entry_fits m"
      using that table_values [of engine_automatic engine_cpu engine_cuda]
      by (auto simp: tab_def values_fit_def entry_fits_def list_all_iff)
    show "storable m opt" using that assms(3) by (simp add: list_all_iff)
  qed
  moreover have "dom (written_map tab opt) = insert [] (set file_layout)"
    by (auto simp: written_map_def dom_map_of_conv_image_fst image_image tab_def in_tree_def
        file_paths [of engine_automatic engine_cpu engine_cuda, symmetric])
  ultimately show ?thesis
    using write_options_map [OF hawk_table_fits [of engine_automatic engine_cpu engine_cuda] _ assms(2), where opt = opt]
    unfolding tab_def by metis
qed

lemma example_saved_storable: "list_all (\<lambda>m. written m \<longrightarrow> storable m example_saved) (variable_metadata 0 1 2)"
  by (simp add: variable_metadata_def table_chunks table_flags storable_def example_saved_def wrap32_def
      option_string_size_def)

lemma options_written_as_map_witness:
  "\<exists>t. write_options_file 1 (variable_metadata 0 1 2) example_saved = Inr (Some t)
    \<and> view t = written_map (variable_metadata 0 1 2) example_saved \<and> dom (view t) = insert [] (set file_layout)"
  by (rule options_written_as_map [OF _ example_saved_storable]) simp

text \<open>
  Property C4 (roundtrip): when the library reads back the tree that was written, the
  reader ends without a fault and returns its options with every field the writer saved,
  but for empty maps, and every other field as it was.
\<close>

theorem options_round_trip:
  fixes engine_automatic engine_cpu engine_cuda :: int
  defines "tab \<equiv> variable_metadata engine_automatic engine_cpu engine_cuda"
  assumes "smap_insert_appends sp" and "0 < passes" and "list_all (\<lambda>m. written m \<longrightarrow> storable m saved) tab"
  shows "\<exists>t. write_options_file passes tab saved = Inr (Some t)
    \<and> (\<forall>parse filename. parse filename = Some t \<longrightarrow>
         read_options_file sp tab parse filename opt
           = Inr (overlay (variable_address ` set (filter written tab)) saved opt))"
proof -
  note stored = written_storable [OF assms(4) [unfolded tab_def]]
  have "\<exists>v. saved_value m saved = Inr v" if "m \<in> set tab" "written m" for m
  proof (rule storable_saved)
    show "entry_fits m"
      using that table_values [of engine_automatic engine_cpu engine_cuda]
      by (auto simp: tab_def values_fit_def entry_fits_def list_all_iff)
  qed (use that stored in \<open>simp add: tab_def\<close>)
  then obtain t where "write_options_file passes tab saved = Inr (Some t)" and "view t = written_map tab saved"
    using write_options_map [OF hawk_table_fits [of engine_automatic engine_cpu engine_cuda] _ assms(3), where opt = saved]
    unfolding tab_def by metis
  then show ?thesis
    using read_all_restores [OF hawk_table_fits _ stored assms(2), where t = t and opt = opt]
    by (auto simp: read_options_file_def tab_def)
qed

lemma options_round_trip_witness:
  "\<exists>t. write_options_file 1 (variable_metadata 0 1 2) example_saved = Inr (Some t)
    \<and> (\<forall>parse filename. parse filename = Some t \<longrightarrow>
         read_options_file example_library (variable_metadata 0 1 2) parse filename (example_saved\<lparr>oreal := \<lambda>_. 0\<rparr>)
           = Inr (overlay (variable_address ` set (filter written (variable_metadata 0 1 2)))
               example_saved (example_saved\<lparr>oreal := \<lambda>_. 0\<rparr>)))"
  by (rule options_round_trip [OF example_library_laws(12) _ example_saved_storable]) simp

end
