(* ===== verification/Program.thy ===== *)
theory Program
  imports Saddle_Search Options_Table
begin

text \<open>
  The program from its start (\<open>uwrapc_main\<close>, \<open>uwrapc_from_file\<close> and \<open>uwrapc_start\<close> of
  \<open>src/uwrapc.c\<close>, \<open>check_options_and_load_images\<close> of \<open>src/configuration.c\<close>): the
  defaults, the configuration file, the images it names, the copy of the options that is
  written, and the reconstruction.  Making the working directory, seeding the random numbers
  (the streams are parameters of the model) and freeing the images at the end are left out.

  \<open>conf\<close> is what the library makes of a file: \<open>None\<close> when it cannot be opened,
  \<open>Some None\<close> when it cannot be parsed.  \<open>pair\<close> is \<open>sp_smap_create_from_pair\<close>.
\<close>

section \<open>Starting the program\<close>

definition load_input :: "spsetup \<Rightarrow> options \<Rightarrow> options result" where
  "load_input su opt =
     (if oimage opt P_diffraction = None \<and> oimage opt P_real_image = None then
        if ostring opt S_diffraction_filename \<noteq> '''' then
          Inr (set_image P_diffraction (Some (sp_image_read su (ostring opt S_diffraction_filename))) opt)
        else if ostring opt S_real_image_filename \<noteq> '''' then
          Inr (set_image P_real_image (Some (sp_image_read su (ostring opt S_real_image_filename))) opt)
        else Inl (Fatal ''Neither diffraction nor real image specified!'')
      else Inr opt)"

definition check_options_and_load_images ::
  "spimage \<Rightarrow> spsetup \<Rightarrow> (real \<Rightarrow> real \<Rightarrow> sp_smap) \<Rightarrow> options \<Rightarrow> options result" where
  "check_options_and_load_images sp su pair opt =
     bind_result (load_input su opt) (\<lambda>opt.
       if ostring opt S_log_file = '''' then Inl (Fatal ''Can not use an empty log file.'')
       else
         let opt = (if oimage opt P_support_mask = None \<and> ostring opt S_support_mask_filename \<noteq> ''''
                    then set_image P_support_mask (Some (sp_image_read su (ostring opt S_support_mask_filename))) opt
                    else opt);
             opt = (if omap opt M_threshold_evolution = None
                    then set_map M_threshold_evolution (Some (sp_smap_insert sp [] 0 (oreal opt R_new_level))) opt
                    else opt);
             opt = (if omap opt M_beta_evolution = None \<and> oreal opt R_beta \<noteq> 0
                    then set_map M_beta_evolution (Some (pair 0 (oreal opt R_beta))) opt
                    else opt)
         in Inr opt)"

definition uwrapc_start ::
  "nat \<Rightarrow> nat \<Rightarrow> spimage \<Rightarrow> spsetup \<Rightarrow> (real \<Rightarrow> real \<Rightarrow> sp_smap) \<Rightarrow> 'ph phaser_library \<Rightarrow> saddle_lib
   \<Rightarrow> replacements \<Rightarrow> real \<Rightarrow> metadata list \<Rightarrow> hawk \<Rightarrow> (content \<times> hawk) option result" where
  "uwrapc_start passes fuel sp su pair pl lib hook speed tab st =
     bind_result (check_options_and_load_images sp su pair (opts st)) (\<lambda>opt.
     bind_result (write_options_file passes tab opt) (\<lambda>w.
       case w of
         None \<Rightarrow> Inr None
       | Some t \<Rightarrow>
           bind_result (init_reconstruction fuel sp su pl (basic_so2d_iteration sp lib speed) hook speed (st\<lparr>opts := opt\<rparr>)) (\<lambda>r.
             Inr (map_option (\<lambda>st'. (t, st')) r))))"

definition uwrapc_from_file ::
  "(string \<Rightarrow> content option option) \<Rightarrow> nat \<Rightarrow> nat \<Rightarrow> spimage \<Rightarrow> spsetup \<Rightarrow> (real \<Rightarrow> real \<Rightarrow> sp_smap)
   \<Rightarrow> 'ph phaser_library \<Rightarrow> saddle_lib \<Rightarrow> replacements \<Rightarrow> real \<Rightarrow> metadata list \<Rightarrow> hawk
   \<Rightarrow> (content \<times> hawk) option result" where
  "uwrapc_from_file conf passes fuel sp su pair pl lib hook speed tab st =
     bind_result
       (case conf ''uwrapc.conf'' of
          None \<Rightarrow> Inr (opts st)
        | Some parsed \<Rightarrow> read_options_file sp tab (\<lambda>_. parsed) ''uwrapc.conf'' (opts st)) (\<lambda>opt.
     uwrapc_start passes fuel sp su pair pl lib hook speed tab (st\<lparr>opts := opt\<rparr>))"

definition uwrapc_main ::
  "int \<Rightarrow> int \<Rightarrow> (string \<Rightarrow> content option option) \<Rightarrow> nat \<Rightarrow> nat \<Rightarrow> spimage \<Rightarrow> spsetup
   \<Rightarrow> (real \<Rightarrow> real \<Rightarrow> sp_smap) \<Rightarrow> 'ph phaser_library \<Rightarrow> saddle_lib \<Rightarrow> replacements \<Rightarrow> real \<Rightarrow> metadata list
   \<Rightarrow> hawk \<Rightarrow> (content \<times> hawk) option result" where
  "uwrapc_main sz engine conf passes fuel sp su pair pl lib hook speed tab st =
     uwrapc_from_file conf passes fuel sp su pair pl lib hook speed tab
       (st\<lparr>opts := set_defaults sp sz engine (opts st)\<rparr>)"

section \<open>No run without an input\<close>

lemma read_value_keeps:
  assumes "read_value sp t path c m opt = Inr opt'"
  shows "oimage opt' = oimage opt"
    and "variable_address m \<noteq> A_String k \<Longrightarrow> ostring opt' k = ostring opt k"
  using assms
  by (auto simp: read_value_def read_string_def read_real_def read_vector_def read_bool_def read_choice_def
      read_map_def store_string_def store_int_def store_real_def store_vector_def store_map_def Let_def
      split: if_splits option.splits address.splits)

lemma read_option_keeps:
  assumes "read_option sp tab t m opt = Inr opt'"
  shows "oimage opt' = oimage opt"
    and "ostring opt' k \<noteq> ostring opt k \<Longrightarrow>
      readable m \<and> variable_address m = A_String k \<and> (\<exists>p. get_path tab m = Inr p \<and> lookup_setting t p \<noteq> None)"
  using assms read_value_keeps
  by (fastforce simp: read_option_def split: if_splits option.splits)+

lemma read_all_keeps:
  "fold_result (read_option sp tab t) es opt = Inr opt' \<Longrightarrow> oimage opt' = oimage opt
    \<and> (ostring opt' k \<noteq> ostring opt k \<longrightarrow> (\<exists>m \<in> set es. readable m \<and> variable_address m = A_String k
         \<and> (\<exists>p. get_path tab m = Inr p \<and> lookup_setting t p \<noteq> None)))"
proof (induction es arbitrary: opt)
  case (Cons m es)
  then obtain o1 where o1: "read_option sp tab t m opt = Inr o1"
    and rest: "fold_result (read_option sp tab t) es o1 = Inr opt'" by auto
  show ?case
    using Cons.IH [OF rest] read_option_keeps [OF o1] by (cases "ostring o1 k = ostring opt k") auto
qed simp

text \<open>The options that name an input, in the table.\<close>

definition input_paths :: "string list list" where
  "input_paths = [[''amplitudes_file''], [''input_data'', ''intensities_file''], [''real_image_file''],
     [''input_data'', ''real_image_file'']]"

definition names_input :: "metadata \<Rightarrow> bool" where
  "names_input m \<longleftrightarrow> readable m
     \<and> variable_address m \<in> {A_String S_diffraction_filename, A_String S_real_image_filename}"

lemma input_entries:
  "list_all (\<lambda>m. names_input m \<longrightarrow> option_path (variable_metadata a b c) m \<in> set input_paths) (variable_metadata a b c)"
  by (rule walked [where P = "list_all (\<lambda>m. names_input m \<longrightarrow>
        option_path (variable_metadata a b c) m \<in> set input_paths)"])
     (simp add: names_input_def table_chunks table_flags option_path_def parent_facts input_paths_def)

text \<open>
  Property C16 (safety): without a configuration file, or with one that has none of the four
  options that name an input, every start of the program ends with a fault: no reconstruction is
  begun, whatever else the file sets.
\<close>

theorem no_run_without_input:
  fixes engine_automatic engine_cpu engine_cuda :: int
  defines "tab \<equiv> variable_metadata engine_automatic engine_cpu engine_cuda"
  assumes none: "\<And>t p. conf ''uwrapc.conf'' = Some (Some t) \<Longrightarrow> path_keys p \<in> set input_paths \<Longrightarrow>
      lookup_setting t p = None"
  shows "\<exists>e. uwrapc_main sz engine conf passes fuel sp su pair pl lib hook speed tab st = Inl e"
proof (rule ccontr)
  define opt0 where "opt0 = set_defaults sp sz engine (opts st)"
  have start: "oimage opt0 P_diffraction = None" "oimage opt0 P_real_image = None"
    "ostring opt0 S_diffraction_filename = []" "ostring opt0 S_real_image_filename = []"
    by (simp_all add: opt0_def set_defaults_def default_strings_def)
  assume "\<nexists>e. uwrapc_main sz engine conf passes fuel sp su pair pl lib hook speed tab st = Inl e"
  then obtain r where "uwrapc_main sz engine conf passes fuel sp su pair pl lib hook speed tab st = Inr r"
    by (metis sum.exhaust)
  then obtain opt opt1 where read: "(case conf ''uwrapc.conf'' of None \<Rightarrow> Inr opt0
      | Some parsed \<Rightarrow> read_options_file sp tab (\<lambda>_. parsed) ''uwrapc.conf'' opt0) = Inr opt"
    and "load_input su opt = Inr opt1"
    by (auto simp: uwrapc_main_def uwrapc_from_file_def uwrapc_start_def check_options_and_load_images_def
        opt0_def cong: option.case_cong)
  then have some: "oimage opt P_diffraction \<noteq> None \<or> oimage opt P_real_image \<noteq> None
      \<or> ostring opt S_diffraction_filename \<noteq> [] \<or> ostring opt S_real_image_filename \<noteq> []"
    by (auto simp: load_input_def split: if_splits)
  then obtain t where t: "conf ''uwrapc.conf'' = Some (Some t)"
    and all: "fold_result (read_option sp tab t) tab opt0 = Inr opt"
    using read start by (auto simp: read_options_file_def split: option.splits)
  have "oimage opt = oimage opt0" using read_all_keeps [OF all] by blast
  then have "\<exists>k \<in> {S_diffraction_filename, S_real_image_filename}. ostring opt k \<noteq> ostring opt0 k"
    using some start by auto
  then obtain k where "k \<in> {S_diffraction_filename, S_real_image_filename}" "ostring opt k \<noteq> ostring opt0 k"
    by blast
  then obtain m p where m: "m \<in> set tab" "names_input m" and p: "get_path tab m = Inr p" "lookup_setting t p \<noteq> None"
    using read_all_keeps [OF all, of k] by (auto simp: names_input_def)
  have "path_keys p = option_path tab m"
    using get_path_keys [OF table_fitsD(6) [OF hawk_table_fits m(1) [unfolded tab_def]]] m(2) p(1)
    by (auto simp: tab_def names_input_def)
  then have "path_keys p \<in> set input_paths"
    using input_entries [of engine_automatic engine_cpu engine_cuda] m by (auto simp: tab_def list_all_iff)
  then show False using none [OF t, of p] p(2) by simp
qed

lemma no_run_without_input_witness:
  "\<exists>e. uwrapc_main 8 0 (\<lambda>_. None) 1 5 example_library example_setup (\<lambda>k v. [(k, v)]) counting_phaser example_saddle_lib
     (\<lambda>_. (None, None)) 1 (variable_metadata 0 1 2) (scheduled_hawk 4 3 2) = Inl e"
  by (rule no_run_without_input) simp

section \<open>Choices of older versions\<close>

text \<open>
  The level of the first support is the field of two options with different lists of choices:
  \<open>patterson_level_algorithm\<close> of older versions and \<open>autocorrelation_algorithm\<close>.
\<close>

lemma level_entries:
  "variable_metadata a b c ! 47 = entry ''patterson_level_algorithm'' Type_MultipleChoice Id_Patterson_Level_Algorithm
     (Some 0) [isSettableBeforeRun, isSettableDuringRun, isGettableBeforeRun, isGettableDuringRun, deprecated]
     [(FIXED, ''fixed''), (STEPPED, ''stepped''), (REAL_ERROR_CAPPED, ''real_error_capped''),
      (REAL_ERROR_ADAPTATIVE, ''real_error_adaptative''), (CONSTANT_AREA, ''constant_area''),
      (DECREASING_AREA, ''decreasing_area'')] (A_Int I_patterson_level_algorithm) None"
  "variable_metadata a b c ! 96 = entry ''autocorrelation_algorithm'' Type_MultipleChoice Id_Patterson_Level_Algorithm
     (Some 3) [isSettableBeforeRun, isSettableDuringRun, isGettableBeforeRun, isGettableDuringRun]
     [(FIXED, ''threshold''), (CONSTANT_AREA, ''area'')] (A_Int I_patterson_level_algorithm)
     (Some depends_on_initial_support_from_autocorrelation)"
  by (simp_all add: variable_metadata_def table_chunks)

lemma level_before:
  "list_all (\<lambda>m. written m \<longrightarrow> variable_address m \<noteq> A_Int I_patterson_level_algorithm) (take 96 (variable_metadata a b c))"
  by (simp add: variable_metadata_def table_chunks table_flags)

lemma storable_set_int:
  "storable m opt \<Longrightarrow> variable_address m \<noteq> A_Int k \<Longrightarrow> storable m (opt\<lparr>oint := (oint opt)(k := v)\<rparr>)"
  by (cases "variable_address m") (auto simp: storable_def)

lemma bad_level_not_written:
  assumes "list_all (\<lambda>m. written m \<longrightarrow> storable m opt) (variable_metadata a b c)" and "0 < passes"
    and "v \<noteq> FIXED" and "v \<noteq> CONSTANT_AREA"
  shows "write_options_file passes (variable_metadata a b c) (opt\<lparr>oint := (oint opt)(I_patterson_level_algorithm := v)\<rparr>)
    = Inl (Fatal ''Error invalid list value'')"
proof -
  define tab where "tab = variable_metadata a b c"
  define opt' where "opt' = opt\<lparr>oint := (oint opt)(I_patterson_level_algorithm := v)\<rparr>"
  have split: "tab = take 96 tab @ tab ! 96 # drop 97 tab"
    using id_take_nth_drop [of 96 tab] by (simp add: tab_def table_length)
  have fits: "table_fits tab" unfolding tab_def by (rule hawk_table_fits)
  have "\<exists>w. saved_value m opt' = Inr w" if m: "m \<in> set (take 96 tab)" "written m" for m
  proof (rule storable_saved)
    have "m \<in> set tab" using m(1) by (rule in_set_takeD)
    then show "entry_fits m"
      using table_values [of a b c] m(2) by (auto simp: tab_def values_fit_def entry_fits_def list_all_iff)
    have "variable_address m \<noteq> A_Int I_patterson_level_algorithm"
      using level_before [of a b c] m by (simp add: tab_def list_all_iff)
    then show "storable m opt'"
      using assms(1) \<open>m \<in> set tab\<close> m(2) storable_set_int by (simp add: opt'_def tab_def list_all_iff)
  qed
  moreover have "saved_value (tab ! 96) opt' = Inl (Fatal ''Error invalid list value'')"
    using assms(3,4) by (simp add: tab_def level_entries saved_value_def is_string_type_def load_int_def opt'_def)
  ultimately show ?thesis
    using write_options_fault [OF fits split assms(2), of opt'] unfolding tab_def [symmetric] opt'_def [symmetric]
    by (simp add: tab_def level_entries written_def readable_def)
qed

text \<open>
  Four choices of the deprecated \<open>patterson_level_algorithm\<close> are read
  without complaint, and the options read that way can no longer be written: the copy of the options
  made at the start ends the program with a complaint about a list value.
\<close>

lemma old_level_stops_the_writer:
  fixes engine_automatic engine_cpu engine_cuda :: int
  defines "tab \<equiv> variable_metadata engine_automatic engine_cpu engine_cuda"
  assumes look: "lookup_setting t ''patterson_level_algorithm'' = Some (C_String (Some s))"
    and old: "map to_lower s \<in> {''stepped'', ''real_error_capped'', ''real_error_adaptative'', ''decreasing_area''}"
    and "list_all (\<lambda>m. written m \<longrightarrow> storable m opt) tab" and "0 < passes"
  shows "\<exists>opt'. read_option sp tab t (tab ! 47) opt = Inr opt'
    \<and> write_options_file passes tab opt' = Inl (Fatal ''Error invalid list value'')"
proof -
  define v :: int where "v = the (choice_value (list_valid (tab ! 47)) (map to_lower s))"
  have v: "choice_value (list_valid (tab ! 47)) (map to_lower s) = Some v" "v \<in> {2, 3, 4, 6}"
    using old by (auto simp: v_def tab_def level_entries)
  have "length (map to_lower s) \<le> 30" using old by fastforce
  then have "length s \<le> 30" by simp
  moreover have "get_path tab (tab ! 47) = Inr ''patterson_level_algorithm''"
    by (simp add: get_path_def path_from.simps [of _ "Some 0"] tab_def level_entries parent_facts option_string_size_def)
  ultimately have "read_option sp tab t (tab ! 47) opt = store_int (A_Int I_patterson_level_algorithm) v opt"
    using look v(1)
    by (simp add: read_option_def readable_def tab_def level_entries read_value_def is_string_type_def read_choice_def
        config_lookup_string_def config_setting_get_string_def option_string_size_def)
  also have "\<dots> = Inr (opt\<lparr>oint := (oint opt)(I_patterson_level_algorithm := v)\<rparr>)"
    using v(2) by (auto simp: store_int_def wrap32_def)
  finally have "read_option sp tab t (tab ! 47) opt = Inr (opt\<lparr>oint := (oint opt)(I_patterson_level_algorithm := v)\<rparr>)" .
  moreover have "v \<noteq> FIXED" and "v \<noteq> CONSTANT_AREA" using v(2) by auto
  then have "write_options_file passes tab (opt\<lparr>oint := (oint opt)(I_patterson_level_algorithm := v)\<rparr>)
      = Inl (Fatal ''Error invalid list value'')"
    unfolding tab_def by (rule bad_level_not_written [OF assms(4) [unfolded tab_def] assms(5)])
  ultimately show ?thesis by (intro exI conjI)
qed

lemma old_level_stops_the_writer_witness:
  "\<exists>opt'. read_option example_library (variable_metadata 0 1 2)
       (C_Group [Setting (Some ''patterson_level_algorithm'') (C_String (Some ''Decreasing_Area''))])
       (variable_metadata 0 1 2 ! 47) example_saved = Inr opt'
     \<and> write_options_file 1 (variable_metadata 0 1 2) opt' = Inl (Fatal ''Error invalid list value'')"
proof (rule old_level_stops_the_writer [OF _ _ example_saved_storable])
  show "lookup_setting (C_Group [Setting (Some ''patterson_level_algorithm'') (C_String (Some ''Decreasing_Area''))])
      ''patterson_level_algorithm'' = Some (C_String (Some ''Decreasing_Area''))"
    using path_keys_plain [of "''patterson_level_algorithm''"]
    by (intro lookup_saved) (simp_all add: plain_def member_at_def key_def shape_def is_group_def)
next
  show "map to_lower ''Decreasing_Area'' \<in> {''stepped'', ''real_error_capped'', ''real_error_adaptative'', ''decreasing_area''}"
    by code_simp
qed simp

end
