(* ===== verification/Math_Parser.thy ===== *)
theory Math_Parser
  imports Image
begin

text \<open>
  Image formulas (\<open>src/math_parser.c\<close>): a formula such as \<open>(A - B) / abs(C)\<close> is cut into
  tokens, put into postfix order by the precedences of its operators, and evaluated on a stack
  of images and scalars.

  Every token of a formula owns its image (\<open>tokenize_string\<close> duplicates the files' images), and
  an operator that pops a token either pushes it again, changed, or drops it, so tokens are
  values.  The flag \<open>phased\<close> and the release of memory are not part of the model, and the
  messages of error tokens are kept without the values printed into them.
\<close>

section \<open>Operators and tokens\<close>

datatype token_name =
    Operand | Comma | LeftParenthesis | RightParenthesis | Addition | UnaryPlus | Subtraction
  | UnaryMinus | Multiplication | Division | Exponentiation | AbsoluteValue | FourierTransform
  | InverseFourierTransform | Integrate | RealPart | ImaginaryPart | ImaginaryUnit
  | ComplexArgument | Exponential | Logarythm | Minimum | Maximum | ComplexConjugate
  | SmallerThan | GreaterThan | LogicalAnd | LogicalOr | Equality | PositionX | PositionY
  | PositionZ | SquareRoot | ConditionalIf | Mask | SetMask

datatype associativity = LeftAssociative | RightAssociative | NonAssociative

text \<open>
  \<open>name\<close> stands for the pointer to the function as well: no two operators share either.  The
  position of an operator is never read and every operator has one identifier.
\<close>

record operator =
  op_name :: token_name
  n_operands :: nat
  precedence :: int
  assoc :: associativity
  op_identifier :: string

datatype token =
    T_Image image
  | T_Scalar complex
  | T_Operator operator
  | T_Error string

text \<open>
  The functions of the libraries the operators call; \<open>strtod s\<close> is the number at the start
  of \<open>s\<close> and how many characters it takes.
\<close>

record mathlib =
  sp_image_invert :: "image \<Rightarrow> image"
  sp_image_get_mask :: "image \<Rightarrow> image"
  sp_image_integrate :: "image \<Rightarrow> complex"
  sp_coords_from_index :: "image \<Rightarrow> nat \<Rightarrow> real \<times> real \<times> real"
  sp_cpow :: "complex \<Rightarrow> complex \<Rightarrow> complex"
  sp_cexp :: "complex \<Rightarrow> complex"
  sp_clog :: "complex \<Rightarrow> complex"
  sp_carg :: "complex \<Rightarrow> real"
  strtod :: "string \<Rightarrow> real \<times> nat"

section \<open>The operators on the stack\<close>

text \<open>
  The head of the list is the top of the stack.  Popping from an empty stack reads
  \<open>stack[-1]\<close>, pushing on a full one writes behind the array.
\<close>

definition stack_max :: nat where
  "stack_max = 100"

definition token_stack_pop :: "token list \<Rightarrow> (token \<times> token list) result" where
  "token_stack_pop st = (case st of [] \<Rightarrow> Inl Out_Of_Bounds | a # st' \<Rightarrow> Inr (a, st'))"

definition token_stack_push :: "token \<Rightarrow> token list \<Rightarrow> token list result" where
  "token_stack_push a st = (if stack_max \<le> length st then Inl Out_Of_Bounds else Inr (a # st))"

definition pop1 :: "token list \<Rightarrow> (token \<Rightarrow> token list \<Rightarrow> 'a result) \<Rightarrow> 'a result" where
  "pop1 st f = bind_result (token_stack_pop st) (\<lambda>(a, st). f a st)"

lemma token_stack_simps [simp]:
  "pop1 [] f = Inl Out_Of_Bounds" "pop1 (a # st) f = f a st"
  "length st < stack_max \<Longrightarrow> token_stack_push a st = Inr (a # st)"
  by (simp_all add: pop1_def token_stack_pop_def token_stack_push_def)

text \<open>
  A loop over the pixels of an image that reads a second one at the same indices: a second
  image that is smaller is read out of bounds.
\<close>

definition pointwise :: "(complex \<Rightarrow> complex) \<Rightarrow> image \<Rightarrow> image" where
  "pointwise f a = on_pixels (sp_image_size a) (\<lambda>_ z. f z) a"

definition pointwise2 :: "(complex \<Rightarrow> complex \<Rightarrow> complex) \<Rightarrow> image \<Rightarrow> image \<Rightarrow> image result" where
  "pointwise2 f a b =
     (if sp_image_size b < sp_image_size a then Inl Out_Of_Bounds
      else Inr (on_pixels (sp_image_size a) (\<lambda>i z. f z (pixels b ! i)) a))"

text \<open>
  The recurring shape of a binary operator that works pixel by pixel, an image with a
  scalar on either side included; the kind of operand that is pushed is that of the image.
\<close>

definition by_pixels :: "(complex \<Rightarrow> complex \<Rightarrow> complex) \<Rightarrow> token \<Rightarrow> token \<Rightarrow> token list \<Rightarrow> token list result" where
  "by_pixels f a b st =
     (case (a, b) of
        (T_Image a, T_Image b) \<Rightarrow> bind_result (pointwise2 f a b) (\<lambda>c. token_stack_push (T_Image c) st)
      | (T_Image a, T_Scalar y) \<Rightarrow> token_stack_push (T_Image (pointwise (\<lambda>x. f x y) a)) st
      | (T_Scalar x, T_Image b) \<Rightarrow> token_stack_push (T_Image (pointwise (\<lambda>y. f x y) b)) st
      | (T_Scalar x, T_Scalar y) \<Rightarrow> token_stack_push (T_Scalar (f x y)) st
      | _ \<Rightarrow> Inl Abort)"

definition token_stack_add :: "spimage \<Rightarrow> token list \<Rightarrow> token list result" where
  "token_stack_add sp st = pop1 st (\<lambda>a st. pop1 st (\<lambda>b st.
     case (a, b) of
       (T_Image a, T_Image b) \<Rightarrow> token_stack_push (T_Image (sp_image_add sp a b)) st
     | (T_Image a, T_Scalar y) \<Rightarrow> token_stack_push (T_Image (pointwise (\<lambda>x. x + y) a)) st
     | (T_Scalar x, T_Image b) \<Rightarrow> token_stack_push (T_Image (pointwise (\<lambda>y. y + x) b)) st
     | (T_Scalar x, T_Scalar y) \<Rightarrow> token_stack_push (T_Scalar (x + y)) st
     | _ \<Rightarrow> Inl Abort))"

definition token_stack_mul :: "spimage \<Rightarrow> token list \<Rightarrow> token list result" where
  "token_stack_mul sp st = pop1 st (\<lambda>a st. pop1 st (\<lambda>b st.
     case (a, b) of
       (T_Image a, T_Image b) \<Rightarrow> token_stack_push (T_Image (sp_image_mul_elements sp a b)) st
     | (T_Image a, T_Scalar y) \<Rightarrow> token_stack_push (T_Image (pointwise (\<lambda>x. x * y) a)) st
     | (T_Scalar x, T_Image b) \<Rightarrow> token_stack_push (T_Image (pointwise (\<lambda>y. y * x) b)) st
     | (T_Scalar x, T_Scalar y) \<Rightarrow> token_stack_push (T_Scalar (x * y)) st
     | _ \<Rightarrow> Inl Abort))"

text \<open>A division inverts the real and the imaginary part of a scalar one by one.\<close>

definition parts_inverted :: "complex \<Rightarrow> complex" where
  "parts_inverted z = sp_cinit (if sp_real z \<noteq> 0 then 1 / sp_real z else sp_real z)
     (if sp_imag z \<noteq> 0 then 1 / sp_imag z else sp_imag z)"

definition token_stack_div :: "spimage \<Rightarrow> mathlib \<Rightarrow> token list \<Rightarrow> token list result" where
  "token_stack_div sp ml st = pop1 st (\<lambda>b st.
     bind_result
       (case b of
          T_Image b \<Rightarrow> Inr (T_Image (sp_image_invert ml b))
        | T_Scalar y \<Rightarrow> Inr (T_Scalar (parts_inverted y))
        | _ \<Rightarrow> Inl Abort) (\<lambda>b.
     bind_result (token_stack_push b st) (token_stack_mul sp)))"

definition token_stack_sub :: "spimage \<Rightarrow> token list \<Rightarrow> token list result" where
  "token_stack_sub sp st = pop1 st (\<lambda>b st.
     bind_result
       (case b of
          T_Scalar y \<Rightarrow> Inr (T_Scalar (y * sp_cinit (-1) 0))
        | T_Image b \<Rightarrow> Inr (T_Image (sp_image_scale sp b (-1)))
        | _ \<Rightarrow> Inl Abort) (\<lambda>b.
     bind_result (token_stack_push b st) (token_stack_add sp)))"

text \<open>Operators of one operand, on the pixels of an image or on a scalar.\<close>

definition on_token :: "(complex \<Rightarrow> complex) \<Rightarrow> token \<Rightarrow> token result" where
  "on_token f a =
     (case a of
        T_Image a \<Rightarrow> Inr (T_Image (pointwise f a))
      | T_Scalar x \<Rightarrow> Inr (T_Scalar (f x))
      | _ \<Rightarrow> Inl Abort)"

definition unary :: "(token \<Rightarrow> token result) \<Rightarrow> token list \<Rightarrow> token list result" where
  "unary f st = pop1 st (\<lambda>a st. bind_result (f a) (\<lambda>b. token_stack_push b st))"

definition image_only :: "string \<Rightarrow> (image \<Rightarrow> token) \<Rightarrow> token \<Rightarrow> token result" where
  "image_only msg f a = Inr (case a of T_Image a \<Rightarrow> f a | _ \<Rightarrow> T_Error msg)"

definition token_stack_abs :: "spimage \<Rightarrow> token list \<Rightarrow> token list result" where
  "token_stack_abs sp = unary (\<lambda>a.
     case a of
       T_Image a \<Rightarrow> Inr (T_Image (sp_image_dephase sp a))
     | T_Scalar x \<Rightarrow> Inr (T_Scalar (sp_cinit (sp_cabs x) 0))
     | _ \<Rightarrow> Inl Abort)"

definition token_stack_conj :: "token list \<Rightarrow> token list result" where
  "token_stack_conj = unary (on_token (\<lambda>z. sp_cinit (sp_real z) (- sp_imag z)))"

definition token_stack_unary_minus :: "spimage \<Rightarrow> token list \<Rightarrow> token list result" where
  "token_stack_unary_minus sp = unary (\<lambda>a.
     case a of
       T_Image a \<Rightarrow> Inr (T_Image (sp_image_scale sp a (-1)))
     | T_Scalar x \<Rightarrow> Inr (T_Scalar (sp_cinit (- sp_real x) (- sp_imag x)))
     | _ \<Rightarrow> Inl Abort)"

definition token_stack_exp :: "mathlib \<Rightarrow> token list \<Rightarrow> token list result" where
  "token_stack_exp ml = unary (\<lambda>a. Inr (case a of
       T_Image a \<Rightarrow> T_Image (pointwise (sp_cexp ml) a) | T_Scalar x \<Rightarrow> T_Scalar (sp_cexp ml x) | _ \<Rightarrow> a))"

definition token_stack_log :: "mathlib \<Rightarrow> token list \<Rightarrow> token list result" where
  "token_stack_log ml = unary (\<lambda>a. Inr (case a of
       T_Image a \<Rightarrow> T_Image (pointwise (sp_clog ml) a) | T_Scalar x \<Rightarrow> T_Scalar (sp_clog ml x) | _ \<Rightarrow> a))"

definition token_stack_sqrt :: "mathlib \<Rightarrow> token list \<Rightarrow> token list result" where
  "token_stack_sqrt ml = unary (on_token (\<lambda>z. sp_cpow ml z (sp_cinit (1 / 2) 0)))"

definition token_stack_mask :: "mathlib \<Rightarrow> token list \<Rightarrow> token list result" where
  "token_stack_mask ml = unary (image_only ''Can only do mask on images!'' (\<lambda>a. T_Image (sp_image_get_mask ml a)))"

text \<open>After a transform all pixels are valid.\<close>

definition all_valid :: "image \<Rightarrow> image" where
  "all_valid b = b\<lparr>mask_data := for_pixels (sp_image_size b) (\<lambda>_ _. 1) (mask_data b)\<rparr>"

definition token_stack_fft :: "spimage \<Rightarrow> token list \<Rightarrow> token list result" where
  "token_stack_fft sp = unary (image_only ''Can only do fft on images!'' (\<lambda>a.
     T_Image (all_valid (sp_image_fft sp a))))"

definition token_stack_ifft :: "spimage \<Rightarrow> token list \<Rightarrow> token list result" where
  "token_stack_ifft sp = unary (image_only ''Can only do ifft on images!'' (\<lambda>a.
     T_Image (all_valid (sp_image_ifft sp (a\<lparr>shifted := True\<rparr>)))))"

text \<open>
  \<open>token_stack_real\<close>, \<open>token_stack_arg\<close>, \<open>token_stack_imag\<close> and
  \<open>token_stack_imaginary_unit\<close> treat what is not a scalar as an image, and follow its null
  image when it is not one.  The argument of a scalar keeps the imaginary part.
\<close>

definition scalar_or_image :: "(complex \<Rightarrow> complex) \<Rightarrow> (complex \<Rightarrow> complex) \<Rightarrow> token \<Rightarrow> token result" where
  "scalar_or_image f g a =
     (case a of
        T_Scalar x \<Rightarrow> Inr (T_Scalar (f x))
      | T_Image a \<Rightarrow> Inr (T_Image (pointwise g a))
      | _ \<Rightarrow> Inl Null_Pointer)"

definition token_stack_real :: "token list \<Rightarrow> token list result" where
  "token_stack_real = unary (scalar_or_image (\<lambda>z. sp_cinit (sp_real z) 0) (\<lambda>z. sp_cinit (sp_real z) 0))"

definition token_stack_imag :: "token list \<Rightarrow> token list result" where
  "token_stack_imag = unary (scalar_or_image (\<lambda>z. sp_cinit 0 (sp_imag z)) (\<lambda>z. sp_cinit 0 (sp_imag z)))"

definition token_stack_arg :: "mathlib \<Rightarrow> token list \<Rightarrow> token list result" where
  "token_stack_arg ml = unary (scalar_or_image (\<lambda>z. sp_cinit (sp_carg ml z) (sp_imag z)) (\<lambda>z. sp_cinit (sp_carg ml z) 0))"

definition token_stack_imaginary_unit :: "token list \<Rightarrow> token list result" where
  "token_stack_imaginary_unit = unary (scalar_or_image (\<lambda>z. z * sp_cinit 0 1) (\<lambda>z. z * sp_cinit 0 1))"

definition token_stack_integrate :: "mathlib \<Rightarrow> token list \<Rightarrow> token list result" where
  "token_stack_integrate ml = unary (\<lambda>a.
     case a of
       T_Scalar x \<Rightarrow> Inr (T_Scalar x)
     | T_Image a \<Rightarrow> Inr (T_Scalar (sp_image_integrate ml a))
     | _ \<Rightarrow> Inl Null_Pointer)"

text \<open>The coordinates of the pixels, from the top left corner.\<close>

definition token_stack_pos :: "(real \<times> real \<times> real \<Rightarrow> real) \<Rightarrow> mathlib \<Rightarrow> token list \<Rightarrow> token list result" where
  "token_stack_pos coord ml = unary (image_only ''Position operators only make sense for images!'' (\<lambda>a.
     T_Image (on_pixels (sp_image_size a) (\<lambda>i _. sp_cinit (coord (sp_coords_from_index ml a i)) 0) a)))"

definition token_stack_pos_x :: "mathlib \<Rightarrow> token list \<Rightarrow> token list result" where
  "token_stack_pos_x = token_stack_pos fst"

definition token_stack_pos_y :: "mathlib \<Rightarrow> token list \<Rightarrow> token list result" where
  "token_stack_pos_y = token_stack_pos (fst \<circ> snd)"

definition token_stack_pos_z :: "mathlib \<Rightarrow> token list \<Rightarrow> token list result" where
  "token_stack_pos_z = token_stack_pos (snd \<circ> snd)"

text \<open>Operators of two operands; the second one is on top.\<close>

definition token_stack_pow :: "mathlib \<Rightarrow> token list \<Rightarrow> token list result" where
  "token_stack_pow ml st = pop1 st (\<lambda>b st. pop1 st (\<lambda>a st.
     case b of
       T_Scalar y \<Rightarrow>
         token_stack_push (case a of
             T_Image a \<Rightarrow> T_Image (pointwise (\<lambda>x. sp_cpow ml x y) a)
           | T_Scalar x \<Rightarrow> T_Scalar (sp_cpow ml x y)
           | _ \<Rightarrow> a) st
     | _ \<Rightarrow> token_stack_push (T_Error ''Can only exponentiate to a scalar power!'') st))"

definition masked :: "(nat \<Rightarrow> complex) \<Rightarrow> image \<Rightarrow> image" where
  "masked m a = a\<lparr>mask_data := for_pixels (sp_image_size a) (\<lambda>i _. c_int_of_real (sp_cabs (m i))) (mask_data a)\<rparr>"

definition token_stack_set_mask :: "token list \<Rightarrow> token list result" where
  "token_stack_set_mask st = pop1 st (\<lambda>b st. pop1 st (\<lambda>a st.
     case (a, b) of
       (T_Image a, T_Image b) \<Rightarrow>
         if sp_image_size b < sp_image_size a then Inl Out_Of_Bounds
         else token_stack_push (T_Image (masked (\<lambda>i. pixels b ! i) a)) st
     | (T_Image a, T_Scalar y) \<Rightarrow> token_stack_push (T_Image (masked (\<lambda>_. y) a)) st
     | (T_Image a, _) \<Rightarrow> if sp_image_size a = 0 then token_stack_push (T_Image a) st else Inl Abort
     | _ \<Rightarrow> token_stack_push (T_Error ''Can only set mask on images!'') st))"

definition parts2 :: "(real \<Rightarrow> real \<Rightarrow> real) \<Rightarrow> complex \<Rightarrow> complex \<Rightarrow> complex" where
  "parts2 f x y = sp_cinit (f (sp_real x) (sp_real y)) (f (sp_imag x) (sp_imag y))"

definition token_stack_min :: "token list \<Rightarrow> token list result" where
  "token_stack_min st = pop1 st (\<lambda>a st. pop1 st (\<lambda>b st. by_pixels (parts2 min) a b st))"

definition token_stack_max :: "token list \<Rightarrow> token list result" where
  "token_stack_max st = pop1 st (\<lambda>a st. pop1 st (\<lambda>b st. by_pixels (parts2 max) a b st))"

definition compare_pixels :: "(complex \<Rightarrow> complex \<Rightarrow> bool) \<Rightarrow> token list \<Rightarrow> token list result" where
  "compare_pixels P st = pop1 st (\<lambda>b st. pop1 st (\<lambda>a st.
     by_pixels (\<lambda>x y. sp_cinit (if P x y then 1 else 0) 0) a b st))"

definition token_stack_smaller_than :: "token list \<Rightarrow> token list result" where
  "token_stack_smaller_than = compare_pixels (\<lambda>x y. sp_cabs x < sp_cabs y)"

definition token_stack_greater_than :: "token list \<Rightarrow> token list result" where
  "token_stack_greater_than = compare_pixels (\<lambda>x y. sp_cabs x > sp_cabs y)"

definition token_stack_logical_and :: "token list \<Rightarrow> token list result" where
  "token_stack_logical_and = compare_pixels (\<lambda>x y. sp_cabs x \<noteq> 0 \<and> sp_cabs y \<noteq> 0)"

definition token_stack_logical_or :: "token list \<Rightarrow> token list result" where
  "token_stack_logical_or = compare_pixels (\<lambda>x y. sp_cabs x \<noteq> 0 \<or> sp_cabs y \<noteq> 0)"

definition token_stack_equality :: "token list \<Rightarrow> token list result" where
  "token_stack_equality = compare_pixels (\<lambda>x y. x = y)"

text \<open>
  The choice: a scalar condition picks an operand, an image picks for each of its pixels, in
  place of the first image there is among the two choices and the condition; a choice too
  small for a pixel that is copied from or to it is read or written out of bounds.  Nothing is
  pushed when a choice is neither an image nor a scalar.
\<close>

definition choose_pixels :: "image \<Rightarrow> (nat \<Rightarrow> complex \<Rightarrow> complex) \<Rightarrow> (nat \<Rightarrow> complex \<Rightarrow> complex) \<Rightarrow> image \<Rightarrow> image" where
  "choose_pixels cond f g a =
     on_pixels (sp_image_size cond) (\<lambda>i z. if sp_cabs (pixels cond ! i) \<noteq> 0 then f i z else g i z) a"

definition misses :: "(complex \<Rightarrow> bool) \<Rightarrow> image \<Rightarrow> image \<Rightarrow> bool" where
  "misses P cond b \<longleftrightarrow> list_ex (\<lambda>i. P (pixels cond ! i) \<and> sp_image_size b \<le> i) [0..<sp_image_size cond]"

definition token_stack_if :: "token list \<Rightarrow> token list result" where
  "token_stack_if st = pop1 st (\<lambda>c st. pop1 st (\<lambda>b st. pop1 st (\<lambda>a st.
     case a of
       T_Scalar x \<Rightarrow> token_stack_push (if sp_cabs x \<noteq> 0 then b else c) st
     | T_Image a \<Rightarrow>
         (case (b, c) of
            (T_Image b, T_Image c) \<Rightarrow>
              if misses (\<lambda>z. sp_cabs z = 0) a b \<or> misses (\<lambda>z. sp_cabs z = 0) a c then Inl Out_Of_Bounds
              else token_stack_push (T_Image (choose_pixels a (\<lambda>i z. z) (\<lambda>i z. pixels c ! i) b)) st
          | (T_Image b, T_Scalar y) \<Rightarrow>
              if misses (\<lambda>z. sp_cabs z = 0) a b then Inl Out_Of_Bounds
              else token_stack_push (T_Image (choose_pixels a (\<lambda>i z. z) (\<lambda>i z. y) b)) st
          | (T_Scalar y, T_Image c) \<Rightarrow>
              if misses (\<lambda>z. sp_cabs z \<noteq> 0) a c then Inl Out_Of_Bounds
              else token_stack_push (T_Image (choose_pixels a (\<lambda>i z. y) (\<lambda>i z. z) c)) st
          | (T_Scalar y, T_Scalar z) \<Rightarrow>
              token_stack_push (T_Image (choose_pixels a (\<lambda>i _. y) (\<lambda>i _. z) a)) st
          | _ \<Rightarrow> Inr st)
     | _ \<Rightarrow> Inl Abort)))"

section \<open>The table of operators\<close>

definition op_entry :: "token_name \<Rightarrow> nat \<Rightarrow> int \<Rightarrow> associativity \<Rightarrow> string \<Rightarrow> operator" where
  "op_entry n k p as s = \<lparr>op_name = n, n_operands = k, precedence = p, assoc = as, op_identifier = s\<rparr>"

definition operators_1 :: "operator list" where
  "operators_1 =
    [op_entry Addition 2 1 LeftAssociative ''+'', op_entry UnaryPlus 1 3 RightAssociative ''+'',
     op_entry Subtraction 2 1 LeftAssociative ''-'', op_entry UnaryMinus 1 3 RightAssociative ''-'',
     op_entry Multiplication 2 2 LeftAssociative ''*'', op_entry Division 2 2 LeftAssociative ''/'',
     op_entry SmallerThan 2 0 LeftAssociative ''<'', op_entry GreaterThan 2 0 LeftAssociative ''>'',
     op_entry SetMask 1 5 NonAssociative ''set_mask'', op_entry ComplexConjugate 1 5 NonAssociative ''conj'',
     op_entry Mask 1 5 NonAssociative ''mask'', op_entry SquareRoot 1 5 NonAssociative ''sqrt'',
     op_entry AbsoluteValue 1 5 NonAssociative ''abs'', op_entry Exponentiation 1 4 RightAssociative ''^'',
     op_entry FourierTransform 1 5 NonAssociative ''fft'',
     op_entry InverseFourierTransform 1 5 NonAssociative ''ifft'']"

definition operators_2 :: "operator list" where
  "operators_2 =
    [op_entry Integrate 1 5 NonAssociative ''sum'', op_entry ComplexArgument 1 5 NonAssociative ''arg'',
     op_entry Exponential 1 5 NonAssociative ''exp'', op_entry Logarythm 1 5 NonAssociative ''log'',
     op_entry Minimum 2 5 NonAssociative ''min'', op_entry Maximum 2 5 NonAssociative ''max'',
     op_entry PositionX 1 5 NonAssociative ''posx'', op_entry PositionY 1 5 NonAssociative ''posy'',
     op_entry PositionZ 1 5 NonAssociative ''posz'', op_entry RealPart 1 5 NonAssociative ''re'',
     op_entry ConditionalIf 3 5 NonAssociative ''if'', op_entry ImaginaryPart 1 5 NonAssociative ''im'',
     op_entry LogicalAnd 2 (-2) LeftAssociative ''&&'', op_entry LogicalOr 2 (-2) LeftAssociative ''||'',
     op_entry Equality 2 (-1) LeftAssociative ''=='', op_entry ImaginaryUnit 1 3 NonAssociative ''i'',
     op_entry Comma 2 (-3) NonAssociative '','']"

definition operator_table :: "operator list" where
  "operator_table = operators_1 @ operators_2"

text \<open>The function an operator points to; \<open>token_stack_unary_plus\<close> and \<open>token_stack_comma\<close> do nothing.\<close>

fun apply_op :: "spimage \<Rightarrow> mathlib \<Rightarrow> token_name \<Rightarrow> token list \<Rightarrow> token list result" where
  "apply_op sp ml Addition = token_stack_add sp"
| "apply_op sp ml UnaryPlus = Inr"
| "apply_op sp ml Subtraction = token_stack_sub sp"
| "apply_op sp ml UnaryMinus = token_stack_unary_minus sp"
| "apply_op sp ml Multiplication = token_stack_mul sp"
| "apply_op sp ml Division = token_stack_div sp ml"
| "apply_op sp ml SmallerThan = token_stack_smaller_than"
| "apply_op sp ml GreaterThan = token_stack_greater_than"
| "apply_op sp ml SetMask = token_stack_set_mask"
| "apply_op sp ml ComplexConjugate = token_stack_conj"
| "apply_op sp ml Mask = token_stack_mask ml"
| "apply_op sp ml SquareRoot = token_stack_sqrt ml"
| "apply_op sp ml AbsoluteValue = token_stack_abs sp"
| "apply_op sp ml Exponentiation = token_stack_pow ml"
| "apply_op sp ml FourierTransform = token_stack_fft sp"
| "apply_op sp ml InverseFourierTransform = token_stack_ifft sp"
| "apply_op sp ml Integrate = token_stack_integrate ml"
| "apply_op sp ml ComplexArgument = token_stack_arg ml"
| "apply_op sp ml Exponential = token_stack_exp ml"
| "apply_op sp ml Logarythm = token_stack_log ml"
| "apply_op sp ml Minimum = token_stack_min"
| "apply_op sp ml Maximum = token_stack_max"
| "apply_op sp ml PositionX = token_stack_pos_x ml"
| "apply_op sp ml PositionY = token_stack_pos_y ml"
| "apply_op sp ml PositionZ = token_stack_pos_z ml"
| "apply_op sp ml RealPart = token_stack_real"
| "apply_op sp ml ConditionalIf = token_stack_if"
| "apply_op sp ml ImaginaryPart = token_stack_imag"
| "apply_op sp ml LogicalAnd = token_stack_logical_and"
| "apply_op sp ml LogicalOr = token_stack_logical_or"
| "apply_op sp ml Equality = token_stack_equality"
| "apply_op sp ml ImaginaryUnit = token_stack_imaginary_unit"
| "apply_op sp ml Comma = Inr"
| "apply_op sp ml _ = (\<lambda>_. Inl Null_Pointer)"

section \<open>Evaluation of the postfix form\<close>

text \<open>A formula ends in a fault, in an error token with its message, or in a value.\<close>

datatype math_stop = M_Fault fault | M_Error string

definition bind_math :: "math_stop + 'a \<Rightarrow> ('a \<Rightarrow> math_stop + 'b) \<Rightarrow> math_stop + 'b" where
  "bind_math m f = (case m of Inl e \<Rightarrow> Inl e | Inr a \<Rightarrow> f a)"

definition faulty :: "'a result \<Rightarrow> math_stop + 'a" where
  "faulty r = (case r of Inl e \<Rightarrow> Inl (M_Fault e) | Inr a \<Rightarrow> Inr a)"

lemma math_simps [simp]:
  "bind_math (Inl e) f = Inl e" "bind_math (Inr a) f = f a"
  "faulty (Inl x) = Inl (M_Fault x)" "faulty (Inr a) = Inr a"
  by (simp_all add: bind_math_def faulty_def)

text \<open>After an operator the top of the stack is popped, looked at and pushed again.\<close>

definition peeped :: "token list \<Rightarrow> math_stop + token list" where
  "peeped st = (case st of
      [] \<Rightarrow> Inl (M_Fault Out_Of_Bounds)
    | T_Error msg # _ \<Rightarrow> Inl (M_Error msg)
    | _ \<Rightarrow> Inr st)"

fun evaluate_from :: "spimage \<Rightarrow> mathlib \<Rightarrow> token list \<Rightarrow> token list \<Rightarrow> math_stop + token list" where
  "evaluate_from sp ml [] st = Inr st"
| "evaluate_from sp ml (T_Operator op # ts) st =
     (if length st < n_operands op then Inl (M_Error ''operands expected'')
      else bind_math (faulty (apply_op sp ml (op_name op) st)) (\<lambda>st.
           bind_math (peeped st) (evaluate_from sp ml ts)))"
| "evaluate_from sp ml (t # ts) st = bind_math (faulty (token_stack_push t st)) (evaluate_from sp ml ts)"

definition evaluate_postfix :: "spimage \<Rightarrow> mathlib \<Rightarrow> token list \<Rightarrow> math_stop + token" where
  "evaluate_postfix sp ml postfix =
     bind_math (evaluate_from sp ml postfix []) (\<lambda>st.
       case st of [t] \<Rightarrow> Inr t | _ \<Rightarrow> Inl (M_Error ''Stack contains the wrong number of members after evaluation''))"

section \<open>From infix to postfix\<close>

text \<open>
  The stack holds operators, as tokens; the two loops that pop from it, and the loop over the
  infix tokens.  There is never more output than input, so the postfix array is large enough.
\<close>

fun pop_higher :: "int \<Rightarrow> operator list \<Rightarrow> operator list \<times> operator list" where
  "pop_higher p [] = ([], [])"
| "pop_higher p (t # st) =
     (if p < precedence t then (let (out, rest) = pop_higher p st in (t # out, rest)) else ([], t # st))"

fun pop_equal :: "int \<Rightarrow> operator list \<Rightarrow> operator list \<times> operator list" where
  "pop_equal p [] = ([], [])"
| "pop_equal p (t # st) =
     (if p = precedence t then (let (out, rest) = pop_equal p st in (t # out, rest)) else ([], t # st))"

fun parse_from :: "token list \<Rightarrow> operator list \<Rightarrow> token list result" where
  "parse_from [] st = Inr (map T_Operator st)"
| "parse_from (T_Operator op # ts) st =
     (let (out1, st1) = pop_higher (precedence op) st;
          (out2, st2) = (if assoc op = LeftAssociative then pop_equal (precedence op) st1 else ([], st1)) in
      if stack_max \<le> length st2 then Inl Out_Of_Bounds
      else bind_result (parse_from ts (op # st2)) (\<lambda>post. Inr (map T_Operator (out1 @ out2) @ post)))"
| "parse_from (t # ts) st = bind_result (parse_from ts st) (\<lambda>post. Inr (t # post))"

definition parse_tokens :: "token list \<Rightarrow> token list result" where
  "parse_tokens infix_tokens = parse_from infix_tokens []"

section \<open>Tokens\<close>

text \<open>
  \<open>index_from_variable_name\<close>: the letters are digits to the base 26, \<open>A\<close> is the digit 0.
\<close>

definition index_from_variable_name :: "string \<Rightarrow> nat" where
  "index_from_variable_name name = fold (\<lambda>c n. 26 * n + (of_char c - 65)) name 0"

definition is_upper :: "char \<Rightarrow> bool" where
  "is_upper c \<longleftrightarrow> 65 \<le> (of_char c :: nat) \<and> (of_char c :: nat) \<le> 90"

definition is_digit :: "char \<Rightarrow> bool" where
  "is_digit c \<longleftrightarrow> 48 \<le> (of_char c :: nat) \<and> (of_char c :: nat) \<le> 57"

definition is_blank :: "char \<Rightarrow> bool" where
  "is_blank c \<longleftrightarrow> of_char c \<in> {32, 9 :: nat}"

fun find_operator :: "operator list \<Rightarrow> string \<Rightarrow> nat option" where
  "find_operator [] s = None"
| "find_operator (op # ops) s =
     (if take (length (op_identifier op)) s = op_identifier op then Some 0
      else map_option Suc (find_operator ops s))"

definition ends_operand :: "token_name option \<Rightarrow> bool" where
  "ends_operand last_token \<longleftrightarrow> last_token \<in> {Some Operand, Some RightParenthesis, Some ImaginaryUnit}"

text \<open>
  The operator read at the start of a text, as a sign when it does not follow an operand (the
  entry after the binary operator in the table), and \<open>i\<close> as a number then.
\<close>

datatype read_op = Read_Unit | Read_Operator operator string

definition read_operator :: "token_name option \<Rightarrow> string \<Rightarrow> read_op option" where
  "read_operator last_token s =
     (case find_operator operator_table s of
        None \<Rightarrow> None
      | Some j \<Rightarrow>
          let op = operator_table ! j in
          if op_name op \<in> {Subtraction, Addition} \<and> \<not> ends_operand last_token
          then let op = operator_table ! Suc j in Some (Read_Operator op (drop (length (op_identifier op)) s))
          else if op_name op = ImaginaryUnit \<and> \<not> ends_operand last_token then Some Read_Unit
          else Some (Read_Operator op (drop (length (op_identifier op)) s)))"

lemma read_operator_rest: "read_operator last_token s = Some (Read_Operator op rest) \<Longrightarrow> length rest \<le> length s"
  by (auto simp: read_operator_def Let_def split: option.splits if_splits)

definition max_tokens :: nat where
  "max_tokens = 1000"

text \<open>
  The loop over the text, with the precedence the open parentheses add, the name of the last
  token and the tokens so far.  The array of tokens has 1000 elements, and a lone point, of
  which \<open>strtod\<close> takes nothing, is a number again and again until the array overflows.
\<close>

function tokenize_from ::
  "mathlib \<Rightarrow> image list \<Rightarrow> string \<Rightarrow> int \<Rightarrow> token_name option \<Rightarrow> token list \<Rightarrow> token list result" where
  "tokenize_from ml images s modifier last_token pe =
     (case s of
        [] \<Rightarrow> Inr pe
      | c # cs \<Rightarrow>
          if is_blank c then tokenize_from ml images cs modifier last_token pe
          else if c = CHR ''('' then tokenize_from ml images cs (modifier + 1000) (Some LeftParenthesis) pe
          else if c = CHR '')'' then tokenize_from ml images cs (modifier - 1000) (Some RightParenthesis) pe
          else if is_digit c \<or> c = CHR ''.'' then
            (let (d, k) = strtod ml s in
             if max_tokens \<le> length pe then Inl Out_Of_Bounds
             else tokenize_from ml images (drop k s) modifier (Some Operand) (pe @ [T_Scalar (sp_cinit d 0)]))
          else if is_upper c then
            (let name = takeWhile is_upper s; i = index_from_variable_name name in
             if length images \<le> i then Inr [T_Error ''Variable has no matching file!'']
             else if max_tokens \<le> length pe then Inl Out_Of_Bounds
             else tokenize_from ml images (dropWhile is_upper s) modifier (Some Operand) (pe @ [T_Image (images ! i)]))
          else
            (case read_operator last_token s of
               None \<Rightarrow> Inr [T_Error ''Could not tokenize expression'']
             | Some r \<Rightarrow>
                 if max_tokens \<le> length pe then Inl Out_Of_Bounds
                 else (case r of
                    Read_Unit \<Rightarrow> tokenize_from ml images cs modifier (Some Operand) (pe @ [T_Scalar (sp_cinit 0 1)])
                  | Read_Operator op rest \<Rightarrow>
                      tokenize_from ml images rest modifier (Some (op_name op))
                        (pe @ [T_Operator (op\<lparr>precedence := precedence op + modifier\<rparr>)]))))"
  by pat_completeness auto
termination
proof (relation "measure (\<lambda>(ml, images, s, modifier, last_token, pe). length s + (max_tokens - length pe))",
    goal_cases)
  case (6 ml images s modifier last_token pe c cs name i)
  have "length (dropWhile is_upper s) \<le> length s" by (rule length_dropWhile_le)
  then show ?case using 6 by simp
qed (auto dest: read_operator_rest)

declare tokenize_from.simps [simp del]

definition tokenize_string :: "mathlib \<Rightarrow> string \<Rightarrow> image list \<Rightarrow> token list result" where
  "tokenize_string ml input images = tokenize_from ml images input 0 None []"

text \<open>What \<open>evaluate_math_expression\<close> returns: an image, a scalar, or the message of an error.\<close>

definition evaluate_math_expression ::
  "spimage \<Rightarrow> mathlib \<Rightarrow> string \<Rightarrow> image list \<Rightarrow> math_stop + token" where
  "evaluate_math_expression sp ml expression images =
     bind_math (faulty (tokenize_string ml expression images)) (\<lambda>tokens.
     bind_math (faulty (parse_tokens tokens)) (\<lambda>postfix.
     bind_math (evaluate_postfix sp ml postfix) (\<lambda>out.
       case out of T_Error msg \<Rightarrow> Inl (M_Error msg) | _ \<Rightarrow> Inr out)))"

end
