(* ===== verification/Formulas.thy ===== *)
theory Formulas
  imports Math_Parser
begin

text \<open>
  What a formula means, and that the parser and the stack machine of theory \<open>Math_Parser\<close>
  compute it: the conversion to postfix order respects precedences and associativities, the
  stack machine evaluates the tree of the formula, and the printed form of a formula is cut
  into its tokens.
\<close>

lemmas operator_table_defs = operator_table_def operators_1_def operators_2_def

section \<open>Trees of operators\<close>

datatype expr =
    Leaf token
  | Node expr operator expr
  | Before operator expr
  | After expr operator

fun infix_of :: "expr \<Rightarrow> token list" where
  "infix_of (Leaf t) = [t]"
| "infix_of (Node l op r) = infix_of l @ T_Operator op # infix_of r"
| "infix_of (Before op e) = T_Operator op # infix_of e"
| "infix_of (After e op) = infix_of e @ [T_Operator op]"

fun postfix_of :: "expr \<Rightarrow> token list" where
  "postfix_of (Leaf t) = [t]"
| "postfix_of (Node l op r) = postfix_of l @ postfix_of r @ [T_Operator op]"
| "postfix_of (Before op e) = postfix_of e @ [T_Operator op]"
| "postfix_of (After e op) = postfix_of e @ [T_Operator op]"

fun ops_of :: "expr \<Rightarrow> operator set" where
  "ops_of (Leaf t) = {}"
| "ops_of (Node l op r) = insert op (ops_of l \<union> ops_of r)"
| "ops_of (Before op e) = insert op (ops_of e)"
| "ops_of (After e op) = insert op (ops_of e)"

text \<open>A new operator pops an old one that binds tighter, or as tight when the new one associates to the left.\<close>

definition pops :: "operator \<Rightarrow> operator \<Rightarrow> bool" where
  "pops new old \<longleftrightarrow> precedence new < precedence old
     \<or> precedence new = precedence old \<and> assoc new = LeftAssociative"

definition is_value :: "token \<Rightarrow> bool" where
  "is_value t \<longleftrightarrow> (case t of T_Image _ \<Rightarrow> True | T_Scalar _ \<Rightarrow> True | _ \<Rightarrow> False)"

lemma is_value_simps [simp]:
  "is_value (T_Image a)" "is_value (T_Scalar x)" "\<not> is_value (T_Operator op)" "\<not> is_value (T_Error msg)"
  by (simp_all add: is_value_def)

fun respects_precedence :: "expr \<Rightarrow> bool" where
  "respects_precedence (Leaf t) \<longleftrightarrow> is_value t"
| "respects_precedence (Node l op r) \<longleftrightarrow> respects_precedence l \<and> respects_precedence r
     \<and> (\<forall>x \<in> ops_of l. pops op x) \<and> (\<forall>x \<in> ops_of r. \<not> pops x op)"
| "respects_precedence (Before op e) \<longleftrightarrow> respects_precedence e \<and> (\<forall>x \<in> ops_of e. \<not> pops x op)"
| "respects_precedence (After e op) \<longleftrightarrow> respects_precedence e \<and> (\<forall>x \<in> ops_of e. pops op x)"

text \<open>How many operators can lie on the stack at once.\<close>

fun pending :: "expr \<Rightarrow> nat" where
  "pending (Leaf t) = 0"
| "pending (Node l op r) = max (pending l) (Suc (pending r))"
| "pending (Before op e) = Suc (pending e)"
| "pending (After e op) = max (pending e) 1"

section \<open>The conversion is correct\<close>

abbreviation falling :: "operator list \<Rightarrow> bool" where
  "falling \<equiv> sorted_wrt (\<lambda>x y. precedence y \<le> precedence x)"

lemma pop_higher_stops: "st = [] \<or> \<not> p < precedence (hd st) \<Longrightarrow> pop_higher p st = ([], st)"
  by (cases st) auto

lemma pop_equal_stops: "st = [] \<or> p \<noteq> precedence (hd st) \<Longrightarrow> pop_equal p st = ([], st)"
  by (cases st) auto

lemma pop_equal_all:
  "\<forall>x \<in> set us. precedence x = p \<Longrightarrow> st = [] \<or> p \<noteq> precedence (hd st) \<Longrightarrow> pop_equal p (us @ st) = (us, st)"
  by (induction us) (auto simp: pop_equal_stops)

lemma pops_pending:
  assumes "falling us" and "\<forall>x \<in> set us. pops op x" and "st = [] \<or> \<not> pops op (hd st)"
  shows "\<exists>out1 st1 out2. pop_higher (precedence op) (us @ st) = (out1, st1)
    \<and> (if assoc op = LeftAssociative then pop_equal (precedence op) st1 else ([], st1)) = (out2, st)
    \<and> out1 @ out2 = us"
  using assms
proof (induction us)
  case Nil
  then show ?case by (auto simp: pop_higher_stops pop_equal_stops pops_def)
next
  case (Cons u us)
  show ?case
  proof (cases "precedence op < precedence u")
    case True
    from Cons.prems have "falling us" "\<forall>x \<in> set us. pops op x" by simp_all
    from Cons.IH [OF this Cons.prems(3)] obtain out1 st1 out2 where
      "pop_higher (precedence op) (us @ st) = (out1, st1)"
      "(if assoc op = LeftAssociative then pop_equal (precedence op) st1 else ([], st1)) = (out2, st)" "out1 @ out2 = us"
      by blast
    with True show ?thesis by (intro exI [of _ "u # out1"] exI [of _ st1] exI [of _ out2]) simp
  next
    case False
    then have left: "assoc op = LeftAssociative" "precedence u = precedence op"
      using Cons.prems(2) by (auto simp: pops_def)
    then have "\<forall>x \<in> set (u # us). precedence x = precedence op"
      using Cons.prems(1,2) by (force simp: pops_def)
    then have "pop_equal (precedence op) ((u # us) @ st) = (u # us, st)"
      using Cons.prems(3) left(1) by (intro pop_equal_all) (auto simp: pops_def)
    then show ?thesis using False left by simp
  qed
qed

lemma parse_operator:
  assumes "falling us" and "\<forall>x \<in> set us. pops op x" and "st = [] \<or> \<not> pops op (hd st)" and "length st < stack_max"
  shows "parse_from (T_Operator op # ts) (us @ st)
    = bind_result (parse_from ts (op # st)) (\<lambda>post. Inr (map T_Operator us @ post))"
  using pops_pending [OF assms(1-3)] assms(4) by (auto simp: bind_result_def split: sum.splits)

declare parse_from.simps(2) [simp del]

lemma parse_value: "is_value t \<Longrightarrow> parse_from (t # ts) st = bind_result (parse_from ts st) (\<lambda>post. Inr (t # post))"
  by (cases t) simp_all

lemma bind_result_assoc: "bind_result (bind_result m f) g = bind_result m (\<lambda>x. bind_result (f x) g)"
  by (cases m) simp_all

lemma parse_from_tree:
  "respects_precedence e \<Longrightarrow> st = [] \<or> (\<forall>x \<in> ops_of e. \<not> pops x (hd st)) \<Longrightarrow> length st + pending e \<le> stack_max \<Longrightarrow>
   \<exists>out us. parse_from (infix_of e @ ts) st = bind_result (parse_from ts (us @ st)) (\<lambda>post. Inr (out @ post))
     \<and> out @ map T_Operator us = postfix_of e \<and> set us \<subseteq> ops_of e \<and> falling us"
proof (induction e arbitrary: st ts)
  case (Leaf t)
  then show ?case by (intro exI [of _ "[t]"] exI [of _ "[]"]) (simp add: parse_value)
next
  case (Node l op r)
  then have bound: "length st + pending l \<le> stack_max" "Suc (length st) + pending r \<le> stack_max"
    by (simp_all add: max_def split: if_splits)
  obtain out1 us1 where l: "parse_from (infix_of l @ T_Operator op # infix_of r @ ts) st
      = bind_result (parse_from (T_Operator op # infix_of r @ ts) (us1 @ st)) (\<lambda>post. Inr (out1 @ post))"
    "out1 @ map T_Operator us1 = postfix_of l" "set us1 \<subseteq> ops_of l" "falling us1"
    using Node.IH(1) [of st "T_Operator op # infix_of r @ ts"] Node.prems bound by auto
  obtain out2 us2 where r: "parse_from (infix_of r @ ts) (op # st)
      = bind_result (parse_from ts (us2 @ op # st)) (\<lambda>post. Inr (out2 @ post))"
    "out2 @ map T_Operator us2 = postfix_of r" "set us2 \<subseteq> ops_of r" "falling us2"
    using Node.IH(2) [of "op # st" ts] Node.prems bound by auto
  have "parse_from (T_Operator op # infix_of r @ ts) (us1 @ st)
      = bind_result (parse_from (infix_of r @ ts) (op # st)) (\<lambda>post. Inr (map T_Operator us1 @ post))"
    using Node.prems bound l(3,4) by (intro parse_operator) auto
  moreover have "falling (us2 @ [op])"
    using r(3,4) Node.prems(1) by (force simp: sorted_wrt_append pops_def)
  ultimately show ?case using l(1,3) r(1,3)
    by (intro exI [of _ "out1 @ map T_Operator us1 @ out2"] exI [of _ "us2 @ [op]"])
      (auto simp: bind_result_assoc l(2) [symmetric] r(2) [symmetric])
next
  case (Before op e)
  obtain out us where e: "parse_from (infix_of e @ ts) (op # st)
      = bind_result (parse_from ts (us @ op # st)) (\<lambda>post. Inr (out @ post))"
    "out @ map T_Operator us = postfix_of e" "set us \<subseteq> ops_of e" "falling us"
    using Before.IH [of "op # st" ts] Before.prems by auto
  have "parse_from (T_Operator op # infix_of e @ ts) ([] @ st)
      = bind_result (parse_from (infix_of e @ ts) (op # st)) (\<lambda>post. Inr (map T_Operator [] @ post))"
    using Before.prems by (intro parse_operator) auto
  moreover have "falling (us @ [op])"
    using e(3,4) Before.prems(1) by (force simp: sorted_wrt_append pops_def)
  ultimately show ?case using e
    by (intro exI [of _ out] exI [of _ "us @ [op]"]) (auto simp: bind_result_assoc)
next
  case (After e op)
  then have bound: "length st + pending e \<le> stack_max" "length st < stack_max"
    by (simp_all add: max_def split: if_splits)
  obtain out us where e: "parse_from (infix_of e @ T_Operator op # ts) st
      = bind_result (parse_from (T_Operator op # ts) (us @ st)) (\<lambda>post. Inr (out @ post))"
    "out @ map T_Operator us = postfix_of e" "set us \<subseteq> ops_of e" "falling us"
    using After.IH [of st "T_Operator op # ts"] After.prems bound by auto
  have "parse_from (T_Operator op # ts) (us @ st)
      = bind_result (parse_from ts (op # st)) (\<lambda>post. Inr (map T_Operator us @ post))"
    using After.prems bound e(3,4) by (intro parse_operator) auto
  then show ?case using e(1,3)
    by (intro exI [of _ "out @ map T_Operator us"] exI [of _ "[op]"]) (auto simp: bind_result_assoc e(2) [symmetric])
qed

lemma parse_tokens_tree:
  assumes "respects_precedence e" and "pending e \<le> stack_max"
  shows "parse_tokens (infix_of e) = Inr (postfix_of e)"
  using parse_from_tree [OF assms(1), of "[]" "[]"] assms(2) by (auto simp: parse_tokens_def)

section \<open>Evaluation of a tree\<close>

text \<open>
  How many values an operator takes from the stack.  This is the number of operands of the
  table except for \<open>^\<close> and \<open>set_mask\<close>, which take two while the table says one.
\<close>

definition takes :: "operator \<Rightarrow> nat" where
  "takes op = (if op_name op \<in> {Exponentiation, SetMask} then 2 else n_operands op)"

text \<open>An operator of the table, whatever the parentheses add to its precedence.\<close>

definition known :: "operator \<Rightarrow> bool" where
  "known op \<longleftrightarrow> (op_name op, n_operands op) \<in> set (map (\<lambda>op. (op_name op, n_operands op)) operator_table)"

fun width :: "expr \<Rightarrow> nat" where
  "width (Leaf t) = 1"
| "width (Node l op r) = (if op_name op = Comma then width l + width r else 1)"
| "width (Before op e) = 1"
| "width (After e op) = 1"

text \<open>Every operator finds as many values as it takes; a comma passes on those of both sides.\<close>

fun fits :: "expr \<Rightarrow> bool" where
  "fits (Leaf t) \<longleftrightarrow> is_value t"
| "fits (Node l op r) \<longleftrightarrow> fits l \<and> fits r \<and> known op
     \<and> (op_name op \<noteq> Comma \<longrightarrow> takes op = width l + width r)"
| "fits (Before op e) \<longleftrightarrow> fits e \<and> known op \<and> op_name op \<noteq> Comma \<and> takes op = width e"
| "fits (After e op) \<longleftrightarrow> fits e \<and> known op \<and> op_name op \<noteq> Comma \<and> takes op = width e"

fun stack_need :: "expr \<Rightarrow> nat" where
  "stack_need (Leaf t) = 1"
| "stack_need (Node l op r) = max (stack_need l) (width l + stack_need r)"
| "stack_need (Before op e) = stack_need e"
| "stack_need (After e op) = stack_need e"

text \<open>An operator on exactly its operands, the last one first.\<close>

definition meaning :: "spimage \<Rightarrow> mathlib \<Rightarrow> token_name \<Rightarrow> token list \<Rightarrow> math_stop + token list" where
  "meaning sp ml n vs = bind_math (faulty (apply_op sp ml n vs)) peeped"

fun eval_tree :: "spimage \<Rightarrow> mathlib \<Rightarrow> expr \<Rightarrow> math_stop + token list" where
  "eval_tree sp ml (Leaf t) = Inr [t]"
| "eval_tree sp ml (Node l op r) = bind_math (eval_tree sp ml l) (\<lambda>vs.
     bind_math (eval_tree sp ml r) (\<lambda>ws. meaning sp ml (op_name op) (ws @ vs)))"
| "eval_tree sp ml (Before op e) = bind_math (eval_tree sp ml e) (meaning sp ml (op_name op))"
| "eval_tree sp ml (After e op) = bind_math (eval_tree sp ml e) (meaning sp ml (op_name op))"

lemma bind_math_assoc: "bind_math (bind_math m f) g = bind_math m (\<lambda>x. bind_math (f x) g)"
  by (cases m) simp_all

lemma is_value_cases:
  assumes "is_value t" obtains (Image) a where "t = T_Image a" | (Scalar) x where "t = T_Scalar x"
  using assms by (cases t) auto

section \<open>The operators use their operands only\<close>

definition operates :: "nat \<Rightarrow> (token list \<Rightarrow> token list result) \<Rightarrow> bool" where
  "operates k F \<longleftrightarrow> (\<forall>vs. length vs = k \<longrightarrow> list_all is_value vs \<longrightarrow>
     (\<exists>r. (\<forall>w. r = Inr w \<longrightarrow> is_value w \<or> (\<exists>msg. w = T_Error msg))
        \<and> (\<forall>st. length st + k \<le> stack_max \<longrightarrow> F (vs @ st) = bind_result r (\<lambda>w. Inr (w # st)))))"

lemma operates1I:
  assumes "\<And>a. is_value a \<Longrightarrow> \<exists>r. (\<forall>w. r = Inr w \<longrightarrow> is_value w \<or> (\<exists>msg. w = T_Error msg))
    \<and> (\<forall>st. length st < stack_max \<longrightarrow> F (a # st) = bind_result r (\<lambda>w. Inr (w # st)))"
  shows "operates 1 F"
  unfolding operates_def using assms by (auto simp: length_Suc_conv numeral_eq_Suc Suc_le_eq)

lemma operates2I:
  assumes "\<And>a b. is_value a \<Longrightarrow> is_value b \<Longrightarrow> \<exists>r. (\<forall>w. r = Inr w \<longrightarrow> is_value w \<or> (\<exists>msg. w = T_Error msg))
    \<and> (\<forall>st. Suc (length st) < stack_max \<longrightarrow> F (b # a # st) = bind_result r (\<lambda>w. Inr (w # st)))"
  shows "operates 2 F"
  unfolding operates_def using assms by (auto simp: length_Suc_conv numeral_eq_Suc Suc_le_eq)

lemma push_bind:
  "length st < stack_max \<Longrightarrow> bind_result r (\<lambda>w. token_stack_push (f w) st) = bind_result (bind_result r (\<lambda>w. Inr (f w))) (\<lambda>w. Inr (w # st))"
  by (cases r) simp_all

lemma operates_unary:
  assumes "\<And>a w. is_value a \<Longrightarrow> f a = Inr w \<Longrightarrow> is_value w \<or> (\<exists>msg. w = T_Error msg)"
  shows "operates 1 (unary f)"
proof (rule operates1I)
  fix a assume "is_value a"
  then show "\<exists>r. (\<forall>w. r = Inr w \<longrightarrow> is_value w \<or> (\<exists>msg. w = T_Error msg))
    \<and> (\<forall>st. length st < stack_max \<longrightarrow> unary f (a # st) = bind_result r (\<lambda>w. Inr (w # st)))"
    using assms by (intro exI [of _ "f a"]) (auto simp: unary_def push_bind bind_result_assoc)
qed

definition unary_names :: "token_name list" where
  "unary_names = [UnaryPlus, UnaryMinus, ComplexConjugate, Mask, SquareRoot, AbsoluteValue, FourierTransform,
     InverseFourierTransform, Integrate, ComplexArgument, Exponential, Logarythm, PositionX, PositionY,
     PositionZ, RealPart, ImaginaryPart, ImaginaryUnit]"

definition binary_names :: "token_name list" where
  "binary_names = [Addition, Subtraction, Multiplication, Division, SmallerThan, GreaterThan, SetMask,
     Exponentiation, Minimum, Maximum, LogicalAnd, LogicalOr, Equality]"

lemmas unary_operator_defs =
  token_stack_unary_minus_def token_stack_conj_def token_stack_mask_def token_stack_sqrt_def
  token_stack_abs_def token_stack_fft_def token_stack_ifft_def token_stack_integrate_def token_stack_arg_def
  token_stack_exp_def token_stack_log_def token_stack_pos_x_def token_stack_pos_y_def token_stack_pos_z_def
  token_stack_pos_def token_stack_real_def token_stack_imag_def token_stack_imaginary_unit_def

lemmas binary_operator_defs =
  token_stack_add_def token_stack_sub_def token_stack_mul_def token_stack_div_def token_stack_smaller_than_def
  token_stack_greater_than_def token_stack_set_mask_def token_stack_pow_def token_stack_min_def
  token_stack_max_def token_stack_logical_and_def token_stack_logical_or_def token_stack_equality_def
  compare_pixels_def

lemma operates_Inr: "operates 1 Inr"
  by (rule operates1I) (rule_tac x = "Inr a" in exI, simp)

lemma unary_operates: "n \<in> set unary_names \<Longrightarrow> operates 1 (apply_op sp ml n)"
  unfolding unary_names_def
  by (auto simp: unary_operator_defs operates_Inr on_token_def image_only_def scalar_or_image_def
      simp del: One_nat_def intro!: operates_unary elim!: is_value_cases)

lemma binary_result:
  assumes "is_value w \<or> (\<exists>msg. w = T_Error msg)"
  shows "\<exists>r. (\<forall>w. r = Inr w \<longrightarrow> is_value w \<or> (\<exists>msg. w = T_Error msg))
    \<and> (\<forall>st. Suc (length st) < stack_max \<longrightarrow> Inr (w # st) = bind_result r (\<lambda>w. Inr (w # st)))"
  using assms by (intro exI [of _ "Inr w"]) auto

lemma binary_fault:
  "\<exists>r. (\<forall>w. r = Inr w \<longrightarrow> is_value w \<or> (\<exists>msg. w = T_Error msg))
    \<and> (\<forall>st. Suc (length st) < stack_max \<longrightarrow> Inl e = bind_result r (\<lambda>w. Inr (w # st)))"
  by (intro exI [of _ "Inl e"]) auto

lemma choice_result:
  assumes "is_value w"
  shows "\<exists>r. (\<forall>w. r = Inr w \<longrightarrow> is_value w \<or> (\<exists>msg. w = T_Error msg))
    \<and> (\<forall>st. length st + 3 \<le> stack_max \<longrightarrow> Inr (w # st) = bind_result r (\<lambda>w. Inr (w # st)))"
  using assms by (intro exI [of _ "Inr w"]) auto

lemma choice_fault:
  "\<exists>r. (\<forall>w. r = Inr w \<longrightarrow> is_value w \<or> (\<exists>msg. w = T_Error msg))
    \<and> (\<forall>st. length st + 3 \<le> stack_max \<longrightarrow> Inl e = bind_result r (\<lambda>w. Inr (w # st)))"
  by (intro exI [of _ "Inl e"]) auto

lemma if_result:
  assumes "P \<Longrightarrow> \<exists>r. A r \<and> (\<forall>st. B st \<longrightarrow> f st = g r st)" and "\<not> P \<Longrightarrow> \<exists>r. A r \<and> (\<forall>st. B st \<longrightarrow> f' st = g r st)"
  shows "\<exists>r. A r \<and> (\<forall>st. B st \<longrightarrow> (if P then f st else f' st) = g r st)"
  using assms by (cases P) simp_all

lemma if_or: "(if P \<or> Q then x else y) = (if P then x else if Q then x else y)"
  by simp

lemma is_value_if: "is_value a \<Longrightarrow> is_value b \<Longrightarrow> is_value (if P then a else b)"
  by simp

lemma bind_if: "bind_result (if P then r else r') f = (if P then bind_result r f else bind_result r' f)"
  by simp

lemma by_pixels_result:
  assumes "is_value a" and "is_value b"
  shows "\<exists>r. (\<forall>w. r = Inr w \<longrightarrow> is_value w \<or> (\<exists>msg. w = T_Error msg))
    \<and> (\<forall>st. Suc (length st) < stack_max \<longrightarrow> by_pixels f a b st = bind_result r (\<lambda>w. Inr (w # st)))"
  using assms
  by (auto simp: by_pixels_def pointwise2_def bind_if split del: if_split
      intro!: binary_result binary_fault if_result elim!: is_value_cases)

lemma binary_operates: "n \<in> set binary_names \<Longrightarrow> operates 2 (apply_op sp ml n)"
  unfolding binary_names_def
  by (auto simp: binary_operator_defs bind_if if_distrib [of is_value]
      split del: if_split intro!: operates2I by_pixels_result)
    (auto simp: bind_if split del: if_split intro!: binary_result binary_fault if_result elim!: is_value_cases)

lemma choice_operates: "operates 3 (apply_op sp ml ConditionalIf)"
  unfolding operates_def
proof (intro allI impI)
  fix vs assume "length vs = 3" and vals: "list_all is_value vs"
  then obtain a b c where vs: "vs = [c, b, a]" by (auto simp: length_Suc_conv numeral_eq_Suc)
  show "\<exists>r. (\<forall>w. r = Inr w \<longrightarrow> is_value w \<or> (\<exists>msg. w = T_Error msg))
    \<and> (\<forall>st. length st + 3 \<le> stack_max \<longrightarrow> apply_op sp ml ConditionalIf (vs @ st) = bind_result r (\<lambda>w. Inr (w # st)))"
    using vals unfolding vs
    by (auto simp: token_stack_if_def if_or split del: if_split
        elim!: is_value_cases intro!: choice_result choice_fault if_result is_value_if)
qed

lemma known_cases:
  assumes "known op" and "op_name op \<noteq> Comma"
  shows "takes op = 1 \<and> op_name op \<in> set unary_names \<or> takes op = 2 \<and> op_name op \<in> set binary_names
    \<or> takes op = 3 \<and> op_name op = ConditionalIf"
  using assms by (auto simp: known_def operator_table_defs op_entry_def takes_def unary_names_def binary_names_def)

lemma known_operands: "known op \<Longrightarrow> n_operands op \<le> takes op \<and> 0 < takes op"
  by (auto simp: known_def operator_table_defs op_entry_def takes_def)

lemma known_operates:
  assumes "known op" and "op_name op \<noteq> Comma"
  shows "operates (takes op) (apply_op sp ml (op_name op))"
  using known_cases [OF assms] unary_operates binary_operates choice_operates by auto

lemma known_comma: "known op \<Longrightarrow> op_name op = Comma \<Longrightarrow> takes op = 2 \<and> n_operands op = 2"
  by (auto simp: known_def operator_table_defs op_entry_def takes_def)

section \<open>The stack machine evaluates the tree\<close>

text \<open>One operator of the postfix form, with its operands on top of the stack.\<close>

lemma evaluate_operator:
  assumes "known op" and "op_name op \<noteq> Comma" and "length vs = takes op" and "list_all is_value vs"
    and "length st + takes op \<le> stack_max"
  shows "evaluate_from sp ml (T_Operator op # ts) (vs @ st)
    = bind_math (meaning sp ml (op_name op) vs) (\<lambda>ws. evaluate_from sp ml ts (ws @ st))"
    and "meaning sp ml (op_name op) vs = Inr ws \<Longrightarrow> length ws = 1 \<and> list_all is_value ws"
proof -
  obtain r where r: "\<forall>w. r = Inr w \<longrightarrow> is_value w \<or> (\<exists>msg. w = T_Error msg)"
    "\<And>st. length st + takes op \<le> stack_max \<Longrightarrow>
      apply_op sp ml (op_name op) (vs @ st) = bind_result r (\<lambda>w. Inr (w # st))"
    using known_operates [OF assms(1,2)] assms(3,4) unfolding operates_def by blast
  have here: "apply_op sp ml (op_name op) vs = bind_result r (\<lambda>w. Inr [w])"
    using r(2) [of "[]"] assms(5) by simp
  show "evaluate_from sp ml (T_Operator op # ts) (vs @ st)
    = bind_math (meaning sp ml (op_name op) vs) (\<lambda>ws. evaluate_from sp ml ts (ws @ st))"
    using r(1) r(2) [OF assms(5)] known_operands [OF assms(1)] assms(3)
    by (cases r) (auto simp: meaning_def here peeped_def bind_math_assoc elim!: is_value_cases)
  show "meaning sp ml (op_name op) vs = Inr ws \<Longrightarrow> length ws = 1 \<and> list_all is_value ws"
    using r(1) by (cases r) (auto simp: meaning_def here peeped_def elim!: is_value_cases split: token.splits)
qed

lemma width_pos [simp]: "0 < width e"
  by (induction e) auto

lemma width_two: "2 \<le> width l + width r"
  using width_pos [of l] width_pos [of r] by linarith

lemma width_stack_need: "fits e \<Longrightarrow> width e \<le> stack_need e \<and> 0 < stack_need e"
  by (induction e) auto

lemma peeped_value: "vs \<noteq> [] \<Longrightarrow> list_all is_value vs \<Longrightarrow> peeped (vs @ st) = Inr (vs @ st)"
  by (cases vs) (auto simp: peeped_def elim!: is_value_cases)

lemma evaluate_comma:
  assumes "known op" and "op_name op = Comma" and "2 \<le> length vs" and "list_all is_value vs"
  shows "evaluate_from sp ml (T_Operator op # ts) (vs @ st) = evaluate_from sp ml ts (vs @ st)"
    and "meaning sp ml (op_name op) vs = Inr vs"
proof -
  have "vs \<noteq> []" using assms(3) by auto
  then show "evaluate_from sp ml (T_Operator op # ts) (vs @ st) = evaluate_from sp ml ts (vs @ st)"
    and "meaning sp ml (op_name op) vs = Inr vs"
    using assms known_comma [OF assms(1,2)] peeped_value [of vs] peeped_value [of vs "[]"]
    by (simp_all add: meaning_def)
qed

lemma tree_values:
  assumes "fits e" and "stack_need e \<le> stack_max" and "eval_tree sp ml e = Inr vs"
  shows "length vs = width e \<and> list_all is_value vs"
  using assms
proof (induction e arbitrary: vs)
  case (Leaf t)
  then show ?case by auto
next
  case (Node l op r)
  then obtain us ws where parts: "length us = width l" "list_all is_value us" "length ws = width r" "list_all is_value ws"
    "meaning sp ml (op_name op) (ws @ us) = Inr vs"
    by (auto simp: bind_math_def split: sum.splits)
  have "width l + width r \<le> stack_max" using width_stack_need [of r] Node.prems by auto
  then show ?case
  proof (cases "op_name op = Comma")
    case True
    then have "meaning sp ml (op_name op) (ws @ us) = Inr (ws @ us)"
      using parts Node.prems width_two [of r l] by (intro evaluate_comma(2)) simp_all
    with True parts show ?thesis by auto
  next
    case False
    then show ?thesis
      using evaluate_operator(2) [of op "ws @ us" "[]" sp ml vs] parts Node.prems \<open>width l + width r \<le> stack_max\<close> by auto
  qed
next
  case (Before op e)
  then show ?case
    using evaluate_operator(2) [of op _ "[]" sp ml vs] width_stack_need [of e]
    by (auto simp: bind_math_def split: sum.splits)
next
  case (After e op)
  then show ?case
    using evaluate_operator(2) [of op _ "[]" sp ml vs] width_stack_need [of e]
    by (auto simp: bind_math_def split: sum.splits)
qed

lemma evaluate_tree:
  assumes "fits e" and "length st + stack_need e \<le> stack_max"
  shows "evaluate_from sp ml (postfix_of e @ ts) st
    = bind_math (eval_tree sp ml e) (\<lambda>vs. evaluate_from sp ml ts (vs @ st))"
  using assms
proof (induction e arbitrary: st ts)
  case (Leaf t)
  then show ?case by (auto elim!: is_value_cases)
next
  case (Node l op r)
  have wl: "width l + width r \<le> stack_need (Node l op r)" using width_stack_need [of r] Node.prems(1) by auto
  have left: "evaluate_from sp ml (postfix_of l @ postfix_of r @ T_Operator op # ts) st
      = bind_math (eval_tree sp ml l) (\<lambda>vs. evaluate_from sp ml (postfix_of r @ T_Operator op # ts) (vs @ st))"
    using Node by simp
  have "evaluate_from sp ml (postfix_of r @ T_Operator op # ts) (vs @ st)
      = bind_math (eval_tree sp ml r) (\<lambda>ws. bind_math (meaning sp ml (op_name op) (ws @ vs)) (\<lambda>us. evaluate_from sp ml ts (us @ st)))"
    if vs: "eval_tree sp ml l = Inr vs" for vs
  proof -
    have lv: "length vs = width l \<and> list_all is_value vs" using tree_values [OF _ _ vs] Node.prems by simp
    have "evaluate_from sp ml (T_Operator op # ts) (ws @ vs @ st)
        = bind_math (meaning sp ml (op_name op) (ws @ vs)) (\<lambda>us. evaluate_from sp ml ts (us @ st))"
      if ws: "eval_tree sp ml r = Inr ws" for ws
    proof -
      have lw: "length ws = width r \<and> list_all is_value ws" using tree_values [OF _ _ ws] Node.prems by simp
      show ?thesis
      proof (cases "op_name op = Comma")
        case True
        have "2 \<le> length (ws @ vs)" using lv lw width_two [of r l] by simp
        then show ?thesis using evaluate_comma [of op "ws @ vs"] True lv lw Node.prems by simp
      next
        case False
        then show ?thesis
          using evaluate_operator(1) [of op "ws @ vs" st sp ml ts] lv lw Node.prems wl by simp
      qed
    qed
    then show ?thesis
      using Node.IH(2) [of "vs @ st" "T_Operator op # ts"] Node.prems lv
      by (auto simp: bind_math_def split: sum.splits)
  qed
  then show ?case using left by (auto simp: bind_math_def split: sum.splits)
next
  case (Before op e)
  then show ?case
    using evaluate_operator(1) [of op _ st sp ml ts] width_stack_need [of e] tree_values [of e sp ml]
    by (auto simp: bind_math_def split: sum.splits)
next
  case (After e op)
  then show ?case
    using evaluate_operator(1) [of op _ st sp ml ts] width_stack_need [of e] tree_values [of e sp ml]
    by (auto simp: bind_math_def split: sum.splits)
qed

lemma evaluate_postfix_tree:
  assumes "fits e" and "width e = 1" and "stack_need e \<le> stack_max"
  shows "evaluate_postfix sp ml (postfix_of e) = bind_math (eval_tree sp ml e) (\<lambda>vs. Inr (hd vs))"
  using evaluate_tree [of e "[]" sp ml "[]"] tree_values [of e sp ml] assms
  by (cases "eval_tree sp ml e") (auto simp: evaluate_postfix_def length_Suc_conv)

section \<open>Formulas and their text\<close>

text \<open>
  The formulas of the language, each operand in parentheses; a sign is \<open>UnaryPlus\<close> or
  \<open>UnaryMinus\<close>, a number is given by its digits, and variables are numbered from 0.
\<close>

datatype formula =
    Variable nat
  | Number string
  | Unit
  | Sign token_name formula
  | Times_Unit formula
  | Binary formula token_name formula
  | Apply1 token_name formula
  | Apply2 token_name formula formula
  | Choice formula formula formula

definition entry_of :: "token_name \<Rightarrow> operator" where
  "entry_of n = hd (filter (\<lambda>op. op_name op = n) operator_table)"

abbreviation text_of :: "token_name \<Rightarrow> string" where
  "text_of n \<equiv> op_identifier (entry_of n)"

function variable_name :: "nat \<Rightarrow> string" where
  "variable_name i = (if i < 26 then [char_of (65 + i)] else variable_name (i div 26) @ [char_of (65 + i mod 26)])"
  by pat_completeness auto
termination by (relation "measure id") auto

declare variable_name.simps [simp del]

definition in_parens :: "string \<Rightarrow> string" where
  "in_parens s = CHR ''('' # s @ [CHR '')'']"

primrec print :: "formula \<Rightarrow> string" where
  "print (Variable i) = variable_name i"
| "print (Number ds) = ds"
| "print Unit = ''i''"
| "print (Sign n f) = text_of n @ in_parens (print f)"
| "print (Times_Unit f) = in_parens (print f) @ ''i''"
| "print (Binary f n g) = in_parens (print f) @ text_of n @ in_parens (print g)"
| "print (Apply1 n f) = text_of n @ in_parens (print f)"
| "print (Apply2 n f g) = text_of n @ in_parens (in_parens (print f) @ '','' @ in_parens (print g))"
| "print (Choice f g h) = ''if'' @ in_parens (in_parens (print f) @ '','' @ in_parens (print g) @ '','' @ in_parens (print h))"

definition infix_names :: "token_name list" where
  "infix_names = [Addition, Subtraction, Multiplication, Division, SmallerThan, GreaterThan, Exponentiation,
     LogicalAnd, LogicalOr, Equality]"

definition function_names :: "token_name list" where
  "function_names = [ComplexConjugate, Mask, SquareRoot, AbsoluteValue, FourierTransform, InverseFourierTransform,
     Integrate, ComplexArgument, Exponential, Logarythm, PositionX, PositionY, PositionZ, RealPart, ImaginaryPart]"

definition function2_names :: "token_name list" where
  "function2_names = [Minimum, Maximum, SetMask]"

text \<open>What \<open>strtod\<close> is relied on for: it takes the digits, whatever follows the closing parenthesis.\<close>

definition reads_number :: "mathlib \<Rightarrow> string \<Rightarrow> bool" where
  "reads_number ml ds \<longleftrightarrow> ds \<noteq> [] \<and> list_all is_digit ds \<and> snd (strtod ml ds) = length ds
     \<and> (\<forall>rest. strtod ml (ds @ CHR '')'' # rest) = strtod ml ds)"

primrec well_formed :: "mathlib \<Rightarrow> image list \<Rightarrow> formula \<Rightarrow> bool" where
  "well_formed ml images (Variable i) \<longleftrightarrow> i < length images"
| "well_formed ml images (Number ds) \<longleftrightarrow> reads_number ml ds"
| "well_formed ml images Unit \<longleftrightarrow> True"
| "well_formed ml images (Sign n f) \<longleftrightarrow> n \<in> {UnaryPlus, UnaryMinus} \<and> well_formed ml images f"
| "well_formed ml images (Times_Unit f) \<longleftrightarrow> well_formed ml images f"
| "well_formed ml images (Binary f n g) \<longleftrightarrow> n \<in> set infix_names \<and> well_formed ml images f \<and> well_formed ml images g"
| "well_formed ml images (Apply1 n f) \<longleftrightarrow> n \<in> set function_names \<and> well_formed ml images f"
| "well_formed ml images (Apply2 n f g) \<longleftrightarrow>
     n \<in> set function2_names \<and> well_formed ml images f \<and> well_formed ml images g"
| "well_formed ml images (Choice f g h) \<longleftrightarrow>
     well_formed ml images f \<and> well_formed ml images g \<and> well_formed ml images h"

text \<open>The tree of a formula read where the open parentheses add \<open>m\<close> to the precedences.\<close>

definition op_at :: "int \<Rightarrow> token_name \<Rightarrow> operator" where
  "op_at m n = (entry_of n)\<lparr>precedence := precedence (entry_of n) + m\<rparr>"

primrec tree :: "mathlib \<Rightarrow> image list \<Rightarrow> int \<Rightarrow> formula \<Rightarrow> expr" where
  "tree ml images m (Variable i) = Leaf (T_Image (images ! i))"
| "tree ml images m (Number ds) = Leaf (T_Scalar (sp_cinit (fst (strtod ml ds)) 0))"
| "tree ml images m Unit = Leaf (T_Scalar (sp_cinit 0 1))"
| "tree ml images m (Sign n f) = Before (op_at m n) (tree ml images (m + 1000) f)"
| "tree ml images m (Times_Unit f) = After (tree ml images (m + 1000) f) (op_at m ImaginaryUnit)"
| "tree ml images m (Binary f n g) = Node (tree ml images (m + 1000) f) (op_at m n) (tree ml images (m + 1000) g)"
| "tree ml images m (Apply1 n f) = Before (op_at m n) (tree ml images (m + 1000) f)"
| "tree ml images m (Apply2 n f g) = Before (op_at m n)
     (Node (tree ml images (m + 2000) f) (op_at (m + 1000) Comma) (tree ml images (m + 2000) g))"
| "tree ml images m (Choice f g h) = Before (op_at m ConditionalIf)
     (Node (tree ml images (m + 2000) f) (op_at (m + 1000) Comma)
       (Node (tree ml images (m + 2000) g) (op_at (m + 1000) Comma) (tree ml images (m + 2000) h)))"

section \<open>The text is cut into the tokens of the tree\<close>

lemma upper_char: "j < 26 \<Longrightarrow> is_upper (char_of (65 + j)) \<and> of_char (char_of (65 + j)) - 65 = (j :: nat)"
  by (simp add: is_upper_def)

lemma variable_name_upper: "variable_name i \<noteq> [] \<and> list_all is_upper (variable_name i)"
proof (induction i rule: variable_name.induct)
  case (1 i)
  then show ?case by (subst (1 2) variable_name.simps) (simp add: upper_char)
qed

lemma index_of_variable_name: "index_from_variable_name (variable_name i) = i"
proof (induction i rule: variable_name.induct)
  case (1 i)
  then show ?case
    by (subst variable_name.simps) (auto simp: index_from_variable_name_def upper_char)
qed

lemma tokenize_open:
  "tokenize_from ml images (CHR ''('' # cs) m lt pe = tokenize_from ml images cs (m + 1000) (Some LeftParenthesis) pe"
  by (subst tokenize_from.simps) (simp add: is_blank_def)

lemma tokenize_close:
  "tokenize_from ml images (CHR '')'' # cs) m lt pe = tokenize_from ml images cs (m - 1000) (Some RightParenthesis) pe"
  by (subst tokenize_from.simps) (simp add: is_blank_def)

definition starts_operator :: "string \<Rightarrow> bool" where
  "starts_operator s \<longleftrightarrow> (case s of [] \<Rightarrow> False | c # _ \<Rightarrow>
     \<not> is_blank c \<and> c \<noteq> CHR ''('' \<and> c \<noteq> CHR '')'' \<and> \<not> is_digit c \<and> c \<noteq> CHR ''.'' \<and> \<not> is_upper c)"

lemma tokenize_operator:
  assumes "starts_operator s" and "read_operator lt s = Some (Read_Operator (entry_of n) rest)" and "length pe < max_tokens"
  shows "tokenize_from ml images s m lt pe
    = tokenize_from ml images rest m (Some (op_name (entry_of n))) (pe @ [T_Operator (op_at m n)])"
  using assms by (subst tokenize_from.simps) (auto simp: starts_operator_def op_at_def split: list.splits)

lemma tokenize_unit:
  assumes "starts_operator (c # cs)" and "read_operator lt (c # cs) = Some Read_Unit" and "length pe < max_tokens"
  shows "tokenize_from ml images (c # cs) m lt pe
    = tokenize_from ml images cs m (Some Operand) (pe @ [T_Scalar (sp_cinit 0 1)])"
  using assms by (subst tokenize_from.simps) (auto simp: starts_operator_def)

lemma tokenize_number:
  assumes "reads_number ml ds" and "rest = [] \<or> (\<exists>cs. rest = CHR '')'' # cs)" and "length pe < max_tokens"
  shows "tokenize_from ml images (ds @ rest) m lt pe
    = tokenize_from ml images rest m (Some Operand) (pe @ [T_Scalar (sp_cinit (fst (strtod ml ds)) 0)])"
proof -
  obtain d cs where ds: "ds = d # cs" "is_digit d" using assms(1) by (cases ds) (auto simp: reads_number_def)
  then have d: "\<not> is_blank d" "d \<noteq> CHR ''(''" "d \<noteq> CHR '')''" by (auto simp: is_digit_def is_blank_def)
  have "strtod ml (ds @ rest) = (fst (strtod ml ds), length ds)"
    using assms(1,2) by (auto simp: reads_number_def prod_eq_iff)
  then show ?thesis using ds d assms(3) by (subst tokenize_from.simps) simp
qed

lemma tokenize_variable:
  assumes "i < length images" and "rest = [] \<or> (\<exists>cs. rest = CHR '')'' # cs)" and "length pe < max_tokens"
  shows "tokenize_from ml images (variable_name i @ rest) m lt pe
    = tokenize_from ml images rest m (Some Operand) (pe @ [T_Image (images ! i)])"
proof -
  obtain c cs where name: "variable_name i = c # cs" "is_upper c" "list_all is_upper cs"
    using variable_name_upper [of i] by (cases "variable_name i") auto
  then have c: "\<not> is_blank c" "c \<noteq> CHR ''(''" "c \<noteq> CHR '')''" "\<not> is_digit c" "c \<noteq> CHR ''.''"
    by (auto simp: is_upper_def is_blank_def is_digit_def)
  have "rest = [] \<or> \<not> is_upper (hd rest)" using assms(2) by (auto simp: is_upper_def)
  then have split: "takeWhile is_upper (c # cs @ rest) = c # cs" "dropWhile is_upper (c # cs @ rest) = rest"
    using name by (cases rest; auto simp: takeWhile_append dropWhile_append list_all_iff)+
  show ?thesis
    using c name assms split index_of_variable_name [of i] by (subst tokenize_from.simps) (simp add: Let_def)
qed

text \<open>The search in the table looks at the identifiers only.\<close>

fun find_identifier :: "string list \<Rightarrow> string \<Rightarrow> nat option" where
  "find_identifier [] s = None"
| "find_identifier (w # ws) s = (if take (length w) s = w then Some 0 else map_option Suc (find_identifier ws s))"

lemma find_operator_identifier: "find_operator ops s = find_identifier (map op_identifier ops) s"
  by (induction ops) simp_all

lemma identifiers:
  "map op_identifier operator_table = [''+'', ''+'', ''-'', ''-'', ''*'', ''/'', ''<'', ''>'', ''set_mask'', ''conj'',
     ''mask'', ''sqrt'', ''abs'', ''^'', ''fft'', ''ifft'', ''sum'', ''arg'', ''exp'', ''log'', ''min'', ''max'',
     ''posx'', ''posy'', ''posz'', ''re'', ''if'', ''im'', ''&&'', ''||'', ''=='', ''i'', '','']"
  by (simp add: operator_table_defs op_entry_def)

lemma names:
  "map op_name operator_table = [Addition, UnaryPlus, Subtraction, UnaryMinus, Multiplication, Division,
     SmallerThan, GreaterThan, SetMask, ComplexConjugate, Mask, SquareRoot, AbsoluteValue, Exponentiation,
     FourierTransform, InverseFourierTransform, Integrate, ComplexArgument, Exponential, Logarythm, Minimum,
     Maximum, PositionX, PositionY, PositionZ, RealPart, ConditionalIf, ImaginaryPart, LogicalAnd, LogicalOr,
     Equality, ImaginaryUnit, Comma]"
  by (simp add: operator_table_defs op_entry_def)

lemma filter_at:
  "distinct (map f xs) \<Longrightarrow> j < length xs \<Longrightarrow> filter (\<lambda>x. f x = f (xs ! j)) xs = [xs ! j]"
proof (induction xs arbitrary: j)
  case Nil
  then show ?case by simp
next
  case (Cons x xs)
  then show ?case by (cases j) (auto simp: filter_empty_conv image_iff)
qed

definition table_names :: "token_name list" where "table_names = map op_name operator_table"
definition table_identifiers :: "string list" where "table_identifiers = map op_identifier operator_table"

lemma table_size: "length operator_table = 33"
  by (simp add: operator_table_defs)

lemma entry_at:
  assumes "j < 33" shows "entry_of (table_names ! j) = operator_table ! j"
proof -
  have "distinct (map op_name operator_table)" unfolding names by simp
  with assms show ?thesis by (simp add: entry_of_def table_names_def filter_at table_size)
qed

lemma table_at:
  assumes "j < 33"
  shows "op_name (operator_table ! j) = table_names ! j" and "op_identifier (operator_table ! j) = table_identifiers ! j"
  using assms by (simp_all add: table_names_def table_identifiers_def table_size)

lemma text_at: "j < 33 \<Longrightarrow> text_of (table_names ! j) = table_identifiers ! j"
  by (simp add: entry_at table_at)

lemma read_at:
  assumes "find_identifier table_identifiers s = Some j" and "j < 33"
    and "table_names ! j \<in> {Subtraction, Addition} \<longrightarrow> Suc j < 33"
  shows "read_operator lt s =
    (if table_names ! j \<in> {Subtraction, Addition} \<and> \<not> ends_operand lt
     then Some (Read_Operator (entry_of (table_names ! Suc j)) (drop (length (table_identifiers ! Suc j)) s))
     else if table_names ! j = ImaginaryUnit \<and> \<not> ends_operand lt then Some Read_Unit
     else Some (Read_Operator (entry_of (table_names ! j)) (drop (length (table_identifiers ! j)) s)))"
  using assms entry_at [of "Suc j"] table_at(2) [of "Suc j"]
  by (auto simp: read_operator_def find_operator_identifier table_identifiers_def [symmetric] table_at entry_at Let_def)

lemmas table_lists = table_names_def [unfolded names] table_identifiers_def [unfolded identifiers]

lemmas starts_simps = starts_operator_def is_blank_def is_digit_def is_upper_def

definition infix_at :: "nat list" where "infix_at = [0, 2, 4, 5, 6, 7, 13, 28, 29, 30]"

definition function_at :: "nat list" where
  "function_at = [26, 32, 9, 10, 11, 12, 14, 15, 16, 17, 18, 19, 22, 23, 24, 25, 27, 20, 21, 8]"

lemma infix_positions: "infix_names = map (\<lambda>j. table_names ! j) infix_at"
  by (simp add: infix_names_def table_lists infix_at_def)

lemma function_positions:
  "ConditionalIf # Comma # function_names @ function2_names = map (\<lambda>j. table_names ! j)
     function_at"
  by (simp add: function_names_def function2_names_def table_lists function_at_def)

lemma texts_found:
  "list_all (\<lambda>j. j < 33 \<and> find_identifier table_identifiers (table_identifiers ! j @ CHR ''('' # rest) = Some j
       \<and> starts_operator (table_identifiers ! j @ CHR ''('' # rest)) (infix_at @ function_at)"
  unfolding table_lists infix_at_def function_at_def by (simp add: starts_simps)

lemma plain_positions:
  "list_all (\<lambda>j. table_names ! j \<notin> {Subtraction, Addition, ImaginaryUnit})
     function_at"
  unfolding table_lists function_at_def by simp

lemma drop_text: "drop (length w) (w @ s) = s"
  by simp

lemma read_infix:
  assumes "n \<in> set infix_names"
  shows "starts_operator (text_of n @ CHR ''('' # rest)"
    and "read_operator (Some RightParenthesis) (text_of n @ CHR ''('' # rest) = Some (Read_Operator (entry_of n) (CHR ''('' # rest))"
proof -
  obtain j where j: "n = table_names ! j" "j \<in> set infix_at"
    using assms unfolding infix_positions by auto
  then have small: "Suc j < 33" and unit: "table_names ! j \<noteq> ImaginaryUnit" by (auto simp: table_lists infix_at_def)
  have found: "find_identifier table_identifiers (table_identifiers ! j @ CHR ''('' # rest) = Some j
       \<and> starts_operator (table_identifiers ! j @ CHR ''('' # rest)"
    using j(2) texts_found [of rest] by (simp add: list_all_iff)
  show "starts_operator (text_of n @ CHR ''('' # rest)"
    and "read_operator (Some RightParenthesis) (text_of n @ CHR ''('' # rest) = Some (Read_Operator (entry_of n) (CHR ''('' # rest))"
    using found small unit by (simp_all add: j(1) text_at read_at ends_operand_def drop_text)
qed

lemma read_function:
  assumes "n \<in> set (ConditionalIf # Comma # function_names @ function2_names)"
  shows "starts_operator (text_of n @ CHR ''('' # rest)"
    and "read_operator lt (text_of n @ CHR ''('' # rest) = Some (Read_Operator (entry_of n) (CHR ''('' # rest))"
proof -
  obtain j where j: "n = table_names ! j" "j \<in> set function_at"
    using assms unfolding function_positions by auto
  have found: "j < 33 \<and> find_identifier table_identifiers (table_identifiers ! j @ CHR ''('' # rest) = Some j
       \<and> starts_operator (table_identifiers ! j @ CHR ''('' # rest)"
    using j(2) texts_found [of rest] by (simp add: list_all_iff)
  have plain: "table_names ! j \<notin> {Subtraction, Addition, ImaginaryUnit}"
    using j(2) plain_positions by (simp add: list_all_iff)
  show "starts_operator (text_of n @ CHR ''('' # rest)"
    and "read_operator lt (text_of n @ CHR ''('' # rest) = Some (Read_Operator (entry_of n) (CHR ''('' # rest))"
    using found plain by (simp_all add: j(1) text_at read_at drop_text)
qed

lemma read_sign:
  assumes "n \<in> {UnaryPlus, UnaryMinus}"
  shows "starts_operator (text_of n @ CHR ''('' # rest)"
    and "\<not> ends_operand lt \<Longrightarrow>
      read_operator lt (text_of n @ CHR ''('' # rest) = Some (Read_Operator (entry_of n) (CHR ''('' # rest))"
proof -
  have "n = table_names ! Suc 0 \<or> n = table_names ! Suc 2"
    using assms by (auto simp: table_lists)
  then obtain j where j: "n = table_names ! Suc j" "j = 0 \<or> j = 2" by blast
  have small: "Suc j < 33" and sign: "table_names ! j \<in> {Subtraction, Addition}"
    and same: "table_identifiers ! Suc j = table_identifiers ! j"
    using j(2) by (auto simp: table_lists)
  have found: "find_identifier table_identifiers (table_identifiers ! j @ CHR ''('' # rest) = Some j
       \<and> starts_operator (table_identifiers ! j @ CHR ''('' # rest)"
    using j(2) texts_found [of rest] unfolding infix_at_def list_all_append by (elim disjE) simp_all
  show "starts_operator (text_of n @ CHR ''('' # rest)"
    and "\<not> ends_operand lt \<Longrightarrow>
      read_operator lt (text_of n @ CHR ''('' # rest) = Some (Read_Operator (entry_of n) (CHR ''('' # rest))"
    using found small sign by (simp_all add: j(1) text_at read_at drop_text same)
qed

lemma read_unit:
  assumes "rest = [] \<or> (\<exists>cs. rest = CHR '')'' # cs)"
  shows "starts_operator (CHR ''i'' # rest)"
    and "\<not> ends_operand lt \<Longrightarrow> read_operator lt (CHR ''i'' # rest) = Some Read_Unit"
    and "read_operator (Some RightParenthesis) (CHR ''i'' # rest) = Some (Read_Operator (entry_of ImaginaryUnit) rest)"
proof -
  have unit: "table_names ! 31 = ImaginaryUnit" "table_identifiers ! 31 = ''i''" by (simp_all add: table_lists)
  have found: "find_identifier table_identifiers (CHR ''i'' # rest) = Some 31"
    using assms unfolding table_lists by auto
  show "starts_operator (CHR ''i'' # rest)" by (simp add: starts_simps)
  show "\<not> ends_operand lt \<Longrightarrow> read_operator lt (CHR ''i'' # rest) = Some Read_Unit"
    and "read_operator (Some RightParenthesis) (CHR ''i'' # rest) = Some (Read_Operator (entry_of ImaginaryUnit) rest)"
    by (simp_all add: read_at [OF found] unit ends_operand_def)
qed

text \<open>A piece of text that is cut into given tokens where a formula may stand.\<close>

definition cuts :: "mathlib \<Rightarrow> image list \<Rightarrow> int \<Rightarrow> string \<Rightarrow> token list \<Rightarrow> bool" where
  "cuts ml images m s ts \<longleftrightarrow> (\<forall>rest lt pe. (rest = [] \<or> (\<exists>cs. rest = CHR '')'' # cs)) \<longrightarrow> \<not> ends_operand lt \<longrightarrow>
     length pe + length ts \<le> max_tokens \<longrightarrow>
     (\<exists>lt'. tokenize_from ml images (s @ rest) m lt pe = tokenize_from ml images rest m lt' (pe @ ts)))"

lemma cutsI:
  assumes "\<And>rest lt pe. rest = [] \<or> (\<exists>cs. rest = CHR '')'' # cs) \<Longrightarrow> \<not> ends_operand lt \<Longrightarrow>
     length pe + length ts \<le> max_tokens \<Longrightarrow>
     \<exists>lt'. tokenize_from ml images (s @ rest) m lt pe = tokenize_from ml images rest m lt' (pe @ ts)"
  shows "cuts ml images m s ts"
  using assms unfolding cuts_def by blast

lemma cuts_parens:
  assumes "cuts ml images (m + 1000) s ts" and "length pe + length ts \<le> max_tokens"
  shows "tokenize_from ml images (in_parens s @ rest) m lt pe
    = tokenize_from ml images rest m (Some RightParenthesis) (pe @ ts)"
proof -
  obtain lt' where "tokenize_from ml images (s @ CHR '')'' # rest) (m + 1000) (Some LeftParenthesis) pe
      = tokenize_from ml images (CHR '')'' # rest) (m + 1000) lt' (pe @ ts)"
    using assms unfolding cuts_def by (force simp: ends_operand_def)
  then show ?thesis by (simp add: in_parens_def tokenize_open tokenize_close)
qed

lemma starts_parens: "in_parens s @ rest = CHR ''('' # s @ CHR '')'' # rest"
  by (simp add: in_parens_def)

lemma cuts_function:
  assumes "n \<in> set (ConditionalIf # Comma # function_names @ function2_names)"
    and "cuts ml images (m + 1000) s ts" and "length pe + Suc (length ts) \<le> max_tokens"
  shows "tokenize_from ml images (text_of n @ in_parens s @ rest) m lt pe
    = tokenize_from ml images rest m (Some RightParenthesis) (pe @ T_Operator (op_at m n) # ts)"
proof -
  have "tokenize_from ml images (text_of n @ in_parens s @ rest) m lt pe
      = tokenize_from ml images (in_parens s @ rest) m (Some (op_name (entry_of n))) (pe @ [T_Operator (op_at m n)])"
    using read_function [OF assms(1)] assms(3) unfolding starts_parens by (intro tokenize_operator) auto
  also have "\<dots> = tokenize_from ml images rest m (Some RightParenthesis) ((pe @ [T_Operator (op_at m n)]) @ ts)"
    using assms(3) by (intro cuts_parens [OF assms(2)]) simp
  finally show ?thesis by simp
qed

lemma cuts_function_text:
  assumes "n \<in> set (ConditionalIf # Comma # function_names @ function2_names)" and "cuts ml images (m + 1000) s ts"
  shows "cuts ml images m (text_of n @ in_parens s) (T_Operator (op_at m n) # ts)"
  by (rule cutsI, rule exI [of _ "Some RightParenthesis"]) (use cuts_function [OF assms] in simp)

lemma comma_entry: "text_of Comma = '',''" "op_name (entry_of Comma) = Comma" "text_of ConditionalIf = ''if''"
  by (simp_all add: entry_of_def operator_table_defs op_entry_def)

lemma cuts_parens_text: "cuts ml images (m + 1000) s ts \<Longrightarrow> cuts ml images m (in_parens s) ts"
  by (rule cutsI, rule exI [of _ "Some RightParenthesis"]) (simp add: cuts_parens)

lemma cuts_comma:
  assumes s: "cuts ml images (m + 1000) s ts" and t: "cuts ml images m (in_parens u @ v) ts'"
  shows "cuts ml images m (in_parens s @ '','' @ in_parens u @ v) (ts @ T_Operator (op_at m Comma) # ts')"
proof (rule cutsI)
  fix rest lt and pe :: "token list"
  assume rest: "rest = [] \<or> (\<exists>cs. rest = CHR '')'' # cs)"
    and room: "length pe + length (ts @ T_Operator (op_at m Comma) # ts') \<le> max_tokens"
  let ?pe = "(pe @ ts) @ [T_Operator (op_at m Comma)]"
  have "tokenize_from ml images ((in_parens s @ '','' @ in_parens u @ v) @ rest) m lt pe
      = tokenize_from ml images (text_of Comma @ in_parens u @ v @ rest) m (Some RightParenthesis) (pe @ ts)"
    using cuts_parens [OF s] room by (simp add: comma_entry)
  also have "\<dots> = tokenize_from ml images (in_parens u @ v @ rest) m (Some (op_name (entry_of Comma))) ?pe"
    using read_function [of Comma] room unfolding starts_parens by (intro tokenize_operator) auto
  finally show "\<exists>lt'. tokenize_from ml images ((in_parens s @ '','' @ in_parens u @ v) @ rest) m lt pe
      = tokenize_from ml images rest m lt' (pe @ ts @ T_Operator (op_at m Comma) # ts')"
    using t [unfolded cuts_def, rule_format, OF rest, of "Some Comma" ?pe] room
    by (auto simp: comma_entry ends_operand_def)
qed

lemma cuts_print: "well_formed ml images f \<Longrightarrow> cuts ml images m (print f) (infix_of (tree ml images m f))"
proof (induction f arbitrary: m)
  case (Variable i)
  then show ?case by (intro cutsI) (use tokenize_variable [of i images _ _ ml m] in auto)
next
  case (Number ds)
  then show ?case by (intro cutsI) (use tokenize_number [of ml ds _ _ images m] in auto)
next
  case Unit
  show ?case
    by (rule cutsI) (use tokenize_unit read_unit in \<open>fastforce simp: Suc_le_eq\<close>)
next
  case (Sign n f)
  then have n: "n \<in> {UnaryPlus, UnaryMinus}" and f: "cuts ml images (m + 1000) (print f) (infix_of (tree ml images (m + 1000) f))"
    by simp_all
  show ?case
  proof (rule cutsI)
    fix rest lt and pe :: "token list"
    assume lt: "\<not> ends_operand lt" and room: "length pe + length (infix_of (tree ml images m (Sign n f))) \<le> max_tokens"
    have "tokenize_from ml images (text_of n @ in_parens (print f) @ rest) m lt pe
        = tokenize_from ml images (in_parens (print f) @ rest) m (Some (op_name (entry_of n))) (pe @ [T_Operator (op_at m n)])"
      using read_sign(1) [OF n] read_sign(2) [OF n lt] room unfolding starts_parens by (intro tokenize_operator) auto
    then show "\<exists>lt'. tokenize_from ml images (print (Sign n f) @ rest) m lt pe
        = tokenize_from ml images rest m lt' (pe @ infix_of (tree ml images m (Sign n f)))"
      using cuts_parens [OF f, of "pe @ [T_Operator (op_at m n)]"] room by auto
  qed
next
  case (Times_Unit f)
  then have f: "cuts ml images (m + 1000) (print f) (infix_of (tree ml images (m + 1000) f))" by simp
  show ?case
  proof (rule cutsI)
    fix rest lt and pe :: "token list"
    assume rest: "rest = [] \<or> (\<exists>cs. rest = CHR '')'' # cs)"
      and room: "length pe + length (infix_of (tree ml images m (Times_Unit f))) \<le> max_tokens"
    let ?pe = "pe @ infix_of (tree ml images (m + 1000) f)"
    have "tokenize_from ml images (CHR ''i'' # rest) m (Some RightParenthesis) ?pe
        = tokenize_from ml images rest m (Some (op_name (entry_of ImaginaryUnit))) (?pe @ [T_Operator (op_at m ImaginaryUnit)])"
      using read_unit(1,3) [OF rest] room by (intro tokenize_operator) auto
    then show "\<exists>lt'. tokenize_from ml images (print (Times_Unit f) @ rest) m lt pe
        = tokenize_from ml images rest m lt' (pe @ infix_of (tree ml images m (Times_Unit f)))"
      using cuts_parens [OF f, of pe] room by auto
  qed
next
  case (Binary f n g)
  then have n: "n \<in> set infix_names" and f: "cuts ml images (m + 1000) (print f) (infix_of (tree ml images (m + 1000) f))"
    and g: "cuts ml images (m + 1000) (print g) (infix_of (tree ml images (m + 1000) g))" by simp_all
  show ?case
  proof (rule cutsI)
    fix rest lt and pe :: "token list"
    assume room: "length pe + length (infix_of (tree ml images m (Binary f n g))) \<le> max_tokens"
    let ?pe = "pe @ infix_of (tree ml images (m + 1000) f)"
    have "tokenize_from ml images (text_of n @ in_parens (print g) @ rest) m (Some RightParenthesis) ?pe
        = tokenize_from ml images (in_parens (print g) @ rest) m (Some (op_name (entry_of n))) (?pe @ [T_Operator (op_at m n)])"
      using read_infix [OF n] room unfolding starts_parens by (intro tokenize_operator) auto
    then show "\<exists>lt'. tokenize_from ml images (print (Binary f n g) @ rest) m lt pe
        = tokenize_from ml images rest m lt' (pe @ infix_of (tree ml images m (Binary f n g)))"
      using cuts_parens [OF f, of pe] cuts_parens [OF g, of "?pe @ [T_Operator (op_at m n)]"] room by auto
  qed
next
  case (Apply1 n f)
  then show ?case using cuts_function_text [of n] by simp
next
  case (Apply2 n f g)
  then have "cuts ml images (m + 1000) (in_parens (print f) @ '','' @ in_parens (print g))
      (infix_of (tree ml images (m + 2000) f) @ T_Operator (op_at (m + 1000) Comma) # infix_of (tree ml images (m + 2000) g))"
    using cuts_comma [where v = "[]"] cuts_parens_text by (simp add: add.assoc)
  with Apply2.prems cuts_function_text [of n] show ?case by simp
next
  case (Choice f g h)
  then have "cuts ml images (m + 1000)
      (in_parens (print f) @ '','' @ in_parens (print g) @ ('','' @ in_parens (print h)))
      (infix_of (tree ml images (m + 2000) f) @ T_Operator (op_at (m + 1000) Comma)
        # infix_of (tree ml images (m + 2000) g) @ T_Operator (op_at (m + 1000) Comma)
        # infix_of (tree ml images (m + 2000) h))"
    using cuts_comma [where v = "[]"] cuts_parens_text by (intro cuts_comma) (simp_all add: add.assoc)
  then show ?case using cuts_function_text [of ConditionalIf] by (simp add: comma_entry)
qed

section \<open>Formulas are evaluated to what they denote\<close>

primrec height :: "formula \<Rightarrow> nat" where
  "height (Variable i) = 0"
| "height (Number ds) = 0"
| "height Unit = 0"
| "height (Sign n f) = Suc (height f)"
| "height (Times_Unit f) = Suc (height f)"
| "height (Binary f n g) = Suc (max (height f) (height g))"
| "height (Apply1 n f) = Suc (height f)"
| "height (Apply2 n f g) = Suc (max (height f) (height g))"
| "height (Choice f g h) = Suc (max (height f) (max (height g) (height h)))"

definition operate :: "spimage \<Rightarrow> mathlib \<Rightarrow> token_name \<Rightarrow> token list \<Rightarrow> math_stop + token" where
  "operate sp ml n vs = bind_math (meaning sp ml n (rev vs)) (\<lambda>ws. Inr (hd ws))"

primrec denote :: "spimage \<Rightarrow> mathlib \<Rightarrow> image list \<Rightarrow> formula \<Rightarrow> math_stop + token" where
  "denote sp ml images (Variable i) = Inr (T_Image (images ! i))"
| "denote sp ml images (Number ds) = Inr (T_Scalar (sp_cinit (fst (strtod ml ds)) 0))"
| "denote sp ml images Unit = Inr (T_Scalar (sp_cinit 0 1))"
| "denote sp ml images (Sign n f) = bind_math (denote sp ml images f) (\<lambda>a. operate sp ml n [a])"
| "denote sp ml images (Times_Unit f) = bind_math (denote sp ml images f) (\<lambda>a. operate sp ml ImaginaryUnit [a])"
| "denote sp ml images (Binary f n g) = bind_math (denote sp ml images f) (\<lambda>a.
     bind_math (denote sp ml images g) (\<lambda>b. operate sp ml n [a, b]))"
| "denote sp ml images (Apply1 n f) = bind_math (denote sp ml images f) (\<lambda>a. operate sp ml n [a])"
| "denote sp ml images (Apply2 n f g) = bind_math (denote sp ml images f) (\<lambda>a.
     bind_math (denote sp ml images g) (\<lambda>b. operate sp ml n [a, b]))"
| "denote sp ml images (Choice f g h) = bind_math (denote sp ml images f) (\<lambda>a.
     bind_math (denote sp ml images g) (\<lambda>b.
     bind_math (denote sp ml images h) (\<lambda>c. operate sp ml ConditionalIf [a, b, c])))"

definition formula_names :: "token_name list" where
  "formula_names = [UnaryPlus, UnaryMinus, ImaginaryUnit, ConditionalIf, Comma]
     @ infix_names @ function_names @ function2_names"

lemma table_facts:
  "list_all (\<lambda>op. - 3 \<le> precedence op \<and> precedence op \<le> 5 \<and> takes op =
     (if op_name op \<in> set (infix_names @ function2_names) \<or> op_name op = Comma then 2
      else if op_name op = ConditionalIf then 3 else 1)) operator_table"
  by (simp add: operator_table_defs op_entry_def takes_def infix_names_def function2_names_def)

lemma formula_names_table: "set formula_names \<subseteq> set table_names"
  unfolding table_names_def names
  by (simp add: formula_names_def infix_names_def function_names_def function2_names_def)

lemma entry_of_table:
  assumes "n \<in> set formula_names" shows "entry_of n \<in> set operator_table" and "op_name (entry_of n) = n"
proof -
  have "n \<in> op_name ` set operator_table"
    using assms formula_names_table unfolding table_names_def by auto
  then have "filter (\<lambda>op. op_name op = n) operator_table \<noteq> []" by (auto simp: filter_empty_conv)
  then have "entry_of n \<in> set (filter (\<lambda>op. op_name op = n) operator_table)"
    unfolding entry_of_def by (rule hd_in_set)
  then show "entry_of n \<in> set operator_table" and "op_name (entry_of n) = n" by auto
qed

lemma op_at_facts:
  assumes "n \<in> set formula_names"
  shows "known (op_at m n)" and "op_name (op_at m n) = n" and "m - 3 \<le> precedence (op_at m n)"
    and "precedence (op_at m n) \<le> m + 5"
    and "takes (op_at m n) =
       (if n \<in> set (infix_names @ function2_names) \<or> n = Comma then 2 else if n = ConditionalIf then 3 else 1)"
proof -
  note entry = entry_of_table [OF assms]
  have "known (entry_of n)" using entry(1) by (auto simp: known_def)
  moreover have "takes (op_at m n) = takes (entry_of n)" by (simp add: takes_def op_at_def)
  ultimately show "known (op_at m n)" and "op_name (op_at m n) = n" and "m - 3 \<le> precedence (op_at m n)"
    and "precedence (op_at m n) \<le> m + 5"
    and "takes (op_at m n) =
       (if n \<in> set (infix_names @ function2_names) \<or> n = Comma then 2 else if n = ConditionalIf then 3 else 1)"
    using table_facts entry by (simp_all add: op_at_def known_def list_all_iff)
qed

lemma comma_at: "precedence (op_at m Comma) = m - 3" "assoc (op_at m Comma) = NonAssociative"
  by (simp_all add: op_at_def entry_of_def operator_table_defs op_entry_def)

lemma name_kinds:
  "n \<in> {UnaryPlus, UnaryMinus} \<Longrightarrow> n \<in> set formula_names \<and> n \<notin> set infix_names \<and> n \<notin> set function2_names \<and> n \<noteq> Comma \<and> n \<noteq> ConditionalIf"
  "n \<in> set infix_names \<Longrightarrow> n \<in> set formula_names \<and> n \<noteq> Comma"
  "n \<in> set function_names \<Longrightarrow> n \<in> set formula_names \<and> n \<notin> set infix_names \<and> n \<notin> set function2_names \<and> n \<noteq> Comma \<and> n \<noteq> ConditionalIf"
  "n \<in> set function2_names \<Longrightarrow> n \<in> set formula_names \<and> n \<noteq> Comma"
  "{ImaginaryUnit, ConditionalIf, Comma} \<subseteq> set formula_names"
  "{ImaginaryUnit, ConditionalIf} \<inter> set (infix_names @ function2_names) = {}"
  by (auto simp: formula_names_def infix_names_def function_names_def function2_names_def)

lemma ops_of_tree: "well_formed ml images f \<Longrightarrow> x \<in> ops_of (tree ml images m f) \<Longrightarrow> m - 3 \<le> precedence x"
proof (induction f arbitrary: m)
  case (Sign n f)
  then show ?case using Sign.IH [of "m + 1000"] op_at_facts(3) [of n m] name_kinds(1) [of n] by auto
next
  case (Times_Unit f)
  then show ?case using Times_Unit.IH [of "m + 1000"] op_at_facts(3) [of ImaginaryUnit m] name_kinds(5) by auto
next
  case (Binary f n g)
  then show ?case
    using Binary.IH [of "m + 1000"] op_at_facts(3) [of n m] name_kinds(2) [of n] by auto
next
  case (Apply1 n f)
  then show ?case using Apply1.IH [of "m + 1000"] op_at_facts(3) [of n m] name_kinds(3) [of n] by auto
next
  case (Apply2 n f g)
  then show ?case
    using Apply2.IH [of "m + 2000"] op_at_facts(3) [of n m] name_kinds(4) [of n] comma_at(1) [of "m + 1000"] by auto
next
  case (Choice f g h)
  then show ?case
    using Choice.IH [of "m + 2000"] op_at_facts(3) [of ConditionalIf m] name_kinds(5) comma_at(1) [of "m + 1000"] by auto
qed auto

lemma tree_respects_precedence: "well_formed ml images f \<Longrightarrow> respects_precedence (tree ml images m f)"
proof (induction f arbitrary: m)
  case (Sign n f)
  then show ?case
    using ops_of_tree [of ml images f _ "m + 1000"] op_at_facts(4) [of n m] name_kinds(1) [of n] by (fastforce simp: pops_def)
next
  case (Times_Unit f)
  then show ?case
    using ops_of_tree [of ml images f _ "m + 1000"] op_at_facts(4) [of ImaginaryUnit m] name_kinds(5)
    by (fastforce simp: pops_def)
next
  case (Binary f n g)
  then show ?case
    using ops_of_tree [of ml images f _ "m + 1000"] ops_of_tree [of ml images g _ "m + 1000"]
      op_at_facts(4) [of n m] name_kinds(2) [of n] by (fastforce simp: pops_def)
next
  case (Apply1 n f)
  then show ?case
    using ops_of_tree [of ml images f _ "m + 1000"] op_at_facts(4) [of n m] name_kinds(3) [of n] by (fastforce simp: pops_def)
next
  case (Apply2 n f g)
  then show ?case
    using ops_of_tree [of ml images f _ "m + 2000"] ops_of_tree [of ml images g _ "m + 2000"]
      op_at_facts(4) [of n m] name_kinds(4) [of n] comma_at(1) [of "m + 1000"] by (fastforce simp: pops_def)
next
  case (Choice f g h)
  then show ?case
    using ops_of_tree [of ml images f _ "m + 2000"] ops_of_tree [of ml images g _ "m + 2000"]
      ops_of_tree [of ml images h _ "m + 2000"]
      op_at_facts(4) [of ConditionalIf m] name_kinds(5) comma_at [of "m + 1000"] by (fastforce simp: pops_def)
qed auto

lemma pending_tree: "pending (tree ml images m f) \<le> 3 * height f"
proof (induction f arbitrary: m)
  case (Binary f n g)
  show ?case using Binary.IH [of "m + 1000"] by auto
next
  case (Apply2 n f g)
  show ?case using Apply2.IH [of "m + 2000"] by auto
next
  case (Choice f g h)
  show ?case using Choice.IH [of "m + 2000"] by auto
next
  case (Sign n f)
  show ?case using Sign.IH [of "m + 1000"] by simp
next
  case (Times_Unit f)
  show ?case using Times_Unit.IH [of "m + 1000"] by simp
next
  case (Apply1 n f)
  show ?case using Apply1.IH [of "m + 1000"] by simp
qed auto

lemma tree_is_one_value: "well_formed ml images f \<Longrightarrow> width (tree ml images m f) = 1"
  using name_kinds(2) op_at_facts(2) by (cases f) auto

lemma stack_need_tree: "well_formed ml images f \<Longrightarrow> stack_need (tree ml images m f) \<le> Suc (2 * height f)"
proof (induction f arbitrary: m)
  case (Binary f n g)
  show ?case using Binary.prems Binary.IH [of "m + 1000"] tree_is_one_value [of ml images f "m + 1000"] by auto
next
  case (Apply2 n f g)
  show ?case using Apply2.prems Apply2.IH [of "m + 2000"] tree_is_one_value [of ml images f "m + 2000"] by auto
next
  case (Choice f g h)
  show ?case using Choice.prems Choice.IH [of "m + 2000"] tree_is_one_value [of ml images _ "m + 2000"] by auto
next
  case (Sign n f)
  show ?case using Sign.prems Sign.IH [of "m + 1000"] by simp
next
  case (Times_Unit f)
  show ?case using Times_Unit.prems Times_Unit.IH [of "m + 1000"] by simp
next
  case (Apply1 n f)
  show ?case using Apply1.prems Apply1.IH [of "m + 1000"] by simp
qed auto

lemma tree_fits: "well_formed ml images f \<Longrightarrow> fits (tree ml images m f)"
proof (induction f arbitrary: m)
  case (Binary f n g)
  then show ?case using tree_is_one_value op_at_facts [of n m] name_kinds(2) [of n] by simp
next
  case (Apply2 n f g)
  then show ?case
    using tree_is_one_value op_at_facts [of n m] op_at_facts [of Comma "m + 1000"] name_kinds(4) [of n] name_kinds(5) by simp
next
  case (Choice f g h)
  then show ?case
    using tree_is_one_value op_at_facts [of ConditionalIf m] op_at_facts [of Comma "m + 1000"] name_kinds(5,6) by simp
next
  case (Sign n f)
  then show ?case using tree_is_one_value op_at_facts [of n m] name_kinds(1) [of n] by simp
next
  case (Times_Unit f)
  then show ?case using tree_is_one_value op_at_facts [of ImaginaryUnit m] name_kinds(5,6) by simp
next
  case (Apply1 n f)
  then show ?case using tree_is_one_value op_at_facts [of n m] name_kinds(3) [of n] by simp
qed auto

definition operands :: "token_name \<Rightarrow> nat" where
  "operands n = (if n \<in> set (infix_names @ function2_names) then 2 else if n = ConditionalIf then 3 else 1)"

lemma operate_results:
  assumes "n \<in> set formula_names" and "n \<noteq> Comma" and "length vs = operands n" and "list_all is_value vs"
  shows "meaning sp ml n (rev vs) = bind_math (operate sp ml n vs) (\<lambda>v. Inr [v])"
    and "operate sp ml n vs = Inr v \<Longrightarrow> is_value v"
proof -
  have k: "takes (op_at 0 n) = operands n" "operands n \<le> 3"
    using op_at_facts(5) [OF assms(1), of 0] assms(2) by (auto simp: operands_def)
  have one: "length ws = 1 \<and> list_all is_value ws" if "meaning sp ml n (rev vs) = Inr ws" for ws
    using evaluate_operator(2) [of "op_at 0 n" "rev vs" "[]" sp ml ws] op_at_facts(1,2) [OF assms(1), of 0] k assms that
    by (simp add: list_all_rev stack_max_def)
  show "meaning sp ml n (rev vs) = bind_math (operate sp ml n vs) (\<lambda>v. Inr [v])"
    using one by (cases "meaning sp ml n (rev vs)") (auto simp: operate_def length_Suc_conv)
  show "operate sp ml n vs = Inr v \<Longrightarrow> is_value v"
    using one by (cases "meaning sp ml n (rev vs)") (auto simp: operate_def length_Suc_conv)
qed

lemma operands_kinds:
  "n \<in> {UnaryPlus, UnaryMinus} \<Longrightarrow> operands n = 1" "operands ImaginaryUnit = 1" "operands ConditionalIf = 3"
  "n \<in> set infix_names \<Longrightarrow> operands n = 2" "n \<in> set function_names \<Longrightarrow> operands n = 1"
  "n \<in> set function2_names \<Longrightarrow> operands n = 2"
  using name_kinds(1,3) [of n] name_kinds(6) by (auto simp: operands_def)

lemma bind_math_Inr_iff: "bind_math r g = Inr v \<longleftrightarrow> (\<exists>a. r = Inr a \<and> g a = Inr v)"
  by (cases r) simp_all

lemma bind_math_cong: "r = r' \<Longrightarrow> (\<And>a. r' = Inr a \<Longrightarrow> g a = g' a) \<Longrightarrow> bind_math r g = bind_math r' g'"
  by (cases r') simp_all

definition names1 :: "token_name list" where
  "names1 = UnaryPlus # UnaryMinus # ImaginaryUnit # function_names"

definition names2 :: "token_name list" where
  "names2 = infix_names @ function2_names"

lemma operate1:
  assumes "n \<in> set names1" and "is_value a"
  shows "meaning sp ml n [a] = bind_math (operate sp ml n [a]) (\<lambda>v. Inr [v])"
    and "operate sp ml n [a] = Inr v \<Longrightarrow> is_value v"
proof -
  have n: "n \<in> set formula_names" "n \<noteq> Comma" "length [a] = operands n" "list_all is_value [a]"
    using assms name_kinds(1,3) [of n] name_kinds(5) operands_kinds(1,5) [of n] operands_kinds(2) by (auto simp: names1_def)
  show "meaning sp ml n [a] = bind_math (operate sp ml n [a]) (\<lambda>v. Inr [v])"
    using operate_results(1) [OF n] by simp
  show "operate sp ml n [a] = Inr v \<Longrightarrow> is_value v" by (rule operate_results(2) [OF n])
qed

lemma operate2:
  assumes "n \<in> set names2" and "is_value a" and "is_value b"
  shows "meaning sp ml n [b, a] = bind_math (operate sp ml n [a, b]) (\<lambda>v. Inr [v])"
    and "operate sp ml n [a, b] = Inr v \<Longrightarrow> is_value v"
proof -
  have n: "n \<in> set formula_names" "n \<noteq> Comma" "length [a, b] = operands n" "list_all is_value [a, b]"
    using assms name_kinds(2,4) [of n] operands_kinds(4,6) [of n] by (auto simp: names2_def)
  show "meaning sp ml n [b, a] = bind_math (operate sp ml n [a, b]) (\<lambda>v. Inr [v])"
    using operate_results(1) [OF n] by simp
  show "operate sp ml n [a, b] = Inr v \<Longrightarrow> is_value v" by (rule operate_results(2) [OF n])
qed

lemma operate3:
  assumes "is_value a" and "is_value b" and "is_value c"
  shows "meaning sp ml ConditionalIf [c, b, a] = bind_math (operate sp ml ConditionalIf [a, b, c]) (\<lambda>v. Inr [v])"
    and "operate sp ml ConditionalIf [a, b, c] = Inr v \<Longrightarrow> is_value v"
proof -
  have n: "ConditionalIf \<in> set formula_names" "ConditionalIf \<noteq> Comma" "length [a, b, c] = operands ConditionalIf"
    "list_all is_value [a, b, c]"
    using assms name_kinds(5) operands_kinds(3) by auto
  show "meaning sp ml ConditionalIf [c, b, a] = bind_math (operate sp ml ConditionalIf [a, b, c]) (\<lambda>v. Inr [v])"
    using operate_results(1) [OF n] by simp
  show "operate sp ml ConditionalIf [a, b, c] = Inr v \<Longrightarrow> is_value v" by (rule operate_results(2) [OF n])
qed

lemma formula_names1:
  "n = UnaryPlus \<or> n = UnaryMinus \<Longrightarrow> n \<in> set names1" "ImaginaryUnit \<in> set names1"
  "n \<in> set function_names \<Longrightarrow> n \<in> set names1"
  "n \<in> set infix_names \<Longrightarrow> n \<in> set names2" "n \<in> set function2_names \<Longrightarrow> n \<in> set names2"
  by (auto simp: names1_def names2_def)

lemma denote_value: "well_formed ml images f \<Longrightarrow> denote sp ml images f = Inr v \<Longrightarrow> is_value v"
proof (induction f arbitrary: v)
  case (Binary f n g)
  then show ?case by (auto simp: bind_math_Inr_iff intro: operate2(2) [OF formula_names1(4)])
next
  case (Apply2 n f g)
  then show ?case by (auto simp: bind_math_Inr_iff intro: operate2(2) [OF formula_names1(5)])
next
  case (Choice f g h)
  then show ?case by (auto simp: bind_math_Inr_iff intro: operate3(2))
next
  case (Sign n f)
  then show ?case by (auto simp: bind_math_Inr_iff intro: operate1(2) [OF formula_names1(1)])
next
  case (Times_Unit f)
  then show ?case by (auto simp: bind_math_Inr_iff intro: operate1(2) [OF formula_names1(2)])
next
  case (Apply1 n f)
  then show ?case by (auto simp: bind_math_Inr_iff intro: operate1(2) [OF formula_names1(3)])
qed auto

lemma comma_meaning: "list_all is_value vs \<Longrightarrow> 2 \<le> length vs \<Longrightarrow> meaning sp ml Comma vs = Inr vs"
  using evaluate_comma(2) [of "op_at 0 Comma" vs sp ml] op_at_facts [of Comma 0] name_kinds(5) by simp

lemma tree_denotes:
  "well_formed ml images f \<Longrightarrow> eval_tree sp ml (tree ml images m f) = bind_math (denote sp ml images f) (\<lambda>v. Inr [v])"
proof (induction f arbitrary: m)
  case (Binary f n g)
  then show ?case
    using op_at_facts(2) [of n m] name_kinds(2) [of n] denote_value [of ml images _ sp]
    by (auto simp: bind_math_assoc operate2(1) [OF formula_names1(4)] intro!: bind_math_cong)
next
  case (Apply2 n f g)
  then show ?case
    using op_at_facts(2) [of n m] op_at_facts(2) [of Comma "m + 1000"] name_kinds(4) [of n] name_kinds(5)
      denote_value [of ml images _ sp]
    by (auto simp: bind_math_assoc comma_meaning operate2(1) [OF formula_names1(5)] intro!: bind_math_cong)
next
  case (Choice f g h)
  then show ?case
    using op_at_facts(2) [of ConditionalIf m] op_at_facts(2) [of Comma "m + 1000"] name_kinds(5)
      denote_value [of ml images _ sp]
    by (auto simp: bind_math_assoc comma_meaning operate3(1) intro!: bind_math_cong)
next
  case (Sign n f)
  then show ?case
    using op_at_facts(2) [of n m] name_kinds(1) [of n] denote_value [of ml images _ sp]
    by (auto simp: bind_math_assoc operate1(1) [OF formula_names1(1)] intro!: bind_math_cong)
next
  case (Times_Unit f)
  then show ?case
    using op_at_facts(2) [of ImaginaryUnit m] name_kinds(5) denote_value [of ml images _ sp]
    by (auto simp: bind_math_assoc operate1(1) [OF formula_names1(2)] intro!: bind_math_cong)
next
  case (Apply1 n f)
  then show ?case
    using op_at_facts(2) [of n m] name_kinds(3) [of n] denote_value [of ml images _ sp]
    by (auto simp: bind_math_assoc operate1(1) [OF formula_names1(3)] intro!: bind_math_cong)
qed auto

lemma tokens_within_text:
  "well_formed ml images f \<Longrightarrow> length (infix_of (tree ml images m f)) \<le> length (print f)"
proof (induction f arbitrary: m)
  case (Variable i)
  then show ?case using variable_name_upper [of i] by (simp add: Suc_le_eq)
next
  case (Number ds)
  then show ?case by (simp add: reads_number_def Suc_le_eq)
next
  case Unit
  then show ?case by simp
next
  case (Sign n f)
  show ?case using Sign.prems Sign.IH [of "m + 1000"] by (simp add: in_parens_def)
next
  case (Times_Unit f)
  show ?case using Times_Unit.prems Times_Unit.IH [of "m + 1000"] by (simp add: in_parens_def)
next
  case (Binary f n g)
  show ?case using Binary.prems Binary.IH(1) [of "m + 1000"] Binary.IH(2) [of "m + 1000"] by (simp add: in_parens_def)
next
  case (Apply1 n f)
  show ?case using Apply1.prems Apply1.IH [of "m + 1000"] by (simp add: in_parens_def)
next
  case (Apply2 n f g)
  show ?case using Apply2.prems Apply2.IH(1) [of "m + 2000"] Apply2.IH(2) [of "m + 2000"] by (simp add: in_parens_def)
next
  case (Choice f g h)
  show ?case
    using Choice.prems Choice.IH(1) [of "m + 2000"] Choice.IH(2) [of "m + 2000"] Choice.IH(3) [of "m + 2000"]
    by (simp add: in_parens_def)
qed

section \<open>Properties\<close>

text \<open>
  Property C9 (functional): the text of a formula, cut into tokens, put into postfix order and run on
  the stack machine, gives what the formula denotes: the value of its operators on exactly
  their operands, or the first error from the left.  The bounds keep the two stacks within
  their 100 elements and the tokens within their 1000.
\<close>

theorem formula_text_is_evaluated:
  assumes "well_formed ml images f" and "height f \<le> 33" and "length (print f) \<le> max_tokens"
  shows "evaluate_math_expression sp ml (print f) images = denote sp ml images f"
proof -
  let ?e = "tree ml images 0 f"
  have "length (infix_of ?e) \<le> max_tokens" using tokens_within_text [OF assms(1), of 0] assms(3) by simp
  then have "\<exists>lt. tokenize_from ml images (print f @ []) 0 None [] = tokenize_from ml images [] 0 lt ([] @ infix_of ?e)"
    by (intro cuts_print [OF assms(1), of 0, unfolded cuts_def, rule_format]) (simp_all add: ends_operand_def)
  then obtain lt where "tokenize_from ml images (print f) 0 None [] = tokenize_from ml images [] 0 lt (infix_of ?e)"
    by auto
  moreover have "tokenize_from ml images [] 0 lt (infix_of ?e) = Inr (infix_of ?e)"
    by (subst tokenize_from.simps) simp
  ultimately have tokens: "tokenize_string ml (print f) images = Inr (infix_of ?e)"
    by (simp add: tokenize_string_def)
  have "pending ?e \<le> stack_max" using pending_tree [of ml images 0 f] assms(2) by (simp add: stack_max_def)
  then have parsed: "parse_tokens (infix_of ?e) = Inr (postfix_of ?e)"
    by (rule parse_tokens_tree [OF tree_respects_precedence [OF assms(1)]])
  have "stack_need ?e \<le> stack_max" using stack_need_tree [OF assms(1), of 0] assms(2) by (simp add: stack_max_def)
  then have "evaluate_postfix sp ml (postfix_of ?e) = denote sp ml images f"
    using evaluate_postfix_tree [OF tree_fits [OF assms(1)] tree_is_one_value [OF assms(1)]]
    by (cases "denote sp ml images f") (simp_all add: tree_denotes [OF assms(1)])
  then show ?thesis
    using denote_value [OF assms(1), of sp]
    by (cases "denote sp ml images f") (auto simp: evaluate_math_expression_def tokens parsed elim!: is_value_cases)
qed

text \<open>A small library, whose \<open>strtod\<close> reads whole numbers.\<close>

definition example_mathlib :: mathlib where
  "example_mathlib = \<lparr>sp_image_invert = id, sp_image_get_mask = id, sp_image_integrate = (\<lambda>_. 0),
     sp_coords_from_index = (\<lambda>_ _. (0, 0, 0)), sp_cpow = (\<lambda>x _. x), sp_cexp = id, sp_clog = id,
     sp_carg = (\<lambda>_. 0),
     strtod = (\<lambda>s. let ds = takeWhile is_digit s in
       (fold (\<lambda>c n. 10 * n + (real (of_char c) - 48)) ds 0, length ds))\<rparr>"

lemma example_reads_number: "list_all is_digit ds \<Longrightarrow> ds \<noteq> [] \<Longrightarrow> reads_number example_mathlib ds"
  by (auto simp: reads_number_def example_mathlib_def Let_def list_all_iff takeWhile_eq_all_conv [THEN iffD2]
      takeWhile_append is_digit_def)

lemma formula_text_is_evaluated_witness:
  "evaluate_math_expression example_library example_mathlib ''(-(7))*((2)+(i))'' [] = Inr (T_Scalar (Complex (-14) (-7)))"
proof -
  let ?f = "Binary (Sign UnaryMinus (Number ''7'')) Multiplication (Binary (Number ''2'') Addition Unit)"
  have wf: "well_formed example_mathlib [] ?f"
    by (simp add: example_reads_number is_digit_def infix_names_def)
  have printed: "print ?f = ''(-(7))*((2)+(i))''"
    by (simp add: in_parens_def entry_of_def operator_table_defs op_entry_def)
  have "evaluate_math_expression example_library example_mathlib (print ?f) [] = denote example_library example_mathlib [] ?f"
  proof (rule formula_text_is_evaluated [OF wf])
    show "length (print ?f) \<le> max_tokens" unfolding printed by (simp add: max_tokens_def)
  qed simp
  also have "\<dots> = Inr (T_Scalar (Complex (-14) (-7)))"
    by (simp add: operate_def meaning_def token_stack_mul_def token_stack_add_def token_stack_unary_minus_def unary_def
        peeped_def example_mathlib_def is_digit_def stack_max_def complex_eq_iff)
  finally show ?thesis unfolding printed .
qed

text \<open>
  Property C10 (functional): tokens without parentheses are put into the postfix order that the
  precedences and associativities of the operators ask for: any tree whose operators bind
  tighter than the one above them, or as tight on the left of a left-associative one, is
  the tree that \<open>parse_tokens\<close> finds, as long as its stack holds the pending operators.
\<close>

theorem precedences_are_respected:
  assumes "respects_precedence e" and "pending e \<le> stack_max"
  shows "parse_tokens (infix_of e) = Inr (postfix_of e)"
  by (rule parse_tokens_tree [OF assms])

lemma precedences_are_respected_witness:
  "parse_tokens [T_Scalar 1, T_Operator (entry_of Subtraction), T_Scalar 2, T_Operator (entry_of Addition),
       T_Scalar 3, T_Operator (entry_of Multiplication), T_Scalar 4]
    = Inr [T_Scalar 1, T_Scalar 2, T_Operator (entry_of Subtraction), T_Scalar 3, T_Scalar 4,
       T_Operator (entry_of Multiplication), T_Operator (entry_of Addition)]"
  using precedences_are_respected [of "Node (Node (Leaf (T_Scalar 1)) (entry_of Subtraction) (Leaf (T_Scalar 2)))
      (entry_of Addition) (Node (Leaf (T_Scalar 3)) (entry_of Multiplication) (Leaf (T_Scalar 4)))"]
  by (simp add: pops_def entry_of_def operator_table_defs op_entry_def stack_max_def)







text \<open>
  \<open>token_stack_div\<close> inverts the parts of a scalar divisor one by one, so
  the quotient of a scalar that is not zero is right exactly when the divisor is real.
\<close>

lemma division_needs_real_divisor:
  assumes "x \<noteq> 0" and "y \<noteq> 0"
  shows "token_stack_div sp ml [T_Scalar y, T_Scalar x] = Inr [T_Scalar (x / y)] \<longleftrightarrow> Im y = 0"
proof -
  have "token_stack_div sp ml [T_Scalar y, T_Scalar x] = Inr [T_Scalar (parts_inverted y * x)]"
    by (simp add: token_stack_div_def token_stack_mul_def stack_max_def)
  moreover have "parts_inverted y * x = x / y \<longleftrightarrow> parts_inverted y * y = 1"
    using assms by (auto simp: field_simps)
  moreover have "parts_inverted y * y = 1 \<longleftrightarrow> Im y = 0"
  proof (cases "Re y = 0")
    case True
    then show ?thesis using assms(2) by (auto simp: parts_inverted_def complex_eq_iff)
  next
    case False
    then show ?thesis by (auto simp: parts_inverted_def complex_eq_iff)
  qed
  ultimately show ?thesis by simp
qed

lemma division_needs_real_divisor_witness:
  "token_stack_div example_library example_mathlib [T_Scalar \<i>, T_Scalar 1] \<noteq> Inr [T_Scalar (1 / \<i>)]"
  using division_needs_real_divisor [of 1 \<i> example_library example_mathlib] by simp

text \<open>
  The name of a variable is its number in the letters, and leading \<open>A\<close>s change
  nothing: the names that are not of one letter start with \<open>BA\<close>, and \<open>AA\<close> is
  the first variable again.
\<close>

lemma variable_names:
  "index_from_variable_name (replicate k (CHR ''A'') @ variable_name i) = i"
  by (induction k) (simp_all add: index_of_variable_name, simp add: index_from_variable_name_def)

lemma tokenize_letter:
  assumes "0 < length images" and "cs = [] \<or> \<not> is_upper (hd cs)" and "length pe < max_tokens"
  shows "tokenize_from ml images (CHR ''A'' # cs) m lt pe
    = tokenize_from ml images cs m (Some Operand) (pe @ [T_Image (images ! 0)])"
proof -
  have "takeWhile is_upper cs = []" "dropWhile is_upper cs = cs" using assms(2) by (cases cs; simp)+
  moreover have "is_upper (CHR ''A'')" by (simp add: is_upper_def)
  ultimately show ?thesis
    using assms(1,3) by (subst tokenize_from.simps) (simp add: is_blank_def is_digit_def index_from_variable_name_def)
qed

lemma power_read:
  "starts_operator ''^-A''" "read_operator (Some Operand) ''^-A'' = Some (Read_Operator (entry_of Exponentiation) ''-A'')"
  "starts_operator ''-A''" "read_operator (Some Exponentiation) ''-A'' = Some (Read_Operator (entry_of UnaryMinus) ''A'')"
proof -
  have "find_identifier table_identifiers ''^-A'' = Some 13" and "find_identifier table_identifiers ''-A'' = Some 2"
    unfolding table_lists by simp_all
  moreover have "table_names ! 13 = Exponentiation" "table_names ! 2 = Subtraction" "table_names ! Suc 2 = UnaryMinus"
    "length (table_identifiers ! 13) = 1" "length (table_identifiers ! Suc 2) = 1"
    by (simp_all add: table_lists)
  ultimately show "read_operator (Some Operand) ''^-A'' = Some (Read_Operator (entry_of Exponentiation) ''-A'')"
    and "read_operator (Some Exponentiation) ''-A'' = Some (Read_Operator (entry_of UnaryMinus) ''A'')"
    by (simp_all add: read_at ends_operand_def)
qed (simp_all add: starts_simps)

lemma power_entries:
  "precedence (entry_of Exponentiation) = 4" "assoc (entry_of Exponentiation) = RightAssociative"
  "n_operands (entry_of Exponentiation) = 1" "op_name (entry_of Exponentiation) = Exponentiation"
  "precedence (entry_of UnaryMinus) = 3" "assoc (entry_of UnaryMinus) = RightAssociative"
  by (simp_all add: entry_of_def operator_table_defs op_entry_def)

text \<open>
  A power with a signed exponent and no parentheses: the sign does not bind as
  tight as \<open>^\<close>, so \<open>^\<close> is applied before there is an exponent, and pops a second
  operand from an empty stack, as the table gives it one operand.
\<close>

lemma signed_exponent_underflows:
  assumes "0 < length images"
  shows "evaluate_math_expression sp ml ''A^-A'' images = Inl (M_Fault Out_Of_Bounds)"
proof -
  let ?op = "\<lambda>n. T_Operator (op_at 0 n)"
  have "tokenize_string ml ''A^-A'' images = Inr [T_Image (images ! 0), ?op Exponentiation, ?op UnaryMinus, T_Image (images ! 0)]"
    using assms power_read
    by (simp add: tokenize_string_def tokenize_letter tokenize_operator power_entries max_tokens_def is_upper_def
        tokenize_from.simps [of ml images "[]"])
  moreover have "parse_tokens [T_Image (images ! 0), ?op Exponentiation, ?op UnaryMinus, T_Image (images ! 0)]
      = Inr [T_Image (images ! 0), ?op Exponentiation, T_Image (images ! 0), ?op UnaryMinus]"
    by (simp add: parse_tokens_def parse_from.simps op_at_def power_entries stack_max_def)
  ultimately show ?thesis
    by (simp add: evaluate_math_expression_def evaluate_postfix_def stack_max_def op_at_def power_entries token_stack_pow_def)
qed

lemma signed_exponent_underflows_witness:
  "evaluate_math_expression example_library example_mathlib ''A^-A'' [sp_image_alloc example_library 2 1 1] = Inl (M_Fault Out_Of_Bounds)"
  by (rule signed_exponent_underflows) simp

end
