(* ===== verification/Geometry.thy ===== *)
theory Geometry
  imports Image
begin

text \<open>
  The geometry of several detectors (\<open>src/geometry_constraints.c\<close>): the projective transform of
  an image to the common plane, control points that have to lie on a line through the
  origin or on a circle around it, and the search for the positions of the images that fits
  them best, on top of the least-squares solver of GSL.

  \<open>sp_matrix\<close> and \<open>sp_vector\<close> are read as matrices and vectors of reals, and their
  arithmetic (\<open>sp_matrix_scale\<close>, \<open>sp_matrix_vector_prod\<close>, \<open>sp_vector_sub\<close>,
  \<open>sp_vector_norm\<close>) as the linear algebra it computes.  \<open>sp_matrix_invert\<close> and the solver
  are parameters.  Memory and the text printed by \<open>print_state\<close> and
  \<open>affine_transform_show\<close> are left out.
\<close>

section \<open>Transforms\<close>

type_synonym matrix = "nat \<times> nat \<Rightarrow> real"
type_synonym sp_vector = "real list"

definition sp_matrix_set :: "nat \<Rightarrow> nat \<Rightarrow> real \<Rightarrow> matrix \<Rightarrow> matrix" where
  "sp_matrix_set i j v A = A((i, j) := v)"

definition sp_matrix_identity :: matrix where
  "sp_matrix_identity = (\<lambda>(i, j). if i = j then 1 else 0)"

text \<open>\<open>affine_transfrom_multiply(t, o)\<close> sets \<open>t\<close> to the product.\<close>

definition affine_transfrom_multiply :: "matrix \<Rightarrow> matrix \<Rightarrow> matrix" where
  "affine_transfrom_multiply t u =
     (let m = (\<lambda>i j. t (i, 0) * u (0, j) + t (i, 1) * u (1, j) + t (i, 2) * u (2, j)) in
      (sp_matrix_set 2 2 (m 2 2) \<circ> sp_matrix_set 2 1 (m 2 1) \<circ> sp_matrix_set 2 0 (m 2 0)
       \<circ> sp_matrix_set 1 2 (m 1 2) \<circ> sp_matrix_set 1 1 (m 1 1) \<circ> sp_matrix_set 1 0 (m 1 0)
       \<circ> sp_matrix_set 0 2 (m 0 2) \<circ> sp_matrix_set 0 1 (m 0 1) \<circ> sp_matrix_set 0 0 (m 0 0)) t)"

definition affine_transfrom_z_rotate :: "real \<Rightarrow> matrix \<Rightarrow> matrix" where
  "affine_transfrom_z_rotate angle t =
     affine_transfrom_multiply
       ((sp_matrix_set 1 1 (cos angle) \<circ> sp_matrix_set 1 0 (- sin angle)
         \<circ> sp_matrix_set 0 1 (sin angle) \<circ> sp_matrix_set 0 0 (cos angle)) sp_matrix_identity) t"

definition affine_transfrom_y_rotate :: "real \<Rightarrow> matrix \<Rightarrow> matrix" where
  "affine_transfrom_y_rotate angle t =
     affine_transfrom_multiply
       ((sp_matrix_set 0 2 (- sin angle / 1024) \<circ> sp_matrix_set 0 0 (cos angle)) sp_matrix_identity) t"

definition scale_at :: "real \<Rightarrow> nat \<Rightarrow> nat \<Rightarrow> matrix \<Rightarrow> matrix" where
  "scale_at r i j A = sp_matrix_set i j (A (i, j) * r) A"

definition affine_transfrom_scale :: "real \<Rightarrow> matrix \<Rightarrow> matrix" where
  "affine_transfrom_scale r =
     scale_at r 1 1 \<circ> scale_at r 0 0 \<circ> scale_at r 1 0 \<circ> scale_at r 0 1 \<circ> scale_at r 1 2 \<circ> scale_at r 0 2"

definition translate_at :: "real \<Rightarrow> real \<Rightarrow> nat \<Rightarrow> matrix \<Rightarrow> matrix" where
  "translate_at dx dy j A = sp_matrix_set 2 j (A (2, j) + dx * A (0, j) + dy * A (1, j)) A"

definition affine_transfrom_translate :: "real \<Rightarrow> real \<Rightarrow> matrix \<Rightarrow> matrix" where
  "affine_transfrom_translate dx dy = translate_at dx dy 1 \<circ> translate_at dx dy 0 \<circ> translate_at dx dy 2"

text \<open>\<open>1/dz\<close> with \<open>dz\<close> zero is a value about which nothing is known.\<close>

definition affine_transfrom_from_parameters ::
  "(real \<Rightarrow> real) \<Rightarrow> real \<Rightarrow> real \<Rightarrow> real \<Rightarrow> real \<Rightarrow> real \<Rightarrow> real \<Rightarrow> real \<Rightarrow> matrix" where
  "affine_transfrom_from_parameters nf image_x image_y dx dy dz alpha theta =
     (affine_transfrom_translate (- image_x / 2) (- image_y / 2)
      \<circ> affine_transfrom_translate dx dy
      \<circ> affine_transfrom_scale (fp_div nf 1 dz)
      \<circ> affine_transfrom_y_rotate alpha
      \<circ> affine_transfrom_z_rotate theta) sp_matrix_identity"

text \<open>A point of other than two coordinates gives a null pointer.\<close>

definition apply_affine_transform :: "(real \<Rightarrow> real) \<Rightarrow> matrix \<Rightarrow> sp_vector \<Rightarrow> sp_vector option" where
  "apply_affine_transform nf t p =
     (if length p \<noteq> 2 then None
      else let fx = p ! 0; fy = p ! 1;
             x = t (0, 0) * fx + t (1, 0) * fy + t (2, 0);
             y = t (0, 1) * fx + t (1, 1) * fy + t (2, 1);
             w = t (0, 2) * fx + t (1, 2) * fy + t (2, 2)
           in Some [fp_div nf x w, fp_div nf y w])"

definition apply_affine_transform_inverse ::
  "(real \<Rightarrow> real) \<Rightarrow> (matrix \<Rightarrow> matrix) \<Rightarrow> matrix \<Rightarrow> sp_vector \<Rightarrow> sp_vector option" where
  "apply_affine_transform_inverse nf sp_matrix_invert t p =
     (if length p \<noteq> 2 then None
      else let A = sp_matrix_invert t; fx = p ! 0; fy = p ! 1;
             x = A (0, 0) * fx + A (1, 0) * fy + A (2, 0);
             y = A (0, 1) * fx + A (1, 1) * fy + A (2, 1);
             w = A (0, 2) * fx + A (1, 2) * fy + A (2, 2)
           in Some [fp_div nf x w, fp_div nf y w])"

definition affine_transform_invert :: "(matrix \<Rightarrow> matrix) \<Rightarrow> matrix \<Rightarrow> matrix" where
  "affine_transform_invert sp_matrix_invert t = sp_matrix_invert t"

section \<open>Constraints\<close>

datatype GeometryConstraintType = RadialLineConstraint | CircleConstraint
datatype GeometryVariableType = DeltaX | DeltaY | Zoom | Alpha | Theta

text \<open>
  Positioned images are shared: variables and control points point to them.  They live in a
  store, and a pointer is the index of its image.
\<close>

record positioned_image =
  gimage :: image
  gpos :: "GeometryVariableType \<Rightarrow> real"

record control_point =
  point_parent :: nat
  point_pos :: "real \<times> real"

record geometric_constraint =
  points :: "control_point list"
  constraint_type :: GeometryConstraintType
  best_fit :: real
  fit_error :: "real list option"

record geometry_variable =
  variable_kind :: GeometryVariableType
  variable_parent :: nat

record geometrically_constrained_system =
  store :: "nat \<Rightarrow> positioned_image"
  constraints :: "geometric_constraint list"
  variables :: "geometry_variable list"
  n_variables :: nat

definition geometrically_constrained_system_alloc :: "(nat \<Rightarrow> positioned_image) \<Rightarrow> geometrically_constrained_system" where
  "geometrically_constrained_system_alloc images = \<lparr>store = images, constraints = [], variables = [], n_variables = 0\<rparr>"

definition geometrically_constrained_system_add_constraint ::
  "geometric_constraint \<Rightarrow> geometrically_constrained_system \<Rightarrow> geometrically_constrained_system" where
  "geometrically_constrained_system_add_constraint c gc = gc\<lparr>constraints := constraints gc @ [c]\<rparr>"

definition geometrically_constrained_system_add_variable ::
  "geometry_variable \<Rightarrow> geometrically_constrained_system \<Rightarrow> geometrically_constrained_system" where
  "geometrically_constrained_system_add_variable v gc =
     gc\<lparr>variables := variables gc @ [v], n_variables := Suc (n_variables gc)\<rparr>"

definition create_control_point :: "nat \<Rightarrow> real \<Rightarrow> real \<Rightarrow> control_point" where
  "create_control_point parent x y = \<lparr>point_parent = parent, point_pos = (x, y)\<rparr>"

definition create_geometry_variable :: "nat \<Rightarrow> GeometryVariableType \<Rightarrow> geometry_variable" where
  "create_geometry_variable parent type = \<lparr>variable_kind = type, variable_parent = parent\<rparr>"

definition create_positioned_image :: "image \<Rightarrow> positioned_image" where
  "create_positioned_image a = \<lparr>gimage = a, gpos = (\<lambda>i. if i = Zoom then 1 else 0)\<rparr>"

definition geometric_constraint_init :: "GeometryConstraintType \<Rightarrow> real \<Rightarrow> geometric_constraint" where
  "geometric_constraint_init type best_guess =
     \<lparr>points = [], constraint_type = type, best_fit = best_guess, fit_error = None\<rparr>"

definition geometric_constraint_add_point :: "control_point \<Rightarrow> geometric_constraint \<Rightarrow> geometric_constraint" where
  "geometric_constraint_add_point p c = c\<lparr>points := points c @ [p]\<rparr>"

definition set_image_position :: "GeometryVariableType \<Rightarrow> real \<Rightarrow> positioned_image \<Rightarrow> positioned_image" where
  "set_image_position t v a = a\<lparr>gpos := (gpos a)(t := v)\<rparr>"

definition affine_transfrom_from_positioned_image :: "(real \<Rightarrow> real) \<Rightarrow> positioned_image \<Rightarrow> matrix" where
  "affine_transfrom_from_positioned_image nf a =
     affine_transfrom_from_parameters nf (real (size_x (gimage a))) (real (size_y (gimage a)))
       (gpos a DeltaX) (gpos a DeltaY) (gpos a Zoom) (gpos a Alpha) (gpos a Theta)"

definition control_point_list_to_global ::
  "(real \<Rightarrow> real) \<Rightarrow> (nat \<Rightarrow> positioned_image) \<Rightarrow> control_point list \<Rightarrow> sp_vector option list" where
  "control_point_list_to_global nf images ps =
     map (\<lambda>p. apply_affine_transform nf (affine_transfrom_from_positioned_image nf (images (point_parent p)))
        [fst (point_pos p), snd (point_pos p)]) ps"

definition project_point_on_line_through_origin :: "sp_vector \<Rightarrow> real \<Rightarrow> sp_vector option" where
  "project_point_on_line_through_origin p theta =
     (if length p \<noteq> 2 then None
      else let l0 = cos theta; l1 = sin theta; s = 1.0 / (l0 * l0 + l1 * l1)
           in Some [s * (l0 * l0) * p ! 0 + s * (l0 * l1) * p ! 1,
                    s * (l0 * l1) * p ! 0 + s * (l1 * l1) * p ! 1])"

definition project_point_on_centered_circle :: "(real \<Rightarrow> real) \<Rightarrow> sp_vector \<Rightarrow> real \<Rightarrow> sp_vector option" where
  "project_point_on_centered_circle nf p radius =
     (if length p \<noteq> 2 then None
      else let dist = sqrt (p ! 0 * p ! 0 + p ! 1 * p ! 1)
           in Some [fp_div nf (p ! 0 * radius) dist, fp_div nf (p ! 1 * radius) dist])"

section \<open>The residuals\<close>

text \<open>
  \<open>sp_vector_norm\<close> of the difference of the projection and the point.  Null points do not
  occur: control points have two coordinates.
\<close>

definition distance_of :: "sp_vector \<Rightarrow> sp_vector \<Rightarrow> real" where
  "distance_of q p = sqrt ((q ! 0 - p ! 0)\<^sup>2 + (q ! 1 - p ! 1)\<^sup>2)"

definition point_residual ::
  "(real \<Rightarrow> real) \<Rightarrow> GeometryConstraintType \<Rightarrow> real \<Rightarrow> sp_vector option \<Rightarrow> real result" where
  "point_residual nf type fit cp =
     bind_result (deref cp) (\<lambda>p.
     bind_result (deref (case type of
         RadialLineConstraint \<Rightarrow> project_point_on_line_through_origin p fit
       | CircleConstraint \<Rightarrow> project_point_on_centered_circle nf p fit)) (\<lambda>q.
       Inr (distance_of q p)))"

fun map_result :: "('x \<Rightarrow> 'y result) \<Rightarrow> 'x list \<Rightarrow> 'y list result" where
  "map_result f [] = Inr []"
| "map_result f (x # xs) = bind_result (f x) (\<lambda>y. bind_result (map_result f xs) (\<lambda>ys. Inr (y # ys)))"

text \<open>\<open>evaluate_constraints\<close> writes the parameters into the system and returns the residuals.\<close>

definition zoom_or_value :: "GeometryVariableType \<Rightarrow> real \<Rightarrow> real" where
  "zoom_or_value type v = (if type = Zoom then (if v \<le> 0.01 then 0.01 else v) else v)"

definition apply_variable :: "real list \<Rightarrow> geometry_variable list \<Rightarrow> nat \<Rightarrow> (nat \<Rightarrow> positioned_image) \<Rightarrow> nat \<Rightarrow> positioned_image" where
  "apply_variable x vs i images =
     (let v = vs ! i; a = variable_parent v in
      images(a := set_image_position (variable_kind v) (zoom_or_value (variable_kind v) (x ! i)) (images a)))"

definition apply_parameters :: "real list \<Rightarrow> geometrically_constrained_system \<Rightarrow> geometrically_constrained_system" where
  "apply_parameters x gc = gc\<lparr>
     store := fold (apply_variable x (variables gc)) [0..<n_variables gc] (store gc),
     constraints := map (\<lambda>(i, c). c\<lparr>best_fit := x ! (n_variables gc + i)\<rparr>)
       (zip [0..<length (constraints gc)] (constraints gc))\<rparr>"

definition constraint_residuals ::
  "(real \<Rightarrow> real) \<Rightarrow> (nat \<Rightarrow> positioned_image) \<Rightarrow> geometric_constraint \<Rightarrow> real list result" where
  "constraint_residuals nf images c =
     map_result (point_residual nf (constraint_type c) (best_fit c)) (control_point_list_to_global nf images (points c))"

definition evaluate_constraints ::
  "(real \<Rightarrow> real) \<Rightarrow> real list \<Rightarrow> geometrically_constrained_system \<Rightarrow> (real list \<times> geometrically_constrained_system) result" where
  "evaluate_constraints nf x gc =
     (let gc = apply_parameters x gc in
      bind_result (map_result (constraint_residuals nf (store gc)) (constraints gc)) (\<lambda>fs. Inr (concat fs, gc)))"

text \<open>
  The numerical derivative.  The loop moves the components of the two vectors one after the
  other and does not move them back.  \<open>J\<close> is the list of its columns.
\<close>

definition delta :: real where
  "delta = 1 / 10000"

fun df_columns ::
  "(real \<Rightarrow> real) \<Rightarrow> nat list \<Rightarrow> real list \<Rightarrow> real list \<Rightarrow> geometrically_constrained_system \<Rightarrow>
   (real list list \<times> geometrically_constrained_system) result" where
  "df_columns nf [] x1 x2 gc = Inr ([], gc)"
| "df_columns nf (i # is) x1 x2 gc =
     (let x1 = x1[i := x1 ! i - delta] in
      bind_result (evaluate_constraints nf x1 gc) (\<lambda>(f1, gc).
        let x2 = x2[i := x2 ! i + delta] in
        bind_result (evaluate_constraints nf x2 gc) (\<lambda>(f2, gc).
        bind_result (df_columns nf is x1 x2 gc) (\<lambda>(J, gc).
          Inr (map2 (\<lambda>b a. 1 / (2 * delta) * (b - a)) f2 f1 # J, gc)))))"

definition evaluate_constraints_df ::
  "(real \<Rightarrow> real) \<Rightarrow> real list \<Rightarrow> geometrically_constrained_system \<Rightarrow>
   (real list list \<times> geometrically_constrained_system) result" where
  "evaluate_constraints_df nf x gc = df_columns nf [0..<length x] x x gc"

definition evaluate_constraints_fdf ::
  "(real \<Rightarrow> real) \<Rightarrow> real list \<Rightarrow> geometrically_constrained_system \<Rightarrow>
   (real list \<times> real list list \<times> geometrically_constrained_system) result" where
  "evaluate_constraints_fdf nf x gc =
     bind_result (evaluate_constraints nf x gc) (\<lambda>(f, gc).
     bind_result (evaluate_constraints_df nf x gc) (\<lambda>(J, gc). Inr (f, J, gc)))"

section \<open>The search\<close>

text \<open>
  The solver of GSL, a parameter: it calls the functions it is given, which write into the
  system, and keeps a state of its own.  \<open>fdfsolver_iterate\<close> also returns its status, 0 for
  success; \<open>test_delta\<close> tells if the search goes on.
\<close>

record 's gsl =
  fdfsolver_set :: "nat \<Rightarrow> nat \<Rightarrow>
    (real list \<Rightarrow> geometrically_constrained_system \<Rightarrow>
      (real list \<times> real list list \<times> geometrically_constrained_system) result) \<Rightarrow>
    real list \<Rightarrow> geometrically_constrained_system \<Rightarrow> ('s \<times> geometrically_constrained_system) result"
  fdfsolver_iterate ::
    "(real list \<Rightarrow> geometrically_constrained_system \<Rightarrow> (real list \<times> geometrically_constrained_system) result) \<Rightarrow>
     (real list \<Rightarrow> geometrically_constrained_system \<Rightarrow> (real list list \<times> geometrically_constrained_system) result) \<Rightarrow>
     's \<Rightarrow> geometrically_constrained_system \<Rightarrow> (int \<times> 's \<times> geometrically_constrained_system) result"
  test_delta :: "real \<Rightarrow> real \<Rightarrow> 's \<Rightarrow> bool"
  solver_f :: "'s \<Rightarrow> real list"

text \<open>The loop does at most 500 iterations.\<close>

fun search ::
  "'s gsl \<Rightarrow> (real \<Rightarrow> real) \<Rightarrow> nat \<Rightarrow> 's \<Rightarrow> geometrically_constrained_system \<Rightarrow>
   ('s \<times> geometrically_constrained_system) result" where
  "search gsl nf 0 s gc = Inr (s, gc)"
| "search gsl nf (Suc n) s gc =
     bind_result (fdfsolver_iterate gsl (evaluate_constraints nf) (evaluate_constraints_df nf) s gc) (\<lambda>(status, s, gc).
       if status \<noteq> 0 then Inr (s, gc)
       else if test_delta gsl (1 / 10000) (1 / 10000) s then search gsl nf n s gc
       else Inr (s, gc))"

definition start_values :: "geometrically_constrained_system \<Rightarrow> real list" where
  "start_values gc =
     map (\<lambda>i. let v = variables gc ! i in gpos (store gc (variable_parent v)) (variable_kind v)) [0..<n_variables gc]
     @ map best_fit (constraints gc)"

text \<open>The residuals of the solver are dealt out to the constraints, in order.\<close>

fun copy_errors :: "real list \<Rightarrow> geometric_constraint list \<Rightarrow> geometric_constraint list" where
  "copy_errors f [] = []"
| "copy_errors f (c # cs) =
     c\<lparr>fit_error := Some (take (length (points c)) f)\<rparr> # copy_errors (drop (length (points c)) f) cs"

definition minimize_geometry_contraint_error ::
  "'s gsl \<Rightarrow> (real \<Rightarrow> real) \<Rightarrow> geometrically_constrained_system \<Rightarrow> geometrically_constrained_system result" where
  "minimize_geometry_contraint_error gsl nf gc =
     (let n = sum_list (map (length \<circ> points) (constraints gc)); p = n_variables gc + length (constraints gc) in
      bind_result (fdfsolver_set gsl n p (evaluate_constraints_fdf nf) (start_values gc) gc) (\<lambda>(s, gc).
      bind_result (search gsl nf 500 s gc) (\<lambda>(s, gc).
        Inr (gc\<lparr>constraints := copy_errors (solver_f gsl s) (constraints gc)\<rparr>))))"

definition geometry_contraint_minimizer ::
  "'s gsl \<Rightarrow> (real \<Rightarrow> real) \<Rightarrow> geometrically_constrained_system \<Rightarrow> geometrically_constrained_system result" where
  "geometry_contraint_minimizer gsl nf gc =
     bind_result (minimize_geometry_contraint_error gsl nf (gc\<lparr>n_variables := 0\<rparr>)) (\<lambda>gc'.
       minimize_geometry_contraint_error gsl nf (gc'\<lparr>n_variables := n_variables gc\<rparr>))"

section \<open>Lemmas\<close>

lemmas transform_defs = affine_transfrom_from_parameters_def affine_transfrom_translate_def affine_transfrom_scale_def
  affine_transfrom_y_rotate_def affine_transfrom_z_rotate_def affine_transfrom_multiply_def translate_at_def scale_at_def
  sp_matrix_set_def sp_matrix_identity_def

lemma parameters_entries:
  fixes nf :: "real \<Rightarrow> real" and X Y dx dy dz alpha theta :: real
  assumes "dz \<noteq> 0"
  defines "t \<equiv> affine_transfrom_from_parameters nf X Y dx dy dz alpha theta"
  shows "t (0, 0) = cos alpha * cos theta / dz" "t (0, 1) = cos alpha * sin theta / dz" "t (0, 2) = - sin alpha / 1024 / dz"
    "t (1, 0) = - sin theta / dz" "t (1, 1) = cos theta / dz" "t (1, 2) = 0"
    "t (2, 0) = (dx - X / 2) * t (0, 0) + (dy - Y / 2) * t (1, 0)"
    "t (2, 1) = (dx - X / 2) * t (0, 1) + (dy - Y / 2) * t (1, 1)"
    "t (2, 2) = 1 + (dx - X / 2) * t (0, 2)"
  using assms(1) unfolding t_def by (simp_all add: transform_defs Let_def field_simps)

section \<open>Properties\<close>

text \<open>
  Where a point of an image goes: it is moved by the displacement and
  the centre of the image, rotated by \<open>theta\<close> and scaled by \<open>1/dz\<close>, with the perspective
  of \<open>alpha\<close>.  The displacement comes before the rotation and the scaling.
\<close>

lemma transform_of_point:
  fixes X Y dx dy dz alpha theta fx fy :: real
  defines "u \<equiv> fx - X / 2 + dx" and "v \<equiv> fy - Y / 2 + dy"
  defines "w \<equiv> 1 - u * sin alpha / (1024 * dz)"
  assumes "dz \<noteq> 0" and "w \<noteq> 0"
  shows "apply_affine_transform nf (affine_transfrom_from_parameters nf X Y dx dy dz alpha theta) [fx, fy]
    = Some [(u * cos alpha * cos theta - v * sin theta) / dz / w, (u * cos alpha * sin theta + v * cos theta) / dz / w]"
proof -
  let ?t = "affine_transfrom_from_parameters nf X Y dx dy dz alpha theta"
  have "?t (0, 2) * fx + ?t (1, 2) * fy + ?t (2, 2) = w"
    using assms(4) by (simp add: parameters_entries w_def u_def field_simps del: One_nat_def)
  moreover have "?t (0, 0) * fx + ?t (1, 0) * fy + ?t (2, 0) = (u * cos alpha * cos theta - v * sin theta) / dz"
    using assms(4) by (simp add: parameters_entries u_def v_def field_simps del: One_nat_def)
  moreover have "?t (0, 1) * fx + ?t (1, 1) * fy + ?t (2, 1) = (u * cos alpha * sin theta + v * cos theta) / dz"
    using assms(4) by (simp add: parameters_entries u_def v_def field_simps del: One_nat_def)
  ultimately show ?thesis using assms(5) by (simp add: apply_affine_transform_def Let_def del: One_nat_def)
qed

lemma transform_of_point_witness:
  "apply_affine_transform id (affine_transfrom_from_parameters id 4 4 1 0 2 0 pi) [2, 2] = Some [- 1 / 2, 0]"
  by (subst transform_of_point) simp_all

definition is_inverse :: "matrix \<Rightarrow> matrix \<Rightarrow> bool" where
  "is_inverse t A \<longleftrightarrow> (\<forall>i\<in>{0, 1, 2}. \<forall>j\<in>{0, 1, 2}.
     t (i, 0) * A (0, j) + t (i, 1) * A (1, j) + t (i, 2) * A (2, j) = (if i = j then 1 else 0))"

lemma inverse_at:
  "apply_affine_transform_inverse nf invert t [a, b] =
     Some [fp_div nf (invert t (0, 0) * a + invert t (1, 0) * b + invert t (2, 0))
                     (invert t (0, 2) * a + invert t (1, 2) * b + invert t (2, 2)),
           fp_div nf (invert t (0, 1) * a + invert t (1, 1) * b + invert t (2, 1))
                     (invert t (0, 2) * a + invert t (1, 2) * b + invert t (2, 2))]"
  by (simp add: apply_affine_transform_inverse_def Let_def)

text \<open>
  Property C25 (roundtrip): the inverse transform takes a transformed point back, for an inverse
  matrix, when the point is not mapped to infinity.
\<close>

theorem transform_inverse:
  assumes "is_inverse t (invert t)" and "t (0, 2) * x + t (1, 2) * y + t (2, 2) \<noteq> 0"
  shows "Option.bind (apply_affine_transform nf t [x, y]) (apply_affine_transform_inverse nf invert t) = Some [x, y]"
proof -
  let ?A = "invert t"
  let ?w = "t (0, 2) * x + t (1, 2) * y + t (2, 2)"
  have over: "p * (a / w) + q * (b / w) + r = (p * a + q * b + r * w) / w" if "w \<noteq> 0" for p q r a b w :: real
    using that by (simp add: field_simps)
  have taken: "?A (0, j) * ((t (0, 0) * x + t (1, 0) * y + t (2, 0)) / ?w)
      + ?A (1, j) * ((t (0, 1) * x + t (1, 1) * y + t (2, 1)) / ?w) + ?A (2, j)
    = ((t (0, 0) * ?A (0, j) + t (0, 1) * ?A (1, j) + t (0, 2) * ?A (2, j)) * x
      + (t (1, 0) * ?A (0, j) + t (1, 1) * ?A (1, j) + t (1, 2) * ?A (2, j)) * y
      + (t (2, 0) * ?A (0, j) + t (2, 1) * ?A (1, j) + t (2, 2) * ?A (2, j))) / ?w" for j
    unfolding over [OF assms(2)] by (rule arg_cong [of _ _ "\<lambda>v. v / ?w"]) (simp only: algebra_simps)
  have entry: "t (i, 0) * ?A (0, j) + t (i, 1) * ?A (1, j) + t (i, 2) * ?A (2, j) = (if i = j then 1 else 0)"
    if "i \<in> {0, 1, 2}" "j \<in> {0, 1, 2}" for i j
    using assms(1) that unfolding is_inverse_def by blast
  let ?a = "(t (0, 0) * x + t (1, 0) * y + t (2, 0)) / ?w" and ?b = "(t (0, 1) * x + t (1, 1) * y + t (2, 1)) / ?w"
  have results: "?A (0, 0) * ?a + ?A (1, 0) * ?b + ?A (2, 0) = x / ?w" "?A (0, 1) * ?a + ?A (1, 1) * ?b + ?A (2, 1) = y / ?w"
    "?A (0, 2) * ?a + ?A (1, 2) * ?b + ?A (2, 2) = 1 / ?w"
    unfolding taken by (simp_all add: entry del: One_nat_def)
  have "apply_affine_transform nf t [x, y] = Some [?a, ?b]"
    using assms(2) by (simp add: apply_affine_transform_def Let_def del: One_nat_def)
  moreover have "apply_affine_transform_inverse nf invert t [?a, ?b] = Some [x / ?w / (1 / ?w), y / ?w / (1 / ?w)]"
    unfolding inverse_at results using assms(2) by (simp add: fp_div_def)
  ultimately show ?thesis using assms(2) by simp
qed

definition example_transform :: matrix where
  "example_transform = affine_transfrom_from_parameters id 4 4 1 0 2 0 0"

definition example_inverse :: matrix where
  "example_inverse = affine_transfrom_from_parameters id (-1) (-2) 0 0 (1 / 2) 0 0"

lemma transform_inverse_witness:
  "Option.bind (apply_affine_transform id example_transform [3, 5])
     (apply_affine_transform_inverse id (\<lambda>_. example_inverse) example_transform) = Some [3, 5]"
  by (rule transform_inverse)
    (simp_all add: is_inverse_def example_transform_def example_inverse_def parameters_entries del: One_nat_def)

text \<open>
  The residual of a point is its distance from the line through the origin, or
  the difference of its distance from the origin and the radius.
\<close>

lemma residual_is_distance:
  assumes "x \<noteq> 0 \<or> y \<noteq> 0"
  shows "point_residual nf RadialLineConstraint theta (Some [x, y]) = Inr \<bar>x * sin theta - y * cos theta\<bar>
    \<and> point_residual nf CircleConstraint r (Some [x, y]) = Inr \<bar>sqrt (x\<^sup>2 + y\<^sup>2) - r\<bar>"
proof -
  let ?c = "cos theta" and ?s = "sin theta" and ?D = "sqrt (x\<^sup>2 + y\<^sup>2)"
  have one: "?c * ?c + ?s * ?s = 1" using sin_cos_squared_add [of theta] by (simp add: power2_eq_square)
  have "?c * ?c * x + ?c * ?s * y - x = - ?s * (x * ?s - y * ?c)" "?c * ?s * x + ?s * ?s * y - y = ?c * (x * ?s - y * ?c)"
    using one by algebra+
  then have "(?c * ?c * x + ?c * ?s * y - x)\<^sup>2 + (?c * ?s * x + ?s * ?s * y - y)\<^sup>2
      = (?s\<^sup>2 + ?c\<^sup>2) * (x * ?s - y * ?c)\<^sup>2"
    by (simp only: power_mult_distrib power2_minus distrib_right)
  then have line: "sqrt ((?c * ?c * x + ?c * ?s * y - x)\<^sup>2 + (?c * ?s * x + ?s * ?s * y - y)\<^sup>2) = \<bar>x * ?s - y * ?c\<bar>"
    by simp
  have D: "0 < ?D" using assms by (auto simp: sum_power2_gt_zero_iff)
  have "a * r / d - a = a * ((r - d) / d)" if "0 < d" for a d :: real using that by (simp add: field_simps)
  note this [OF D]
  then have "(x * r / ?D - x)\<^sup>2 + (y * r / ?D - y)\<^sup>2 = (x\<^sup>2 + y\<^sup>2) * ((r - ?D) / ?D)\<^sup>2"
    by (simp only: power_mult_distrib distrib_right)
  then have "sqrt ((x * r / ?D - x)\<^sup>2 + (y * r / ?D - y)\<^sup>2) = ?D * \<bar>(r - ?D) / ?D\<bar>"
    by (simp only: real_sqrt_mult real_sqrt_abs)
  also have "d * \<bar>(r - d) / d\<bar> = \<bar>d - r\<bar>" if "0 < d" for d :: real
    using that by (simp add: abs_divide abs_minus_commute)
  note this [OF D]
  finally have circle: "sqrt ((x * r / ?D - x)\<^sup>2 + (y * r / ?D - y)\<^sup>2) = \<bar>?D - r\<bar>" .
  have fp: "fp_div nf v ?D = v / ?D" for v using D by (intro fp_div_nonzero) (rule less_imp_neq [symmetric])
  show ?thesis
    using line circle one
    by (auto simp: point_residual_def project_point_on_line_through_origin_def project_point_on_centered_circle_def
        distance_of_def power2_eq_square [symmetric] Let_def fp)
qed

lemma residual_is_distance_witness:
  "point_residual id RadialLineConstraint 0 (Some [3, 4]) = Inr 4 \<and> point_residual id CircleConstraint 2 (Some [3, 4]) = Inr 3"
proof -
  have "sqrt ((3::real)\<^sup>2 + 4\<^sup>2) = 5" by (rule real_sqrt_unique) simp_all
  then show ?thesis using residual_is_distance [of 3 4 id 0 2] by simp
qed

section \<open>The derivative\<close>

text \<open>What an evaluation writes does not depend on what an earlier one wrote.\<close>

definition written_by :: "geometry_variable list \<Rightarrow> nat list \<Rightarrow> nat \<Rightarrow> GeometryVariableType \<Rightarrow> bool" where
  "written_by vs is a k \<longleftrightarrow> list_ex (\<lambda>i. variable_parent (vs ! i) = a \<and> variable_kind (vs ! i) = k) is"

lemma fold_apply_keeps:
  "gimage (fold (apply_variable x vs) is s a) = gimage (s a)
   \<and> (\<not> written_by vs is a k \<longrightarrow> gpos (fold (apply_variable x vs) is s a) k = gpos (s a) k)"
  by (induction "is" arbitrary: s)
    (auto simp: written_by_def apply_variable_def set_image_position_def Let_def)

lemma fold_apply_same:
  assumes "\<And>a. gimage (s a) = gimage (s' a)"
    and "\<And>a k. \<not> written_by vs is a k \<Longrightarrow> gpos (s a) k = gpos (s' a) k"
  shows "fold (apply_variable x vs) is s = fold (apply_variable x vs) is s'"
  using assms
proof (induction "is" arbitrary: s s')
  case Nil
  have "s = s'"
  proof
    fix a
    have "gpos (s a) = gpos (s' a)" using Nil by (intro ext) (simp add: written_by_def)
    then show "s a = s' a" using Nil(1) [of a] by (intro positioned_image.equality) simp_all
  qed
  then show ?case by simp
next
  case (Cons i "is")
  have "fold (apply_variable x vs) is (apply_variable x vs i s) = fold (apply_variable x vs) is (apply_variable x vs i s')"
    by (rule Cons.IH)
      (use Cons.prems in \<open>auto simp: apply_variable_def set_image_position_def Let_def written_by_def\<close>)
  then show ?case by simp
qed

lemma apply_parameters_overrides: "apply_parameters x (apply_parameters y gc) = apply_parameters x gc"
proof -
  have "fold (apply_variable x (variables gc)) [0..<n_variables gc]
      (fold (apply_variable y (variables gc)) [0..<n_variables gc] (store gc))
    = fold (apply_variable x (variables gc)) [0..<n_variables gc] (store gc)"
    by (rule fold_apply_same) (simp_all add: fold_apply_keeps)
  moreover have "map (\<lambda>(i, c). c\<lparr>best_fit := x ! (n_variables gc + i)\<rparr>)
      (zip [0..<length (constraints gc)] (map (\<lambda>(i, c). c\<lparr>best_fit := y ! (n_variables gc + i)\<rparr>)
        (zip [0..<length (constraints gc)] (constraints gc))))
    = map (\<lambda>(i, c). c\<lparr>best_fit := x ! (n_variables gc + i)\<rparr>) (zip [0..<length (constraints gc)] (constraints gc))"
    by (rule nth_equalityI) simp_all
  ultimately show ?thesis by (simp add: apply_parameters_def)
qed

lemma evaluate_overrides: "evaluate_constraints nf x (apply_parameters y gc) = evaluate_constraints nf x gc"
  by (simp add: evaluate_constraints_def apply_parameters_overrides)

lemma evaluate_Inr: "evaluate_constraints nf x gc = Inr (f, gc') \<Longrightarrow> gc' = apply_parameters x gc"
  by (auto simp: evaluate_constraints_def Let_def)

text \<open>The parameters with the first ones, up to \<open>i\<close>, moved.\<close>

definition moved :: "real \<Rightarrow> nat \<Rightarrow> real list \<Rightarrow> real list" where
  "moved d i x = map (\<lambda>j. if j \<le> i then x ! j + d else x ! j) [0..<length x]"

definition difference_quotient :: "real list \<Rightarrow> real list \<Rightarrow> real list" where
  "difference_quotient f2 f1 = map2 (\<lambda>b a. 1 / (2 * delta) * (b - a)) f2 f1"

lemma moved_Suc: "i < length x \<Longrightarrow>
  (map (\<lambda>j. if j < i then x ! j + d else x ! j) [0..<length x])[i := x ! i + d] = moved d i x"
  by (rule nth_equalityI) (auto simp: moved_def nth_list_update)

lemma moved_as_next: "moved d i x = map (\<lambda>j. if j < Suc i then x ! j + d else x ! j) [0..<length x]"
  by (simp add: moved_def less_Suc_eq_le)

lemma df_columns_from:
  assumes "df_columns nf [i..<length x] (map (\<lambda>j. if j < i then x ! j + - delta else x ! j) [0..<length x])
      (map (\<lambda>j. if j < i then x ! j + delta else x ! j) [0..<length x]) gc = Inr (J, gc')"
    and "i < length x"
  shows "length J = length x - i
    \<and> (\<forall>k < length x - i. \<exists>f1 f2. evaluate_constraints nf (moved (- delta) (i + k) x) gc = Inr (f1, apply_parameters (moved (- delta) (i + k) x) gc)
         \<and> evaluate_constraints nf (moved delta (i + k) x) gc = Inr (f2, apply_parameters (moved delta (i + k) x) gc)
         \<and> J ! k = difference_quotient f2 f1)
    \<and> gc' = apply_parameters (moved delta (length x - 1) x) gc"
  using assms
proof (induction "length x - i" arbitrary: i gc J)
  case 0
  then show ?case by simp
next
  case (Suc n)
  let ?x1 = "moved (- delta) i x" and ?x2 = "moved delta i x"
  have list: "[i..<length x] = i # [Suc i..<length x]" using Suc.prems(2) by (rule upt_conv_Cons)
  obtain f1 g1 f2 g2 J' where steps: "evaluate_constraints nf ?x1 gc = Inr (f1, g1)"
    "evaluate_constraints nf ?x2 g1 = Inr (f2, g2)"
    "df_columns nf [Suc i..<length x] ?x1 ?x2 g2 = Inr (J', gc')" "J = difference_quotient f2 f1 # J'"
    using Suc.prems moved_Suc [OF Suc.prems(2), of delta] moved_Suc [OF Suc.prems(2), of "- delta"]
    unfolding list by (auto simp: Let_def difference_quotient_def split: prod.splits)
  have g1: "g1 = apply_parameters ?x1 gc" using evaluate_Inr [OF steps(1)] .
  have second: "evaluate_constraints nf ?x2 gc = Inr (f2, g2)" using steps(2) by (simp add: g1 evaluate_overrides)
  have g2: "g2 = apply_parameters ?x2 gc" using evaluate_Inr [OF second] .
  show ?case
  proof (cases "Suc i < length x")
    case True
    have rest: "length J' = length x - Suc i"
      "\<forall>k < length x - Suc i. \<exists>f1 f2. evaluate_constraints nf (moved (- delta) (Suc i + k) x) g2
           = Inr (f1, apply_parameters (moved (- delta) (Suc i + k) x) g2)
         \<and> evaluate_constraints nf (moved delta (Suc i + k) x) g2 = Inr (f2, apply_parameters (moved delta (Suc i + k) x) g2)
         \<and> J' ! k = difference_quotient f2 f1"
      "gc' = apply_parameters (moved delta (length x - 1) x) g2"
      using Suc.hyps(1) [of "Suc i" g2 J'] Suc.hyps(2) steps(3) True by (simp_all add: moved_as_next)
    have column: "\<exists>f1 f2. evaluate_constraints nf (moved (- delta) (i + k) x) gc = Inr (f1, apply_parameters (moved (- delta) (i + k) x) gc)
         \<and> evaluate_constraints nf (moved delta (i + k) x) gc = Inr (f2, apply_parameters (moved delta (i + k) x) gc)
         \<and> J ! k = difference_quotient f2 f1" if "k < length x - i" for k
    proof (cases k)
      case 0
      then show ?thesis using steps(1,4) second g1 g2 by auto
    next
      case (Suc k')
      then show ?thesis using rest(2) that steps(4) by (auto simp: g2 evaluate_overrides apply_parameters_overrides)
    qed
    show ?thesis using rest(1,3) steps(4) column True by (auto simp: g2 apply_parameters_overrides)
  next
    case False
    then have last: "length x = Suc i" using Suc.prems(2) by simp
    then have "J' = []" "gc' = g2" using steps(3) by simp_all
    then show ?thesis using last steps(1,4) second g1 g2 by auto
  qed
qed

text \<open>
  Property C24 (functional): the derivative that the solver is given.  Column \<open>i\<close> is the
  difference quotient with the parameters \<open>0\<close> to \<open>i\<close> moved together, and not parameter
  \<open>i\<close> alone, and the system is left with all of its parameters moved by \<open>delta\<close>.
\<close>

theorem derivative_moves_all_parameters:
  assumes "evaluate_constraints_df nf x gc = Inr (J, gc')" and "x \<noteq> []"
  shows "length J = length x
    \<and> (\<forall>i < length x. \<exists>f1 f2. evaluate_constraints nf (moved (- delta) i x) gc = Inr (f1, apply_parameters (moved (- delta) i x) gc)
         \<and> evaluate_constraints nf (moved delta i x) gc = Inr (f2, apply_parameters (moved delta i x) gc)
         \<and> J ! i = difference_quotient f2 f1)
    \<and> gc' = apply_parameters (map (\<lambda>v. v + delta) x) gc"
proof -
  have start: "map (\<lambda>j. if j < 0 then x ! j + d else x ! j) [0..<length x] = x" for d
    by (simp add: map_nth)
  have all: "moved delta (length x - 1) x = map (\<lambda>v. v + delta) x"
    using assms(2) by (intro nth_equalityI) (auto simp: moved_def)
  show ?thesis
    using df_columns_from [of nf 0 x gc J gc'] assms unfolding evaluate_constraints_df_def start all by simp
qed

definition example_detector :: positioned_image where
  "example_detector = create_positioned_image (sp_image_alloc example_library 4 4 1)"

definition example_system :: geometrically_constrained_system where
  "example_system =
     (let c = geometric_constraint_add_point (create_control_point 0 5 2) (geometric_constraint_init CircleConstraint 1) in
      geometrically_constrained_system_add_constraint c (geometrically_constrained_system_add_constraint c
        (geometrically_constrained_system_alloc (\<lambda>_. example_detector))))"

lemma example_point:
  "control_point_list_to_global id (\<lambda>_. example_detector)
     [create_control_point 0 5 2] = [Some [3, 0]]"
  by (simp add: control_point_list_to_global_def create_control_point_def affine_transfrom_from_positioned_image_def
      example_detector_def create_positioned_image_def transform_of_point example_library_def)

lemma example_evaluated:
  "evaluate_constraints id [a, b] example_system = Inr ([\<bar>3 - a\<bar>, \<bar>3 - b\<bar>], apply_parameters [a, b] example_system)"
  using residual_is_distance [of 3 0 id 0 a] residual_is_distance [of 3 0 id 0 b]
  by (simp add: evaluate_constraints_def Let_def apply_parameters_def example_system_def constraint_residuals_def
      geometrically_constrained_system_add_constraint_def geometrically_constrained_system_alloc_def
      geometric_constraint_add_point_def geometric_constraint_init_def example_point)

text \<open>
  In the example the second constraint has a radius of its own, on which the first residual does
  not depend: the derivative should be 0 and is -1.
\<close>

lemma derivative_moves_all_parameters_witness:
  "\<exists>J gc'. evaluate_constraints_df id [1, 1] example_system = Inr (J, gc') \<and> J ! 1 ! 0 = - 1"
proof -
  have eval: "\<And>g y. evaluate_constraints id [a, b] (apply_parameters y example_system)
      = Inr ([\<bar>3 - a\<bar>, \<bar>3 - b\<bar>], apply_parameters [a, b] example_system)" for a b
    by (simp add: evaluate_overrides example_evaluated)
  obtain J gc' where run: "evaluate_constraints_df id [1, 1] example_system = Inr (J, gc')"
    by (simp add: evaluate_constraints_df_def example_evaluated eval Let_def)
  have "\<exists>f1 f2. evaluate_constraints id (moved (- delta) 1 [1, 1]) example_system
         = Inr (f1, apply_parameters (moved (- delta) 1 [1, 1]) example_system)
       \<and> evaluate_constraints id (moved delta 1 [1, 1]) example_system
         = Inr (f2, apply_parameters (moved delta 1 [1, 1]) example_system)
       \<and> J ! 1 = difference_quotient f2 f1"
    using derivative_moves_all_parameters [OF run] by simp
  then have "J ! 1 ! 0 = - 1"
    by (auto simp: moved_def example_evaluated difference_quotient_def delta_def)
  with run show ?thesis by blast
qed

end
