(* ===== verification/Process_Image.thy ===== *)
theory Process_Image
  imports Image
begin

text \<open>
  The program \<open>process_image\<close> (\<open>src/process_image.c\<close>): from a measured diffraction
  pattern to the image a reconstruction starts from.  Every correction is a loop over the
  pixels; the program applies those its command line asks for, in a fixed order.

  Diagnostic files, the log of the command line and what is printed are left out; a run ends
  in the image that is written.  The unused function \<open>limit_sampling\<close> is not modelled.
\<close>

section \<open>Options\<close>

record process_options =
  saturation :: real
  beamstop :: real
  resolution :: real
  background :: real
  oversampling_factor :: real
  cross_removal :: real
  centrosymetry :: bool
  pad :: bool
  verbose :: bool
  shift_quadrants :: bool
  input_file :: string
  output_file :: string
  dark_file :: string
  mask_file :: string
  noise_file :: string
  filler_image :: string
  user_center_x :: real
  user_center_y :: real
  high_pass_radius :: real
  high_pass_transition_smoothness :: real

definition process_defaults :: process_options where
  "process_defaults = \<lparr>saturation = 0, beamstop = 0, resolution = 0, background = 0, oversampling_factor = 0,
     cross_removal = 0, centrosymetry = False, pad = False, verbose = False, shift_quadrants = False,
     input_file = [], output_file = [], dark_file = [], mask_file = [], noise_file = [], filler_image = [],
     user_center_x = -1, user_center_y = -1, high_pass_radius = 0, high_pass_transition_smoothness = 1\<rparr>"

text \<open>
  \<open>getopt\<close> is a parameter: the letters and arguments it returns, in order.  \<open>strcpy\<close> of
  an argument into a field of 1024 characters writes behind it when the argument is longer, and
  \<open>strstr\<close> gives a null pointer when there is no \<open>x\<close> in the centre.
\<close>

definition file_name :: "string \<Rightarrow> string result" where
  "file_name arg = (if length arg < 1024 then Inr arg else Inl Out_Of_Bounds)"

definition process_option ::
  "(string \<Rightarrow> real) \<Rightarrow> char \<times> string \<Rightarrow> process_options \<Rightarrow> process_options result" where
  "process_option atof arg res =
     (let c = fst arg; optarg = snd arg in
      if c = CHR ''a'' then Inr (res\<lparr>oversampling_factor := atof optarg\<rparr>)
      else if c = CHR ''g'' then Inr (res\<lparr>background := atof optarg\<rparr>)
      else if c = CHR ''s'' then Inr (res\<lparr>saturation := atof optarg\<rparr>)
      else if c = CHR ''b'' then Inr (res\<lparr>beamstop := atof optarg\<rparr>)
      else if c = CHR ''r'' then Inr (res\<lparr>resolution := atof optarg\<rparr>)
      else if c = CHR ''x'' then Inr (res\<lparr>cross_removal := atof optarg\<rparr>)
      else if c = CHR ''i'' then bind_result (file_name optarg) (\<lambda>f. Inr (res\<lparr>input_file := f\<rparr>))
      else if c = CHR ''o'' then bind_result (file_name optarg) (\<lambda>f. Inr (res\<lparr>output_file := f\<rparr>))
      else if c = CHR ''n'' then bind_result (file_name optarg) (\<lambda>f. Inr (res\<lparr>noise_file := f\<rparr>))
      else if c = CHR ''d'' then bind_result (file_name optarg) (\<lambda>f. Inr (res\<lparr>dark_file := f\<rparr>))
      else if c = CHR ''m'' then bind_result (file_name optarg) (\<lambda>f. Inr (res\<lparr>mask_file := f\<rparr>))
      else if c = CHR ''C'' then Inr (res\<lparr>centrosymetry := True\<rparr>)
      else if c = CHR ''c'' then
        (case dropWhile (\<lambda>d. d \<noteq> CHR ''x'') optarg of
           [] \<Rightarrow> Inl Null_Pointer
         | _ # rest \<Rightarrow> Inr (res\<lparr>user_center_x := atof optarg, user_center_y := atof rest\<rparr>))
      else if c = CHR ''p'' then Inr (res\<lparr>pad := True\<rparr>)
      else if c = CHR ''v'' then Inr (res\<lparr>verbose := True\<rparr>)
      else if c = CHR ''f'' then Inr (res\<lparr>high_pass_radius := atof optarg\<rparr>)
      else if c = CHR ''t'' then Inr (res\<lparr>high_pass_transition_smoothness := atof optarg\<rparr>)
      else if c = CHR ''e'' then bind_result (file_name optarg) (\<lambda>f. Inr (res\<lparr>filler_image := f\<rparr>))
      else if c = CHR ''S'' then Inr (res\<lparr>shift_quadrants := True\<rparr>)
      else if c = CHR ''h'' then Inl (Exit 0)
      else Inr res)"

definition scaled_center :: "process_options \<Rightarrow> process_options" where
  "scaled_center res =
     (if oversampling_factor res \<noteq> 0 \<and> user_center_x res \<ge> 0 \<and> user_center_y res \<ge> 0
      then res\<lparr>user_center_x := user_center_x res / oversampling_factor res,
               user_center_y := user_center_y res / oversampling_factor res\<rparr>
      else res)"

definition parse_options :: "(string \<Rightarrow> real) \<Rightarrow> (char \<times> string) list \<Rightarrow> process_options result" where
  "parse_options atof args =
     bind_result (fold_result (process_option atof) args process_defaults) (\<lambda>res. Inr (scaled_center res))"

section \<open>Corrections, pixel by pixel\<close>

text \<open>
  What the program takes from libspimage beyond the fields of \<open>spimage\<close>: reading an image
  (a null pointer when it fails), the distance of a pixel from the centre and from the axes, the
  coordinates of a pixel from the centre and the index of coordinates, the search for the
  centre, a low-pass filter and padding; and the table of speeds of the Fourier transform, as
  the numbers of its lines.
\<close>

record process_lib =
  sp_image_read :: "string \<Rightarrow> image option"
  dist_to_center :: "image \<Rightarrow> nat \<Rightarrow> real"
  dist_to_axis :: "image \<Rightarrow> nat \<Rightarrow> real"
  sp_image_get_coords_from_index :: "image \<Rightarrow> nat \<Rightarrow> real \<times> real \<times> real"
  sp_image_get_index :: "image \<Rightarrow> int \<Rightarrow> int \<Rightarrow> int \<Rightarrow> int"
  sp_find_center :: "image \<Rightarrow> real list"
  sp_image_low_pass :: "image \<Rightarrow> int \<Rightarrow> image"
  zero_pad_image :: "image \<Rightarrow> int \<Rightarrow> int \<Rightarrow> image"
  fft_speed :: "(int \<times> int \<times> int) list option"

abbreviation set_real :: "real \<Rightarrow> complex \<Rightarrow> complex" where
  "set_real r z \<equiv> sp_cinit r (sp_imag z)"

text \<open>A loop over the pixels that reads a second image at the same index.\<close>

definition with_second :: "image \<Rightarrow> (complex \<Rightarrow> complex \<Rightarrow> complex) \<Rightarrow> image \<Rightarrow> image result" where
  "with_second b f img =
     (if sp_image_size b < sp_image_size img then Inl Out_Of_Bounds
      else Inr (on_pixels (sp_image_size img) (\<lambda>i z. f (pixels b ! i) z) img))"

definition subtract_dark :: "image \<Rightarrow> image \<Rightarrow> image result" where
  "subtract_dark dark = with_second dark (\<lambda>d z.
     let z = set_real (sp_real z - sp_cabs d) z in if sp_real z < 0 then sp_cinit 0 0 else z)"

definition remove_noise :: "(real \<Rightarrow> real) \<Rightarrow> image \<Rightarrow> image \<Rightarrow> image result" where
  "remove_noise nf noise = with_second noise (\<lambda>n z.
     if sp_real z - sp_real n < fp_sqrt nf (sp_real z) then set_real 0 z else set_real (sp_real z - sp_real n) z)"

definition mask_overexposure :: "real \<Rightarrow> image \<Rightarrow> image" where
  "mask_overexposure limit img =
     img\<lparr>pixels := for_pixels (sp_image_size img) (\<lambda>_ z. if sp_real z \<ge> limit then sp_cinit 0 0 else z) (pixels img),
         mask_data := for_pixels (sp_image_size img)
           (\<lambda>i m. if sp_real (pixels img ! i) \<ge> limit then 0 else m) (mask_data img)\<rparr>"

definition remove_background :: "real \<Rightarrow> image \<Rightarrow> image" where
  "remove_background b img = on_pixels (sp_image_size img) (\<lambda>_ z.
     let z = set_real (sp_real z - b) z in if sp_real z < 0 then sp_cinit 0 0 else z) img"

definition intensity_to_amplitudes :: "(real \<Rightarrow> real) \<Rightarrow> image \<Rightarrow> image" where
  "intensity_to_amplitudes nf img = on_pixels (sp_image_size img)
     (\<lambda>i z. if mask_data img ! i \<noteq> 0 then set_real (fp_sqrt nf (sp_real z)) z else set_real 0 z) img"

definition filter_factor :: "(real \<Rightarrow> real) \<Rightarrow> real \<Rightarrow> real \<Rightarrow> real \<Rightarrow> real" where
  "filter_factor nf radius smoothness distance = 1 - 1 / (1 + exp (fp_div nf (distance - radius) smoothness))"

definition high_pass_filter :: "(real \<Rightarrow> real) \<Rightarrow> process_lib \<Rightarrow> process_options \<Rightarrow> image \<Rightarrow> image" where
  "high_pass_filter nf lib opt a =
     (let factor = (\<lambda>i. filter_factor nf (high_pass_radius opt) (high_pass_transition_smoothness opt) (dist_to_center lib a i))
      in a\<lparr>pixels := for_pixels (sp_image_size a)
             (\<lambda>i z. sp_cinit (sp_real z * factor i) (sp_imag z * factor i)) (pixels a),
           mask_data := for_pixels (sp_image_size a) (\<lambda>i m. if factor i < 1 / 10000 then 1 else m) (mask_data a)\<rparr>)"

definition apply_mask :: "image \<Rightarrow> image \<Rightarrow> image result" where
  "apply_mask msk img =
     (if sp_image_size msk \<noteq> sp_image_size img then Inl (Exit 1)
      else Inr (img\<lparr>mask_data := for_pixels (sp_image_size msk)
        (\<lambda>i m. if sp_real (pixels msk ! i) = 0 then 0 else m) (mask_data img)\<rparr>))"

definition remove_beamstop :: "process_lib \<Rightarrow> process_options \<Rightarrow> image \<Rightarrow> image" where
  "remove_beamstop lib opt img =
     (let hit = (\<lambda>i. dist_to_center lib img i < beamstop opt \<or> dist_to_axis lib img i < cross_removal opt)
      in img\<lparr>pixels := for_pixels (sp_image_size img) (\<lambda>i z. if hit i then set_real 0 z else z) (pixels img),
             mask_data := for_pixels (sp_image_size img) (\<lambda>i m. if hit i then 0 else m) (mask_data img)\<rparr>)"

text \<open>The pixels that are masked are filled with those of another image, around the same centre.\<close>

definition filler_index :: "process_lib \<Rightarrow> image \<Rightarrow> real \<times> real \<times> real \<Rightarrow> int option" where
  "filler_index lib filler p =
     (let x = fst p + image_center filler ! 0; y = fst (snd p) + image_center filler ! 1;
          z = snd (snd p) + image_center filler ! 2 in
      if 0 \<le> x \<and> x < real (size_x filler) \<and> 0 \<le> y \<and> y < real (size_y filler) \<and> 0 \<le> z \<and> z < real (size_z filler)
      then Some (sp_image_get_index lib filler (c_int_of_real x) (c_int_of_real y) (c_int_of_real z)) else None)"

definition fill_pixel :: "process_lib \<Rightarrow> image \<Rightarrow> nat \<Rightarrow> image \<Rightarrow> image result" where
  "fill_pixel lib filler i a =
     (if mask_data a ! i \<noteq> 0 then Inr a
      else case filler_index lib filler (sp_image_get_coords_from_index lib a i) of
        None \<Rightarrow> Inr a
      | Some j \<Rightarrow> bind_result (array_get (pixels filler) j) (\<lambda>z.
          Inr (a\<lparr>pixels := (pixels a)[i := set_real (sp_cabs z) (pixels a ! i)], mask_data := (mask_data a)[i := 1]\<rparr>)))"

text \<open>The test for a null pointer comes after the first use of the pointer.\<close>

definition fill_image_blanks :: "spimage \<Rightarrow> process_lib \<Rightarrow> string \<Rightarrow> image \<Rightarrow> image result" where
  "fill_image_blanks sp lib file a =
     bind_result (deref (sp_image_read lib file)) (\<lambda>filler.
       let filler = (if shifted filler then sp_image_shift sp filler else filler) in
       fold_result (fill_pixel lib filler) [0..<sp_image_size a] a)"

section \<open>Averaging of centrosymmetric pixels\<close>

text \<open>\<open>int xs = 2*center - x\<close>: the mirrored coordinate, without its fraction.\<close>

definition mirrored :: "real \<Rightarrow> nat \<Rightarrow> int" where
  "mirrored center x = c_int_of_real (2 * center - real x)"

definition mirror_index :: "image \<Rightarrow> nat \<times> nat \<times> nat \<Rightarrow> nat option" where
  "mirror_index img p =
     (let xs = mirrored (image_center img ! 0) (fst p); ys = mirrored (image_center img ! 1) (fst (snd p));
          zs = mirrored (image_center img ! 2) (snd (snd p)) in
      if 0 \<le> xs \<and> xs < int (size_x img) \<and> 0 \<le> ys \<and> ys < int (size_y img) \<and> 0 \<le> zs \<and> zs < int (size_z img)
      then Some (nat zs * size_y img * size_x img + nat ys * size_x img + nat xs) else None)"

definition index_of :: "image \<Rightarrow> nat \<times> nat \<times> nat \<Rightarrow> nat" where
  "index_of img p = snd (snd p) * size_y img * size_x img + fst (snd p) * size_x img + fst p"

definition pair_average :: "image \<Rightarrow> nat \<Rightarrow> nat \<Rightarrow> complex \<times> int" where
  "pair_average img i j =
     (let vals = (if mask_data img ! i \<noteq> 0 then [sp_cabs (pixels img ! i)] else [])
               @ (if mask_data img ! j \<noteq> 0 then [sp_cabs (pixels img ! j)] else [])
      in if vals \<noteq> [] then (sp_cinit (sum_list vals / real (length vals)) 0, 1) else (sp_cinit 0 0, 0))"

definition average_step :: "image \<Rightarrow> nat \<times> nat \<times> nat \<Rightarrow> image \<Rightarrow> image" where
  "average_step img p out =
     (case mirror_index img p of
        None \<Rightarrow> out
      | Some j \<Rightarrow>
          let i = index_of img p; v = pair_average img i j in
          out\<lparr>pixels := (pixels out)[i := fst v, j := fst v], mask_data := (mask_data out)[i := snd v, j := snd v]\<rparr>)"

definition centrosymetry_average :: "image \<Rightarrow> image" where
  "centrosymetry_average img =
     fold (average_step img)
       [(x, y, z). x \<leftarrow> [0..<size_x img], y \<leftarrow> [0..<size_y img], z \<leftarrow> [0..<size_z img]] img"

section \<open>Sizes\<close>

text \<open>
  The first line of the table of sizes that has the size of the image, or a smaller one, decides;
  when there is none the result is a null pointer.
\<close>

fun pad_by_table :: "process_lib \<Rightarrow> image \<Rightarrow> (int \<times> int \<times> int) list \<Rightarrow> image option" where
  "pad_by_table lib a [] = None"
| "pad_by_table lib a ((sz, time, opt_size) # rest) =
     (if sz = int (size_x a) then Some (zero_pad_image lib a opt_size opt_size)
      else if sz < int (size_x a) then Some a
      else pad_by_table lib a rest)"

definition speed_pad_image :: "process_lib \<Rightarrow> image \<Rightarrow> image option" where
  "speed_pad_image lib a = (case fft_speed lib of None \<Rightarrow> Some a | Some table \<Rightarrow> pad_by_table lib a table)"

definition downsample :: "spimage \<Rightarrow> real \<Rightarrow> image \<Rightarrow> image" where
  "downsample sp factor img =
     bilinear_rescale sp img (nat (c_int_of_real (real (size_x img) / factor)))
       (nat (c_int_of_real (real (size_y img) / factor))) 1"

section \<open>Sums and maxima over squares\<close>

definition sum_square :: "image \<Rightarrow> int \<Rightarrow> int \<Rightarrow> int \<Rightarrow> int \<Rightarrow> int \<Rightarrow> int \<Rightarrow> real result" where
  "sum_square a x1 y1 z1 x2 y2 z2 =
     fold_result (\<lambda>(i, j, k) s. bind_result (array_get (pixels a) (k * int (size_y a) * int (size_x a) + j * int (size_x a) + i))
         (\<lambda>z. Inr (s + sp_cabs z)))
       [(i, j, k). i \<leftarrow> [x1..x2], j \<leftarrow> [y1..y2], k \<leftarrow> [z1..z2]] 0"

text \<open>
  The edge of a square: of a column that is neither the first nor the last, the loop reads the
  pixels of the first and the last column in its first row, and ends.
\<close>

definition sum_square_edge :: "image \<Rightarrow> int \<Rightarrow> int \<Rightarrow> int \<Rightarrow> int \<Rightarrow> real result" where
  "sum_square_edge a x1 y1 x2 y2 =
     fold_result (\<lambda>i s.
         if i \<noteq> x1 \<and> i \<noteq> x2
         then (if y1 \<le> y2
               then bind_result (array_get (pixels a) (y1 * int (size_x a) + x1)) (\<lambda>z.
                    bind_result (array_get (pixels a) (y1 * int (size_x a) + x2)) (\<lambda>w. Inr (s + sp_cabs z + sp_cabs w)))
               else Inr s)
         else fold_result (\<lambda>j s. bind_result (array_get (pixels a) (j * int (size_y a) + i)) (\<lambda>z. Inr (s + sp_cabs z)))
                [y1..y2] s)
       [x1..x2] 0"

definition max_square_edge :: "image \<Rightarrow> int \<Rightarrow> int \<Rightarrow> int \<Rightarrow> int \<Rightarrow> real result" where
  "max_square_edge a x1 y1 x2 y2 =
     fold_result (\<lambda>i m.
         if i \<noteq> x1 \<and> i \<noteq> x2
         then (if y1 \<le> y2
               then bind_result (array_get (pixels a) (y1 * int (size_x a) + x1)) (\<lambda>z.
                    if m < sp_real z then Inr (sp_real z)
                    else bind_result (array_get (pixels a) (y1 * int (size_x a) + x2)) (\<lambda>w.
                         if m < sp_real w then Inr (sp_real w) else Inr m))
               else Inr m)
         else fold_result (\<lambda>j m. bind_result (array_get (pixels a) (j * int (size_y a) + i))
                (\<lambda>z. if m < sp_real z then Inr (sp_real z) else Inr m))
                [y1..y2] m)
       [x1..x2] 0"

section \<open>The program\<close>

text \<open>The steps of \<open>main\<close> up to the search for the centre.\<close>

definition read_and_correct :: "spimage \<Rightarrow> process_lib \<Rightarrow> process_options \<Rightarrow> image result" where
  "read_and_correct sp lib opts =
     bind_result (deref (sp_image_read lib (input_file opts))) (\<lambda>img.
     bind_result (if dark_file opts \<noteq> [] then bind_result (deref (sp_image_read lib (dark_file opts))) (\<lambda>d. subtract_dark d img)
                  else Inr img) (\<lambda>img.
     bind_result (if noise_file opts \<noteq> []
                  then bind_result (deref (sp_image_read lib (noise_file opts))) (\<lambda>n. remove_noise (nonfinite sp) n img)
                  else Inr img) (\<lambda>img.
     bind_result (if mask_file opts \<noteq> [] then bind_result (deref (sp_image_read lib (mask_file opts))) (\<lambda>m. apply_mask m img)
                  else Inr img) (\<lambda>img.
       let img = (if saturation opts \<noteq> 0 then mask_overexposure (saturation opts) img else img);
           img = (if oversampling_factor opts \<noteq> 0 then downsample sp (oversampling_factor opts) img else img)
       in Inr (remove_background (background opts) img)))))"

definition set_center :: "process_lib \<Rightarrow> process_options \<Rightarrow> image \<Rightarrow> image" where
  "set_center lib opts img =
     img\<lparr>image_center :=
       (if user_center_x opts > 0 then (image_center img)[0 := user_center_x opts, 1 := user_center_y opts]
        else sp_find_center lib img)\<rparr>"

definition low_pass_step :: "spimage \<Rightarrow> process_lib \<Rightarrow> real \<Rightarrow> image \<Rightarrow> image" where
  "low_pass_step sp lib r out =
     (if r = 0 then out
      else if \<not> shifted out then sp_image_shift sp (sp_image_low_pass lib (sp_image_shift sp out) (c_int_of_real r))
      else sp_image_low_pass lib out (c_int_of_real r))"

text \<open>
  The end of \<open>main\<close>: the image that is written, and the image that the last loop, which sets
  the masked pixels to zero, works on.
\<close>

definition process_image ::
  "spimage \<Rightarrow> process_lib \<Rightarrow> process_options \<Rightarrow> (image \<times> image) result" where
  "process_image sp lib opts =
     (if input_file opts = [] \<or> output_file opts = [] then Inl (Exit 0)
      else bind_result (read_and_correct sp lib opts) (\<lambda>img.
        let img = remove_beamstop lib opts (set_center lib opts img) in
        bind_result (if filler_image opts \<noteq> [] then fill_image_blanks sp lib (filler_image opts) img else Inr img) (\<lambda>img.
        let img = (if centrosymetry opts then centrosymetry_average img else img);
            img = (if shift_quadrants opts then sp_image_shift sp img else img);
            img = low_pass_step sp lib (resolution opts) img;
            img = (if high_pass_radius opts \<noteq> 0 then high_pass_filter (nonfinite sp) lib opts img else img)
        in bind_result (deref (if pad opts then speed_pad_image lib img else Some img)) (\<lambda>out.
             Inr (out, on_pixels (sp_image_size img) (\<lambda>i z. if mask_data img ! i = 0 then set_real 0 z else z) img)))))"

definition process_main ::
  "spimage \<Rightarrow> process_lib \<Rightarrow> (string \<Rightarrow> real) \<Rightarrow> (char \<times> string) list \<Rightarrow> (string \<times> image) result" where
  "process_main sp lib atof args =
     bind_result (parse_options atof args) (\<lambda>opts.
     bind_result (process_image sp lib opts) (\<lambda>(out, _). Inr (output_file opts, out)))"

section \<open>Lemmas on the average\<close>

definition grid :: "image \<Rightarrow> (nat \<times> nat \<times> nat) set" where
  "grid img = {p. fst p < size_x img \<and> fst (snd p) < size_y img \<and> snd (snd p) < size_z img}"

definition half_centred :: "image \<Rightarrow> bool" where
  "half_centred img \<longleftrightarrow> (\<forall>k \<in> {0, 1, 2}. 2 * image_center img ! k \<in> \<int>)"

lemma mirrored_int:
  assumes "2 * c = real_of_int k" shows "mirrored c x = k - int x"
proof -
  have "2 * c - real x = real_of_int (k - int x)" using assms by simp
  then show ?thesis unfolding mirrored_def by (simp only: c_int_of_real_of_int)
qed

lemma mirrored_twice:
  assumes "2 * c \<in> \<int>" and "0 \<le> mirrored c x" shows "mirrored c (nat (mirrored c x)) = int x"
  using assms by (auto simp: Ints_def mirrored_int)

lemma index_of_less:
  assumes "wf_image img" and "p \<in> grid img" shows "index_of img p < length (pixels img)"
proof -
  obtain x y z where p: "p = (x, y, z)" "x < size_x img" "y < size_y img" "z < size_z img"
    using assms(2) by (cases p) (auto simp: grid_def)
  have "index_of img p = (z * size_y img + y) * size_x img + x" by (simp add: p index_of_def algebra_simps)
  also have "\<dots> < (z * size_y img + y + 1) * size_x img" using p by simp
  also have "\<dots> \<le> (size_z img * size_y img) * size_x img"
  proof (rule mult_le_mono1)
    have "z * size_y img + y + 1 \<le> (z + 1) * size_y img" using p by simp
    also have "\<dots> \<le> size_z img * size_y img" using p by (intro mult_le_mono1) simp
    finally show "z * size_y img + y + 1 \<le> size_z img * size_y img" .
  qed
  finally show ?thesis using assms(1) by (simp add: wf_image_def mult.commute mult.left_commute)
qed

lemma index_of_inj:
  assumes "p \<in> grid img" and "q \<in> grid img" and "index_of img p = index_of img q" shows "p = q"
proof -
  obtain x y z x' y' z' where p: "p = (x, y, z)" "x < size_x img" "y < size_y img"
    and q: "q = (x', y', z')" "x' < size_x img" "y' < size_y img"
    using assms(1,2) by (cases p, cases q) (auto simp: grid_def)
  have eq: "(z * size_y img + y) * size_x img + x = (z' * size_y img + y') * size_x img + x'"
    using assms(3) by (simp add: p q index_of_def algebra_simps)
  have "x = x'" using arg_cong [OF eq, of "\<lambda>n. n mod size_x img"] p q by simp
  moreover have rows: "z * size_y img + y = z' * size_y img + y'"
    using arg_cong [OF eq, of "\<lambda>n. n div size_x img"] p q by simp
  have "y = y'" using arg_cong [OF rows, of "\<lambda>n. n mod size_y img"] p q by simp
  moreover have "z = z'" using arg_cong [OF rows, of "\<lambda>n. n div size_y img"] p q by simp
  ultimately show ?thesis using p q by simp
qed

lemma mirror_index_twice:
  assumes "half_centred img" and "p \<in> grid img" and "mirror_index img p = Some j"
  obtains q where "q \<in> grid img" "index_of img q = j" "mirror_index img q = Some (index_of img p)"
proof -
  obtain x y z where p: "p = (x, y, z)" "x < size_x img" "y < size_y img" "z < size_z img"
    using assms(2) by (cases p) (auto simp: grid_def)
  let ?xs = "mirrored (image_center img ! 0) x" and ?ys = "mirrored (image_center img ! 1) y"
    and ?zs = "mirrored (image_center img ! 2) z"
  have range: "0 \<le> ?xs" "?xs < int (size_x img)" "0 \<le> ?ys" "?ys < int (size_y img)" "0 \<le> ?zs" "?zs < int (size_z img)"
    and j: "j = nat ?zs * size_y img * size_x img + nat ?ys * size_x img + nat ?xs"
    using assms(3) by (auto simp: p mirror_index_def Let_def split: if_splits)
  have twice: "mirrored (image_center img ! 0) (nat ?xs) = int x" "mirrored (image_center img ! 1) (nat ?ys) = int y"
    "mirrored (image_center img ! 2) (nat ?zs) = int z"
    using assms(1) range by (simp_all add: half_centred_def mirrored_twice del: One_nat_def)
  show thesis
  proof (rule that [of "(nat ?xs, nat ?ys, nat ?zs)"])
    show "(nat ?xs, nat ?ys, nat ?zs) \<in> grid img" using range by (auto simp: grid_def nat_less_iff)
    show "index_of img (nat ?xs, nat ?ys, nat ?zs) = j" by (simp add: index_of_def j)
    show "mirror_index img (nat ?xs, nat ?ys, nat ?zs) = Some (index_of img p)"
      using p twice by (simp add: mirror_index_def index_of_def Let_def del: One_nat_def)
  qed
qed

lemma pair_average_commute: "pair_average img i j = pair_average img j i"
  by (simp add: pair_average_def add.commute)

definition average_at :: "image \<Rightarrow> image \<Rightarrow> nat \<times> nat \<times> nat \<Rightarrow> bool" where
  "average_at img out p \<longleftrightarrow>
     (case mirror_index img p of None \<Rightarrow> False
      | Some j \<Rightarrow> (pixels out ! index_of img p, mask_data out ! index_of img p) = pair_average img (index_of img p) j)"

definition kept_at :: "image \<Rightarrow> image \<Rightarrow> nat \<times> nat \<times> nat \<Rightarrow> bool" where
  "kept_at img out p \<longleftrightarrow> pixels out ! index_of img p = pixels img ! index_of img p
     \<and> mask_data out ! index_of img p = mask_data img ! index_of img p"

lemma average_step_shape [simp]:
  "length (pixels (average_step img p out)) = length (pixels out)"
  "length (mask_data (average_step img p out)) = length (mask_data out)"
  "size_x (average_step img p out) = size_x out" "size_y (average_step img p out) = size_y out"
  "size_z (average_step img p out) = size_z out"
  by (simp_all add: average_step_def Let_def split: option.splits)

lemma average_step_at:
  assumes "wf_image img" and "half_centred img" and "p \<in> grid img" and "q \<in> grid img"
    and "length (pixels out) = length (pixels img)" and "length (mask_data out) = length (mask_data img)"
  shows "(p = q \<and> mirror_index img q \<noteq> None \<longrightarrow> average_at img (average_step img p out) q)
    \<and> (average_at img out q \<longrightarrow> average_at img (average_step img p out) q)
    \<and> (mirror_index img q = None \<and> kept_at img out q \<longrightarrow> kept_at img (average_step img p out) q)"
proof (cases "mirror_index img p")
  case None
  then show ?thesis by (auto simp: average_step_def)
next
  case (Some j)
  obtain p' where p': "p' \<in> grid img" "index_of img p' = j" "mirror_index img p' = Some (index_of img p)"
    using mirror_index_twice [OF assms(2,3) Some] .
  have lens: "length (pixels out) = length (pixels img)" "length (mask_data out) = length (pixels img)"
    "index_of img p < length (pixels img)" "j < length (pixels img)"
    using assms(1,5,6) index_of_less [OF assms(1,3)] index_of_less [OF assms(1) p'(1)] p'(2) by (simp_all add: wf_image_def)
  show ?thesis
  proof (cases "index_of img q = index_of img p \<or> index_of img q = j")
    case True
    then have "mirror_index img q = (if index_of img q = j then Some (index_of img p) else Some j)"
      using index_of_inj [OF assms(4,3)] index_of_inj [OF assms(4) p'(1)] Some p'(2,3) by auto
    then show ?thesis
      using True Some lens by (auto simp: average_at_def average_step_def Let_def nth_list_update pair_average_commute)
  next
    case False
    then have "p \<noteq> q" by auto
    then show ?thesis using False Some by (auto simp: average_at_def kept_at_def average_step_def Let_def split: option.splits)
  qed
qed

lemma average_fold:
  assumes "wf_image img" and "half_centred img" and "set ps \<subseteq> grid img" and "q \<in> grid img"
    and "length (pixels out) = length (pixels img)" and "length (mask_data out) = length (mask_data img)"
  shows "((q \<in> set ps \<and> mirror_index img q \<noteq> None \<or> average_at img out q) \<longrightarrow> average_at img (fold (average_step img) ps out) q)
    \<and> (mirror_index img q = None \<and> kept_at img out q \<longrightarrow> kept_at img (fold (average_step img) ps out) q)"
  using assms(3,5,6)
proof (induction ps arbitrary: out)
  case Nil
  then show ?case by simp
next
  case (Cons p ps)
  then show ?case using average_step_at [OF assms(1,2) _ assms(4), of p out] by auto
qed

section \<open>Properties\<close>

text \<open>
  Property C19 (functional): with a centre at a pixel or half way between two, every pixel whose mirror
  image lies in the image becomes the average of the valid ones of the two, or masked when
  neither is valid, its mirror image too, and every other pixel is kept.
\<close>

theorem average_is_symmetric:
  assumes "wf_image img" and "half_centred img" and "p \<in> grid img"
  shows "case mirror_index img p of
      None \<Rightarrow> pixels (centrosymetry_average img) ! index_of img p = pixels img ! index_of img p
        \<and> mask_data (centrosymetry_average img) ! index_of img p = mask_data img ! index_of img p
    | Some j \<Rightarrow> (pixels (centrosymetry_average img) ! index_of img p, mask_data (centrosymetry_average img) ! index_of img p)
          = pair_average img (index_of img p) j
        \<and> (pixels (centrosymetry_average img) ! j, mask_data (centrosymetry_average img) ! j)
          = pair_average img (index_of img p) j"
proof -
  let ?ps = "[(x, y, z). x \<leftarrow> [0..<size_x img], y \<leftarrow> [0..<size_y img], z \<leftarrow> [0..<size_z img]]"
  have all: "set ?ps = grid img" by (force simp: grid_def image_iff)
  have at: "(mirror_index img q \<noteq> None \<longrightarrow> average_at img (centrosymetry_average img) q)
      \<and> (mirror_index img q = None \<longrightarrow> kept_at img (centrosymetry_average img) q)" if "q \<in> grid img" for q
    using average_fold [OF assms(1,2) _ that, of ?ps img] that unfolding all centrosymetry_average_def
    by (auto simp: kept_at_def)
  show ?thesis
  proof (cases "mirror_index img p")
    case None
    then show ?thesis using at [OF assms(3)] by (simp add: kept_at_def)
  next
    case (Some j)
    obtain q where q: "q \<in> grid img" "index_of img q = j" "mirror_index img q = Some (index_of img p)"
      using mirror_index_twice [OF assms(2,3) Some] .
    show ?thesis
      using at [OF assms(3)] at [OF q(1)] Some q(2,3) pair_average_commute [of img j] by (simp add: average_at_def)
  qed
qed

definition example_row :: image where
  "example_row = \<lparr>pixels = [1, 2, 5], mask_data = [1, 1, 0], size_x = 3, size_y = 1, size_z = 1, shifted = False,
     image_center = [1 / 2, 0, 0]\<rparr>"

lemma average_is_symmetric_witness:
  "pixels (centrosymetry_average example_row) ! 0 = 3 / 2 \<and> pixels (centrosymetry_average example_row) ! 1 = 3 / 2
   \<and> pixels (centrosymetry_average example_row) ! 2 = 5"
proof -
  have wf: "wf_image example_row" "half_centred example_row" by (simp_all add: wf_image_def half_centred_def example_row_def)
  have mirror: "mirror_index example_row (0, 0, 0) = Some 1" "mirror_index example_row (2, 0, 0) = None"
    by (simp_all add: mirror_index_def mirrored_def example_row_def c_int_of_real_def)
  have here: "index_of example_row (0, 0, 0) = 0" "index_of example_row (2, 0, 0) = 2" "pixels example_row ! 2 = 5"
    "(0, 0, 0) \<in> grid example_row" "(2, 0, 0) \<in> grid example_row"
    by (simp_all add: index_of_def grid_def example_row_def)
  have pair: "pair_average example_row 0 (Suc 0) = (3 / 2, 1)"
    by (simp add: pair_average_def example_row_def complex_eq_iff)
  show ?thesis
    using average_is_symmetric [OF wf here(4)] average_is_symmetric [OF wf here(5)]
    unfolding mirror here(1-3) by (simp add: pair)
qed

section \<open>What is written\<close>

definition masking_only :: "string \<Rightarrow> string \<Rightarrow> string \<Rightarrow> real \<Rightarrow> real \<Rightarrow> process_options" where
  "masking_only inp outp msk cx cy =
     process_defaults\<lparr>input_file := inp, output_file := outp, mask_file := msk, user_center_x := cx, user_center_y := cy\<rparr>"

lemma remove_nothing:
  assumes "\<And>z. z \<in> set (pixels img) \<Longrightarrow> 0 \<le> sp_real z" and "sp_image_size img \<le> length (pixels img)"
  shows "remove_background 0 img = img"
proof -
  have "for_pixels (sp_image_size img) (\<lambda>_ z. let z = set_real (sp_real z - 0) z in if sp_real z < 0 then sp_cinit 0 0 else z)
      (pixels img) = pixels img"
    using assms(1) by (intro for_pixels_id) (force simp: Let_def not_le [symmetric])
  then show ?thesis by (simp add: remove_background_def on_pixels_def)
qed

lemma no_beamstop:
  assumes "beamstop opt = 0" and "cross_removal opt = 0"
    and "\<And>i. 0 \<le> dist_to_center lib img i" and "\<And>i. 0 \<le> dist_to_axis lib img i"
  shows "remove_beamstop lib opt img = img"
proof -
  have no: "(dist_to_center lib img i < beamstop opt \<or> dist_to_axis lib img i < cross_removal opt) = False" for i
    using assms(1,2) assms(3) [of i] assms(4) [of i] by auto
  show ?thesis unfolding remove_beamstop_def no by (simp add: for_pixels_id)
qed

text \<open>
  When a mask is all that is asked for, the program writes the measured
  pixels unchanged, also those the mask excludes: the loop that sets the masked pixels to zero
  works on another image than the one that is written.
\<close>

lemma masked_pixels_are_written:
  assumes "sp_image_read lib inp = Some img" and "sp_image_read lib msk = Some m" and "sp_image_size m = sp_image_size img"
    and "inp \<noteq> []" and "outp \<noteq> []" and "msk \<noteq> []" and "0 < cx"
    and "wf_image img" and "\<And>z. z \<in> set (pixels img) \<Longrightarrow> 0 \<le> sp_real z"
    and "\<And>a i. 0 \<le> dist_to_center lib a i" and "\<And>a i. 0 \<le> dist_to_axis lib a i"
  shows "\<exists>out rest. process_image sp lib (masking_only inp outp msk cx cy) = Inr (out, rest)
    \<and> pixels out = pixels img
    \<and> (\<forall>i < sp_image_size img. sp_real (pixels m ! i) = 0 \<longrightarrow> mask_data out ! i = 0 \<and> sp_real (pixels rest ! i) = 0)"
proof -
  let ?o = "masking_only inp outp msk cx cy"
  define masked where "masked = img\<lparr>mask_data := for_pixels (sp_image_size m)
    (\<lambda>i m'. if sp_real (pixels m ! i) = 0 then 0 else m') (mask_data img)\<rparr>"
  have "read_and_correct sp lib ?o = Inr (remove_background 0 masked)"
    using assms(1-6) by (simp add: read_and_correct_def masking_only_def process_defaults_def apply_mask_def masked_def)
  also have "remove_background 0 masked = masked"
    using assms(8,9) by (intro remove_nothing) (auto simp: masked_def wf_image_def sp_image_size_def)
  finally have read: "read_and_correct sp lib ?o = Inr masked" .
  define centred where "centred = masked\<lparr>image_center := (image_center img)[0 := cx, 1 := cy]\<rparr>"
  have "set_center lib ?o masked = centred"
    using assms(7) by (simp add: set_center_def masking_only_def centred_def masked_def)
  moreover have "remove_beamstop lib ?o centred = centred"
    using assms(10,11) by (intro no_beamstop) (simp_all add: masking_only_def process_defaults_def)
  moreover have "(input_file ?o = [] \<or> output_file ?o = []) = False"
    using assms(4,5) by (simp add: masking_only_def)
  ultimately have "process_image sp lib ?o = Inr (centred,
      on_pixels (sp_image_size centred) (\<lambda>i z. if mask_data centred ! i = 0 then set_real 0 z else z) centred)"
    by (simp add: process_image_def read) (simp add: masking_only_def process_defaults_def low_pass_step_def)
  then show ?thesis
    using assms(3,8) by (auto simp: centred_def masked_def sp_image_size_def wf_image_def loop_simps)
qed

definition example_process_lib :: process_lib where
  "example_process_lib = \<lparr>sp_image_read = (\<lambda>f. Some (if f = ''in'' then example_row else example_row\<lparr>pixels := [1, 0, 1]\<rparr>)),
     dist_to_center = (\<lambda>_ i. real i), dist_to_axis = (\<lambda>_ i. real i), sp_image_get_coords_from_index = (\<lambda>_ i. (real i, 0, 0)),
     sp_image_get_index = (\<lambda>_ x y z. x), sp_find_center = (\<lambda>_. [1, 0, 0]), sp_image_low_pass = (\<lambda>a _. a),
     zero_pad_image = (\<lambda>a _ _. a), fft_speed = None\<rparr>"

lemma masked_pixels_are_written_witness:
  "\<exists>out rest. process_image example_library example_process_lib (masking_only ''in'' ''out'' ''mask'' 1 0) = Inr (out, rest)
    \<and> pixels out ! 1 = 2 \<and> mask_data out ! 1 = 0 \<and> sp_real (pixels rest ! 1) = 0"
proof -
  let ?m = "example_row\<lparr>pixels := [1, 0, 1]\<rparr>"
  have "\<exists>out rest. process_image example_library example_process_lib (masking_only ''in'' ''out'' ''mask'' 1 0) = Inr (out, rest)
      \<and> pixels out = pixels example_row
      \<and> (\<forall>i < sp_image_size example_row. sp_real (pixels ?m ! i) = 0 \<longrightarrow> mask_data out ! i = 0 \<and> sp_real (pixels rest ! i) = 0)"
    by (rule masked_pixels_are_written) (auto simp: example_process_lib_def example_row_def wf_image_def sp_image_size_def)
  then show ?thesis by (force simp: example_row_def sp_image_size_def)
qed

end
