(* ===== verification/Post_Process.thy ===== *)
theory Post_Process
  imports Image
begin

text \<open>
  The program \<open>post_process\<close> (\<open>src/post_process.c\<close>): averages images with or without
  an alignment, turns, subtracts or rescales one.  What is printed is left out; a run ends in the
  image that is written, if any.
\<close>

section \<open>Options\<close>

record post_options =
  cross_correlate :: bool
  post_verbose :: bool
  output_name :: string
  rescale_factor :: real
  average_inputs :: bool
  std_dev :: bool
  rotate_input :: bool
  subtract_file :: string
  input_name :: string

definition post_defaults :: post_options where
  "post_defaults = \<lparr>cross_correlate = False, post_verbose = False, output_name = [], rescale_factor = 0,
     average_inputs = False, std_dev = False, rotate_input = False, subtract_file = [], input_name = []\<rparr>"

text \<open>The arguments are those \<open>getopt\<close> returns, in order; a file name has room for 1023 characters.\<close>

definition post_file_name :: "string \<Rightarrow> string result" where
  "post_file_name arg = (if length arg < 1024 then Inr arg else Inl Out_Of_Bounds)"

definition post_option :: "(string \<Rightarrow> real) \<Rightarrow> char \<times> string \<Rightarrow> post_options \<Rightarrow> post_options result" where
  "post_option atof arg res =
     (let c = fst arg; optarg = snd arg in
      if c = CHR ''a'' then Inr (res\<lparr>average_inputs := True\<rparr>)
      else if c = CHR ''i'' then bind_result (post_file_name optarg) (\<lambda>f. Inr (res\<lparr>input_name := f\<rparr>))
      else if c = CHR ''o'' then bind_result (post_file_name optarg) (\<lambda>f. Inr (res\<lparr>output_name := f\<rparr>))
      else if c = CHR ''u'' then bind_result (post_file_name optarg) (\<lambda>f. Inr (res\<lparr>subtract_file := f\<rparr>))
      else if c = CHR ''c'' then Inr (res\<lparr>rescale_factor := atof optarg\<rparr>)
      else if c = CHR ''s'' then Inr (res\<lparr>std_dev := True\<rparr>)
      else if c = CHR ''x'' then Inr (res\<lparr>cross_correlate := True\<rparr>)
      else if c = CHR ''r'' then Inr (res\<lparr>rotate_input := True\<rparr>)
      else if c = CHR ''v'' then Inr (res\<lparr>post_verbose := True\<rparr>)
      else if c = CHR ''h'' then Inl (Exit 0)
      else Inr res)"

definition post_parse_options :: "(string \<Rightarrow> real) \<Rightarrow> (char \<times> string) list \<Rightarrow> post_options result" where
  "post_parse_options atof args = fold_result (post_option atof) args post_defaults"

section \<open>Lists of files\<close>

text \<open>
  What the program takes from libspimage beyond the fields of \<open>spimage\<close>, and the files it
  reads: the pieces \<open>fgets\<close> returns of a list, and the images.  \<open>uninitialised\<close> is what
  the buffer of \<open>sscanf\<close> holds before the first word is read into it.
\<close>

record post_lib =
  read_lines :: "string \<Rightarrow> string list option"
  read_image :: "string \<Rightarrow> image option"
  correlate_in_size :: "image \<Rightarrow> image \<Rightarrow> (nat \<times> nat \<times> nat) option \<Rightarrow> image"
  max_position :: "image \<Rightarrow> int"
  reflect_xy :: "image \<Rightarrow> image"
  uninitialised :: string

definition is_space :: "char \<Rightarrow> bool" where
  "is_space c \<longleftrightarrow> c \<in> {CHR '' '', CHR 0x09, CHR 0x0A, CHR 0x0B, CHR 0x0C, CHR 0x0D}"

text \<open>\<open>sscanf(buffer, "%s", buffer2)\<close>: without a word in the line the buffer keeps the word before.\<close>

definition scan_word :: "string \<Rightarrow> string \<Rightarrow> string" where
  "scan_word before line =
     (let w = takeWhile (\<lambda>c. \<not> is_space c) (dropWhile is_space line) in if w = [] then before else w)"

fun scan_lines :: "string \<Rightarrow> string list \<Rightarrow> string list" where
  "scan_lines before [] = []"
| "scan_lines before (line # rest) = (let w = scan_word before line in w # scan_lines w rest)"

definition read_filelist :: "post_lib \<Rightarrow> string \<Rightarrow> string list result" where
  "read_filelist lib filename =
     (if filename = [] then Inr []
      else bind_result (deref (read_lines lib filename)) (\<lambda>lines. Inr (scan_lines (uninitialised lib) lines)))"

section \<open>Averages\<close>

text \<open>
  The pixel that stands \<open>offset\<close> before pixel \<open>j\<close>, round the end of the image.  C's
  \<open>%\<close> keeps the sign, and an index outside the image is a fault.
\<close>

definition shifted_pixel :: "image \<Rightarrow> nat \<Rightarrow> int \<Rightarrow> nat \<Rightarrow> complex result" where
  "shifted_pixel a n offset j = bind_result (c_rem (int n + int j - offset) (int n)) (array_get (pixels a))"

definition add_shifted :: "image \<Rightarrow> int \<Rightarrow> image \<Rightarrow> image result" where
  "add_shifted a offset res =
     fold_result (\<lambda>j res.
         bind_result (array_get (pixels res) (int j)) (\<lambda>z.
         bind_result (shifted_pixel a (sp_image_size a) offset j) (\<lambda>w.
           Inr (res\<lparr>pixels := (pixels res)[j := z + w]\<rparr>))))
       [0..<sp_image_size a] res"

definition average_next ::
  "post_lib \<Rightarrow> bool \<Rightarrow> nat \<times> nat \<times> nat \<Rightarrow> string \<Rightarrow> image \<Rightarrow> image result" where
  "average_next lib cross dims file res =
     bind_result (deref (read_image lib file)) (\<lambda>a.
       add_shifted a (if cross then max_position lib (correlate_in_size lib res a (Some dims)) else 0) res)"

definition calculate_average :: "post_lib \<Rightarrow> string list \<Rightarrow> bool \<Rightarrow> image option result" where
  "calculate_average lib img_list cross =
     (case img_list of
        [] \<Rightarrow> Inr None
      | file # rest \<Rightarrow>
          bind_result (deref (read_image lib file)) (\<lambda>a.
          bind_result (fold_result (average_next lib cross (size_x a, size_y a, size_z a)) rest a) (\<lambda>res.
            Inr (Some (on_pixels (sp_image_size res) (\<lambda>_ z. sp_cscale z (1 / real (length img_list))) res)))))"

section \<open>The program\<close>

text \<open>
  The translation of the image that is subtracted: the cross correlation is computed, but the
  positions of the two maxima are what is used.
\<close>

definition subtract_shift :: "post_lib \<Rightarrow> post_options \<Rightarrow> image \<Rightarrow> image \<Rightarrow> int" where
  "subtract_shift lib opts a b = (if cross_correlate opts then max_position lib a - max_position lib b else 0)"

definition subtract_image :: "image \<Rightarrow> int \<Rightarrow> image \<Rightarrow> image result" where
  "subtract_image b offset a =
     fold_result (\<lambda>i a.
         bind_result (shifted_pixel b (sp_image_size a) offset i) (\<lambda>w.
           Inr (a\<lparr>pixels := (pixels a)[i := pixels a ! i - w]\<rparr>)))
       [0..<sp_image_size a] a"

definition scaled_size :: "nat \<Rightarrow> real \<Rightarrow> nat" where
  "scaled_size n r = nat (c_int_of_real (real n * r))"

text \<open>The image that is written with its name, if one is: without options the program does nothing.\<close>

definition post_process :: "spimage \<Rightarrow> post_lib \<Rightarrow> post_options \<Rightarrow> (string \<times> image) option result" where
  "post_process sp lib opts =
     (let written = (\<lambda>img. Inr (Some (output_name opts, img))) in
      if average_inputs opts then
        bind_result (read_filelist lib (input_name opts)) (\<lambda>files.
        bind_result (calculate_average lib files (cross_correlate opts)) (\<lambda>res.
        bind_result (deref res) written))
      else if rotate_input opts then
        bind_result (deref (read_image lib (input_name opts))) (\<lambda>a. written (reflect_xy lib a))
      else if subtract_file opts \<noteq> [] then
        bind_result (deref (read_image lib (input_name opts))) (\<lambda>a.
        bind_result (deref (read_image lib (subtract_file opts))) (\<lambda>b.
        bind_result (subtract_image b (subtract_shift lib opts a b) a) written))
      else if rescale_factor opts \<noteq> 0 then
        bind_result (deref (read_image lib (input_name opts))) (\<lambda>a.
          let r = rescale_factor opts in
          written (bilinear_rescale sp a (scaled_size (size_x a) r) (scaled_size (size_y a) r) (scaled_size (size_z a) r)))
      else Inr None)"

definition post_main ::
  "spimage \<Rightarrow> post_lib \<Rightarrow> (string \<Rightarrow> real) \<Rightarrow> (char \<times> string) list \<Rightarrow> (string \<times> image) option result" where
  "post_main sp lib atof args = bind_result (post_parse_options atof args) (post_process sp lib)"

section \<open>Lemmas\<close>

lemma add_shifted_prefix:
  assumes "n \<le> sp_image_size a" and "sp_image_size a \<le> length (pixels res)" and "sp_image_size a = m"
    and "0 \<le> offset" and "offset \<le> int m"
  shows "fold_result (\<lambda>j res.
         bind_result (array_get (pixels res) (int j)) (\<lambda>z.
         bind_result (shifted_pixel a (sp_image_size a) offset j) (\<lambda>w.
           Inr (res\<lparr>pixels := (pixels res)[j := z + w]\<rparr>)))) [0..<n] res
    = Inr (res\<lparr>pixels := for_pixels n (\<lambda>j z. z + pixels a ! nat ((int m + int j - offset) mod int m)) (pixels res)\<rparr>)"
  using assms(1)
proof (induction n)
  case 0
  then show ?case by simp
next
  case (Suc n)
  have pos: "0 < int m" "0 \<le> int m + int n - offset" using Suc.prems assms(3-5) by auto
  have "shifted_pixel a (sp_image_size a) offset n = Inr (pixels a ! nat ((int m + int n - offset) mod int m))"
    using pos assms(3) by (simp add: shifted_pixel_def array_get_def sp_image_size_def)
  then show ?case
    using Suc assms(2) by (simp add: fold_result_append for_pixels_Suc Let_def)
qed

lemma add_shifted_pixels:
  assumes "sp_image_size a \<le> length (pixels res)" and "0 \<le> offset" and "offset \<le> int (sp_image_size a)"
  shows "add_shifted a offset res = Inr (res\<lparr>pixels :=
    for_pixels (sp_image_size a) (\<lambda>j z. z + pixels a ! nat ((int (sp_image_size a) + int j - offset) mod int (sp_image_size a)))
      (pixels res)\<rparr>)"
  unfolding add_shifted_def using assms by (intro add_shifted_prefix) auto

lemma add_unshifted:
  assumes "sp_image_size a = length (pixels res)"
  shows "add_shifted a 0 res = Inr (res\<lparr>pixels := map2 (+) (pixels res) (pixels a)\<rparr>)"
proof -
  have "for_pixels (sp_image_size a) (\<lambda>j z. z + pixels a ! nat ((int (sp_image_size a) + int j) mod int (sp_image_size a)))
      (pixels res) = map2 (+) (pixels res) (pixels a)"
    using assms by (intro nth_equalityI) (auto simp: loop_simps sp_image_size_def)
  then show ?thesis using assms by (subst add_shifted_pixels) simp_all
qed

lemma average_all:
  assumes "\<forall>f \<in> set files. read_image lib f = Some (img f) \<and> sp_image_size (img f) = length (pixels res)"
  shows "\<exists>out. fold_result (average_next lib False dims) files res = Inr out \<and> mask_data out = mask_data res
    \<and> length (pixels out) = length (pixels res)
    \<and> (\<forall>j < length (pixels res). pixels out ! j = pixels res ! j + (\<Sum>f\<leftarrow>files. pixels (img f) ! j))"
  using assms
proof (induction files arbitrary: res)
  case Nil
  then show ?case by simp
next
  case (Cons f files)
  let ?res = "res\<lparr>pixels := map2 (+) (pixels res) (pixels (img f))\<rparr>"
  have len: "length (pixels ?res) = length (pixels res)" and f: "length (pixels (img f)) = length (pixels res)"
    using Cons.prems by (simp_all add: sp_image_size_def)
  have "average_next lib False dims f res = Inr ?res"
    using Cons.prems by (simp add: average_next_def add_unshifted)
  moreover obtain out where "fold_result (average_next lib False dims) files ?res = Inr out" "mask_data out = mask_data res"
    "length (pixels out) = length (pixels res)"
    "\<forall>j < length (pixels res). pixels out ! j = pixels ?res ! j + (\<Sum>f\<leftarrow>files. pixels (img f) ! j)"
    using Cons.IH [of ?res] Cons.prems unfolding len by auto
  ultimately show ?case using f by (simp add: add.assoc)
qed

section \<open>Properties\<close>

text \<open>
  Property C20 (functional): without an alignment the average of files that hold images with the same
  number of pixels is, pixel by pixel, their sum divided by their number; its mask is that of
  the first image, so that pixels another image masks count all the same.
\<close>

theorem average_of_images:
  assumes "files \<noteq> []" and "\<forall>f \<in> set files. read_image lib f = Some (img f) \<and> sp_image_size (img f) = n"
  shows "\<exists>out. calculate_average lib files False = Inr (Some out) \<and> mask_data out = mask_data (img (hd files))
    \<and> (\<forall>j < n. pixels out ! j = sp_cscale (\<Sum>f\<leftarrow>files. pixels (img f) ! j) (1 / real (length files)))"
proof -
  obtain f rest where files: "files = f # rest" using assms(1) by (cases files) auto
  have n: "length (pixels (img f)) = n" using assms(2) files by (simp add: sp_image_size_def)
  obtain out where out: "fold_result (average_next lib False (size_x (img f), size_y (img f), size_z (img f))) rest (img f) = Inr out"
    "mask_data out = mask_data (img f)" "length (pixels out) = n"
    "\<forall>j < n. pixels out ! j = pixels (img f) ! j + (\<Sum>f\<leftarrow>rest. pixels (img f) ! j)"
    using average_all [of rest lib img "img f" "(size_x (img f), size_y (img f), size_z (img f))"] assms(2) files n by auto
  have "calculate_average lib files False
      = Inr (Some (on_pixels (sp_image_size out) (\<lambda>_ z. sp_cscale z (1 / real (length files))) out))"
    using assms(2) out(1) by (simp add: calculate_average_def files)
  then show ?thesis using out files by (simp add: loop_simps sp_image_size_def)
qed

definition two_files :: post_lib where
  "two_files = \<lparr>read_lines = (\<lambda>_. None),
     read_image = (\<lambda>f. Some \<lparr>pixels = [if f = ''a'' then 1 else 3], mask_data = [if f = ''a'' then 1 else 0], size_x = 1,
       size_y = 1, size_z = 1, shifted = False, image_center = [0, 0, 0]\<rparr>),
     correlate_in_size = (\<lambda>a b _. a), max_position = (\<lambda>_. 0), reflect_xy = (\<lambda>a. a), uninitialised = []\<rparr>"

lemma average_of_images_witness:
  "\<exists>out. calculate_average two_files [''a'', ''b''] False = Inr (Some out) \<and> mask_data out = [1] \<and> pixels out ! 0 = 2"
proof -
  let ?img = "\<lambda>f. the (read_image two_files f)"
  have "\<exists>out. calculate_average two_files [''a'', ''b''] False = Inr (Some out) \<and> mask_data out = mask_data (?img (hd [''a'', ''b'']))
    \<and> (\<forall>j < 1. pixels out ! j = sp_cscale (\<Sum>f\<leftarrow>[''a'', ''b'']. pixels (?img f) ! j) (1 / real (length [''a'', ''b''])))"
    by (rule average_of_images) (simp_all add: two_files_def sp_image_size_def)
  then show ?thesis by (auto simp: two_files_def scaleR_conv_of_real)
qed

end
