(* ===== verification/Transfer_Function.thy ===== *)
theory Transfer_Function
  imports Image
begin

text \<open>
  The program \<open>prtf\<close> (\<open>src/utils/prtf.c\<close>): the phase retrieval transfer function of several
  reconstructions of one object, the modulus of the mean of their phases at every pixel of the
  Fourier transform, and its average over shells.  Images that are written beside it, the log of
  the command line and printed numbers are left out; so is the alignment by shifts the source
  keeps but does not call, except as functions of their own.
\<close>

section \<open>Phase errors\<close>

text \<open>
  What the program takes from libspimage beyond the fields of \<open>spimage\<close>: the phase of a number,
  reading an image (a null pointer when it fails), the global phase, convolution and reflection,
  the greatest value of an image with its position, and the distance of a pixel from the corner.
\<close>

record transfer_lib =
  phase_of :: "complex \<Rightarrow> real"
  read_reconstruction :: "string \<Rightarrow> image option"
  sp_image_phase_match :: "image \<Rightarrow> image \<Rightarrow> image"
  sp_image_convolute :: "image \<Rightarrow> image \<Rightarrow> image"
  sp_image_reflect :: "image \<Rightarrow> image"
  sp_image_max :: "image \<Rightarrow> real \<times> int \<times> int \<times> int"
  dist_to_corner :: "image \<Rightarrow> nat \<Rightarrow> real"

function wrap_up :: "real \<Rightarrow> real" where
  "wrap_up e = (if e < - pi then wrap_up (e + 2 * pi) else e)"
  by pat_completeness auto
termination
proof (relation "measure (\<lambda>e. nat \<lceil>- e\<rceil>)")
  fix e :: real
  assume "e < - pi"
  then have "0 < \<lceil>- e\<rceil>" "\<lceil>- (e + 2 * pi)\<rceil> < \<lceil>- e\<rceil>" using pi_ge_two by linarith+
  then show "(e + 2 * pi, e) \<in> measure (\<lambda>e. nat \<lceil>- e\<rceil>)" by simp
qed simp

function wrap_down :: "real \<Rightarrow> real" where
  "wrap_down e = (if e > pi then wrap_down (e - 2 * pi) else e)"
  by pat_completeness auto
termination
proof (relation "measure (\<lambda>e. nat \<lceil>e\<rceil>)")
  fix e :: real
  assume "e > pi"
  then have "0 < \<lceil>e\<rceil>" "\<lceil>e - 2 * pi\<rceil> < \<lceil>e\<rceil>" using pi_ge_two by linarith+
  then show "(e - 2 * pi, e) \<in> measure (\<lambda>e. nat \<lceil>e\<rceil>)" by simp
qed simp

declare wrap_up.simps [simp del] wrap_down.simps [simp del]

definition phase_difference :: "transfer_lib \<Rightarrow> complex \<Rightarrow> complex \<Rightarrow> real" where
  "phase_difference lib z w = wrap_down (wrap_up (phase_of lib z - phase_of lib w))"

definition phase_error :: "(real \<Rightarrow> real) \<Rightarrow> transfer_lib \<Rightarrow> image \<Rightarrow> image \<Rightarrow> real result" where
  "phase_error nf lib a b =
     (if sp_image_size b < sp_image_size a then Inl Out_Of_Bounds
      else Inr (fp_div nf
        (for_acc (sp_image_size a) (\<lambda>i error. error + \<bar>phase_difference lib (pixels a ! i) (pixels b ! i)\<bar>) 0)
        (real (sp_image_size a))))"

section \<open>Translation\<close>

text \<open>
  A translation of the image is a phase ramp of its transform.  The three loops visit the pixels
  in the order they are stored in; an image without pixels has no round, so that the inverses of
  the sizes are finite where they are used.
\<close>

definition frequency :: "nat \<Rightarrow> nat \<Rightarrow> int" where
  "frequency n x = (if x < n div 2 then int x else - (int n - int x))"

definition ramp :: "image \<Rightarrow> real \<Rightarrow> real \<Rightarrow> real \<Rightarrow> nat \<Rightarrow> real" where
  "ramp a t_x t_y t_z i =
     (let x = i mod size_x a; y = i div size_x a mod size_y a; z = i div (size_x a * size_y a) in
      real_of_int (frequency (size_x a) x) * t_x * (1 / real (size_x a)) * (2 * pi)
      + real_of_int (frequency (size_y a) y) * t_y * (1 / real (size_y a)) * (2 * pi)
      + real_of_int (frequency (size_z a) z) * t_z * (1 / real (size_z a)) * (2 * pi))"

definition fourier_translation :: "image \<Rightarrow> real \<Rightarrow> real \<Rightarrow> real \<Rightarrow> image" where
  "fourier_translation a t_x t_y t_z =
     on_pixels (size_x a * size_y a * size_z a)
       (\<lambda>i v. v * sp_cinit (cos (ramp a t_x t_y t_z i)) (- sin (ramp a t_x t_y t_z i))) a"

definition wrapped_position :: "nat \<Rightarrow> int \<Rightarrow> int" where
  "wrapped_position n x = (if x > int (n div 2) then - (int n - x) else x)"

text \<open>The shift, and the turn by 180 degrees, that bring \<open>b\<close> closest to \<open>a\<close> by their correlations.\<close>

definition maximize_overlap :: "spimage \<Rightarrow> transfer_lib \<Rightarrow> image \<Rightarrow> image \<Rightarrow> image" where
  "maximize_overlap sp lib a b =
     (let tmp = sp_image_ifft sp a; tmp2 = sp_image_ifft sp b;
          cc = sp_image_cross_correlate sp tmp tmp2; cc2 = sp_image_convolute lib tmp tmp2;
          t_max = fst (sp_image_max lib cc);
          turned = fst (sp_image_max lib cc2) > t_max;
          peak = snd (sp_image_max lib (if turned then cc2 else cc));
          b = (if turned then
                 let t = sp_image_fft sp (sp_image_reflect lib tmp2) in
                 sp_image_scale sp t (1 / real (sp_image_size t))
               else b);
          x = wrapped_position (size_x cc) (fst peak); y = wrapped_position (size_y cc) (fst (snd peak));
          z = wrapped_position (size_z cc) (snd (snd peak));
          s = (if turned then -1 else 1)
      in if x \<noteq> 0 \<or> y \<noteq> 0 \<or> z \<noteq> 0
         then fourier_translation b (real_of_int (s * x)) (real_of_int (s * y)) (real_of_int (s * z)) else b)"

text \<open>The best of the 27 shifts by at most one pixel.\<close>

definition unit_shifts :: "(real \<times> real \<times> real) list" where
  "unit_shifts = [(x, y, z). x \<leftarrow> [-1, 0, 1], y \<leftarrow> [-1, 0, 1], z \<leftarrow> [-1, 0, 1]]"

definition try_shift ::
  "(real \<Rightarrow> real) \<Rightarrow> transfer_lib \<Rightarrow> image \<Rightarrow> image \<Rightarrow> real \<times> real \<times> real
    \<Rightarrow> real \<times> (real \<times> real \<times> real) \<Rightarrow> (real \<times> (real \<times> real \<times> real)) result" where
  "try_shift nf lib a b t best =
     bind_result (phase_error nf lib a (fourier_translation b (fst t) (fst (snd t)) (snd (snd t)))) (\<lambda>error.
       Inr (if error < fst best then (error, t) else best))"

definition maximize_phase_overlap :: "(real \<Rightarrow> real) \<Rightarrow> transfer_lib \<Rightarrow> image \<Rightarrow> image \<Rightarrow> image result" where
  "maximize_phase_overlap nf lib a b =
     bind_result (phase_error nf lib a b) (\<lambda>error.
     bind_result (fold_result (try_shift nf lib a b) unit_shifts (error, (0, 0, 0))) (\<lambda>best.
       Inr (fourier_translation b (fst (snd best)) (fst (snd (snd best))) (snd (snd (snd best))))))"

definition rescale_image :: "(real \<Rightarrow> real) \<Rightarrow> image \<Rightarrow> image" where
  "rescale_image nf a =
     (let s = for_acc (sp_image_size a) (\<lambda>i s. s + sp_real (pixels a ! i)) 0
      in on_pixels (sp_image_size a) (\<lambda>_ z. sp_cinit (fp_div nf (sp_real z) s) (sp_imag z)) a)"

section \<open>The program\<close>

text \<open>The images \<open>main\<close> accumulates: phases, pixels without a phase (in a mask), mean image, amplitudes.\<close>

record transfer =
  t_sum :: image
  t_zeros :: image
  t_average :: image
  t_amps :: image

definition unit_phases :: "image \<Rightarrow> image" where
  "unit_phases t = on_pixels (sp_image_size t) (\<lambda>_ z. if sp_cabs z > 0 then sp_cscale z (1 / sp_cabs z) else z) t"

definition count_zeros :: "image \<Rightarrow> image \<Rightarrow> image result" where
  "count_zeros t zeros =
     (if list_ex (\<lambda>j. \<not> sp_cabs (pixels t ! j) > 0 \<and> length (mask_data zeros) \<le> j) [0..<sp_image_size t]
      then Inl Out_Of_Bounds
      else Inr (zeros\<lparr>mask_data := for_pixels (sp_image_size t)
        (\<lambda>j m. if sp_cabs (pixels t ! j) > 0 then m else m + 1) (mask_data zeros)\<rparr>))"

definition first_reconstruction :: "spimage \<Rightarrow> image \<Rightarrow> transfer result" where
  "first_reconstruction sp img =
     (let f = sp_image_fft sp img in
      bind_result (count_zeros f (sp_image_alloc sp (size_x img) (size_y img) (size_z img))) (\<lambda>zeros.
        Inr \<lparr>t_sum = unit_phases f, t_zeros = zeros, t_average = img, t_amps = sp_image_dephase sp f\<rparr>))"

text \<open>A file that cannot be read is skipped; it still counts in the division at the end.\<close>

definition add_reconstruction :: "spimage \<Rightarrow> transfer_lib \<Rightarrow> bool \<Rightarrow> string \<Rightarrow> transfer \<Rightarrow> transfer result" where
  "add_reconstruction sp lib no_translation file t =
     (case read_reconstruction lib file of
        None \<Rightarrow> Inr t
      | Some img \<Rightarrow>
          let img = (if no_translation then img
                     else sp_image_phase_match lib (t_average t) (sp_image_superimpose sp (t_average t) img));
              f = sp_image_fft sp img in
          bind_result (count_zeros f (t_zeros t)) (\<lambda>zeros.
            Inr \<lparr>t_sum = sp_image_add sp (t_sum t) (unit_phases f), t_zeros = zeros,
                 t_average = sp_image_add sp (t_average t) img,
                 t_amps = sp_image_add sp (t_amps t) (sp_image_dephase sp f)\<rparr>))"

definition mean_phases :: "spimage \<Rightarrow> nat \<Rightarrow> transfer \<Rightarrow> image" where
  "mean_phases sp argc t =
     sp_image_dephase sp (on_pixels (sp_image_size (t_sum t))
       (\<lambda>i z. if mask_data (t_zeros t) ! i \<noteq> 0 then sp_cinit 0 0 else sp_cscale z (1 / (real argc - 2))) (t_sum t))"

text \<open>
  The letters \<open>getopt\<close> returns decide about the alignment, the last one counting.  With less than
  two further words the program ends.
\<close>

definition no_translation :: "char list \<Rightarrow> bool" where
  "no_translation letters =
     fold (\<lambda>c b. if c = CHR ''T'' then True else if c = CHR ''t'' then False else b) letters False"

definition transfer_images ::
  "spimage \<Rightarrow> transfer_lib \<Rightarrow> nat \<Rightarrow> char list \<Rightarrow> string list \<Rightarrow> (image \<times> transfer) result" where
  "transfer_images sp lib argc letters words =
     (case words of
        output # file # rest \<Rightarrow>
          bind_result (deref (read_reconstruction lib file)) (\<lambda>img.
          bind_result (first_reconstruction sp img) (\<lambda>t.
          bind_result (fold_result (add_reconstruction sp lib (no_translation letters)) rest t) (\<lambda>t.
            Inr (mean_phases sp argc t, t))))
      | _ \<Rightarrow> Inl (Exit 0))"

section \<open>Shells\<close>

definition n_bins :: nat where "n_bins = 100"

definition add_to_bin ::
  "(real \<Rightarrow> real) \<Rightarrow> transfer_lib \<Rightarrow> image \<Rightarrow> real \<Rightarrow> image \<Rightarrow> nat
    \<Rightarrow> real list \<times> int list \<Rightarrow> (real list \<times> int list) result" where
  "add_to_bin nf lib phases max_res prtf i bins =
     (let bin = c_int_of_real (fp_div nf (real (n_bins - 1) * dist_to_corner lib phases i) max_res) in
      bind_result (array_get (fst bins) bin) (\<lambda>v.
      bind_result (array_get (snd bins) bin) (\<lambda>n.
        Inr ((fst bins)[nat bin := v + sp_real (pixels prtf ! i)], (snd bins)[nat bin := n + 1]))))"

definition center_index :: "image \<Rightarrow> nat" where
  "center_index a = (size_z a div 2) * size_y a * size_x a + (size_y a div 2) * size_x a + size_x a div 2"

definition shell_table ::
  "(real \<Rightarrow> real) \<Rightarrow> transfer_lib \<Rightarrow> image \<Rightarrow> image \<Rightarrow> (real \<times> real) list result" where
  "shell_table nf lib phases prtf =
     (let max_res = dist_to_corner lib phases (center_index phases) in
      bind_result (fold_result (add_to_bin nf lib phases max_res prtf) [0..<sp_image_size phases]
          (replicate n_bins 0, replicate n_bins 0)) (\<lambda>bins.
        Inr (map (\<lambda>i. (real i * max_res / real n_bins,
          if snd bins ! i \<noteq> 0 then fst bins ! i / real_of_int (snd bins ! i) else 0)) [0..<n_bins])))"

definition prtf_main ::
  "spimage \<Rightarrow> transfer_lib \<Rightarrow> nat \<Rightarrow> char list \<Rightarrow> string list
    \<Rightarrow> (image \<times> transfer \<times> (real \<times> real) list) result" where
  "prtf_main sp lib argc letters words =
     bind_result (transfer_images sp lib argc letters words) (\<lambda>(prtf, t).
     bind_result (shell_table (nonfinite sp) lib (t_sum t) prtf) (\<lambda>rows.
       Inr (prtf, t, rows)))"

section \<open>Phase errors are angles\<close>

lemma wrap_up_range: "e \<le> pi \<Longrightarrow> - pi \<le> wrap_up e \<and> wrap_up e \<le> pi"
  by (induction e rule: wrap_up.induct) (subst (1 2) wrap_up.simps, simp)

lemma wrap_up_low: "- pi \<le> wrap_up e"
  by (induction e rule: wrap_up.induct) (subst wrap_up.simps, simp)

lemma wrap_down_range: "- pi \<le> e \<Longrightarrow> - pi \<le> wrap_down e \<and> wrap_down e \<le> pi"
  by (induction e rule: wrap_down.induct) (subst (1 2) wrap_down.simps, simp)

lemma phase_difference_bound: "\<bar>phase_difference lib z w\<bar> \<le> pi"
  using wrap_down_range [OF wrap_up_low [of "phase_of lib z - phase_of lib w"]]
  by (simp add: phase_difference_def abs_le_iff)

lemma phase_error_bounds:
  assumes "phase_error nf lib a b = Inr e" and "sp_image_size a \<noteq> 0"
  shows "0 \<le> e \<and> e \<le> pi"
proof -
  let ?n = "sp_image_size a" and ?d = "\<lambda>i. \<bar>phase_difference lib (pixels a ! i) (pixels b ! i)\<bar>"
  have "e = (\<Sum>i<?n. ?d i) / real ?n"
    using assms by (auto simp: phase_error_def loop_simps split: if_splits)
  moreover have "(\<Sum>i<?n. ?d i) \<le> real ?n * pi"
    using sum_bounded_above [of "{..<?n}" ?d pi] phase_difference_bound by simp
  ultimately show ?thesis using assms(2) by (simp add: divide_le_eq sum_nonneg mult.commute)
qed

lemma wrap_small: "\<bar>e\<bar> \<le> pi \<Longrightarrow> wrap_down (wrap_up e) = e"
  by (subst wrap_up.simps, subst wrap_down.simps) auto

section \<open>The best shift\<close>

lemma no_shift: "fourier_translation a 0 0 0 = a"
  by (simp add: fourier_translation_def ramp_def Let_def on_pixels_def for_pixels_id complex_zero_one)

lemma shift_keeps_size [simp]: "sp_image_size (fourier_translation a x y z) = sp_image_size a"
  by (simp add: fourier_translation_def)

lemma phase_error_defined:
  "sp_image_size a \<le> sp_image_size b \<Longrightarrow> \<exists>e. phase_error nf lib a b = Inr e"
  by (simp add: phase_error_def)

lemma unit_shifts_product: "unit_shifts = List.product [-1, 0, 1] (List.product [-1, 0, 1] [-1, 0, 1])"
  by (simp add: unit_shifts_def)

definition shifted_error ::
  "(real \<Rightarrow> real) \<Rightarrow> transfer_lib \<Rightarrow> image \<Rightarrow> image \<Rightarrow> real \<times> real \<times> real \<Rightarrow> real result" where
  "shifted_error nf lib a b t = phase_error nf lib a (fourier_translation b (fst t) (fst (snd t)) (snd (snd t)))"

lemma try_shifts:
  assumes "sp_image_size a \<le> sp_image_size b" and "shifted_error nf lib a b (snd best) = Inr (fst best)"
  shows "\<exists>best'. fold_result (try_shift nf lib a b) ts best = Inr best'
    \<and> shifted_error nf lib a b (snd best') = Inr (fst best') \<and> fst best' \<le> fst best
    \<and> (\<forall>t \<in> set ts. \<forall>e. shifted_error nf lib a b t = Inr e \<longrightarrow> fst best' \<le> e)"
  using assms(2)
proof (induction ts arbitrary: best)
  case Nil
  then show ?case by simp
next
  case (Cons t ts)
  obtain e where e: "shifted_error nf lib a b t = Inr e"
    using phase_error_defined [of a "fourier_translation b (fst t) (fst (snd t)) (snd (snd t))" nf lib] assms(1)
    by (auto simp: shifted_error_def)
  define next_best where "next_best = (if e < fst best then (e, t) else best)"
  have step: "try_shift nf lib a b t best = Inr next_best"
    using e by (simp add: try_shift_def shifted_error_def next_best_def)
  have "shifted_error nf lib a b (snd next_best) = Inr (fst next_best)" and le: "fst next_best \<le> fst best" "fst next_best \<le> e"
    using e Cons.prems by (auto simp: next_best_def)
  then obtain best' where "fold_result (try_shift nf lib a b) ts next_best = Inr best'"
    "shifted_error nf lib a b (snd best') = Inr (fst best')" "fst best' \<le> fst next_best"
    "\<forall>t \<in> set ts. \<forall>e. shifted_error nf lib a b t = Inr e \<longrightarrow> fst best' \<le> e"
    using Cons.IH by blast
  then show ?case using step le e by (auto intro: order.trans)
qed

text \<open>
  Property C35 (functional): \<open>maximize_phase_overlap\<close> returns an image whose phase error is at most
  that of the image it was given, and of each of its 27 shifts by at most one pixel.
\<close>

theorem best_shift_is_found:
  assumes "sp_image_size a \<le> sp_image_size b"
  shows "\<exists>r e. maximize_phase_overlap nf lib a b = Inr r \<and> phase_error nf lib a r = Inr e
    \<and> (\<forall>e0. phase_error nf lib a b = Inr e0 \<longrightarrow> e \<le> e0)
    \<and> (\<forall>x \<in> {-1, 0, 1}. \<forall>y \<in> {-1, 0, 1}. \<forall>z \<in> {-1, 0, 1}. \<forall>e'.
         phase_error nf lib a (fourier_translation b x y z) = Inr e' \<longrightarrow> e \<le> e')"
proof -
  obtain e0 where e0: "phase_error nf lib a b = Inr e0" using phase_error_defined [OF assms] by blast
  then have "shifted_error nf lib a b (snd (e0, (0, 0, 0))) = Inr (fst (e0, (0 :: real, 0 :: real, 0 :: real)))"
    by (simp add: shifted_error_def no_shift)
  from try_shifts [OF assms this, of unit_shifts] obtain best where
    best: "fold_result (try_shift nf lib a b) unit_shifts (e0, (0, 0, 0)) = Inr best"
      "shifted_error nf lib a b (snd best) = Inr (fst best)" "fst best \<le> e0"
      "\<forall>t \<in> set unit_shifts. \<forall>e. shifted_error nf lib a b t = Inr e \<longrightarrow> fst best \<le> e"
    unfolding fst_conv by blast
  have shifts: "(x, y, z) \<in> set unit_shifts" if "x \<in> {-1, 0, 1}" "y \<in> {-1, 0, 1}" "z \<in> {-1, 0, 1}" for x y z
    using that unfolding unit_shifts_product set_product list.set by blast
  let ?r = "fourier_translation b (fst (snd best)) (fst (snd (snd best))) (snd (snd (snd best)))"
  have "maximize_phase_overlap nf lib a b = Inr ?r" using e0 best(1) by (simp add: maximize_phase_overlap_def)
  moreover have "phase_error nf lib a ?r = Inr (fst best)" using best(2) by (simp add: shifted_error_def)
  moreover have "fst best \<le> e'" if "x \<in> {-1, 0, 1}" "y \<in> {-1, 0, 1}" "z \<in> {-1, 0, 1}"
      "phase_error nf lib a (fourier_translation b x y z) = Inr e'" for x y z e'
    using bspec [OF best(4) shifts [OF that(1-3)]] that(4) by (simp add: shifted_error_def)
  ultimately show ?thesis using best(3) e0 by auto
qed

definition one_pixel :: "complex \<Rightarrow> image" where
  "one_pixel z = \<lparr>pixels = [z], mask_data = [1], size_x = 1, size_y = 1, size_z = 1, shifted = False, image_center = []\<rparr>"

definition example_transfer_lib :: transfer_lib where
  "example_transfer_lib = \<lparr>phase_of = sp_imag,
     read_reconstruction = (\<lambda>f. if f = ''missing'' then None else Some \<lparr>pixels = [2, 1], mask_data = [1, 1],
       size_x = 2, size_y = 1, size_z = 1, shifted = False, image_center = []\<rparr>),
     sp_image_phase_match = (\<lambda>a b. b), sp_image_convolute = (\<lambda>a b. a), sp_image_reflect = (\<lambda>a. a),
     sp_image_max = (\<lambda>a. (0, 0, 0, 0)), dist_to_corner = (\<lambda>a i. 1)\<rparr>"

lemma best_shift_is_found_witness:
  "\<exists>r e. maximize_phase_overlap (\<lambda>r. r) example_transfer_lib (one_pixel 1) (one_pixel \<i>) = Inr r
    \<and> phase_error (\<lambda>r. r) example_transfer_lib (one_pixel 1) r = Inr e \<and> e \<le> 1"
proof -
  have "sp_image_size (one_pixel 1) \<le> sp_image_size (one_pixel \<i>)"
    by (simp add: one_pixel_def sp_image_size_def)
  from best_shift_is_found [OF this, of "\<lambda>r. r" example_transfer_lib] obtain r e where
    "maximize_phase_overlap (\<lambda>r. r) example_transfer_lib (one_pixel 1) (one_pixel \<i>) = Inr r"
    "phase_error (\<lambda>r. r) example_transfer_lib (one_pixel 1) r = Inr e"
    "\<forall>e0. phase_error (\<lambda>r. r) example_transfer_lib (one_pixel 1) (one_pixel \<i>) = Inr e0 \<longrightarrow> e \<le> e0"
    by blast
  moreover have "phase_error (\<lambda>r. r) example_transfer_lib (one_pixel 1) (one_pixel \<i>) = Inr 1"
    using pi_ge_two by (simp add: phase_error_def one_pixel_def sp_image_size_def phase_difference_def example_transfer_lib_def
      wrap_small)
  ultimately show ?thesis by auto
qed

section \<open>The transfer function\<close>

lemma unit_phases_nth: "j < length (pixels t) \<Longrightarrow> pixels (unit_phases t) ! j = sgn (pixels t ! j)"
  by (simp add: unit_phases_def loop_simps sp_image_size_def sgn_div_norm divide_inverse_commute)

lemma count_zeros_Inr:
  assumes "length (pixels t) = n" and "length (mask_data zeros) = n"
  shows "count_zeros t zeros = Inr (zeros\<lparr>mask_data := for_pixels n
    (\<lambda>j m. if sp_cabs (pixels t ! j) > 0 then m else m + 1) (mask_data zeros)\<rparr>)"
  using assms by (auto simp: count_zeros_def sp_image_size_def list_ex_iff)

text \<open>A file that holds a reconstruction of \<open>n\<close> pixels, with the transform \<open>F f\<close>.\<close>

definition reconstruction_in :: "spimage \<Rightarrow> transfer_lib \<Rightarrow> nat \<Rightarrow> (string \<Rightarrow> complex list) \<Rightarrow> string \<Rightarrow> bool" where
  "reconstruction_in sp lib n F f \<longleftrightarrow>
     (\<exists>img. read_reconstruction lib f = Some img \<and> length (pixels img) = n
        \<and> mask_data (sp_image_alloc sp (size_x img) (size_y img) (size_z img)) = replicate n 0
        \<and> F f = pixels (sp_image_fft sp img))"

text \<open>What the accumulated images hold after some files; \<open>F f\<close> is the transform of file \<open>f\<close>.\<close>

definition accumulated :: "nat \<Rightarrow> (string \<Rightarrow> complex list) \<Rightarrow> string list \<Rightarrow> transfer \<Rightarrow> bool" where
  "accumulated n F files t \<longleftrightarrow>
     length (pixels (t_sum t)) = n \<and> length (mask_data (t_zeros t)) = n
     \<and> (\<forall>j<n. pixels (t_sum t) ! j = (\<Sum>f\<leftarrow>files. sgn (F f ! j))
          \<and> mask_data (t_zeros t) ! j = int (length (filter (\<lambda>f. F f ! j = 0) files)))"

lemma accumulated_next:
  assumes "add_pointwise sp" and "fft_keeps_size sp n" and "reconstruction_in sp lib n F f"
    and t: "accumulated n F files t"
  shows "\<exists>t'. add_reconstruction sp lib True f t = Inr t' \<and> accumulated n F (files @ [f]) t'"
proof -
  obtain img where img: "read_reconstruction lib f = Some img" "length (pixels img) = n" "F f = pixels (sp_image_fft sp img)"
    using assms(3) by (auto simp: reconstruction_in_def)
  let ?f = "sp_image_fft sp img"
  have n: "length (pixels ?f) = n" using assms(2) img(2) by (simp add: fft_keeps_size_def)
  then have "length (pixels (unit_phases ?f)) = n" by (simp add: unit_phases_def)
  then show ?thesis
    using t assms(1) img(1,3) n
    by (auto simp: add_reconstruction_def Let_def count_zeros_Inr [OF n] accumulated_def add_pointwise_def
      unit_phases_nth loop_simps)
qed

lemma accumulated_all:
  assumes "add_pointwise sp" and "fft_keeps_size sp n" and "accumulated n F before t"
    and "\<forall>f \<in> set files. reconstruction_in sp lib n F f"
  shows "\<exists>t'. fold_result (add_reconstruction sp lib True) files t = Inr t' \<and> accumulated n F (before @ files) t'"
  using assms(3,4)
proof (induction files arbitrary: before t)
  case Nil
  then show ?case by simp
next
  case (Cons f files)
  then have "reconstruction_in sp lib n F f" by simp
  from accumulated_next [OF assms(1,2) this Cons.prems(1)] obtain t' where
    "add_reconstruction sp lib True f t = Inr t'" "accumulated n F (before @ [f]) t'"
    by blast
  then show ?case using Cons.IH [of "before @ [f]" t'] Cons.prems(2) by simp
qed

lemma sum_of_phases_le: "norm (\<Sum>f\<leftarrow>files. sgn (g f :: complex)) \<le> real (length files)"
  by (induction files) (auto simp: norm_sgn intro!: norm_triangle_le)

text \<open>
  Property C34 (functional): without an alignment the transfer function is, at every pixel, zero when
  one of the transforms is zero there, and otherwise the modulus of the sum of the phases divided by
  the number of words on the command line less two.  That is the number of files only when there is
  no option; but the option that turns the alignment off is a word, so that the value is at most
  k/(k+1) for k files that agree in every phase.
\<close>

theorem transfer_of_phases:
  assumes "add_pointwise sp" and "dephase_pointwise sp" and "fft_keeps_size sp n" and "files \<noteq> []"
    and "\<forall>f \<in> set files. reconstruction_in sp lib n F f"
    and "no_translation letters" and "argc = 1 + length letters + length (output # files)"
  shows "\<exists>prtf t. transfer_images sp lib argc letters (output # files) = Inr (prtf, t)
    \<and> (\<forall>j<n. pixels prtf ! j = (if \<exists>f \<in> set files. F f ! j = 0 then 0
        else sp_cinit (sp_cabs (\<Sum>f\<leftarrow>files. sgn (F f ! j)) / real (length letters + length files)) 0)
      \<and> sp_real (pixels prtf ! j) \<le> real (length files) / real (length letters + length files))"
proof -
  obtain f rest where files: "files = f # rest" using assms(4) by (cases files) auto
  then obtain img where img: "read_reconstruction lib f = Some img" "length (pixels img) = n"
    "F f = pixels (sp_image_fft sp img)"
    "mask_data (sp_image_alloc sp (size_x img) (size_y img) (size_z img)) = replicate n 0"
    using assms(5) by (auto simp: reconstruction_in_def)
  let ?f = "sp_image_fft sp img"
  have n: "length (pixels ?f) = n" using assms(3) img(2) by (simp add: fft_keeps_size_def)
  obtain t where first: "first_reconstruction sp img = Inr t" and "accumulated n F [f] t"
    using img(3,4) n
    by (auto simp: first_reconstruction_def Let_def count_zeros_Inr [OF n] accumulated_def unit_phases_nth loop_simps
      unit_phases_def [THEN arg_cong [where f = "\<lambda>a. length (pixels a)"]])
  then obtain t' where fold: "fold_result (add_reconstruction sp lib True) rest t = Inr t'"
    and acc: "accumulated n F files t'"
    using accumulated_all [OF assms(1,3), of F "[f]" t rest lib] assms(5) files by auto
  have all: "transfer_images sp lib argc letters (output # files) = Inr (mean_phases sp argc t', t')"
    using img(1) first fold assms(6) files by (simp add: transfer_images_def)
  let ?k = "real (length letters + length files)"
  have k: "real argc - 2 = ?k" "0 < ?k" using assms(7) files by simp_all
  have "pixels (mean_phases sp argc t') ! j = (if \<exists>f \<in> set files. F f ! j = 0 then 0
      else sp_cinit (sp_cabs (\<Sum>f\<leftarrow>files. sgn (F f ! j)) / ?k) 0)" if "j < n" for j
    using that acc assms(2) k
    by (auto simp: mean_phases_def accumulated_def dephase_pointwise_def loop_simps sp_image_size_def complex_zero_one
      filter_empty_conv)
  moreover have "sp_cabs (\<Sum>f\<leftarrow>files. sgn (F f ! j)) / ?k \<le> real (length files) / ?k" for j
    using sum_of_phases_le [of "\<lambda>f. F f ! j" files] k(2) by (intro divide_right_mono) auto
  ultimately show ?thesis using all k(2) by auto
qed

lemma transfer_of_phases_witness:
  "\<exists>prtf t. transfer_images example_library example_transfer_lib 5 [CHR ''T''] [''out'', ''a'', ''b''] = Inr (prtf, t)
    \<and> pixels prtf ! 0 = sp_cinit (2 / 3) 0"
proof -
  let ?F = "\<lambda>_. [3, 1] :: complex list"
  have "reconstruction_in example_library example_transfer_lib 2 ?F f" if "f \<noteq> ''missing''" for f
    using that by (simp add: reconstruction_in_def example_transfer_lib_def example_library_def numeral_2_eq_2)
  then have "\<forall>f \<in> set [''a'', ''b'']. reconstruction_in example_library example_transfer_lib 2 ?F f" by simp
  moreover have "no_translation [CHR ''T'']" by (simp add: no_translation_def)
  ultimately obtain prtf t where
    "transfer_images example_library example_transfer_lib 5 [CHR ''T''] [''out'', ''a'', ''b''] = Inr (prtf, t)"
    and "\<forall>j<2. pixels prtf ! j = (if \<exists>f \<in> set [''a'', ''b'']. ?F f ! j = 0 then 0
        else sp_cinit (sp_cabs (\<Sum>f\<leftarrow>[''a'', ''b'']. sgn (?F f ! j)) / real (length [CHR ''T''] + length [''a'', ''b''])) 0)"
    using transfer_of_phases [of example_library 2 "[''a'', ''b'']" example_transfer_lib ?F "[CHR ''T'']" 5 "''out''"]
      example_library_laws by auto
  then show ?thesis by (auto simp: sgn_div_norm dest: spec [of _ 0])
qed

end
