(* ===== verification/R_Factors.thy ===== *)
theory R_Factors
  imports Image
begin

text \<open>
  The programs \<open>r_factor\<close> and \<open>rs_r_factor\<close> (\<open>src/utils/r_factor.c\<close>,
  \<open>src/utils/rs_r_factor.c\<close>): how far the amplitudes, or the phases, of a reconstruction are from
  those of a known solution, in total and by shells of the resolution.  Printed text and the images
  \<open>rs_r_factor\<close> writes are left out.
\<close>

section \<open>Averages and shells\<close>

text \<open>
  What the programs take from libspimage beyond the fields of \<open>spimage\<close>: reading an image (a
  null pointer when it fails), the distance of a pixel from the centre, the phase of a number
  and the finer alignment.  \<open>rounded\<close> is the rounding of the type \<open>real\<close> of libspimage, which
  is written out where a truncation depends on it.
\<close>

record factor_lib =
  read_for_factor :: "string \<Rightarrow> image option"
  center_dist :: "image \<Rightarrow> nat \<Rightarrow> real"
  arg_of :: "complex \<Rightarrow> real"
  sp_image_superimpose_fractional :: "image \<Rightarrow> image \<Rightarrow> image"
  rounded :: "real \<Rightarrow> real"

definition image_avg :: "(real \<Rightarrow> real) \<Rightarrow> image \<Rightarrow> real" where
  "image_avg nf a = fp_div nf (for_acc (sp_image_size a) (\<lambda>i res. res + sp_cabs (pixels a ! i)) 0) (real (sp_image_size a))"

definition image_std_dev :: "(real \<Rightarrow> real) \<Rightarrow> image \<Rightarrow> real \<Rightarrow> real" where
  "image_std_dev nf a avg = fp_sqrt nf (fp_div nf
     (for_acc (sp_image_size a) (\<lambda>i res. res + (sp_cabs (pixels a ! i) - avg) * (sp_cabs (pixels a ! i) - avg)) 0)
     (real (sp_image_size a)))"

definition add_at :: "'a::plus list \<Rightarrow> int \<Rightarrow> 'a \<Rightarrow> 'a list result" where
  "add_at xs i v = bind_result (array_get xs i) (\<lambda>x. Inr (xs[nat i := x + v]))"

definition max_dist :: "image \<Rightarrow> real" where
  "max_dist a = sqrt (real (size_x a * size_x a + size_y a * size_y a + size_z a * size_z a)) / 2"

definition shell_of :: "(real \<Rightarrow> real) \<Rightarrow> factor_lib \<Rightarrow> image \<Rightarrow> nat \<Rightarrow> nat \<Rightarrow> int" where
  "shell_of nf lib a nshells i =
     c_int_of_real (min (fp_div nf (center_dist lib a i * real nshells) (max_dist a)) (real nshells - 1))"

definition bin_image_by_r :: "(real \<Rightarrow> real) \<Rightarrow> factor_lib \<Rightarrow> image \<Rightarrow> nat \<Rightarrow> real list result" where
  "bin_image_by_r nf lib a nshells =
     bind_result (fold_result (\<lambda>i bins.
         let bin = shell_of nf lib a nshells i in
         bind_result (add_at (fst bins) bin (sp_cabs (pixels a ! i))) (\<lambda>v.
         bind_result (add_at (snd bins) bin 1) (\<lambda>n. Inr (v, n))))
       [0..<sp_image_size a] (replicate nshells 0, replicate nshells (0 :: int))) (\<lambda>bins.
     Inr (map2 (\<lambda>v n. fp_div nf v (real_of_int n)) (fst bins) (snd bins)))"

section \<open>R factors\<close>

text \<open>Both branches of the source, for images with and without phases, have the same sums.\<close>

definition r_factor_step ::
  "(real \<Rightarrow> real) \<Rightarrow> factor_lib \<Rightarrow> image \<Rightarrow> image \<Rightarrow> nat \<Rightarrow> nat \<Rightarrow> real list \<times> real list
    \<Rightarrow> (real list \<times> real list) result" where
  "r_factor_step nf lib a b nshells i bins =
     (let bin = shell_of nf lib a nshells i in
      bind_result (array_get (pixels b) (int i)) (\<lambda>w.
      bind_result (add_at (fst bins) bin \<bar>sp_cabs (pixels a ! i) - sp_cabs w\<bar>) (\<lambda>dif.
      bind_result (add_at (snd bins) bin \<bar>sp_cabs (pixels a ! i) + sp_cabs w\<bar>) (\<lambda>sm. Inr (dif, sm)))))"

definition res_dep_r_factor ::
  "(real \<Rightarrow> real) \<Rightarrow> factor_lib \<Rightarrow> image \<Rightarrow> image \<Rightarrow> nat \<Rightarrow> real list result" where
  "res_dep_r_factor nf lib a b nshells =
     bind_result (fold_result (r_factor_step nf lib a b nshells) [0..<sp_image_size a]
       (replicate nshells 0, replicate nshells 0)) (\<lambda>bins.
     Inr (map2 (fp_div nf) (fst bins) (snd bins)))"

definition total_r_factor :: "(real \<Rightarrow> real) \<Rightarrow> image \<Rightarrow> image \<Rightarrow> real result" where
  "total_r_factor nf a b =
     (if sp_image_size b < sp_image_size a then Inl Out_Of_Bounds
      else Inr (fp_div nf
        (for_acc (sp_image_size a) (\<lambda>i dif. dif + \<bar>sp_cabs (pixels a ! i) - sp_cabs (pixels b ! i)\<bar>) 0)
        (for_acc (sp_image_size a) (\<lambda>i sm. sm + \<bar>sp_cabs (pixels a ! i) + sp_cabs (pixels b ! i)\<bar>) 0)))"

text \<open>The moduli of \<open>b\<close> are plotted against those of \<open>a\<close>; the fitted line is taken out of \<open>b\<close>.\<close>

definition regression_line :: "(real \<Rightarrow> real) \<Rightarrow> image \<Rightarrow> image \<Rightarrow> real \<times> real" where
  "regression_line nf a b =
     (let a_avg = image_avg nf a; b_avg = image_avg nf b; n = sp_image_size a;
          up = for_acc n (\<lambda>i s. s + (sp_cabs (pixels b ! i) - b_avg) * (sp_cabs (pixels a ! i) - a_avg)) 0;
          down = for_acc n (\<lambda>i s. s + (sp_cabs (pixels a ! i) - a_avg) * (sp_cabs (pixels a ! i) - a_avg)) 0;
          slope = fp_div nf up down
      in (slope, b_avg - slope * a_avg))"

definition linear_regression_scale_img :: "(real \<Rightarrow> real) \<Rightarrow> image \<Rightarrow> image \<Rightarrow> image result" where
  "linear_regression_scale_img nf a b =
     (if sp_image_size b < sp_image_size a then Inl Out_Of_Bounds
      else let (slope, inter) = regression_line nf a b in
        Inr (on_pixels (sp_image_size a)
          (\<lambda>_ z. let mag = sp_cabs z in
             if mag < inter then 0
             else sp_cinit (fp_div nf (sp_real z * fp_div nf (mag - inter) mag) slope)
                           (fp_div nf (sp_imag z * fp_div nf (mag - inter) mag) slope)) b))"

section \<open>The program r\_factor\<close>

record factor_options =
  rs_img :: "image option"
  fs_img :: "image option"
  rs_sol :: "image option"
  fs_sol :: "image option"
  dephase_rs_img :: bool
  factor_output :: string
  factor_max_res :: real

definition factor_defaults :: factor_options where
  "factor_defaults = \<lparr>rs_img = None, fs_img = None, rs_sol = None, fs_sol = None, dephase_rs_img = False,
     factor_output = [], factor_max_res = 0\<rparr>"

text \<open>\<open>strcpy\<close> into a field of 1024 characters; the name of the image file is only stored.\<close>

definition room_for :: "string \<Rightarrow> 'a \<Rightarrow> 'a result" where
  "room_for arg a = (if length arg < 1024 then Inr a else Inl Out_Of_Bounds)"

definition factor_option ::
  "factor_lib \<Rightarrow> (string \<Rightarrow> real) \<Rightarrow> char \<times> string \<Rightarrow> factor_options \<Rightarrow> factor_options result" where
  "factor_option lib atof arg res =
     (let c = fst arg; optarg = snd arg in
      if c = CHR ''d'' then Inr (res\<lparr>dephase_rs_img := True\<rparr>)
      else if c = CHR ''I'' then room_for optarg (res\<lparr>rs_img := read_for_factor lib optarg\<rparr>)
      else if c = CHR ''i'' then room_for optarg (res\<lparr>fs_img := read_for_factor lib optarg\<rparr>)
      else if c = CHR ''S'' then Inr (res\<lparr>rs_sol := read_for_factor lib optarg\<rparr>)
      else if c = CHR ''s'' then Inr (res\<lparr>fs_sol := read_for_factor lib optarg\<rparr>)
      else if c = CHR ''o'' then room_for optarg (res\<lparr>factor_output := optarg\<rparr>)
      else if c = CHR ''r'' then Inr (res\<lparr>factor_max_res := atof optarg\<rparr>)
      else if c = CHR ''h'' then Inl (Exit 0)
      else Inr res)"

definition factor_parse_options ::
  "factor_lib \<Rightarrow> (string \<Rightarrow> real) \<Rightarrow> (char \<times> string) list \<Rightarrow> factor_options result" where
  "factor_parse_options lib atof args = fold_result (factor_option lib atof) args factor_defaults"

text \<open>The rows of a data file: the resolution of the shell, or its number, and the value.\<close>

definition write_array_file :: "real list \<Rightarrow> real list option \<Rightarrow> (real \<times> real) list" where
  "write_array_file y x = zip (case x of Some x \<Rightarrow> x | None \<Rightarrow> map real [0..<length y]) y"

definition shell_resolutions :: "(real \<Rightarrow> real) \<Rightarrow> nat \<Rightarrow> real \<Rightarrow> real list option" where
  "shell_resolutions nf nshells r =
     (if r = 0 then None
      else Some (map (\<lambda>i. fp_div nf 1 ((1 / r) * ((real i + 1 / 2) / real nshells))) [0..<nshells]))"

definition n_shells :: nat where "n_shells = 141"

definition prepared_images :: "spimage \<Rightarrow> factor_options \<Rightarrow> (image \<times> image) result" where
  "prepared_images sp opts =
     bind_result (if dephase_rs_img opts
        then bind_result (deref (rs_img opts)) (\<lambda>a. Inr (Some (sp_image_dephase sp a))) else Inr (rs_img opts)) (\<lambda>rs.
       let rs = (case (rs_sol opts, rs) of (Some s, Some a) \<Rightarrow> Some (sp_image_superimpose sp s a) | _ \<Rightarrow> rs);
           sol = (case rs_sol opts of Some s \<Rightarrow> Some (sp_image_fft sp s) | None \<Rightarrow> fs_sol opts);
           img = (case rs of Some a \<Rightarrow> Some (sp_image_fft sp a) | None \<Rightarrow> fs_img opts)
       in case (img, sol) of
            (Some img, Some sol) \<Rightarrow> if sp_image_size img \<noteq> sp_image_size sol then Inl (Exit 0) else Inr (img, sol)
          | _ \<Rightarrow> Inl (Exit 0))"

text \<open>The total factor, and the files written with their rows.\<close>

definition r_factor_main ::
  "spimage \<Rightarrow> factor_lib \<Rightarrow> (string \<Rightarrow> real) \<Rightarrow> (char \<times> string) list
    \<Rightarrow> (real \<times> (string \<times> (real \<times> real) list) list) result" where
  "r_factor_main sp lib atof args =
     bind_result (factor_parse_options lib atof args) (\<lambda>opts.
     bind_result (prepared_images sp opts) (\<lambda>(img, sol).
       let nf = nonfinite sp; ratio = fp_div nf (image_avg nf sol) (image_avg nf img);
           img = on_pixels (sp_image_size sol) (\<lambda>_ z. sp_cinit (sp_real z * ratio) (sp_imag z * ratio)) img;
           shell_res = shell_resolutions nf n_shells (factor_max_res opts)
       in bind_result (linear_regression_scale_img nf sol img) (\<lambda>img.
          bind_result (res_dep_r_factor nf lib sol img n_shells) (\<lambda>r_factors.
          bind_result (total_r_factor nf sol img) (\<lambda>r.
          bind_result (bin_image_by_r nf lib sol n_shells) (\<lambda>sol_bins.
          bind_result (bin_image_by_r nf lib img n_shells) (\<lambda>img_bins.
            Inr (r, [(if factor_output opts \<noteq> [] then factor_output opts else ''r_factors.data'',
                        write_array_file r_factors shell_res),
                     (''solution_int_dist.data'', write_array_file sol_bins shell_res),
                     (''image_int_dist.data'', write_array_file img_bins shell_res)])))))))) "

section \<open>The program rs\_r\_factor\<close>

definition fp_fmod :: "real \<Rightarrow> real \<Rightarrow> real" where
  "fp_fmod x y = x - real_of_int (c_int_of_real (x / y)) * y"

definition n_error_bins :: nat where "n_error_bins = 50"

text \<open>
  The bin of a pixel: the number of bins times the distance over the greatest distance, in the
  arithmetic of \<open>real\<close>, truncated.
\<close>

definition error_bin :: "(real \<Rightarrow> real) \<Rightarrow> factor_lib \<Rightarrow> real \<Rightarrow> real \<Rightarrow> int" where
  "error_bin nf lib max_d d =
     c_int_of_real (rounded lib (fp_div nf (rounded lib (real n_error_bins * d)) max_d))"

text \<open>The difference of two phases, at most \<open>pi\<close>.\<close>

definition phase_deviation :: "factor_lib \<Rightarrow> complex \<Rightarrow> complex \<Rightarrow> real" where
  "phase_deviation lib z w =
     (let phi = fp_fmod (2 * pi + arg_of lib z - arg_of lib w) (2 * pi) in min \<bar>phi\<bar> \<bar>2 * pi - phi\<bar>)"

definition phase_error_step ::
  "(real \<Rightarrow> real) \<Rightarrow> factor_lib \<Rightarrow> image \<Rightarrow> image \<Rightarrow> real \<Rightarrow> nat \<Rightarrow> int list \<times> real list
    \<Rightarrow> (int list \<times> real list) result" where
  "phase_error_step nf lib a b max_d i bins =
     (let bin = error_bin nf lib max_d (center_dist lib a i) in
      bind_result (add_at (fst bins) bin 1) (\<lambda>n.
      bind_result (array_get (pixels b) (int i)) (\<lambda>w.
      bind_result (add_at (snd bins) bin (phase_deviation lib (pixels a ! i) w)) (\<lambda>error. Inr (n, error)))))"

definition average_phase_error ::
  "spimage \<Rightarrow> factor_lib \<Rightarrow> image \<Rightarrow> image \<Rightarrow> (real \<times> real \<times> int) list result" where
  "average_phase_error sp lib ra rb =
     (let nf = nonfinite sp; a = sp_image_fft sp ra; b = sp_image_fft sp rb;
          max_d = running_max (sp_image_size a) (center_dist lib a) 0
      in bind_result (fold_result (phase_error_step nf lib a b max_d) [0..<sp_image_size a]
           (replicate n_error_bins 0, replicate n_error_bins 0)) (\<lambda>bins.
         Inr (map (\<lambda>i. (max_d * real i / real n_error_bins,
           (if fst bins ! i \<noteq> 0 then snd bins ! i / real_of_int (fst bins ! i) else snd bins ! i), fst bins ! i))
           [0..<n_error_bins])))"

definition rs_option ::
  "factor_lib \<Rightarrow> char \<times> string \<Rightarrow> image option \<times> image option \<Rightarrow> (image option \<times> image option) result" where
  "rs_option lib arg res =
     (let c = fst arg; optarg = snd arg in
      if c = CHR ''i'' then room_for optarg (read_for_factor lib optarg, snd res)
      else if c = CHR ''s'' then Inr (fst res, read_for_factor lib optarg)
      else if c = CHR ''h'' then Inl (Exit 0)
      else Inr res)"

definition rs_r_factor_main ::
  "spimage \<Rightarrow> factor_lib \<Rightarrow> (char \<times> string) list \<Rightarrow> (real \<times> real \<times> int) list result" where
  "rs_r_factor_main sp lib args =
     bind_result (fold_result (rs_option lib) args (None, None)) (\<lambda>opts.
       case opts of
         (Some img, Some sol) \<Rightarrow>
           if sp_image_size img \<noteq> sp_image_size sol then Inl (Exit 0)
           else let sol = (if shifted sol then sp_image_shift sp sol else sol);
                    n = sp_image_size img;
                    ratio = fp_div (nonfinite sp) (for_acc n (\<lambda>i s. s + sp_cabs (pixels sol ! i)) 0)
                      (for_acc n (\<lambda>i s. s + sp_cabs (pixels img ! i)) 0);
                    img = on_pixels n (\<lambda>_ z. sp_cinit (sp_real z * ratio) (sp_imag z * ratio)) img;
                    sol = sp_image_dephase sp sol;
                    img = sp_image_superimpose_fractional lib sol img
                in average_phase_error sp lib sol img
       | _ \<Rightarrow> Inl (Exit 0))"

section \<open>R factors are fractions\<close>

text \<open>The sum of differences over the sum of moduli, over any set of pixels.\<close>

lemma fraction_of_moduli:
  assumes "finite P" and "i \<in> P" and "pixels a ! i \<noteq> 0 \<or> pixels b ! i \<noteq> 0"
  defines "dif \<equiv> \<Sum>i \<in> P. \<bar>sp_cabs (pixels a ! i) - sp_cabs (pixels b ! i)\<bar>"
    and "sm \<equiv> \<Sum>i \<in> P. sp_cabs (pixels a ! i) + sp_cabs (pixels b ! i)"
  shows "sm \<noteq> 0" and "0 \<le> dif / sm" and "dif / sm \<le> 1"
    and "dif / sm = 0 \<longleftrightarrow> (\<forall>i \<in> P. sp_cabs (pixels a ! i) = sp_cabs (pixels b ! i))"
proof -
  have "0 < sp_cabs (pixels a ! i) + sp_cabs (pixels b ! i)"
    using assms(3) by (auto simp: add_pos_nonneg add_nonneg_pos)
  then have pos: "0 < sm" unfolding sm_def using assms(1,2) by (intro sum_pos2 [of _ i]) auto
  moreover have "0 \<le> dif" unfolding dif_def by (simp add: sum_nonneg)
  moreover have "dif \<le> sm" unfolding dif_def sm_def by (intro sum_mono) (simp add: abs_le_iff)
  moreover have "dif = 0 \<longleftrightarrow> (\<forall>i \<in> P. sp_cabs (pixels a ! i) = sp_cabs (pixels b ! i))"
    unfolding dif_def using assms(1) by (subst sum_nonneg_eq_0_iff) auto
  ultimately show "sm \<noteq> 0" and "0 \<le> dif / sm" and "dif / sm \<le> 1"
    and "dif / sm = 0 \<longleftrightarrow> (\<forall>i \<in> P. sp_cabs (pixels a ! i) = sp_cabs (pixels b ! i))"
    by simp_all
qed

lemma total_r_factor_sums:
  assumes "sp_image_size a \<le> sp_image_size b" and "i < sp_image_size a" and "pixels a ! i \<noteq> 0"
  defines "dif \<equiv> \<Sum>i<sp_image_size a. \<bar>sp_cabs (pixels a ! i) - sp_cabs (pixels b ! i)\<bar>"
    and "sm \<equiv> \<Sum>i<sp_image_size a. sp_cabs (pixels a ! i) + sp_cabs (pixels b ! i)"
  shows "total_r_factor nf a b = Inr (dif / sm)" and "0 \<le> dif" and "dif \<le> sm" and "0 < sm"
proof -
  have "0 < sp_cabs (pixels a ! i) + sp_cabs (pixels b ! i)" using assms(3) by (simp add: add_pos_nonneg)
  then show "0 < sm" unfolding sm_def using assms(2) by (intro sum_pos2 [of _ i]) auto
  then show "total_r_factor nf a b = Inr (dif / sm)"
    using assms(1) by (simp add: total_r_factor_def loop_simps dif_def sm_def)
  show "0 \<le> dif" unfolding dif_def by (simp add: sum_nonneg)
  show "dif \<le> sm" unfolding dif_def sm_def by (intro sum_mono) (simp add: abs_le_iff)
qed

lemma add_at_Inr:
  "add_at xs i v = Inr ys \<longleftrightarrow> 0 \<le> i \<and> i < int (length xs) \<and> ys = xs[nat i := xs ! nat i + v]"
  by (auto simp: add_at_def array_get_Inr_iff bind_result_Inr_iff)

text \<open>The shells after some pixels: for each, the sums over its own pixels among them.\<close>

lemma r_factor_shells:
  assumes "fold_result (r_factor_step nf lib a b nshells) is (replicate nshells 0, replicate nshells 0) = Inr bins"
  defines "own \<equiv> \<lambda>k. filter (\<lambda>i. shell_of nf lib a nshells i = int k) is"
  shows "length (fst bins) = nshells \<and> length (snd bins) = nshells
    \<and> (\<forall>k<nshells. fst bins ! k = (\<Sum>i\<leftarrow>own k. \<bar>sp_cabs (pixels a ! i) - sp_cabs (pixels b ! i)\<bar>)
        \<and> snd bins ! k = (\<Sum>i\<leftarrow>own k. sp_cabs (pixels a ! i) + sp_cabs (pixels b ! i)))"
  using assms(1) unfolding own_def
proof (induction "is" arbitrary: bins rule: rev_induct)
  case (snoc i "is")
  then obtain bins0 where rest: "fold_result (r_factor_step nf lib a b nshells) is (replicate nshells 0, replicate nshells 0) = Inr bins0"
    and step: "r_factor_step nf lib a b nshells i bins0 = Inr bins"
    by (auto simp: fold_result_append bind_result_Inr_iff)
  note IH = snoc.IH [OF rest]
  obtain k where k: "k < nshells" "shell_of nf lib a nshells i = int k"
      "fst bins = (fst bins0)[k := fst bins0 ! k + \<bar>sp_cabs (pixels a ! i) - sp_cabs (pixels b ! i)\<bar>]"
      "snd bins = (snd bins0)[k := snd bins0 ! k + \<bar>sp_cabs (pixels a ! i) + sp_cabs (pixels b ! i)\<bar>]"
    using step IH by (auto simp: r_factor_step_def Let_def add_at_Inr array_get_Inr_iff) (metis nat_less_iff int_nat_eq)
  then show ?case using IH by (auto simp: nth_list_update abs_of_nonneg)
qed simp

lemma fold_result_invariant:
  assumes "fold_result f xs s = Inr s'" and "P s" and "\<And>x s s'. f x s = Inr s' \<Longrightarrow> P s \<Longrightarrow> P s'"
  shows "P s'"
  using assms(1,2) by (induction xs arbitrary: s) (auto dest: assms(3))

text \<open>
  Property C36 (bounds): an R factor is a fraction, for a solution that is not zero everywhere and an
  image at least as large.  The total is between 0 and 1 and is 0 exactly when the moduli of
  the two images are the same.  The factor of a shell is the sum of the
  differences over the sum of the moduli, taken over the pixels of the shell alone; in every
  shell that has a pixel with a modulus in one of the images it is between 0 and 1, and 0 exactly when
  the moduli agree in that shell.
\<close>

theorem r_factors_are_fractions:
  assumes "sp_image_size a \<le> sp_image_size b" and "i < sp_image_size a" and "pixels a ! i \<noteq> 0"
    and "res_dep_r_factor nf lib a b nshells = Inr rs"
  defines "shell \<equiv> \<lambda>k. {i. i < sp_image_size a \<and> shell_of nf lib a nshells i = int k}"
  shows "(\<exists>r. total_r_factor nf a b = Inr r \<and> 0 \<le> r \<and> r \<le> 1
      \<and> (r = 0 \<longleftrightarrow> (\<forall>i<sp_image_size a. sp_cabs (pixels a ! i) = sp_cabs (pixels b ! i))))
    \<and> length rs = nshells
    \<and> (\<forall>k<nshells. (\<exists>i \<in> shell k. pixels a ! i \<noteq> 0 \<or> pixels b ! i \<noteq> 0) \<longrightarrow>
        rs ! k = (\<Sum>i \<in> shell k. \<bar>sp_cabs (pixels a ! i) - sp_cabs (pixels b ! i)\<bar>)
          / (\<Sum>i \<in> shell k. sp_cabs (pixels a ! i) + sp_cabs (pixels b ! i))
        \<and> 0 \<le> rs ! k \<and> rs ! k \<le> 1
        \<and> (rs ! k = 0 \<longleftrightarrow> (\<forall>i \<in> shell k. sp_cabs (pixels a ! i) = sp_cabs (pixels b ! i))))"
proof (intro conjI)
  have "total_r_factor nf a b = Inr ((\<Sum>i<sp_image_size a. \<bar>sp_cabs (pixels a ! i) - sp_cabs (pixels b ! i)\<bar>)
      / (\<Sum>i<sp_image_size a. sp_cabs (pixels a ! i) + sp_cabs (pixels b ! i)))"
    by (rule total_r_factor_sums [OF assms(1-3)])
  then show "\<exists>r. total_r_factor nf a b = Inr r \<and> 0 \<le> r \<and> r \<le> 1
      \<and> (r = 0 \<longleftrightarrow> (\<forall>i<sp_image_size a. sp_cabs (pixels a ! i) = sp_cabs (pixels b ! i)))"
    using fraction_of_moduli [of "{..<sp_image_size a}" i a b] assms(2,3) by auto
next
  obtain bins where fold: "fold_result (r_factor_step nf lib a b nshells) [0..<sp_image_size a]
      (replicate nshells 0, replicate nshells 0) = Inr bins" and rs: "rs = map2 (fp_div nf) (fst bins) (snd bins)"
    using assms(4) by (auto simp: res_dep_r_factor_def)
  note shells = r_factor_shells [OF fold]
  then show "length rs = nshells" by (simp add: rs)
  have own: "(\<Sum>i\<leftarrow>filter (\<lambda>i. shell_of nf lib a nshells i = int k) [0..<sp_image_size a]. f i) = (\<Sum>i \<in> shell k. f i)"
    for k and f :: "nat \<Rightarrow> real"
    by (simp add: sum_list_distinct_conv_sum_set shell_def)
  show "\<forall>k<nshells. (\<exists>i \<in> shell k. pixels a ! i \<noteq> 0 \<or> pixels b ! i \<noteq> 0) \<longrightarrow>
        rs ! k = (\<Sum>i \<in> shell k. \<bar>sp_cabs (pixels a ! i) - sp_cabs (pixels b ! i)\<bar>)
          / (\<Sum>i \<in> shell k. sp_cabs (pixels a ! i) + sp_cabs (pixels b ! i))
        \<and> 0 \<le> rs ! k \<and> rs ! k \<le> 1
        \<and> (rs ! k = 0 \<longleftrightarrow> (\<forall>i \<in> shell k. sp_cabs (pixels a ! i) = sp_cabs (pixels b ! i)))"
  proof (intro allI impI)
    fix k
    assume k: "k < nshells" and "\<exists>i \<in> shell k. pixels a ! i \<noteq> 0 \<or> pixels b ! i \<noteq> 0"
    then obtain i where i: "i \<in> shell k" "pixels a ! i \<noteq> 0 \<or> pixels b ! i \<noteq> 0" by blast
    have "finite (shell k)" by (simp add: shell_def)
    note fraction = fraction_of_moduli [OF this i]
    moreover from this have "rs ! k = (\<Sum>i \<in> shell k. \<bar>sp_cabs (pixels a ! i) - sp_cabs (pixels b ! i)\<bar>)
        / (\<Sum>i \<in> shell k. sp_cabs (pixels a ! i) + sp_cabs (pixels b ! i))"
      using k shells own by (simp add: rs)
    ultimately show "rs ! k = (\<Sum>i \<in> shell k. \<bar>sp_cabs (pixels a ! i) - sp_cabs (pixels b ! i)\<bar>)
          / (\<Sum>i \<in> shell k. sp_cabs (pixels a ! i) + sp_cabs (pixels b ! i))
        \<and> 0 \<le> rs ! k \<and> rs ! k \<le> 1
        \<and> (rs ! k = 0 \<longleftrightarrow> (\<forall>i \<in> shell k. sp_cabs (pixels a ! i) = sp_cabs (pixels b ! i)))"
      by simp
  qed
qed

definition line_image :: "complex list \<Rightarrow> image" where
  "line_image zs = \<lparr>pixels = zs, mask_data = map (\<lambda>_. 1) zs, size_x = length zs, size_y = 1, size_z = 1,
     shifted = False, image_center = []\<rparr>"

definition plain_factor_lib :: factor_lib where
  "plain_factor_lib = \<lparr>read_for_factor = \<lambda>_. None, center_dist = \<lambda>_. real, arg_of = sp_imag,
     sp_image_superimpose_fractional = \<lambda>_ b. b, rounded = \<lambda>r. r\<rparr>"

lemma r_factors_are_fractions_witness:
  "\<exists>rs. res_dep_r_factor (\<lambda>r. r) plain_factor_lib (line_image [1, 3]) (line_image [2, 3]) 2 = Inr rs
    \<and> rs ! 0 = 1 / 3 \<and> rs ! 1 = 0"
proof -
  let ?a = "line_image [1, 3]" and ?b = "line_image [2, 3]" and ?lib = plain_factor_lib
  have "sqrt 6 \<le> (4 :: real)" by (rule real_le_lsqrt) simp_all
  then have "1 \<le> 2 / (sqrt 6 / 2)" by simp
  then have shells: "shell_of (\<lambda>r. r) ?lib ?a 2 0 = 0" "shell_of (\<lambda>r. r) ?lib ?a 2 (Suc 0) = 1"
    by (simp_all add: shell_of_def plain_factor_lib_def max_dist_def line_image_def c_int_of_real_def)
  have "r_factor_step (\<lambda>r. r) ?lib ?a ?b 2 0 ([0, 0], [0, 0]) = Inr ([1, 0], [3, 0])"
    "r_factor_step (\<lambda>r. r) ?lib ?a ?b 2 (Suc 0) ([1, 0], [3, 0]) = Inr ([1, 0], [3, 6])"
    unfolding r_factor_step_def shells Let_def by (simp_all add: add_at_def array_get_def line_image_def)
  moreover have "[0..<sp_image_size ?a] = [0, Suc 0]" by (simp add: line_image_def sp_image_size_def upt_rec)
  ultimately have "\<exists>rs. res_dep_r_factor (\<lambda>r. r) ?lib ?a ?b 2 = Inr rs"
    by (simp add: res_dep_r_factor_def numeral_2_eq_2)
  then obtain rs where rs: "res_dep_r_factor (\<lambda>r. r) ?lib ?a ?b 2 = Inr rs" by blast
  have own: "{i. i < sp_image_size ?a \<and> shell_of (\<lambda>r. r) ?lib ?a 2 i = int 0} = {0}"
    "{i. i < sp_image_size ?a \<and> shell_of (\<lambda>r. r) ?lib ?a 2 i = int 1} = {1}"
    using shells by (auto simp: sp_image_size_def line_image_def less_Suc_eq)
  have "sp_image_size ?a \<le> sp_image_size ?b" "0 < sp_image_size ?a" "pixels ?a ! 0 \<noteq> 0"
    by (simp_all add: line_image_def sp_image_size_def)
  from r_factors_are_fractions [OF this rs] have all: "k < 2 \<Longrightarrow>
      (\<exists>i \<in> {i. i < sp_image_size ?a \<and> shell_of (\<lambda>r. r) ?lib ?a 2 i = int k}. pixels ?a ! i \<noteq> 0 \<or> pixels ?b ! i \<noteq> 0) \<Longrightarrow>
      rs ! k = (\<Sum>i \<in> {i. i < sp_image_size ?a \<and> shell_of (\<lambda>r. r) ?lib ?a 2 i = int k}.
          \<bar>sp_cabs (pixels ?a ! i) - sp_cabs (pixels ?b ! i)\<bar>)
        / (\<Sum>i \<in> {i. i < sp_image_size ?a \<and> shell_of (\<lambda>r. r) ?lib ?a 2 i = int k}.
          sp_cabs (pixels ?a ! i) + sp_cabs (pixels ?b ! i))" for k
    by blast
  have "rs ! 0 = 1 / 3" using all [of 0, unfolded own(1)] by (simp add: line_image_def)
  moreover have "rs ! 1 = 0" using all [of 1, unfolded own(2)] by (simp add: line_image_def)
  ultimately show ?thesis using rs by blast
qed

section \<open>The regression line\<close>

lemma regression_of_a_line:
  assumes "sp_image_size a \<le> sp_image_size b"
    and "\<And>i. i < sp_image_size a \<Longrightarrow> sp_cabs (pixels b ! i) = c * sp_cabs (pixels a ! i) + d"
    and "sp_image_size b = sp_image_size a"
    and "i < sp_image_size a" and "sp_cabs (pixels a ! i) \<noteq> image_avg nf a"
  shows "regression_line nf a b = (c, d)"
proof -
  let ?n = "sp_image_size a" and ?x = "\<lambda>i. sp_cabs (pixels a ! i)" and ?y = "\<lambda>i. sp_cabs (pixels b ! i)"
  let ?m = "image_avg nf a"
  have n: "real ?n \<noteq> 0" using assms(4) by simp
  have "(\<Sum>i<?n. ?y i) = c * (\<Sum>i<?n. ?x i) + real ?n * d"
    using assms(2) by (simp add: sum.distrib sum_distrib_left)
  then have avg: "image_avg nf b = c * ?m + d"
    using n assms(3) by (simp add: image_avg_def loop_simps field_simps)
  have "(\<Sum>i<?n. (?y i - image_avg nf b) * (?x i - ?m)) = c * (\<Sum>i<?n. (?x i - ?m) * (?x i - ?m))"
    unfolding sum_distrib_left by (rule sum.cong) (simp_all add: assms(2) avg algebra_simps)
  moreover have "0 < (\<Sum>i<?n. (?x i - ?m) * (?x i - ?m))"
    using assms(4,5) by (intro sum_pos2 [of _ i]) (auto simp flip: power2_eq_square)
  ultimately show ?thesis by (simp add: regression_line_def loop_simps Let_def avg)
qed

text \<open>
  Property C37 (functional): when the moduli of an image are those of the solution under a line with a
  positive slope, no pixel of the image is zero and the moduli of the solution are not all the same,
  the rescaling finds the line and takes it out: the moduli of the result are those
  of the solution, and the phases are unchanged.  (The code divides by the modulus of a pixel, and a
  negative slope makes pixels zero.)
\<close>

theorem regression_removes_line:
  assumes "sp_image_size b = sp_image_size a" and "0 < c"
    and "\<forall>i<sp_image_size a. sp_cabs (pixels b ! i) = c * sp_cabs (pixels a ! i) + d \<and> pixels b ! i \<noteq> 0"
    and "\<exists>i<sp_image_size a. sp_cabs (pixels a ! i) \<noteq> image_avg nf a"
  shows "\<exists>r. linear_regression_scale_img nf a b = Inr r
    \<and> (\<forall>i<sp_image_size a. pixels r ! i = sp_cscale (sgn (pixels b ! i)) (sp_cabs (pixels a ! i)))"
proof -
  have line: "regression_line nf a b = (c, d)"
    using regression_of_a_line [of a b c d _ nf] assms(1,3,4) by auto
  have "pixels (on_pixels (sp_image_size a)
          (\<lambda>_ z. let mag = sp_cabs z in
             if mag < d then 0
             else sp_cinit (fp_div nf (sp_real z * fp_div nf (mag - d) mag) c)
                           (fp_div nf (sp_imag z * fp_div nf (mag - d) mag) c)) b) ! i
      = sp_cscale (sgn (pixels b ! i)) (sp_cabs (pixels a ! i))" if "i < sp_image_size a" for i
  proof -
    let ?z = "pixels b ! i"
    have z: "sp_cabs ?z - d = c * sp_cabs (pixels a ! i)" "sp_cabs ?z \<noteq> 0" using assms(3) that by auto
    moreover have "0 \<le> c * sp_cabs (pixels a ! i)" using assms(2) by simp
    ultimately have "\<not> sp_cabs ?z < d" by linarith
    moreover have "fp_div nf (sp_cabs ?z - d) (sp_cabs ?z) = c * sp_cabs (pixels a ! i) / sp_cabs ?z" using z by simp
    moreover have "c \<noteq> 0" using assms(2) by simp
    ultimately show ?thesis
      using that assms(1) by (simp add: loop_simps sp_image_size_def complex_eq_iff sgn_div_norm Let_def divide_inverse mult_ac)
  qed
  then show ?thesis using assms(1) by (simp add: linear_regression_scale_img_def line)
qed

lemma regression_removes_line_witness:
  "\<exists>r. linear_regression_scale_img (\<lambda>r. r) (line_image [1, 3]) (line_image [3, 7 * \<i>]) = Inr r
    \<and> pixels r ! 1 = 3 * \<i>"
proof -
  let ?a = "line_image [1, 3]" and ?b = "line_image [3, 7 * \<i>]"
  have "sp_image_size ?b = sp_image_size ?a" "0 < (2 :: real)"
    "\<forall>i<sp_image_size ?a. sp_cabs (pixels ?b ! i) = 2 * sp_cabs (pixels ?a ! i) + 1 \<and> pixels ?b ! i \<noteq> 0"
    "\<exists>i<sp_image_size ?a. sp_cabs (pixels ?a ! i) \<noteq> image_avg (\<lambda>r. r) ?a"
    by (auto simp: line_image_def sp_image_size_def less_Suc_eq norm_mult image_avg_def loop_simps numeral_2_eq_2)
  from regression_removes_line [OF this] obtain r where
    "linear_regression_scale_img (\<lambda>r. r) ?a ?b = Inr r"
    "\<forall>i<sp_image_size ?a. pixels r ! i = sp_cscale (sgn (pixels ?b ! i)) (sp_cabs (pixels ?a ! i))"
    by blast
  then show ?thesis
    by (auto simp: line_image_def sp_image_size_def sgn_div_norm norm_mult complex_eq_iff dest: spec [of _ 1])
qed

section \<open>The bins of the phase errors\<close>

lemma bind_result_Inl_iff:
  "bind_result m f = Inl e \<longleftrightarrow> m = Inl e \<or> (\<exists>a. m = Inr a \<and> f a = Inl e)"
  by (cases m) auto

lemma array_get_Inl: "array_get xs i = Inl e \<longleftrightarrow> e = Out_Of_Bounds \<and> \<not> (0 \<le> i \<and> i < int (length xs))"
  by (auto simp: array_get_def)

lemma add_at_Inl: "add_at xs i v = Inl e \<longleftrightarrow> e = Out_Of_Bounds \<and> \<not> (0 \<le> i \<and> i < int (length xs))"
  by (auto simp: add_at_def bind_result_Inl_iff array_get_Inl)

text \<open>
  A pixel is added to its bin or, when it has none, ends in the fault; after some pixels each bin has
  their number and the sum of their deviations.
\<close>

lemma phase_error_step_in:
  assumes "length (fst bins) = n_error_bins" and "length (snd bins) = n_error_bins" and "i < length (pixels b)"
    and "error_bin nf lib max_d (center_dist lib a i) = int k" and "k < n_error_bins"
  shows "phase_error_step nf lib a b max_d i bins = Inr ((fst bins)[k := fst bins ! k + 1],
    (snd bins)[k := snd bins ! k + phase_deviation lib (pixels a ! i) (pixels b ! i)])"
  using assms by (simp add: phase_error_step_def add_at_def array_get_def)

lemma phase_error_step_out:
  assumes "length (fst bins) = n_error_bins"
    and "error_bin nf lib max_d (center_dist lib a i) < 0 \<or> int n_error_bins \<le> error_bin nf lib max_d (center_dist lib a i)"
  shows "phase_error_step nf lib a b max_d i bins = Inl Out_Of_Bounds"
  using assms by (auto simp: phase_error_step_def add_at_def array_get_def)

lemma phase_errors_collected:
  fixes lib nf max_d a b
  assumes "\<forall>i \<in> set is. i < length (pixels b)"
  defines "bin \<equiv> \<lambda>i. error_bin nf lib max_d (center_dist lib a i)"
  shows "(if \<exists>i \<in> set is. bin i < 0 \<or> int n_error_bins \<le> bin i
      then fold_result (phase_error_step nf lib a b max_d) is (replicate n_error_bins 0, replicate n_error_bins 0)
        = Inl Out_Of_Bounds
      else fold_result (phase_error_step nf lib a b max_d) is (replicate n_error_bins 0, replicate n_error_bins 0)
        = Inr (map (\<lambda>k. int (length (filter (\<lambda>i. bin i = int k) is))) [0..<n_error_bins],
               map (\<lambda>k. \<Sum>i\<leftarrow>filter (\<lambda>i. bin i = int k) is. phase_deviation lib (pixels a ! i) (pixels b ! i)) [0..<n_error_bins]))"
  using assms(1)
proof (induction "is" rule: rev_induct)
  case Nil
  then show ?case by (simp add: map_replicate_const)
next
  case (snoc i "is")
  let ?bins = "(map (\<lambda>k. int (length (filter (\<lambda>i. bin i = int k) is))) [0..<n_error_bins],
    map (\<lambda>k. \<Sum>i\<leftarrow>filter (\<lambda>i. bin i = int k) is. phase_deviation lib (pixels a ! i) (pixels b ! i)) [0..<n_error_bins])"
  show ?case
  proof (cases "\<exists>i \<in> set is. bin i < 0 \<or> int n_error_bins \<le> bin i")
    case True
    then show ?thesis using snoc by (simp add: fold_result_append)
  next
    case False
    then have rest: "fold_result (phase_error_step nf lib a b max_d) is (replicate n_error_bins 0, replicate n_error_bins 0) = Inr ?bins"
      using snoc by simp
    show ?thesis
    proof (cases "bin i < 0 \<or> int n_error_bins \<le> bin i")
      case True
      then show ?thesis
        using rest phase_error_step_out [of ?bins nf lib max_d a i b] by (simp add: fold_result_append bin_def)
    next
      case inside: False
      then obtain k where k: "bin i = int k" "k < n_error_bins" by (metis linorder_not_less nonneg_int_cases of_nat_less_iff)
      have "phase_error_step nf lib a b max_d i ?bins = Inr ((fst ?bins)[k := fst ?bins ! k + 1],
          (snd ?bins)[k := snd ?bins ! k + phase_deviation lib (pixels a ! i) (pixels b ! i)])"
        using phase_error_step_in [of ?bins i b nf lib max_d a k] snoc.prems k by (simp add: bin_def)
      moreover have "(fst ?bins)[k := fst ?bins ! k + 1]
          = map (\<lambda>k. int (length (filter (\<lambda>i. bin i = int k) (is @ [i])))) [0..<n_error_bins]"
        using k by (intro nth_equalityI) (auto simp: nth_list_update)
      moreover have "(snd ?bins)[k := snd ?bins ! k + phase_deviation lib (pixels a ! i) (pixels b ! i)]
          = map (\<lambda>k. \<Sum>i\<leftarrow>filter (\<lambda>i. bin i = int k) (is @ [i]). phase_deviation lib (pixels a ! i) (pixels b ! i)) [0..<n_error_bins]"
        using k by (intro nth_equalityI) (auto simp: nth_list_update)
      ultimately show ?thesis using False inside rest by (simp add: fold_result_append)
    qed
  qed
qed

lemma filter_sums:
  fixes bin :: "nat \<Rightarrow> int" and f :: "nat \<Rightarrow> real"
  shows "length (filter (\<lambda>i. bin i = k) [0..<n]) = card {i. i < n \<and> bin i = k}"
    and "(\<Sum>i\<leftarrow>filter (\<lambda>i. bin i = k) [0..<n]. f i) = (\<Sum>i | i < n \<and> bin i = k. f i)"
proof -
  have set: "set (filter (\<lambda>i. bin i = k) [0..<n]) = {i. i < n \<and> bin i = k}" by auto
  show "length (filter (\<lambda>i. bin i = k) [0..<n]) = card {i. i < n \<and> bin i = k}"
    unfolding set [symmetric] by (rule distinct_card [symmetric]) simp
  show "(\<Sum>i\<leftarrow>filter (\<lambda>i. bin i = k) [0..<n]. f i) = (\<Sum>i | i < n \<and> bin i = k. f i)"
    unfolding set [symmetric] by (rule sum_list_distinct_conv_sum_set) simp
qed

text \<open>In exact arithmetic the pixel farthest from the centre is outside.\<close>

lemma farthest_bin:
  assumes "rounded lib = (\<lambda>r. r)" and "i < sp_image_size a" and "0 < center_dist lib a i"
  shows "\<exists>j<sp_image_size a.
    error_bin nf lib (running_max (sp_image_size a) (center_dist lib a) 0) (center_dist lib a j) = 50"
proof -
  let ?max = "running_max (sp_image_size a) (center_dist lib a) 0"
  have pos: "0 < ?max" using running_max_ge [OF assms(2), of "center_dist lib a" 0] assms(3) by simp
  then obtain j where "j < sp_image_size a" "?max = center_dist lib a j"
    using running_max_attained [of "sp_image_size a" "center_dist lib a" 0] by auto
  then show ?thesis
    using pos assms(1) by (intro exI [of _ j]) (simp add: error_bin_def n_error_bins_def c_int_of_real_def)
qed

text \<open>
  Property C38 (error): the averages of the phase errors are computed exactly when the bin of every
  pixel, which depends on the rounding of its quotient, is one of the fifty: then bin \<open>k\<close> has the
  number of its pixels and the mean of their phase differences; otherwise the program writes outside
  its arrays.  The pixel farthest from the centre has the quotient of fifty times a number by
  itself: in exact arithmetic it is always outside; in the single precision of libspimage
  the quotient rounds below fifty for some image sizes, and those are in bounds.
\<close>

theorem phase_errors_out_of_bounds:
  fixes lib
  assumes "sp_image_size (sp_image_fft sp ra) \<le> sp_image_size (sp_image_fft sp rb)"
  defines "a \<equiv> sp_image_fft sp ra" and "b \<equiv> sp_image_fft sp rb"
  defines "max_d \<equiv> running_max (sp_image_size a) (center_dist lib a) 0"
  defines "bin \<equiv> \<lambda>i. error_bin (nonfinite sp) lib max_d (center_dist lib a i)"
  defines "own \<equiv> \<lambda>k. {i. i < sp_image_size a \<and> bin i = int k}"
  shows "average_phase_error sp lib ra rb =
      (if \<exists>i<sp_image_size a. bin i < 0 \<or> 50 \<le> bin i then Inl Out_Of_Bounds
       else Inr (map (\<lambda>k. (max_d * real k / 50,
          if own k = {} then 0 else (\<Sum>i \<in> own k. phase_deviation lib (pixels a ! i) (pixels b ! i)) / real (card (own k)),
          int (card (own k)))) [0..<50]))
    \<and> (rounded lib = (\<lambda>r. r) \<longrightarrow> (\<exists>i<sp_image_size a. 0 < center_dist lib a i)
        \<longrightarrow> average_phase_error sp lib ra rb = Inl Out_Of_Bounds)"
proof -
  have in_b: "\<forall>i \<in> set [0..<sp_image_size a]. i < length (pixels b)"
    using assms(1) by (simp add: a_def b_def sp_image_size_def)
  have "error_bin (nonfinite sp) lib max_d (center_dist lib a i) = bin i" for i by (simp add: bin_def)
  note collected = phase_errors_collected [OF in_b, of "nonfinite sp" lib max_d a, unfolded this]
  have run: "average_phase_error sp lib ra rb = bind_result (fold_result (phase_error_step (nonfinite sp) lib a b max_d)
      [0..<sp_image_size a] (replicate n_error_bins 0, replicate n_error_bins 0)) (\<lambda>bins.
       Inr (map (\<lambda>i. (max_d * real i / real n_error_bins,
         (if fst bins ! i \<noteq> 0 then snd bins ! i / real_of_int (fst bins ! i) else snd bins ! i), fst bins ! i))
         [0..<n_error_bins]))"
    by (simp add: average_phase_error_def Let_def max_d_def a_def b_def)
  have outside: "average_phase_error sp lib ra rb = Inl Out_Of_Bounds" if "\<exists>i<sp_image_size a. bin i < 0 \<or> 50 \<le> bin i"
  proof -
    have "\<exists>i \<in> set [0..<sp_image_size a]. bin i < 0 \<or> int n_error_bins \<le> bin i"
      using that by (auto simp: n_error_bins_def)
    then show ?thesis using collected by (simp only: run if_True) simp
  qed
  have "average_phase_error sp lib ra rb = Inr (map (\<lambda>k. (max_d * real k / 50,
      if own k = {} then 0 else (\<Sum>i \<in> own k. phase_deviation lib (pixels a ! i) (pixels b ! i)) / real (card (own k)),
      int (card (own k)))) [0..<50])" if "\<not> (\<exists>i<sp_image_size a. bin i < 0 \<or> 50 \<le> bin i)"
  proof -
    have "finite (own k)" for k by (simp add: own_def)
    moreover have "fold_result (phase_error_step (nonfinite sp) lib a b max_d) [0..<sp_image_size a]
        (replicate n_error_bins 0, replicate n_error_bins 0)
      = Inr (map (\<lambda>k. int (card (own k))) [0..<n_error_bins],
             map (\<lambda>k. \<Sum>i \<in> own k. phase_deviation lib (pixels a ! i) (pixels b ! i)) [0..<n_error_bins])"
    proof -
      have "\<not> (\<exists>i \<in> set [0..<sp_image_size a]. bin i < 0 \<or> int n_error_bins \<le> bin i)"
        using that by (auto simp: n_error_bins_def)
      then show ?thesis using collected by (simp only: if_False filter_sums own_def)
    qed
    ultimately show ?thesis by (simp add: run n_error_bins_def del: upt_Suc)
  qed
  moreover have "average_phase_error sp lib ra rb = Inl Out_Of_Bounds"
    if "rounded lib = (\<lambda>r. r)" and "\<exists>i<sp_image_size a. 0 < center_dist lib a i"
    using farthest_bin [OF that(1), where nf = "nonfinite sp"] that(2) outside
    unfolding bin_def max_d_def by (metis order_refl)
  ultimately show ?thesis using outside by auto
qed

text \<open>Both cases occur on two pixels: exact arithmetic, and one in which every operation loses a little.\<close>

definition lossy_factor_lib :: factor_lib where
  "lossy_factor_lib = plain_factor_lib\<lparr>rounded := \<lambda>r. r * (1 - 1 / 2 ^ 23)\<rparr>"

lemma phase_errors_out_of_bounds_witness:
  "average_phase_error example_library plain_factor_lib (line_image [1, \<i>]) (line_image [1, 1]) = Inl Out_Of_Bounds
    \<and> (\<exists>rows. average_phase_error example_library lossy_factor_lib (line_image [1, \<i>]) (line_image [1, 1]) = Inr rows)"
proof
  let ?a = "sp_image_fft example_library (line_image [1, \<i>])" and ?b = "sp_image_fft example_library (line_image [1, 1])"
  have size: "sp_image_size ?a \<le> sp_image_size ?b" and two: "sp_image_size ?a = 2"
    by (simp_all add: line_image_def sp_image_size_def)
  have "rounded plain_factor_lib = (\<lambda>r. r)" "\<exists>i<sp_image_size ?a. 0 < center_dist plain_factor_lib ?a i"
    using two by (auto simp: plain_factor_lib_def intro: exI [of _ 1])
  then show "average_phase_error example_library plain_factor_lib (line_image [1, \<i>]) (line_image [1, 1]) = Inl Out_Of_Bounds"
    using phase_errors_out_of_bounds [OF size, of plain_factor_lib, THEN conjunct2, rule_format] by blast
  have "running_max 2 (center_dist lossy_factor_lib ?a) 0 = 1"
    by (simp add: running_max_def lossy_factor_lib_def plain_factor_lib_def for_acc_def upt_rec)
  then have "\<not> (\<exists>i<sp_image_size ?a.
      error_bin (nonfinite example_library) lossy_factor_lib (running_max (sp_image_size ?a) (center_dist lossy_factor_lib ?a) 0)
        (center_dist lossy_factor_lib ?a i) < 0
      \<or> 50 \<le> error_bin (nonfinite example_library) lossy_factor_lib
        (running_max (sp_image_size ?a) (center_dist lossy_factor_lib ?a) 0) (center_dist lossy_factor_lib ?a i))"
    unfolding two by (auto simp: less_2_cases_iff error_bin_def lossy_factor_lib_def plain_factor_lib_def n_error_bins_def
        c_int_of_real_def)
  then show "\<exists>rows. average_phase_error example_library lossy_factor_lib (line_image [1, \<i>]) (line_image [1, 1]) = Inr rows"
    using phase_errors_out_of_bounds [OF size, of lossy_factor_lib, THEN conjunct1] by simp
qed

end
