(* ===== verification/Shell_Average.thy ===== *)
theory Shell_Average
  imports Process_Image
begin

text \<open>
  The program \<open>circular_averaging\<close> (\<open>src/utils/circular_averaging.c\<close>): the mean amplitude of a
  pattern in shells of equal resolution, and the spherically symmetric transform of that curve.
  The corrections before are those of \<open>process_image\<close>.  Diagnostic files and the log of the
  command line are left out.
\<close>

section \<open>Options\<close>

record shell_options =
  shell_saturation :: real
  shell_background :: real
  shell_input :: string
  shell_output :: string
  shell_dark :: string
  shell_mask :: string
  shell_filler :: string
  shell_center_x :: real
  shell_center_y :: real
  shell_distance :: real
  shell_wavelength :: real
  shell_pixel_size :: real

definition shell_defaults :: shell_options where
  "shell_defaults = \<lparr>shell_saturation = 0, shell_background = 0, shell_input = [], shell_output = [], shell_dark = [],
     shell_mask = [], shell_filler = [], shell_center_x = -1, shell_center_y = -1, shell_distance = 0,
     shell_wavelength = 0, shell_pixel_size = 0\<rparr>"

definition shell_option :: "(string \<Rightarrow> real) \<Rightarrow> char \<times> string \<Rightarrow> shell_options \<Rightarrow> shell_options result" where
  "shell_option atof arg res =
     (let c = fst arg; optarg = snd arg in
      if c = CHR ''g'' then Inr (res\<lparr>shell_background := atof optarg\<rparr>)
      else if c = CHR ''s'' then Inr (res\<lparr>shell_saturation := atof optarg\<rparr>)
      else if c = CHR ''i'' then bind_result (file_name optarg) (\<lambda>f. Inr (res\<lparr>shell_input := f\<rparr>))
      else if c = CHR ''o'' then bind_result (file_name optarg) (\<lambda>f. Inr (res\<lparr>shell_output := f\<rparr>))
      else if c = CHR ''b'' then bind_result (file_name optarg) (\<lambda>f. Inr (res\<lparr>shell_dark := f\<rparr>))
      else if c = CHR ''m'' then bind_result (file_name optarg) (\<lambda>f. Inr (res\<lparr>shell_mask := f\<rparr>))
      else if c = CHR ''c'' then
        (case dropWhile (\<lambda>d. d \<noteq> CHR ''x'') optarg of
           [] \<Rightarrow> Inl Null_Pointer
         | _ # rest \<Rightarrow> Inr (res\<lparr>shell_center_x := atof optarg, shell_center_y := atof rest\<rparr>))
      else if c = CHR ''e'' then bind_result (file_name optarg) (\<lambda>f. Inr (res\<lparr>shell_filler := f\<rparr>))
      else if c = CHR ''h'' then Inl (Exit 0)
      else if c = CHR ''w'' then Inr (res\<lparr>shell_wavelength := atof optarg\<rparr>)
      else if c = CHR ''d'' then Inr (res\<lparr>shell_distance := atof optarg\<rparr>)
      else if c = CHR ''p'' then Inr (res\<lparr>shell_pixel_size := atof optarg\<rparr>)
      else Inr res)"

definition shell_parse_options :: "(string \<Rightarrow> real) \<Rightarrow> (char \<times> string) list \<Rightarrow> shell_options result" where
  "shell_parse_options atof args =
     (if args = [] then Inl (Exit 1) else fold_result (shell_option atof) args shell_defaults)"

definition check_shell_options :: "shell_options \<Rightarrow> unit result" where
  "check_shell_options opts =
     (if shell_pixel_size opts = 0 \<or> shell_wavelength opts = 0 \<or> shell_distance opts = 0
         \<or> (shell_center_x opts = -1 \<and> shell_center_y opts = -1) \<or> shell_input opts = [] \<or> shell_output opts = []
      then Inl (Exit 1) else Inr ())"

section \<open>The transform of a radial curve\<close>

definition normalize_f :: "(real \<Rightarrow> real) \<Rightarrow> nat \<Rightarrow> real list \<Rightarrow> real list" where
  "normalize_f nf n f =
     (let s = for_acc n (\<lambda>i s. s + f ! i) 0 in for_pixels n (\<lambda>_ x. fp_div nf x s) f)"

definition discrete_3d_spherically_symmetric_fourier_transform ::
  "(real \<Rightarrow> real) \<Rightarrow> real list \<Rightarrow> real list \<Rightarrow> nat \<Rightarrow> nat \<Rightarrow> (real list \<times> real list) result" where
  "discrete_3d_spherically_symmetric_fourier_transform nf r f n new_n =
     bind_result (array_get r (int n - 1)) (\<lambda>max_r.
       let R = map (\<lambda>i. fp_div nf (real i) max_r * (real n / real new_n)) [0..<new_n];
           F = map (\<lambda>i. if i = 0 then 0
                 else fp_div nf (for_acc n (\<lambda>j s. s + 2 * r ! j * f ! j * sin (2 * pi * r ! j * R ! i)) 0) (R ! i)) [0..<new_n]
       in Inr (R, F))"

text \<open>The intensity of a ball, with the spherical Bessel function of GSL as a parameter; nothing calls it.\<close>

definition ball_intensity :: "(real \<Rightarrow> real) \<Rightarrow> (real \<Rightarrow> real) \<Rightarrow> real \<Rightarrow> real \<Rightarrow> real \<Rightarrow> real" where
  "ball_intensity nf bessel_j1 r scale q =
     (if q = 0 then 0
      else let s = 2 * pi * r * q; F = fp_div nf (bessel_j1 s * 4 * pi * r * r * r) s in scale * F * F)"

section \<open>Shells\<close>

record detector =
  detector_distance :: real
  detector_wavelength :: real
  detector_pixel_size :: real

definition resolution_from_image :: "(real \<Rightarrow> real) \<Rightarrow> process_lib \<Rightarrow> detector \<Rightarrow> image \<Rightarrow> real list" where
  "resolution_from_image nf lib det img =
     map (\<lambda>i. let h = dist_to_center lib img i * detector_pixel_size det;
                  theta = arctan (fp_div nf h (detector_distance det)) / 2
              in fp_div nf (sin theta * 2) (detector_wavelength det)) [0..<sp_image_size img]"

text \<open>
  The sums of the shells: a masked pixel is skipped, and the one of the highest resolution is put
  into the last shell.  The arrays have \<open>nbins\<close> elements.
\<close>

definition add_to_shell ::
  "(real \<Rightarrow> real) \<Rightarrow> image \<Rightarrow> real list \<Rightarrow> real \<Rightarrow> int \<Rightarrow> nat \<Rightarrow> real list \<times> int list
    \<Rightarrow> (real list \<times> int list) result" where
  "add_to_shell nf a resol max_res nbins i bins =
     (if mask_data a ! i = 0 then Inr bins
      else let bin = c_int_of_real (fp_div nf (resol ! i) max_res * real_of_int nbins);
               bin = (if bin \<ge> nbins then nbins - 1 else bin)
           in bind_result (array_get (fst bins) bin) (\<lambda>v.
              bind_result (array_get (snd bins) bin) (\<lambda>m.
                Inr ((fst bins)[nat bin := v + sp_cabs (pixels a ! i)], (snd bins)[nat bin := m + 1]))))"

definition n_shell_bins :: "image \<Rightarrow> int" where
  "n_shell_bins a = c_int_of_real (sqrt (real (sp_image_size a)) / 4)"

definition shell_means :: "(real \<Rightarrow> real) \<Rightarrow> image \<Rightarrow> real list \<Rightarrow> (real \<times> real \<times> int) list result" where
  "shell_means nf a resol =
     (let nbins = n_shell_bins a; n = nat nbins;
          max_res = running_max (sp_image_size a) (\<lambda>i. resol ! i) 0
      in bind_result (fold_result (add_to_shell nf a resol max_res nbins) [0..<sp_image_size a]
           (replicate n 0, replicate n 0)) (\<lambda>bins.
         Inr (map (\<lambda>i. (real i * max_res / real n,
           if snd bins ! i = 0 then 0 else fst bins ! i / real_of_int (snd bins ! i), snd bins ! i)) [0..<n])))"

text \<open>The two files that are written: the shells, and the transform, of which only \<open>nbins\<close> values are normalised.\<close>

definition plot_shell_intensity ::
  "(real \<Rightarrow> real) \<Rightarrow> process_lib \<Rightarrow> detector \<Rightarrow> image
    \<Rightarrow> ((real \<times> real \<times> int) list \<times> (real \<times> real) list) result" where
  "plot_shell_intensity nf lib det a =
     bind_result (shell_means nf a (resolution_from_image nf lib det a)) (\<lambda>shells.
       let n = length shells in
       bind_result (discrete_3d_spherically_symmetric_fourier_transform nf
           (map fst shells) (map (fst \<circ> snd) shells) n (n * 20)) (\<lambda>(R, F).
         Inr (shells, take n (zip R (normalize_f nf n F)))))"

section \<open>The program\<close>

text \<open>The loops over the pixels are those of \<open>process_image\<close>, but a missing filler image is skipped.\<close>

definition shell_fill_image_blanks :: "spimage \<Rightarrow> process_lib \<Rightarrow> string \<Rightarrow> image \<Rightarrow> image result" where
  "shell_fill_image_blanks sp lib name a =
     (case sp_image_read lib name of
        None \<Rightarrow> Inr a
      | Some filler \<Rightarrow>
          let filler = (if shifted filler then sp_image_shift sp filler else filler) in
          fold_result (fill_pixel lib filler) [0..<sp_image_size a] a)"

definition shell_subtract_dark :: "image \<Rightarrow> image \<Rightarrow> image result" where
  "shell_subtract_dark dark img = subtract_dark dark img"

definition shell_mask_overexposure :: "image \<Rightarrow> real \<Rightarrow> image" where
  "shell_mask_overexposure img limit = mask_overexposure limit img"

definition shell_remove_background :: "shell_options \<Rightarrow> image \<Rightarrow> image" where
  "shell_remove_background opts img = remove_background (shell_background opts) img"

definition shell_main ::
  "spimage \<Rightarrow> process_lib \<Rightarrow> (string \<Rightarrow> real) \<Rightarrow> (char \<times> string) list
    \<Rightarrow> ((real \<times> real \<times> int) list \<times> (real \<times> real) list) result" where
  "shell_main sp lib atof args =
     bind_result (shell_parse_options atof args) (\<lambda>opts.
     bind_result (check_shell_options opts) (\<lambda>_.
     bind_result (deref (sp_image_read lib (shell_input opts))) (\<lambda>img.
       let img = img\<lparr>image_center := (image_center img)[0 := shell_center_x opts, 1 := shell_center_y opts]\<rparr>;
           det = \<lparr>detector_distance = shell_distance opts / 10 ^ 3, detector_wavelength = shell_wavelength opts / 10 ^ 9,
             detector_pixel_size = shell_pixel_size opts / 10 ^ 6\<rparr>;
           img = (if shell_saturation opts \<noteq> 0 then shell_mask_overexposure img (shell_saturation opts) else img)
       in bind_result (if shell_dark opts \<noteq> []
             then bind_result (deref (sp_image_read lib (shell_dark opts))) (\<lambda>dark. shell_subtract_dark dark img)
             else Inr img) (\<lambda>img.
          bind_result (if shell_mask opts \<noteq> []
             then bind_result (deref (sp_image_read lib (shell_mask opts))) (\<lambda>msk. apply_mask msk img)
             else Inr img) (\<lambda>img.
          plot_shell_intensity (nonfinite sp) lib det (shell_remove_background opts img))))))"

section \<open>No pixel is lost\<close>

lemma sum_list_at:
  fixes xs :: "'a::ab_group_add list"
  shows "k < length xs \<Longrightarrow> sum_list (xs[k := xs ! k + v]) = sum_list xs + v"
  by (induction xs arbitrary: k) (auto split: nat.splits)

definition counted :: "nat \<Rightarrow> image \<Rightarrow> nat list \<Rightarrow> real list \<times> int list \<Rightarrow> bool" where
  "counted n a is bins \<longleftrightarrow>
     length (fst bins) = n \<and> length (snd bins) = n
     \<and> sum_list (fst bins) = (\<Sum>i\<leftarrow>is. if mask_data a ! i = 0 then 0 else sp_cabs (pixels a ! i))
     \<and> sum_list (snd bins) = (\<Sum>i\<leftarrow>is. if mask_data a ! i = 0 then 0 else 1)
     \<and> (\<forall>k<n. 0 \<le> snd bins ! k \<and> (snd bins ! k = 0 \<longrightarrow> fst bins ! k = 0))"

lemma add_to_shell_counted:
  assumes "add_to_shell nf a resol max_res nbins i bins = Inr bins'" and "counted n a is bins"
  shows "counted n a (is @ [i]) bins'"
proof (cases "mask_data a ! i = 0")
  case True
  then show ?thesis using assms by (auto simp: counted_def add_to_shell_def)
next
  case False
  define b where "b = (let bin = c_int_of_real (fp_div nf (resol ! i) max_res * real_of_int nbins)
    in if bin \<ge> nbins then nbins - 1 else bin)"
  define k where "k = nat b"
  have "0 \<le> b \<and> b < int (length (fst bins)) \<and> bins' =
      ((fst bins)[nat b := fst bins ! nat b + sp_cabs (pixels a ! i)], (snd bins)[nat b := snd bins ! nat b + 1])"
    using assms(1) False unfolding b_def add_to_shell_def Let_def by (auto simp: array_get_Inr_iff)
  then have k: "k < n" "bins' = ((fst bins)[k := fst bins ! k + sp_cabs (pixels a ! i)], (snd bins)[k := snd bins ! k + 1])"
    using assms(2) by (auto simp: counted_def k_def)
  then have "snd bins ! k + 1 \<noteq> 0" using assms(2) by (auto simp: counted_def dest!: spec [of _ k])
  then show ?thesis using assms(2) False k by (auto simp: counted_def sum_list_at nth_list_update)
qed

lemma shells_counted:
  assumes "fold_result (add_to_shell nf a resol max_res nbins) js bins = Inr bins'" and "counted n a is bins"
  shows "counted n a (is @ js) bins'"
  using assms
proof (induction js arbitrary: bins "is")
  case (Cons j js)
  then obtain bins1 where step: "add_to_shell nf a resol max_res nbins j bins = Inr bins1"
    and rest: "fold_result (add_to_shell nf a resol max_res nbins) js bins1 = Inr bins'"
    by auto
  show ?case using Cons.IH [OF rest add_to_shell_counted [OF step Cons.prems(2)]] by simp
qed simp

lemma counted_nothing: "counted n a [] (replicate n 0, replicate n 0)"
  by (simp add: counted_def sum_list_replicate)

text \<open>The bin of a pixel is in range when its resolution is between zero and the greatest one.\<close>

lemma add_to_shell_defined:
  assumes "length (fst bins) = nat nbins" and "length (snd bins) = nat nbins" and "0 < nbins"
    and "0 \<le> resol ! i" and "0 < max_res"
  shows "\<exists>bins'. add_to_shell nf a resol max_res nbins i bins = Inr bins'
    \<and> length (fst bins') = nat nbins \<and> length (snd bins') = nat nbins"
proof -
  have "0 \<le> c_int_of_real (resol ! i / max_res * real_of_int nbins)"
    using assms(3-5) by (simp add: c_int_of_real_def)
  then show ?thesis
    using assms by (cases bins) (auto simp: add_to_shell_def Let_def array_get_def)
qed

lemma shells_defined:
  assumes "length (fst bins) = nat nbins" and "length (snd bins) = nat nbins" and "0 < nbins" and "0 < max_res"
    and "\<forall>i \<in> set is. 0 \<le> resol ! i"
  shows "\<exists>bins'. fold_result (add_to_shell nf a resol max_res nbins) is bins = Inr bins'"
  using assms(1,2,5)
proof (induction "is" arbitrary: bins)
  case (Cons i "is")
  then obtain bins1 where "add_to_shell nf a resol max_res nbins i bins = Inr bins1"
    "length (fst bins1) = nat nbins" "length (snd bins1) = nat nbins"
    using add_to_shell_defined [of bins nbins resol i max_res nf a] assms(3,4) by auto
  then show ?case using Cons.IH [of bins1] Cons.prems(3) by simp
qed simp

lemma resolution_bounds:
  assumes "i < sp_image_size a" and "0 \<le> dist_to_center lib a i" and "0 < detector_distance det"
    and "0 < detector_wavelength det" and "0 < detector_pixel_size det"
  shows "0 \<le> resolution_from_image nf lib det a ! i"
    and "0 < dist_to_center lib a i \<Longrightarrow> 0 < resolution_from_image nf lib det a ! i"
proof -
  let ?t = "arctan (dist_to_center lib a i * detector_pixel_size det / detector_distance det)"
  have eq: "resolution_from_image nf lib det a ! i = sin (?t / 2) * 2 / detector_wavelength det"
    using assms(1,3,4) by (simp add: resolution_from_image_def Let_def)
  have "?t < pi" using arctan_ubound [of "dist_to_center lib a i * detector_pixel_size det / detector_distance det"]
      pi_gt_zero by linarith
  moreover have "0 \<le> ?t" using assms by simp
  ultimately have "0 \<le> sin (?t / 2)" by (intro sin_ge_zero) linarith+
  then show "0 \<le> resolution_from_image nf lib det a ! i" using assms(4) by (simp add: eq)
  assume "0 < dist_to_center lib a i"
  then have "0 < ?t" using assms by simp
  then have "0 < sin (?t / 2)" using \<open>?t < pi\<close> by (intro sin_gt_zero) linarith+
  then show "0 < resolution_from_image nf lib det a ! i" using assms(4) by (simp add: eq)
qed

text \<open>
  Property C39 (invariant): for a pattern of at least sixteen pixels, one of them off the centre,
  every pixel that is not masked is counted in exactly one shell: the shells have as many members as
  there are such pixels, and their means times their members add up to all their moduli.
\<close>

theorem shells_keep_intensity:
  assumes "16 \<le> sp_image_size a" and "\<forall>i<sp_image_size a. 0 \<le> dist_to_center lib a i"
    and "\<exists>i<sp_image_size a. 0 < dist_to_center lib a i"
    and "0 < detector_distance det" and "0 < detector_wavelength det" and "0 < detector_pixel_size det"
  shows "\<exists>shells. shell_means nf a (resolution_from_image nf lib det a) = Inr shells
    \<and> (\<Sum>(r, v, m)\<leftarrow>shells. m) = int (card {i. i < sp_image_size a \<and> mask_data a ! i \<noteq> 0})
    \<and> (\<Sum>(r, v, m)\<leftarrow>shells. v * real_of_int m) = (\<Sum>i | i < sp_image_size a \<and> mask_data a ! i \<noteq> 0. sp_cabs (pixels a ! i))"
proof -
  let ?n = "sp_image_size a" and ?r = "resolution_from_image nf lib det a" and ?b = "n_shell_bins a"
  let ?max = "running_max ?n (\<lambda>i. ?r ! i) 0"
  obtain i where i: "i < ?n" "0 < ?r ! i" using assms resolution_bounds(2) by blast
  then have max: "0 < ?max" using running_max_ge [of i ?n "\<lambda>i. ?r ! i" 0] by simp
  have "4 \<le> sqrt (real ?n)" using assms(1) real_le_rsqrt [of 4 "real ?n"] by simp
  then have b: "0 < ?b" by (simp add: n_shell_bins_def c_int_of_real_def)
  have "\<forall>i \<in> set [0..<?n]. 0 \<le> ?r ! i" using resolution_bounds(1) assms by simp
  then obtain bins where fold: "fold_result (add_to_shell nf a ?r ?max ?b) [0..<?n]
      (replicate (nat ?b) 0, replicate (nat ?b) 0) = Inr bins"
    using shells_defined [of "(replicate (nat ?b) 0, replicate (nat ?b) 0)" ?b ?max "[0..<?n]" ?r nf a] b max by auto
  have c: "counted (nat ?b) a [0..<?n] bins" using shells_counted [OF fold counted_nothing] by simp
  define shells where "shells = map (\<lambda>i. (real i * ?max / real (nat ?b),
           if snd bins ! i = 0 then 0 else fst bins ! i / real_of_int (snd bins ! i), snd bins ! i)) [0..<nat ?b]"
  have "shell_means nf a ?r = Inr shells" by (simp add: shell_means_def Let_def fold shells_def)
  moreover have "(\<Sum>(r, v, m)\<leftarrow>shells. m) = sum_list (snd bins)"
    using c by (simp add: shells_def counted_def o_def) (metis map_nth)
  moreover have "(\<Sum>(r, v, m)\<leftarrow>shells. v * real_of_int m) = sum_list (fst bins)"
  proof -
    have "map (\<lambda>(r, v, m). v * real_of_int m) shells = fst bins"
      using c by (intro nth_equalityI) (auto simp: shells_def counted_def)
    then show ?thesis by simp
  qed
  ultimately show ?thesis
    using c by (simp add: counted_def interv_sum_list_conv_sum_set_nat sum.If_cases Int_def
      atLeast0LessThan flip: sum.inter_filter)
qed

definition ring_lib :: process_lib where
  "ring_lib = \<lparr>sp_image_read = \<lambda>_. None, dist_to_center = \<lambda>_. real, dist_to_axis = \<lambda>_. real,
     sp_image_get_coords_from_index = \<lambda>_ _. (0, 0, 0), sp_image_get_index = \<lambda>_ _ _ _. 0, sp_find_center = \<lambda>_. [],
     sp_image_low_pass = \<lambda>a _. a, zero_pad_image = \<lambda>a _ _. a, fft_speed = None\<rparr>"

definition flat_pattern :: image where
  "flat_pattern = \<lparr>pixels = replicate 16 2, mask_data = 0 # replicate 15 1, size_x = 4, size_y = 4, size_z = 1,
     shifted = False, image_center = [2, 2, 0]\<rparr>"

lemma shells_keep_intensity_witness:
  "\<exists>shells. shell_means (\<lambda>r. r) flat_pattern (resolution_from_image (\<lambda>r. r) ring_lib
      \<lparr>detector_distance = 1, detector_wavelength = 1, detector_pixel_size = 1\<rparr> flat_pattern) = Inr shells
    \<and> (\<Sum>(r, v, m)\<leftarrow>shells. m) = 15"
proof -
  let ?det = "\<lparr>detector_distance = 1, detector_wavelength = 1, detector_pixel_size = 1\<rparr>"
  have n: "sp_image_size flat_pattern = 16" by (simp add: flat_pattern_def sp_image_size_def)
  have "\<forall>i<sp_image_size flat_pattern. 0 \<le> dist_to_center ring_lib flat_pattern i"
    "\<exists>i<sp_image_size flat_pattern. 0 < dist_to_center ring_lib flat_pattern i"
    unfolding n by (auto simp: ring_lib_def intro!: exI [of _ 1])
  from shells_keep_intensity [OF _ this, of ?det "\<lambda>r. r"] n obtain shells where
    "shell_means (\<lambda>r. r) flat_pattern (resolution_from_image (\<lambda>r. r) ring_lib ?det flat_pattern) = Inr shells"
    "(\<Sum>(r, v, m)\<leftarrow>shells. m) = int (card {i. i < 16 \<and> mask_data flat_pattern ! i \<noteq> 0})"
    by auto
  moreover have "{i. i < 16 \<and> mask_data flat_pattern ! i \<noteq> 0} = {1..<16}"
    by (auto simp: flat_pattern_def nth_Cons')
  ultimately show ?thesis by auto
qed

end
