(* ===== verification/Reflections.thy ===== *)
theory Reflections
  imports Saddle_Data
begin

text \<open>
  The program \<open>image_to_reflections\<close> (\<open>src/utils/image_to_reflections.c\<close>): the coordinates of
  the pixels of a pattern in reciprocal space, their Miller indices in the cell of a given stride,
  and the list of reflections.  The header lines of the written file, which hold the cell, and
  the file of the transform are left out.
\<close>

section \<open>Options\<close>

record reflection_options =
  intensity_filename :: string
  object_filename :: string
  reflections_filename :: string
  opt_wavelength :: real
  opt_distance :: real
  opt_px :: real
  opt_py :: real
  opt_pz :: real
  stride :: int
  sigma :: real

definition reflection_defaults :: reflection_options where
  "reflection_defaults = \<lparr>intensity_filename = [], object_filename = [], reflections_filename = [],
     opt_wavelength = -1, opt_distance = -1, opt_px = -1, opt_py = -1, opt_pz = -1, stride = 1, sigma = 0\<rparr>"

definition reflection_file :: "string \<Rightarrow> string result" where
  "reflection_file arg = (if length arg < 1024 then Inr arg else Inl Out_Of_Bounds)"

text \<open>
  There is no \<open>break\<close> after the wavelength: its number becomes the width of a pixel, in
  micrometres, too.
\<close>

definition reflection_option ::
  "(string \<Rightarrow> real) \<Rightarrow> (string \<Rightarrow> int) \<Rightarrow> char \<times> string \<Rightarrow> reflection_options \<Rightarrow> reflection_options result" where
  "reflection_option atof atoi arg opts =
     (let c = fst arg; optarg = snd arg in
      if c = CHR ''i'' then bind_result (reflection_file optarg) (\<lambda>f. Inr (opts\<lparr>intensity_filename := f\<rparr>))
      else if c = CHR ''r'' then bind_result (reflection_file optarg) (\<lambda>f. Inr (opts\<lparr>object_filename := f\<rparr>))
      else if c = CHR ''o'' then bind_result (reflection_file optarg) (\<lambda>f. Inr (opts\<lparr>reflections_filename := f\<rparr>))
      else if c = CHR ''w'' then Inr (opts\<lparr>opt_wavelength := atof optarg / 10 ^ 9, opt_px := atof optarg / 10 ^ 6\<rparr>)
      else if c = CHR ''x'' then Inr (opts\<lparr>opt_px := atof optarg / 10 ^ 6\<rparr>)
      else if c = CHR ''y'' then Inr (opts\<lparr>opt_py := atof optarg / 10 ^ 6\<rparr>)
      else if c = CHR ''z'' then Inr (opts\<lparr>opt_pz := atof optarg / 10 ^ 6\<rparr>)
      else if c = CHR ''s'' then Inr (opts\<lparr>stride := atoi optarg\<rparr>)
      else if c = CHR ''S'' then Inr (opts\<lparr>sigma := atof optarg\<rparr>)
      else if c = CHR ''d'' then Inr (opts\<lparr>opt_distance := atof optarg / 10 ^ 3\<rparr>)
      else if c = CHR ''h'' then Inl (Exit 0)
      else Inr opts)"

definition reflection_parse_options ::
  "(string \<Rightarrow> real) \<Rightarrow> (string \<Rightarrow> int) \<Rightarrow> (char \<times> string) list \<Rightarrow> reflection_options result" where
  "reflection_parse_options atof atoi args = fold_result (reflection_option atof atoi) args reflection_defaults"

section \<open>Coordinates of pixels\<close>

text \<open>What an image knows of its detector.\<close>

record geometry =
  pixel_width :: real
  pixel_height :: real
  pixel_depth :: real
  sample_distance :: real
  beam_wavelength :: real
  beam_center :: "real \<times> real \<times> real"

datatype origin = SpTopLeftCorner | SpImageCenter | Other_Origin

text \<open>The coordinates are integers: the offset from the centre is cut off after the subtraction.\<close>

definition image_index_to_coords :: "image \<Rightarrow> geometry \<Rightarrow> int \<Rightarrow> origin \<Rightarrow> (int \<times> int \<times> int) option result" where
  "image_index_to_coords a g index orig =
     (let nx = int (size_x a); ny = int (size_y a) in
      if orig = Other_Origin then Inr None
      else bind_result (c_div index (ny * nx)) (\<lambda>z.
           bind_result (c_rem index (ny * nx)) (\<lambda>r.
           bind_result (c_div r nx) (\<lambda>y.
           bind_result (c_rem index nx) (\<lambda>x.
             case orig of
               SpTopLeftCorner \<Rightarrow> Inr (Some (x, y, z))
             | _ \<Rightarrow> Inr (Some (c_int_of_real (real_of_int x - fst (beam_center g)),
                 c_int_of_real (real_of_int y - fst (snd (beam_center g))),
                 c_int_of_real (real_of_int z - snd (snd (beam_center g))))))))))"

datatype image_type = FourierEwald2D | FourierPlane2D | FourierGrid3D

definition c_round :: "real \<Rightarrow> int" where
  "c_round r = (if 0 \<le> r then \<lfloor>r + 1 / 2\<rfloor> else \<lceil>r - 1 / 2\<rceil>)"

definition integer_center :: "geometry \<Rightarrow> int \<times> int \<times> int" where
  "integer_center g = (c_round (fst (beam_center g)), c_round (fst (snd (beam_center g))), c_round (snd (snd (beam_center g))))"

text \<open>The reciprocal coordinates of one pixel; the vertical and the axial ones grow against the indices.\<close>

definition reciprocal :: "(real \<Rightarrow> real) \<Rightarrow> image \<Rightarrow> geometry \<Rightarrow> nat \<Rightarrow> nat \<Rightarrow> nat \<Rightarrow> real \<times> real \<times> real" where
  "reciprocal nf a g x y z =
     (let s = fp_div nf 1 (sample_distance g * beam_wavelength g);
          (cx, cy, cz) = integer_center g;
          det_x = pixel_width g * real (size_x a); det_y = pixel_height g * real (size_y a);
          det_z = pixel_depth g * real (size_z a)
      in (((real x - real_of_int cx) / real (size_x a)) * det_x * s,
          ((real_of_int cy - real y) / real (size_y a)) * det_y * s,
          ((real_of_int cz - real z) / real (size_z a)) * det_z * s))"

definition fourier_coords ::
  "(real \<Rightarrow> real) \<Rightarrow> image \<Rightarrow> geometry \<Rightarrow> image_type \<Rightarrow> nat \<Rightarrow> nat \<Rightarrow> nat \<Rightarrow> real \<times> real \<times> real" where
  "fourier_coords nf a g ty x y z =
     (let (rx, ry, rz) = reciprocal nf a g x y z; ewald_radius = fp_div nf 1 (beam_wavelength g) in
      case ty of
        FourierEwald2D \<Rightarrow>
          if z \<noteq> 0 then (0, 0, 0)
          else let d = fp_sqrt nf (rx * rx + ry * ry + ewald_radius * ewald_radius) in
            (fp_div nf (rx * ewald_radius) d, fp_div nf (ry * ewald_radius) d,
             ewald_radius - fp_div nf (ewald_radius * ewald_radius) d)
      | FourierPlane2D \<Rightarrow> if z \<noteq> 0 then (0, 0, 0) else (rx, ry, 0)
      | FourierGrid3D \<Rightarrow> (rx, ry, rz))"

text \<open>
  The three matrices, and the image with its centre moved to a pixel.  For the two flat types only
  the first plane of the matrices, which are allocated with zeros, is set.
\<close>

definition coordinate_matrix :: "image \<Rightarrow> (nat \<Rightarrow> nat \<Rightarrow> nat \<Rightarrow> real) \<Rightarrow> sp_3matrix" where
  "coordinate_matrix a f =
     \<lparr>matrix_x = size_x a, matrix_y = size_y a, matrix_z = size_z a,
      matrix_data = map (\<lambda>i. f (i mod size_x a) (i div size_x a mod size_y a) (i div (size_x a * size_y a)))
        [0..<size_x a * size_y a * size_z a]\<rparr>"

definition image_fourier_coords ::
  "(real \<Rightarrow> real) \<Rightarrow> image \<Rightarrow> geometry \<Rightarrow> image_type \<Rightarrow> sp_3matrix \<times> sp_3matrix \<times> sp_3matrix" where
  "image_fourier_coords nf a g ty =
     (coordinate_matrix a (\<lambda>x y z. fst (fourier_coords nf a g ty x y z)),
      coordinate_matrix a (\<lambda>x y z. fst (snd (fourier_coords nf a g ty x y z))),
      coordinate_matrix a (\<lambda>x y z. snd (snd (fourier_coords nf a g ty x y z))))"

section \<open>Miller indices\<close>

record reflection_cell =
  cell_a :: real
  cell_b :: real
  cell_c :: real

definition zero_or_abort :: "real \<Rightarrow> unit result" where
  "zero_or_abort v = (if v = 0 then Inr () else Inl Abort)"

definition divided :: "(real \<Rightarrow> real) \<Rightarrow> real \<Rightarrow> sp_3matrix \<Rightarrow> real list" where
  "divided nf d m = map (\<lambda>v. fp_div nf v d) (matrix_data m)"

text \<open>The cell is that of the pixel one stride away from the centre along each axis.\<close>

definition image_fourier_coords_to_hkl ::
  "(real \<Rightarrow> real) \<Rightarrow> int \<times> int \<times> int \<Rightarrow> int \<Rightarrow> sp_3matrix \<times> sp_3matrix \<times> sp_3matrix
    \<Rightarrow> (reflection_cell \<times> real list \<times> real list \<times> real list) result" where
  "image_fourier_coords_to_hkl nf center s ks =
     (let (cx, cy, cz) = center; (k_x, k_y, k_z) = ks in
      bind_result (sp_3matrix_get k_x cx cy cz) (\<lambda>v. bind_result (zero_or_abort v) (\<lambda>_.
      bind_result (sp_3matrix_get k_y cx cy cz) (\<lambda>v. bind_result (zero_or_abort v) (\<lambda>_.
      bind_result (sp_3matrix_get k_z cx cy cz) (\<lambda>v. bind_result (zero_or_abort v) (\<lambda>_.
      bind_result (sp_3matrix_get k_x (cx + s) cy cz) (\<lambda>a.
      bind_result (sp_3matrix_get k_y cx (cy + s) cz) (\<lambda>b.
      bind_result (sp_3matrix_get k_z cx cy (cz + s)) (\<lambda>c.
        Inr (\<lparr>cell_a = fp_div nf 1 \<bar>a\<bar>, cell_b = fp_div nf 1 \<bar>b\<bar>, cell_c = fp_div nf 1 \<bar>c\<bar>\<rparr>,
             divided nf \<bar>a\<bar> k_x, divided nf \<bar>b\<bar> k_y, divided nf \<bar>c\<bar> k_z)))))))))))"

section \<open>The list of reflections\<close>

text \<open>
  A line for every pixel whose indices are integers within a hundredth.  With an object the
  differences are tested without their absolute values, which the fraction of a negative number passes.
\<close>

record reflection_lib =
  read_pattern :: "string \<Rightarrow> (image \<times> geometry) option"
  phase_angle :: "complex \<Rightarrow> real"

datatype reflection =
    Intensity int int int real
  | Structure_Factor int int int real real real real

definition fraction_part :: "real \<Rightarrow> real" where
  "fraction_part r = r - real_of_int (c_int_of_real r)"

definition intensity_lines :: "image \<Rightarrow> real list \<times> real list \<times> real list \<Rightarrow> reflection list" where
  "intensity_lines a hkl =
     (let (H, K, L) = hkl in
      [Intensity (c_round (H ! i)) (c_round (K ! i)) (c_round (L ! i)) (sp_real (pixels a ! i)).
        i \<leftarrow> [0..<size_x a * size_y a * size_z a],
        \<bar>fraction_part (H ! i)\<bar> < 1 / 100 \<and> \<bar>fraction_part (K ! i)\<bar> < 1 / 100 \<and> \<bar>fraction_part (L ! i)\<bar> < 1 / 100])"

text \<open>The pixel of the transform of the object at the same offset from its own centre.\<close>

definition object_pixel :: "image \<Rightarrow> int \<times> int \<times> int \<Rightarrow> image \<Rightarrow> nat \<Rightarrow> complex result" where
  "object_pixel a center Fc i =
     (let (cx, cy, cz) = center;
          lx = int (i mod size_x a) - cx; ly = int (i div size_x a mod size_y a) - cy;
          lz = int (i div (size_x a * size_y a)) - cz;
          x = c_int_of_real (real_of_int lx + image_center Fc ! 0); y = c_int_of_real (real_of_int ly + image_center Fc ! 1);
          z = c_int_of_real (real_of_int lz + image_center Fc ! 2)
      in array_get (pixels Fc) (z * int (size_y Fc) * int (size_x Fc) + y * int (size_x Fc) + x))"

definition factor_lines ::
  "reflection_lib \<Rightarrow> real \<Rightarrow> image \<Rightarrow> int \<times> int \<times> int \<Rightarrow> image \<Rightarrow> real list \<times> real list \<times> real list
    \<Rightarrow> reflection list result" where
  "factor_lines lib sg a center Fc hkl =
     (let (H, K, L) = hkl in
      fold_result (\<lambda>i lines.
          bind_result (object_pixel a center Fc i) (\<lambda>F.
            Inr (if fraction_part (H ! i) < 1 / 100 \<and> fraction_part (K ! i) < 1 / 100 \<and> fraction_part (L ! i) < 1 / 100
              then lines @ [Structure_Factor (- c_round (H ! i)) (c_round (K ! i)) (c_round (L ! i))
                     (sp_real (pixels a ! i)) sg (sp_cabs F) (phase_angle lib F * 180 / pi)]
              else lines)))
        [0..<size_x a * size_y a * size_z a] [])"

definition print_output ::
  "spimage \<Rightarrow> reflection_lib \<Rightarrow> real \<Rightarrow> image \<Rightarrow> int \<times> int \<times> int \<Rightarrow> image option
    \<Rightarrow> real list \<times> real list \<times> real list \<Rightarrow> reflection list result" where
  "print_output sp lib sg a center Fc hkl =
     (case Fc of
        None \<Rightarrow> Inr (intensity_lines a hkl)
      | Some Fc \<Rightarrow> factor_lines lib sg a center (if shifted Fc then sp_image_shift sp Fc else Fc) hkl)"

definition chosen_geometry :: "reflection_options \<Rightarrow> geometry \<Rightarrow> geometry" where
  "chosen_geometry opts g =
     g\<lparr>beam_wavelength := (if opt_wavelength opts > 0 then opt_wavelength opts else beam_wavelength g),
       sample_distance := (if opt_distance opts > 0 then opt_distance opts else sample_distance g),
       pixel_width := (if opt_px opts > 0 then opt_px opts else pixel_width g),
       pixel_height := (if opt_py opts > 0 then opt_py opts else pixel_height g),
       pixel_depth := (if opt_pz opts > 0 then opt_pz opts else pixel_depth g)\<rparr>"

definition reflections_main ::
  "spimage \<Rightarrow> reflection_lib \<Rightarrow> (string \<Rightarrow> real) \<Rightarrow> (string \<Rightarrow> int) \<Rightarrow> (char \<times> string) list
    \<Rightarrow> (reflection_cell \<times> reflection list) result" where
  "reflections_main sp lib atof atoi args =
     bind_result (reflection_parse_options atof atoi args) (\<lambda>opts.
       if intensity_filename opts = [] then Inl (Exit 0)
       else case read_pattern lib (intensity_filename opts) of
         None \<Rightarrow> Inl (Fatal ''Cannot open file: %s'')
       | Some (a, g) \<Rightarrow>
           bind_result (if object_filename opts = [] then Inr None
               else case read_pattern lib (object_filename opts) of
                 None \<Rightarrow> Inl (Fatal ''Cannot open file: %s'')
               | Some (ob, _) \<Rightarrow> Inr (Some (sp_image_fft sp ob))) (\<lambda>Fc.
             let g = chosen_geometry opts g; center = integer_center g in
             bind_result (image_fourier_coords_to_hkl (nonfinite sp) center (stride opts)
                 (image_fourier_coords (nonfinite sp) a g FourierGrid3D)) (\<lambda>(cell, hkl).
             bind_result (print_output sp lib (sigma opts) a center Fc hkl) (\<lambda>lines.
               Inr (cell, lines)))))"

section \<open>Points on the Ewald sphere\<close>

lemma scaled_to_sphere:
  fixes rx ry R d :: real
  assumes "d\<^sup>2 = rx\<^sup>2 + ry\<^sup>2 + R\<^sup>2" and "d \<noteq> 0"
  shows "(rx * R / d)\<^sup>2 + (ry * R / d)\<^sup>2 + (R * R / d)\<^sup>2 = R\<^sup>2"
proof -
  have "(rx * R / d)\<^sup>2 + (ry * R / d)\<^sup>2 + (R * R / d)\<^sup>2 = (rx\<^sup>2 + ry\<^sup>2 + R\<^sup>2) * R\<^sup>2 / d\<^sup>2"
    by (simp add: power_divide power_mult_distrib add_divide_distrib algebra_simps)
  also have "\<dots> = d\<^sup>2 * R\<^sup>2 / d\<^sup>2" unfolding assms(1) ..
  also have "\<dots> = R\<^sup>2" using assms(2) by simp
  finally show ?thesis .
qed

text \<open>
  The coordinates of the pixels of a flat detector lie on the sphere of
  radius one over the wavelength that touches the origin.
\<close>

lemma coordinates_on_ewald_sphere:
  assumes "0 < beam_wavelength g" and "fourier_coords nf a g FourierEwald2D x y 0 = (kx, ky, kz)"
  shows "kx\<^sup>2 + ky\<^sup>2 + (kz - 1 / beam_wavelength g)\<^sup>2 = (1 / beam_wavelength g)\<^sup>2"
proof -
  let ?R = "1 / beam_wavelength g"
  obtain rx ry rz where r: "reciprocal nf a g x y 0 = (rx, ry, rz)" by (cases "reciprocal nf a g x y 0")
  let ?d = "sqrt (rx * rx + ry * ry + ?R * ?R)"
  have R: "0 < ?R" using assms(1) by simp
  have nonneg: "0 \<le> rx * rx + ry * ry" by simp
  then have pos: "0 < rx * rx + ry * ry + ?R * ?R" using R by (simp add: add_nonneg_pos)
  then have d: "?d\<^sup>2 = rx\<^sup>2 + ry\<^sup>2 + ?R\<^sup>2" "?d \<noteq> 0" by (simp_all add: power2_eq_square)
  have "fp_sqrt nf (rx * rx + ry * ry + ?R * ?R) = ?d" using pos by (intro fp_sqrt_nonneg) simp
  then have "fourier_coords nf a g FourierEwald2D x y 0 = (rx * ?R / ?d, ry * ?R / ?d, ?R - ?R * ?R / ?d)"
    using d(2) assms(1) by (simp add: fourier_coords_def r Let_def)
  with assms(2) have "kx = rx * ?R / ?d" "ky = ry * ?R / ?d" "kz - ?R = - (?R * ?R / ?d)" by auto
  then show ?thesis using scaled_to_sphere [OF d] by (simp only: power2_minus)
qed

definition small_detector :: geometry where
  "small_detector = \<lparr>pixel_width = 1, pixel_height = 1, pixel_depth = 1, sample_distance = 1, beam_wavelength = 1,
     beam_center = (1, 1, 0)\<rparr>"

definition row_pattern :: "nat \<Rightarrow> nat \<Rightarrow> nat \<Rightarrow> image" where
  "row_pattern nx ny nz = \<lparr>pixels = replicate (nx * ny * nz) 1, mask_data = replicate (nx * ny * nz) 1, size_x = nx,
     size_y = ny, size_z = nz, shifted = False, image_center = [0, 0, 0]\<rparr>"

lemma coordinates_on_ewald_sphere_witness:
  "\<exists>kx ky kz. fourier_coords (\<lambda>r. r) (row_pattern 3 3 1) small_detector FourierEwald2D 2 1 0 = (kx, ky, kz)
    \<and> kx\<^sup>2 + ky\<^sup>2 + (kz - 1)\<^sup>2 = 1"
proof -
  obtain kx ky kz where
    k: "fourier_coords (\<lambda>r. r) (row_pattern 3 3 1) small_detector FourierEwald2D 2 1 0 = (kx, ky, kz)"
    by (cases "fourier_coords (\<lambda>r. r) (row_pattern 3 3 1) small_detector FourierEwald2D 2 1 0")
  then show ?thesis using coordinates_on_ewald_sphere [OF _ k] by (simp add: small_detector_def)
qed

section \<open>Offsets as Miller indices\<close>

lemma decode_index:
  fixes x y z nx ny :: nat
  assumes "x < nx" and "y < ny"
  shows "(z * ny * nx + y * nx + x) mod nx = x" and "(z * ny * nx + y * nx + x) div nx mod ny = y"
    and "(z * ny * nx + y * nx + x) div (nx * ny) = z"
proof -
  have eq: "z * ny * nx + y * nx + x = (z * ny + y) * nx + x" by (simp add: algebra_simps)
  have div: "(z * ny * nx + y * nx + x) div nx = z * ny + y" using assms(1) unfolding eq by simp
  show "(z * ny * nx + y * nx + x) mod nx = x" using assms(1) unfolding eq by simp
  show "(z * ny * nx + y * nx + x) div nx mod ny = y" using assms(2) unfolding div by simp
  show "(z * ny * nx + y * nx + x) div (nx * ny) = z" using assms(2) unfolding div_mult2_eq div by simp
qed

lemma index_less:
  fixes x y z nx ny nz :: nat
  assumes "x < nx" and "y < ny" and "z < nz"
  shows "z * ny * nx + y * nx + x < nx * ny * nz"
proof -
  have "y * nx + x < ny * nx" using assms(1,2)
    by (metis add.commute add_less_cancel_left less_le_trans mult_Suc mult_le_mono1 Suc_leI)
  then have "z * ny * nx + y * nx + x < Suc z * (ny * nx)" by simp
  also have "\<dots> \<le> nz * (ny * nx)" using assms(3) by (intro mult_le_mono1) simp
  finally show ?thesis by (simp add: mult_ac)
qed

lemma coordinate_at:
  assumes "x < size_x a" and "y < size_y a" and "z < size_z a"
  shows "sp_3matrix_get (coordinate_matrix a f) (int x) (int y) (int z) = Inr (f x y z)"
proof -
  have "int z * int (size_y a) * int (size_x a) + int y * int (size_x a) + int x
      = int (z * size_y a * size_x a + y * size_x a + x)"
    by simp
  then have "sp_3matrix_get (coordinate_matrix a f) (int x) (int y) (int z)
      = array_get (matrix_data (coordinate_matrix a f)) (int (z * size_y a * size_x a + y * size_x a + x))"
    by (simp add: sp_3matrix_get_def matrix_index_def coordinate_matrix_def)
  also have "\<dots> = Inr (f x y z)"
    using index_less [OF assms] decode_index [OF assms(1,2), of z]
    by (subst array_get_nat) (simp_all add: coordinate_matrix_def)
  finally show ?thesis .
qed

lemma c_round_of_int [simp]: "c_round (real_of_int k) = k"
  by (simp add: c_round_def floor_unique ceiling_unique)




text \<open>
  A pattern of a single plane has no pixel one stride behind its centre, and
  the program reads the depth of the cell from there: every flat pattern ends in a read outside
  the matrix.
\<close>

lemma flat_patterns_out_of_bounds:
  assumes "size_z a = 1" and "integer_center g = (int cx, int cy, 0)" and "0 < s"
    and "cx + s < size_x a" and "cy + s < size_y a"
  shows "image_fourier_coords_to_hkl nf (int cx, int cy, 0) (int s) (image_fourier_coords nf a g FourierGrid3D)
    = Inl Out_Of_Bounds"
proof -
  define fx where "fx = (\<lambda>x y z. fst (fourier_coords nf a g FourierGrid3D x y z))"
  define fy where "fy = (\<lambda>x y z. fst (snd (fourier_coords nf a g FourierGrid3D x y z)))"
  define fz where "fz = (\<lambda>x y z. snd (snd (fourier_coords nf a g FourierGrid3D x y z)))"
  have ks: "image_fourier_coords nf a g FourierGrid3D = (coordinate_matrix a fx, coordinate_matrix a fy, coordinate_matrix a fz)"
    by (simp add: image_fourier_coords_def fx_def fy_def fz_def)
  have center: "fx cx cy 0 = 0" "fy cx cy 0 = 0" "fz cx cy 0 = 0"
    by (simp_all add: fx_def fy_def fz_def fourier_coords_def reciprocal_def assms(2) Let_def)
  have range: "cx < size_x a" "cy < size_y a" "0 < size_z a" using assms by simp_all
  have at_center: "sp_3matrix_get (coordinate_matrix a f) (int cx) (int cy) 0 = Inr (f cx cy 0)" for f
    using coordinate_at [OF range, of f] by simp
  have next_xy: "sp_3matrix_get (coordinate_matrix a fx) (int cx + int s) (int cy) 0 = Inr (fx (cx + s) cy 0)"
    "sp_3matrix_get (coordinate_matrix a fy) (int cx) (int cy + int s) 0 = Inr (fy cx (cy + s) 0)"
    using coordinate_at [OF assms(4) range(2,3), of fx] coordinate_at [OF range(1) assms(5) range(3), of fy] by simp_all
  have "int (size_x a) * int (size_y a) \<le> int s * int (size_y a) * int (size_x a)"
    using assms(3) by (simp add: mult.commute mult_left_mono flip: of_nat_mult)
  moreover have "0 \<le> int cy * int (size_x a) + int cx" by simp
  ultimately have "\<not> int s * int (size_y a) * int (size_x a) + int cy * int (size_x a) + int cx < int (size_x a * size_y a)"
    unfolding of_nat_mult by linarith
  then have "sp_3matrix_get (coordinate_matrix a fz) (int cx) (int cy) (int s) = Inl Out_Of_Bounds"
    using assms(1) by (simp add: sp_3matrix_get_def matrix_index_def coordinate_matrix_def array_get_def)
  then show ?thesis
    by (simp add: image_fourier_coords_to_hkl_def ks at_center next_xy center zero_or_abort_def)
qed

lemma flat_patterns_out_of_bounds_witness:
  "image_fourier_coords_to_hkl (\<lambda>r. r) (1, 1, 0) 1 (image_fourier_coords (\<lambda>r. r) (row_pattern 3 3 1) small_detector FourierGrid3D)
    = Inl Out_Of_Bounds"
proof -
  have "integer_center small_detector = (int 1, int 1, 0)"
    using c_round_of_int [of 1] c_round_of_int [of 0]
    by (simp_all add: small_detector_def integer_center_def del: c_round_of_int)
  then show ?thesis
    using flat_patterns_out_of_bounds [of "row_pattern 3 3 1" small_detector 1 1 1 "\<lambda>r. r"] by (simp add: row_pattern_def)
qed

end
