(* ===== verification/Config_Text.thy ===== *)
theory Config_Text
  imports Config_Tree
begin

text \<open>
  The writer of configuration files (\<open>__config_write_value\<close>, \<open>__config_write_setting\<close> and
  \<open>config_write\<close> in \<open>src/libconfig/libconfig.c\<close>) and the output formats.  The format of an
  integer is kept beside the tree, under the handle of its setting.  \<open>print_e\<close> is the output of
  the C library for \<open>"%e"\<close>; integers are printed here.
\<close>

section \<open>Formats and elements\<close>

datatype config_format = CONFIG_FORMAT_DEFAULT | CONFIG_FORMAT_HEX

type_synonym formats = "handle \<Rightarrow> config_format"

definition config_setting_set_format :: "content \<Rightarrow> handle \<Rightarrow> config_format \<Rightarrow> formats \<Rightarrow> formats" where
  "config_setting_set_format t h f formats =
     (case node t h of Some (C_Int i) \<Rightarrow> formats(h := f) | _ \<Rightarrow> formats)"

definition config_setting_get_format :: "handle \<Rightarrow> formats \<Rightarrow> config_format" where
  "config_setting_get_format h formats = formats h"

definition config_setting_get_bool_elem :: "content \<Rightarrow> nat \<Rightarrow> int" where
  "config_setting_get_bool_elem c i =
     (case config_setting_get_elem c i of None \<Rightarrow> 0 | Some e \<Rightarrow> config_setting_get_bool e)"

definition config_setting_get_string_elem :: "content \<Rightarrow> nat \<Rightarrow> string option" where
  "config_setting_get_string_elem c i = Option.bind (config_setting_get_elem c i) config_setting_get_string"

definition config_setting_set_bool_elem :: "content \<Rightarrow> handle \<Rightarrow> int \<Rightarrow> int \<Rightarrow> (content \<times> handle) option" where
  "config_setting_set_bool_elem t h i v =
     set_elem t h i CONFIG_TYPE_BOOL (\<lambda>c. config_setting_set_bool c v)"

definition config_setting_set_string_elem ::
  "content \<Rightarrow> handle \<Rightarrow> int \<Rightarrow> string option \<Rightarrow> (content \<times> handle) option" where
  "config_setting_set_string_elem t h i v =
     set_elem t h i CONFIG_TYPE_STRING (\<lambda>c. config_setting_set_string c v)"

section \<open>Printing numbers and strings\<close>

definition digit_char :: "nat \<Rightarrow> char" where
  "digit_char d = ''0123456789ABCDEF'' ! d"

function digits :: "nat \<Rightarrow> nat \<Rightarrow> string" where
  "digits base n =
     (if n < base \<or> base < 2 then [digit_char n] else digits base (n div base) @ [digit_char (n mod base)])"
  by pat_completeness auto
termination
  by (relation "measure snd") auto

declare digits.simps [simp del]

text \<open>The conversions \<open>%ld\<close> and \<open>0x%lX\<close>, the latter of a \<open>long\<close> cast to \<open>unsigned long\<close>.\<close>

definition print_ld :: "int \<Rightarrow> string" where
  "print_ld i = (if i < 0 then CHR ''-'' # digits 10 (nat (- i)) else digits 10 (nat i))"

definition print_lX :: "int \<Rightarrow> string" where
  "print_lX i = ''0x'' @ digits 16 (nat (i mod 2 ^ 64))"

fun write_char :: "char \<Rightarrow> string" where
  "write_char c =
     (if c = CHR 0x22 \<or> c = CHR 0x5C then [CHR 0x5C, c]
      else if c = CHR 0x0A then [CHR 0x5C, CHR ''n'']
      else if c = CHR 0x0D then [CHR 0x5C, CHR ''r'']
      else if c = CHR 0x0C then [CHR 0x5C, CHR ''f'']
      else if c = CHR 0x09 then [CHR 0x5C, CHR ''t'']
      else [c])"

definition write_string :: "string option \<Rightarrow> string" where
  "write_string s =
     CHR 0x22 # (case s of None \<Rightarrow> [] | Some s \<Rightarrow> concat (map write_char s)) @ [CHR 0x22]"

section \<open>Writing a tree\<close>

definition blanks :: "nat \<Rightarrow> string" where
  "blanks depth = (if 1 < depth then replicate ((depth - 1) * 2) (CHR '' '') else [])"

text \<open>
  \<open>write_elements\<close> is the loop over the elements of a list or an array, \<open>write_settings\<close> the
  one over the members of a group.
\<close>

fun config_write_value :: "(real \<Rightarrow> string) \<Rightarrow> formats \<Rightarrow> handle \<Rightarrow> nat \<Rightarrow> content \<Rightarrow> string"
  and write_elements :: "(real \<Rightarrow> string) \<Rightarrow> formats \<Rightarrow> handle \<Rightarrow> nat \<Rightarrow> nat \<Rightarrow> setting list \<Rightarrow> string"
  and write_settings :: "(real \<Rightarrow> string) \<Rightarrow> formats \<Rightarrow> handle \<Rightarrow> nat \<Rightarrow> nat \<Rightarrow> setting list \<Rightarrow> string"
  and config_write_setting :: "(real \<Rightarrow> string) \<Rightarrow> formats \<Rightarrow> handle \<Rightarrow> nat \<Rightarrow> setting \<Rightarrow> string" where
  "config_write_value print_e formats h depth (C_Bool b) = (if b \<noteq> 0 then ''true'' else ''false'')"
| "config_write_value print_e formats h depth (C_Int i) =
     (case formats h of CONFIG_FORMAT_HEX \<Rightarrow> print_lX i | CONFIG_FORMAT_DEFAULT \<Rightarrow> print_ld i)"
| "config_write_value print_e formats h depth (C_Float x) = print_e x"
| "config_write_value print_e formats h depth (C_String s) = write_string s"
| "config_write_value print_e formats h depth (C_List ss) =
     ''( '' @ write_elements print_e formats h (depth + 1) 0 ss @ '')''"
| "config_write_value print_e formats h depth (C_Array ss) =
     ''[ '' @ write_elements print_e formats h (depth + 1) 0 ss @ '']''"
| "config_write_value print_e formats h depth (C_Group ss) =
     (if 0 < depth then CHR 0x0A # blanks depth @ [CHR ''{'', CHR 0x0A] else [])
     @ write_settings print_e formats h (depth + 1) 0 ss
     @ blanks depth @ (if 0 < depth then ''}'' else [])"
| "config_write_value print_e formats h depth C_None = ''???''"
| "write_elements print_e formats h depth i [] = []"
| "write_elements print_e formats h depth i (Setting name c # ss) =
     config_write_value print_e formats (h @ [i]) depth c @ (if ss \<noteq> [] then '','' else []) @ '' ''
     @ write_elements print_e formats h depth (Suc i) ss"
| "write_settings print_e formats h depth i [] = []"
| "write_settings print_e formats h depth i (s # ss) =
     config_write_setting print_e formats (h @ [i]) depth s
     @ write_settings print_e formats h depth (Suc i) ss"
| "config_write_setting print_e formats h depth (Setting name c) =
     blanks depth
     @ (case name of
          None \<Rightarrow> []
        | Some n \<Rightarrow> n @ '' '' @ [if config_setting_type c = CONFIG_TYPE_GROUP then CHR '':'' else CHR ''=''] @ '' '')
     @ config_write_value print_e formats h depth c
     @ (if 0 < depth then [CHR '';'', CHR 0x0A] else [])"

definition config_write :: "(real \<Rightarrow> string) \<Rightarrow> formats \<Rightarrow> content \<Rightarrow> string" where
  "config_write print_e formats t = config_write_setting print_e formats [] 0 (Setting None t)"

end
