(* ===== verification/Config_Scanner.thy ===== *)
theory Config_Scanner
  imports Prelude "HOL-Library.While_Combinator"
begin

text \<open>
  The scanner of the configuration library (\<open>src/libconfig/scanner.c\<close>, generated by flex): the
  text of a configuration file is cut into tokens by an automaton with compressed tables.
  The tables and the loop over them are translated as they stand.  The first part of the
  lemmas shows that the scanner ends on every text, the second what it makes of the pieces a
  configuration file is written in.
\<close>

section \<open>The automaton\<close>

text \<open>
  The tables of the automaton.  \<open>yy_ec\<close> sorts the characters into classes; a state \<open>s\<close> takes
  class \<open>c\<close> to the entry \<open>yy_base ! s + c\<close> of \<open>yy_nxt\<close> where \<open>yy_chk\<close> names \<open>s\<close>, and otherwise
  does as its default \<open>yy_def ! s\<close> does, the templates from 112 on reading the coarser class
  \<open>yy_meta ! c\<close>.
\<close>

definition yy_accept :: "nat list" where
  "yy_accept =
    [0, 0, 0, 0, 0, 25, 23, 5, 5, 23, 23, 19, 20, 12, 23, 7, 23, 23, 14, 14,
     6, 21, 12, 12, 17, 18, 12, 12, 8, 9, 3, 4, 3, 5, 0, 16, 0, 0, 22, 12,
     0, 14, 13, 1, 0, 0, 12, 12, 12, 12, 2, 0, 0, 0, 0, 0, 15, 12, 12, 12,
     12, 0, 16, 0, 0, 0, 0, 0, 13, 12, 10, 12, 0, 0, 11, 0, 0, 0, 0, 0,
     0, 16, 0, 0, 0, 0, 0, 0, 0, 0, 16, 0, 0, 0, 0, 0, 0, 0, 0, 16,
     0, 0, 0, 0, 0, 0, 0, 16, 0, 0, 0, 0]"

definition yy_ec :: "nat list" where
  "yy_ec =
    [0, 1, 1, 1, 1, 1, 1, 1, 1, 2, 3, 1, 2, 2, 1, 1, 1, 1, 1, 1,
     1, 1, 1, 1, 1, 1, 1, 1, 1, 1, 1, 1, 2, 1, 4, 5, 1, 1, 1, 1,
     6, 7, 8, 9, 10, 11, 12, 13, 14, 15, 15, 15, 15, 15, 15, 15, 15, 15, 16, 17,
     1, 18, 1, 1, 1, 19, 20, 20, 20, 21, 22, 23, 23, 23, 23, 23, 24, 23, 23, 23,
     23, 23, 25, 26, 27, 28, 23, 23, 29, 23, 23, 30, 31, 32, 1, 33, 1, 34, 20, 20,
     20, 35, 36, 23, 23, 23, 23, 23, 37, 23, 23, 23, 23, 23, 38, 39, 40, 41, 23, 23,
     29, 23, 23, 42, 1, 43, 1, 1, 1, 1, 1, 1, 1, 1, 1, 1, 1, 1, 1, 1,
     1, 1, 1, 1, 1, 1, 1, 1, 1, 1, 1, 1, 1, 1, 1, 1, 1, 1, 1, 1,
     1, 1, 1, 1, 1, 1, 1, 1, 1, 1, 1, 1, 1, 1, 1, 1, 1, 1, 1, 1,
     1, 1, 1, 1, 1, 1, 1, 1, 1, 1, 1, 1, 1, 1, 1, 1, 1, 1, 1, 1,
     1, 1, 1, 1, 1, 1, 1, 1, 1, 1, 1, 1, 1, 1, 1, 1, 1, 1, 1, 1,
     1, 1, 1, 1, 1, 1, 1, 1, 1, 1, 1, 1, 1, 1, 1, 1, 1, 1, 1, 1,
     1, 1, 1, 1, 1, 1, 1, 1, 1, 1, 1, 1, 1, 1, 1, 1]"

definition yy_meta :: "nat list" where
  "yy_meta =
    [0, 1, 1, 1, 1, 1, 1, 1, 2, 1, 1, 2, 1, 1, 3, 3, 1, 1, 1, 3,
     3, 3, 3, 2, 2, 2, 2, 2, 2, 2, 1, 1, 1, 2, 3, 3, 3, 2, 2, 2,
     2, 2, 1, 1]"

definition yy_base :: "nat list" where
  "yy_base =
    [0, 0, 0, 41, 42, 248, 436, 44, 49, 44, 239, 436, 436, 0, 41, 436, 43, 46, 48, 52,
     436, 436, 221, 213, 436, 436, 201, 188, 436, 436, 436, 436, 205, 66, 57, 68, 209, 208, 436, 0,
     64, 68, 70, 436, 206, 0, 184, 176, 162, 150, 436, 90, 70, 179, 89, 95, 0, 155, 157, 107,
     100, 82, 112, 131, 123, 116, 103, 75, 84, 87, 0, 52, 68, 99, 0, 128, 135, 92, 119, 134,
     120, 150, 152, 141, 142, 154, 151, 182, 166, 212, 242, 169, 188, 219, 226, 172, 158, 185, 202, 249,
     255, 186, 252, 194, 285, 315, 345, 375, 233, 263, 266, 436, 406, 409, 412, 414, 62, 417, 420, 423,
     426, 429, 432]"

definition yy_def :: "nat list" where
  "yy_def =
    [0, 111, 1, 112, 112, 111, 111, 111, 111, 113, 114, 111, 111, 115, 111, 111, 111, 111, 111, 111,
     111, 111, 115, 115, 111, 111, 115, 115, 111, 111, 111, 111, 111, 111, 113, 111, 113, 114, 111, 115,
     111, 111, 111, 111, 114, 116, 115, 115, 115, 115, 111, 111, 117, 118, 111, 111, 116, 115, 115, 115,
     115, 117, 111, 117, 118, 111, 119, 111, 111, 115, 115, 115, 119, 119, 115, 119, 119, 120, 121, 119,
     120, 119, 120, 120, 121, 121, 119, 120, 121, 120, 120, 122, 120, 121, 119, 122, 121, 121, 122, 121,
     122, 122, 120, 121, 122, 122, 120, 122, 122, 122, 122, 0, 111, 111, 111, 111, 111, 111, 111, 111,
     111, 111, 111]"

definition yy_nxt :: "nat list" where
  "yy_nxt =
    [0, 6, 7, 8, 9, 10, 11, 12, 13, 14, 15, 14, 16, 17, 18, 19, 20, 21, 20, 13,
     13, 13, 22, 13, 13, 13, 13, 23, 13, 13, 24, 6, 25, 6, 13, 13, 26, 13, 13, 13,
     27, 13, 28, 29, 31, 31, 33, 33, 35, 32, 32, 33, 33, 40, 43, 41, 41, 42, 42, 44,
     40, 35, 41, 41, 40, 56, 41, 41, 33, 33, 51, 51, 52, 53, 62, 36, 73, 45, 42, 42,
     40, 54, 41, 41, 42, 42, 62, 74, 36, 68, 68, 55, 51, 51, 52, 53, 81, 66, 68, 68,
     82, 63, 53, 54, 67, 55, 67, 73, 74, 68, 68, 73, 75, 63, 51, 51, 52, 53, 51, 51,
     52, 53, 75, 83, 81, 54, 65, 85, 82, 54, 76, 76, 77, 78, 111, 70, 73, 76, 76, 77,
     78, 79, 86, 73, 72, 75, 71, 78, 79, 82, 85, 83, 76, 76, 77, 78, 81, 75, 73, 73,
     82, 75, 85, 79, 75, 87, 85, 88, 93, 94, 95, 96, 87, 99, 85, 87, 99, 100, 70, 97,
     100, 69, 65, 83, 89, 89, 90, 91, 75, 75, 82, 60, 81, 103, 100, 92, 102, 75, 96, 59,
     101, 91, 85, 101, 58, 87, 99, 88, 57, 38, 100, 38, 111, 83, 89, 89, 90, 91, 50, 83,
     82, 93, 94, 95, 96, 92, 49, 85, 76, 76, 77, 78, 97, 101, 73, 48, 87, 99, 47, 79,
     46, 100, 38, 83, 89, 89, 90, 91, 111, 111, 82, 93, 94, 95, 96, 92, 81, 85, 87, 99,
     82, 111, 97, 100, 101, 87, 87, 99, 104, 87, 99, 110, 111, 83, 100, 111, 108, 111, 111, 104,
     111, 111, 111, 83, 111, 111, 101, 105, 106, 107, 108, 111, 111, 100, 101, 111, 111, 101, 109, 111,
     111, 111, 111, 111, 111, 111, 111, 111, 111, 111, 111, 111, 111, 111, 111, 111, 101, 105, 106, 107,
     108, 111, 111, 100, 111, 111, 111, 111, 109, 111, 111, 111, 111, 111, 111, 111, 111, 111, 111, 111,
     111, 111, 111, 111, 111, 111, 101, 89, 89, 90, 91, 111, 111, 82, 111, 111, 111, 111, 92, 111,
     111, 111, 111, 111, 111, 111, 111, 111, 111, 111, 111, 111, 111, 111, 111, 111, 83, 105, 106, 107,
     108, 111, 111, 100, 111, 111, 111, 111, 109, 111, 111, 111, 111, 111, 111, 111, 111, 111, 111, 111,
     111, 111, 111, 111, 111, 111, 101, 30, 30, 30, 34, 34, 34, 37, 37, 37, 39, 39, 61, 61,
     61, 64, 64, 64, 72, 72, 72, 80, 80, 80, 84, 84, 84, 98, 98, 98, 5, 111, 111, 111,
     111, 111, 111, 111, 111, 111, 111, 111, 111, 111, 111, 111, 111, 111, 111, 111, 111, 111, 111, 111,
     111, 111, 111, 111, 111, 111, 111, 111, 111, 111, 111, 111, 111, 111, 111, 111, 111, 111, 111, 111]"

definition yy_chk :: "nat list" where
  "yy_chk =
    [0, 1, 1, 1, 1, 1, 1, 1, 1, 1, 1, 1, 1, 1, 1, 1, 1, 1, 1, 1,
     1, 1, 1, 1, 1, 1, 1, 1, 1, 1, 1, 1, 1, 1, 1, 1, 1, 1, 1, 1,
     1, 1, 1, 1, 3, 4, 7, 7, 9, 3, 4, 8, 8, 14, 17, 14, 14, 16, 16, 17,
     18, 34, 18, 18, 19, 116, 19, 19, 33, 33, 35, 35, 35, 35, 52, 9, 72, 18, 40, 40,
     41, 35, 41, 41, 42, 42, 61, 71, 34, 67, 67, 42, 51, 51, 51, 51, 77, 54, 68, 68,
     77, 52, 54, 51, 55, 42, 55, 73, 69, 55, 55, 66, 73, 61, 62, 62, 62, 62, 65, 65,
     65, 65, 78, 77, 80, 62, 64, 78, 80, 65, 75, 75, 75, 75, 63, 60, 75, 76, 76, 76,
     76, 75, 79, 76, 83, 84, 59, 79, 76, 83, 84, 80, 81, 81, 81, 81, 82, 85, 81, 86,
     82, 96, 85, 81, 86, 82, 96, 85, 88, 88, 88, 88, 91, 91, 88, 95, 95, 91, 58, 88,
     95, 57, 53, 82, 87, 87, 87, 87, 97, 101, 87, 49, 92, 97, 101, 87, 92, 103, 97, 48,
     91, 92, 103, 95, 47, 98, 98, 103, 46, 44, 98, 37, 36, 87, 89, 89, 89, 89, 32, 92,
     89, 93, 93, 93, 93, 89, 27, 93, 94, 94, 94, 94, 93, 98, 94, 26, 108, 108, 23, 94,
     22, 108, 10, 89, 90, 90, 90, 90, 5, 0, 90, 99, 99, 99, 99, 90, 102, 99, 100, 100,
     102, 0, 99, 100, 108, 102, 109, 109, 100, 110, 110, 109, 0, 90, 110, 0, 109, 0, 0, 110,
     0, 0, 0, 102, 0, 0, 100, 104, 104, 104, 104, 0, 0, 104, 109, 0, 0, 110, 104, 0,
     0, 0, 0, 0, 0, 0, 0, 0, 0, 0, 0, 0, 0, 0, 0, 0, 104, 105, 105, 105,
     105, 0, 0, 105, 0, 0, 0, 0, 105, 0, 0, 0, 0, 0, 0, 0, 0, 0, 0, 0,
     0, 0, 0, 0, 0, 0, 105, 106, 106, 106, 106, 0, 0, 106, 0, 0, 0, 0, 106, 0,
     0, 0, 0, 0, 0, 0, 0, 0, 0, 0, 0, 0, 0, 0, 0, 0, 106, 107, 107, 107,
     107, 0, 0, 107, 0, 0, 0, 0, 107, 0, 0, 0, 0, 0, 0, 0, 0, 0, 0, 0,
     0, 0, 0, 0, 0, 0, 107, 112, 112, 112, 113, 113, 113, 114, 114, 114, 115, 115, 117, 117,
     117, 118, 118, 118, 119, 119, 119, 120, 120, 120, 121, 121, 121, 122, 122, 122, 111, 111, 111, 111,
     111, 111, 111, 111, 111, 111, 111, 111, 111, 111, 111, 111, 111, 111, 111, 111, 111, 111, 111, 111,
     111, 111, 111, 111, 111, 111, 111, 111, 111, 111, 111, 111, 111, 111, 111, 111, 111, 111, 111, 111]"

section \<open>One token\<close>

definition yy_trans :: "nat \<Rightarrow> nat \<Rightarrow> nat option" where
  "yy_trans s c =
     map_option (\<lambda>(s, c). yy_nxt ! (yy_base ! s + c))
       (while_option (\<lambda>(s, c). yy_chk ! (yy_base ! s + c) \<noteq> s)
          (\<lambda>(s, c). let s' = yy_def ! s in (s', if 112 \<le> s' then yy_meta ! c else c)) (s, c))"

text \<open>
  A character is read as unsigned; the zero character, which also marks the end of the
  buffer, is looked up by \<open>yy_try_NUL_trans\<close>, in class 1.
\<close>

definition yy_class :: "char \<Rightarrow> nat" where
  "yy_class c = (if c = CHR 0x00 then 1 else yy_ec ! of_char c)"

text \<open>
  \<open>yy_match\<close> runs the automaton as far as it goes: the state, the last accepting state with the
  number of characters read there, and the number of characters read at the end.  The buffer
  and its refilling are not modelled: the text is one string.
\<close>

fun yy_match :: "nat \<Rightarrow> (nat \<times> nat) option \<Rightarrow> nat \<Rightarrow> string \<Rightarrow> (nat \<times> (nat \<times> nat) option \<times> nat) option" where
  "yy_match s accepted n [] = Some (s, accepted, n)"
| "yy_match s accepted n (c # cs) =
     (let accepted = (if yy_accept ! s \<noteq> 0 then Some (s, n) else accepted) in
      Option.bind (yy_trans s (yy_class c)) (\<lambda>s'.
        if yy_base ! s' = 436 then Some (s', accepted, n + 1) else yy_match s' accepted (n + 1) cs))"

definition yy_find_action :: "nat \<times> (nat \<times> nat) option \<times> nat \<Rightarrow> (nat \<times> nat) option" where
  "yy_find_action m =
     (case m of (s, accepted, n) \<Rightarrow>
        if yy_accept ! s \<noteq> 0 then Some (yy_accept ! s, n)
        else map_option (\<lambda>(s, n). (yy_accept ! s, n)) accepted)"

section \<open>The values of the tokens\<close>

text \<open>
  \<open>make_string\<close> takes the quotes off a string, resolves the escapes and joins the
  segments; it looks for the opening quote of the next segment without regard to the end of
  the text.
\<close>

fun skip_line :: "string \<Rightarrow> string result" where
  "skip_line [] = Inl Out_Of_Bounds"
| "skip_line (c # cs) = (if c = CHR 0x0A then Inr cs else skip_line cs)"

fun skip_comment :: "string \<Rightarrow> string result" where
  "skip_comment [] = Inl Out_Of_Bounds"
| "skip_comment (c # cs) =
     (if c = CHR ''*'' \<and> cs \<noteq> [] \<and> hd cs = CHR ''/'' then Inr (tl cs) else skip_comment cs)"

lemma skip_line_shorter: "skip_line cs = Inr ds \<Longrightarrow> length ds < length cs"
  by (induction cs) (fastforce split: if_splits)+

lemma skip_comment_shorter: "skip_comment cs = Inr ds \<Longrightarrow> length ds < length cs"
  by (induction cs) (fastforce split: if_splits)+

function next_segment :: "string \<Rightarrow> string result" where
  "next_segment [] = Inl Out_Of_Bounds"
| "next_segment (c # cs) =
     (if c = CHR 0x22 then Inr cs
      else if c = CHR ''#'' then bind_result (skip_line cs) next_segment
      else if c = CHR ''/'' then
        (if cs = [] then Inl Out_Of_Bounds
         else if hd cs = CHR ''/'' then bind_result (skip_line (tl cs)) next_segment
         else bind_result (skip_comment (tl cs)) next_segment)
      else next_segment cs)"
  by pat_completeness auto
termination
  by (relation "measure length")
     (auto dest!: skip_line_shorter skip_comment_shorter simp: neq_Nil_conv)

lemma next_segment_shorter: "next_segment cs = Inr ds \<Longrightarrow> length ds < length cs"
proof (induction cs arbitrary: ds rule: next_segment.induct)
  case (2 c cs)
  then show ?case
    by (auto split: if_splits simp: neq_Nil_conv)
       (meson skip_line_shorter skip_comment_shorter less_trans less_SucI)+
qed simp

definition escaped :: "char \<Rightarrow> char" where
  "escaped c =
     (if c = CHR ''n'' then CHR 0x0A
      else if c = CHR ''r'' then CHR 0x0D
      else if c = CHR ''f'' then CHR 0x0C
      else if c = CHR ''t'' then CHR 0x09
      else c)"

function unescape :: "bool \<Rightarrow> string \<Rightarrow> string result" where
  "unescape esc [] = Inr []"
| "unescape esc (c # cs) =
     (if c = CHR 0x5C \<and> \<not> esc then unescape True cs
      else if esc then bind_result (unescape False cs) (\<lambda>q. Inr (escaped c # q))
      else if c = CHR 0x22 then bind_result (next_segment cs) (unescape False)
      else bind_result (unescape False cs) (\<lambda>q. Inr (c # q)))"
  by pat_completeness auto
termination
  by (relation "measure (\<lambda>(esc, cs). length cs)") (auto dest!: next_segment_shorter)

definition c_string :: "string \<Rightarrow> string" where
  "c_string s = takeWhile (\<lambda>c. c \<noteq> CHR 0x00) s"

definition make_string :: "string \<Rightarrow> string result" where
  "make_string s = unescape False (butlast (c_string (tl s)))"

text \<open>
  \<open>atoi\<close> on a token of digits with a sign; a value outside \<open>int\<close> is undefined behaviour.
  \<open>strtoul\<close> saturates at \<open>ULONG_MAX\<close>, and its result is stored in a \<open>long\<close>.
\<close>

definition digit_value :: "char \<Rightarrow> int" where
  "digit_value c =
     (if c \<in> set ''0123456789'' then of_char c - 48
      else if c \<in> set ''ABCDEF'' then of_char c - 55
      else if c \<in> set ''abcdef'' then of_char c - 87
      else 16)"

fun read_digits :: "int \<Rightarrow> int \<Rightarrow> string \<Rightarrow> int" where
  "read_digits base a [] = a"
| "read_digits base a (c # cs) =
     (if digit_value c < base then read_digits base (a * base + digit_value c) cs else a)"

definition atoi :: "string \<Rightarrow> int result" where
  "atoi s =
     (let i = (if s \<noteq> [] \<and> hd s = CHR ''-'' then - read_digits 10 0 (tl s)
               else if s \<noteq> [] \<and> hd s = CHR ''+'' then read_digits 10 0 (tl s)
               else read_digits 10 0 s) in
      if - (2 ^ 31) \<le> i \<and> i < 2 ^ 31 then Inr i else Inl Overflow)"

definition strtoul_16 :: "string \<Rightarrow> int" where
  "strtoul_16 s = min (2 ^ 64 - 1) (read_digits 16 0 (drop 2 s))"

definition signed_long :: "int \<Rightarrow> int" where
  "signed_long i = signed_take_bit 63 i"

section \<open>The scanner\<close>

datatype yytokentype =
    TOK_EOF
  | TOK_BOOLEAN | TOK_INTEGER | TOK_HEX | TOK_FLOAT | TOK_STRING | TOK_NAME | TOK_EQUALS
  | TOK_NEWLINE | TOK_ARRAY_START | TOK_ARRAY_END | TOK_LIST_START | TOK_LIST_END | TOK_COMMA
  | TOK_GROUP_START | TOK_GROUP_END | TOK_END | TOK_GARBAGE

text \<open>The union of the semantic values; \<open>No_Value\<close> where nothing has been stored.\<close>

datatype yystype = No_Value | I_Val int | F_Val real | S_Val string

text \<open>
  The action of a rule: the token it returns, or \<open>None\<close> when the scanner goes on.  \<open>atof\<close>
  is the reading of a float by the C library.
\<close>

definition yy_action :: "(string \<Rightarrow> real) \<Rightarrow> nat \<Rightarrow> string \<Rightarrow> (yytokentype \<times> yystype) option result" where
  "yy_action atof act yytext =
     (if act = 6 then Inr (Some (TOK_EQUALS, No_Value))
      else if act = 7 then Inr (Some (TOK_COMMA, No_Value))
      else if act = 8 then Inr (Some (TOK_GROUP_START, No_Value))
      else if act = 9 then Inr (Some (TOK_GROUP_END, No_Value))
      else if act = 10 then Inr (Some (TOK_BOOLEAN, I_Val 1))
      else if act = 11 then Inr (Some (TOK_BOOLEAN, I_Val 0))
      else if act = 12 then Inr (Some (TOK_NAME, S_Val (c_string yytext)))
      else if act = 13 then Inr (Some (TOK_FLOAT, F_Val (atof yytext)))
      else if act = 14 then bind_result (atoi yytext) (\<lambda>i. Inr (Some (TOK_INTEGER, I_Val i)))
      else if act = 15 then Inr (Some (TOK_HEX, I_Val (signed_long (strtoul_16 yytext))))
      else if act = 16 then bind_result (make_string yytext) (\<lambda>s. Inr (Some (TOK_STRING, S_Val s)))
      else if act = 17 then Inr (Some (TOK_ARRAY_START, No_Value))
      else if act = 18 then Inr (Some (TOK_ARRAY_END, No_Value))
      else if act = 19 then Inr (Some (TOK_LIST_START, No_Value))
      else if act = 20 then Inr (Some (TOK_LIST_END, No_Value))
      else if act = 21 then Inr (Some (TOK_END, No_Value))
      else if act = 23 then Inr (Some (TOK_GARBAGE, No_Value))
      else Inr None)"

record scanner =
  yy_start :: nat
  yy_text :: string
  yylineno :: int

definition newlines :: "string \<Rightarrow> int" where
  "newlines s = int (length (filter (\<lambda>c. c = CHR 0x0A) s))"

text \<open>
  What a rule does to the scanner: it moves behind the token, rule 22 giving back the
  character that ends a comment line, counts the line ends where the rule can match one, and
  the rules 1 and 2 enter and leave the comments.
\<close>

definition yy_rule_can_match_eol :: "nat list" where
  "yy_rule_can_match_eol =
     [0, 0, 0, 0, 1, 1, 0, 0, 0, 0, 0, 0, 0, 0, 0, 0, 1, 0, 0, 0, 0, 0, 0, 0, 0]"

definition yy_advance :: "nat \<Rightarrow> nat \<Rightarrow> scanner \<Rightarrow> scanner" where
  "yy_advance act n s =
     s\<lparr>yy_start := (if act = 1 then 3 else if act = 2 then 1 else yy_start s),
       yy_text := drop (if act = 22 then n - 1 else n) (yy_text s),
       yylineno := yylineno s
         + (if yy_rule_can_match_eol ! act \<noteq> 0 then newlines (take n (yy_text s)) else 0)\<rparr>"

partial_function (option) yylex ::
  "(string \<Rightarrow> real) \<Rightarrow> scanner \<Rightarrow> ((yytokentype \<times> yystype) \<times> scanner) result option" where
  "yylex atof s =
     (if yy_text s = [] then Some (Inr ((TOK_EOF, No_Value), s))
      else case Option.bind (yy_match (yy_start s) None 0 (yy_text s)) yy_find_action of
        None \<Rightarrow> None
      | Some (act, n) \<Rightarrow>
          (case yy_action atof act (take n (yy_text s)) of
             Inl e \<Rightarrow> Some (Inl e)
           | Inr None \<Rightarrow> yylex atof (yy_advance act n s)
           | Inr (Some t) \<Rightarrow> Some (Inr (t, yy_advance act n s))))"

section \<open>Rows of the automaton\<close>

lemma yy_trans_unfold:
  "yy_trans s c =
     (if yy_chk ! (yy_base ! s + c) = s then Some (yy_nxt ! (yy_base ! s + c))
      else let s' = yy_def ! s in yy_trans s' (if 112 \<le> s' then yy_meta ! c else c))"
  unfolding yy_trans_def by (subst while_option_unfold) (simp add: Let_def)

lemma table_lengths:
  "length yy_accept = 112" "length yy_ec = 256" "length yy_meta = 44" "length yy_base = 123"
  "length yy_def = 123" "length yy_nxt = 480" "length yy_chk = 480"
  by (simp_all add: yy_accept_def yy_ec_def yy_meta_def yy_base_def yy_def_def yy_nxt_def yy_chk_def)

lemma yy_trans_row:
  assumes "yy_base ! s \<le> 436"
  shows "map (yy_trans s) [0..<44] =
    map2 (\<lambda>(k, n) t. if k = s then Some n else t)
      (zip (take 44 (drop (yy_base ! s) yy_chk)) (take 44 (drop (yy_base ! s) yy_nxt)))
      (if 112 \<le> yy_def ! s then map (yy_trans (yy_def ! s)) yy_meta else map (yy_trans (yy_def ! s)) [0..<44])"
proof (rule nth_equalityI)
  fix i
  assume "i < length (map (yy_trans s) [0..<44])"
  then show "map (yy_trans s) [0..<44] ! i =
    map2 (\<lambda>(k, n) t. if k = s then Some n else t)
      (zip (take 44 (drop (yy_base ! s) yy_chk)) (take 44 (drop (yy_base ! s) yy_nxt)))
      (if 112 \<le> yy_def ! s then map (yy_trans (yy_def ! s)) yy_meta else map (yy_trans (yy_def ! s)) [0..<44]) ! i"
    using assms by (simp add: yy_trans_unfold [of s] Let_def table_lengths)
qed (use assms in \<open>simp add: table_lengths\<close>)

lemma yy_classes:
  "[0..<44] =
    [0, 1, 2, 3, 4, 5, 6, 7, 8, 9, 10, 11, 12, 13, 14, 15, 16, 17, 18, 19, 20, 21, 22, 23, 24, 25,
     26, 27, 28, 29, 30, 31, 32, 33, 34, 35, 36, 37, 38, 39, 40, 41, 42, (43 :: nat)]"
  by (simp add: upt_conv_Cons)

lemmas yy_row_simps = yy_chk_def yy_nxt_def yy_meta_def yy_classes

text \<open>The templates and the state in which the automaton jams.\<close>

lemma yy_bases [simp]:
  "yy_base ! 1 = 0" "yy_base ! 3 = 41" "yy_base ! 7 = 44" "yy_base ! 8 = 49"
  "yy_base ! 9 = 44" "yy_base ! 10 = 239" "yy_base ! 13 = 0" "yy_base ! 14 = 41"
  "yy_base ! 18 = 48" "yy_base ! 19 = 52" "yy_base ! 22 = 221" "yy_base ! 23 = 213"
  "yy_base ! 26 = 201" "yy_base ! 27 = 188" "yy_base ! 33 = 66" "yy_base ! 34 = 57"
  "yy_base ! 35 = 68" "yy_base ! 36 = 209" "yy_base ! 37 = 208" "yy_base ! 39 = 0"
  "yy_base ! 40 = 64" "yy_base ! 41 = 68" "yy_base ! 42 = 70" "yy_base ! 45 = 0"
  "yy_base ! 46 = 184" "yy_base ! 47 = 176" "yy_base ! 48 = 162" "yy_base ! 49 = 150"
  "yy_base ! 51 = 90" "yy_base ! 55 = 95" "yy_base ! 56 = 0" "yy_base ! 57 = 155"
  "yy_base ! 58 = 157" "yy_base ! 59 = 107" "yy_base ! 60 = 100" "yy_base ! 67 = 75"
  "yy_base ! 68 = 84" "yy_base ! 69 = 87" "yy_base ! 70 = 0" "yy_base ! 71 = 52"
  "yy_base ! 74 = 0" "yy_base ! 111 = 436" "yy_base ! 112 = 406" "yy_base ! 113 = 409"
  "yy_base ! 114 = 412" "yy_base ! 115 = 414" "yy_base ! 116 = 62" "yy_base ! 117 = 417"
  "yy_base ! 118 = 420" "yy_base ! 119 = 423" "yy_base ! 120 = 426" "yy_base ! 121 = 429"
  "yy_base ! 122 = 432" "yy_def ! 1 = 111" "yy_def ! 3 = 112" "yy_def ! 7 = 111"
  "yy_def ! 8 = 111" "yy_def ! 9 = 113" "yy_def ! 10 = 114" "yy_def ! 13 = 115"
  "yy_def ! 14 = 111" "yy_def ! 18 = 111" "yy_def ! 19 = 111" "yy_def ! 22 = 115"
  "yy_def ! 23 = 115" "yy_def ! 26 = 115" "yy_def ! 27 = 115" "yy_def ! 33 = 111"
  "yy_def ! 34 = 113" "yy_def ! 35 = 111" "yy_def ! 36 = 113" "yy_def ! 37 = 114"
  "yy_def ! 39 = 115" "yy_def ! 40 = 111" "yy_def ! 41 = 111" "yy_def ! 42 = 111"
  "yy_def ! 45 = 116" "yy_def ! 46 = 115" "yy_def ! 47 = 115" "yy_def ! 48 = 115"
  "yy_def ! 49 = 115" "yy_def ! 51 = 111" "yy_def ! 55 = 111" "yy_def ! 56 = 116"
  "yy_def ! 57 = 115" "yy_def ! 58 = 115" "yy_def ! 59 = 115" "yy_def ! 60 = 115"
  "yy_def ! 67 = 111" "yy_def ! 68 = 111" "yy_def ! 69 = 115" "yy_def ! 70 = 115"
  "yy_def ! 71 = 115" "yy_def ! 74 = 115" "yy_def ! 111 = 0" "yy_def ! 112 = 111"
  "yy_def ! 113 = 111" "yy_def ! 114 = 111" "yy_def ! 115 = 111" "yy_def ! 116 = 111"
  "yy_def ! 117 = 111" "yy_def ! 118 = 111" "yy_def ! 119 = 111" "yy_def ! 120 = 111"
  "yy_def ! 121 = 111" "yy_def ! 122 = 111" "yy_base ! Suc 0 = 0" "yy_def ! Suc 0 = 111"
  by (simp_all add: yy_base_def yy_def_def)

lemma yy_jams [simp]: "yy_trans 111 0 = Some 5" "0 < c \<Longrightarrow> c < 44 \<Longrightarrow> yy_trans 111 c = Some 111"
proof -
  have chk: "drop 436 yy_chk = replicate 44 111" and nxt: "drop 436 yy_nxt = 5 # replicate 43 111"
    by (simp_all add: yy_chk_def yy_nxt_def numeral_eq_Suc)
  have row: "yy_chk ! (436 + c) = 111 \<and> yy_nxt ! (436 + c) = (if c = 0 then 5 else 111)" if "c < 44" for c
    using that arg_cong [OF chk, of "\<lambda>xs. xs ! c"] arg_cong [OF nxt, of "\<lambda>xs. xs ! c"]
    by (simp add: table_lengths nth_Cons' nth_replicate del: replicate_Suc)
  show "yy_trans 111 0 = Some 5" using row [of 0] by (simp add: yy_trans_unfold)
  show "yy_trans 111 c = Some 111" if "0 < c" and "c < 44"
    using row [of c] that by (simp add: yy_trans_unfold)
qed

lemma yy_templates:
  "yy_trans 112 (Suc 0) = Some 30" "yy_trans 112 0 = Some 5" "yy_trans 112 2 = Some 30"
  "yy_trans 112 3 = Some 30" "yy_trans 113 (Suc 0) = Some 34" "yy_trans 113 0 = Some 5"
  "yy_trans 113 2 = Some 34" "yy_trans 113 3 = Some 34" "yy_trans 114 (Suc 0) = Some 37"
  "yy_trans 114 0 = Some 5" "yy_trans 114 2 = Some 37" "yy_trans 114 3 = Some 37"
  "yy_trans 115 (Suc 0) = Some 111" "yy_trans 115 0 = Some 5" "yy_trans 115 2 = Some 39"
  "yy_trans 115 3 = Some 39" "yy_trans 116 (Suc 0) = Some 111" "yy_trans 116 0 = Some 5"
  "yy_trans 116 2 = Some 111" "yy_trans 116 3 = Some 56" "yy_trans 117 (Suc 0) = Some 61"
  "yy_trans 117 0 = Some 5" "yy_trans 117 2 = Some 61" "yy_trans 117 3 = Some 61"
  "yy_trans 118 (Suc 0) = Some 64" "yy_trans 118 0 = Some 5" "yy_trans 118 2 = Some 64"
  "yy_trans 118 3 = Some 64" "yy_trans 119 (Suc 0) = Some 72" "yy_trans 119 0 = Some 5"
  "yy_trans 119 2 = Some 72" "yy_trans 119 3 = Some 72" "yy_trans 120 (Suc 0) = Some 80"
  "yy_trans 120 0 = Some 5" "yy_trans 120 2 = Some 80" "yy_trans 120 3 = Some 80"
  "yy_trans 121 (Suc 0) = Some 84" "yy_trans 121 0 = Some 5" "yy_trans 121 2 = Some 84"
  "yy_trans 121 3 = Some 84" "yy_trans 122 (Suc 0) = Some 98" "yy_trans 122 0 = Some 5"
  "yy_trans 122 2 = Some 98" "yy_trans 122 3 = Some 98"
  by (simp_all add: yy_trans_unfold yy_chk_def yy_nxt_def)

text \<open>The rows of the states that the pieces of a file lead through.\<close>

lemma yy_row_1: "map (yy_trans 1) [0..<44] = map Some
     [5, 6, 7, 8, 9, 10, 11, 12, 13, 14, 15, 14, 16, 17, 18, 19, 20, 21, 20, 13, 13, 13, 22,
      13, 13, 13, 13, 23, 13, 13, 24, 6, 25, 6, 13, 13, 26, 13, 13, 13, 27, 13, 28, 29]"
  by (subst yy_trans_row) (simp_all add: yy_row_simps)

lemma yy_row_3: "map (yy_trans 3) [0..<44] = map Some
     [5, 30, 30, 31, 30, 30, 30, 30, 32, 30, 30, 30, 30, 30, 30, 30, 30, 30, 30, 30, 30, 30,
      30, 30, 30, 30, 30, 30, 30, 30, 30, 30, 30, 30, 30, 30, 30, 30, 30, 30, 30, 30, 30, 30]"
  by (subst yy_trans_row) (simp_all add: yy_row_simps yy_templates)

lemma yy_row_7: "map (yy_trans 7) [0..<44] = map Some
     [5, 111, 33, 33, 111, 111, 111, 111, 111, 111, 111, 111, 111, 111, 111, 111, 111, 111,
      111, 111, 111, 111, 111, 111, 111, 111, 111, 111, 111, 111, 111, 111, 111, 111, 111,
      111, 111, 111, 111, 111, 111, 111, 111, 111]"
  by (subst yy_trans_row) (simp_all add: yy_row_simps)

lemma yy_row_8: "map (yy_trans 8) [0..<44] = map Some
     [5, 111, 33, 33, 111, 111, 111, 111, 111, 111, 111, 111, 111, 111, 111, 111, 111, 111,
      111, 111, 111, 111, 111, 111, 111, 111, 111, 111, 111, 111, 111, 111, 111, 111, 111,
      111, 111, 111, 111, 111, 111, 111, 111, 111]"
  by (subst yy_trans_row) (simp_all add: yy_row_simps)

lemma yy_row_33: "map (yy_trans 33) [0..<44] = map Some
     [5, 111, 33, 33, 111, 111, 111, 111, 111, 111, 111, 111, 111, 111, 111, 111, 111, 111,
      111, 111, 111, 111, 111, 111, 111, 111, 111, 111, 111, 111, 111, 111, 111, 111, 111,
      111, 111, 111, 111, 111, 111, 111, 111, 111]"
  by (subst yy_trans_row) (simp_all add: yy_row_simps)

lemma yy_row_9: "map (yy_trans 9) [0..<44] = map Some
     [5, 34, 34, 34, 35, 34, 34, 34, 34, 34, 34, 34, 34, 34, 34, 34, 34, 34, 34, 34, 34, 34,
      34, 34, 34, 34, 34, 34, 34, 34, 34, 36, 34, 34, 34, 34, 34, 34, 34, 34, 34, 34, 34, 34]"
  by (subst yy_trans_row) (simp_all add: yy_row_simps yy_templates)

lemma yy_row_34: "map (yy_trans 34) [0..<44] = map Some
     [5, 34, 34, 34, 35, 34, 34, 34, 34, 34, 34, 34, 34, 34, 34, 34, 34, 34, 34, 34, 34, 34,
      34, 34, 34, 34, 34, 34, 34, 34, 34, 36, 34, 34, 34, 34, 34, 34, 34, 34, 34, 34, 34, 34]"
  by (subst yy_trans_row) (simp_all add: yy_row_simps yy_templates)

lemma yy_row_35: "map (yy_trans 35) [0..<44] = map Some
     [5, 111, 51, 51, 52, 53, 111, 111, 111, 111, 111, 111, 111, 54, 111, 111, 111, 111, 111,
      111, 111, 111, 111, 111, 111, 111, 111, 111, 111, 111, 111, 111, 111, 111, 111, 111,
      111, 111, 111, 111, 111, 111, 111, 111]"
  by (subst yy_trans_row) (simp_all add: yy_row_simps)

lemma yy_row_51: "map (yy_trans 51) [0..<44] = map Some
     [5, 111, 51, 51, 52, 53, 111, 111, 111, 111, 111, 111, 111, 54, 111, 111, 111, 111, 111,
      111, 111, 111, 111, 111, 111, 111, 111, 111, 111, 111, 111, 111, 111, 111, 111, 111,
      111, 111, 111, 111, 111, 111, 111, 111]"
  by (subst yy_trans_row) (simp_all add: yy_row_simps)

lemma yy_row_36: "map (yy_trans 36) [0..<44] = map Some
     [5, 34, 34, 111, 34, 34, 34, 34, 34, 34, 34, 34, 34, 34, 34, 34, 34, 34, 34, 34, 34, 34,
      34, 34, 34, 34, 34, 34, 34, 34, 34, 34, 34, 34, 34, 34, 34, 34, 34, 34, 34, 34, 34, 34]"
  by (subst yy_trans_row) (simp_all add: yy_row_simps yy_templates)

lemma yy_row_10: "map (yy_trans 10) [0..<44] = map Some
     [5, 37, 37, 38, 37, 37, 37, 37, 37, 37, 37, 37, 37, 37, 37, 37, 37, 37, 37, 37, 37, 37,
      37, 37, 37, 37, 37, 37, 37, 37, 37, 37, 37, 37, 37, 37, 37, 37, 37, 37, 37, 37, 37, 37]"
  by (subst yy_trans_row) (simp_all add: yy_row_simps yy_templates)

lemma yy_row_37: "map (yy_trans 37) [0..<44] = map Some
     [5, 37, 37, 38, 37, 37, 37, 37, 37, 37, 37, 37, 37, 37, 37, 37, 37, 37, 37, 37, 37, 37,
      37, 37, 37, 37, 37, 37, 37, 37, 37, 37, 37, 37, 37, 37, 37, 37, 37, 37, 37, 37, 37, 37]"
  by (subst yy_trans_row) (simp_all add: yy_row_simps yy_templates)

lemma yy_row_13: "map (yy_trans 13) [0..<44] = map Some
     [5, 111, 111, 111, 111, 111, 111, 111, 39, 111, 111, 39, 111, 111, 39, 39, 111, 111,
      111, 39, 39, 39, 39, 39, 39, 39, 39, 39, 39, 39, 111, 111, 111, 39, 39, 39, 39, 39, 39,
      39, 39, 39, 111, 111]"
  by (subst yy_trans_row) (simp_all add: yy_row_simps yy_templates)

lemma yy_row_39: "map (yy_trans 39) [0..<44] = map Some
     [5, 111, 111, 111, 111, 111, 111, 111, 39, 111, 111, 39, 111, 111, 39, 39, 111, 111,
      111, 39, 39, 39, 39, 39, 39, 39, 39, 39, 39, 39, 111, 111, 111, 39, 39, 39, 39, 39, 39,
      39, 39, 39, 111, 111]"
  by (subst yy_trans_row) (simp_all add: yy_row_simps yy_templates)

lemma yy_row_22: "map (yy_trans 22) [0..<44] = map Some
     [5, 111, 111, 111, 111, 111, 111, 111, 39, 111, 111, 39, 111, 111, 39, 39, 111, 111,
      111, 46, 39, 39, 39, 39, 39, 39, 39, 39, 39, 39, 111, 111, 111, 39, 39, 39, 39, 39, 39,
      39, 39, 39, 111, 111]"
  by (subst yy_trans_row) (simp_all add: yy_row_simps yy_templates)

lemma yy_row_23: "map (yy_trans 23) [0..<44] = map Some
     [5, 111, 111, 111, 111, 111, 111, 111, 39, 111, 111, 39, 111, 111, 39, 39, 111, 111,
      111, 39, 39, 39, 39, 39, 39, 47, 39, 39, 39, 39, 111, 111, 111, 39, 39, 39, 39, 39, 39,
      39, 39, 39, 111, 111]"
  by (subst yy_trans_row) (simp_all add: yy_row_simps yy_templates)

lemma yy_row_26: "map (yy_trans 26) [0..<44] = map Some
     [5, 111, 111, 111, 111, 111, 111, 111, 39, 111, 111, 39, 111, 111, 39, 39, 111, 111,
      111, 39, 39, 39, 39, 39, 39, 39, 39, 39, 39, 39, 111, 111, 111, 39, 48, 39, 39, 39, 39,
      39, 39, 39, 111, 111]"
  by (subst yy_trans_row) (simp_all add: yy_row_simps yy_templates)

lemma yy_row_27: "map (yy_trans 27) [0..<44] = map Some
     [5, 111, 111, 111, 111, 111, 111, 111, 39, 111, 111, 39, 111, 111, 39, 39, 111, 111,
      111, 39, 39, 39, 39, 39, 39, 39, 39, 39, 39, 39, 111, 111, 111, 39, 39, 39, 39, 39, 49,
      39, 39, 39, 111, 111]"
  by (subst yy_trans_row) (simp_all add: yy_row_simps yy_templates)

lemma yy_row_46: "map (yy_trans 46) [0..<44] = map Some
     [5, 111, 111, 111, 111, 111, 111, 111, 39, 111, 111, 39, 111, 111, 39, 39, 111, 111,
      111, 39, 39, 39, 39, 39, 57, 39, 39, 39, 39, 39, 111, 111, 111, 39, 39, 39, 39, 39, 39,
      39, 39, 39, 111, 111]"
  by (subst yy_trans_row) (simp_all add: yy_row_simps yy_templates)

lemma yy_row_47: "map (yy_trans 47) [0..<44] = map Some
     [5, 111, 111, 111, 111, 111, 111, 111, 39, 111, 111, 39, 111, 111, 39, 39, 111, 111,
      111, 39, 39, 39, 39, 39, 39, 39, 39, 39, 58, 39, 111, 111, 111, 39, 39, 39, 39, 39, 39,
      39, 39, 39, 111, 111]"
  by (subst yy_trans_row) (simp_all add: yy_row_simps yy_templates)

lemma yy_row_48: "map (yy_trans 48) [0..<44] = map Some
     [5, 111, 111, 111, 111, 111, 111, 111, 39, 111, 111, 39, 111, 111, 39, 39, 111, 111,
      111, 39, 39, 39, 39, 39, 39, 39, 39, 39, 39, 39, 111, 111, 111, 39, 39, 39, 39, 59, 39,
      39, 39, 39, 111, 111]"
  by (subst yy_trans_row) (simp_all add: yy_row_simps yy_templates)

lemma yy_row_49: "map (yy_trans 49) [0..<44] = map Some
     [5, 111, 111, 111, 111, 111, 111, 111, 39, 111, 111, 39, 111, 111, 39, 39, 111, 111,
      111, 39, 39, 39, 39, 39, 39, 39, 39, 39, 39, 39, 111, 111, 111, 39, 39, 39, 39, 39, 39,
      39, 39, 60, 111, 111]"
  by (subst yy_trans_row) (simp_all add: yy_row_simps yy_templates)

lemma yy_row_57: "map (yy_trans 57) [0..<44] = map Some
     [5, 111, 111, 111, 111, 111, 111, 111, 39, 111, 111, 39, 111, 111, 39, 39, 111, 111,
      111, 39, 39, 39, 39, 39, 39, 39, 69, 39, 39, 39, 111, 111, 111, 39, 39, 39, 39, 39, 39,
      39, 39, 39, 111, 111]"
  by (subst yy_trans_row) (simp_all add: yy_row_simps yy_templates)

lemma yy_row_58: "map (yy_trans 58) [0..<44] = map Some
     [5, 111, 111, 111, 111, 111, 111, 111, 39, 111, 111, 39, 111, 111, 39, 39, 111, 111,
      111, 39, 39, 70, 39, 39, 39, 39, 39, 39, 39, 39, 111, 111, 111, 39, 39, 39, 39, 39, 39,
      39, 39, 39, 111, 111]"
  by (subst yy_trans_row) (simp_all add: yy_row_simps yy_templates)

lemma yy_row_59: "map (yy_trans 59) [0..<44] = map Some
     [5, 111, 111, 111, 111, 111, 111, 111, 39, 111, 111, 39, 111, 111, 39, 39, 111, 111,
      111, 39, 39, 39, 39, 39, 39, 39, 39, 39, 39, 39, 111, 111, 111, 39, 39, 39, 39, 39, 39,
      71, 39, 39, 111, 111]"
  by (subst yy_trans_row) (simp_all add: yy_row_simps yy_templates)

lemma yy_row_60: "map (yy_trans 60) [0..<44] = map Some
     [5, 111, 111, 111, 111, 111, 111, 111, 39, 111, 111, 39, 111, 111, 39, 39, 111, 111,
      111, 39, 39, 39, 39, 39, 39, 39, 39, 39, 39, 39, 111, 111, 111, 39, 39, 70, 39, 39, 39,
      39, 39, 39, 111, 111]"
  by (subst yy_trans_row) (simp_all add: yy_row_simps yy_templates)

lemma yy_row_69: "map (yy_trans 69) [0..<44] = map Some
     [5, 111, 111, 111, 111, 111, 111, 111, 39, 111, 111, 39, 111, 111, 39, 39, 111, 111,
      111, 39, 39, 74, 39, 39, 39, 39, 39, 39, 39, 39, 111, 111, 111, 39, 39, 39, 39, 39, 39,
      39, 39, 39, 111, 111]"
  by (subst yy_trans_row) (simp_all add: yy_row_simps yy_templates)

lemma yy_row_71: "map (yy_trans 71) [0..<44] = map Some
     [5, 111, 111, 111, 111, 111, 111, 111, 39, 111, 111, 39, 111, 111, 39, 39, 111, 111,
      111, 39, 39, 39, 39, 39, 39, 39, 39, 39, 39, 39, 111, 111, 111, 39, 39, 74, 39, 39, 39,
      39, 39, 39, 111, 111]"
  by (subst yy_trans_row) (simp_all add: yy_row_simps yy_templates)

lemma yy_row_70: "map (yy_trans 70) [0..<44] = map Some
     [5, 111, 111, 111, 111, 111, 111, 111, 39, 111, 111, 39, 111, 111, 39, 39, 111, 111,
      111, 39, 39, 39, 39, 39, 39, 39, 39, 39, 39, 39, 111, 111, 111, 39, 39, 39, 39, 39, 39,
      39, 39, 39, 111, 111]"
  by (subst yy_trans_row) (simp_all add: yy_row_simps yy_templates)

lemma yy_row_74: "map (yy_trans 74) [0..<44] = map Some
     [5, 111, 111, 111, 111, 111, 111, 111, 39, 111, 111, 39, 111, 111, 39, 39, 111, 111,
      111, 39, 39, 39, 39, 39, 39, 39, 39, 39, 39, 39, 111, 111, 111, 39, 39, 39, 39, 39, 39,
      39, 39, 39, 111, 111]"
  by (subst yy_trans_row) (simp_all add: yy_row_simps yy_templates)

lemma yy_row_14: "map (yy_trans 14) [0..<44] = map Some
     [5, 111, 111, 111, 111, 111, 111, 111, 111, 111, 111, 111, 40, 111, 41, 41, 111, 111,
      111, 111, 111, 111, 111, 111, 111, 111, 111, 111, 111, 111, 111, 111, 111, 111, 111,
      111, 111, 111, 111, 111, 111, 111, 111, 111]"
  by (subst yy_trans_row) (simp_all add: yy_row_simps)

lemma yy_row_18: "map (yy_trans 18) [0..<44] = map Some
     [5, 111, 111, 111, 111, 111, 111, 111, 111, 111, 111, 111, 40, 111, 41, 41, 111, 111,
      111, 111, 111, 111, 111, 111, 111, 111, 111, 111, 111, 45, 111, 111, 111, 111, 111,
      111, 111, 111, 111, 111, 111, 111, 111, 111]"
  by (subst yy_trans_row) (simp_all add: yy_row_simps)

lemma yy_row_19: "map (yy_trans 19) [0..<44] = map Some
     [5, 111, 111, 111, 111, 111, 111, 111, 111, 111, 111, 111, 40, 111, 41, 41, 111, 111,
      111, 111, 111, 111, 111, 111, 111, 111, 111, 111, 111, 111, 111, 111, 111, 111, 111,
      111, 111, 111, 111, 111, 111, 111, 111, 111]"
  by (subst yy_trans_row) (simp_all add: yy_row_simps)

lemma yy_row_41: "map (yy_trans 41) [0..<44] = map Some
     [5, 111, 111, 111, 111, 111, 111, 111, 111, 111, 111, 111, 40, 111, 41, 41, 111, 111,
      111, 111, 111, 111, 111, 111, 111, 111, 111, 111, 111, 111, 111, 111, 111, 111, 111,
      111, 111, 111, 111, 111, 111, 111, 111, 111]"
  by (subst yy_trans_row) (simp_all add: yy_row_simps)

lemma yy_row_40: "map (yy_trans 40) [0..<44] = map Some
     [5, 111, 111, 111, 111, 111, 111, 111, 111, 111, 111, 111, 111, 111, 42, 42, 111, 111,
      111, 111, 111, 111, 111, 111, 111, 111, 111, 111, 111, 111, 111, 111, 111, 111, 111,
      111, 111, 111, 111, 111, 111, 111, 111, 111]"
  by (subst yy_trans_row) (simp_all add: yy_row_simps)

lemma yy_row_42: "map (yy_trans 42) [0..<44] = map Some
     [5, 111, 111, 111, 111, 111, 111, 111, 111, 111, 111, 111, 111, 111, 42, 42, 111, 111,
      111, 111, 111, 55, 111, 111, 111, 111, 111, 111, 111, 111, 111, 111, 111, 111, 111, 55,
      111, 111, 111, 111, 111, 111, 111, 111]"
  by (subst yy_trans_row) (simp_all add: yy_row_simps)

lemma yy_row_55: "map (yy_trans 55) [0..<44] = map Some
     [5, 111, 111, 111, 111, 111, 111, 111, 111, 67, 111, 67, 111, 111, 68, 68, 111, 111,
      111, 111, 111, 111, 111, 111, 111, 111, 111, 111, 111, 111, 111, 111, 111, 111, 111,
      111, 111, 111, 111, 111, 111, 111, 111, 111]"
  by (subst yy_trans_row) (simp_all add: yy_row_simps)

lemma yy_row_67: "map (yy_trans 67) [0..<44] = map Some
     [5, 111, 111, 111, 111, 111, 111, 111, 111, 111, 111, 111, 111, 111, 68, 68, 111, 111,
      111, 111, 111, 111, 111, 111, 111, 111, 111, 111, 111, 111, 111, 111, 111, 111, 111,
      111, 111, 111, 111, 111, 111, 111, 111, 111]"
  by (subst yy_trans_row) (simp_all add: yy_row_simps)

lemma yy_row_68: "map (yy_trans 68) [0..<44] = map Some
     [5, 111, 111, 111, 111, 111, 111, 111, 111, 111, 111, 111, 111, 111, 68, 68, 111, 111,
      111, 111, 111, 111, 111, 111, 111, 111, 111, 111, 111, 111, 111, 111, 111, 111, 111,
      111, 111, 111, 111, 111, 111, 111, 111, 111]"
  by (subst yy_trans_row) (simp_all add: yy_row_simps)

lemma yy_row_45: "map (yy_trans 45) [0..<44] = map Some
     [5, 111, 111, 111, 111, 111, 111, 111, 111, 111, 111, 111, 111, 111, 56, 56, 111, 111,
      111, 56, 56, 56, 56, 111, 111, 111, 111, 111, 111, 111, 111, 111, 111, 111, 56, 56, 56,
      111, 111, 111, 111, 111, 111, 111]"
  by (subst yy_trans_row) (simp_all add: yy_row_simps yy_templates)

lemma yy_row_56: "map (yy_trans 56) [0..<44] = map Some
     [5, 111, 111, 111, 111, 111, 111, 111, 111, 111, 111, 111, 111, 111, 56, 56, 111, 111,
      111, 56, 56, 56, 56, 111, 111, 111, 111, 111, 111, 111, 111, 111, 111, 111, 56, 56, 56,
      111, 111, 111, 111, 111, 111, 111]"
  by (subst yy_trans_row) (simp_all add: yy_row_simps yy_templates)

section \<open>The scanner ends\<close>

lemma yy_class_range: "0 < yy_class c \<and> yy_class c < 44"
proof -
  have "list_all (\<lambda>k. k < 44) yy_ec" and "list_all (\<lambda>k. 0 < k) (tl yy_ec)" by (simp_all add: yy_ec_def)
  then have all: "k < 256 \<Longrightarrow> 0 < k \<Longrightarrow> 0 < yy_ec ! k \<and> yy_ec ! k < 44" for k
    by (cases k) (auto simp: list_all_length table_lengths nth_tl)
  have "of_char c < (256 :: nat)" by simp
  moreover have "c \<noteq> CHR 0x00 \<Longrightarrow> 0 < (of_char c :: nat)"
    using of_char_eq_iff [of c "CHR 0x00", where ?'a = nat] by (cases "of_char c :: nat") simp_all
  ultimately show ?thesis using all [of "of_char c"] by (simp add: yy_class_def)
qed

text \<open>The chains of defaults are short, so every state has a successor in every class.\<close>

lemma yy_templates_total:
  assumes "d \<in> {112..122}" and "m \<in> {1, 2, 3}"
  shows "\<exists>t. yy_trans d m = Some t \<and> 0 < t \<and> t < 112"
proof -
  have "d = 112 \<or> d = 113 \<or> d = 114 \<or> d = 115 \<or> d = 116 \<or> d = 117 \<or> d = 118 \<or> d = 119 \<or> d = 120
      \<or> d = 121 \<or> d = 122"
    using assms(1) by (simp only: atLeastAtMost_iff) presburger
  then show ?thesis using assms(2) by (elim disjE) (auto simp: yy_templates)
qed

lemma yy_trans_total:
  assumes s: "0 < s" "s < 112" and c: "0 < c" "c < 44"
  shows "\<exists>t. yy_trans s c = Some t \<and> 0 < t \<and> t < 112"
proof (cases "yy_chk ! (yy_base ! s + c) = s")
  case True
  have "list_all (\<lambda>b. b \<le> 436) yy_base" by (simp add: yy_base_def)
  then have "yy_base ! s \<le> 436" using s by (simp add: list_all_length table_lengths)
  then have "yy_base ! s + c < 480" using c by simp
  moreover have "list_all2 (\<lambda>k n. k \<noteq> 0 \<longrightarrow> 0 < n \<and> n < 112) yy_chk yy_nxt"
    by (simp add: yy_chk_def yy_nxt_def)
  ultimately show ?thesis
    using True s by (simp add: yy_trans_unfold list_all2_conv_all_nth table_lengths)
next
  case False
  define d where "d = yy_def ! s"
  show ?thesis
  proof (cases "s = 111")
    case True
    then show ?thesis using c by simp
  next
    case inner: False
    have "list_all (\<lambda>d. d = 1 \<or> d = 111 \<or> 112 \<le> d \<and> d \<le> 122) (take 110 (tl yy_def))"
      by (simp add: yy_def_def)
    then have d: "d = 1 \<or> d = 111 \<or> d \<in> {112..122}"
      using s inner by (cases s) (simp_all add: d_def list_all_length table_lengths nth_tl)
    have step: "yy_trans s c = yy_trans d (if 112 \<le> d then yy_meta ! c else c)"
      using False by (subst yy_trans_unfold) (simp add: Let_def d_def)
    have "list_all (\<lambda>m. m \<in> {1, 2, 3}) (tl yy_meta)" by (simp add: yy_meta_def)
    then have m: "yy_meta ! c \<in> {1, 2, 3}"
      using c by (cases c) (simp_all add: list_all_length table_lengths nth_tl)
    from d show ?thesis
    proof (elim disjE)
      assume "d = 1"
      moreover have "list_all (\<lambda>t. 0 < the t \<and> the t < 112 \<and> t \<noteq> None) (tl (map (yy_trans 1) [0..<44]))"
        by (simp only: yy_row_1) simp
      then have "yy_trans 1 c \<noteq> None \<and> 0 < the (yy_trans 1 c) \<and> the (yy_trans 1 c) < 112"
        using c by (cases c) (simp_all add: list_all_length nth_tl)
      ultimately show ?thesis by (auto simp: step)
    qed (use m c yy_templates_total [of d] in \<open>auto simp: step\<close>)
  qed
qed

lemma yy_start_rows:
  assumes "s = 1 \<or> s = 3" and "0 < c" and "c < 44"
  shows "\<exists>t. yy_trans s c = Some t \<and> 0 < t \<and> t < 112 \<and> yy_accept ! t \<noteq> 0 \<and> yy_accept ! t \<noteq> 22"
proof -
  have "list_all (\<lambda>t. t \<noteq> None \<and> 0 < the t \<and> the t < 112 \<and> yy_accept ! the t \<noteq> 0 \<and> yy_accept ! the t \<noteq> 22)
    (tl (map (yy_trans s) [0..<44]))"
    using assms(1) by (elim disjE) (simp_all only: yy_row_1 yy_row_3, simp_all add: yy_accept_def)
  then show ?thesis using assms(2,3) by (cases c) (force simp: list_all_length nth_tl)+
qed

text \<open>A match once begun finds a rule, and a token is never empty.\<close>

definition yy_found :: "nat \<Rightarrow> nat \<times> nat \<Rightarrow> bool" where
  "yy_found n p \<longleftrightarrow> (case p of (act, k) \<Rightarrow> act \<noteq> 0 \<and> 0 < k \<and> k \<le> n \<and> (act = 22 \<longrightarrow> 1 < k))"

lemma yy_found_mono: "yy_found n p \<Longrightarrow> n \<le> m \<Longrightarrow> yy_found m p"
  by (auto simp: yy_found_def split: prod.splits)

lemma yy_match_finds:
  assumes "0 < s" and "s < 112" and "0 < n" and "yy_accept ! s = 22 \<longrightarrow> 1 < n"
    and "yy_accept ! s \<noteq> 0 \<or> (\<exists>t k. accepted = Some (t, k) \<and> yy_found n (yy_accept ! t, k))"
  shows "\<exists>p. Option.bind (yy_match s accepted n cs) yy_find_action = Some p \<and> yy_found (n + length cs) p"
  using assms
proof (induction cs arbitrary: s accepted n)
  case Nil
  then show ?case by (auto simp: yy_find_action_def yy_found_def)
next
  case (Cons c cs)
  define accepted' where "accepted' = (if yy_accept ! s \<noteq> 0 then Some (s, n) else accepted)"
  obtain t where t: "yy_trans s (yy_class c) = Some t" "0 < t" "t < 112"
    using yy_trans_total Cons.prems(1,2) yy_class_range by blast
  have acc: "\<exists>u k. accepted' = Some (u, k) \<and> yy_found (n + 1) (yy_accept ! u, k)"
    using Cons.prems(3-5) by (auto simp: accepted'_def yy_found_def)
  show ?case
  proof (cases "yy_base ! t = 436")
    case True
    then have "Option.bind (yy_match s accepted n (c # cs)) yy_find_action =
        yy_find_action (t, accepted', n + 1)"
      using t by (simp add: accepted'_def)
    moreover have "\<exists>p. yy_find_action (t, accepted', n + 1) = Some p \<and> yy_found (n + 1) p"
      using acc Cons.prems(3) by (auto simp: yy_find_action_def yy_found_def)
    ultimately show ?thesis using yy_found_mono [of "n + 1"] by fastforce
  next
    case False
    then have "yy_match s accepted n (c # cs) = yy_match t accepted' (n + 1) cs"
      using t by (simp add: accepted'_def)
    then show ?thesis
      using Cons.IH [of t "n + 1" accepted'] t acc Cons.prems(3) by simp
  qed
qed

lemma yy_match_starts:
  assumes "s = 1 \<or> s = 3" and "cs \<noteq> []"
  shows "\<exists>p. Option.bind (yy_match s None 0 cs) yy_find_action = Some p \<and> yy_found (length cs) p"
proof -
  obtain c ds where cs: "cs = c # ds" using assms(2) by (cases cs) auto
  obtain t where t: "yy_trans s (yy_class c) = Some t" "0 < t" "t < 112"
      "yy_accept ! t \<noteq> 0" "yy_accept ! t \<noteq> 22"
    using yy_start_rows [OF assms(1)] yy_class_range by blast
  have "yy_accept ! s = 0" using assms(1) by (auto simp: yy_accept_def)
  then show ?thesis
    using t yy_match_finds [of t 1 None ds] by (auto simp: cs Let_def yy_find_action_def yy_found_def)
qed

lemma yylex_ends:
  assumes "yy_start s = 1 \<or> yy_start s = 3"
  shows "\<exists>r. yylex atof s = Some r
    \<and> (\<forall>t s'. r = Inr (t, s') \<longrightarrow> (yy_start s' = 1 \<or> yy_start s' = 3)
        \<and> (fst t = TOK_EOF \<and> yy_text s' = [] \<or> length (yy_text s') < length (yy_text s)))"
  using assms
proof (induction "length (yy_text s)" arbitrary: s rule: less_induct)
  case less
  show ?case
  proof (cases "yy_text s = []")
    case True
    then show ?thesis using less.prems by (subst yylex.simps) simp
  next
    case False
    obtain act n where found: "Option.bind (yy_match (yy_start s) None 0 (yy_text s)) yy_find_action = Some (act, n)"
        and p: "yy_found (length (yy_text s)) (act, n)"
      using yy_match_starts [OF less.prems False] by auto
    have shorter: "length (yy_text (yy_advance act n s)) < length (yy_text s)"
      using p by (auto simp: yy_advance_def yy_found_def)
    have start: "yy_start (yy_advance act n s) = 1 \<or> yy_start (yy_advance act n s) = 3"
      using less.prems by (simp add: yy_advance_def)
    show ?thesis
    proof (cases "yy_action atof act (take n (yy_text s))")
      case (Inl e)
      then show ?thesis using False found by (subst yylex.simps) simp
    next
      case (Inr res)
      show ?thesis
      proof (cases res)
        case None
        with Inr False found have "yylex atof s = yylex atof (yy_advance act n s)"
          by (subst yylex.simps) simp
        then show ?thesis using less.hyps [OF shorter start] shorter by (auto intro: less_trans)
      next
        case (Some t)
        with Inr False found have "yylex atof s = Some (Inr (t, yy_advance act n s))"
          by (subst yylex.simps) simp
        then show ?thesis using shorter start by auto
      qed
    qed
  qed
qed


end
