(* ===== verification/Config_Automaton.thy ===== *)
theory Config_Automaton
  imports Config_Scanner
begin

text \<open>
  The automaton of the scanner on a run of characters, and the characters of its classes.
\<close>

section \<open>Runs of the automaton\<close>

text \<open>
  \<open>yy_path s w\<close> is the state after the characters \<open>w\<close>, provided that the automaton does not stop
  on the way.
\<close>

fun yy_path :: "nat \<Rightarrow> string \<Rightarrow> nat option" where
  "yy_path s [] = Some s"
| "yy_path s (c # w) =
     Option.bind (yy_trans s (yy_class c)) (\<lambda>t. if yy_base ! t = 436 then None else yy_path t w)"

definition yy_stops :: "nat \<Rightarrow> string \<Rightarrow> bool" where
  "yy_stops t cs \<longleftrightarrow> cs = [] \<or> yy_trans t (yy_class (hd cs)) = Some 111"

lemma yy_path_append: "yy_path s (v @ w) = Option.bind (yy_path s v) (\<lambda>t. yy_path t w)"
  by (induction v arbitrary: s) (auto split: bind_split)

lemma yy_match_path:
  assumes "yy_path s w = Some t"
  shows "\<exists>accepted'. yy_match s accepted n (w @ cs) = yy_match t accepted' (n + length w) cs"
  using assms
proof (induction w arbitrary: s accepted n)
  case (Cons c w)
  then obtain u where u: "yy_trans s (yy_class c) = Some u" "yy_base ! u \<noteq> 436" "yy_path u w = Some t"
    by (auto split: bind_splits if_splits)
  define a where "a = (if yy_accept ! s \<noteq> 0 then Some (s, n) else accepted)"
  have "yy_match s accepted n ((c # w) @ cs) = yy_match u a (n + 1) (w @ cs)"
    using u by (simp add: a_def)
  then show ?case using Cons.IH [OF u(3), of a "n + 1"] by auto
qed auto

lemma yy_accept_111 [simp]: "yy_accept ! 111 = 0"
  by (simp add: yy_accept_def)

lemma yy_find_path:
  assumes "yy_path s w = Some t" and "yy_accept ! t \<noteq> 0" and "yy_stops t cs"
  shows "Option.bind (yy_match s accepted n (w @ cs)) yy_find_action = Some (yy_accept ! t, n + length w)"
proof -
  obtain a where m: "yy_match s accepted n (w @ cs) = yy_match t a (n + length w) cs"
    using yy_match_path [OF assms(1)] by blast
  show ?thesis
  proof (cases cs)
    case Nil
    then show ?thesis using m assms(2) by (simp add: yy_find_action_def)
  next
    case (Cons c ds)
    then show ?thesis using m assms(2,3) by (simp add: yy_find_action_def yy_stops_def)
  qed
qed

lemma yy_row_at: "map (yy_trans s) [0..<44] = map Some xs \<Longrightarrow> c < 44 \<Longrightarrow> yy_trans s c = Some (xs ! c)"
proof -
  assume row: "map (yy_trans s) [0..<44] = map Some xs" and c: "c < 44"
  have "length xs = 44" using arg_cong [OF row, of length] by simp
  then show ?thesis using arg_cong [OF row, of "\<lambda>ts. ts ! c"] c by simp
qed

section \<open>Classes of characters\<close>

lemma enumerated:
  assumes "list_all (\<lambda>(n, k). P n k) (enumerate 0 yy_ec)" and "c \<noteq> CHR 0x00"
  shows "P (of_char c) (yy_class c)"
proof -
  have "(of_char c, yy_ec ! of_char c) \<in> set (enumerate 0 yy_ec)"
    by (simp add: in_set_enumerate_eq table_lengths)
  then show ?thesis using assms by (auto simp: list_all_iff yy_class_def)
qed

lemma yy_class_0 [simp]: "yy_class CHR 0x00 = 1"
  by (simp add: yy_class_def)

text \<open>The classes of one character.\<close>

lemma yy_ec_single:
  "list_all (\<lambda>(n, k). (k = 3 \<longleftrightarrow> n = 10) \<and> (k = 4 \<longleftrightarrow> n = 34) \<and>
    (k = 31 \<longleftrightarrow> n = 92) \<and> (k = 19 \<longleftrightarrow> n = 65) \<and>
    (k = 21 \<longleftrightarrow> n = 69) \<and> (k = 22 \<longleftrightarrow> n = 70) \<and>
    (k = 24 \<longleftrightarrow> n = 76) \<and> (k = 25 \<longleftrightarrow> n = 82) \<and>
    (k = 26 \<longleftrightarrow> n = 83) \<and> (k = 27 \<longleftrightarrow> n = 84) \<and>
    (k = 28 \<longleftrightarrow> n = 85) \<and> (k = 34 \<longleftrightarrow> n = 97) \<and>
    (k = 35 \<longleftrightarrow> n = 101) \<and> (k = 36 \<longleftrightarrow> n = 102) \<and>
    (k = 37 \<longleftrightarrow> n = 108) \<and> (k = 38 \<longleftrightarrow> n = 114) \<and>
    (k = 39 \<longleftrightarrow> n = 115) \<and> (k = 40 \<longleftrightarrow> n = 116) \<and>
    (k = 41 \<longleftrightarrow> n = 117))
    (enumerate 0 yy_ec)"
  by (simp add: yy_ec_def)

lemma code_iff: "of_char d = (n :: nat) \<Longrightarrow> of_char c = n \<longleftrightarrow> c = d"
  by auto

lemmas codes =
  code_iff [of "CHR 0x0A" 10] code_iff [of "CHR 0x22" 34] code_iff [of "CHR 0x5C" 92]
  code_iff [of "CHR ''A''" 65] code_iff [of "CHR ''E''" 69] code_iff [of "CHR ''F''" 70]
  code_iff [of "CHR ''L''" 76] code_iff [of "CHR ''R''" 82] code_iff [of "CHR ''S''" 83]
  code_iff [of "CHR ''T''" 84] code_iff [of "CHR ''U''" 85] code_iff [of "CHR ''a''" 97]
  code_iff [of "CHR ''e''" 101] code_iff [of "CHR ''f''" 102] code_iff [of "CHR ''l''" 108]
  code_iff [of "CHR ''r''" 114] code_iff [of "CHR ''s''" 115] code_iff [of "CHR ''t''" 116]
  code_iff [of "CHR ''u''" 117]

lemma yy_class_iff:
  "yy_class c = 3 \<longleftrightarrow> c = CHR 0x0A"
  "yy_class c = 4 \<longleftrightarrow> c = CHR 0x22"
  "yy_class c = 31 \<longleftrightarrow> c = CHR 0x5C"
  "yy_class c = 19 \<longleftrightarrow> c = CHR ''A''"
  "yy_class c = 21 \<longleftrightarrow> c = CHR ''E''"
  "yy_class c = 22 \<longleftrightarrow> c = CHR ''F''"
  "yy_class c = 24 \<longleftrightarrow> c = CHR ''L''"
  "yy_class c = 25 \<longleftrightarrow> c = CHR ''R''"
  "yy_class c = 26 \<longleftrightarrow> c = CHR ''S''"
  "yy_class c = 27 \<longleftrightarrow> c = CHR ''T''"
  "yy_class c = 28 \<longleftrightarrow> c = CHR ''U''"
  "yy_class c = 34 \<longleftrightarrow> c = CHR ''a''"
  "yy_class c = 35 \<longleftrightarrow> c = CHR ''e''"
  "yy_class c = 36 \<longleftrightarrow> c = CHR ''f''"
  "yy_class c = 37 \<longleftrightarrow> c = CHR ''l''"
  "yy_class c = 38 \<longleftrightarrow> c = CHR ''r''"
  "yy_class c = 39 \<longleftrightarrow> c = CHR ''s''"
  "yy_class c = 40 \<longleftrightarrow> c = CHR ''t''"
  "yy_class c = 41 \<longleftrightarrow> c = CHR ''u''"
  by (cases "c = CHR 0x00"; use enumerated [OF yy_ec_single, of c] in \<open>simp add: codes\<close>)+

text \<open>Blanks, digits and the characters of names.\<close>

definition blank :: "char \<Rightarrow> bool" where
  "blank c \<longleftrightarrow> c = CHR '' '' \<or> c = CHR 0x09 \<or> c = CHR 0x0A \<or> c = CHR 0x0C \<or> c = CHR 0x0D"

definition code_in :: "(nat \<times> nat) list \<Rightarrow> nat \<Rightarrow> bool" where
  "code_in ranges n \<longleftrightarrow> list_ex (\<lambda>(a, b). a \<le> n \<and> n \<le> b) ranges"

definition is_digit :: "char \<Rightarrow> bool" where
  "is_digit c \<longleftrightarrow> code_in [(48, 57)] (of_char c)"

definition name_start :: "char \<Rightarrow> bool" where
  "name_start c \<longleftrightarrow> code_in [(42, 42), (65, 90), (97, 122)] (of_char c)"

definition name_char :: "char \<Rightarrow> bool" where
  "name_char c \<longleftrightarrow> code_in [(42, 42), (65, 90), (97, 122), (48, 57), (45, 45), (95, 95)] (of_char c)"

lemma yy_ec_groups:
  "list_all (\<lambda>(n, k). (k = 2 \<or> k = 3 \<longleftrightarrow> n \<in> {9, 10, 12, 13, 32})
    \<and> (code_in [(48, 57)] n \<longleftrightarrow> k = 14 \<or> k = 15)
    \<and> (code_in [(42, 42), (65, 90), (97, 122)] n \<longrightarrow> code_in [(8, 8), (19, 29), (34, 41)] k)
    \<and> (code_in [(42, 42), (65, 90), (97, 122), (48, 57), (45, 45), (95, 95)] n \<longrightarrow>
         code_in [(8, 8), (11, 11), (14, 15), (19, 29), (33, 41)] k))
    (enumerate 0 yy_ec)"
  by (simp add: yy_ec_def code_in_def)

lemma yy_class_blank: "yy_class c = 2 \<or> yy_class c = 3 \<longleftrightarrow> blank c"
proof (cases "c = CHR 0x00")
  case False
  then have "yy_class c = 2 \<or> yy_class c = 3 \<longleftrightarrow> of_char c \<in> {9, 10, 12, 13, 32 :: nat}"
    using enumerated [OF yy_ec_groups] by blast
  then show ?thesis
    by (simp add: blank_def code_iff [of "CHR 0x09" 9] code_iff [of "CHR 0x0A" 10]
        code_iff [of "CHR 0x0C" 12] code_iff [of "CHR 0x0D" 13] code_iff [of "CHR '' ''" 32] disj_ac)
qed (simp add: blank_def)

lemma yy_class_digit: "is_digit c \<Longrightarrow> yy_class c = 14 \<or> yy_class c = 15"
  using enumerated [OF yy_ec_groups, of c] by (cases "c = CHR 0x00") (auto simp: is_digit_def code_in_def)

lemma yy_class_name_start: "name_start c \<Longrightarrow> code_in [(8, 8), (19, 29), (34, 41)] (yy_class c)"
proof (cases "c = CHR 0x00")
  case False
  then show "name_start c \<Longrightarrow> ?thesis"
    using enumerated [OF yy_ec_groups False] unfolding name_start_def by blast
qed (simp add: name_start_def code_in_def)

lemma yy_class_name_char:
  "name_char c \<Longrightarrow> code_in [(8, 8), (11, 11), (14, 15), (19, 29), (33, 41)] (yy_class c)"
proof (cases "c = CHR 0x00")
  case False
  then show "name_char c \<Longrightarrow> ?thesis"
    using enumerated [OF yy_ec_groups False] unfolding name_char_def by blast
qed (simp add: name_char_def code_in_def)

end
