(* ===== verification/Config_Tokens.thy ===== *)
theory Config_Tokens
  imports Config_Text Config_Automaton
begin

text \<open>
  What the scanner makes of the pieces the writer produces: every name, number, string and
  separator is cut off as one token, with the value that was printed.
\<close>

section \<open>Tokens\<close>

definition scan_at :: "string \<Rightarrow> int \<Rightarrow> scanner" where
  "scan_at cs l = \<lparr>yy_start = 1, yy_text = cs, yylineno = l\<rparr>"

text \<open>At the text \<open>cs\<close> the scanner returns the token \<open>t\<close> and stands before \<open>r\<close>.\<close>

definition lexes :: "(string \<Rightarrow> real) \<Rightarrow> string \<Rightarrow> yytokentype \<times> yystype \<Rightarrow> string \<Rightarrow> bool" where
  "lexes atof cs t r \<longleftrightarrow> (\<forall>l. \<exists>l'. yylex atof (scan_at cs l) = Some (Inr (t, scan_at r l')))"

lemma yy_accept_at [simp]:
  "yy_accept ! 7 = 5" "yy_accept ! 8 = 5" "yy_accept ! 33 = 5" "yy_accept ! 13 = 12"
  "yy_accept ! 39 = 12" "yy_accept ! 18 = 14" "yy_accept ! 19 = 14" "yy_accept ! 41 = 14"
  "yy_accept ! 56 = 15" "yy_accept ! 68 = 13" "yy_accept ! 35 = 16" "yy_accept ! 51 = 0"
  "yy_accept ! 70 = 10" "yy_accept ! 74 = 11"
  by (simp_all add: yy_accept_def)

lemma lexes_action:
  assumes "Option.bind (yy_match 1 None 0 (w @ cs)) yy_find_action = Some (act, length w)"
    and "yy_action atof act w = Inr (Some t)" and "w \<noteq> []" and "act \<notin> {1, 2, 22}"
  shows "lexes atof (w @ cs) t cs"
  unfolding lexes_def
proof
  fix l
  have "yylex atof (scan_at (w @ cs) l) = Some (Inr (t, yy_advance act (length w) (scan_at (w @ cs) l)))"
    using assms by (subst yylex.simps) (simp add: scan_at_def)
  then show "\<exists>l'. yylex atof (scan_at (w @ cs) l) = Some (Inr (t, scan_at cs l'))"
    using assms(4) by (auto simp: yy_advance_def scan_at_def)
qed

lemma lexes_path:
  assumes "yy_path 1 w = Some t" and "yy_accept ! t \<noteq> 0" and "yy_stops t cs"
    and "yy_action atof (yy_accept ! t) w = Inr (Some v)" and "w \<noteq> []" and "yy_accept ! t \<notin> {1, 2, 22}"
  shows "lexes atof (w @ cs) v cs"
  using lexes_action [of w cs "yy_accept ! t"] yy_find_path [OF assms(1-3), of None 0] assms(4-6) by simp

text \<open>A character that is a token of its own.\<close>

lemma lexes_single:
  assumes "yy_trans 1 (yy_class c) = Some t" and "yy_base ! t = 436" and "yy_accept ! t \<noteq> 0"
    and "yy_action atof (yy_accept ! t) [c] = Inr (Some v)" and "yy_accept ! t \<notin> {1, 2, 22}"
  shows "lexes atof (c # cs) v cs"
proof -
  have "yy_accept ! 1 = 0" by (simp add: yy_accept_def)
  then show ?thesis
    using assms lexes_action [of "[c]" cs "yy_accept ! t" atof v] by (simp add: yy_find_action_def)
qed

lemmas yy_first = yy_row_at [OF yy_row_1, unfolded One_nat_def]

lemma yy_start_at:
  "yy_trans 1 (yy_class CHR '':'') = Some 20" "yy_trans 1 (yy_class CHR ''='') = Some 20"
  "yy_trans 1 (yy_class CHR '','') = Some 15" "yy_trans 1 (yy_class CHR ''{'') = Some 28"
  "yy_trans 1 (yy_class CHR ''}'') = Some 29" "yy_trans 1 (yy_class CHR ''['') = Some 24"
  "yy_trans 1 (yy_class CHR '']'') = Some 25" "yy_trans 1 (yy_class CHR ''('') = Some 11"
  "yy_trans 1 (yy_class CHR '')'') = Some 12" "yy_trans 1 (yy_class CHR '';'') = Some 21"
  by (simp_all add: yy_class_def yy_ec_def yy_first)

lemma lexes_separators:
  "lexes atof (CHR '':'' # cs) (TOK_EQUALS, No_Value) cs" "lexes atof (CHR ''='' # cs) (TOK_EQUALS, No_Value) cs"
  "lexes atof (CHR '','' # cs) (TOK_COMMA, No_Value) cs" "lexes atof (CHR '';'' # cs) (TOK_END, No_Value) cs"
  "lexes atof (CHR ''{'' # cs) (TOK_GROUP_START, No_Value) cs" "lexes atof (CHR ''}'' # cs) (TOK_GROUP_END, No_Value) cs"
  "lexes atof (CHR ''['' # cs) (TOK_ARRAY_START, No_Value) cs" "lexes atof (CHR '']'' # cs) (TOK_ARRAY_END, No_Value) cs"
  "lexes atof (CHR ''('' # cs) (TOK_LIST_START, No_Value) cs" "lexes atof (CHR '')'' # cs) (TOK_LIST_END, No_Value) cs"
  by (rule lexes_single, rule yy_start_at, simp_all add: yy_base_def yy_accept_def yy_action_def)+

lemma row_all:
  assumes "map (yy_trans s) [0..<44] = map Some xs" and "list_all (\<lambda>(c, t). P c t) (enumerate 0 xs)"
    and "c < 44"
  shows "\<exists>t. yy_trans s c = Some t \<and> P c t"
proof -
  have "length xs = 44" using arg_cong [OF assms(1), of length] by simp
  then have "(c, xs ! c) \<in> set (enumerate 0 xs)" using assms(3) by (simp add: in_set_enumerate_eq)
  then show ?thesis using yy_row_at [OF assms(1,3)] assms(2) by (auto simp: list_all_iff)
qed

section \<open>Blanks\<close>

lemma blank_rows:
  assumes "t = 7 \<or> t = 8 \<or> t = 33"
  shows "yy_trans t (yy_class c) = Some (if blank c then 33 else 111)"
proof -
  define P where "P k u \<longleftrightarrow> k = 0 \<or> u = (if k = 2 \<or> k = 3 then 33 else 111)" for k u :: nat
  have "\<exists>u. yy_trans t (yy_class c) = Some u \<and> P (yy_class c) u"
    using assms yy_class_range [of c]
      row_all [OF yy_row_7, of P "yy_class c"] row_all [OF yy_row_8, of P "yy_class c"]
      row_all [OF yy_row_33, of P "yy_class c"]
    by (auto simp: P_def)
  then show ?thesis using yy_class_range [of c] yy_class_blank [of c] by (auto simp: P_def)
qed

lemma blank_path: "list_all blank w \<Longrightarrow> t = 7 \<or> t = 8 \<or> t = 33 \<Longrightarrow>
    \<exists>u. yy_path t w = Some u \<and> (u = 7 \<or> u = 8 \<or> u = 33)"
  by (induction w arbitrary: t) (auto simp: blank_rows)

lemma first_blank: "blank c \<Longrightarrow> yy_trans 1 (yy_class c) = Some 7 \<or> yy_trans 1 (yy_class c) = Some 8"
  using yy_class_blank [of c] by (auto simp: yy_first)

lemma yylex_blanks:
  "yylex atof (scan_at cs l)
    = yylex atof (scan_at (dropWhile blank cs) (l + newlines (takeWhile blank cs)))"
proof (cases "takeWhile blank cs")
  case Nil
  then have "dropWhile blank cs = cs" by (metis append_Nil takeWhile_dropWhile_id)
  with Nil show ?thesis by (simp add: newlines_def)
next
  case (Cons b w)
  define r where "r = dropWhile blank cs"
  have cs: "cs = (b # w) @ r" by (simp add: r_def flip: Cons)
  have all: "blank b" "list_all blank w"
    using Cons set_takeWhileD [of _ blank cs] by (auto simp: list_all_iff)
  obtain t where t: "yy_trans 1 (yy_class b) = Some t" "t = 7 \<or> t = 8" using first_blank [OF all(1)] by auto
  then obtain u where u: "yy_path t w = Some u" "u = 7 \<or> u = 8 \<or> u = 33" using blank_path [OF all(2)] by blast
  have "yy_path 1 (b # w) = Some u" using t u by auto
  moreover have "yy_stops u r"
  proof (cases r)
    case (Cons c ds)
    then have "\<not> blank c" using hd_dropWhile [of blank cs] by (simp add: r_def)
    then show ?thesis using Cons blank_rows [OF u(2)] by (simp add: yy_stops_def)
  qed (simp add: yy_stops_def)
  ultimately have "Option.bind (yy_match 1 None 0 cs) yy_find_action = Some (5, length (b # w))"
    using yy_find_path [of 1 "b # w" u r None 0] u(2) unfolding cs by auto
  then have "yylex atof (scan_at cs l) = yylex atof (yy_advance 5 (length (b # w)) (scan_at cs l))"
    by (subst yylex.simps) (simp add: scan_at_def yy_action_def cs)
  also have "yy_advance 5 (length (b # w)) (scan_at cs l) = scan_at r (l + newlines (b # w))"
    by (simp add: yy_advance_def scan_at_def yy_rule_can_match_eol_def cs)
  finally show ?thesis by (simp only: Cons r_def)
qed

lemma lexes_blanks: "lexes atof (dropWhile blank cs) t r \<longleftrightarrow> lexes atof cs t r"
proof
  assume "lexes atof (dropWhile blank cs) t r"
  then show "lexes atof cs t r" unfolding lexes_def using yylex_blanks [of atof cs] by metis
next
  assume *: "lexes atof cs t r"
  show "lexes atof (dropWhile blank cs) t r"
    unfolding lexes_def
  proof
    fix l
    show "\<exists>l'. yylex atof (scan_at (dropWhile blank cs) l) = Some (Inr (t, scan_at r l'))"
      using spec [OF * [unfolded lexes_def], of "l - newlines (takeWhile blank cs)"]
        yylex_blanks [of atof cs "l - newlines (takeWhile blank cs)"] by simp
  qed
qed

lemma lexes_skip [simp]:
  assumes "list_all blank w"
  shows "lexes atof (w @ cs) t r \<longleftrightarrow> lexes atof cs t r"
proof -
  have "dropWhile blank (w @ cs) = dropWhile blank cs"
    using assms by (simp add: list_all_iff dropWhile_append2)
  then show ?thesis by (metis lexes_blanks)
qed

section \<open>Names\<close>

definition keyword_prefixes :: "(string \<times> nat) list" where
  "keyword_prefixes =
     [(''F'', 22), (''FA'', 46), (''FAL'', 57), (''FALS'', 69), (''FALSE'', 74),
      (''T'', 23), (''TR'', 47), (''TRU'', 58), (''TRUE'', 70),
      (''f'', 26), (''fa'', 48), (''fal'', 59), (''fals'', 71), (''false'', 74),
      (''t'', 27), (''tr'', 49), (''tru'', 60), (''true'', 70)]"

text \<open>
  The states a name leads through: a state, the class of the letter that continues a
  keyword, the state it leads to, and the state every other character of a name leads to.
\<close>

definition name_steps :: "(nat \<times> nat \<times> nat \<times> nat) list" where
  "name_steps =
     [(13, 0, 0, 39), (39, 0, 0, 39),
      (22, 19, 46, 39), (46, 24, 57, 39), (57, 26, 69, 39), (69, 21, 74, 39), (74, 0, 0, 39),
      (23, 25, 47, 39), (47, 28, 58, 39), (58, 21, 70, 39), (70, 0, 0, 39),
      (26, 34, 48, 39), (48, 37, 59, 39), (59, 39, 71, 39), (71, 35, 74, 39),
      (27, 38, 49, 39), (49, 41, 60, 39), (60, 35, 70, 39)]"

definition name_row :: "nat \<Rightarrow> nat \<Rightarrow> nat \<Rightarrow> nat \<Rightarrow> nat \<Rightarrow> bool" where
  "name_row j u d k t \<longleftrightarrow> k = 0
     \<or> (k = 2 \<longrightarrow> t = 111)
       \<and> (code_in [(8, 8), (11, 11), (14, 15), (19, 29), (33, 41)] k \<longrightarrow> t = (if k = j then u else d))"

lemma name_rows:
  assumes "(s, j, u, d) \<in> set name_steps" and "c < 44"
  shows "\<exists>t. yy_trans s c = Some t \<and> name_row j u d c t"
  using assms(1)
  by (simp only: name_steps_def list.set insert_iff empty_iff prod.inject simp_thms)
    (elim disjE conjE; hypsubst;
     rule row_all [OF _ _ assms(2)], rule yy_row_13 yy_row_39 yy_row_22 yy_row_46 yy_row_57 yy_row_69
       yy_row_74 yy_row_23 yy_row_47 yy_row_58 yy_row_70 yy_row_26 yy_row_48 yy_row_59 yy_row_71 yy_row_27
       yy_row_49 yy_row_60, simp add: name_row_def code_in_def)

lemma name_trans:
  assumes "(s, j, u, d) \<in> set name_steps"
  shows "name_char c \<Longrightarrow> yy_trans s (yy_class c) = Some (if yy_class c = j then u else d)"
    and "yy_trans s (yy_class CHR '' '') = Some 111"
proof -
  assume "name_char c"
  then show "yy_trans s (yy_class c) = Some (if yy_class c = j then u else d)"
    using name_rows [OF assms, of "yy_class c"] yy_class_range [of c] yy_class_name_char [of c]
    by (auto simp: name_row_def)
next
  have "yy_class CHR '' '' = 2" by (simp add: yy_class_def yy_ec_def)
  then show "yy_trans s (yy_class CHR '' '') = Some 111"
    using name_rows [OF assms, of 2] by (simp add: name_row_def)
qed

lemma keyword_step:
  assumes "(p, s) \<in> set keyword_prefixes" and "(s, yy_class c, u, d) \<in> set name_steps"
  shows "(p @ [c], u) \<in> set keyword_prefixes"
proof -
  have "0 < yy_class c" using yy_class_range by simp
  then show ?thesis
    using assms unfolding keyword_prefixes_def
    by (simp only: list.set insert_iff empty_iff prod.inject simp_thms)
      (elim disjE conjE; simp add: name_steps_def; simp add: yy_class_iff)
qed

lemma name_steps_targets:
  assumes "(s, j, u, d) \<in> set name_steps"
  shows "d = 39" and "0 < j \<Longrightarrow> s \<noteq> 13 \<and> s \<noteq> 39 \<and> u \<in> fst ` set name_steps"
    and "yy_base ! s \<noteq> 436" and "yy_accept ! s = (if s = 70 then 10 else if s = 74 then 11 else 12)"
proof -
  define Q where "Q = (\<lambda>(s, j :: nat, u, d :: nat). d = 39 \<and> (0 < j \<longrightarrow> s \<noteq> 13 \<and> s \<noteq> 39 \<and> u \<in> set (map fst name_steps))
    \<and> yy_base ! s \<noteq> 436 \<and> yy_accept ! s = (if s = 70 then 10 else if s = 74 then 11 else 12))"
  have "list_all Q name_steps" by (simp add: name_steps_def yy_accept_def Q_def)
  then have "Q (s, j, u, d)" using assms by (metis list_all_iff)
  then show "d = 39" and "0 < j \<Longrightarrow> s \<noteq> 13 \<and> s \<noteq> 39 \<and> u \<in> fst ` set name_steps"
    and "yy_base ! s \<noteq> 436" and "yy_accept ! s = (if s = 70 then 10 else if s = 74 then 11 else 12)"
    by (simp_all add: Q_def)
qed

definition name_reached :: "string \<Rightarrow> nat \<Rightarrow> bool" where
  "name_reached p s \<longleftrightarrow>
     s \<in> fst ` set name_steps \<and> (s = 13 \<or> s = 39 \<or> (p, s) \<in> set keyword_prefixes)"

lemma name_reached_step:
  assumes "name_reached p s" and "name_char c"
  shows "\<exists>t. yy_trans s (yy_class c) = Some t \<and> name_reached (p @ [c]) t"
proof -
  obtain j u d where row: "(s, j, u, d) \<in> set name_steps" using assms(1) by (force simp: name_reached_def)
  note targets = name_steps_targets [OF row]
  have go: "yy_trans s (yy_class c) = Some (if yy_class c = j then u else d)"
    by (rule name_trans(1) [OF row assms(2)])
  show ?thesis
  proof (cases "yy_class c = j")
    case True
    then have "0 < j" using yy_class_range [of c] by simp
    then have "(p, s) \<in> set keyword_prefixes" and "u \<in> fst ` set name_steps"
      using targets(2) assms(1) by (force simp: name_reached_def)+
    then show ?thesis using keyword_step [of p s c u d] row True go by (auto simp: name_reached_def)
  next
    case False
    have "(39, 0, 0, 39) \<in> set name_steps" by (simp add: name_steps_def)
    then show ?thesis using False go targets(1) by (force simp: name_reached_def)
  qed
qed

lemma name_reached_first:
  assumes "name_start c"
  shows "\<exists>t. yy_trans 1 (yy_class c) = Some t \<and> name_reached [c] t"
proof -
  define P where "P k t \<longleftrightarrow> (code_in [(8, 8), (19, 29), (34, 41)] k \<longrightarrow>
      t = (if k = 22 then 22 else if k = 27 then 23 else if k = 36 then 26 else if k = 40 then 27 else 13))" for k t :: nat
  obtain t where t: "yy_trans 1 (yy_class c) = Some t" "P (yy_class c) t"
    using row_all [OF yy_row_1, of P "yy_class c"] yy_class_range [of c]
    by (auto simp: P_def code_in_def)
  have "P (yy_class c) t \<longrightarrow> name_reached [c] t"
    using yy_class_name_start [OF assms]
    by (simp add: P_def name_reached_def name_steps_def keyword_prefixes_def yy_class_iff)
  with t show ?thesis by blast
qed

lemma name_path: "name_reached p s \<Longrightarrow> list_all name_char w \<Longrightarrow> \<exists>t. yy_path s w = Some t \<and> name_reached (p @ w) t"
proof (induction w arbitrary: p s)
  case (Cons c w)
  obtain u where u: "yy_trans s (yy_class c) = Some u" "name_reached (p @ [c]) u"
    using name_reached_step [OF Cons.prems(1)] Cons.prems(2) by auto
  moreover from this(2) have "yy_base ! u \<noteq> 436"
    using name_steps_targets(3) by (auto simp: name_reached_def)
  ultimately show ?case using Cons.IH [of "p @ [c]" u] Cons.prems(2) by simp
qed simp

text \<open>A name as the grammar takes it; the keywords in one case are tokens of their own.\<close>

definition valid_name :: "string \<Rightarrow> bool" where
  "valid_name n \<longleftrightarrow> n \<noteq> [] \<and> name_start (hd n) \<and> list_all name_char (tl n)
     \<and> n \<notin> set [''true'', ''TRUE'', ''false'', ''FALSE'']"

lemma name_char_not_zero: "name_char c \<Longrightarrow> c \<noteq> CHR 0x00"
  by (auto simp: name_char_def code_in_def)

lemma name_start_char: "name_start c \<Longrightarrow> name_char c"
  by (auto simp: name_start_def name_char_def code_in_def)

lemma lexes_name:
  assumes "valid_name n"
  shows "lexes atof (n @ CHR '' '' # cs) (TOK_NAME, S_Val n) (CHR '' '' # cs)"
proof -
  obtain c w where n: "n = c # w" and c: "name_start c" and w: "list_all name_char w"
    using assms by (cases n) (auto simp: valid_name_def)
  obtain t where t: "yy_trans 1 (yy_class c) = Some t" "name_reached [c] t"
    using name_reached_first [OF c] by blast
  obtain u where u: "yy_path t w = Some u" "name_reached n u"
    using name_path [OF t(2) w] by (auto simp: n)
  obtain j v d where row: "(u, j, v, d) \<in> set name_steps" using u(2) by (force simp: name_reached_def)
  have "(n, 70) \<in> set keyword_prefixes \<longleftrightarrow> n = ''TRUE'' \<or> n = ''true''"
    and "(n, 74) \<in> set keyword_prefixes \<longleftrightarrow> n = ''FALSE'' \<or> n = ''false''"
    by (simp_all add: keyword_prefixes_def)
  then have "u \<noteq> 70 \<and> u \<noteq> 74"
    using u(2) assms unfolding name_reached_def valid_name_def by force
  then have accept: "yy_accept ! u = 12" using name_steps_targets(4) [OF row] by simp
  have "yy_base ! t \<noteq> 436" using t(2) name_steps_targets(3) by (auto simp: name_reached_def)
  then have "yy_path 1 n = Some u" using t u by (simp add: n)
  moreover have "c_string n = n"
    using c w name_char_not_zero name_start_char
    by (simp add: c_string_def n takeWhile_eq_all_conv list_all_iff)
  ultimately show ?thesis
    using name_trans(2) [OF row] accept
    by (intro lexes_path [of n u]) (simp_all add: yy_stops_def yy_action_def n)
qed

section \<open>Truth values\<close>

text \<open>What the writer puts behind a value.\<close>

definition ends_value :: "string \<Rightarrow> bool" where
  "ends_value r \<longleftrightarrow> r \<noteq> [] \<and> (hd r = CHR '';'' \<or> hd r = CHR '',''
     \<or> hd r = CHR '' '' \<and> tl r \<noteq> [] \<and> hd (tl r) \<in> {CHR '')'', CHR '']''})"

lemmas rows_at =
  yy_row_at [OF yy_row_27] yy_row_at [OF yy_row_49] yy_row_at [OF yy_row_60] yy_row_at [OF yy_row_70]
  yy_row_at [OF yy_row_26] yy_row_at [OF yy_row_48] yy_row_at [OF yy_row_59] yy_row_at [OF yy_row_71]
  yy_row_at [OF yy_row_74] yy_row_at [OF yy_row_14] yy_row_at [OF yy_row_18] yy_row_at [OF yy_row_19]
  yy_row_at [OF yy_row_41] yy_row_at [OF yy_row_40] yy_row_at [OF yy_row_42] yy_row_at [OF yy_row_55]
  yy_row_at [OF yy_row_67] yy_row_at [OF yy_row_68] yy_row_at [OF yy_row_45] yy_row_at [OF yy_row_56]
  yy_row_at [OF yy_row_35] yy_row_at [OF yy_row_51] yy_first

lemma value_stops:
  assumes "ends_value r" and "t \<in> {70, 74, 18, 19, 41, 68, 56}"
  shows "yy_stops t r"
proof -
  have "yy_class (hd r) \<in> {17, 10, 2}"
    using assms(1) by (auto simp: ends_value_def yy_class_def yy_ec_def)
  then show ?thesis using assms(2) by (auto simp: yy_stops_def rows_at)
qed

lemma keyword_classes:
  "yy_class CHR ''t'' = 40" "yy_class CHR ''r'' = 38" "yy_class CHR ''u'' = 41" "yy_class CHR ''e'' = 35"
  "yy_class CHR ''f'' = 36" "yy_class CHR ''a'' = 34" "yy_class CHR ''l'' = 37" "yy_class CHR ''s'' = 39"
  by (simp_all add: yy_class_iff)

lemma lexes_bool:
  assumes "ends_value r"
  shows "lexes atof (''true'' @ r) (TOK_BOOLEAN, I_Val 1) r"
    and "lexes atof (''false'' @ r) (TOK_BOOLEAN, I_Val 0) r"
proof -
  have t: "yy_path 1 ''true'' = Some 70" and f: "yy_path 1 ''false'' = Some 74"
    by (simp_all add: keyword_classes rows_at)
  show "lexes atof (''true'' @ r) (TOK_BOOLEAN, I_Val 1) r"
    and "lexes atof (''false'' @ r) (TOK_BOOLEAN, I_Val 0) r"
    by (rule lexes_path [OF t _ value_stops [OF assms]] lexes_path [OF f _ value_stops [OF assms]];
        simp add: yy_action_def)+
qed

section \<open>Numbers\<close>

lemma digit_trans:
  assumes "is_digit c"
  shows "yy_trans 1 (yy_class c) \<in> {Some 18, Some 19}"
    and "t \<in> {14, 18, 19, 41} \<Longrightarrow> yy_trans t (yy_class c) = Some 41"
    and "t \<in> {40, 42} \<Longrightarrow> yy_trans t (yy_class c) = Some 42"
    and "t \<in> {67, 68} \<Longrightarrow> yy_trans t (yy_class c) = Some 68"
    and "yy_trans 45 (yy_class c) = Some 56" and "yy_trans 56 (yy_class c) = Some 56"
  using yy_class_digit [OF assms] by (auto simp: rows_at)

lemma digits_path:
  "list_all is_digit w \<Longrightarrow> t \<in> {18, 19, 41} \<Longrightarrow> \<exists>u \<in> {18, 19, 41}. yy_path t w = Some u"
  "list_all is_digit w \<Longrightarrow> yy_path 42 w = Some 42"
  "list_all is_digit w \<Longrightarrow> yy_path 68 w = Some 68"
  by (induction w arbitrary: t) (auto simp: digit_trans)

lemma is_digit_char: "d < 10 \<Longrightarrow> is_digit (digit_char d)"
  by (simp add: eval_nat_numeral(2,3) less_Suc_eq digit_char_def is_digit_def code_in_def)
     (elim disjE; simp)

lemma digit_value_char: "d < 16 \<Longrightarrow> digit_value (digit_char d) = int d"
  by (simp add: eval_nat_numeral(2,3) less_Suc_eq) (elim disjE; simp add: digit_char_def digit_value_def)

lemma all_digits: "list_all is_digit (digits 10 n)"
  by (induction "10 :: nat" n rule: digits.induct) (subst digits.simps, simp add: is_digit_char)

lemma digits_not_empty [simp]: "digits base n \<noteq> []"
  by (subst digits.simps) simp

lemma read_digits_append:
  "list_all (\<lambda>c. digit_value c < base) w \<Longrightarrow>
    read_digits base a (w @ v) = read_digits base (read_digits base a w) v"
  by (induction w arbitrary: a) auto

lemma digits_valued: "2 \<le> base \<Longrightarrow> base \<le> 16 \<Longrightarrow> list_all (\<lambda>c. digit_value c < int base) (digits base n)"
proof (induction base n rule: digits.induct)
  case (1 base n)
  have "n mod base < base" and "n mod base < 16" using 1 less_le_trans [of "n mod base" base 16] by simp_all
  then have "digit_value (digit_char (n mod base)) < int base"
    using digit_value_char [of "n mod base"] 1 by simp
  then show ?case using 1 by (subst digits.simps) (auto simp: digit_value_char)
qed

lemma read_printed: "2 \<le> base \<Longrightarrow> base \<le> 16 \<Longrightarrow> read_digits (int base) 0 (digits base n) = int n"
proof (induction base n rule: digits.induct)
  case (1 base n)
  show ?case
  proof (cases "n < base")
    case True
    then show ?thesis using 1 by (subst digits.simps) (simp add: digit_value_char)
  next
    case False
    have "n mod base < base" and "n mod base < 16" using 1 less_le_trans [of "n mod base" base 16] by simp_all
    then have "digit_value (digit_char (n mod base)) = int n mod int base \<and> int n mod int base < int base"
      using digit_value_char [of "n mod base"] 1 by (simp add: zmod_int)
    then show ?thesis
      using False 1 digits_valued [of base "n div base"]
      by (subst digits.simps) (simp add: read_digits_append digit_value_char zdiv_int zmod_int)
  qed
qed

text \<open>\<open>%ld\<close> writes a \<open>long\<close>, and \<open>atoi\<close> reads it back where it fits an \<open>int\<close>.\<close>

lemma atoi_of_print_ld: "atoi (print_ld i) = (if - (2 ^ 31) \<le> i \<and> i < 2 ^ 31 then Inr i else Inl Overflow)"
proof -
  have "hd (digits 10 n) \<noteq> CHR ''-'' \<and> hd (digits 10 n) \<noteq> CHR ''+''" for n
    using all_digits [of n] digits_not_empty [of 10 n]
    by (cases "digits 10 n") (auto simp: is_digit_def code_in_def)
  then show ?thesis
    using read_printed [of 10 "nat i"] read_printed [of 10 "nat (- i)"]
    by (simp add: atoi_def print_ld_def Let_def)
qed

lemma atoi_print_ld: "- (2 ^ 31) \<le> i \<Longrightarrow> i < 2 ^ 31 \<Longrightarrow> atoi (print_ld i) = Inr i"
  by (simp add: atoi_of_print_ld)

lemma strtoul_print_lX:
  assumes "- (2 ^ 63) \<le> i" and "i < 2 ^ 63"
  shows "signed_long (strtoul_16 (print_lX i)) = i"
proof -
  have "strtoul_16 (print_lX i) = take_bit 64 i"
    using read_printed [of 16 "nat (i mod 2 ^ 64)"] pos_mod_bound [of "2 ^ 64" i]
    by (simp add: strtoul_16_def print_lX_def take_bit_eq_mod)
  then show ?thesis
    using assms by (simp add: signed_long_def signed_take_bit_take_bit signed_take_bit_int_eq_self)
qed

lemma lexes_int:
  assumes "- (2 ^ 31) \<le> i" and "i < 2 ^ 31" and "ends_value r"
  shows "lexes atof (print_ld i @ r) (TOK_INTEGER, I_Val i) r"
proof -
  have unsigned: "\<exists>t \<in> {18, 19, 41}. yy_path 1 (digits 10 n) = Some t"
    and signed: "\<exists>t \<in> {18, 19, 41}. yy_path 14 (digits 10 n) = Some t" for n
  proof -
    obtain c w where cw: "digits 10 n = c # w" using digits_not_empty by (cases "digits 10 n") auto
    then have c: "is_digit c" and w: "list_all is_digit w" using all_digits [of n] by simp_all
    show "\<exists>t \<in> {18, 19, 41}. yy_path 1 (digits 10 n) = Some t"
      using digit_trans(1) [OF c] digits_path(1) [OF w, of 18] digits_path(1) [OF w, of 19] by (auto simp: cw)
    show "\<exists>t \<in> {18, 19, 41}. yy_path 14 (digits 10 n) = Some t"
      using digit_trans(2) [OF c, of 14] digits_path(1) [OF w, of 41] by (auto simp: cw)
  qed
  have "yy_trans 1 (yy_class CHR ''-'') = Some 14" by (simp add: yy_class_def yy_ec_def yy_first)
  then obtain t where t: "t \<in> {18, 19, 41}" "yy_path 1 (print_ld i) = Some t"
    using unsigned signed by (cases "i < 0") (auto simp: print_ld_def)
  have "yy_accept ! t = 14" using t(1) by auto
  then show ?thesis
    using t value_stops [OF assms(3), of t] atoi_print_ld [OF assms(1,2)]
    by (intro lexes_path [OF t(2)]) (auto simp: yy_action_def print_ld_def)
qed

definition is_hex :: "char \<Rightarrow> bool" where
  "is_hex c \<longleftrightarrow> c \<in> set ''0123456789ABCDEF''"

lemma hex_trans: "is_hex c \<Longrightarrow> yy_trans 45 (yy_class c) = Some 56 \<and> yy_trans 56 (yy_class c) = Some 56"
  unfolding is_hex_def by (simp, elim disjE; simp add: yy_class_def yy_ec_def rows_at)

lemma hex_digits: "list_all is_hex (digits 16 n)"
proof (induction "16 :: nat" n rule: digits.induct)
  case (1 n)
  have "d < 16 \<Longrightarrow> is_hex (digit_char d)" for d
    by (simp add: eval_nat_numeral(2,3) less_Suc_eq) (elim disjE; simp add: digit_char_def is_hex_def)
  then show ?case using 1 by (subst digits.simps) simp
qed

lemma hex_path: "list_all is_hex w \<Longrightarrow> yy_path 56 w = Some 56"
  by (induction w) (auto simp: hex_trans)

lemma lexes_hex:
  assumes "- (2 ^ 63) \<le> i" and "i < 2 ^ 63" and "ends_value r"
  shows "lexes atof (print_lX i @ r) (TOK_HEX, I_Val i) r"
proof -
  have "yy_path 45 (digits 16 n) = Some 56" for n
    using hex_digits [of n] digits_not_empty [of 16 n]
    by (cases "digits 16 n") (auto simp: hex_trans hex_path)
  moreover have "yy_trans 1 (yy_class CHR ''0'') = Some 18" "yy_trans 18 (yy_class CHR ''x'') = Some 45"
    by (simp_all add: yy_class_def yy_ec_def rows_at)
  ultimately have path: "yy_path 1 (print_lX i) = Some 56" by (simp add: print_lX_def)
  show ?thesis
    by (rule lexes_path [OF path _ value_stops [OF assms(3)]])
      (use strtoul_print_lX [OF assms(1,2)] in \<open>auto simp: yy_action_def print_lX_def\<close>)
qed

text \<open>
  The documented form of \<open>%e\<close>: an optional sign, a digit, a point, six digits, \<open>e\<close>, a sign
  and at least two digits.
\<close>

definition e_format :: "string \<Rightarrow> bool" where
  "e_format s \<longleftrightarrow> (\<exists>sign d ds esign es. s = sign @ d # CHR ''.'' # ds @ CHR ''e'' # esign # es
     \<and> (sign = [] \<or> sign = ''-'') \<and> is_digit d \<and> length ds = 6 \<and> list_all is_digit ds
     \<and> (esign = CHR ''+'' \<or> esign = CHR ''-'') \<and> 2 \<le> length es \<and> list_all is_digit es)"

lemma e_format_path:
  assumes "e_format s"
  shows "yy_path 1 s = Some 68"
proof -
  obtain sign d ds esign es where s: "s = sign @ d # CHR ''.'' # ds @ CHR ''e'' # esign # es"
    and parts: "sign = [] \<or> sign = ''-''" "is_digit d" "length ds = 6" "list_all is_digit ds"
      "esign = CHR ''+'' \<or> esign = CHR ''-''" "2 \<le> length es" "list_all is_digit es"
    using assms unfolding e_format_def by blast
  have classes: "yy_class CHR ''-'' = 11" "yy_class CHR ''.'' = 12" "yy_class CHR ''e'' = 35" "yy_class CHR ''+'' = 9"
    by (simp_all add: yy_class_def yy_ec_def)
  then have punctuation: "yy_trans 1 (yy_class CHR ''-'') = Some 14"
      "yy_trans 42 (yy_class CHR ''e'') = Some 55" "yy_trans 55 (yy_class esign) = Some 67"
    using parts(5) by (auto simp: rows_at)
  have point: "t \<in> {18, 19, 41} \<Longrightarrow> yy_trans t (yy_class CHR ''.'') = Some 40" for t
    by (auto simp: rows_at classes)
  have "\<exists>t \<in> {18, 19, 41}. yy_path 1 (sign @ [d]) = Some t"
  proof (cases "sign = []")
    case True
    then show ?thesis using digit_trans(1) [OF parts(2)] by auto
  next
    case False
    then show ?thesis
      using parts(1) punctuation(1) digit_trans(2) [OF parts(2), of 14] by simp
  qed
  then obtain t where t: "t \<in> {18, 19, 41}" "yy_path 1 (sign @ [d]) = Some t" by blast
  have fraction: "yy_path 40 ds = Some 42"
    using parts(3,4) digit_trans(3) by (cases ds) (auto simp: digits_path)
  have exponent: "yy_path 67 es = Some 68"
    using parts(6,7) digit_trans(4) by (cases es) (auto simp: digits_path)
  have "s = (sign @ [d]) @ CHR ''.'' # ds @ CHR ''e'' # esign # es" by (simp add: s)
  then show ?thesis
    using t punctuation point [OF t(1)] fraction exponent
    by (simp only: yy_path_append) (simp add: yy_path_append)
qed

lemma lexes_float:
  assumes "e_format s" and "ends_value r"
  shows "lexes atof (s @ r) (TOK_FLOAT, F_Val (atof s)) r"
  by (rule lexes_path [OF e_format_path [OF assms(1)] _ value_stops [OF assms(2)]])
    (use assms(1) in \<open>auto simp: yy_action_def e_format_def\<close>)

section \<open>Strings\<close>

lemma string_trans:
  assumes "t = 9 \<or> t = 34"
  shows "c \<noteq> CHR 0x22 \<Longrightarrow> c \<noteq> CHR 0x5C \<Longrightarrow> yy_trans t (yy_class c) = Some 34"
    and "yy_trans t (yy_class CHR 0x22) = Some 35" and "yy_trans t (yy_class CHR 0x5C) = Some 36"
    and "c \<noteq> CHR 0x0A \<Longrightarrow> yy_trans 36 (yy_class c) = Some 34"
proof -
  define P where "P k u \<longleftrightarrow> k = 0 \<or> u = (if k = 4 then 35 else if k = 31 then 36 else 34)" for k u :: nat
  have inside: "\<exists>u. yy_trans t (yy_class c) = Some u \<and> P (yy_class c) u" for c
    using assms yy_class_range [of c] row_all [OF yy_row_9, of P "yy_class c"]
      row_all [OF yy_row_34, of P "yy_class c"]
    by (auto simp: P_def)
  show "c \<noteq> CHR 0x22 \<Longrightarrow> c \<noteq> CHR 0x5C \<Longrightarrow> yy_trans t (yy_class c) = Some 34"
    using inside [of c] yy_class_range [of c] by (auto simp: P_def yy_class_iff)
  have "yy_class CHR 0x22 = 4" and "yy_class CHR 0x5C = 31" by (simp_all add: yy_class_iff)
  then show "yy_trans t (yy_class CHR 0x22) = Some 35" and "yy_trans t (yy_class CHR 0x5C) = Some 36"
    using inside [of "CHR 0x22"] inside [of "CHR 0x5C"] by (auto simp: P_def)
  define Q where "Q k u \<longleftrightarrow> k = 0 \<or> k = 3 \<or> u = 34" for k u :: nat
  have "\<exists>u. yy_trans 36 (yy_class c) = Some u \<and> Q (yy_class c) u"
    using yy_class_range [of c] row_all [OF yy_row_36, of Q "yy_class c"] by (auto simp: Q_def)
  then show "c \<noteq> CHR 0x0A \<Longrightarrow> yy_trans 36 (yy_class c) = Some 34"
    using yy_class_range [of c] by (auto simp: Q_def yy_class_iff)
qed

lemma written_char_path: "t = 9 \<or> t = 34 \<Longrightarrow> yy_path t (write_char c) = Some 34"
  by (simp add: string_trans)

lemma written_chars_path:
  "t = 9 \<or> t = 34 \<Longrightarrow> \<exists>u. yy_path t (concat (map write_char s)) = Some u \<and> (u = 9 \<or> u = 34)"
  by (induction s arbitrary: t) (auto simp: yy_path_append written_char_path simp del: write_char.simps)

lemma unescape_written:
  "unescape False (write_char c @ cs) = bind_result (unescape False cs) (\<lambda>q. Inr (c # q))"
  by (auto simp: escaped_def)

lemma unescape_all: "unescape False (concat (map write_char s)) = Inr s"
  by (induction s) (simp_all add: unescape_written del: write_char.simps)

text \<open>Behind the closing quote the scanner looks past blanks for another segment, and comes back.\<close>

lemma yy_find_backup:
  assumes "yy_path s w = Some t" and "yy_accept ! t \<noteq> 0" and "yy_trans t (yy_class c) = Some u"
    and "yy_base ! u \<noteq> 436" and "yy_accept ! u = 0" and "yy_trans u (yy_class d) = Some 111"
  shows "Option.bind (yy_match s accepted n (w @ c # d # cs)) yy_find_action = Some (yy_accept ! t, n + length w)"
proof -
  obtain a where "yy_match s accepted n (w @ c # d # cs) = yy_match t a (n + length w) (c # d # cs)"
    using yy_match_path [OF assms(1)] by blast
  then show ?thesis using assms(2-6) by (simp add: yy_find_action_def)
qed

lemma string_closed:
  assumes "yy_path 1 w = Some 35" and "ends_value r"
  shows "Option.bind (yy_match 1 None 0 (w @ r)) yy_find_action = Some (16, length w)"
proof (cases "hd r = CHR '' ''")
  case True
  then obtain d q where r: "r = CHR '' '' # d # q" "d = CHR '')'' \<or> d = CHR '']''"
    using assms(2) by (cases r; cases "tl r") (auto simp: ends_value_def)
  then have "yy_trans 51 (yy_class d) = Some 111" by (auto simp: yy_class_def yy_ec_def rows_at)
  moreover have "yy_trans 35 (yy_class CHR '' '') = Some 51" by (simp add: yy_class_def yy_ec_def rows_at)
  ultimately show ?thesis
    using yy_find_backup [OF assms(1), of "CHR '' ''" 51 d None 0 q] r(1) by simp
next
  case False
  then have "yy_class (hd r) = 17 \<or> yy_class (hd r) = 10"
    using assms(2) by (auto simp: ends_value_def yy_class_def yy_ec_def)
  then have "yy_stops 35 r" by (auto simp: yy_stops_def rows_at)
  then show ?thesis using yy_find_path [OF assms(1), of r None 0] by simp
qed

lemma lexes_string:
  assumes "ends_value r" and "CHR 0x00 \<notin> set s"
  shows "lexes atof (write_string (Some s) @ r) (TOK_STRING, S_Val s) r"
proof -
  define body where "body = concat (map write_char s)"
  have w: "write_string (Some s) = CHR 0x22 # body @ [CHR 0x22]" by (simp add: write_string_def body_def)
  obtain u where u: "yy_path 9 body = Some u" "u = 9 \<or> u = 34"
    using written_chars_path [of 9 s] by (auto simp: body_def)
  have "yy_trans 1 (yy_class CHR 0x22) = Some 9" using yy_class_iff(2) [of "CHR 0x22"] by (simp add: rows_at)
  then have path: "yy_path 1 (write_string (Some s)) = Some 35"
    using u string_trans(2) [OF u(2)] by (simp add: w yy_path_append)
  have "CHR 0x00 \<notin> set body" using assms(2) by (auto simp: body_def)
  then have "c_string (body @ [CHR 0x22]) = body @ [CHR 0x22]"
    by (auto simp: c_string_def takeWhile_eq_all_conv)
  then have "make_string (write_string (Some s)) = Inr s"
    using unescape_all [of s] by (simp add: make_string_def w body_def)
  then show ?thesis
    using lexes_action [OF string_closed [OF path assms(1)]] by (simp add: yy_action_def w)
qed

text \<open>A null string is written like the empty one.\<close>

lemma lexes_null_string: "ends_value r \<Longrightarrow> lexes atof (write_string None @ r) (TOK_STRING, S_Val []) r"
  using lexes_string [of r "[]"] by (simp add: write_string_def)

lemma lexes_end: "lexes atof [] (TOK_EOF, No_Value) []"
  unfolding lexes_def by (subst yylex.simps) (simp add: scan_at_def)

lemma blank_chars [simp]: "blank CHR '' ''" "blank CHR 0x0A"
  by (simp_all add: blank_def)

lemma lexes_blank [simp]:
  "lexes atof (CHR '' '' # cs) t r \<longleftrightarrow> lexes atof cs t r" "lexes atof (CHR 0x0A # cs) t r \<longleftrightarrow> lexes atof cs t r"
  using lexes_skip [of "'' ''"] lexes_skip [of "[CHR 0x0A]"] by simp_all

lemma blanks_blank [simp]: "list_all blank (blanks depth)"
  by (simp add: blanks_def list_all_iff)

end
