(* ===== verification/Config_Parser.thy ===== *)
theory Config_Parser
  imports Config_Text Config_Scanner
begin

text \<open>
  The parser of the configuration library (\<open>src/libconfig/grammar.c\<close>, generated by bison): the
  tables of the automaton, its driver, and the actions that build the tree of settings.
\<close>

section \<open>The tables\<close>

text \<open>The internal number of a token.\<close>

fun yytranslate :: "yytokentype \<Rightarrow> int" where
  "yytranslate TOK_EOF = 0"
| "yytranslate TOK_BOOLEAN = 3"
| "yytranslate TOK_INTEGER = 4"
| "yytranslate TOK_HEX = 5"
| "yytranslate TOK_FLOAT = 6"
| "yytranslate TOK_STRING = 7"
| "yytranslate TOK_NAME = 8"
| "yytranslate TOK_EQUALS = 9"
| "yytranslate TOK_NEWLINE = 10"
| "yytranslate TOK_ARRAY_START = 11"
| "yytranslate TOK_ARRAY_END = 12"
| "yytranslate TOK_LIST_START = 13"
| "yytranslate TOK_LIST_END = 14"
| "yytranslate TOK_COMMA = 15"
| "yytranslate TOK_GROUP_START = 16"
| "yytranslate TOK_GROUP_END = 17"
| "yytranslate TOK_END = 18"
| "yytranslate TOK_GARBAGE = 19"

definition YYFINAL :: nat where "YYFINAL = 6"
definition YYLAST :: int where "YYLAST = 30"
definition YYNTOKENS :: nat where "YYNTOKENS = 20"
definition YYMAXDEPTH :: nat where "YYMAXDEPTH = 10000"
definition YYPACT_NINF :: int where "YYPACT_NINF = -18"
definition YYTABLE_NINF :: int where "YYTABLE_NINF = -1"

definition yyr1 :: "nat list" where
  "yyr1 =
     [0, 20, 21, 21, 22, 22, 23, 23, 25, 24, 27, 26, 29, 28, 30, 30, 30, 30, 31, 31,
      31, 31, 31, 32, 32, 33, 33, 34, 34, 35, 35, 37, 36]"

definition yyr2 :: "nat list" where
  "yyr2 =
     [0, 2, 0, 1, 1, 2, 0, 1, 0, 5, 0, 4, 0, 4, 1, 1, 1, 1, 1, 1,
      1, 1, 1, 1, 3, 0, 1, 1, 3, 0, 1, 0, 4]"

definition yydefact :: "nat list" where
  "yydefact =
     [2, 8, 0, 3, 4, 0, 1, 5, 0, 18, 19, 20, 21, 22, 10, 12, 31, 15, 16, 0,
      14, 17, 29, 25, 6, 9, 27, 30, 0, 23, 26, 0, 7, 0, 0, 11, 0, 13, 32, 28,
      24]"

definition yydefgoto :: "int list" where
  "yydefgoto = [-1, 2, 3, 33, 4, 5, 17, 22, 18, 23, 19, 20, 30, 31, 27, 28, 21, 24]"

definition yypact :: "int list" where
  "yypact =
     [-1, -18, 10, -1, -18, 3, -18, -18, -2, -18, -18, -18, -18, -18, -18, -18, -18, -18, -18, -5,
      -18, -18, 18, -2, -1, -18, -18, 0, 4, -18, 2, 12, -1, 1, 18, -18, -2, -18, -18, -18,
      -18]"

definition yypgoto :: "int list" where
  "yypgoto = [-18, -18, 6, -18, -3, -18, -18, -18, -18, -18, -17, -14, -18, -18, -18, -18, -18, -18]"

definition yytable :: "int list" where
  "yytable =
     [7, 9, 10, 11, 12, 13, 29, 1, 26, 14, 6, 15, 8, 25, 16, 34, 35, 36, 38, 40,
      39, 9, 10, 11, 12, 13, 37, 0, 0, 7, 32]"

definition yycheck :: "int list" where
  "yycheck =
     [3, 3, 4, 5, 6, 7, 23, 8, 22, 11, 0, 13, 9, 18, 16, 15, 12, 15, 17, 36,
      34, 3, 4, 5, 6, 7, 14, -1, -1, 32, 24]"

section \<open>The actions\<close>

text \<open>
  The context of a parse: the tree with the formats, the handles \<open>parent\<close> and \<open>setting\<close> (\<open>None\<close>
  for the null pointer), and the error recorded in the configuration.
\<close>

record parse_context =
  ctx_tree :: content
  ctx_formats :: formats
  ctx_parent :: "handle option"
  ctx_setting :: "handle option"
  ctx_error :: "(string \<times> int) option"

text \<open>An action goes on, or ends the parse by \<open>YYABORT\<close> after recording an error.\<close>

datatype action_result = Continue parse_context | Yyabort parse_context

definition yyerror :: "int \<Rightarrow> string \<Rightarrow> parse_context \<Rightarrow> parse_context" where
  "yyerror line s ctx = ctx\<lparr>ctx_error := Some (s, line)\<rparr>"

definition err_array_elem_type :: string where
  "err_array_elem_type = ''mismatched element type in array''"

definition err_duplicate_setting :: string where
  "err_duplicate_setting = ''duplicate setting name''"

definition parent_has_type :: "config_type \<Rightarrow> parse_context \<Rightarrow> bool" where
  "parent_has_type ty ctx =
     (case ctx_parent ctx of None \<Rightarrow> False
      | Some p \<Rightarrow> map_option config_setting_type (node (ctx_tree ctx) p) = Some ty)"

definition IN_ARRAY :: "parse_context \<Rightarrow> bool" where
  "IN_ARRAY ctx = parent_has_type CONFIG_TYPE_ARRAY ctx"

definition IN_LIST :: "parse_context \<Rightarrow> bool" where
  "IN_LIST ctx = parent_has_type CONFIG_TYPE_LIST ctx"

text \<open>The parent of a setting; the root has none.\<close>

definition parent_of :: "handle \<Rightarrow> handle option" where
  "parent_of h = (if h = [] then None else Some (butlast h))"

fun ival :: "yystype \<Rightarrow> int result" where
  "ival (I_Val i) = Inr i" | "ival _ = Inl Type_Confusion"

fun fval :: "yystype \<Rightarrow> real result" where
  "fval (F_Val x) = Inr x" | "fval _ = Inl Type_Confusion"

fun sval :: "yystype \<Rightarrow> string result" where
  "sval (S_Val s) = Inr s" | "sval _ = Inl Type_Confusion"

text \<open>Rule 8: the name of a setting.\<close>

definition add_named :: "int \<Rightarrow> string \<Rightarrow> parse_context \<Rightarrow> action_result" where
  "add_named line name ctx =
     (case Option.bind (ctx_parent ctx) (\<lambda>p. config_setting_add (ctx_tree ctx) p (Some name) CONFIG_TYPE_NONE) of
        None \<Rightarrow> Yyabort (yyerror line err_duplicate_setting (ctx\<lparr>ctx_setting := None\<rparr>))
      | Some (t, h) \<Rightarrow> Continue (ctx\<lparr>ctx_tree := t, ctx_setting := Some h\<rparr>))"

text \<open>Rules 10, 12 and 31: the opening of an array, a list or a group.\<close>

definition open_collection :: "config_type \<Rightarrow> parse_context \<Rightarrow> action_result result" where
  "open_collection ty ctx =
     (if IN_LIST ctx then
        (case Option.bind (ctx_parent ctx) (\<lambda>p. config_setting_add (ctx_tree ctx) p None ty) of
           None \<Rightarrow> Inr (Continue (ctx\<lparr>ctx_parent := None\<rparr>))
         | Some (t, h) \<Rightarrow> Inr (Continue (ctx\<lparr>ctx_tree := t, ctx_parent := Some h\<rparr>)))
      else bind_result (deref (ctx_setting ctx)) (\<lambda>h.
        Inr (Continue (ctx\<lparr>ctx_tree := update h (\<lambda>_. zeroed ty) (ctx_tree ctx),
          ctx_parent := Some h, ctx_setting := None\<rparr>))))"

text \<open>Rules 11, 13 and 32: its end.\<close>

definition close_collection :: "parse_context \<Rightarrow> parse_context" where
  "close_collection ctx = ctx\<lparr>ctx_parent := Option.bind (ctx_parent ctx) parent_of\<rparr>"

text \<open>
  Rules 18 to 22: a simple value is appended to the parent in an array or a list, and
  otherwise stored in the setting; the result of storing it is not looked at.  \<open>elem\<close> and \<open>set\<close>
  are the setters for the type of the value.
\<close>

definition store_value ::
  "int \<Rightarrow> (content \<Rightarrow> handle \<Rightarrow> int \<Rightarrow> (content \<times> handle) option) \<Rightarrow> (content \<Rightarrow> content option)
    \<Rightarrow> config_format option \<Rightarrow> parse_context \<Rightarrow> action_result result" where
  "store_value line elem_setter setter format ctx =
     (let formatted = (\<lambda>t h. case format of None \<Rightarrow> ctx_formats ctx
                              | Some f \<Rightarrow> config_setting_set_format t h f (ctx_formats ctx)) in
      if IN_ARRAY ctx \<or> IN_LIST ctx then
        (case Option.bind (ctx_parent ctx) (\<lambda>p. elem_setter (ctx_tree ctx) p (-1)) of
           None \<Rightarrow> Inr (Yyabort (yyerror line err_array_elem_type ctx))
         | Some (t, e) \<Rightarrow> Inr (Continue (ctx\<lparr>ctx_tree := t, ctx_formats := formatted t e\<rparr>)))
      else bind_result (deref (ctx_setting ctx)) (\<lambda>h.
        let t = (case set_through (ctx_tree ctx) h setter of None \<Rightarrow> ctx_tree ctx | Some t \<Rightarrow> t) in
        Inr (Continue (ctx\<lparr>ctx_tree := t, ctx_formats := formatted t h\<rparr>))))"

definition yyaction :: "nat \<Rightarrow> int \<Rightarrow> yystype \<Rightarrow> parse_context \<Rightarrow> action_result result" where
  "yyaction rule line v ctx =
     (if rule = 8 then bind_result (sval v) (\<lambda>s. Inr (add_named line s ctx))
      else if rule = 10 then open_collection CONFIG_TYPE_ARRAY ctx
      else if rule = 12 then open_collection CONFIG_TYPE_LIST ctx
      else if rule = 31 then open_collection CONFIG_TYPE_GROUP ctx
      else if rule = 11 \<or> rule = 13 \<or> rule = 32 then Inr (Continue (close_collection ctx))
      else if rule = 18 then bind_result (ival v) (\<lambda>i.
        store_value line (\<lambda>t p n. config_setting_set_bool_elem t p n i)
          (\<lambda>c. config_setting_set_bool c i) None ctx)
      else if rule = 19 then bind_result (ival v) (\<lambda>i.
        store_value line (\<lambda>t p n. config_setting_set_int_elem t p n i)
          (\<lambda>c. config_setting_set_int c i) (Some CONFIG_FORMAT_DEFAULT) ctx)
      else if rule = 20 then bind_result (ival v) (\<lambda>i.
        store_value line (\<lambda>t p n. config_setting_set_int_elem t p n i)
          (\<lambda>c. config_setting_set_int c i) (Some CONFIG_FORMAT_HEX) ctx)
      else if rule = 21 then bind_result (fval v) (\<lambda>x.
        store_value line (\<lambda>t p n. config_setting_set_float_elem t p n x)
          (\<lambda>c. config_setting_set_float c x) None ctx)
      else if rule = 22 then bind_result (sval v) (\<lambda>s.
        store_value line (\<lambda>t p n. config_setting_set_string_elem t p n (Some s))
          (\<lambda>c. config_setting_set_string c (Some s)) None ctx)
      else Inr (Continue ctx))"

section \<open>The driver\<close>

text \<open>
  The states with their values on one stack, its top first, the look-ahead token with its value
  (\<open>None\<close> for \<open>YYEMPTY\<close>), the scanner and the context.
\<close>

record parser =
  yystack :: "(nat \<times> yystype) list"
  yychar :: "(yytokentype \<times> yystype) option"
  yyscanner :: scanner
  yyctx :: parse_context

definition yystate :: "parser \<Rightarrow> nat" where
  "yystate p = fst (hd (yystack p))"

text \<open>
  What to do next: shift to a state, reduce by a rule, accept, or report an error.
  \<open>yydefault\<close> is the default of a state, \<open>yyaction_on\<close> its action on a token.
\<close>

datatype move = Shift nat | Reduce nat | Accept | Syntax_Error

definition yydefault :: "nat \<Rightarrow> move" where
  "yydefault s = (if yydefact ! s = 0 then Syntax_Error else Reduce (yydefact ! s))"

definition yyaction_on :: "nat \<Rightarrow> yytokentype \<Rightarrow> move" where
  "yyaction_on s t =
     (let n = yypact ! s + yytranslate t in
      if n < 0 \<or> YYLAST < n \<or> yycheck ! nat n \<noteq> yytranslate t then yydefault s
      else let a = yytable ! nat n in
        if a = 0 \<or> a = YYTABLE_NINF then Syntax_Error
        else if a < 0 then Reduce (nat (- a))
        else if nat a = YYFINAL then Accept
        else Shift (nat a))"

text \<open>The state a nonterminal leads to from the state below it.\<close>

definition yygoto :: "nat \<Rightarrow> nat \<Rightarrow> nat" where
  "yygoto rule s =
     (let lhs = yyr1 ! rule - YYNTOKENS; n = yypgoto ! lhs + int s in
      if 0 \<le> n \<and> n \<le> YYLAST \<and> yycheck ! nat n = int s then nat (yytable ! nat n)
      else nat (yydefgoto ! lhs))"

definition yyshift :: "nat \<Rightarrow> parser \<Rightarrow> parser" where
  "yyshift s p =
     p\<lparr>yystack := (s, (case yychar p of None \<Rightarrow> No_Value | Some (t, v) \<Rightarrow> v)) # yystack p,
       yychar := (case yychar p of Some (TOK_EOF, v) \<Rightarrow> Some (TOK_EOF, v) | _ \<Rightarrow> None)\<rparr>"

text \<open>
  The stack after a reduction; the value is that of the first symbol of the rule, and is
  left open for an empty rule.
\<close>

definition yypop :: "nat \<Rightarrow> (nat \<times> yystype) list \<Rightarrow> (nat \<times> yystype) list" where
  "yypop rule st =
     (let len = yyr2 ! rule; rest = drop len st in
      (yygoto rule (fst (hd rest)), if len = 0 then No_Value else snd (st ! (len - 1))) # rest)"

definition yyreduce :: "nat \<Rightarrow> parser \<Rightarrow> (parser + parse_context) result" where
  "yyreduce rule p =
     bind_result (yyaction rule (yylineno (yyscanner p)) (snd (hd (yystack p))) (yyctx p)) (\<lambda>r.
       case r of
         Yyabort ctx \<Rightarrow> Inr (Inr ctx)
       | Continue ctx \<Rightarrow> Inr (Inl (p\<lparr>yystack := yypop rule (yystack p), yyctx := ctx\<rparr>)))"

text \<open>
  A state without entries in the table does not look at the next token (\<open>yyact\<close>).  The
  grammar has no rule with the error token, so the search for a state that shifts it empties
  the stack and the parse is aborted (lemma \<open>no_state_takes_errors\<close>); \<open>yyerrstatus\<close> stays 0.
\<close>

definition takes_error :: "nat \<Rightarrow> bool" where
  "takes_error s \<longleftrightarrow> yypact ! s \<noteq> YYPACT_NINF
     \<and> (let n = yypact ! s + 1 in 0 \<le> n \<and> n \<le> YYLAST \<and> yycheck ! nat n = 1 \<and> 0 < yytable ! nat n)"

definition yylookahead :: "(string \<Rightarrow> real) \<Rightarrow> parser \<Rightarrow> parser result option" where
  "yylookahead atof p =
     (if yypact ! yystate p = YYPACT_NINF \<or> yychar p \<noteq> None then Some (Inr p)
      else map_option (\<lambda>r. bind_result r (\<lambda>(t, s). Inr (p\<lparr>yychar := Some t, yyscanner := s\<rparr>)))
        (yylex atof (yyscanner p)))"

definition yyact :: "parser \<Rightarrow> move" where
  "yyact p =
     (if yypact ! yystate p = YYPACT_NINF then yydefault (yystate p)
      else case yychar p of None \<Rightarrow> yydefault (yystate p) | Some (t, v) \<Rightarrow> yyaction_on (yystate p) t)"

text \<open>The result is 0 for success, 1 for an error and 2 when the stack is used up.\<close>

partial_function (option) yyparse ::
  "(string \<Rightarrow> real) \<Rightarrow> parser \<Rightarrow> (int \<times> parse_context) result option" where
  "yyparse atof p =
     (if YYMAXDEPTH \<le> length (yystack p) then
        Some (Inr (2, yyerror (yylineno (yyscanner p)) ''memory exhausted'' (yyctx p)))
      else case yylookahead atof p of
        None \<Rightarrow> None
      | Some (Inl e) \<Rightarrow> Some (Inl e)
      | Some (Inr q) \<Rightarrow>
          (case yyact q of
             Accept \<Rightarrow> Some (Inr (0, yyctx q))
           | Syntax_Error \<Rightarrow> Some (Inr (1, yyerror (yylineno (yyscanner q)) ''syntax error'' (yyctx q)))
           | Shift s \<Rightarrow> yyparse atof (yyshift s q)
           | Reduce rule \<Rightarrow>
               (case yyreduce rule q of
                  Inl e \<Rightarrow> Some (Inl e)
                | Inr (Inr ctx) \<Rightarrow> Some (Inr (1, ctx))
                | Inr (Inl q') \<Rightarrow> yyparse atof q')))"

definition initial_parser :: "string \<Rightarrow> parser" where
  "initial_parser text =
     \<lparr>yystack = [(0, No_Value)], yychar = None,
      yyscanner = \<lparr>yy_start = 1, yy_text = text, yylineno = 1\<rparr>,
      yyctx = \<lparr>ctx_tree = C_Group [], ctx_formats = (\<lambda>_. CONFIG_FORMAT_DEFAULT),
        ctx_parent = Some [], ctx_setting = Some [], ctx_error = None\<rparr>\<rparr>"

text \<open>The tree that is read, with the formats, and whether there was no error.\<close>

definition config_read :: "(string \<Rightarrow> real) \<Rightarrow> string \<Rightarrow> (bool \<times> parse_context) result option" where
  "config_read atof text =
     map_option (\<lambda>r. bind_result r (\<lambda>(code, ctx). Inr (code = 0, ctx))) (yyparse atof (initial_parser text))"

lemma no_state_takes_errors: "s < 41 \<Longrightarrow> \<not> takes_error s"
proof -
  have "1 \<notin> set yycheck" and "length yycheck = 31" by (simp_all add: yycheck_def)
  then have "n \<le> YYLAST \<Longrightarrow> 0 \<le> n \<Longrightarrow> yycheck ! nat n \<noteq> 1" for n
  proof -
    assume "n \<le> YYLAST" and "0 \<le> n"
    then have "nat n < length yycheck" using \<open>length yycheck = 31\<close> by (simp add: YYLAST_def)
    then show "yycheck ! nat n \<noteq> 1" using \<open>1 \<notin> set yycheck\<close> by (metis nth_mem)
  qed
  then show ?thesis by (auto simp: takes_error_def Let_def)
qed

end
