(* ===== verification/Config_Moves.thy ===== *)
theory Config_Moves
  imports Config_Tokens Config_Parser
begin

text \<open>
  Moves of the parser: what the tables say in the states a written file leads through, and
  the steps of the driver as equations between parses.
\<close>

section \<open>The tables\<close>

lemmas yy_parser_tables = yyaction_on_def yydefault_def yygoto_def yypact_def yydefact_def yytable_def
  yycheck_def yyr1_def yypgoto_def yydefgoto_def YYLAST_def YYTABLE_NINF_def YYFINAL_def YYNTOKENS_def

lemma yyaction_facts:
  "yyaction_on 0 TOK_NAME = Shift 1" "yyaction_on 3 TOK_NAME = Shift 1"
  "yyaction_on 24 TOK_NAME = Shift 1" "yyaction_on 32 TOK_NAME = Shift 1"
  "yyaction_on 0 TOK_EOF = Reduce 2" "yyaction_on 3 TOK_EOF = Reduce 3" "yyaction_on 2 TOK_EOF = Accept"
  "yyaction_on 5 TOK_EQUALS = Shift 8" "yyaction_on 19 TOK_END = Shift 25"
  "yyaction_on 24 TOK_GROUP_END = Reduce 6" "yyaction_on 32 TOK_GROUP_END = Reduce 7"
  "yyaction_on 33 TOK_GROUP_END = Shift 38"
  "yyaction_on 22 TOK_ARRAY_END = Reduce 29" "yyaction_on 27 TOK_ARRAY_END = Reduce 30"
  "yyaction_on 28 TOK_ARRAY_END = Shift 35" "yyaction_on 27 TOK_COMMA = Shift 34"
  "yyaction_on 23 TOK_LIST_END = Reduce 25" "yyaction_on 30 TOK_LIST_END = Reduce 26"
  "yyaction_on 31 TOK_LIST_END = Shift 37" "yyaction_on 30 TOK_COMMA = Shift 36"
  by (simp_all add: yy_parser_tables)

lemma yyaction_on_values:
  assumes "s \<in> {8, 23, 36, 22, 34}"
  shows "yyaction_on s TOK_BOOLEAN = Shift 9" "yyaction_on s TOK_INTEGER = Shift 10"
    "yyaction_on s TOK_HEX = Shift 11" "yyaction_on s TOK_FLOAT = Shift 12" "yyaction_on s TOK_STRING = Shift 13"
  using assms by (auto simp: yy_parser_tables)

lemma yyaction_on_collections:
  assumes "s \<in> {8, 23, 36}"
  shows "yyaction_on s TOK_ARRAY_START = Shift 14" "yyaction_on s TOK_LIST_START = Shift 15"
    "yyaction_on s TOK_GROUP_START = Shift 16"
  using assms by (auto simp: yy_parser_tables)

lemma yydefault_facts:
  "yydefault 1 = Reduce 8" "yydefault 9 = Reduce 18" "yydefault 10 = Reduce 19" "yydefault 11 = Reduce 20"
  "yydefault 12 = Reduce 21" "yydefault 13 = Reduce 22" "yydefault 14 = Reduce 10" "yydefault 15 = Reduce 12"
  "yydefault 16 = Reduce 31" "yydefault 17 = Reduce 15" "yydefault 18 = Reduce 16" "yydefault 21 = Reduce 17"
  "yydefault 20 = Reduce 14" "yydefault 4 = Reduce 4" "yydefault 7 = Reduce 5" "yydefault 25 = Reduce 9"
  "yydefault 26 = Reduce 27" "yydefault 39 = Reduce 28" "yydefault 29 = Reduce 23" "yydefault 40 = Reduce 24"
  "yydefault 35 = Reduce 11" "yydefault 37 = Reduce 13" "yydefault 38 = Reduce 32"
  by (simp_all add: yydefault_def yydefact_def)

text \<open>The states that do not look at the next token.\<close>

definition blind :: "nat \<Rightarrow> bool" where
  "blind s \<longleftrightarrow> yypact ! s = YYPACT_NINF"

lemma blind_facts:
  "blind 1" "blind 4" "blind 7" "blind 9" "blind 10" "blind 11" "blind 12" "blind 13" "blind 14" "blind 15"
  "blind 16" "blind 17" "blind 18" "blind 20" "blind 21" "blind 25" "blind 26" "blind 29" "blind 35"
  "blind 37" "blind 38" "blind 39" "blind 40"
  "\<not> blind 0" "\<not> blind 2" "\<not> blind 3" "\<not> blind 5" "\<not> blind 8" "\<not> blind 19" "\<not> blind 22" "\<not> blind 23"
  "\<not> blind 24" "\<not> blind 27" "\<not> blind 28" "\<not> blind 30" "\<not> blind 31" "\<not> blind 32" "\<not> blind 33"
  "\<not> blind 34" "\<not> blind 36"
  by (simp_all add: blind_def yypact_def YYPACT_NINF_def)

text \<open>Where a simple value, a value, a setting and a list of settings lead.\<close>

definition value_goto :: "nat \<Rightarrow> nat" where
  "value_goto s = (if s = 8 then 19 else if s = 23 then 29 else 40)"

definition simple_goto :: "nat \<Rightarrow> nat" where
  "simple_goto s = (if s = 22 then 26 else if s = 34 then 39 else 20)"

lemma yygoto_facts:
  assumes "s \<in> {8, 23, 36}"
  shows "yygoto 14 s = value_goto s" "yygoto 15 s = value_goto s" "yygoto 16 s = value_goto s"
    "yygoto 17 s = value_goto s" "yygoto 11 s = 17" "yygoto 13 s = 18" "yygoto 32 s = 21"
  using assms by (auto simp: yy_parser_tables value_goto_def)

lemma yygoto_simple:
  assumes "s \<in> {8, 23, 36, 22, 34}" and "rule \<in> {18, 19, 20, 21, 22}"
  shows "yygoto rule s = simple_goto s"
  using assms by (auto simp: yy_parser_tables simple_goto_def)

lemma yygoto_single:
  "yygoto 8 1 = 5" "yygoto 10 14 = 22" "yygoto 12 15 = 23" "yygoto 31 16 = 24"
  "yygoto 27 22 = 27" "yygoto 28 22 = 27" "yygoto 29 22 = 28" "yygoto 30 22 = 28"
  "yygoto 23 23 = 30" "yygoto 24 23 = 30" "yygoto 25 23 = 31" "yygoto 26 23 = 31"
  "yygoto 9 0 = 4" "yygoto 9 24 = 4" "yygoto 9 3 = 7" "yygoto 9 32 = 7"
  "yygoto 4 0 = 3" "yygoto 5 0 = 3" "yygoto 4 24 = 32" "yygoto 5 24 = 32"
  "yygoto 6 24 = 33" "yygoto 7 24 = 33" "yygoto 2 0 = 2" "yygoto 3 0 = 2"
  by (simp_all add: yy_parser_tables)

lemma yyr2_facts:
  "yyr2 ! 2 = 0" "yyr2 ! 3 = 1" "yyr2 ! 4 = 1" "yyr2 ! 5 = 2" "yyr2 ! 6 = 0" "yyr2 ! 7 = 1" "yyr2 ! 8 = 0"
  "yyr2 ! 9 = 5" "yyr2 ! 10 = 0" "yyr2 ! 11 = 4" "yyr2 ! 12 = 0" "yyr2 ! 13 = 4" "yyr2 ! 14 = 1"
  "yyr2 ! 15 = 1" "yyr2 ! 16 = 1" "yyr2 ! 17 = 1" "yyr2 ! 18 = 1" "yyr2 ! 19 = 1" "yyr2 ! 20 = 1"
  "yyr2 ! 21 = 1" "yyr2 ! 22 = 1" "yyr2 ! 23 = 1" "yyr2 ! 24 = 3" "yyr2 ! 25 = 0" "yyr2 ! 26 = 1"
  "yyr2 ! 27 = 1" "yyr2 ! 28 = 3" "yyr2 ! 29 = 0" "yyr2 ! 30 = 1" "yyr2 ! 31 = 0" "yyr2 ! 32 = 4"
  by (simp_all add: yyr2_def)

section \<open>Steps of the driver\<close>

type_synonym point = "(nat \<times> yystype) list \<times> (yytokentype \<times> yystype) option \<times> string \<times> parse_context"

definition at_point :: "point \<Rightarrow> int \<Rightarrow> parser" where
  "at_point a l = (case a of (st, ch, cs, ctx) \<Rightarrow>
     \<lparr>yystack = st, yychar = ch, yyscanner = scan_at cs l, yyctx = ctx\<rparr>)"

text \<open>The parse from \<open>a\<close> is the parse from \<open>b\<close>, whatever line is counted.\<close>

definition goes :: "(string \<Rightarrow> real) \<Rightarrow> point \<Rightarrow> point \<Rightarrow> bool" where
  "goes atof a b \<longleftrightarrow> (\<forall>l. \<exists>l'. yyparse atof (at_point a l) = yyparse atof (at_point b l'))"

lemma goes_refl [simp, intro]: "goes atof a a"
  by (auto simp: goes_def)

lemma goes_trans [trans]: "goes atof a b \<Longrightarrow> goes atof b c \<Longrightarrow> goes atof a c"
  unfolding goes_def by metis

lemma point_simps:
  "yystack (at_point (st, ch, cs, ctx) l) = st" "yychar (at_point (st, ch, cs, ctx) l) = ch"
  "yyscanner (at_point (st, ch, cs, ctx) l) = scan_at cs l" "yyctx (at_point (st, ch, cs, ctx) l) = ctx"
  by (simp_all add: at_point_def)

lemma yylookahead_point:
  "yylookahead atof (at_point ((s, x) # st, Some t, cs, ctx) l) = Some (Inr (at_point ((s, x) # st, Some t, cs, ctx) l))"
  "blind s \<Longrightarrow> yylookahead atof (at_point ((s, x) # st, ch, cs, ctx) l) = Some (Inr (at_point ((s, x) # st, ch, cs, ctx) l))"
  by (simp_all add: yylookahead_def point_simps yystate_def blind_def)

lemma yylookahead_reads:
  assumes "lexes atof cs t r" and "\<not> blind s"
  shows "\<exists>l'. yylookahead atof (at_point ((s, x) # st, None, cs, ctx) l)
    = Some (Inr (at_point ((s, x) # st, Some t, r, ctx) l'))"
proof -
  obtain l' where "yylex atof (scan_at cs l) = Some (Inr (t, scan_at r l'))"
    using assms(1) unfolding lexes_def by blast
  then show ?thesis
    using assms(2) by (cases t) (auto simp: yylookahead_def yystate_def at_point_def blind_def)
qed

lemma yyparse_looks:
  assumes "length st < YYMAXDEPTH" and "yylookahead atof (at_point (st, ch, cs, ctx) l) = Some (Inr q)"
    and "yystack q = st" and "yylookahead atof q = Some (Inr q)"
  shows "yyparse atof (at_point (st, ch, cs, ctx) l) = yyparse atof q"
proof -
  have "\<not> YYMAXDEPTH \<le> length st" using assms(1) by simp
  then show ?thesis by (subst (1 2) yyparse.simps) (simp add: assms(2-4) point_simps)
qed

text \<open>Reading the next token, and blanks before it.\<close>

lemma goes_look:
  assumes "lexes atof cs t r" and "\<not> blind s" and "length st + 1 < YYMAXDEPTH"
  shows "goes atof ((s, x) # st, None, cs, ctx) ((s, x) # st, Some t, r, ctx)"
  unfolding goes_def
proof
  fix l
  obtain l' where "yylookahead atof (at_point ((s, x) # st, None, cs, ctx) l)
      = Some (Inr (at_point ((s, x) # st, Some t, r, ctx) l'))"
    using yylookahead_reads [OF assms(1,2)] by blast
  then show "\<exists>l'. yyparse atof (at_point ((s, x) # st, None, cs, ctx) l)
      = yyparse atof (at_point ((s, x) # st, Some t, r, ctx) l')"
    using assms(3) yyparse_looks [of "(s, x) # st" atof None cs ctx l] yylookahead_point(1)
    by (auto simp: point_simps)
qed

lemma goes_shift_on:
  assumes "yyaction_on s t = Shift u" and "\<not> blind s" and "length st + 1 < YYMAXDEPTH" and "t \<noteq> TOK_EOF"
  shows "goes atof ((s, x) # st, Some (t, v), cs, ctx) ((u, v) # (s, x) # st, None, cs, ctx)"
proof -
  have "yyshift u (at_point ((s, x) # st, Some (t, v), cs, ctx) l) = at_point ((u, v) # (s, x) # st, None, cs, ctx) l" for l
    using assms(4) by (simp add: yyshift_def at_point_def split: yytokentype.splits)
  moreover have "yyact (at_point ((s, x) # st, Some (t, v), cs, ctx) l) = Shift u" for l
    using assms(1,2) by (simp add: yyact_def yystate_def point_simps blind_def)
  ultimately have "yyparse atof (at_point ((s, x) # st, Some (t, v), cs, ctx) l)
      = yyparse atof (at_point ((u, v) # (s, x) # st, None, cs, ctx) l)" for l
    using assms(3) by (subst yyparse.simps) (simp add: yylookahead_point point_simps)
  then show ?thesis unfolding goes_def by blast
qed

lemma goes_shift:
  assumes "lexes atof cs (t, v) r" and "yyaction_on s t = Shift u" and "\<not> blind s"
    and "length st + 1 < YYMAXDEPTH" and "t \<noteq> TOK_EOF"
  shows "goes atof ((s, x) # st, None, cs, ctx) ((u, v) # (s, x) # st, None, r, ctx)"
  using goes_look [OF assms(1,3,4)] goes_shift_on [OF assms(2-5)] by (rule goes_trans)

lemma goes_reduce:
  assumes "(if blind s then yydefault s else case ch of None \<Rightarrow> Syntax_Error | Some (t, v) \<Rightarrow> yyaction_on s t) = Reduce rule"
    and "length st + 1 < YYMAXDEPTH" and "\<And>line. yyaction rule line x ctx = Inr (Continue ctx')"
  shows "goes atof ((s, x) # st, ch, cs, ctx) (yypop rule ((s, x) # st), ch, cs, ctx')"
proof -
  have "yylookahead atof (at_point ((s, x) # st, ch, cs, ctx) l) = Some (Inr (at_point ((s, x) # st, ch, cs, ctx) l))" for l
    using assms(1) by (cases ch) (auto simp: yylookahead_point split: if_splits)
  moreover have "yyact (at_point ((s, x) # st, ch, cs, ctx) l) = Reduce rule" for l
    using assms(1) by (auto simp: yyact_def yystate_def point_simps blind_def split: option.splits prod.splits if_splits)
  moreover have "yyreduce rule (at_point ((s, x) # st, ch, cs, ctx) l)
      = Inr (Inl (at_point (yypop rule ((s, x) # st), ch, cs, ctx') l))" for l
    using assms(3) by (simp add: yyreduce_def at_point_def)
  ultimately have "yyparse atof (at_point ((s, x) # st, ch, cs, ctx) l)
      = yyparse atof (at_point (yypop rule ((s, x) # st), ch, cs, ctx') l)" for l
    using assms(2) by (subst yyparse.simps) (simp add: point_simps)
  then show ?thesis unfolding goes_def by blast
qed

lemma goes_blanks:
  assumes "list_all blank w" and "\<not> blind s" and "length st + 1 < YYMAXDEPTH"
  shows "goes atof ((s, x) # st, None, w @ cs, ctx) ((s, x) # st, None, cs, ctx)"
proof -
  have "dropWhile blank (w @ cs) = dropWhile blank cs"
    using assms(1) by (simp add: list_all_iff dropWhile_append2)
  then have lex: "yylex atof (scan_at (w @ cs) l)
      = yylex atof (scan_at cs (l + newlines (takeWhile blank (w @ cs)) - newlines (takeWhile blank cs)))" for l
    using yylex_blanks [of atof "w @ cs"] yylex_blanks [of atof cs] by simp
  have "yyparse atof (at_point ((s, x) # st, None, w @ cs, ctx) l) = yyparse atof (at_point ((s, x) # st, None, cs, ctx)
      (l + newlines (takeWhile blank (w @ cs)) - newlines (takeWhile blank cs)))" for l
    using assms(2,3) lex [of l]
    by (subst (1 2) yyparse.simps) (simp add: yylookahead_def yystate_def blind_def at_point_def)
  then show ?thesis unfolding goes_def by blast
qed

end
