(* ===== verification/Config_Round_Trip.thy ===== *)
theory Config_Round_Trip
  imports Config_Moves
begin

text \<open>
  Reading what was written: the parser takes the text of a tree back to that tree, with every
  real as \<open>%e\<close> and \<open>atof\<close> leave it.
\<close>

section \<open>Trees that can be written\<close>

text \<open>What the text keeps of a value.\<close>

fun reread :: "(real \<Rightarrow> real) \<Rightarrow> content \<Rightarrow> content"
  and reread_setting :: "(real \<Rightarrow> real) \<Rightarrow> setting \<Rightarrow> setting" where
  "reread rd (C_Bool b) = C_Bool (if b \<noteq> 0 then 1 else 0)"
| "reread rd (C_Int i) = C_Int i"
| "reread rd (C_Float x) = C_Float (rd x)"
| "reread rd (C_String s) = C_String (Some (case s of None \<Rightarrow> [] | Some s \<Rightarrow> s))"
| "reread rd (C_List ss) = C_List (map (reread_setting rd) ss)"
| "reread rd (C_Array ss) = C_Array (map (reread_setting rd) ss)"
| "reread rd (C_Group ss) = C_Group (map (reread_setting rd) ss)"
| "reread rd C_None = C_None"
| "reread_setting rd (Setting n c) = Setting n (reread rd c)"

definition simple :: "content \<Rightarrow> bool" where
  "simple c \<longleftrightarrow> config_setting_type c \<in> {CONFIG_TYPE_INT, CONFIG_TYPE_FLOAT, CONFIG_TYPE_STRING, CONFIG_TYPE_BOOL}"

text \<open>
  The trees the reader gives back: integers that fit \<open>int\<close> in decimal, or \<open>long\<close> in hexadecimal
  form, strings without a zero character, valid and distinct names in groups and none in
  lists and arrays, arrays of simple values of one type, and no setting without a type.
\<close>

fun writable :: "formats \<Rightarrow> handle \<Rightarrow> content \<Rightarrow> bool"
  and writable_elements :: "formats \<Rightarrow> handle \<Rightarrow> nat \<Rightarrow> setting list \<Rightarrow> bool"
  and writable_members :: "formats \<Rightarrow> handle \<Rightarrow> nat \<Rightarrow> setting list \<Rightarrow> bool" where
  "writable fmt h (C_Bool b) = True"
| "writable fmt h (C_Int i) =
     (case fmt h of CONFIG_FORMAT_DEFAULT \<Rightarrow> - (2 ^ 31) \<le> i \<and> i < 2 ^ 31
                  | CONFIG_FORMAT_HEX \<Rightarrow> - (2 ^ 63) \<le> i \<and> i < 2 ^ 63)"
| "writable fmt h (C_Float x) = True"
| "writable fmt h (C_String s) = (case s of None \<Rightarrow> True | Some s \<Rightarrow> CHR 0x00 \<notin> set s)"
| "writable fmt h (C_List ss) = writable_elements fmt h 0 ss"
| "writable fmt h (C_Array ss) =
     (writable_elements fmt h 0 ss
      \<and> list_all (\<lambda>s. simple (setting_value s)
          \<and> config_setting_type (setting_value s) = config_setting_type (setting_value (hd ss))) ss)"
| "writable fmt h (C_Group ss) = (writable_members fmt h 0 ss \<and> distinct (map setting_name ss))"
| "writable fmt h C_None = False"
| "writable_elements fmt h i [] = True"
| "writable_elements fmt h i (Setting n c # ss) =
     (n = None \<and> writable fmt (h @ [i]) c \<and> writable_elements fmt h (Suc i) ss)"
| "writable_members fmt h i [] = True"
| "writable_members fmt h i (Setting n c # ss) =
     ((case n of None \<Rightarrow> False | Some m \<Rightarrow> valid_name m)
      \<and> writable fmt (h @ [i]) c \<and> writable_members fmt h (Suc i) ss)"

text \<open>The room a value takes on the stack of the parser.\<close>

fun stack_need :: "content \<Rightarrow> nat" and stack_needs :: "setting list \<Rightarrow> nat" where
  "stack_need (C_List ss) = 5 + stack_needs ss"
| "stack_need (C_Array ss) = 5 + stack_needs ss"
| "stack_need (C_Group ss) = 6 + stack_needs ss"
| "stack_need c = 2"
| "stack_needs [] = 2"
| "stack_needs (Setting n c # ss) = max (stack_need c) (stack_needs ss)"

section \<open>Holes in the tree\<close>

text \<open>\<open>place c\<close> is the tree with \<open>c\<close> at the handle \<open>h\<close>.\<close>

definition hole :: "handle \<Rightarrow> (content \<Rightarrow> content) \<Rightarrow> bool" where
  "hole h place \<longleftrightarrow> (\<forall>c. node (place c) h = Some c) \<and> (\<forall>c d. update h (\<lambda>_. d) (place c) = place d)"

lemma hole_root: "hole [] (\<lambda>c. c)"
  by (simp add: hole_def)

lemma hole_nth:
  assumes "hole h place" and "is_collection c" and "elements c = ss"
  shows "hole (h @ [length ss]) (\<lambda>v. place (with_elements c (ss @ [Setting n v])))"
proof -
  have at: "node (place c) h = Some c" for c using assms(1) by (simp add: hole_def)
  have "update (h @ [length ss]) (\<lambda>_. d) (place (with_elements c (ss @ [Setting n v])))
      = place (with_elements c (ss @ [Setting n d]))" for v d
    using assms update_const [OF at, of "update [length ss] (\<lambda>_. d)"]
    by (simp add: update_append hole_def)
  then show ?thesis using assms(2) at by (simp add: hole_def node_append)
qed

lemma hole_element:
  assumes "hole h place"
  shows "hole (h @ [length ss]) (\<lambda>v. place (C_List (ss @ [Setting n v])))"
    and "hole (h @ [length ss]) (\<lambda>v. place (C_Array (ss @ [Setting n v])))"
    and "hole (h @ [length ss]) (\<lambda>v. place (C_Group (ss @ [Setting n v])))"
  using hole_nth [OF assms, of "C_List ss"] hole_nth [OF assms, of "C_Array ss"]
    hole_nth [OF assms, of "C_Group ss"]
  by (simp_all add: is_collection_def)

text \<open>
  The place the next value goes to: after an equals sign the setting just added, in a list or
  an array a new element.
\<close>

definition slot :: "nat \<Rightarrow> handle \<Rightarrow> parse_context \<Rightarrow> (content \<Rightarrow> content) \<Rightarrow> bool" where
  "slot s h ctx place \<longleftrightarrow> hole h place \<and> (\<exists>p k. h = p @ [k] \<and> ctx_parent ctx = Some p
     \<and> (s = 8 \<and> ctx_setting ctx = Some h \<and> ctx_tree ctx = place C_None
          \<and> (\<exists>ss. node (ctx_tree ctx) p = Some (C_Group ss))
        \<or> s \<in> {23, 36} \<and> (\<exists>ss. node (ctx_tree ctx) p = Some (C_List ss) \<and> k = length ss
            \<and> (\<forall>c. update p (\<lambda>_. C_List (ss @ [Setting None c])) (ctx_tree ctx) = place c))
        \<or> s \<in> {22, 34} \<and> (\<exists>ss. node (ctx_tree ctx) p = Some (C_Array ss) \<and> k = length ss
            \<and> (\<forall>c. update p (\<lambda>_. C_Array (ss @ [Setting None c])) (ctx_tree ctx) = place c))))"

lemma slot_in_list:
  assumes "hole h place" and "ctx_parent ctx = Some h" and "ctx_tree ctx = place (C_List ss)" and "s \<in> {23, 36}"
  shows "slot s (h @ [length ss]) ctx (\<lambda>c. place (C_List (ss @ [Setting None c])))"
  using assms hole_element(1) [OF assms(1), of ss None] by (auto simp: slot_def hole_def)

lemma slot_in_array:
  assumes "hole h place" and "ctx_parent ctx = Some h" and "ctx_tree ctx = place (C_Array ss)" and "s \<in> {22, 34}"
  shows "slot s (h @ [length ss]) ctx (\<lambda>c. place (C_Array (ss @ [Setting None c])))"
  using assms hole_element(2) [OF assms(1), of ss None] by (auto simp: slot_def hole_def)

lemma slot_in_group:
  assumes "hole h place" and "ctx_parent ctx = Some h" and "ctx_setting ctx = Some (h @ [length ss])"
    and "ctx_tree ctx = place (C_Group (ss @ [Setting n C_None]))"
  shows "slot 8 (h @ [length ss]) ctx (\<lambda>c. place (C_Group (ss @ [Setting n c])))"
  using assms hole_element(3) [OF assms(1), of ss n] by (auto simp: slot_def hole_def)

section \<open>The actions at such a place\<close>

lemma set_elem_list:
  assumes "node t h = Some (C_List ss)" and "f (zeroed ty) = Some v"
  shows "set_elem t h (-1) ty f = Some (update h (\<lambda>_. C_List (ss @ [Setting None v])) t, h @ [length ss])"
  using assms(1) append_to_node [OF assms(1)] assms(2)
  by (simp add: set_elem_def config_setting_create_def is_collection_def set_through_def node_append
      update_append config_vector_checktype_def)

definition array_allows :: "parse_context \<Rightarrow> config_type \<Rightarrow> bool" where
  "array_allows ctx ty \<longleftrightarrow>
     (\<forall>p ss. ctx_parent ctx = Some p \<longrightarrow> node (ctx_tree ctx) p = Some (C_Array ss) \<longrightarrow>
        config_vector_checktype (C_Array ss) ty)"

lemma store_at_slot:
  assumes "slot s h ctx place" and "array_allows ctx ty"
    and "setter C_None = Some v" and "setter (zeroed ty) = Some v"
  shows "store_value line (\<lambda>t p n. set_elem t p n ty setter) setter format ctx
    = Inr (Continue (ctx\<lparr>ctx_tree := place v,
        ctx_formats := (case format of None \<Rightarrow> ctx_formats ctx
          | Some f \<Rightarrow> config_setting_set_format (place v) h f (ctx_formats ctx))\<rparr>))"
proof -
  obtain p k where h: "h = p @ [k]" "ctx_parent ctx = Some p" and hole: "hole h place"
    using assms(1) by (auto simp: slot_def)
  consider (named) ss where "ctx_setting ctx = Some h" "ctx_tree ctx = place C_None"
      "node (ctx_tree ctx) p = Some (C_Group ss)"
    | (in_list) ss where "node (ctx_tree ctx) p = Some (C_List ss)" "k = length ss"
      "\<And>c. update p (\<lambda>_. C_List (ss @ [Setting None c])) (ctx_tree ctx) = place c"
    | (in_array) ss where "node (ctx_tree ctx) p = Some (C_Array ss)" "k = length ss"
      "\<And>c. update p (\<lambda>_. C_Array (ss @ [Setting None c])) (ctx_tree ctx) = place c"
    using assms(1) h by (auto simp: slot_def)
  then show ?thesis
  proof cases
    case named
    then show ?thesis
      using h hole assms(3)
      by (cases format)
        (simp_all add: store_value_def IN_ARRAY_def IN_LIST_def parent_has_type_def set_through_def hole_def Let_def)
  next
    case in_list
    then show ?thesis
      using h assms(4) set_elem_list [where f = setter and ty = ty, OF in_list(1) assms(4)]
      by (cases format) (simp_all add: store_value_def IN_ARRAY_def IN_LIST_def parent_has_type_def)
  next
    case in_array
    have "config_vector_checktype (C_Array ss) ty" using assms(2) h in_array(1) by (simp add: array_allows_def)
    then show ?thesis
      using h in_array set_elem_appends [where f = setter, OF in_array(1) _ assms(4)]
      by (cases format) (simp_all add: store_value_def IN_ARRAY_def IN_LIST_def parent_has_type_def)
  qed
qed

lemma open_at_slot:
  assumes "slot s h ctx place" and "s \<in> {8, 23, 36}"
  shows "\<exists>ctx'. open_collection ty ctx = Inr (Continue ctx') \<and> ctx_parent ctx' = Some h
    \<and> ctx_tree ctx' = place (zeroed ty) \<and> ctx_formats ctx' = ctx_formats ctx \<and> ctx_error ctx' = ctx_error ctx"
proof -
  obtain p k where h: "h = p @ [k]" "ctx_parent ctx = Some p" and hole: "hole h place"
    using assms(1) by (auto simp: slot_def)
  consider (named) ss where "ctx_setting ctx = Some h" "ctx_tree ctx = place C_None"
      "node (ctx_tree ctx) p = Some (C_Group ss)"
    | (in_list) ss where "node (ctx_tree ctx) p = Some (C_List ss)" "k = length ss"
      "\<And>c. update p (\<lambda>_. C_List (ss @ [Setting None c])) (ctx_tree ctx) = place c"
    using assms h by (auto simp: slot_def)
  then show ?thesis
  proof cases
    case named
    then show ?thesis
      using h hole by (simp add: open_collection_def IN_LIST_def parent_has_type_def hole_def)
  next
    case in_list
    then show ?thesis
      using h add_to_list [OF in_list(1)] by (simp add: open_collection_def IN_LIST_def parent_has_type_def)
  qed
qed

lemma slot_parent: "slot s h ctx place \<Longrightarrow> parent_of h = ctx_parent ctx"
  by (auto simp: slot_def parent_of_def)

section \<open>Simple values\<close>

text \<open>The state after a value: it stands in the tree, with the formats of its integers.\<close>

definition formats_kept :: "formats \<Rightarrow> handle \<Rightarrow> content \<Rightarrow> formats \<Rightarrow> formats \<Rightarrow> bool" where
  "formats_kept fmt h v old new \<longleftrightarrow>
     (\<forall>k. take (length h) k \<noteq> h \<longrightarrow> new k = old k)
     \<and> (\<forall>k i. node v k = Some (C_Int i) \<longrightarrow> new (h @ k) = fmt (h @ k))"

definition value_read :: "(real \<Rightarrow> real) \<Rightarrow> formats \<Rightarrow> handle \<Rightarrow> content \<Rightarrow> (content \<Rightarrow> content)
    \<Rightarrow> parse_context \<Rightarrow> parse_context \<Rightarrow> bool" where
  "value_read rd fmt h v place ctx ctx' \<longleftrightarrow> ctx_tree ctx' = place (reread rd v)
     \<and> ctx_parent ctx' = ctx_parent ctx \<and> ctx_error ctx' = ctx_error ctx
     \<and> formats_kept fmt h v (ctx_formats ctx) (ctx_formats ctx')"

lemma token_goes:
  assumes "lexes atof cs (t, v) r" and "yyaction_on s t = Shift u" and "\<not> blind s" and "t \<noteq> TOK_EOF"
    and "blind u" and "yydefault u = Reduce rule" and "yyr2 ! rule = 1"
    and "\<And>line. yyaction rule line v ctx = Inr (Continue ctx')" and "length st + 2 < YYMAXDEPTH"
  shows "goes atof ((s, x) # st, None, cs, ctx) ((yygoto rule s, v) # (s, x) # st, None, r, ctx')"
proof -
  have "goes atof ((s, x) # st, None, cs, ctx) ((u, v) # (s, x) # st, None, r, ctx)"
    using assms(9) by (intro goes_shift [OF assms(1-3) _ assms(4)]) simp
  also have "goes atof \<dots> (yypop rule ((u, v) # (s, x) # st), None, r, ctx')"
    using assms(5,6,9) by (intro goes_reduce assms(8)) simp_all
  also have "yypop rule ((u, v) # (s, x) # st) = (yygoto rule s, v) # (s, x) # st"
    by (simp add: yypop_def assms(7) Let_def)
  finally show ?thesis .
qed

lemma node_simple: "simple v \<Longrightarrow> node v k = Some c \<longleftrightarrow> k = [] \<and> c = v"
  by (cases k; cases v) (auto simp: simple_def)

lemma stored_goes:
  assumes slot: "slot s h ctx place" and s: "s \<in> {8, 23, 36, 22, 34}" and room: "length st + 2 < YYMAXDEPTH"
    and simple: "simple v" and allows: "array_allows ctx ty"
    and setter: "setter C_None = Some (reread rd v)" "setter (zeroed ty) = Some (reread rd v)"
    and act: "\<And>line. yyaction rule line val ctx = store_value line (\<lambda>t p n. set_elem t p n ty setter) setter format ctx"
    and format: "\<And>i. v = C_Int i \<Longrightarrow> format = Some (fmt h)"
    and lexes: "lexes atof (text @ r) (t, val) r" and shift: "yyaction_on s t = Shift u" and "t \<noteq> TOK_EOF"
    and reduce: "blind u" "yydefault u = Reduce rule" "rule \<in> {18, 19, 20, 21, 22}"
  shows "\<exists>y ctx'. goes atof ((s, x) # st, None, text @ r, ctx) ((simple_goto s, y) # (s, x) # st, None, r, ctx')
    \<and> value_read rd fmt h v place ctx ctx'"
proof -
  define ctx' where "ctx' = ctx\<lparr>ctx_tree := place (reread rd v),
    ctx_formats := (case format of None \<Rightarrow> ctx_formats ctx
      | Some f \<Rightarrow> config_setting_set_format (place (reread rd v)) h f (ctx_formats ctx))\<rparr>"
  have act': "yyaction rule line val ctx = Inr (Continue ctx')" for line
    using store_at_slot [where setter = setter, OF slot allows setter] by (simp add: act ctx'_def)
  have "\<not> blind s" and "yyr2 ! rule = 1" using s reduce(3) blind_facts yyr2_facts by auto
  then have "goes atof ((s, x) # st, None, text @ r, ctx) ((simple_goto s, val) # (s, x) # st, None, r, ctx')"
    using token_goes [OF lexes shift _ assms(12) reduce(1,2) _ act' room] yygoto_simple [OF s reduce(3)] by simp
  moreover have "value_read rd fmt h v place ctx ctx'"
  proof -
    have at: "node (place (reread rd v)) h = Some (reread rd v)" using slot by (simp add: slot_def hole_def)
    have "formats_kept fmt h v (ctx_formats ctx) (ctx_formats ctx')"
      using simple at format
      by (cases v; cases format)
        (auto simp: formats_kept_def ctx'_def config_setting_set_format_def node_simple simple_def)
    then show ?thesis by (simp add: value_read_def ctx'_def)
  qed
  ultimately show ?thesis by blast
qed

lemma simple_goes:
  assumes v: "simple v" "writable fmt h v" and slot: "slot s h ctx place" and s: "s \<in> {8, 23, 36, 22, 34}"
    and allows: "array_allows ctx (config_setting_type v)" and e: "\<And>x. e_format (print_e x)"
    and ends: "ends_value r" and room: "length st + 2 < YYMAXDEPTH"
  shows "\<exists>y ctx'. goes atof ((s, x) # st, None, config_write_value print_e fmt h depth v @ r, ctx)
      ((simple_goto s, y) # (s, x) # st, None, r, ctx')
    \<and> value_read (\<lambda>x. atof (print_e x)) fmt h v place ctx ctx'"
proof -
  note stored = stored_goes [where rd = "\<lambda>x. atof (print_e x)" and v = v, OF slot s room v(1) allows]
  note facts = yyaction_on_values [OF s] blind_facts yydefault_facts
  show ?thesis
  proof (cases v)
    case (C_Bool b)
    have "lexes atof (config_write_value print_e fmt h depth v @ r)
        (TOK_BOOLEAN, I_Val (if b \<noteq> 0 then 1 else 0)) r"
      using lexes_bool [OF ends] by (simp add: C_Bool)
    then show ?thesis
      by (intro stored [of "\<lambda>c. config_setting_set_bool c (if b \<noteq> 0 then 1 else 0)" 18 _ None, OF _ _ _ _ _ facts(1)])
        (simp_all add: C_Bool facts yyaction_def config_setting_set_bool_elem_def config_setting_set_bool_def)
  next
    case (C_Int i)
    show ?thesis
    proof (cases "fmt h")
      case CONFIG_FORMAT_DEFAULT
      then have "lexes atof (config_write_value print_e fmt h depth v @ r) (TOK_INTEGER, I_Val i) r"
        using lexes_int [OF _ _ ends, of i] v(2) by (simp add: C_Int)
      then show ?thesis
        by (intro stored [of "\<lambda>c. config_setting_set_int c i" 19 _ "Some CONFIG_FORMAT_DEFAULT", OF _ _ _ _ _ facts(2)])
          (simp_all add: C_Int CONFIG_FORMAT_DEFAULT facts yyaction_def config_setting_set_int_elem_def
            config_setting_set_int_def)
    next
      case CONFIG_FORMAT_HEX
      then have "lexes atof (config_write_value print_e fmt h depth v @ r) (TOK_HEX, I_Val i) r"
        using lexes_hex [OF _ _ ends, of i] v(2) by (simp add: C_Int)
      then show ?thesis
        by (intro stored [of "\<lambda>c. config_setting_set_int c i" 20 _ "Some CONFIG_FORMAT_HEX", OF _ _ _ _ _ facts(3)])
          (simp_all add: C_Int CONFIG_FORMAT_HEX facts yyaction_def config_setting_set_int_elem_def
            config_setting_set_int_def)
    qed
  next
    case (C_Float w)
    have "lexes atof (config_write_value print_e fmt h depth v @ r) (TOK_FLOAT, F_Val (atof (print_e w))) r"
      using lexes_float [OF e ends] by (simp add: C_Float)
    then show ?thesis
      by (intro stored [of "\<lambda>c. config_setting_set_float c (atof (print_e w))" 21 _ None, OF _ _ _ _ _ facts(4)])
        (simp_all add: C_Float facts yyaction_def config_setting_set_float_elem_def config_setting_set_float_def)
  next
    case (C_String str)
    define s' where "s' = (case str of None \<Rightarrow> [] | Some str \<Rightarrow> str)"
    have "lexes atof (config_write_value print_e fmt h depth v @ r) (TOK_STRING, S_Val s') r"
      using lexes_string [OF ends, of s'] v(2) lexes_null_string [OF ends]
      by (cases str) (simp_all add: C_String s'_def)
    then show ?thesis
      by (intro stored [of "\<lambda>c. config_setting_set_string c (Some s')" 22 _ None, OF _ _ _ _ _ facts(5)])
        (simp_all add: C_String facts yyaction_def config_setting_set_string_elem_def
          config_setting_set_string_def s'_def)
  qed (use v(1) in \<open>simp_all add: simple_def\<close>)
qed

section \<open>Values in their place\<close>

text \<open>The text of \<open>v\<close> takes the parser from state \<open>s\<close> to state \<open>t\<close> above it and puts \<open>v\<close> in its place.\<close>

definition reads_element :: "(real \<Rightarrow> string) \<Rightarrow> (string \<Rightarrow> real) \<Rightarrow> formats \<Rightarrow> content \<Rightarrow> nat \<Rightarrow> nat \<Rightarrow> bool" where
  "reads_element print_e atof fmt v s t \<longleftrightarrow>
     (\<forall>h depth x st r ctx place. slot s h ctx place \<longrightarrow> array_allows ctx (config_setting_type v) \<longrightarrow> 0 < depth
        \<longrightarrow> writable fmt h v \<longrightarrow> length st + 1 + stack_need v < YYMAXDEPTH \<longrightarrow> ends_value r \<longrightarrow>
        (\<exists>y ctx'. goes atof ((s, x) # st, None, config_write_value print_e fmt h depth v @ r, ctx)
            ((t, y) # (s, x) # st, None, r, ctx')
          \<and> value_read (\<lambda>x. atof (print_e x)) fmt h v place ctx ctx'))"

lemma reads_elementD:
  assumes "reads_element print_e atof fmt v s t" and "slot s h ctx place"
    and "array_allows ctx (config_setting_type v)" and "0 < depth" and "writable fmt h v"
    and "length st + 1 + stack_need v < YYMAXDEPTH" and "ends_value r"
  obtains y ctx' where "goes atof ((s, x) # st, None, config_write_value print_e fmt h depth v @ r, ctx)
      ((t, y) # (s, x) # st, None, r, ctx')"
    and "value_read (\<lambda>x. atof (print_e x)) fmt h v place ctx ctx'"
  using assms unfolding reads_element_def by blast

definition reads_value :: "(real \<Rightarrow> string) \<Rightarrow> (string \<Rightarrow> real) \<Rightarrow> formats \<Rightarrow> content \<Rightarrow> bool" where
  "reads_value print_e atof fmt v \<longleftrightarrow>
     (\<forall>s \<in> {8, 23, 36}. reads_element print_e atof fmt v s (value_goto s))"

lemma goes_unit:
  assumes "blind s" and "yydefault s = Reduce rule" and "yyr2 ! rule = 1"
    and "\<And>line. yyaction rule line y ctx = Inr (Continue ctx)" and "length st + 2 < YYMAXDEPTH"
  shows "goes atof ((s, y) # (t, x) # st, ch, cs, ctx) ((yygoto rule t, y) # (t, x) # st, ch, cs, ctx)"
proof -
  have "goes atof ((s, y) # (t, x) # st, ch, cs, ctx) (yypop rule ((s, y) # (t, x) # st), ch, cs, ctx)"
    using assms(1,2,5) by (intro goes_reduce assms(4)) simp_all
  also have "yypop rule ((s, y) # (t, x) # st) = (yygoto rule t, y) # (t, x) # st"
    by (simp add: yypop_def assms(3))
  finally show ?thesis .
qed

lemma plain_action: "rule \<notin> {8, 10, 11, 12, 13, 18, 19, 20, 21, 22, 31, 32} \<Longrightarrow>
    yyaction rule line v ctx = Inr (Continue ctx)"
  by (simp add: yyaction_def)

lemma simple_reads_value:
  assumes "simple v" and "\<And>x. e_format (print_e x)"
  shows "reads_value print_e atof fmt v"
  unfolding reads_value_def reads_element_def
proof (intro ballI allI impI)
  fix s h depth x and st :: "(nat \<times> yystype) list" and r ctx place
  assume s: "s \<in> {8, 23, 36 :: nat}" and slot: "slot s h ctx place"
    and allows: "array_allows ctx (config_setting_type v)" and "0 < (depth :: nat)" and "writable fmt h v"
    and room: "length st + 1 + stack_need v < YYMAXDEPTH" and ends: "ends_value r"
  have room': "length st + 2 < YYMAXDEPTH" using room assms(1) by (cases v) (simp_all add: simple_def)
  obtain y ctx' where go: "goes atof ((s, x) # st, None, config_write_value print_e fmt h depth v @ r, ctx)
      ((simple_goto s, y) # (s, x) # st, None, r, ctx')"
    and read: "value_read (\<lambda>x. atof (print_e x)) fmt h v place ctx ctx'"
    using simple_goes [where print_e = print_e, OF assms(1) \<open>writable fmt h v\<close> slot _ allows assms(2) ends room'] s by blast
  note go
  also have "simple_goto s = 20" using s by (auto simp: simple_goto_def)
  also have "goes atof ((20, y) # (s, x) # st, None, r, ctx') ((yygoto 14 s, y) # (s, x) # st, None, r, ctx')"
    by (rule goes_unit) (use room' in \<open>simp_all add: blind_facts yydefault_facts yyr2_facts plain_action\<close>)
  also have "yygoto 14 s = value_goto s" by (rule yygoto_facts(1) [OF s])
  finally show "\<exists>y ctx'. goes atof ((s, x) # st, None, config_write_value print_e fmt h depth v @ r, ctx)
      ((value_goto s, y) # (s, x) # st, None, r, ctx') \<and> value_read (\<lambda>x. atof (print_e x)) fmt h v place ctx ctx'"
    using read by blast
qed

text \<open>Formats of the elements of a collection, from index \<open>i\<close> on.\<close>

definition elements_kept :: "formats \<Rightarrow> handle \<Rightarrow> nat \<Rightarrow> setting list \<Rightarrow> formats \<Rightarrow> formats \<Rightarrow> bool" where
  "elements_kept fmt h i ss old new \<longleftrightarrow>
     (\<forall>k. take (length h) k \<noteq> h \<longrightarrow> new k = old k)
     \<and> (\<forall>j k. j < i \<longrightarrow> new (h @ j # k) = old (h @ j # k))
     \<and> (\<forall>j k m. j < length ss \<longrightarrow> node (setting_value (ss ! j)) k = Some (C_Int m) \<longrightarrow>
          new (h @ (i + j) # k) = fmt (h @ (i + j) # k))"

lemma elements_kept_Nil: "elements_kept fmt h i [] old old"
  by (simp add: elements_kept_def)

lemma elements_kept_Cons:
  assumes first: "formats_kept fmt (h @ [i]) c old mid" and rest: "elements_kept fmt h (Suc i) ss mid new"
  shows "elements_kept fmt h i (Setting n c # ss) old new"
proof -
  have outside: "new k = old k" if "take (length h) k \<noteq> h" for k
  proof -
    have "take (Suc (length h)) k \<noteq> h @ [i]"
      using that by (metis append_eq_conv_conj min.absorb1 length_append_singleton le_add2 plus_1_eq_Suc take_take)
    then have "mid k = old k" using first by (simp add: formats_kept_def)
    then show ?thesis using rest that by (simp add: elements_kept_def)
  qed
  have before: "new (h @ j # k) = old (h @ j # k)" if "j < i" for j k
  proof -
    have "mid (h @ j # k) = old (h @ j # k)" using first that by (simp add: formats_kept_def)
    then show ?thesis using rest that by (simp add: elements_kept_def)
  qed
  have inside: "new (h @ (i + j) # k) = fmt (h @ (i + j) # k)"
    if "j < length (Setting n c # ss)" and "node (setting_value ((Setting n c # ss) ! j)) k = Some (C_Int m)" for j k m
  proof (cases j)
    case 0
    then have "mid (h @ i # k) = fmt (h @ i # k)" using first that(2) by (simp add: formats_kept_def)
    then show ?thesis using rest 0 by (simp add: elements_kept_def)
  next
    case (Suc j')
    then show ?thesis using rest that by (auto simp: elements_kept_def)
  qed
  show ?thesis using outside before inside unfolding elements_kept_def by blast
qed

lemma elements_kept_all:
  assumes "elements_kept fmt h 0 (elements v) old new" and "is_collection v"
  shows "formats_kept fmt h v old new"
proof -
  have "new (h @ k) = fmt (h @ k)" if "node v k = Some (C_Int m)" for k m
    using that assms by (cases k) (auto simp: elements_kept_def is_collection_def split: if_splits)
  then show ?thesis using assms(1) by (simp add: formats_kept_def elements_kept_def)
qed

section \<open>Lists and arrays\<close>

text \<open>What the writer puts behind an element: a comma before the next one, and a blank.\<close>

definition tail_text :: "(real \<Rightarrow> string) \<Rightarrow> formats \<Rightarrow> handle \<Rightarrow> nat \<Rightarrow> nat \<Rightarrow> setting list \<Rightarrow> string" where
  "tail_text print_e fmt h depth i ss = (if ss \<noteq> [] then '','' else []) @ '' '' @ write_elements print_e fmt h depth i ss"

lemma write_elements_Cons:
  "write_elements print_e fmt h depth i (Setting n c # ss)
    = config_write_value print_e fmt (h @ [i]) depth c @ tail_text print_e fmt h depth (Suc i) ss"
  by (simp add: tail_text_def)

lemma tail_ends: "close = CHR '')'' \<or> close = CHR '']'' \<Longrightarrow> ends_value (tail_text print_e fmt h depth i ss @ close # r)"
  by (cases ss) (auto simp: ends_value_def tail_text_def)

lemma stack_needs_ge: "2 \<le> stack_needs ss"
proof (induction ss)
  case (Cons s ss)
  then show ?case by (cases s) (simp add: le_max_iff_disj)
qed simp

text \<open>
  What the grammar promises for lists and arrays alike: two left recursive rules with a
  comma, an empty one, and the closing bracket.
\<close>

locale bracketed =
  fixes coll :: "setting list \<Rightarrow> content" and admissible :: "setting list \<Rightarrow> bool"
    and first rest more opt closed first_to more_to r_first r_more r_none r_all :: nat
    and close_token :: yytokentype and close :: char
  assumes collection: "\<And>ss. is_collection (coll ss)" "\<And>ss. elements (coll ss) = ss"
    and slot_element: "\<And>s h place ctx ss. s \<in> {first, more} \<Longrightarrow> hole h place \<Longrightarrow> ctx_parent ctx = Some h \<Longrightarrow>
      ctx_tree ctx = place (coll ss) \<Longrightarrow> slot s (h @ [length ss]) ctx (\<lambda>c. place (coll (ss @ [Setting None c])))"
    and allowed: "\<And>h place ctx rd before c after. hole h place \<Longrightarrow> ctx_parent ctx = Some h \<Longrightarrow>
      ctx_tree ctx = place (coll (map (reread_setting rd) before)) \<Longrightarrow>
      admissible (before @ Setting None c # after) \<Longrightarrow> array_allows ctx (config_setting_type c)"
    and sees: "\<not> blind first" "\<not> blind rest" "\<not> blind more" "\<not> blind opt"
    and unseeing: "blind first_to" "blind more_to"
    and comma: "yyaction_on rest TOK_COMMA = Shift more"
    and closes: "yyaction_on first close_token = Reduce r_none" "yyaction_on rest close_token = Reduce r_all"
      "yyaction_on opt close_token = Shift closed"
    and reduces: "yydefault first_to = Reduce r_first" "yydefault more_to = Reduce r_more"
    and sizes: "yyr2 ! r_first = 1" "yyr2 ! r_more = 3" "yyr2 ! r_none = 0" "yyr2 ! r_all = 1"
    and gotos: "yygoto r_first first = rest" "yygoto r_more first = rest" "yygoto r_none first = opt"
      "yygoto r_all first = opt"
    and no_action: "\<And>rule. rule \<in> {r_first, r_more, r_none, r_all} \<Longrightarrow> rule \<notin> {8, 10, 11, 12, 13, 18, 19, 20, 21, 22, 31, 32}"
    and closing: "close = CHR '')'' \<or> close = CHR '']''" "close_token \<noteq> TOK_EOF"
      "\<And>atof cs. lexes atof (close # cs) (close_token, No_Value) cs"
begin

lemma no_effect: "rule \<in> {r_first, r_more, r_none, r_all} \<Longrightarrow> yyaction rule line v ctx = Inr (Continue ctx)"
  using no_action plain_action by blast

lemma tail_goes:
  assumes "\<And>s. s \<in> set ss \<Longrightarrow> reads_element print_e atof fmt (setting_value s) more more_to"
    and "writable_elements fmt h i ss" and "admissible (before @ ss)" and "i = length before"
    and "hole h place" and "ctx_parent ctx = Some h"
    and "ctx_tree ctx = place (coll (map (reread_setting (\<lambda>x. atof (print_e x))) before))" and "0 < depth"
    and "length st + 3 + stack_needs ss < YYMAXDEPTH"
  shows "\<exists>y' ctx'. goes atof ((rest, y) # (first, x) # st, None, tail_text print_e fmt h depth i ss @ close # r, ctx)
      ((rest, y') # (first, x) # st, None, '' '' @ close # r, ctx')
    \<and> ctx_tree ctx' = place (coll (map (reread_setting (\<lambda>x. atof (print_e x))) (before @ ss)))
    \<and> ctx_parent ctx' = Some h \<and> ctx_error ctx' = ctx_error ctx
    \<and> elements_kept fmt h i ss (ctx_formats ctx) (ctx_formats ctx')"
  using assms
proof (induction ss arbitrary: i before ctx y)
  case Nil
  then show ?case
    by (intro exI [of _ y] exI [of _ ctx]) (simp add: tail_text_def elements_kept_Nil)
next
  case (Cons e ss)
  obtain n c where e: "e = Setting n c" by (cases e)
  define rd where "rd = (\<lambda>x. atof (print_e x))"
  have n: "n = None" and c: "writable fmt (h @ [i]) c" and ss: "writable_elements fmt h (Suc i) ss"
    using Cons.prems(2) by (simp_all add: e)
  have room: "length st + 3 + stack_need c < YYMAXDEPTH" "length st + 3 + stack_needs ss < YYMAXDEPTH"
    "length st + 5 < YYMAXDEPTH"
    using Cons.prems(9) stack_needs_ge [of "e # ss"] by (simp_all add: e)
  define cs where "cs = tail_text print_e fmt h depth (Suc i) ss @ close # r"
  have written: "tail_text print_e fmt h depth i (e # ss) @ close # r
      = CHR '','' # '' '' @ config_write_value print_e fmt (h @ [i]) depth c @ cs"
    by (simp add: tail_text_def e cs_def)
  have slot: "slot more (h @ [i]) ctx (\<lambda>c. place (coll (map (reread_setting rd) before @ [Setting None c])))"
    using slot_element [OF _ Cons.prems(5,6,7)] Cons.prems(4) by (simp add: rd_def)
  have allows: "array_allows ctx (config_setting_type c)"
    using allowed [OF Cons.prems(5,6,7)] Cons.prems(3) by (simp add: e n)
  have ends: "ends_value cs" unfolding cs_def by (rule tail_ends [OF closing(1)])
  obtain y1 ctx1 where value_go: "goes atof ((more, No_Value) # (rest, y) # (first, x) # st, None,
        config_write_value print_e fmt (h @ [i]) depth c @ cs, ctx)
      ((more_to, y1) # (more, No_Value) # (rest, y) # (first, x) # st, None, cs, ctx1)"
    and read: "value_read rd fmt (h @ [i]) c (\<lambda>c. place (coll (map (reread_setting rd) before @ [Setting None c]))) ctx ctx1"
    using reads_elementD [OF Cons.prems(1) [of e, simplified e, simplified] slot allows Cons.prems(8) c _ ends,
        where st = "(rest, y) # (first, x) # st" and x = No_Value] room
    by (auto simp: rd_def e)
  have "goes atof ((rest, y) # (first, x) # st, None, tail_text print_e fmt h depth i (e # ss) @ close # r, ctx)
      ((more, No_Value) # (rest, y) # (first, x) # st, None,
        '' '' @ config_write_value print_e fmt (h @ [i]) depth c @ cs, ctx)"
    unfolding written by (rule goes_shift [OF lexes_separators(3) comma sees(2)]) (use room in simp_all)
  also have "goes atof \<dots> ((more, No_Value) # (rest, y) # (first, x) # st, None,
        config_write_value print_e fmt (h @ [i]) depth c @ cs, ctx)"
    by (rule goes_blanks [OF _ sees(3)]) (use room in simp_all)
  also have "goes atof \<dots> ((more_to, y1) # (more, No_Value) # (rest, y) # (first, x) # st, None, cs, ctx1)"
    by (rule value_go)
  also have "goes atof ((more_to, y1) # (more, No_Value) # (rest, y) # (first, x) # st, None, cs, ctx1)
      (yypop r_more ((more_to, y1) # (more, No_Value) # (rest, y) # (first, x) # st), None, cs, ctx1)"
    by (rule goes_reduce) (use unseeing reduces room no_effect in simp_all)
  also have "yypop r_more ((more_to, y1) # (more, No_Value) # (rest, y) # (first, x) # st) = (rest, y) # (first, x) # st"
    by (simp add: yypop_def sizes gotos numeral_eq_Suc)
  finally have step: "goes atof ((rest, y) # (first, x) # st, None, tail_text print_e fmt h depth i (e # ss) @ close # r, ctx)
      ((rest, y) # (first, x) # st, None, cs, ctx1)" .
  have tree1: "ctx_tree ctx1 = place (coll (map (reread_setting rd) (before @ [e])))"
    using read by (simp add: value_read_def e n)
  have parent1: "ctx_parent ctx1 = Some h" using read Cons.prems(6) by (simp add: value_read_def)
  obtain y' ctx' where rest_go: "goes atof ((rest, y) # (first, x) # st, None, cs, ctx1)
      ((rest, y') # (first, x) # st, None, '' '' @ close # r, ctx')"
    and tree': "ctx_tree ctx' = place (coll (map (reread_setting rd) ((before @ [e]) @ ss)))"
    and keeps: "ctx_parent ctx' = Some h" "ctx_error ctx' = ctx_error ctx1"
      "elements_kept fmt h (Suc i) ss (ctx_formats ctx1) (ctx_formats ctx')"
    using Cons.IH [of "Suc i" "before @ [e]" ctx1 y] Cons.prems ss parent1 tree1 room(2)
    by (auto simp: cs_def rd_def)
  have "elements_kept fmt h i (e # ss) (ctx_formats ctx) (ctx_formats ctx')"
    unfolding e by (rule elements_kept_Cons [OF _ keeps(3)]) (use read in \<open>simp add: value_read_def\<close>)
  then show ?case
    using goes_trans [OF step rest_go] tree' keeps read by (auto simp: rd_def value_read_def)
qed

end

context bracketed
begin

text \<open>The elements of a collection and its closing bracket.\<close>

lemma sequence_goes:
  assumes elems: "\<And>s. s \<in> set ss \<Longrightarrow> reads_element print_e atof fmt (setting_value s) first first_to
      \<and> reads_element print_e atof fmt (setting_value s) more more_to"
    and good: "writable_elements fmt h 0 ss" and admissible: "admissible ss"
    and place: "hole h place" "ctx_parent ctx = Some h" "ctx_tree ctx = place (coll [])" and "0 < depth"
    and room: "length st + 3 + stack_needs ss < YYMAXDEPTH"
  shows "\<exists>y z ctx'. goes atof
      ((first, x) # st, None, '' '' @ write_elements print_e fmt h depth 0 ss @ close # r, ctx)
      ((closed, No_Value) # (opt, z) # (first, y) # st, None, r, ctx')
    \<and> ctx_tree ctx' = place (coll (map (reread_setting (\<lambda>x. atof (print_e x))) ss))
    \<and> ctx_parent ctx' = Some h \<and> ctx_error ctx' = ctx_error ctx
    \<and> elements_kept fmt h 0 ss (ctx_formats ctx) (ctx_formats ctx')"
proof -
  define rd where "rd = (\<lambda>x. atof (print_e x))"
  have room': "length st + 5 < YYMAXDEPTH" using room stack_needs_ge [of ss] by simp
  have skip: "goes atof ((first, x) # st, None, '' '' @ cs, ctx) ((first, x) # st, None, cs, ctx)" for cs
    by (rule goes_blanks [OF _ sees(1)]) (use room' in simp_all)
  have shut: "goes atof ((opt, z) # (first, x) # st, Some (close_token, No_Value), r, ctx')
      ((closed, No_Value) # (opt, z) # (first, x) # st, None, r, ctx')" for z ctx'
    by (rule goes_shift_on [OF closes(3) sees(4) _ closing(2)]) (use room' in simp)
  show ?thesis
  proof (cases ss)
    case Nil
    have "goes atof ((first, x) # st, None, '' '' @ close # r, ctx) ((first, x) # st, None, close # r, ctx)"
      by (rule skip)
    also have "goes atof \<dots> ((first, x) # st, Some (close_token, No_Value), r, ctx)"
      by (rule goes_look [OF closing(3) sees(1)]) (use room' in simp)
    also have "goes atof \<dots> (yypop r_none ((first, x) # st), Some (close_token, No_Value), r, ctx)"
      by (rule goes_reduce) (use sees closes room' no_effect in simp_all)
    also have "yypop r_none ((first, x) # st) = (opt, No_Value) # (first, x) # st"
      by (simp add: yypop_def sizes gotos)
    also note shut
    finally show ?thesis
      using Nil place
      by (intro exI [of _ x] exI [of _ No_Value] exI [of _ ctx]) (simp add: elements_kept_Nil)
  next
    case (Cons e es)
    obtain n c where e: "e = Setting n c" by (cases e)
    have n: "n = None" and c: "writable fmt (h @ [0]) c" and es: "writable_elements fmt h 1 es"
      using good by (simp_all add: Cons e)
    define cs where "cs = tail_text print_e fmt h depth 1 es @ close # r"
    have written: "write_elements print_e fmt h depth 0 ss @ close # r
        = config_write_value print_e fmt (h @ [0]) depth c @ cs"
      by (simp add: Cons e write_elements_Cons cs_def del: write_elements.simps)
    have slot: "slot first (h @ [0]) ctx (\<lambda>c. place (coll [Setting None c]))"
      using slot_element [OF _ place] by simp
    have allows: "array_allows ctx (config_setting_type c)"
      using allowed [OF place(1,2), of rd "[]" c es] place(3) admissible by (simp add: Cons e n)
    have ends: "ends_value cs" unfolding cs_def by (rule tail_ends [OF closing(1)])
    have room1: "length st + 1 + stack_need c < YYMAXDEPTH" "length st + 3 + stack_needs es < YYMAXDEPTH"
      using room by (simp_all add: Cons e)
    have elem: "reads_element print_e atof fmt c first first_to" using elems [of e] by (simp add: Cons e)
    obtain y1 ctx1 where value_go: "goes atof ((first, x) # st, None,
          config_write_value print_e fmt (h @ [0]) depth c @ cs, ctx)
        ((first_to, y1) # (first, x) # st, None, cs, ctx1)"
      and read: "value_read rd fmt (h @ [0]) c (\<lambda>c. place (coll [Setting None c])) ctx ctx1"
      using reads_elementD [where x = x, OF elem slot allows \<open>0 < depth\<close> c room1(1) ends] unfolding rd_def by blast
    have "goes atof ((first, x) # st, None, '' '' @ write_elements print_e fmt h depth 0 ss @ close # r, ctx)
        ((first, x) # st, None, config_write_value print_e fmt (h @ [0]) depth c @ cs, ctx)"
      unfolding written by (rule skip)
    also have "goes atof \<dots> ((first_to, y1) # (first, x) # st, None, cs, ctx1)" by (rule value_go)
    also have "goes atof \<dots> ((yygoto r_first first, y1) # (first, x) # st, None, cs, ctx1)"
      by (rule goes_unit) (use unseeing reduces sizes no_effect room' in simp_all)
    finally have step: "goes atof
        ((first, x) # st, None, '' '' @ write_elements print_e fmt h depth 0 ss @ close # r, ctx)
        ((rest, y1) # (first, x) # st, None, cs, ctx1)"
      by (simp add: gotos)
    have one: "ctx_tree ctx1 = place (coll (map (reread_setting rd) [e]))" "ctx_parent ctx1 = Some h"
      using read place(2) by (simp_all add: value_read_def e n)
    obtain y' ctx' where tail: "goes atof ((rest, y1) # (first, x) # st, None, cs, ctx1)
        ((rest, y') # (first, x) # st, None, '' '' @ close # r, ctx')"
      and tree': "ctx_tree ctx' = place (coll (map (reread_setting rd) ss))"
      and keeps: "ctx_parent ctx' = Some h" "ctx_error ctx' = ctx_error ctx1"
        "elements_kept fmt h 1 es (ctx_formats ctx1) (ctx_formats ctx')"
      using tail_goes [of es print_e atof fmt h 1 "[e]" place ctx1 depth st y1 x r] elems es admissible place(1)
        one \<open>0 < depth\<close> room1(2)
      by (auto simp: cs_def rd_def Cons e)
    have "goes atof ((rest, y') # (first, x) # st, None, '' '' @ close # r, ctx')
        ((rest, y') # (first, x) # st, None, close # r, ctx')"
      by (rule goes_blanks [OF _ sees(2)]) (use room' in simp_all)
    also have "goes atof \<dots> ((rest, y') # (first, x) # st, Some (close_token, No_Value), r, ctx')"
      by (rule goes_look [OF closing(3) sees(2)]) (use room' in simp)
    also have "goes atof \<dots> (yypop r_all ((rest, y') # (first, x) # st), Some (close_token, No_Value), r, ctx')"
      by (rule goes_reduce) (use sees closes room' no_effect in simp_all)
    also have "yypop r_all ((rest, y') # (first, x) # st) = (opt, y') # (first, x) # st"
      by (simp add: yypop_def sizes gotos)
    also note shut
    finally have "goes atof ((rest, y') # (first, x) # st, None, '' '' @ close # r, ctx')
        ((closed, No_Value) # (opt, y') # (first, x) # st, None, r, ctx')" .
    then have "goes atof ((first, x) # st, None, '' '' @ write_elements print_e fmt h depth 0 ss @ close # r, ctx)
        ((closed, No_Value) # (opt, y') # (first, x) # st, None, r, ctx')"
      using step tail goes_trans by blast
    moreover have "elements_kept fmt h 0 ss (ctx_formats ctx) (ctx_formats ctx')"
      unfolding Cons e by (rule elements_kept_Cons) (use read keeps(3) in \<open>simp_all add: value_read_def\<close>)
    ultimately show ?thesis using tree' keeps read by (auto simp: rd_def value_read_def)
  qed
qed

end

interpretation in_list: bracketed C_List "\<lambda>_. True" 23 30 36 31 37 29 40 23 24 25 26 TOK_LIST_END "CHR '')''"
proof unfold_locales
  fix h place and ctx :: parse_context and rd before c
  assume "hole h place" and "ctx_parent ctx = Some h" and "ctx_tree ctx = place (C_List (map (reread_setting rd) before))"
  then show "array_allows ctx (config_setting_type c)" by (auto simp: array_allows_def hole_def)
qed (use slot_in_list in \<open>simp_all add: blind_facts yyaction_facts yydefault_facts yyr2_facts yygoto_single
    is_collection_def lexes_separators\<close>, auto?)

definition same_types :: "setting list \<Rightarrow> bool" where
  "same_types ss \<longleftrightarrow>
     list_all (\<lambda>s. config_setting_type (setting_value s) = config_setting_type (setting_value (hd ss))) ss"

lemma type_reread [simp]: "config_setting_type (reread rd c) = config_setting_type c"
  by (cases c) simp_all

interpretation in_array: bracketed C_Array same_types 22 27 34 28 35 26 39 27 28 29 30 TOK_ARRAY_END "CHR '']''"
proof unfold_locales
  fix h place and ctx :: parse_context and rd before c after
  assume "hole h place" and "ctx_parent ctx = Some h" and "ctx_tree ctx = place (C_Array (map (reread_setting rd) before))"
    and "same_types (before @ Setting None c # after)"
  then show "array_allows ctx (config_setting_type c)"
    by (cases before; cases "hd before")
      (auto simp: array_allows_def hole_def config_vector_checktype_def same_types_def)
qed (use slot_in_array in \<open>simp_all add: blind_facts yyaction_facts yydefault_facts yyr2_facts yygoto_single
    is_collection_def lexes_separators\<close>, auto?)

text \<open>With the opening bracket, and the rules that make a value of it.\<close>

locale bracketed_value = bracketed +
  fixes ty :: config_type and opened finished r_open r_close r_value :: nat
    and open_token :: yytokentype and opener :: char
  assumes empty: "zeroed ty = coll []"
    and opens: "\<And>s. s \<in> {8, 23, 36} \<Longrightarrow> yyaction_on s open_token = Shift opened" "open_token \<noteq> TOK_EOF"
      "\<And>atof cs. lexes atof (opener # cs) (open_token, No_Value) cs"
    and blinds: "blind opened" "blind closed" "blind finished"
    and reduced: "yydefault opened = Reduce r_open" "yydefault closed = Reduce r_close" "yydefault finished = Reduce r_value"
    and rules: "yyr2 ! r_open = 0" "yyr2 ! r_close = 4" "yyr2 ! r_value = 1"
    and leads: "yygoto r_open opened = first" "\<And>s. s \<in> {8, 23, 36} \<Longrightarrow> yygoto r_close s = finished"
      "\<And>s. s \<in> {8, 23, 36} \<Longrightarrow> yygoto r_value s = value_goto s"
    and actions: "\<And>line v ctx. yyaction r_open line v ctx = open_collection ty ctx"
      "\<And>line v ctx. yyaction r_close line v ctx = Inr (Continue (close_collection ctx))"
      "\<And>line v ctx. yyaction r_value line v ctx = Inr (Continue ctx)"
    and written: "\<And>print_e fmt h depth ss. config_write_value print_e fmt h depth (coll ss)
      = opener # '' '' @ write_elements print_e fmt h (depth + 1) 0 ss @ [close]"
    and need: "\<And>ss. stack_need (coll ss) = 5 + stack_needs ss"
    and good: "\<And>fmt h ss. writable fmt h (coll ss) \<Longrightarrow> writable_elements fmt h 0 ss \<and> admissible ss"
    and again: "\<And>rd ss. reread rd (coll ss) = coll (map (reread_setting rd) ss)"
begin

lemma collection_reads_value:
  assumes "\<And>s. s \<in> set ss \<Longrightarrow> reads_element print_e atof fmt (setting_value s) first first_to
      \<and> reads_element print_e atof fmt (setting_value s) more more_to"
  shows "reads_value print_e atof fmt (coll ss)"
  unfolding reads_value_def reads_element_def
proof (intro ballI allI impI)
  fix s h depth x and st :: "(nat \<times> yystype) list" and r ctx place
  assume s: "s \<in> {8, 23, 36 :: nat}" and slot: "slot s h ctx place" and "0 < (depth :: nat)"
    and w: "writable fmt h (coll ss)" and room: "length st + 1 + stack_need (coll ss) < YYMAXDEPTH"
  define rd where "rd = (\<lambda>x. atof (print_e x))"
  have room': "length st + 8 < YYMAXDEPTH" using room stack_needs_ge [of ss] by (simp add: need)
  have hole: "hole h place" using slot by (simp add: slot_def)
  have sees_s: "\<not> blind s" using s by (auto simp: blind_facts)
  obtain ctx1 where opened: "open_collection ty ctx = Inr (Continue ctx1)" "ctx_parent ctx1 = Some h"
      "ctx_tree ctx1 = place (coll [])" "ctx_formats ctx1 = ctx_formats ctx" "ctx_error ctx1 = ctx_error ctx"
    using open_at_slot [OF slot s, of ty] by (auto simp: empty)
  define cs where "cs = '' '' @ write_elements print_e fmt h (depth + 1) 0 ss @ close # r"
  obtain y z ctx2 where inner: "goes atof ((first, No_Value) # (opened, No_Value) # (s, x) # st, None, cs, ctx1)
      ((closed, No_Value) # (opt, z) # (first, y) # (opened, No_Value) # (s, x) # st, None, r, ctx2)"
    and read: "ctx_tree ctx2 = place (coll (map (reread_setting rd) ss))" "ctx_parent ctx2 = Some h"
      "ctx_error ctx2 = ctx_error ctx1" "elements_kept fmt h 0 ss (ctx_formats ctx1) (ctx_formats ctx2)"
    using sequence_goes [where ss = ss, OF assms _ _ hole opened(2,3), where depth = "depth + 1"
        and st = "(opened, No_Value) # (s, x) # st" and x = No_Value and r = r] good [OF w] room
    by (auto simp: need rd_def cs_def)
  have "goes atof ((s, x) # st, None, opener # cs, ctx) ((opened, No_Value) # (s, x) # st, None, cs, ctx)"
    by (rule goes_shift [OF opens(3) opens(1) [OF s] sees_s _ opens(2)]) (use room' in simp)
  also have "goes atof \<dots> (yypop r_open ((opened, No_Value) # (s, x) # st), None, cs, ctx1)"
    by (rule goes_reduce) (use blinds reduced room' actions opened in simp_all)
  also have "yypop r_open ((opened, No_Value) # (s, x) # st) = (first, No_Value) # (opened, No_Value) # (s, x) # st"
    by (simp add: yypop_def rules leads)
  also note inner
  also have "goes atof ((closed, No_Value) # (opt, z) # (first, y) # (opened, No_Value) # (s, x) # st, None, r, ctx2)
      (yypop r_close ((closed, No_Value) # (opt, z) # (first, y) # (opened, No_Value) # (s, x) # st), None, r,
        close_collection ctx2)"
    by (rule goes_reduce) (use blinds reduced room' actions in simp_all)
  also have "yypop r_close ((closed, No_Value) # (opt, z) # (first, y) # (opened, No_Value) # (s, x) # st)
      = (finished, No_Value) # (s, x) # st"
    by (simp add: yypop_def rules leads(2) [OF s] numeral_eq_Suc)
  also have "goes atof ((finished, No_Value) # (s, x) # st, None, r, close_collection ctx2)
      ((yygoto r_value s, No_Value) # (s, x) # st, None, r, close_collection ctx2)"
    by (rule goes_unit) (use blinds reduced rules actions room' in simp_all)
  also have "yygoto r_value s = value_goto s" by (rule leads(3) [OF s])
  finally have "goes atof ((s, x) # st, None, config_write_value print_e fmt h depth (coll ss) @ r, ctx)
      ((value_goto s, No_Value) # (s, x) # st, None, r, close_collection ctx2)"
    by (simp add: written cs_def)
  moreover have "formats_kept fmt h (coll ss) (ctx_formats ctx) (ctx_formats ctx2)"
    using elements_kept_all [of fmt h "coll ss"] read(4) opened(4) collection by simp
  then have "value_read rd fmt h (coll ss) place ctx (close_collection ctx2)"
    using read opened slot_parent [OF slot] by (simp add: value_read_def close_collection_def again)
  ultimately show "\<exists>y ctx'. goes atof ((s, x) # st, None, config_write_value print_e fmt h depth (coll ss) @ r, ctx)
      ((value_goto s, y) # (s, x) # st, None, r, ctx')
    \<and> value_read (\<lambda>x. atof (print_e x)) fmt h (coll ss) place ctx ctx'"
    unfolding rd_def by blast
qed

end

lemma collection_actions:
  "yyaction 10 line v ctx = open_collection CONFIG_TYPE_ARRAY ctx"
  "yyaction 12 line v ctx = open_collection CONFIG_TYPE_LIST ctx"
  "yyaction 31 line v ctx = open_collection CONFIG_TYPE_GROUP ctx"
  "yyaction 11 line v ctx = Inr (Continue (close_collection ctx))"
  "yyaction 13 line v ctx = Inr (Continue (close_collection ctx))"
  "yyaction 32 line v ctx = Inr (Continue (close_collection ctx))"
  by (simp_all add: yyaction_def)

interpretation list_value: bracketed_value C_List "\<lambda>_. True" 23 30 36 31 37 29 40 23 24 25 26 TOK_LIST_END "CHR '')''"
  CONFIG_TYPE_LIST 15 18 12 13 16 TOK_LIST_START "CHR ''(''"
  by unfold_locales (simp_all add: yyaction_on_collections blind_facts yydefault_facts yyr2_facts
    yygoto_single yygoto_facts collection_actions plain_action lexes_separators)

interpretation array_value: bracketed_value C_Array same_types 22 27 34 28 35 26 39 27 28 29 30 TOK_ARRAY_END "CHR '']''"
  CONFIG_TYPE_ARRAY 14 17 10 11 15 TOK_ARRAY_START "CHR ''[''"
  by unfold_locales (simp_all add: yyaction_on_collections blind_facts yydefault_facts yyr2_facts
    yygoto_single yygoto_facts collection_actions plain_action lexes_separators same_types_def list_all_iff)

lemma list_reads_value:
  assumes "\<And>s. s \<in> set ss \<Longrightarrow> reads_value print_e atof fmt (setting_value s)"
  shows "reads_value print_e atof fmt (C_List ss)"
  by (rule list_value.collection_reads_value)
    (use assms in \<open>auto simp: reads_value_def value_goto_def\<close>)

lemma array_reads_value:
  assumes "\<And>s. s \<in> set ss \<Longrightarrow> simple (setting_value s)" and "\<And>x. e_format (print_e x)"
  shows "reads_value print_e atof fmt (C_Array ss)"
proof (rule array_value.collection_reads_value)
  fix e
  assume "e \<in> set ss"
  then have v: "simple (setting_value e)" by (rule assms(1))
  have need: "stack_need (setting_value e) = 2" using v by (cases "setting_value e") (simp_all add: simple_def)
  have "reads_element print_e atof fmt (setting_value e) s (simple_goto s)" if "s \<in> {22, 34}" for s
    unfolding reads_element_def
  proof (intro allI impI)
    fix h depth x and st :: "(nat \<times> yystype) list" and r ctx place
    assume "slot s h ctx place" and "array_allows ctx (config_setting_type (setting_value e))" and "0 < (depth :: nat)"
      and "writable fmt h (setting_value e)" and "length st + 1 + stack_need (setting_value e) < YYMAXDEPTH"
      and "ends_value r"
    then show "\<exists>y ctx'. goes atof ((s, x) # st, None, config_write_value print_e fmt h depth (setting_value e) @ r, ctx)
        ((simple_goto s, y) # (s, x) # st, None, r, ctx')
      \<and> value_read (\<lambda>x. atof (print_e x)) fmt h (setting_value e) place ctx ctx'"
      using simple_goes [where print_e = print_e, OF v _ _ _ _ assms(2)] that need by simp
  qed
  then show "reads_element print_e atof fmt (setting_value e) 22 26 \<and> reads_element print_e atof fmt (setting_value e) 34 39"
    by (force simp: simple_goto_def)
qed

section \<open>Groups\<close>

text \<open>A name the scanner takes has no separator, so names are compared in full.\<close>

lemma valid_name_key: "valid_name n \<Longrightarrow> key n = n"
proof -
  assume n: "valid_name n"
  have "name_char c \<Longrightarrow> \<not> path_token c" for c by (auto simp: name_char_def code_in_def)
  then have "list_all (Not \<circ> path_token) n"
    using n name_start_char by (cases n) (auto simp: valid_name_def list_all_iff simp del: path_token_iff)
  then show "key n = n" using n by (intro key_plain) (simp add: plain_def valid_name_def)
qed

definition named_all :: "setting list \<Rightarrow> bool" where
  "named_all ss \<longleftrightarrow> (\<forall>s \<in> set ss. \<exists>m. setting_name s = Some m \<and> valid_name m)"

lemma new_name: "named_all ss \<Longrightarrow> valid_name n \<Longrightarrow> Some n \<notin> set (map setting_name ss) \<Longrightarrow> find_key ss n = None"
  by (induction ss) (force simp: named_all_def valid_name_key)+

lemma name_added:
  assumes "hole h place" and "ctx_parent ctx = Some h" and "ctx_tree ctx = place (C_Group ss)"
    and "named_all ss" and "valid_name n" and "Some n \<notin> set (map setting_name ss)"
  shows "add_named line n ctx = Continue (ctx\<lparr>ctx_tree := place (C_Group (ss @ [Setting (Some n) C_None])),
    ctx_setting := Some (h @ [length ss])\<rparr>)"
proof -
  have at: "node (place (C_Group ss)) h = Some (C_Group ss)" using assms(1) by (simp add: hole_def)
  have "update h (\<lambda>c. with_elements c (elements c @ [Setting (Some n) C_None])) (place (C_Group ss))
      = place (C_Group (ss @ [Setting (Some n) C_None]))"
    using assms(1) append_to_node [OF at] by (simp add: hole_def)
  moreover have "config_setting_get_member (C_Group ss) n = None"
    using new_name [OF assms(4-6)] valid_name_key [OF assms(5)]
    by (simp add: config_setting_get_member_key member_at_def)
  ultimately show ?thesis
    using at assms(2,3)
    by (simp add: add_named_def config_setting_add_def config_setting_create_def is_collection_def)
qed

lemma name_reduced: "blind (Suc 0)" "yydefault (Suc 0) = Reduce 8"
  using blind_facts(1) yydefault_facts(1) by simp_all

text \<open>
  A group is read at the bottom of the stack, above state 0, or behind its brace, above state
  24; \<open>settings_state\<close> is the state with at least one setting.
\<close>

definition settings_state :: "nat \<Rightarrow> nat" where
  "settings_state b = (if b = 0 then 3 else 32)"

lemma setting_goes:
  assumes b: "b = 0 \<or> b = 24"
    and top: "t = b \<and> u = st \<or> t = settings_state b \<and> u = (b, x) # st"
    and place: "hole h place" "ctx_parent ctx = Some h" "ctx_tree ctx = place (C_Group ss)"
    and name: "named_all ss" "valid_name n" "Some n \<notin> set (map setting_name ss)"
    and c: "reads_value print_e atof fmt c" "writable fmt (h @ [length ss]) c" and "0 < depth"
    and room: "length st + 5 + stack_need c < YYMAXDEPTH"
  shows "\<exists>z ctx'. goes atof ((t, y) # u, None,
        config_write_setting print_e fmt (h @ [length ss]) depth (Setting (Some n) c) @ r, ctx)
      ((settings_state b, z) # (if t = b then (t, y) # u else u), None, CHR 0x0A # r, ctx')
    \<and> ctx_tree ctx' = place (C_Group (ss @ [Setting (Some n) (reread (\<lambda>x. atof (print_e x)) c)]))
    \<and> ctx_parent ctx' = Some h \<and> ctx_error ctx' = ctx_error ctx
    \<and> formats_kept fmt (h @ [length ss]) c (ctx_formats ctx) (ctx_formats ctx')"
proof -
  define rd where "rd = (\<lambda>x. atof (print_e x))"
  define sep where "sep = (if config_setting_type c = CONFIG_TYPE_GROUP then CHR '':'' else CHR ''='')"
  define end_text where "end_text = CHR '';'' # CHR 0x0A # r"
  define value_text where "value_text = config_write_value print_e fmt (h @ [length ss]) depth c @ end_text"
  have written: "config_write_setting print_e fmt (h @ [length ss]) depth (Setting (Some n) c) @ r
      = blanks depth @ n @ CHR '' '' # sep # CHR '' '' # value_text"
    using \<open>0 < depth\<close> by (simp add: sep_def value_text_def end_text_def)
  have u: "length u \<le> length st + 1" using top by auto
  have "2 \<le> stack_need c" by (cases c) simp_all
  then have room': "length u + 6 < YYMAXDEPTH" "length u + 4 + stack_need c < YYMAXDEPTH" "length st + 7 < YYMAXDEPTH"
    using room u by simp_all
  have sees: "\<not> blind t" and name_shift: "yyaction_on t TOK_NAME = Shift 1"
    using b top by (auto simp: settings_state_def blind_facts yyaction_facts)
  define ctx1 where "ctx1 = ctx\<lparr>ctx_tree := place (C_Group (ss @ [Setting (Some n) C_None])),
    ctx_setting := Some (h @ [length ss])\<rparr>"
  have act8: "yyaction 8 line (S_Val n) ctx = Inr (Continue ctx1)" for line
    using name_added [OF place name] by (simp add: yyaction_def ctx1_def)
  have slot: "slot 8 (h @ [length ss]) ctx1 (\<lambda>c. place (C_Group (ss @ [Setting (Some n) c])))"
    using slot_in_group [OF place(1), of ctx1 ss "Some n"] place(2) by (simp add: ctx1_def)
  have "node (ctx_tree ctx1) h = Some (C_Group (ss @ [Setting (Some n) C_None]))"
    using place(1) by (simp add: ctx1_def hole_def)
  then have allows: "array_allows ctx1 (config_setting_type c)"
    using place(2) by (simp add: array_allows_def ctx1_def)
  have elem: "reads_element print_e atof fmt c 8 19" using c(1) by (simp add: reads_value_def value_goto_def)
  have ends: "ends_value end_text" by (simp add: ends_value_def end_text_def)
  obtain z ctx2 where value_go: "goes atof ((8, No_Value) # (5, No_Value) # (1, S_Val n) # (t, y) # u, None, value_text, ctx1)
        ((19, z) # (8, No_Value) # (5, No_Value) # (1, S_Val n) # (t, y) # u, None, end_text, ctx2)"
    and read: "value_read rd fmt (h @ [length ss]) c (\<lambda>c. place (C_Group (ss @ [Setting (Some n) c]))) ctx1 ctx2"
    using reads_elementD [OF elem slot allows \<open>0 < depth\<close> c(2) _ ends, where x = No_Value
        and st = "(5, No_Value) # (1, S_Val n) # (t, y) # u"] room'(2)
    unfolding rd_def value_text_def by auto
  have "goes atof ((t, y) # u, None, blanks depth @ n @ CHR '' '' # sep # CHR '' '' # value_text, ctx)
      ((t, y) # u, None, n @ CHR '' '' # sep # CHR '' '' # value_text, ctx)"
    by (rule goes_blanks [OF _ sees]) (use room' in simp_all)
  also have "goes atof \<dots> ((1, S_Val n) # (t, y) # u, None, CHR '' '' # sep # CHR '' '' # value_text, ctx)"
    by (rule goes_shift [OF lexes_name [OF name(2)] name_shift sees]) (use room' in simp_all)
  also have "goes atof \<dots> (yypop 8 ((1, S_Val n) # (t, y) # u), None, CHR '' '' # sep # CHR '' '' # value_text, ctx1)"
    by (rule goes_reduce) (use room' act8 in \<open>simp_all add: name_reduced\<close>)
  also have "yypop 8 ((1, S_Val n) # (t, y) # u) = (5, No_Value) # (1, S_Val n) # (t, y) # u"
    using yygoto_single(1) by (simp add: yypop_def yyr2_facts)
  also have "goes atof ((5, No_Value) # (1, S_Val n) # (t, y) # u, None, CHR '' '' # sep # CHR '' '' # value_text, ctx1)
      ((8, No_Value) # (5, No_Value) # (1, S_Val n) # (t, y) # u, None, CHR '' '' # value_text, ctx1)"
    by (rule goes_shift [OF _ yyaction_facts(8)])
      (use room' in \<open>simp_all add: sep_def lexes_separators blind_facts\<close>)
  also have "goes atof \<dots> ((8, No_Value) # (5, No_Value) # (1, S_Val n) # (t, y) # u, None, value_text, ctx1)"
    using goes_blanks [of "'' ''" 8 _ atof No_Value value_text ctx1] room' by (simp add: blind_facts)
  also have "goes atof \<dots> ((19, z) # (8, No_Value) # (5, No_Value) # (1, S_Val n) # (t, y) # u, None, end_text, ctx2)"
    by (rule value_go)
  also have "goes atof \<dots> ((25, No_Value) # (19, z) # (8, No_Value) # (5, No_Value) # (1, S_Val n) # (t, y) # u, None,
      CHR 0x0A # r, ctx2)"
    unfolding end_text_def
    by (rule goes_shift [OF lexes_separators(4) yyaction_facts(9)]) (use room' in \<open>simp_all add: blind_facts\<close>)
  also have "goes atof \<dots> (yypop 9 ((25, No_Value) # (19, z) # (8, No_Value) # (5, No_Value) # (1, S_Val n) # (t, y) # u),
      None, CHR 0x0A # r, ctx2)"
    by (rule goes_reduce) (use room' in \<open>simp_all add: blind_facts yydefault_facts plain_action\<close>)
  also have "yypop 9 ((25, No_Value) # (19, z) # (8, No_Value) # (5, No_Value) # (1, S_Val n) # (t, y) # u)
      = (yygoto 9 t, S_Val n) # (t, y) # u"
    by (simp add: yypop_def yyr2_facts)
  finally have step: "goes atof ((t, y) # u, None,
        config_write_setting print_e fmt (h @ [length ss]) depth (Setting (Some n) c) @ r, ctx)
      ((yygoto 9 t, S_Val n) # (t, y) # u, None, CHR 0x0A # r, ctx2)"
    by (simp only: written)
  have "\<exists>z. goes atof ((yygoto 9 t, S_Val n) # (t, y) # u, None, CHR 0x0A # r, ctx2)
      ((settings_state b, z) # (if t = b then (t, y) # u else u), None, CHR 0x0A # r, ctx2)"
  proof (cases "t = b")
    case True
    have "goes atof ((4, S_Val n) # (t, y) # u, None, CHR 0x0A # r, ctx2)
        ((yygoto 4 t, S_Val n) # (t, y) # u, None, CHR 0x0A # r, ctx2)"
      by (rule goes_unit) (use room' in \<open>simp_all add: blind_facts yydefault_facts yyr2_facts plain_action\<close>)
    then show ?thesis
      using b True by (auto simp: yygoto_single settings_state_def)
  next
    case False
    then have u': "u = (b, x) # st" "t = settings_state b" using top by auto
    have "goes atof ((7, S_Val n) # (t, y) # u, None, CHR 0x0A # r, ctx2)
        (yypop 5 ((7, S_Val n) # (t, y) # u), None, CHR 0x0A # r, ctx2)"
      by (rule goes_reduce) (use room' in \<open>simp_all add: blind_facts yydefault_facts plain_action\<close>)
    moreover have "yypop 5 ((7, S_Val n) # (t, y) # u) = (yygoto 5 b, y) # u"
      by (simp add: yypop_def yyr2_facts u')
    ultimately show ?thesis
      using b False u'(2) by (auto simp: yygoto_single settings_state_def)
  qed
  then obtain z' where "goes atof ((t, y) # u, None,
        config_write_setting print_e fmt (h @ [length ss]) depth (Setting (Some n) c) @ r, ctx)
      ((settings_state b, z') # (if t = b then (t, y) # u else u), None, CHR 0x0A # r, ctx2)"
    using goes_trans [OF step] by blast
  then show ?thesis
    using read place(2)
    by (intro exI [of _ z'] exI [of _ ctx2])
      (simp add: value_read_def ctx1_def rd_def del: config_write_setting.simps)
qed

lemma settings_go:
  assumes b: "b = 0 \<or> b = 24"
    and place: "hole h place" "ctx_parent ctx = Some h" "ctx_tree ctx = place (C_Group before)"
    and name: "named_all before" and good: "writable_members fmt h (length before) ss"
    and distinct: "distinct (map setting_name (before @ ss))"
    and vals: "\<And>s. s \<in> set ss \<Longrightarrow> reads_value print_e atof fmt (setting_value s)" and "0 < depth"
    and room: "length st + 5 + stack_needs ss < YYMAXDEPTH"
  shows "\<exists>z ctx'. goes atof ((settings_state b, y) # (b, x) # st, None,
        CHR 0x0A # write_settings print_e fmt h depth (length before) ss @ r, ctx)
      ((settings_state b, z) # (b, x) # st, None, CHR 0x0A # r, ctx')
    \<and> ctx_tree ctx' = place (C_Group (before @ map (reread_setting (\<lambda>x. atof (print_e x))) ss))
    \<and> ctx_parent ctx' = Some h \<and> ctx_error ctx' = ctx_error ctx
    \<and> elements_kept fmt h (length before) ss (ctx_formats ctx) (ctx_formats ctx')"
  using place name good distinct vals room
proof (induction ss arbitrary: before ctx y)
  case Nil
  then show ?case by (intro exI [of _ y] exI [of _ ctx]) (simp add: elements_kept_Nil)
next
  case (Cons s ss)
  define rd where "rd = (\<lambda>x. atof (print_e x))"
  obtain m c where s: "s = Setting m c" by (cases s)
  obtain n where m: "m = Some n" and n: "valid_name n" and c: "writable fmt (h @ [length before]) c"
    and ss: "writable_members fmt h (Suc (length before)) ss"
    using Cons.prems(5) by (auto simp: s split: option.splits)
  have room: "length st + 5 + stack_need c < YYMAXDEPTH" "length st + 5 + stack_needs ss < YYMAXDEPTH"
    "length st + 7 < YYMAXDEPTH"
    using Cons.prems(8) stack_needs_ge [of "s # ss"] by (simp_all add: s)
  define rest_text where "rest_text = write_settings print_e fmt h depth (Suc (length before)) ss @ r"
  have sees: "\<not> blind (settings_state b)" using b by (auto simp: settings_state_def blind_facts)
  have apart: "settings_state b \<noteq> b" using b by (auto simp: settings_state_def)
  have new: "Some n \<notin> set (map setting_name before)" using Cons.prems(6) by (auto simp: s m)
  have reads_c: "reads_value print_e atof fmt c" using Cons.prems(7) [of s] by (simp add: s)
  have start: "goes atof ((settings_state b, y) # (b, x) # st, None,
        CHR 0x0A # write_settings print_e fmt h depth (length before) (s # ss) @ r, ctx)
      ((settings_state b, y) # (b, x) # st, None,
        config_write_setting print_e fmt (h @ [length before]) depth (Setting (Some n) c) @ rest_text, ctx)"
    using goes_blanks [of "[CHR 0x0A]" _ "(b, x) # st" atof y _ ctx, OF _ sees] room
    by (simp add: s m rest_text_def del: config_write_setting.simps)
  obtain z ctx1 where one: "goes atof ((settings_state b, y) # (b, x) # st, None,
        config_write_setting print_e fmt (h @ [length before]) depth (Setting (Some n) c) @ rest_text, ctx)
      ((settings_state b, z) # (b, x) # st, None, CHR 0x0A # rest_text, ctx1)"
    and tree1: "ctx_tree ctx1 = place (C_Group (before @ [Setting (Some n) (reread rd c)]))"
    and keeps1: "ctx_parent ctx1 = Some h" "ctx_error ctx1 = ctx_error ctx"
      "formats_kept fmt (h @ [length before]) c (ctx_formats ctx) (ctx_formats ctx1)"
    using setting_goes [where t = "settings_state b" and u = "(b, x) # st" and x = x and y = y and r = rest_text,
        OF b _ Cons.prems(1-4) n new reads_c c \<open>0 < depth\<close> room(1)] apart
    unfolding rd_def by (auto simp del: config_write_setting.simps)
  have named: "named_all (before @ [Setting (Some n) (reread rd c)])"
    using Cons.prems(4) n by (auto simp: named_all_def)
  obtain z' ctx' where more: "goes atof ((settings_state b, z) # (b, x) # st, None, CHR 0x0A # rest_text, ctx1)
      ((settings_state b, z') # (b, x) # st, None, CHR 0x0A # r, ctx')"
    and tree': "ctx_tree ctx' = place (C_Group ((before @ [Setting (Some n) (reread rd c)]) @ map (reread_setting rd) ss))"
    and keeps': "ctx_parent ctx' = Some h" "ctx_error ctx' = ctx_error ctx1"
      "elements_kept fmt h (Suc (length before)) ss (ctx_formats ctx1) (ctx_formats ctx')"
    using Cons.IH [where y = z, OF Cons.prems(1) keeps1(1) tree1 named] ss Cons.prems(6,7) room(2)
    by (auto simp: s m rest_text_def rd_def)
  show ?case
    using goes_trans [OF goes_trans [OF start one] more] tree' keeps' keeps1
      elements_kept_Cons [OF keeps1(3) keeps'(3), of m]
    by (intro exI [of _ z'] exI [of _ ctx']) (simp add: s m rd_def del: write_settings.simps)
qed

lemma members_go:
  assumes b: "b = 0 \<or> b = 24"
    and place: "hole h place" "ctx_parent ctx = Some h" "ctx_tree ctx = place (C_Group [])"
    and good: "writable_members fmt h 0 ss" and distinct: "distinct (map setting_name ss)"
    and vals: "\<And>s. s \<in> set ss \<Longrightarrow> reads_value print_e atof fmt (setting_value s)" and "0 < depth"
    and room: "length st + 5 + stack_needs ss < YYMAXDEPTH"
  shows "\<exists>z ctx'. goes atof ((b, x) # st, None, write_settings print_e fmt h depth 0 ss @ r, ctx)
      ((if ss = [] then [] else [(settings_state b, z)]) @ (b, x) # st, None, r, ctx')
    \<and> ctx_tree ctx' = place (C_Group (map (reread_setting (\<lambda>x. atof (print_e x))) ss))
    \<and> ctx_parent ctx' = Some h \<and> ctx_error ctx' = ctx_error ctx
    \<and> elements_kept fmt h 0 ss (ctx_formats ctx) (ctx_formats ctx')"
proof (cases ss)
  case Nil
  then show ?thesis using place by (intro exI [of _ x] exI [of _ ctx]) (simp add: elements_kept_Nil)
next
  case (Cons s rest)
  define rd where "rd = (\<lambda>x. atof (print_e x))"
  obtain m c where s: "s = Setting m c" by (cases s)
  obtain n where m: "m = Some n" and n: "valid_name n" and c: "writable fmt (h @ [0]) c"
    and rest: "writable_members fmt h 1 rest"
    using good by (auto simp: Cons s split: option.splits)
  have room': "length st + 5 + stack_need c < YYMAXDEPTH" "length st + 5 + stack_needs rest < YYMAXDEPTH"
    "length st + 7 < YYMAXDEPTH"
    using room stack_needs_ge [of ss] by (simp_all add: Cons s)
  define rest_text where "rest_text = write_settings print_e fmt h depth 1 rest @ r"
  have sees: "\<not> blind (settings_state b)" using b by (auto simp: settings_state_def blind_facts)
  have reads_c: "reads_value print_e atof fmt c" using vals [of s] by (simp add: Cons s)
  have none: "named_all []" by (simp add: named_all_def)
  obtain z ctx1 where one: "goes atof ((b, x) # st, None,
        config_write_setting print_e fmt (h @ [0]) depth (Setting (Some n) c) @ rest_text, ctx)
      ((settings_state b, z) # (b, x) # st, None, CHR 0x0A # rest_text, ctx1)"
    and tree1: "ctx_tree ctx1 = place (C_Group [Setting (Some n) (reread rd c)])"
    and keeps1: "ctx_parent ctx1 = Some h" "ctx_error ctx1 = ctx_error ctx"
      "formats_kept fmt (h @ [0]) c (ctx_formats ctx) (ctx_formats ctx1)"
    using setting_goes [where t = b and u = st and x = x and y = x and r = rest_text,
        OF b _ place none n _ reads_c _ \<open>0 < depth\<close> room'(1)] c
    unfolding rd_def by (auto simp del: config_write_setting.simps)
  have named: "named_all [Setting (Some n) (reread rd c)]" using n by (simp add: named_all_def)
  obtain z' ctx' where more: "goes atof ((settings_state b, z) # (b, x) # st, None, CHR 0x0A # rest_text, ctx1)
      ((settings_state b, z') # (b, x) # st, None, CHR 0x0A # r, ctx')"
    and tree': "ctx_tree ctx' = place (C_Group ([Setting (Some n) (reread rd c)] @ map (reread_setting rd) rest))"
    and keeps': "ctx_parent ctx' = Some h" "ctx_error ctx' = ctx_error ctx1"
      "elements_kept fmt h (Suc 0) rest (ctx_formats ctx1) (ctx_formats ctx')"
    using settings_go [where y = z and x = x and r = r and ss = rest and print_e = print_e and atof = atof and fmt = fmt,
        OF b place(1) keeps1(1) tree1 named _ _ _ \<open>0 < depth\<close> room'(2)]
      rest vals distinct
    by (auto simp: rd_def rest_text_def Cons s m)
  have last: "goes atof ((settings_state b, z') # (b, x) # st, None, CHR 0x0A # r, ctx')
      ((settings_state b, z') # (b, x) # st, None, r, ctx')"
    using goes_blanks [of "[CHR 0x0A]" _ "(b, x) # st" atof z' r ctx', OF _ sees] room' by simp
  show ?thesis
    using goes_trans [OF goes_trans [OF one more] last] tree' keeps' keeps1
      elements_kept_Cons [OF keeps1(3) keeps'(3), of m]
    by (intro exI [of _ z'] exI [of _ ctx'])
      (simp add: Cons s m rd_def rest_text_def del: config_write_setting.simps)
qed

lemma group_reads_value:
  assumes vals: "\<And>s. s \<in> set ss \<Longrightarrow> reads_value print_e atof fmt (setting_value s)"
  shows "reads_value print_e atof fmt (C_Group ss)"
  unfolding reads_value_def reads_element_def
proof (intro ballI allI impI)
  fix s h depth x and st :: "(nat \<times> yystype) list" and r ctx place
  assume s: "s \<in> {8, 23, 36 :: nat}" and slot: "slot s h ctx place" and "0 < (depth :: nat)"
    and w: "writable fmt h (C_Group ss)" and room: "length st + 1 + stack_need (C_Group ss) < YYMAXDEPTH"
  define rd where "rd = (\<lambda>x. atof (print_e x))"
  have room': "length st + 9 < YYMAXDEPTH" using room stack_needs_ge [of ss] by simp
  have hole: "hole h place" using slot by (simp add: slot_def)
  have sees_s: "\<not> blind s" using s by (auto simp: blind_facts)
  obtain ctx1 where opened: "open_collection CONFIG_TYPE_GROUP ctx = Inr (Continue ctx1)" "ctx_parent ctx1 = Some h"
      "ctx_tree ctx1 = place (C_Group [])" "ctx_formats ctx1 = ctx_formats ctx" "ctx_error ctx1 = ctx_error ctx"
    using open_at_slot [OF slot s, of CONFIG_TYPE_GROUP] by auto
  define st' where "st' = (16, No_Value) # (s, x) # st"
  define end_text where "end_text = blanks depth @ CHR ''}'' # r"
  define members where "members = write_settings print_e fmt h (depth + 1) 0 ss @ end_text"
  obtain z ctx2 where inner: "goes atof ((24, No_Value) # st', None, members, ctx1)
      ((if ss = [] then [] else [(settings_state 24, z)]) @ (24, No_Value) # st', None, end_text, ctx2)"
    and read: "ctx_tree ctx2 = place (C_Group (map (reread_setting rd) ss))" "ctx_parent ctx2 = Some h"
      "ctx_error ctx2 = ctx_error ctx1" "elements_kept fmt h 0 ss (ctx_formats ctx1) (ctx_formats ctx2)"
    using members_go [where b = 24 and st = st' and ss = ss and depth = "depth + 1" and r = end_text and x = No_Value,
        OF _ hole opened(2,3) _ _ vals] w room
    by (auto simp: members_def rd_def st'_def)
  have written: "config_write_value print_e fmt h depth (C_Group ss) @ r
      = (CHR 0x0A # blanks depth) @ CHR ''{'' # CHR 0x0A # members"
    using \<open>0 < depth\<close> by (simp add: members_def end_text_def)
  have "goes atof ((s, x) # st, None, (CHR 0x0A # blanks depth) @ CHR ''{'' # CHR 0x0A # members, ctx)
      ((s, x) # st, None, CHR ''{'' # CHR 0x0A # members, ctx)"
    by (rule goes_blanks [OF _ sees_s]) (use room' in simp_all)
  also have "goes atof \<dots> (st', None, CHR 0x0A # members, ctx)"
    unfolding st'_def
    by (rule goes_shift [OF lexes_separators(5) yyaction_on_collections(3) [OF s] sees_s]) (use room' in simp_all)
  also have "goes atof \<dots> (yypop 31 st', None, CHR 0x0A # members, ctx1)"
    unfolding st'_def
    by (rule goes_reduce) (use room' opened in \<open>simp_all add: blind_facts yydefault_facts collection_actions\<close>)
  also have "yypop 31 st' = (24, No_Value) # st'" by (simp add: yypop_def yyr2_facts yygoto_single st'_def)
  also have "goes atof ((24, No_Value) # st', None, CHR 0x0A # members, ctx1) ((24, No_Value) # st', None, members, ctx1)"
    using goes_blanks [of "[CHR 0x0A]" 24 st' atof No_Value members ctx1] room'
    by (simp add: blind_facts st'_def)
  also note inner
  finally have start: "goes atof ((s, x) # st, None, config_write_value print_e fmt h depth (C_Group ss) @ r, ctx)
      ((if ss = [] then [] else [(settings_state 24, z)]) @ (24, No_Value) # st', None, end_text, ctx2)"
    by (simp only: written)
  have "\<exists>y. goes atof ((if ss = [] then [] else [(settings_state 24, z)]) @ (24, No_Value) # st', None, end_text, ctx2)
      ((33, y) # (24, No_Value) # st', Some (TOK_GROUP_END, No_Value), r, ctx2)"
  proof (cases "ss = []")
    case True
    have "goes atof ((24, No_Value) # st', None, end_text, ctx2) ((24, No_Value) # st', Some (TOK_GROUP_END, No_Value), r, ctx2)"
      by (rule goes_look) (use room' in \<open>simp_all add: end_text_def lexes_separators blind_facts st'_def\<close>)
    also have "goes atof \<dots> (yypop 6 ((24, No_Value) # st'), Some (TOK_GROUP_END, No_Value), r, ctx2)"
      by (rule goes_reduce) (use room' in \<open>simp_all add: blind_facts yyaction_facts plain_action st'_def\<close>)
    finally show ?thesis using True by (auto simp: yypop_def yyr2_facts yygoto_single)
  next
    case False
    have "goes atof ((32, z) # (24, No_Value) # st', None, end_text, ctx2)
        ((32, z) # (24, No_Value) # st', Some (TOK_GROUP_END, No_Value), r, ctx2)"
      by (rule goes_look) (use room' in \<open>simp_all add: end_text_def lexes_separators blind_facts st'_def\<close>)
    also have "goes atof \<dots> (yypop 7 ((32, z) # (24, No_Value) # st'), Some (TOK_GROUP_END, No_Value), r, ctx2)"
      by (rule goes_reduce) (use room' in \<open>simp_all add: blind_facts yyaction_facts plain_action st'_def\<close>)
    finally show ?thesis using False by (auto simp: yypop_def yyr2_facts yygoto_single settings_state_def)
  qed
  then obtain y where "goes atof ((if ss = [] then [] else [(settings_state 24, z)]) @ (24, No_Value) # st', None, end_text, ctx2)
      ((33, y) # (24, No_Value) # st', Some (TOK_GROUP_END, No_Value), r, ctx2)" ..
  also have "goes atof \<dots> ((38, No_Value) # (33, y) # (24, No_Value) # st', None, r, ctx2)"
    by (rule goes_shift_on) (use room' in \<open>simp_all add: blind_facts yyaction_facts st'_def\<close>)
  also have "goes atof \<dots> (yypop 32 ((38, No_Value) # (33, y) # (24, No_Value) # st'), None, r, close_collection ctx2)"
    by (rule goes_reduce) (use room' in \<open>simp_all add: blind_facts yydefault_facts collection_actions st'_def\<close>)
  also have "yypop 32 ((38, No_Value) # (33, y) # (24, No_Value) # st') = (21, No_Value) # (s, x) # st"
    by (simp add: yypop_def yyr2_facts yygoto_facts(7) [OF s] st'_def)
  also have "goes atof ((21, No_Value) # (s, x) # st, None, r, close_collection ctx2)
      ((yygoto 17 s, No_Value) # (s, x) # st, None, r, close_collection ctx2)"
    by (rule goes_unit) (use room' in \<open>simp_all add: blind_facts yydefault_facts yyr2_facts plain_action\<close>)
  also have "yygoto 17 s = value_goto s" by (rule yygoto_facts(4) [OF s])
  finally have "goes atof ((s, x) # st, None, config_write_value print_e fmt h depth (C_Group ss) @ r, ctx)
      ((value_goto s, No_Value) # (s, x) # st, None, r, close_collection ctx2)"
    using goes_trans [OF start] by blast
  moreover have "formats_kept fmt h (C_Group ss) (ctx_formats ctx) (ctx_formats ctx2)"
    using elements_kept_all [of fmt h "C_Group ss"] read(4) opened(4) by (simp add: is_collection_def)
  then have "value_read rd fmt h (C_Group ss) place ctx (close_collection ctx2)"
    using read opened slot_parent [OF slot] by (simp add: value_read_def close_collection_def)
  ultimately show "\<exists>y ctx'. goes atof ((s, x) # st, None, config_write_value print_e fmt h depth (C_Group ss) @ r, ctx)
      ((value_goto s, y) # (s, x) # st, None, r, ctx')
    \<and> value_read (\<lambda>x. atof (print_e x)) fmt h (C_Group ss) place ctx ctx'"
    unfolding rd_def by blast
qed

section \<open>The round trip\<close>

lemma writable_parts:
  "writable_elements fmt h i ss \<Longrightarrow> s \<in> set ss \<Longrightarrow> \<exists>h. writable fmt h (setting_value s)"
  "writable_members fmt h i ss \<Longrightarrow> s \<in> set ss \<Longrightarrow> \<exists>h. writable fmt h (setting_value s)"
proof (induction ss arbitrary: i)
  case (Cons a ss)
  {
    case 1
    then show ?case using Cons.IH(1) by (cases a) auto
  next
    case 2
    then show ?case using Cons.IH(2) by (cases a) auto
  }
qed simp_all

lemma all_read:
  assumes "\<And>x. e_format (print_e x)"
  shows "writable fmt h v \<Longrightarrow> reads_value print_e atof fmt v"
proof (induction v arbitrary: h rule: measure_induct_rule [of size])
  case (less v)
  have smaller: "size (setting_value s) < Suc (size_list size ss)" if "s \<in> set ss" for s ss
  proof -
    have "size (setting_value s) < size s" by (cases s) simp
    moreover have "size s \<le> size_list size ss" using that by (rule size_list_estimation') simp
    ultimately show ?thesis by simp
  qed
  show ?case
  proof (cases v)
    case (C_List ss)
    have "reads_value print_e atof fmt (setting_value s)" if s: "s \<in> set ss" for s
    proof -
      obtain h' where "writable fmt h' (setting_value s)"
        using writable_parts(1) [of fmt h 0 ss s] less.prems s by (auto simp: C_List)
      then show ?thesis using less.IH [of "setting_value s" h'] smaller [OF s] by (simp add: C_List)
    qed
    then show ?thesis unfolding C_List by (rule list_reads_value)
  next
    case (C_Array ss)
    then show ?thesis
      using less.prems assms by (auto intro!: array_reads_value simp: list_all_iff)
  next
    case (C_Group ss)
    have "reads_value print_e atof fmt (setting_value s)" if s: "s \<in> set ss" for s
    proof -
      obtain h' where "writable fmt h' (setting_value s)"
        using writable_parts(2) [of fmt h 0 ss s] less.prems s by (auto simp: C_Group)
      then show ?thesis using less.IH [of "setting_value s" h'] smaller [OF s] by (simp add: C_Group)
    qed
    then show ?thesis unfolding C_Group by (rule group_reads_value)
  qed (use less.prems assms in \<open>auto intro!: simple_reads_value simp: simple_def\<close>)
qed

lemma parse_accepts:
  assumes "length st + 1 < YYMAXDEPTH"
  shows "yyparse atof (at_point ((2, y) # st, Some (TOK_EOF, v), cs, ctx) l) = Some (Inr (0, ctx))"
  using assms
  by (subst yyparse.simps)
    (simp add: yylookahead_point yyact_def yystate_def point_simps yyaction_facts blind_facts [unfolded blind_def])

lemma ends_accepted:
  assumes "st = [(0, x)] \<or> st = [(3, z), (0, x)]"
  shows "\<exists>y v. goes atof (st, None, [], ctx) ([(2, y), (0, x)], Some (TOK_EOF, v), [], ctx)"
proof -
  have room: "2 < YYMAXDEPTH" by (simp add: YYMAXDEPTH_def)
  from assms show ?thesis
  proof
    assume st: "st = [(0, x)]"
    have "goes atof ([(0, x)], None, [], ctx) ([(0, x)], Some (TOK_EOF, No_Value), [], ctx)"
      by (rule goes_look [OF lexes_end]) (use room in \<open>simp_all add: blind_facts\<close>)
    also have "goes atof \<dots> (yypop 2 [(0, x)], Some (TOK_EOF, No_Value), [], ctx)"
      by (rule goes_reduce) (use room in \<open>simp_all add: blind_facts yyaction_facts plain_action\<close>)
    finally show ?thesis using st by (auto simp: yypop_def yyr2_facts yygoto_single)
  next
    assume st: "st = [(3, z), (0, x)]"
    have "goes atof ([(3, z), (0, x)], None, [], ctx) ([(3, z), (0, x)], Some (TOK_EOF, No_Value), [], ctx)"
      by (rule goes_look [OF lexes_end]) (use room in \<open>simp_all add: blind_facts\<close>)
    also have "goes atof \<dots> (yypop 3 [(3, z), (0, x)], Some (TOK_EOF, No_Value), [], ctx)"
      by (rule goes_reduce) (use room in \<open>simp_all add: blind_facts yyaction_facts plain_action\<close>)
    finally show ?thesis using st by (auto simp: yypop_def yyr2_facts yygoto_single)
  qed
qed

text \<open>The parse of the text of a tree.\<close>

lemma written_is_parsed:
  assumes "\<And>x. e_format (print_e x)"
    and "writable fmt [] (C_Group ss)" and "stack_need (C_Group ss) < YYMAXDEPTH"
  shows "\<exists>ctx. yyparse atof (initial_parser (config_write print_e fmt (C_Group ss))) = Some (Inr (0, ctx))
    \<and> ctx_tree ctx = reread (\<lambda>x. atof (print_e x)) (C_Group ss) \<and> ctx_error ctx = None
    \<and> (\<forall>h i. node (C_Group ss) h = Some (C_Int i) \<longrightarrow> ctx_formats ctx h = fmt h)"
proof -
  define ctx0 where "ctx0 = \<lparr>ctx_tree = C_Group [], ctx_formats = (\<lambda>_. CONFIG_FORMAT_DEFAULT),
    ctx_parent = Some [], ctx_setting = Some [], ctx_error = None\<rparr>"
  define written where "written = config_write print_e fmt (C_Group ss)"
  have values_read: "reads_value print_e atof fmt (setting_value s)" if s: "s \<in> set ss" for s
  proof -
    obtain h where "writable fmt h (setting_value s)"
      using writable_parts(2) [of fmt "[]" 0 ss s] assms(2) s by auto
    then show ?thesis using all_read assms(1) by blast
  qed
  have start: "initial_parser written = at_point ([(0, No_Value)], None, written, ctx0) 1"
    by (simp add: initial_parser_def at_point_def scan_at_def ctx0_def)
  have "written = write_settings print_e fmt [] 1 0 ss @ []"
    by (simp add: written_def config_write_def blanks_def)
  then obtain z ctx where go: "goes atof ([(0, No_Value)], None, written, ctx0)
      ((if ss = [] then [] else [(settings_state 0, z)]) @ [(0, No_Value)], None, [], ctx)"
    and read: "ctx_tree ctx = C_Group (map (reread_setting (\<lambda>x. atof (print_e x))) ss)" "ctx_error ctx = None"
      "elements_kept fmt [] 0 ss (ctx_formats ctx0) (ctx_formats ctx)"
    using members_go [where b = 0 and st = "[]" and ss = ss and depth = 1 and r = "[]" and x = No_Value
        and ctx = ctx0 and place = "\<lambda>c. c" and h = "[]", OF _ hole_root _ _ _ _ values_read] assms(2,3)
    by (auto simp: ctx0_def)
  moreover obtain y v where "goes atof ((if ss = [] then [] else [(settings_state 0, z)]) @ [(0, No_Value)], None, [], ctx)
      ([(2, y), (0, No_Value)], Some (TOK_EOF, v), [], ctx)"
    using ends_accepted [where x = No_Value and z = z and st = "(if ss = [] then [] else [(settings_state 0, z)]) @ [(0, No_Value)]"
      and atof = atof and ctx = ctx]
    by (cases "ss = []") (auto simp: settings_state_def)
  ultimately have "goes atof ([(0, No_Value)], None, written, ctx0) ([(2, y), (0, No_Value)], Some (TOK_EOF, v), [], ctx)"
    using goes_trans by blast
  then have "yyparse atof (initial_parser written) = Some (Inr (0, ctx))"
    using parse_accepts [of "[(0, No_Value)]"] by (auto simp: goes_def start YYMAXDEPTH_def)
  moreover have "formats_kept fmt [] (C_Group ss) (ctx_formats ctx0) (ctx_formats ctx)"
    by (rule elements_kept_all) (use read in \<open>simp_all add: is_collection_def\<close>)
  ultimately show ?thesis
    using read by (auto simp: written_def formats_kept_def)
qed

lemma one_printed: "e_format ''1.000000e+00''"
proof -
  have "''1.000000e+00'' = [] @ CHR ''1'' # CHR ''.'' # ''000000'' @ CHR ''e'' # CHR ''+'' # ''00''"
    by simp
  moreover have "is_digit (CHR ''0'')" "is_digit (CHR ''1'')" by code_simp+
  ultimately show ?thesis
    unfolding e_format_def
    by (intro exI [of _ "[]"] exI [of _ "CHR ''1''"] exI [of _ "''000000''"] exI [of _ "CHR ''+''"]
      exI [of _ "''00''"]) simp
qed

text \<open>
  Property C6 (roundtrip): the text of a tree of settings is read back without an error as the
  same tree, with the formats of its integers: names, nesting, lists and arrays, integers and
  strings are those that were written, and a real is what \<open>atof\<close> makes of its \<open>%e\<close>.  The
  tree has valid and distinct names, no integer beyond the range its format is read with, and
  does not nest deeper than the stack of the parser, which holds ten thousand states.
\<close>

theorem config_text_round_trip:
  assumes "\<And>x. e_format (print_e x)"
    and "writable fmt [] (C_Group ss)" and "stack_need (C_Group ss) < YYMAXDEPTH"
  shows "\<exists>ctx. config_read atof (config_write print_e fmt (C_Group ss)) = Some (Inr (True, ctx))
    \<and> ctx_tree ctx = reread (\<lambda>x. atof (print_e x)) (C_Group ss) \<and> ctx_error ctx = None
    \<and> (\<forall>h i. node (C_Group ss) h = Some (C_Int i) \<longrightarrow> ctx_formats ctx h = fmt h)"
proof -
  obtain ctx where "yyparse atof (initial_parser (config_write print_e fmt (C_Group ss))) = Some (Inr (0, ctx))"
    and "ctx_tree ctx = reread (\<lambda>x. atof (print_e x)) (C_Group ss) \<and> ctx_error ctx = None
      \<and> (\<forall>h i. node (C_Group ss) h = Some (C_Int i) \<longrightarrow> ctx_formats ctx h = fmt h)"
    using written_is_parsed [where print_e = print_e and atof = atof, OF assms] by blast
  then show ?thesis by (intro exI [of _ ctx]) (simp add: config_read_def)
qed

lemma config_text_round_trip_witness:
  "\<exists>ctx. config_read (\<lambda>_. 1) (config_write (\<lambda>_. ''1.000000e+00'') (\<lambda>_. CONFIG_FORMAT_DEFAULT)
       (C_Group [Setting (Some ''beta'') (C_Float 1),
                 Setting (Some ''image'') (C_Group [Setting (Some ''size'') (C_Array [Setting None (C_Int 3), Setting None (C_Int (-5))])])]))
     = Some (Inr (True, ctx))
   \<and> ctx_tree ctx = C_Group [Setting (Some ''beta'') (C_Float 1),
                 Setting (Some ''image'') (C_Group [Setting (Some ''size'') (C_Array [Setting None (C_Int 3), Setting None (C_Int (-5))])])]
   \<and> ctx_error ctx = None"
proof -
  define ss where "ss = [Setting (Some ''beta'') (C_Float 1),
    Setting (Some ''image'') (C_Group [Setting (Some ''size'') (C_Array [Setting None (C_Int 3), Setting None (C_Int (-5))])])]"
  have names: "valid_name ''beta''" "valid_name ''image''" "valid_name ''size''"
    by code_simp+
  have "writable (\<lambda>_. CONFIG_FORMAT_DEFAULT) [] (C_Group ss)"
    by (simp add: ss_def names simple_def)
  moreover have "stack_need (C_Group ss) < YYMAXDEPTH"
    by (simp add: ss_def YYMAXDEPTH_def)
  ultimately have "\<exists>ctx. config_read (\<lambda>_. 1) (config_write (\<lambda>_. ''1.000000e+00'') (\<lambda>_. CONFIG_FORMAT_DEFAULT) (C_Group ss))
      = Some (Inr (True, ctx)) \<and> ctx_tree ctx = reread (\<lambda>_. 1) (C_Group ss) \<and> ctx_error ctx = None"
    using config_text_round_trip [of "\<lambda>_. ''1.000000e+00''" "\<lambda>_. CONFIG_FORMAT_DEFAULT" ss "\<lambda>_. 1", OF one_printed] by blast
  moreover have "reread (\<lambda>_. 1) (C_Group ss) = C_Group ss" by (simp add: ss_def)
  ultimately show ?thesis by (simp add: ss_def)
qed

end
