(* ===== verification/Config_States.thy ===== *)
theory Config_States
  imports Config_Moves
begin

text \<open>
  The states of the automaton of the parser: which may lie above each other, what a shift and a
  reduction do to a stack of them, how they mark the collections that are open, and the
  type of the value that comes with a state.
\<close>

section \<open>The states of the automaton\<close>

text \<open>
  The pairs of states that may lie above each other on the stack, and a rank that falls with
  every reduction.
\<close>

definition edges :: "(nat \<times> nat) list" where
  "edges =
     [(0, 1), (0, 2), (0, 3), (0, 4), (1, 5), (3, 1), (3, 7), (5, 8), (8, 9), (8, 10), (8,
      11), (8, 12), (8, 13), (8, 14), (8, 15), (8, 16), (8, 17), (8, 18), (8, 19), (8, 20),
      (8, 21), (14, 22), (15, 23), (16, 24), (19, 25), (22, 9), (22, 10), (22, 11), (22,
      12), (22, 13), (22, 26), (22, 27), (22, 28), (23, 9), (23, 10), (23, 11), (23, 12),
      (23, 13), (23, 14), (23, 15), (23, 16), (23, 17), (23, 18), (23, 20), (23, 21), (23,
      29), (23, 30), (23, 31), (24, 1), (24, 4), (24, 32), (24, 33), (27, 34), (28, 35),
      (30, 36), (31, 37), (32, 1), (32, 7), (33, 38), (34, 9), (34, 10), (34, 11), (34, 12),
      (34, 13), (34, 39), (36, 9), (36, 10), (36, 11), (36, 12), (36, 13), (36, 14), (36,
      15), (36, 16), (36, 17), (36, 18), (36, 20), (36, 21), (36, 40)]"

definition ranks :: "nat list" where
  "ranks =
     [1, 1, 0, 1, 2, 0, 0, 2, 0, 4, 4, 4, 4, 4, 2, 2, 2, 3, 3, 0, 3, 3, 1, 1, 1, 3, 2, 1, 0, 2, 1, 0,
      1, 0, 0, 4, 0, 4, 4, 2, 2]"

fun lr_stack :: "nat list \<Rightarrow> bool" where
  "lr_stack [] = False"
| "lr_stack [s] = (s = 0)"
| "lr_stack (s # t # st) = ((t, s) \<in> set edges \<and> lr_stack (t # st))"

text \<open>
  The states of an open array, list and group, and the states in which a named setting waits
  for its value, over the state below.
\<close>

definition mark :: "nat \<Rightarrow> config_type list" where
  "mark s = (if s = 22 then [CONFIG_TYPE_ARRAY] else if s = 23 then [CONFIG_TYPE_LIST]
     else if s = 24 then [CONFIG_TYPE_GROUP] else [])"

definition waits :: "nat \<Rightarrow> nat \<Rightarrow> bool" where
  "waits s t \<longleftrightarrow> s = 5 \<or> s = 8 \<or> 9 \<le> s \<and> s \<le> 16 \<and> t = 8"

definition opened_by :: "nat \<Rightarrow> config_type list" where
  "opened_by rule = (if rule = 10 then [CONFIG_TYPE_ARRAY] else if rule = 12 then [CONFIG_TYPE_LIST]
     else if rule = 31 then [CONFIG_TYPE_GROUP] else [])"

definition closed_by :: "nat \<Rightarrow> config_type list" where
  "closed_by rule = (if rule = 11 then [CONFIG_TYPE_ARRAY] else if rule = 13 then [CONFIG_TYPE_LIST]
     else if rule = 32 then [CONFIG_TYPE_GROUP] else [])"

text \<open>The type of the value a token carries, and of the one an action reads in a state.\<close>

datatype value_type = Some_Value | Int_Value | Float_Value | String_Value

fun token_type :: "yytokentype \<Rightarrow> value_type" where
  "token_type TOK_BOOLEAN = Int_Value"
| "token_type TOK_INTEGER = Int_Value"
| "token_type TOK_HEX = Int_Value"
| "token_type TOK_FLOAT = Float_Value"
| "token_type TOK_STRING = String_Value"
| "token_type TOK_NAME = String_Value"
| "token_type _ = Some_Value"

definition state_type :: "nat \<Rightarrow> value_type" where
  "state_type s = (if s \<in> {9, 10, 11} then Int_Value else if s = 12 then Float_Value
     else if s = 1 \<or> s = 13 then String_Value else Some_Value)"

definition has_type :: "value_type \<Rightarrow> yystype \<Rightarrow> bool" where
  "has_type ty v \<longleftrightarrow> (case ty of Some_Value \<Rightarrow> True | Int_Value \<Rightarrow> \<exists>i. v = I_Val i
     | Float_Value \<Rightarrow> \<exists>x. v = F_Val x | String_Value \<Rightarrow> \<exists>s. v = S_Val s)"

text \<open>All stacks of \<open>n + 1\<close> states below and with \<open>s\<close>; what a reduction of such a stack must do.\<close>

definition below :: "nat \<Rightarrow> nat list" where
  "below s = map fst (filter (\<lambda>e. snd e = s) edges)"

fun tops :: "nat \<Rightarrow> nat \<Rightarrow> nat list list" where
  "tops 0 s = [[s]]"
| "tops (Suc n) s = concat (map (\<lambda>t. map ((#) s) (tops n t)) (below s))"

definition sound_reduction :: "nat \<Rightarrow> nat \<Rightarrow> nat list \<Rightarrow> bool" where
  "sound_reduction s rule w \<longleftrightarrow>
     (let t = last w; g = yygoto rule t in
      (t, g) \<in> set edges \<and> ranks ! g < ranks ! s \<and> state_type g = Some_Value
      \<and> concat (map mark (butlast w)) = closed_by rule \<and> mark g = opened_by rule
      \<and> waits g t = (rule = 8))"

definition sound_shift :: "nat \<Rightarrow> nat \<Rightarrow> yytokentype \<Rightarrow> bool" where
  "sound_shift s u t \<longleftrightarrow> t \<noteq> TOK_EOF \<and> (s, u) \<in> set edges \<and> mark u = []
     \<and> (state_type u = Some_Value \<or> state_type u = token_type t)
     \<and> list_all (\<lambda>b. waits u s = waits s b) (0 # below s)"

definition sound_action :: "nat \<Rightarrow> yytokentype \<Rightarrow> bool" where
  "sound_action s t \<longleftrightarrow>
     (case yyaction_on s t of
        Shift u \<Rightarrow> sound_shift s u t
      | Reduce rule \<Rightarrow> yydefault s = Reduce rule
      | Accept \<Rightarrow> s = 2
      | Syntax_Error \<Rightarrow> True)"

definition tokens :: "yytokentype list" where
  "tokens = [TOK_EOF, TOK_BOOLEAN, TOK_INTEGER, TOK_HEX, TOK_FLOAT, TOK_STRING, TOK_NAME, TOK_EQUALS,
     TOK_NEWLINE, TOK_ARRAY_START, TOK_ARRAY_END, TOK_LIST_START, TOK_LIST_END, TOK_COMMA,
     TOK_GROUP_START, TOK_GROUP_END, TOK_END, TOK_GARBAGE]"

lemma reductions_checked:
  "list_all (\<lambda>s. case yydefault s of
       Reduce rule \<Rightarrow> list_all (\<lambda>n. list_all (\<lambda>w. last w \<noteq> 0) (tops n s)) [0..<yyr2 ! rule]
         \<and> list_all (sound_reduction s rule) (tops (yyr2 ! rule) s)
     | _ \<Rightarrow> True) [0..<41]"
  by code_simp

lemma actions_checked: "list_all (\<lambda>s. if blind s then True else list_all (sound_action s) tokens) [0..<41]"
  by code_simp

lemma edges_checked: "list_all (\<lambda>e. snd e < 41 \<and> snd e \<noteq> 0) edges"
  by code_simp

text \<open>The rule each state reduces by, when it does.\<close>

definition reductions :: "(nat \<times> nat) list" where
  "reductions =
     [(0, 2), (1, 8), (3, 3), (4, 4), (6, 1), (7, 5), (9, 18), (10, 19), (11, 20), (12, 21), (13, 22), (14, 10),
      (15, 12), (16, 31), (17, 15), (18, 16), (20, 14), (21, 17), (22, 29), (23, 25), (24, 6), (25, 9),
      (26, 27), (27, 30), (29, 23), (30, 26), (32, 7), (35, 11), (37, 13), (38, 32), (39, 28), (40, 24)]"

lemma defaults_checked:
  "list_all (\<lambda>s. case yydefault s of Reduce rule \<Rightarrow> (s, rule) \<in> set reductions | _ \<Rightarrow> True) [0..<41]"
  by code_simp

section \<open>Steps of the automaton\<close>

lemma checked_below: "list_all P [0..<n] \<Longrightarrow> i < n \<Longrightarrow> P i"
  by (simp add: list_all_iff)

lemma edge_below: "(t, s) \<in> set edges \<longleftrightarrow> t \<in> set (below s)"
  by (force simp: below_def)

lemma lr_stack_top: "lr_stack (s # st) \<Longrightarrow> s < 41"
  using edges_checked by (cases st) (auto simp: list_all_iff)

lemma lr_stack_last: "lr_stack st \<Longrightarrow> st \<noteq> [] \<and> last st = 0"
  by (induction st rule: lr_stack.induct) auto

lemma lr_stack_tail: "lr_stack (w @ s # st) \<Longrightarrow> lr_stack (s # st)"
proof (induction w)
  case (Cons x w)
  then show ?case by (cases w) auto
qed simp

lemma lr_stack_tops: "lr_stack (s # st) \<Longrightarrow> n \<le> length st \<Longrightarrow> take (Suc n) (s # st) \<in> set (tops n s)"
proof (induction n arbitrary: s st)
  case (Suc n)
  then obtain t st' where "st = t # st'" by (cases st) auto
  then show ?case using Suc by (auto simp: edge_below)
qed simp

text \<open>The effect of a reduction on a stack: the states \<open>w\<close> go, and the one the rule leads to comes.\<close>

lemma reduction_step:
  assumes "lr_stack (s # st)" and "yydefault s = Reduce rule"
  shows "\<exists>w t rest. s # st = w @ t # rest \<and> length w = yyr2 ! rule \<and> lr_stack (yygoto rule t # t # rest)
    \<and> ranks ! yygoto rule t < ranks ! s \<and> state_type (yygoto rule t) = Some_Value
    \<and> concat (map mark w) = closed_by rule \<and> mark (yygoto rule t) = opened_by rule
    \<and> waits (yygoto rule t) t = (rule = 8)"
proof -
  define n where "n = yyr2 ! rule"
  have checked: "m < n \<Longrightarrow> w \<in> set (tops m s) \<Longrightarrow> last w \<noteq> 0" "w \<in> set (tops n s) \<Longrightarrow> sound_reduction s rule w" for m w
    using checked_below [OF reductions_checked lr_stack_top [OF assms(1)]] assms(2)
    by (simp_all add: list_all_iff n_def)
  have short: "n \<le> length st"
    using checked(1) [of "length st"] lr_stack_tops [OF assms(1) order.refl] lr_stack_last [OF assms(1)]
    by (metis length_Cons not_le take_all order.refl)
  define w where "w = take n (s # st)"
  obtain t rest where split: "drop n (s # st) = t # rest"
    using short by (cases "drop n (s # st)") auto
  then have stack: "s # st = w @ t # rest" by (metis append_take_drop_id w_def)
  have "take (Suc n) (s # st) = w @ [t]"
    using split short by (metis append_take_drop_id length_Cons less_Suc_eq_le nth_via_drop take_Suc_conv_app_nth w_def)
  then have "sound_reduction s rule (w @ [t])"
    using checked(2) lr_stack_tops [OF assms(1) short] by simp
  moreover have "lr_stack (t # rest)" using lr_stack_tail assms(1) stack by metis
  moreover have "length w = n" using short by (simp add: w_def)
  ultimately show ?thesis using stack by (auto simp: sound_reduction_def Let_def n_def)
qed

lemma yydefault_reductions: "s < 41 \<Longrightarrow> yydefault s = Reduce rule \<Longrightarrow> (s, rule) \<in> set reductions"
  using checked_below [OF defaults_checked, of s] by simp

lemma action_sound:
  assumes "s < 41" and "\<not> blind s"
  shows "sound_action s t"
proof -
  have "t \<in> set tokens" by (cases t) (simp_all add: tokens_def)
  then show ?thesis using checked_below [OF actions_checked assms(1)] assms(2) by (simp add: list_all_iff)
qed

end
