(* ===== verification/Config_Safety.thy ===== *)
theory Config_Safety
  imports Config_States Config_Round_Trip
begin

text \<open>
  What holds of the reader on every text: the parse ends, the actions never follow a null pointer
  nor read a value of another type, and the tree that is built is well formed.
\<close>

section \<open>Well-formed trees\<close>

text \<open>
  In a group every setting has a name and no name is there twice; the settings of lists and
  arrays have none, and those of an array are simple values of one type.
\<close>

definition plain_value :: "content \<Rightarrow> bool" where
  "plain_value c \<longleftrightarrow> config_setting_type c \<in> {CONFIG_TYPE_INT, CONFIG_TYPE_FLOAT, CONFIG_TYPE_STRING, CONFIG_TYPE_BOOL}"

fun well_formed :: "content \<Rightarrow> bool" and well_formed_setting :: "setting \<Rightarrow> bool" where
  "well_formed (C_Group ss) =
     (list_all well_formed_setting ss \<and> (\<forall>s \<in> set ss. setting_name s \<noteq> None) \<and> distinct_names ss)"
| "well_formed (C_List ss) = (list_all well_formed_setting ss \<and> (\<forall>s \<in> set ss. setting_name s = None))"
| "well_formed (C_Array ss) =
     (\<forall>s \<in> set ss. setting_name s = None \<and> plain_value (setting_value s)
        \<and> config_setting_type (setting_value s) = config_setting_type (setting_value (hd ss)))"
| "well_formed C_None = False"
| "well_formed _ = True"
| "well_formed_setting (Setting n c) = well_formed c"

lemma well_formed_setting_value: "well_formed_setting s \<longleftrightarrow> well_formed (setting_value s)"
  by (cases s) simp

lemma plain_value_elements: "plain_value c \<Longrightarrow> elements c = [] \<and> well_formed c"
  by (cases c) (auto simp: plain_value_def)

lemma type_with_elements [simp]: "config_setting_type (with_elements c ss) = config_setting_type c"
  by (cases c) auto

lemma setting_keys_update:
  "i < length ss \<Longrightarrow> setting_keys (ss[i := Setting (setting_name (ss ! i)) c]) = setting_keys ss"
proof (induction ss arbitrary: i)
  case (Cons s ss)
  then show ?case by (cases i) (auto split: option.splits)
qed simp

lemma well_formed_child:
  assumes "well_formed c" and "i < length (elements c)" and "well_formed d"
    and "\<not> plain_value (setting_value (elements c ! i))"
  shows "well_formed (with_elements c ((elements c)[i := Setting (setting_name (elements c ! i)) d]))"
proof (cases c)
  case (C_Group ss)
  then show ?thesis
    using assms set_update_subset_insert [of ss i]
    by (auto simp: list_all_iff distinct_names_def setting_keys_update dest!: set_update_subset_insert [THEN subsetD])
next
  case (C_List ss)
  then show ?thesis
    using assms by (auto simp: list_all_iff dest!: set_update_subset_insert [THEN subsetD])
next
  case (C_Array ss)
  then show ?thesis using assms by auto
qed (use assms in auto)

lemma well_formed_elements:
  "well_formed c \<Longrightarrow> i < length (elements c) \<Longrightarrow> well_formed (setting_value (elements c ! i))"
  by (cases c) (auto simp: list_all_iff well_formed_setting_value plain_value_elements)

lemma well_formed_node: "well_formed c \<Longrightarrow> node c h = Some d \<Longrightarrow> well_formed d"
proof (induction h arbitrary: c)
  case (Cons i h)
  then show ?case using well_formed_elements [of c i] by (auto split: if_splits)
qed simp

lemma well_formed_update:
  assumes "well_formed c" and "node c h = Some d" and "is_collection d" and "well_formed d'"
  shows "well_formed (update h (\<lambda>_. d') c)"
  using assms(1,2)
proof (induction h arbitrary: c)
  case (Cons i h)
  let ?e = "setting_value (elements c ! i)"
  have i: "i < length (elements c)" and at: "node ?e h = Some d"
    using Cons.prems by (auto split: if_splits)
  have not_plain: "\<not> plain_value ?e"
  proof
    assume "plain_value ?e"
    then have "h = []" using at plain_value_elements by (cases h) auto
    then show False using at \<open>plain_value ?e\<close> assms(3) by (auto simp: plain_value_def is_collection_def)
  qed
  then show ?case
    using i Cons.IH [OF well_formed_elements at] Cons.prems(1) well_formed_child [OF Cons.prems(1) i _ not_plain]
    by simp
qed (use assms(4) in simp)

text \<open>A new element at the end of a collection.\<close>

lemma well_formed_add:
  assumes "well_formed t" and "node t h = Some c" and "is_collection c"
    and "well_formed (with_elements c (elements c @ [e]))"
  shows "well_formed (update h (\<lambda>_. with_elements c (elements c @ [e])) t)"
  by (rule well_formed_update [OF assms])

lemma well_formed_member:
  "well_formed (C_Group ss) \<Longrightarrow> find_key ss (key n) = None \<Longrightarrow> well_formed v
    \<Longrightarrow> well_formed (C_Group (ss @ [Setting (Some n) v]))"
  by (auto simp: list_all_iff distinct_names_def setting_keys_append find_key_keys)

lemma well_formed_element:
  "well_formed (C_List ss) \<Longrightarrow> well_formed v \<Longrightarrow> well_formed (C_List (ss @ [Setting None v]))"
  "well_formed (C_Array ss) \<Longrightarrow> plain_value v \<Longrightarrow> config_vector_checktype (C_Array ss) (config_setting_type v)
    \<Longrightarrow> well_formed (C_Array (ss @ [Setting None v]))"
  by (cases ss; auto simp: config_vector_checktype_def)+

section \<open>The open collections\<close>

text \<open>The types of the collections from a handle up to the root.\<close>

fun open_types :: "content \<Rightarrow> config_type list \<Rightarrow> handle \<Rightarrow> bool" where
  "open_types t [] h = False"
| "open_types t (ty # tys) h =
     (map_option config_setting_type (node t h) = Some ty
      \<and> (if tys = [] then h = [] else h \<noteq> [] \<and> open_types t tys (butlast h)))"

lemma node_type_update:
  assumes "node t (k @ r) = Some d" and "r = [] \<Longrightarrow> config_setting_type d' = config_setting_type d"
  shows "map_option config_setting_type (node (update (k @ r) (\<lambda>_. d') t) k) = map_option config_setting_type (node t k)"
  using assms(1)
proof (induction k arbitrary: t)
  case Nil
  then show ?case using assms(2) by (cases r) auto
next
  case (Cons j k)
  then have j: "j < length (elements t)" by (auto split: if_splits)
  then have "is_collection t" by (rule node_collection)
  then show ?case using Cons j by simp
qed

lemma open_types_update:
  assumes "open_types t tys p" and "node t (p @ r) = Some d"
    and "r = [] \<Longrightarrow> config_setting_type d' = config_setting_type d"
  shows "open_types (update (p @ r) (\<lambda>_. d') t) tys p"
  using assms
proof (induction tys arbitrary: p r)
  case (Cons ty tys)
  have "open_types (update (p @ r) (\<lambda>_. d') t) tys (butlast p)" if "tys \<noteq> []"
  proof -
    have "p \<noteq> []" and inner: "open_types t tys (butlast p)" using Cons.prems(1) that by auto
    then have split: "p @ r = butlast p @ last p # r"
      by (metis append.assoc append_Cons append_Nil append_butlast_last_id)
    show ?thesis unfolding split
      by (rule Cons.IH [OF inner]) (use Cons.prems(2) split in simp_all)
  qed
  then show ?case
    using Cons.prems node_type_update [OF Cons.prems(2,3)] by simp
qed simp

lemma open_types_at:
  assumes "open_types t tys p" and "node t p = Some d" and "config_setting_type d' = config_setting_type d"
  shows "open_types (update p (\<lambda>_. d') t) tys p"
  using open_types_update [OF assms(1), of "[]"] assms(2,3) by simp

lemma open_types_node: "open_types t (ty # tys) p \<Longrightarrow> \<exists>c. node t p = Some c \<and> config_setting_type c = ty"
  by auto

section \<open>The context of the actions\<close>

text \<open>
  \<open>built tys waiting ctx\<close>: the parent in the context is the innermost of the open collections, whose
  types are \<open>tys\<close>; when a setting waits for its value it is the current setting, and the tree
  is well formed once it has one.
\<close>

definition built :: "config_type list \<Rightarrow> bool \<Rightarrow> parse_context \<Rightarrow> bool" where
  "built tys waiting ctx \<longleftrightarrow> ctx_error ctx = None
     \<and> (\<exists>p. ctx_parent ctx = Some p \<and> open_types (ctx_tree ctx) tys p
          \<and> (if waiting
             then \<exists>i. ctx_setting ctx = Some (p @ [i]) \<and> node (ctx_tree ctx) (p @ [i]) = Some C_None
               \<and> (\<forall>c. well_formed c \<longrightarrow> well_formed (update (p @ [i]) (\<lambda>_. c) (ctx_tree ctx)))
             else well_formed (ctx_tree ctx)))"

definition goes_on :: "config_type list \<Rightarrow> bool \<Rightarrow> action_result \<Rightarrow> bool" where
  "goes_on tys waiting r \<longleftrightarrow>
     (case r of Continue ctx \<Rightarrow> built tys waiting ctx | Yyabort ctx \<Rightarrow> ctx_error ctx \<noteq> None)"

lemma built_types:
  assumes "built (ty # tys) waiting ctx"
  shows "IN_LIST ctx \<longleftrightarrow> ty = CONFIG_TYPE_LIST" and "IN_ARRAY ctx \<longleftrightarrow> ty = CONFIG_TYPE_ARRAY"
  using assms by (auto simp: built_def IN_LIST_def IN_ARRAY_def parent_has_type_def)

lemma type_group: "config_setting_type c = CONFIG_TYPE_GROUP \<longleftrightarrow> (\<exists>ss. c = C_Group ss)"
  by (cases c) auto

lemma type_list: "config_setting_type c = CONFIG_TYPE_LIST \<longleftrightarrow> (\<exists>ss. c = C_List ss)"
  by (cases c) auto

lemma type_array: "config_setting_type c = CONFIG_TYPE_ARRAY \<longleftrightarrow> (\<exists>ss. c = C_Array ss)"
  by (cases c) auto

lemma named_kept:
  assumes "built (CONFIG_TYPE_GROUP # tys) False ctx"
  shows "goes_on (CONFIG_TYPE_GROUP # tys) True (add_named line n ctx)"
proof -
  obtain p ss where p: "ctx_parent ctx = Some p" "open_types (ctx_tree ctx) (CONFIG_TYPE_GROUP # tys) p"
      "well_formed (ctx_tree ctx)" "ctx_error ctx = None" and at: "node (ctx_tree ctx) p = Some (C_Group ss)"
    using assms by (auto simp: built_def type_group)
  let ?t = "ctx_tree ctx"
  let ?new = "\<lambda>v. update p (\<lambda>_. C_Group (ss @ [Setting (Some n) v])) ?t"
  show ?thesis
  proof (cases "find_key ss (key n)")
    case None
    have add: "config_setting_add ?t p (Some n) CONFIG_TYPE_NONE = Some (?new C_None, p @ [length ss])"
      using at None append_to_node [OF at, of "Setting (Some n) C_None"]
      by (simp add: config_setting_add_def config_setting_create_def is_collection_def
          config_setting_get_member_key member_at_def)
    have place: "update (p @ [length ss]) (\<lambda>_. v) (?new C_None) = ?new v" for v
      by (simp add: update_append)
    have "well_formed v \<Longrightarrow> well_formed (?new v)" for v
      using well_formed_update [OF p(3) at] well_formed_member [OF well_formed_node [OF p(3) at] None]
      by (simp add: is_collection_def)
    moreover have "open_types (?new C_None) (CONFIG_TYPE_GROUP # tys) p"
      by (rule open_types_at [OF p(2) at]) simp
    moreover have "node (?new C_None) (p @ [length ss]) = Some C_None"
      using at by (simp add: node_append)
    ultimately show ?thesis
      using p add place by (simp add: goes_on_def built_def add_named_def del: open_types.simps)
  next
    case (Some i)
    then have "config_setting_add ?t p (Some n) CONFIG_TYPE_NONE = None"
      using at by (simp add: config_setting_add_def config_setting_get_member_key member_at_def)
    then show ?thesis using p by (simp add: goes_on_def add_named_def yyerror_def)
  qed
qed

lemma zeroed_collection: "ty \<in> {CONFIG_TYPE_ARRAY, CONFIG_TYPE_LIST, CONFIG_TYPE_GROUP}
    \<Longrightarrow> well_formed (zeroed ty) \<and> config_setting_type (zeroed ty) = ty"
  by (auto simp: distinct_names_def)

lemma open_kept:
  assumes "built (ty0 # tys) waiting ctx" and "waiting \<Longrightarrow> ty0 = CONFIG_TYPE_GROUP" and "\<not> waiting \<Longrightarrow> ty0 = CONFIG_TYPE_LIST"
    and ty: "ty \<in> {CONFIG_TYPE_ARRAY, CONFIG_TYPE_LIST, CONFIG_TYPE_GROUP}"
  shows "\<exists>ctx'. open_collection ty ctx = Inr (Continue ctx') \<and> built (ty # ty0 # tys) False ctx'"
proof -
  let ?t = "ctx_tree ctx"
  obtain p where p: "ctx_parent ctx = Some p" "open_types ?t (ty0 # tys) p" "ctx_error ctx = None"
    using assms(1) by (auto simp: built_def)
  note z = zeroed_collection [OF ty]
  show ?thesis
  proof (cases waiting)
    case True
    then obtain i where i: "ctx_setting ctx = Some (p @ [i])" "node ?t (p @ [i]) = Some C_None"
        "\<And>c. well_formed c \<Longrightarrow> well_formed (update (p @ [i]) (\<lambda>_. c) ?t)"
      using assms(1) p(1) by (auto simp: built_def)
    have "open_types (update (p @ [i]) (\<lambda>_. zeroed ty) ?t) (ty0 # tys) p"
      by (rule open_types_update [OF p(2) i(2)]) simp
    moreover have "node (update (p @ [i]) (\<lambda>_. zeroed ty) ?t) (p @ [i]) = Some (zeroed ty)"
      using i(2) by simp
    ultimately show ?thesis
      using True assms(2) built_types [OF assms(1)] i p z by (simp add: open_collection_def built_def)
  next
    case False
    then obtain ss where at: "node ?t p = Some (C_List ss)" and wf: "well_formed ?t"
      using assms(1,3) p(1) by (auto simp: built_def type_list)
    let ?new = "update p (\<lambda>_. C_List (ss @ [Setting None (zeroed ty)])) ?t"
    have "open_types ?new (ty0 # tys) p"
      by (rule open_types_at [OF p(2) at]) simp
    moreover have "node ?new (p @ [length ss]) = Some (zeroed ty)" using at by (simp add: node_append)
    moreover have "well_formed ?new"
      using well_formed_update [OF wf at] well_formed_element(1) [OF well_formed_node [OF wf at]] z
      by (simp add: is_collection_def del: well_formed.simps)
    ultimately show ?thesis
      using False assms(3) built_types [OF assms(1)] add_to_list [OF at] p z
      by (simp add: open_collection_def built_def)
  qed
qed

lemma close_kept:
  assumes "built (ty # tys) False ctx" and "tys \<noteq> []"
  shows "built tys False (close_collection ctx)"
  using assms by (auto simp: built_def close_collection_def parent_of_def)

lemma store_waiting_kept:
  assumes "built (CONFIG_TYPE_GROUP # tys) True ctx" and "setter C_None = Some v" and "well_formed v"
  shows "\<exists>ctx'. store_value line elem_setter setter format ctx = Inr (Continue ctx')
    \<and> built (CONFIG_TYPE_GROUP # tys) False ctx'"
proof -
  let ?t = "ctx_tree ctx"
  obtain p i where p: "ctx_parent ctx = Some p" "open_types ?t (CONFIG_TYPE_GROUP # tys) p" "ctx_error ctx = None"
    and i: "ctx_setting ctx = Some (p @ [i])" "node ?t (p @ [i]) = Some C_None"
      "well_formed (update (p @ [i]) (\<lambda>_. v) ?t)"
    using assms(1,3) unfolding built_def by auto
  have "open_types (update (p @ [i]) (\<lambda>_. v) ?t) (CONFIG_TYPE_GROUP # tys) p"
    by (rule open_types_update [OF p(2) i(2)]) simp
  moreover have "set_through ?t (p @ [i]) setter = Some (update (p @ [i]) (\<lambda>_. v) ?t)"
    using i(2) assms(2) by (simp add: set_through_def)
  ultimately show ?thesis
    using built_types [OF assms(1)] i p by (simp add: store_value_def built_def Let_def del: open_types.simps)
qed

lemma store_element_kept:
  assumes "built (ty0 # tys) False ctx" and "ty0 \<in> {CONFIG_TYPE_ARRAY, CONFIG_TYPE_LIST}"
    and "setter (zeroed ty) = Some v" and "config_setting_type v = ty" and "plain_value v"
  shows "\<exists>r. store_value line (\<lambda>t p n. set_elem t p n ty setter) setter format ctx = Inr r
    \<and> goes_on (ty0 # tys) False r"
proof -
  let ?t = "ctx_tree ctx"
  obtain p c where p: "ctx_parent ctx = Some p" "open_types ?t (ty0 # tys) p" "ctx_error ctx = None" "well_formed ?t"
    and at: "node ?t p = Some c" and c: "config_setting_type c = ty0"
    using assms(1) by (auto simp: built_def)
  have in_collection: "IN_ARRAY ctx \<or> IN_LIST ctx" using built_types [OF assms(1)] assms(2) by auto
  let ?new = "update p (\<lambda>_. with_elements c (elements c @ [Setting None v])) ?t"
  have coll: "is_collection c" using c assms(2) by (auto simp: is_collection_def)
  show ?thesis
  proof (cases "config_vector_checktype c ty")
    case True
    have wf: "well_formed (with_elements c (elements c @ [Setting None v]))"
    proof (cases c)
      case (C_Array ss)
      then show ?thesis
        using well_formed_element(2) [of ss v] well_formed_node [OF p(4) at] assms(4,5) True
        by (simp del: well_formed.simps)
    next
      case (C_List ss)
      then show ?thesis
        using well_formed_element(1) [of ss v] well_formed_node [OF p(4) at] plain_value_elements [OF assms(5)]
        by (simp del: well_formed.simps)
    qed (use c assms(2) in auto)
    have "config_setting_type c = CONFIG_TYPE_ARRAY \<or> config_setting_type c = CONFIG_TYPE_LIST" using c assms(2) by auto
    then have "set_elem ?t p (-1) ty setter = Some (?new, p @ [length (elements c)])"
      using at append_to_node [OF at] coll assms(3) True
      by (auto simp: set_elem_def config_setting_create_def set_through_def node_append update_append)
    then show ?thesis
      using in_collection p well_formed_update [OF p(4) at coll wf] open_types_at [OF p(2) at]
      by (simp add: store_value_def goes_on_def built_def del: open_types.simps)
  next
    case False
    then have "set_elem ?t p (-1) ty setter = None"
      using at by (simp add: set_elem_def)
    then show ?thesis using in_collection p by (simp add: store_value_def goes_on_def yyerror_def)
  qed
qed

section \<open>The actions on the stack\<close>

definition types :: "nat list \<Rightarrow> config_type list" where
  "types st = concat (map mark st) @ [CONFIG_TYPE_GROUP]"

definition waiting :: "nat list \<Rightarrow> bool" where
  "waiting st = (case st of s # t # _ \<Rightarrow> waits s t | _ \<Rightarrow> False)"

text \<open>The innermost collection, where the state tells it.\<close>

definition home :: "nat \<Rightarrow> config_type option" where
  "home s = (if s \<in> {22, 27, 28, 34, 35} then Some CONFIG_TYPE_ARRAY
     else if s \<in> {23, 30, 31, 36, 37} then Some CONFIG_TYPE_LIST
     else if s \<in> {0, 1, 3, 5, 8, 24, 32, 33, 38} then Some CONFIG_TYPE_GROUP else None)"

lemma homes_checked: "list_all (\<lambda>(t, s). mark s = [] \<longrightarrow> home s \<noteq> None \<longrightarrow> home t = home s) edges"
  by (simp add: edges_def mark_def home_def)

lemma home_types: "lr_stack (s # st) \<Longrightarrow> home s = Some ty \<Longrightarrow> \<exists>tys. types (s # st) = ty # tys"
proof (induction st arbitrary: s)
  case Nil
  then show ?case by (simp add: types_def mark_def home_def)
next
  case (Cons t st)
  show ?case
  proof (cases "mark s = []")
    case True
    then have "home t = Some ty"
      using homes_checked Cons.prems by (auto simp: list_all_iff)
    then show ?thesis using Cons True by (simp add: types_def)
  next
    case False
    then show ?thesis using Cons.prems(2) by (auto simp: types_def mark_def home_def split: if_splits)
  qed
qed

lemma value_home:
  assumes "lr_stack (s # st)" and "9 \<le> s" and "s \<le> 16"
  shows "\<exists>b rest ty tys. st = b # rest \<and> home b = Some ty \<and> types (s # st) = ty # tys
    \<and> (waiting (s # st) \<longleftrightarrow> ty = CONFIG_TYPE_GROUP) \<and> (14 \<le> s \<longrightarrow> ty \<noteq> CONFIG_TYPE_ARRAY)"
proof -
  obtain b rest where st: "st = b # rest" using assms by (cases st) auto
  then have "(b, s) \<in> set edges" and below: "lr_stack (b # rest)" using assms(1) by auto
  then obtain ty where b: "home b = Some ty" "ty = CONFIG_TYPE_GROUP \<longleftrightarrow> b = 8" "14 \<le> s \<longrightarrow> ty \<noteq> CONFIG_TYPE_ARRAY"
    using assms(2,3) by (auto simp: edges_def home_def)
  have "types (s # st) = types (b # rest)" using assms(2,3) st by (simp add: types_def mark_def)
  then show ?thesis
    using st b home_types [OF below b(1)] assms(2,3) by (auto simp: waiting_def waits_def)
qed

lemma set_elem_setters:
  "config_setting_set_bool_elem t p n b = set_elem t p n CONFIG_TYPE_BOOL (\<lambda>c. config_setting_set_bool c b)"
  "config_setting_set_int_elem t p n i = set_elem t p n CONFIG_TYPE_INT (\<lambda>c. config_setting_set_int c i)"
  "config_setting_set_float_elem t p n x = set_elem t p n CONFIG_TYPE_FLOAT (\<lambda>c. config_setting_set_float c x)"
  "config_setting_set_string_elem t p n s = set_elem t p n CONFIG_TYPE_STRING (\<lambda>c. config_setting_set_string c s)"
  by (simp_all add: config_setting_set_bool_elem_def config_setting_set_int_elem_def
      config_setting_set_float_elem_def config_setting_set_string_elem_def)

lemma store_kept:
  assumes "lr_stack (s # st)" and "9 \<le> s" and "s \<le> 13" and "built (types (s # st)) (waiting (s # st)) ctx"
    and "setter C_None = Some v" and "setter (zeroed ty) = Some v" and "config_setting_type v = ty" and "plain_value v"
  shows "\<exists>r. store_value line (\<lambda>t p n. set_elem t p n ty setter) setter format ctx = Inr r
    \<and> goes_on (types (s # st)) False r"
proof -
  obtain b rest ty0 tys where b: "st = b # rest" "home b = Some ty0" "types (s # st) = ty0 # tys"
      "waiting (s # st) \<longleftrightarrow> ty0 = CONFIG_TYPE_GROUP"
    using value_home [OF assms(1,2)] assms(3) by auto
  have "ty0 \<in> {CONFIG_TYPE_ARRAY, CONFIG_TYPE_LIST, CONFIG_TYPE_GROUP}"
    using b(2) by (auto simp: home_def split: if_splits)
  then consider "ty0 = CONFIG_TYPE_GROUP" | "ty0 \<in> {CONFIG_TYPE_ARRAY, CONFIG_TYPE_LIST}" "ty0 \<noteq> CONFIG_TYPE_GROUP" by auto
  then show ?thesis
  proof cases
    case 1
    then show ?thesis
      using store_waiting_kept [where setter = setter, OF _ assms(5)] plain_value_elements [OF assms(8)] assms(4) b
      by (fastforce simp: goes_on_def)
  next
    case 2
    then show ?thesis
      using store_element_kept [where setter = setter, OF _ 2(1) assms(6-8)] assms(4) b by simp
  qed
qed

lemmas setter_defs = config_setting_set_bool_def config_setting_set_int_def config_setting_set_float_def
  config_setting_set_string_def plain_value_def

lemma value_action:
  assumes "lr_stack (s # st)" and "(s, rule) \<in> {(9, 18), (10, 19), (11, 20), (12, 21), (13, 22)}"
    and "built (types (s # st)) (waiting (s # st)) ctx" and "has_type (state_type s) v"
  shows "\<exists>r. yyaction rule line v ctx = Inr r \<and> goes_on (types (s # st)) False r"
proof -
  have s: "9 \<le> s" "s \<le> 13" using assms(2) by auto
  note store = store_kept [OF assms(1) s assms(3)]
  consider (bool) "s = 9" "rule = 18" | (int) "s = 10" "rule = 19" | (hex) "s = 11" "rule = 20"
    | (real) "s = 12" "rule = 21" | (str) "s = 13" "rule = 22" using assms(2) by auto
  then show ?thesis
  proof cases
    case bool
    then obtain i where v: "v = I_Val i" using assms(4) by (auto simp: state_type_def has_type_def)
    show ?thesis
      using store [of "\<lambda>c. config_setting_set_bool c i" "C_Bool i" CONFIG_TYPE_BOOL] bool v
      by (simp add: yyaction_def set_elem_setters setter_defs)
  next
    case int
    then obtain i where v: "v = I_Val i" using assms(4) by (auto simp: state_type_def has_type_def)
    show ?thesis
      using store [of "\<lambda>c. config_setting_set_int c i" "C_Int i" CONFIG_TYPE_INT] int v
      by (simp add: yyaction_def set_elem_setters setter_defs)
  next
    case hex
    then obtain i where v: "v = I_Val i" using assms(4) by (auto simp: state_type_def has_type_def)
    show ?thesis
      using store [of "\<lambda>c. config_setting_set_int c i" "C_Int i" CONFIG_TYPE_INT] hex v
      by (simp add: yyaction_def set_elem_setters setter_defs)
  next
    case real
    then obtain x where v: "v = F_Val x" using assms(4) by (auto simp: state_type_def has_type_def)
    show ?thesis
      using store [of "\<lambda>c. config_setting_set_float c x" "C_Float x" CONFIG_TYPE_FLOAT] real v
      by (simp add: yyaction_def set_elem_setters setter_defs)
  next
    case str
    then obtain x where v: "v = S_Val x" using assms(4) by (auto simp: state_type_def has_type_def)
    show ?thesis
      using store [of "\<lambda>c. config_setting_set_string c (Some x)" "C_String (Some x)" CONFIG_TYPE_STRING] str v
      by (simp add: yyaction_def set_elem_setters setter_defs)
  qed
qed

lemma opening_action:
  assumes "lr_stack (s # st)" and "(s, rule) \<in> {(14, 10), (15, 12), (16, 31)}"
    and "built (types (s # st)) (waiting (s # st)) ctx"
  shows "\<exists>r. yyaction rule line v ctx = Inr r \<and> goes_on (opened_by rule @ types (s # st)) False r"
proof -
  obtain ty where rule: "opened_by rule = [ty]" "ty \<in> {CONFIG_TYPE_ARRAY, CONFIG_TYPE_LIST, CONFIG_TYPE_GROUP}"
      "yyaction rule line v ctx = open_collection ty ctx"
    using assms(2) by (auto simp: opened_by_def yyaction_def)
  have s: "9 \<le> s" "s \<le> 16" "14 \<le> s" using assms(2) by auto
  obtain b rest ty0 tys where b: "st = b # rest" "home b = Some ty0" "types (s # st) = ty0 # tys"
      "waiting (s # st) \<longleftrightarrow> ty0 = CONFIG_TYPE_GROUP" "ty0 \<noteq> CONFIG_TYPE_ARRAY"
    using value_home [OF assms(1) s(1,2)] s(3) by auto
  then have "\<not> waiting (s # st) \<Longrightarrow> ty0 = CONFIG_TYPE_LIST" by (auto simp: home_def split: if_splits)
  then show ?thesis
    using open_kept [OF _ _ _ rule(2)] assms(3) b rule(1,3) by (fastforce simp: goes_on_def)
qed

lemma reduce_action:
  assumes "lr_stack (s # st)" and "yydefault s = Reduce rule" and "types (s # st) = closed_by rule @ tys"
    and "built (types (s # st)) (waiting (s # st)) ctx" and "has_type (state_type s) v" and "tys \<noteq> []"
  shows "\<exists>r. yyaction rule line v ctx = Inr r \<and> goes_on (opened_by rule @ tys) (rule = 8) r"
proof -
  have pair: "(s, rule) \<in> set reductions"
    using yydefault_reductions lr_stack_top [OF assms(1)] assms(2) by blast
  then consider (named) "s = 1" "rule = 8" | (opened) "(s, rule) \<in> {(14, 10), (15, 12), (16, 31)}"
    | (val) "(s, rule) \<in> {(9, 18), (10, 19), (11, 20), (12, 21), (13, 22)}"
    | (closed) "(s, rule) \<in> {(35, 11), (37, 13), (38, 32)}"
    | (other) "s \<notin> {5, 8} \<and> (s < 9 \<or> 16 < s)" "rule \<notin> {8, 10, 11, 12, 13, 18, 19, 20, 21, 22, 31, 32}"
    unfolding reductions_def by auto
  then show ?thesis
  proof cases
    case named
    obtain tys' where group: "types (s # st) = CONFIG_TYPE_GROUP # tys'"
      using home_types [OF assms(1)] named by (auto simp: home_def)
    obtain n where "v = S_Val n"
      using assms(5) named by (auto simp: has_type_def state_type_def)
    moreover have "\<not> waiting (s # st)" using named by (cases st) (simp_all add: waiting_def waits_def)
    then have "goes_on (types (s # st)) True (add_named line n ctx)"
      using named_kept assms(4) unfolding group by simp
    moreover have "tys = types (s # st)" using assms(3) named by (simp add: closed_by_def)
    ultimately show ?thesis using named by (simp add: yyaction_def opened_by_def)
  next
    case opened
    then show ?thesis
      using opening_action [OF assms(1) opened assms(4)] assms(3) by (auto simp: closed_by_def)
  next
    case val
    then show ?thesis
      using value_action [OF assms(1) val assms(4,5)] assms(3) by (auto simp: closed_by_def opened_by_def)
  next
    case closed
    then have "\<not> waiting (s # st)" by (cases st) (auto simp: waiting_def waits_def)
    moreover obtain ty where "closed_by rule = [ty]" using closed by (auto simp: closed_by_def)
    ultimately have "built tys False (close_collection ctx)"
      using close_kept assms(3,4,6) by simp
    then show ?thesis using closed by (auto simp: yyaction_def opened_by_def goes_on_def)
  next
    case other
    then have "\<not> waiting (s # st)" by (cases st) (auto simp: waiting_def waits_def)
    then show ?thesis
      using other(2) assms(3,4) by (simp add: yyaction_def opened_by_def closed_by_def goes_on_def)
  qed
qed

section \<open>The tokens\<close>

text \<open>
  A token carries the value its type promises.  The scanner fails on a decimal number that \<open>atoi\<close>
  cannot represent and on a string in which \<open>make_string\<close> runs over the end, and never otherwise.
\<close>

lemma skip_faults: "skip_line cs = Inl e \<Longrightarrow> e = Out_Of_Bounds" "skip_comment cs = Inl e \<Longrightarrow> e = Out_Of_Bounds"
  by (induction cs) (auto split: if_splits)

lemma next_segment_faults: "next_segment cs = Inl e \<Longrightarrow> e = Out_Of_Bounds"
proof (induction cs rule: next_segment.induct)
  case (2 c cs)
  then show ?case by (auto split: if_splits sum.splits dest: skip_faults simp: bind_result_def)
qed simp

lemma unescape_faults: "unescape esc cs = Inl e \<Longrightarrow> e = Out_Of_Bounds"
proof (induction esc cs rule: unescape.induct)
  case (2 esc c cs)
  then show ?case by (auto split: if_splits sum.splits dest: next_segment_faults simp: bind_result_def)
qed simp

definition good_token :: "((yytokentype \<times> yystype) \<times> 'a) result \<Rightarrow> bool" where
  "good_token r \<longleftrightarrow> (case r of Inl e \<Rightarrow> e \<in> {Overflow, Out_Of_Bounds}
     | Inr ((t, v), s) \<Rightarrow> has_type (token_type t) v)"

lemma yy_action_types:
  "yy_action atof act yytext = Inr (Some (t, v)) \<Longrightarrow> has_type (token_type t) v"
  "yy_action atof act yytext = Inl e \<Longrightarrow> e \<in> {Overflow, Out_Of_Bounds}"
  by (auto simp: yy_action_def has_type_def bind_result_def atoi_def make_string_def Let_def
      dest: unescape_faults split: if_splits sum.splits)

lemma yylex_good:
  assumes "yylex atof s = Some r"
  shows "good_token r"
proof (rule yylex.raw_induct [of "\<lambda>atof s r. good_token r", OF _ assms])
  fix rec atof s r
  assume rec: "\<And>atof s r. rec atof s = Some r \<Longrightarrow> good_token r"
    and body: "(if yy_text s = [] then Some (Inr ((TOK_EOF, No_Value), s))
      else case Option.bind (yy_match (yy_start s) None 0 (yy_text s)) yy_find_action of
        None \<Rightarrow> None
      | Some (act, n) \<Rightarrow>
          (case yy_action atof act (take n (yy_text s)) of
             Inl e \<Rightarrow> Some (Inl e)
           | Inr None \<Rightarrow> rec atof (yy_advance act n s)
           | Inr (Some t) \<Rightarrow> Some (Inr (t, yy_advance act n s)))) = Some r"
  show "good_token r"
  proof (cases "yy_text s = []")
    case True
    then show ?thesis using body by (auto simp: good_token_def has_type_def)
  next
    case False
    then obtain act n where step: "(case yy_action atof act (take n (yy_text s)) of
             Inl e \<Rightarrow> Some (Inl e)
           | Inr None \<Rightarrow> rec atof (yy_advance act n s)
           | Inr (Some t) \<Rightarrow> Some (Inr (t, yy_advance act n s))) = Some r"
      using body by (auto split: option.splits)
    show ?thesis
    proof (cases "yy_action atof act (take n (yy_text s))")
      case (Inl e)
      then show ?thesis using step yy_action_types(2) [OF Inl] by (auto simp: good_token_def)
    next
      case (Inr res)
      then show ?thesis
        using step rec yy_action_types(1) by (cases res) (auto simp: good_token_def)
    qed
  qed
qed

text \<open>
  \<open>make_string\<close> trusts that a string has an opening quote for each closing one, but \<open>strlen\<close>
  ends at a zero character, which the scanner allows in a comment between two segments.
\<close>

lemma make_string_runs_over:
  "make_string ([CHR 0x22, CHR ''a'', CHR 0x22] @ ''/*'' @ [CHR 0x00] @ ''*/'' @ [CHR 0x22, CHR ''b'', CHR 0x22])
    = Inl Out_Of_Bounds"
  by code_simp

section \<open>Every parse\<close>

text \<open>The invariant of the driver.\<close>

definition sound :: "parser \<Rightarrow> bool" where
  "sound p \<longleftrightarrow> (let states = map fst (yystack p) in
     lr_stack states \<and> built (types states) (waiting states) (yyctx p)
     \<and> has_type (state_type (hd states)) (snd (hd (yystack p)))
     \<and> (\<forall>t v. yychar p = Some (t, v) \<longrightarrow> has_type (token_type t) v)
     \<and> yy_start (yyscanner p) \<in> {1, 3})"

definition good_end :: "(int \<times> parse_context) result \<Rightarrow> bool" where
  "good_end r \<longleftrightarrow> (case r of Inl e \<Rightarrow> e \<in> {Overflow, Out_Of_Bounds}
     | Inr (code, ctx) \<Rightarrow> if code = 0 then ctx_error ctx = None \<and> well_formed (ctx_tree ctx) else ctx_error ctx \<noteq> None)"

text \<open>
  A bound on the steps that are left: a shift uses up a token, and a reduction leads to a state
  of lower rank.
\<close>

definition tokens_left :: "parser \<Rightarrow> nat" where
  "tokens_left p = 2 * length (yy_text (yyscanner p))
     + (case yychar p of None \<Rightarrow> 0 | Some (t, v) \<Rightarrow> if t = TOK_EOF then 0 else 1)"

definition steps_left :: "parser \<Rightarrow> nat" where
  "steps_left p = 5 * tokens_left p + ranks ! yystate p"

lemma ranks_small: "s < 41 \<Longrightarrow> ranks ! s < 5"
proof -
  have "list_all (\<lambda>r. r < 5) ranks" and "length ranks = 41" by (simp_all add: ranks_def)
  then show "s < 41 \<Longrightarrow> ranks ! s < 5" by (simp add: list_all_length)
qed

lemma sound_initial: "sound (initial_parser cs)"
  by (simp add: sound_def initial_parser_def types_def waiting_def mark_def built_def state_type_def
      has_type_def distinct_names_def)

lemma lookahead_kept:
  assumes "sound p"
  shows "\<exists>r. yylookahead atof p = Some r \<and> (case r of Inl e \<Rightarrow> e \<in> {Overflow, Out_Of_Bounds}
     | Inr q \<Rightarrow> sound q \<and> yystack q = yystack p \<and> tokens_left q \<le> tokens_left p
         \<and> (blind (yystate q) \<or> yychar q \<noteq> None))"
proof (cases "blind (yystate p) \<or> yychar p \<noteq> None")
  case True
  then show ?thesis using assms by (auto simp: yylookahead_def blind_def)
next
  case False
  obtain r where r: "yylex atof (yyscanner p) = Some r"
    and left: "\<And>t s. r = Inr (t, s) \<Longrightarrow> (yy_start s = 1 \<or> yy_start s = 3)
      \<and> (fst t = TOK_EOF \<and> yy_text s = [] \<or> length (yy_text s) < length (yy_text (yyscanner p)))"
    using yylex_ends [of "yyscanner p" atof] assms by (auto simp: sound_def Let_def)
  have good: "good_token r" by (rule yylex_good [OF r])
  show ?thesis
  proof (cases r)
    case (Inl e)
    then show ?thesis using False r good by (simp add: yylookahead_def blind_def good_token_def)
  next
    case (Inr ts)
    obtain t v s where ts: "ts = ((t, v), s)" by (metis prod.exhaust)
    then have "has_type (token_type t) v" using good Inr by (simp add: good_token_def)
    then show ?thesis
      using False r Inr ts left [of "(t, v)" s] assms
      by (auto simp: yylookahead_def blind_def sound_def Let_def tokens_left_def)
  qed
qed

lemma sound_stack:
  assumes "sound p"
  obtains s v rest where "yystack p = (s, v) # rest" and "lr_stack (s # map fst rest)" and "yystate p = s"
    and "built (types (s # map fst rest)) (waiting (s # map fst rest)) (yyctx p)" and "has_type (state_type s) v"
proof -
  have "yystack p \<noteq> []" using assms by (auto simp: sound_def Let_def)
  then obtain s v rest where "yystack p = (s, v) # rest" by (metis list.exhaust prod.exhaust)
  then show thesis using that assms by (simp add: sound_def Let_def yystate_def)
qed

lemma table_action:
  assumes "sound q" and "yyact q \<noteq> yydefault (yystate q)" and "blind (yystate q) \<or> yychar q \<noteq> None"
  obtains t v where "yychar q = Some (t, v)" and "sound_action (yystate q) t" and "yyact q = yyaction_on (yystate q) t"
proof -
  obtain s where s: "yystate q = s" "s < 41" using sound_stack [OF assms(1)] lr_stack_top by metis
  then have "\<not> blind s" using assms(2) by (auto simp: yyact_def blind_def)
  moreover obtain t v where "yychar q = Some (t, v)"
    using assms(3) calculation s by (cases "yychar q") auto
  ultimately show thesis using that action_sound s by (auto simp: yyact_def blind_def)
qed

lemma yydefault_cases: "yydefault s \<noteq> Shift u" "yydefault s \<noteq> Accept"
  by (simp_all add: yydefault_def)

lemma shift_kept:
  assumes "sound q" and "yyact q = Shift u" and "blind (yystate q) \<or> yychar q \<noteq> None"
  shows "sound (yyshift u q)" and "steps_left (yyshift u q) < steps_left q"
proof -
  obtain t v where t: "yychar q = Some (t, v)" "sound_action (yystate q) t" "yyaction_on (yystate q) t = Shift u"
    using table_action [OF assms(1) _ assms(3)] assms(2) yydefault_cases(1) by metis
  obtain s x rest where s: "yystack q = (s, x) # rest" "lr_stack (s # map fst rest)" "yystate q = s"
      "built (types (s # map fst rest)) (waiting (s # map fst rest)) (yyctx q)"
    using sound_stack [OF assms(1)] by metis
  have ok: "sound_shift s u t" using t s by (simp add: sound_action_def)
  then have lr: "lr_stack (u # s # map fst rest)" using s(2) by (simp add: sound_shift_def)
  have "waiting (u # s # map fst rest) = waiting (s # map fst rest)"
    using ok s(2) by (cases rest) (auto simp: sound_shift_def waiting_def waits_def edge_below list_all_iff)
  moreover have "types (u # s # map fst rest) = types (s # map fst rest)"
    using ok by (simp add: types_def sound_shift_def)
  moreover have "has_type (state_type u) v"
    using ok assms(1) t(1) by (auto simp: sound_shift_def sound_def Let_def has_type_def)
  moreover have not_eof: "t \<noteq> TOK_EOF" using ok by (simp add: sound_shift_def)
  ultimately show "sound (yyshift u q)"
    using s lr t(1) assms(1) by (auto simp: sound_def yyshift_def Let_def split: yytokentype.splits)
  have "u < 41" by (rule lr_stack_top [OF lr])
  then show "steps_left (yyshift u q) < steps_left q"
    using not_eof t(1) ranks_small [of u]
    by (simp add: steps_left_def tokens_left_def yyshift_def yystate_def split: yytokentype.splits)
qed

lemma reduce_kept:
  assumes "sound q" and "yyact q = Reduce rule" and "blind (yystate q) \<or> yychar q \<noteq> None"
  shows "\<exists>r. yyreduce rule q = Inr r \<and> (case r of Inl q' \<Rightarrow> sound q' \<and> steps_left q' < steps_left q
    | Inr ctx \<Rightarrow> ctx_error ctx \<noteq> None)"
proof -
  have default: "yydefault (yystate q) = Reduce rule"
  proof (cases "yyact q = yydefault (yystate q)")
    case False
    then obtain t where t: "sound_action (yystate q) t" "yyact q = yyaction_on (yystate q) t"
      using table_action [OF assms(1) _ assms(3)] by metis
    have "yyaction_on (yystate q) t = Reduce rule" using t(2) assms(2) by simp
    then show ?thesis using t(1) by (simp add: sound_action_def)
  qed (use assms(2) in simp)
  obtain s x rest where s: "yystack q = (s, x) # rest" "lr_stack (s # map fst rest)" "yystate q = s"
      "built (types (s # map fst rest)) (waiting (s # map fst rest)) (yyctx q)" "has_type (state_type s) x"
    using sound_stack [OF assms(1)] by metis
  define states where "states = s # map fst rest"
  obtain w t below where w: "states = w @ t # below" "length w = yyr2 ! rule" "lr_stack (yygoto rule t # t # below)"
      "ranks ! yygoto rule t < ranks ! s" "state_type (yygoto rule t) = Some_Value"
      "concat (map mark w) = closed_by rule" "mark (yygoto rule t) = opened_by rule"
      "waits (yygoto rule t) t = (rule = 8)"
    using reduction_step [OF s(2)] default s(3) unfolding states_def by metis
  have closed: "types states = closed_by rule @ types (t # below)" using w by (simp add: types_def)
  have opened: "types (yygoto rule t # t # below) = opened_by rule @ types (t # below)"
    using w by (simp add: types_def)
  obtain r where r: "yyaction rule (yylineno (yyscanner q)) x (yyctx q) = Inr r"
      "goes_on (opened_by rule @ types (t # below)) (rule = 8) r"
    using reduce_action [OF s(2) _ _ s(4,5)] default s(3) closed unfolding states_def
    by (metis append_is_Nil_conv not_Cons_self2 types_def)
  show ?thesis
  proof (cases r)
    case (Yyabort ctx)
    then show ?thesis using r s by (simp add: yyreduce_def goes_on_def)
  next
    case (Continue ctx)
    define q' where "q' = q\<lparr>yystack := yypop rule (yystack q), yyctx := ctx\<rparr>"
    have "map fst (drop (length w) (yystack q)) = t # below"
      using w(1) s(1) by (simp add: states_def flip: drop_map)
    then have pop: "map fst (yypop rule (yystack q)) = yygoto rule t # t # below"
      using w(2) by (auto simp: yypop_def Let_def)
    then have top: "yystate q' = yygoto rule t" by (auto simp: q'_def yystate_def)
    have "built (types (yygoto rule t # t # below)) (waiting (yygoto rule t # t # below)) ctx"
      using r(2) w(8) by (simp add: Continue goes_on_def opened waiting_def)
    then have "sound q'"
      using assms(1) pop w(3,5) by (simp add: sound_def q'_def Let_def has_type_def)
    moreover have "steps_left q' < steps_left q"
      using top w(4) s(3) by (simp add: steps_left_def tokens_left_def q'_def)
    ultimately show ?thesis using Continue r s by (simp add: yyreduce_def q'_def)
  qed
qed

lemma yyparse_good:
  assumes "sound p"
  shows "\<exists>r. yyparse atof p = Some r \<and> good_end r"
  using assms
proof (induction "steps_left p" arbitrary: p rule: less_induct)
  case less
  show ?case
  proof (cases "YYMAXDEPTH \<le> length (yystack p)")
    case True
    then show ?thesis by (subst yyparse.simps) (simp add: good_end_def yyerror_def)
  next
    case room: False
    obtain look where look: "yylookahead atof p = Some look" "case look of Inl e \<Rightarrow> e \<in> {Overflow, Out_Of_Bounds}
        | Inr q \<Rightarrow> sound q \<and> yystack q = yystack p \<and> tokens_left q \<le> tokens_left p
            \<and> (blind (yystate q) \<or> yychar q \<noteq> None)"
      using lookahead_kept [OF less.prems] by blast
    show ?thesis
    proof (cases look)
      case (Inl e)
      then show ?thesis using room look by (subst yyparse.simps) (simp add: good_end_def)
    next
      case (Inr q)
      then have q: "sound q" "blind (yystate q) \<or> yychar q \<noteq> None" and "steps_left q \<le> steps_left p"
        using look(2) by (auto simp: steps_left_def yystate_def)
      then have IH: "sound q' \<Longrightarrow> steps_left q' < steps_left q \<Longrightarrow> \<exists>r. yyparse atof q' = Some r \<and> good_end r" for q'
        using less.hyps by auto
      show ?thesis
      proof (cases "yyact q")
        case (Shift u)
        then have "yyparse atof p = yyparse atof (yyshift u q)"
          using room look(1) Inr by (subst yyparse.simps) simp
        then show ?thesis using IH [OF shift_kept [OF q(1) Shift q(2)]] by simp
      next
        case (Reduce rule)
        obtain r where r: "yyreduce rule q = Inr r" "case r of Inl q' \<Rightarrow> sound q' \<and> steps_left q' < steps_left q
            | Inr ctx \<Rightarrow> ctx_error ctx \<noteq> None"
          using reduce_kept [OF q(1) Reduce q(2)] by blast
        show ?thesis
        proof (cases r)
          case (Inl q')
          then have "yyparse atof p = yyparse atof q'"
            using room look(1) Inr Reduce r(1) by (subst yyparse.simps) simp
          then show ?thesis using IH [of q'] Inl r(2) by simp
        next
          case (Inr ctx)
          then show ?thesis
            using room look(1) \<open>look = Inr q\<close> Reduce r by (subst yyparse.simps) (simp add: good_end_def)
        qed
      next
        case Accept
        then obtain t where "yyaction_on (yystate q) t = Accept" "sound_action (yystate q) t"
          using table_action [OF q(1) _ q(2)] yydefault_cases(2) by metis
        then have "yystate q = 2" by (simp add: sound_action_def)
        then obtain below where "built (types (2 # below)) (waiting (2 # below)) (yyctx q)"
          using sound_stack [OF q(1)] by metis
        then have "ctx_error (yyctx q) = None \<and> well_formed (ctx_tree (yyctx q))"
          by (auto simp: built_def waiting_def waits_def split: list.splits)
        then show ?thesis
          using room look(1) Inr Accept by (subst yyparse.simps) (simp add: good_end_def)
      next
        case Syntax_Error
        then show ?thesis
          using room look(1) Inr by (subst yyparse.simps) (simp add: good_end_def yyerror_def)
      qed
    qed
  qed
qed

text \<open>
  Property C7 (liveness): the reading of a configuration ends on every text.  It fails with an
  overflow or an access out of bounds of the scanner, or it gives a result, which is success
  exactly when no error has been recorded.
\<close>

theorem config_read_ends:
  "\<exists>r. config_read atof cs = Some r
     \<and> (case r of Inl e \<Rightarrow> e \<in> {Overflow, Out_Of_Bounds} | Inr (ok, ctx) \<Rightarrow> ok = (ctx_error ctx = None))"
proof -
  obtain r where "yyparse atof (initial_parser cs) = Some r" "good_end r"
    using yyparse_good [OF sound_initial] by blast
  then show ?thesis
    by (cases r) (auto simp: config_read_def good_end_def simp del: split_paired_All not_None_eq not_Some_eq split: if_splits)
qed

text \<open>
  Property C8 (invariant): the tree that is read without an error is well formed: the settings of
  its groups have names, no two of a group the same, those of arrays and lists have none,
  the elements of an array are simple values of one type, and every setting has a value.
\<close>

theorem config_read_well_formed:
  assumes "config_read atof cs = Some (Inr (True, ctx))"
  shows "well_formed (ctx_tree ctx)"
proof -
  obtain r where "yyparse atof (initial_parser cs) = Some r" "good_end r"
    using yyparse_good [OF sound_initial] by blast
  then show ?thesis
    using assms by (cases r) (auto simp: config_read_def good_end_def split: if_splits)
qed

lemma config_read_well_formed_witness:
  "\<exists>cs ctx. config_read (\<lambda>_. 0) cs = Some (Inr (True, ctx)) \<and> well_formed (ctx_tree ctx)
     \<and> ctx_tree ctx = C_Group [Setting (Some ''a'') (C_List [Setting None (C_Int 1), Setting None (C_Bool 0)])]"
proof -
  define t where "t = [Setting (Some ''a'') (C_List [Setting None (C_Int 1), Setting None (C_Bool 0)])]"
  have "valid_name ''a''" by code_simp
  then have "writable (\<lambda>_. CONFIG_FORMAT_DEFAULT) [] (C_Group t)" by (simp add: t_def)
  moreover have "stack_need (C_Group t) < YYMAXDEPTH" by (simp add: t_def YYMAXDEPTH_def)
  ultimately obtain cs ctx where "yyparse (\<lambda>_. 0) (initial_parser cs) = Some (Inr (0, ctx))"
      "ctx_tree ctx = reread (\<lambda>_. 0) (C_Group t)"
    using written_is_parsed [where print_e = "\<lambda>_. ''1.000000e+00''" and atof = "\<lambda>_. 0", OF one_printed] by metis
  then have "config_read (\<lambda>_. 0) cs = Some (Inr (True, ctx))" and "ctx_tree ctx = C_Group t"
    by (simp_all add: config_read_def t_def)
  then show ?thesis using config_read_well_formed t_def by blast
qed

end
