(* ===== verification/Spec2Isabelle.thy ===== *)
theory Spec2Isabelle
  imports Phasing Program Formulas Geometry Process_Image Post_Process Saddle_Search Transfer_Function R_Factors Shell_Average Reflections
    Config_Round_Trip Config_Safety
begin

text \<open>
  Hawk reconstructs the image of an object from its diffraction pattern: the detector measures
  the amplitudes of the Fourier transform, the phases are lost, and an iteration looks for an
  image that has the measured amplitudes and vanishes outside a support.  This library models
  the C sources under \<open>src/src\<close> and proves what they compute.  Every definition is named after
  the function it translates, unless that name is taken in HOL.

  \<^bold>\<open>How the program runs.\<close>  \<open>uwrapc_main\<close> (\<open>uwrapc.c\<close>) sets the default options, reads a
  configuration file over them, loads the images it names and calls \<open>uwrapc_start\<close>, which
  writes the options that were used to a new file, prepares amplitudes, support and first guess,
  and starts \<open>complete_reconstruction\<close>.  This calls the fast path, which leaves the iterations to
  the phaser of libspimage, when the algorithm and the support update have a counterpart there,
  and otherwise runs its own loop over the iterations of \<open>algorithms.c\<close>, updating the support,
  writing images and lines of the log on the way.  Around it stand the programs that prepare a
  pattern (\<open>process_image\<close>), work on results (\<open>post_process\<close>), evaluate formulas over images
  (\<open>math_parser.c\<close>) and fit the positions of several detectors (\<open>geometry_constraints.c\<close>).

  \<^bold>\<open>How it is modelled.\<close>  State is passed explicitly.  The record \<open>hawk\<close> (theory \<open>Log\<close>) holds
  what one run keeps: the options, the \<open>Log\<close> structure, the lines written, and the
  function-local \<open>static\<close> variables.  A function that can end the program, or run into
  undefined behaviour of C (an index outside an array, a null pointer, memory used after its
  release, a write through a pointer of another type, a division by zero), returns
  \<open>fault + 'a\<close>; asserts are active, as nothing in the build files defines \<open>NDEBUG\<close>.  C integers
  are \<open>int\<close>, with \<open>sdiv\<close> and \<open>smod\<close> for the division and the casts written out; no property
  rests on an overflow, as sizes and iteration counts stay far from the bounds of \<open>int\<close>.
  Floating-point numbers are reals: rounding is not modelled, but for the quotient that selects
  the bin of a phase error, where a truncation depends on it (\<open>error_bin\<close>), and an operation that leaves the
  finite numbers gives the value of a function \<open>nonfinite\<close> about which nothing is
  assumed, so that nothing follows from a division by zero.  libspimage, GSL, \<open>getopt\<close>,
  \<open>strtod\<close> and the files are parameters; what a theorem needs of them is a named hypothesis (theory
  \<open>Image\<close>), and a concrete instance on images of two pixels shows that the hypotheses can hold
  together.

  \<^bold>\<open>Theories and sources.\<close>
  \<^item> \<open>Prelude\<close>, \<open>Image\<close>, \<open>Loops\<close>: faults, C arithmetic, the pixel loops and their equations
    (\<open>loop_simps\<close>), images, the library as a record of functions, and the locale \<open>bounded_loop\<close>
    that both drivers interpret.
  \<^item> \<open>Options\<close>, \<open>Metadata\<close> (\<open>configuration.h\<close>, \<open>metadata.c\<close>): the options as a typed store, their
    defaults, and the table of all options with type, group, address and dependencies.
  \<^item> \<open>Evolution\<close> (\<open>configuration.c\<close>): the parameters that change with the iteration.  The Bezier
    parameter is the root of its cubic in \<open>[0, 1]\<close>, and an interpolation stays within its values.
  \<^item> \<open>Config_Tree\<close> (\<open>libconfig/libconfig.c\<close>): the tree of settings.  A tree stands for a map from
    paths to values; adding and removing settings are updates of that map.
  \<^item> \<open>Config_Text\<close> (\<open>libconfig/libconfig.c\<close>), \<open>Config_Scanner\<close> (\<open>libconfig/scanner.c\<close>),
    \<open>Config_Parser\<close> (\<open>libconfig/grammar.c\<close>): the text of a tree, the tables and the driver of
    the scanner with \<open>make_string\<close>, the tables and the driver of the parser with its actions.
    \<open>Config_Automaton\<close>, \<open>Config_Tokens\<close> and \<open>Config_Moves\<close> work out what both do on a written
    text, and \<open>Config_Round_Trip\<close> shows that it is read back as the same tree.  \<open>Config_States\<close>
    and \<open>Config_Safety\<close> show what holds of the reader on every text.
  \<^item> \<open>Options_IO\<close>, \<open>Options_Table\<close>, \<open>Program\<close> (\<open>configuration.c\<close>, \<open>uwrapc.c\<close>): reading and writing
    configuration files, and the start of the program.  The writer refines the saving of a
    map, what is written is read back, and the types of the table are those of the fields but in two places.
  \<^item> \<open>Support\<close> (\<open>support.c\<close>): thresholds, the area of a support, the first support from the
    autocorrelation, the filter of the intensities.
  \<^item> \<open>Algorithms\<close>, \<open>Phasing\<close> (\<open>algorithms.c\<close>): all serial iterations.  Solutions are fixed points,
    error reduction never increases the error, the optimised difference map is the reference
    one, the constraints hold afterwards.  The constraint steps share a locale.
  \<^item> \<open>Saddle_Data\<close>, \<open>Saddle\<close>, \<open>Saddle_Search\<close> (\<open>saddle/minmaxtau.c\<close>, \<open>saddle/minmaxL.c\<close>): the
    saddle-point search behind SO2D, the functional whose gradient it follows, the limits of its
    steps and the reasons for which a search ends early.
  \<^item> \<open>Log\<close>, \<open>Setup\<close>, \<open>Fast_Path\<close>, \<open>Reconstruction\<close> (\<open>log.c\<close>, \<open>uwrapc.c\<close>, \<open>output_projection.c\<close>): the log,
    the images a run starts from, and the two drivers with the schedule on which
    they log, write and stop.
  \<^item> \<open>Math_Parser\<close>, \<open>Formulas\<close> (\<open>math_parser.c\<close>): tokens, postfix conversion and stack machine;
    the text of a formula is evaluated to what the formula denotes.
  \<^item> \<open>Geometry\<close> (\<open>geometry_constraints.c\<close>): projective transforms, residuals and their numerical
    derivative.
  \<^item> \<open>Process_Image\<close>, \<open>Post_Process\<close> (\<open>process_image.c\<close>, \<open>post_process.c\<close>): the two programs
    from their command line to the image they write.
  \<^item> \<open>Transfer_Function\<close>, \<open>R_Factors\<close>, \<open>Shell_Average\<close>, \<open>Reflections\<close> (\<open>utils/prtf.c\<close>,
    \<open>utils/r_factor.c\<close> and \<open>utils/rs_r_factor.c\<close>, \<open>utils/circular_averaging.c\<close>,
    \<open>utils/image_to_reflections.c\<close>): the programs that judge a reconstruction.  The best shift
    between two reconstructions is found, factors are fractions, every pixel is counted in
    exactly one shell, and the reflections are the offsets from the centre.

  \<^bold>\<open>Loops.\<close>  Loops over pixels and lists are folds or structural recursion.  The loop of the
  fast path and the program's own loop take a number of rounds as fuel and return \<open>None\<close> when it
  is used up; \<open>bounded_loop.loop_ends\<close> shows that more rounds than are left to the next
  multiple of a period beyond \<open>max_iterations\<close>, or to \<open>max_iterations\<close>, never give \<open>None\<close>.
  The loops of the scanner and of the parser are partial functions with the result \<open>None\<close>
  for a run that does not end; \<open>yylex_ends\<close> and \<open>config_read_ends\<close> show that every run ends.

  \<^bold>\<open>Not modelled.\<close>  The buffers of the generated scanner (the text is one string), the vendored
  \<open>getopt.c\<close> and \<open>gtm.c\<close>, and the graphical interfaces in C++ (\<open>HawkGUI\<close>, \<open>Look\<close>, Qt widgets
  over the same options).  \<open>restore_image.c\<close> is commented out of the build and calls functions
  that no longer exist.  The other programs under \<open>utils\<close> convert file formats or plot, are commented
  out of the build, or are single loops around calls of libspimage; \<open>background_subtract\<close> and
  \<open>image_math\<close> access one element behind an array.  The network mode of \<open>uwrapc_main\<close> is a Qt event loop, and the MPI variant of
  RAAR does not compile.  Files that are only written for inspection, printed text, timers, the
  working directory and the release of memory (but for the release of \<open>real_in\<close>, which matters) are
  left out.
\<close>

end
